(* ===== verification/Prelude.thy ===== *)
theory Prelude
  imports Main "HOL-Library.Word"
begin

section \<open>Shared notions: Python values, failing programs, small library\<close>

text \<open>
  The vocabulary every component theory uses.
  \<^item> Python strings are lists of Unicode code points (\<open>pystr\<close>), because the code measures
    them with \<open>len\<close>; an ASCII literal of the source is written \<open>lit ''...''\<close>.
  \<^item> \<open>bytes\<close> are lists of \<open>8 word\<close>; a \<open>UUID\<close> is its 128-bit value.
  \<^item> A \<open>datetime\<close> carries its wall clock in microseconds and, when it is aware, its UTC
    offset; a \<open>timedelta\<close> is an \<open>int\<close> of microseconds.
  \<^item> A Python expression that may raise is a sum (\<open>Inl\<close> the exception); a method that also
    changes stored state is a \<open>prog\<close>: a function from the state to the outcome and the state
    left behind, so that what a method has written before it raises stays visible.
\<close>

named_theorems outcome_simps "evaluation of the exception and state combinators"

subsection \<open>Strings and bytes\<close>

type_synonym pystr = "nat list"
type_synonym bytes = "8 word list"

definition lit :: "string \<Rightarrow> pystr" where
  "lit s = map of_char s"

lemma lit_eq_iff [simp]: "lit s = lit t \<longleftrightarrow> s = t"
proof -
  have "inj (of_char :: char \<Rightarrow> nat)"
    by (simp add: inj_def of_char_eq_iff)
  then show ?thesis
    by (simp add: lit_def inj_map_eq_map)
qed

lemma lit_Nil_iff [simp]: "lit s = [] \<longleftrightarrow> s = []" "[] = lit s \<longleftrightarrow> s = []"
  by (simp_all add: lit_def)

lemma length_lit [simp]: "length (lit s) = length s"
  by (simp add: lit_def)

definition startswith :: "'a list \<Rightarrow> 'a list \<Rightarrow> bool" where
  "startswith s p \<longleftrightarrow> take (length p) s = p"

definition endswith :: "'a list \<Rightarrow> 'a list \<Rightarrow> bool" where
  "endswith s p \<longleftrightarrow> length p \<le> length s \<and> drop (length s - length p) s = p"

lemma startswith_length: "startswith s p \<Longrightarrow> length p \<le> length s"
  by (metis length_take min.absorb_iff2 min.commute startswith_def)

lemma startswith_iff: "startswith s p \<longleftrightarrow> (\<exists>t. s = p @ t)"
  by (metis append_eq_conv_conj append_take_drop_id startswith_def)

text \<open>The \<open>in\<close> operator of Python strings.\<close>

fun contains :: "pystr \<Rightarrow> pystr \<Rightarrow> bool" where
  "contains p [] \<longleftrightarrow> p = []"
| "contains p (c # s) \<longleftrightarrow> startswith (c # s) p \<or> contains p s"

lemma contains_iff: "contains p s \<longleftrightarrow> (\<exists>u v. s = u @ p @ v)"
proof (induction s)
  case Nil
  then show ?case by simp
next
  case (Cons c s)
  have "(\<exists>u v. c # s = u @ p @ v) \<longleftrightarrow> (\<exists>v. c # s = p @ v) \<or> (\<exists>u v. s = u @ p @ v)"
    by (metis append_Cons append_Nil list.inject neq_Nil_conv)
  then show ?case
    using Cons by (simp add: startswith_iff)
qed

definition is_lower :: "nat \<Rightarrow> bool" where
  "is_lower c \<longleftrightarrow> 97 \<le> c \<and> c \<le> 122"

definition is_upper :: "nat \<Rightarrow> bool" where
  "is_upper c \<longleftrightarrow> 65 \<le> c \<and> c \<le> 90"

definition is_digit :: "nat \<Rightarrow> bool" where
  "is_digit c \<longleftrightarrow> 48 \<le> c \<and> c \<le> 57"

text \<open>The white space that \<open>strip\<close> and \<open>split\<close> remove (the Unicode property; Python's own
  table adds the four separators 28 to 31, which \<open>is_space\<close> has and \<open>is_white\<close> has not).\<close>

definition is_white :: "nat \<Rightarrow> bool" where
  "is_white c \<longleftrightarrow> (9 \<le> c \<and> c \<le> 13) \<or> c = 32 \<or> c = 0x85 \<or> c = 0xA0 \<or> c = 0x1680
     \<or> (0x2000 \<le> c \<and> c \<le> 0x200A) \<or> c = 0x2028 \<or> c = 0x2029 \<or> c = 0x202F \<or> c = 0x205F
     \<or> c = 0x3000"

definition is_space :: "nat \<Rightarrow> bool" where
  "is_space c \<longleftrightarrow> is_white c \<or> (28 \<le> c \<and> c \<le> 31)"

definition strip_by :: "(nat \<Rightarrow> bool) \<Rightarrow> pystr \<Rightarrow> pystr" where
  "strip_by ws s = rev (dropWhile ws (rev (dropWhile ws s)))"

lemma strip_by_subset: "set (strip_by ws s) \<subseteq> set s"
proof -
  have "set (strip_by ws s) \<subseteq> set (dropWhile ws s)"
    unfolding strip_by_def by (metis set_dropWhileD set_rev subsetI)
  then show ?thesis
    by (meson set_dropWhileD subset_iff)
qed

lemma strip_by_id: "s \<noteq> [] \<Longrightarrow> \<not> ws (hd s) \<Longrightarrow> \<not> ws (last s) \<Longrightarrow> strip_by ws s = s"
proof -
  assume s: "s \<noteq> []" "\<not> ws (hd s)" "\<not> ws (last s)"
  then have 1: "dropWhile ws s = s"
    by (cases s) simp_all
  from s have "dropWhile ws (rev s) = rev s"
    by (metis dropWhile_eq_self_iff hd_rev)
  with 1 show ?thesis
    by (simp add: strip_by_def)
qed

lemma strip_by_ends:
  assumes "strip_by ws s \<noteq> []"
  shows "\<not> ws (hd (strip_by ws s))" "\<not> ws (last (strip_by ws s))"
proof -
  define d where "d = dropWhile ws s"
  have strip: "strip_by ws s = rev (dropWhile ws (rev d))"
    by (simp add: strip_by_def d_def)
  have nonempty: "dropWhile ws (rev d) \<noteq> []"
    using assms by (simp add: strip)
  then show "\<not> ws (last (strip_by ws s))"
    using hd_dropWhile[OF nonempty] by (simp add: strip last_rev)
  have "d = strip_by ws s @ rev (takeWhile ws (rev d))"
    by (metis rev_append rev_rev_ident strip takeWhile_dropWhile_id)
  then have "hd (strip_by ws s) = hd d"
    using assms by (metis hd_append2)
  moreover have "d \<noteq> []"
    using nonempty by auto
  ultimately show "\<not> ws (hd (strip_by ws s))"
    using hd_dropWhile[of ws s] by (simp add: d_def)
qed

lemma strip_by_idem [simp]: "strip_by ws (strip_by ws s) = strip_by ws s"
proof (cases "strip_by ws s = []")
  case True
  show ?thesis unfolding True by (simp add: strip_by_def)
next
  case False
  then show ?thesis by (simp add: strip_by_id strip_by_ends)
qed

subsection \<open>Sequences used as sets and dictionaries\<close>

text \<open>\<open>dict.fromkeys\<close> keeps the first occurrence of each key.\<close>

definition dict_fromkeys :: "'a list \<Rightarrow> 'a list" where
  "dict_fromkeys xs = rev (remdups (rev xs))"

lemma set_dict_fromkeys [simp]: "set (dict_fromkeys xs) = set xs"
  by (simp add: dict_fromkeys_def)

lemma distinct_dict_fromkeys [simp]: "distinct (dict_fromkeys xs)"
  by (simp add: dict_fromkeys_def)

lemma dict_fromkeys_distinct: "distinct xs \<Longrightarrow> dict_fromkeys xs = xs"
  by (simp add: dict_fromkeys_def distinct_remdups_id)

lemma dict_fromkeys_Nil_iff [simp]: "dict_fromkeys xs = [] \<longleftrightarrow> xs = []"
  by (metis set_dict_fromkeys set_empty)

lemma length_dict_fromkeys: "length (dict_fromkeys xs) \<le> length xs"
  by (metis dict_fromkeys_def length_remdups_leq length_rev)

text \<open>A dict comprehension: a later entry for the same key replaces an earlier one.\<close>

definition dict_of :: "('k \<times> 'v) list \<Rightarrow> ('k \<rightharpoonup> 'v)" where
  "dict_of kvs = map_of (rev kvs)"

lemma dict_of_distinct: "distinct (map fst kvs) \<Longrightarrow> dict_of kvs = map_of kvs"
  unfolding dict_of_def by (metis distinct_rev map_of_inject_set rev_map set_rev)

text \<open>The uniqueness test of the contracts, \<open>len(set(xs)) == len(xs)\<close>.\<close>

definition unique :: "'a list \<Rightarrow> bool" where
  "unique xs \<longleftrightarrow> length (remdups xs) = length xs"

lemma unique_iff_distinct [simp]: "unique xs \<longleftrightarrow> distinct xs"
  by (simp add: unique_def remdups_id_iff_distinct)

subsection \<open>Expressions that may raise\<close>

definition bindR :: "'e + 'a \<Rightarrow> ('a \<Rightarrow> 'e + 'b) \<Rightarrow> 'e + 'b" where
  "bindR r f = (case r of Inl e \<Rightarrow> Inl e | Inr a \<Rightarrow> f a)"

definition guardR :: "bool \<Rightarrow> 'e \<Rightarrow> 'e + unit" where
  "guardR ok e = (if ok then Inr () else Inl e)"

lemma bindR_simps [simp, outcome_simps]:
  "bindR (Inl e) f = Inl e"
  "bindR (Inr a) f = f a"
  by (simp_all add: bindR_def)

lemma bindR_Inr_iff [simp]: "bindR r f = Inr b \<longleftrightarrow> (\<exists>a. r = Inr a \<and> f a = Inr b)"
  by (cases r) simp_all

lemma bindR_Inl_iff: "bindR r f = Inl e \<longleftrightarrow> r = Inl e \<or> (\<exists>a. r = Inr a \<and> f a = Inl e)"
  by (cases r) simp_all

lemma guardR_simps [simp, outcome_simps]:
  "guardR True e = Inr ()"
  "guardR False e = Inl e"
  by (simp_all add: guardR_def)

lemma guardR_Inr_iff [simp]: "guardR ok e = Inr u \<longleftrightarrow> ok"
  by (simp add: guardR_def)

lemma guardR_Inl_iff [simp]: "guardR ok e = Inl e' \<longleftrightarrow> \<not> ok \<and> e' = e"
  by (auto simp add: guardR_def)

fun mapR :: "('a \<Rightarrow> 'e + 'b) \<Rightarrow> 'a list \<Rightarrow> 'e + 'b list" where
  "mapR f [] = Inr []"
| "mapR f (x # xs) = bindR (f x) (\<lambda>y. bindR (mapR f xs) (\<lambda>ys. Inr (y # ys)))"

lemma mapR_Inr [simp]: "mapR (\<lambda>x. Inr (f x)) xs = Inr (map f xs)"
  by (induction xs) simp_all

lemma mapR_all_Inr: "(\<And>x. x \<in> set xs \<Longrightarrow> f x = Inr (g x)) \<Longrightarrow> mapR f xs = Inr (map g xs)"
  by (induction xs) simp_all

subsection \<open>Methods that change state and may raise\<close>

type_synonym ('e, 's, 'a) prog = "'s \<Rightarrow> ('e + 'a) \<times> 's"

definition return :: "'a \<Rightarrow> ('e, 's, 'a) prog" where
  "return a s = (Inr a, s)"

definition raise :: "'e \<Rightarrow> ('e, 's, 'a) prog" where
  "raise e s = (Inl e, s)"

definition bind :: "('e, 's, 'a) prog \<Rightarrow> ('a \<Rightarrow> ('e, 's, 'b) prog) \<Rightarrow> ('e, 's, 'b) prog" where
  "bind m f s = (case m s of (Inl e, s') \<Rightarrow> (Inl e, s') | (Inr a, s') \<Rightarrow> f a s')"

text \<open>\<open>try: m except: h\<close>; the handler sees the state the failing body left.\<close>

definition catch :: "('e, 's, 'a) prog \<Rightarrow> ('e \<Rightarrow> ('e, 's, 'a) prog) \<Rightarrow> ('e, 's, 'a) prog" where
  "catch m h s = (case m s of (Inl e, s') \<Rightarrow> h e s' | (Inr a, s') \<Rightarrow> (Inr a, s'))"

definition liftR :: "'e + 'a \<Rightarrow> ('e, 's, 'a) prog" where
  "liftR r s = (r, s)"

definition reads :: "('s \<Rightarrow> 'e + 'a) \<Rightarrow> ('e, 's, 'a) prog" where
  "reads f s = (f s, s)"

definition guard :: "bool \<Rightarrow> 'e \<Rightarrow> ('e, 's, unit) prog" where
  "guard ok e s = (if ok then (Inr (), s) else (Inl e, s))"

lemma prog_simps [simp, outcome_simps]:
  "return a s = (Inr a, s)"
  "raise e s = (Inl e, s)"
  "liftR r s = (r, s)"
  "reads f s = (f s, s)"
  by (simp_all add: return_def raise_def liftR_def reads_def)

lemma guard_simps [simp, outcome_simps]:
  "guard True e s = (Inr (), s)"
  "guard False e s = (Inl e, s)"
  by (simp_all add: guard_def)

lemma bind_eq [outcome_simps]:
  "m s = (Inl e, s') \<Longrightarrow> bind m f s = (Inl e, s')"
  "m s = (Inr a, s') \<Longrightarrow> bind m f s = f a s'"
  by (simp_all add: bind_def)

lemma catch_eq [outcome_simps]:
  "m s = (Inl e, s') \<Longrightarrow> catch m h s = h e s'"
  "m s = (Inr a, s') \<Longrightarrow> catch m h s = (Inr a, s')"
  by (simp_all add: catch_def)

lemma bind_reads [simp]:
  "bind (reads f) g s = (case f s of Inl e \<Rightarrow> (Inl e, s) | Inr a \<Rightarrow> g a s)"
  "bind (liftR r) g s = (case r of Inl e \<Rightarrow> (Inl e, s) | Inr a \<Rightarrow> g a s)"
  "bind (return a) g s = g a s"
  "bind (raise e) g s = (Inl e, s)"
  by (simp_all add: bind_def split: sum.splits)

lemma bind_guard [simp]: "bind (guard ok e) g s = (if ok then g () s else (Inl e, s))"
  by (simp add: bind_def guard_def)

lemma bind_Inr_iff:
  "bind m f s = (Inr b, s'') \<longleftrightarrow> (\<exists>a s'. m s = (Inr a, s') \<and> f a s' = (Inr b, s''))"
  by (auto simp: bind_def split: prod.splits sum.splits)

lemma bind_Inl_iff:
  "bind m f s = (Inl e, s'') \<longleftrightarrow>
     m s = (Inl e, s'') \<or> (\<exists>a s'. m s = (Inr a, s') \<and> f a s' = (Inl e, s''))"
  by (auto simp: bind_def split: prod.splits sum.splits)

lemma prog_bind_assoc: "bind (bind m f) g = bind m (\<lambda>a. bind (f a) g)"
  by (rule ext) (auto simp: bind_def split: prod.split sum.split)

text \<open>A property of the state that every part of a program keeps is kept by the program.\<close>

definition keeps :: "('s \<Rightarrow> bool) \<Rightarrow> ('e, 's, 'a) prog \<Rightarrow> bool" where
  "keeps I m \<longleftrightarrow> (\<forall>s. I s \<longrightarrow> I (snd (m s)))"

named_theorems keeps_intros "programs that keep an invariant"

lemma keepsI [intro?]: "(\<And>s. I s \<Longrightarrow> I (snd (m s))) \<Longrightarrow> keeps I m"
  by (simp add: keeps_def)

lemma keepsD: "keeps I m \<Longrightarrow> I s \<Longrightarrow> m s = (r, s') \<Longrightarrow> I s'"
  by (metis keeps_def snd_conv)

lemma keeps_basic [keeps_intros]:
  "keeps I (return a)" "keeps I (raise e)" "keeps I (liftR r)" "keeps I (reads f)"
  "keeps I (guard ok e)"
  by (simp_all add: keeps_def guard_def)

lemma keeps_bind [keeps_intros]: "keeps I m \<Longrightarrow> (\<And>a. keeps I (f a)) \<Longrightarrow> keeps I (bind m f)"
  by (auto simp: keeps_def bind_def split: prod.split sum.split dest: spec)

lemma keeps_catch [keeps_intros]: "keeps I m \<Longrightarrow> (\<And>e. keeps I (h e)) \<Longrightarrow> keeps I (catch m h)"
  by (auto simp: keeps_def catch_def split: prod.split sum.split dest: spec)

lemma keeps_if [keeps_intros]: "keeps I m \<Longrightarrow> keeps I m' \<Longrightarrow> keeps I (if c then m else m')"
  by simp

lemma keeps_option [keeps_intros]:
  "keeps I m \<Longrightarrow> (\<And>x. keeps I (f x)) \<Longrightarrow> keeps I (case v of None \<Rightarrow> m | Some x \<Rightarrow> f x)"
  by (cases v) simp_all

end
