(* ===== verification/Python_Values.thy ===== *)
theory Python_Values
  imports Prelude
begin

section \<open>UUIDs and datetimes\<close>

text \<open>
  The two value types the code takes from Python's library. A \<open>UUID\<close> is 128 bits and
  \<open>uuid_str\<close> its canonical text (\<open>str(value)\<close>), which the code uses as database key, as
  file name and as the subject of capability tokens; that these uses never confuse two
  identifiers is \<open>uuid_str_eq_iff\<close>. A \<open>datetime\<close> is naive or carries a UTC offset;
  comparison of aware values is by instant.
\<close>

subsection \<open>UUID\<close>

type_synonym uuid = "128 word"

definition hex_digit :: "nat \<Rightarrow> nat" where
  "hex_digit d = (if d < 10 then 48 + d else 87 + d)"

definition hex_digits :: "nat \<Rightarrow> nat \<Rightarrow> pystr" where
  "hex_digits m n = map (\<lambda>k. hex_digit (n div 16 ^ (m - 1 - k) mod 16)) [0..<m]"

definition uuid_str :: "uuid \<Rightarrow> pystr" where
  "uuid_str u = (let h = hex_digits 32 (unat u) in
     take 8 h @ [45] @ take 4 (drop 8 h) @ [45] @ take 4 (drop 12 h) @ [45]
       @ take 4 (drop 16 h) @ [45] @ drop 20 h)"

lemma hex_digit_inj: "a < 16 \<Longrightarrow> b < 16 \<Longrightarrow> hex_digit a = hex_digit b \<Longrightarrow> a = b"
  by (auto simp: hex_digit_def split: if_splits)

lemma length_hex_digits [simp]: "length (hex_digits m n) = m"
  by (simp add: hex_digits_def)

lemma base16_inj:
  "a < 16 ^ m \<Longrightarrow> b < 16 ^ m \<Longrightarrow> (\<And>k. k < m \<Longrightarrow> a div 16 ^ k mod 16 = b div 16 ^ k mod 16)
    \<Longrightarrow> a = (b :: nat)"
proof (induction m arbitrary: a b)
  case 0
  then show ?case by simp
next
  case (Suc m)
  have "a div 16 = b div 16"
  proof (rule Suc.IH)
    show "a div 16 < 16 ^ m" "b div 16 < 16 ^ m"
      using Suc.prems by (simp_all add: less_mult_imp_div_less mult.commute)
    show "a div 16 div 16 ^ k mod 16 = b div 16 div 16 ^ k mod 16" if "k < m" for k
      using Suc.prems(3)[of "Suc k"] that by (simp add: div_mult2_eq)
  qed
  moreover have "a mod 16 = b mod 16"
    using Suc.prems(3)[of 0] by simp
  ultimately show ?case
    by (metis div_mult_mod_eq)
qed

lemma hex_digits_inj:
  assumes "a < 16 ^ m" "b < 16 ^ m" "hex_digits m a = hex_digits m b"
  shows "a = b"
proof (rule base16_inj[OF assms(1,2)])
  fix k assume k: "k < m"
  have "hex_digits m a ! (m - 1 - k) = hex_digits m b ! (m - 1 - k)"
    using assms(3) by simp
  then have "hex_digit (a div 16 ^ k mod 16) = hex_digit (b div 16 ^ k mod 16)"
    using k by (simp add: hex_digits_def)
  then show "a div 16 ^ k mod 16 = b div 16 ^ k mod 16"
    by (rule hex_digit_inj[rotated 2]) simp_all
qed

lemma uuid_str_parts:
  "uuid_str u = uuid_str v \<Longrightarrow> hex_digits 32 (unat u) = hex_digits 32 (unat v)"
proof -
  define h where "h = hex_digits 32 (unat u)"
  define g where "g = hex_digits 32 (unat v)"
  have len: "length h = 32" "length g = 32"
    by (simp_all add: h_def g_def)
  assume "uuid_str u = uuid_str v"
  then have eq: "take 8 h @ [45] @ take 4 (drop 8 h) @ [45] @ take 4 (drop 12 h) @ [45]
      @ take 4 (drop 16 h) @ [45] @ drop 20 h
    = take 8 g @ [45] @ take 4 (drop 8 g) @ [45] @ take 4 (drop 12 g) @ [45]
      @ take 4 (drop 16 g) @ [45] @ drop 20 g"
    by (simp add: uuid_str_def h_def g_def Let_def)
  then have "take 8 h = take 8 g" "take 4 (drop 8 h) = take 4 (drop 8 g)"
    "take 4 (drop 12 h) = take 4 (drop 12 g)" "take 4 (drop 16 h) = take 4 (drop 16 g)"
    "drop 20 h = drop 20 g"
    by (simp_all add: append_eq_append_conv len)
  moreover have "xs = take 8 xs @ take 4 (drop 8 xs) @ take 4 (drop 12 xs) @ take 4 (drop 16 xs)
      @ drop 20 xs" for xs :: pystr
  proof -
    have "drop 8 xs = take 4 (drop 8 xs) @ drop 12 xs"
      using append_take_drop_id[of 4 "drop 8 xs"] by simp
    moreover have "drop 12 xs = take 4 (drop 12 xs) @ drop 16 xs"
      using append_take_drop_id[of 4 "drop 12 xs"] by simp
    moreover have "drop 16 xs = take 4 (drop 16 xs) @ drop 20 xs"
      using append_take_drop_id[of 4 "drop 16 xs"] by simp
    ultimately show ?thesis
      using append_take_drop_id[of 8 xs] by metis
  qed
  ultimately have "h = g"
    by metis
  then show ?thesis
    by (simp add: h_def g_def)
qed

lemma uuid_str_eq_iff [simp]: "uuid_str u = uuid_str v \<longleftrightarrow> u = v"
proof
  assume eq: "uuid_str u = uuid_str v"
  have "unat w < 16 ^ 32" for w :: uuid
  proof -
    have "unat w < 2 ^ LENGTH(128)"
      by (rule unsigned_less)
    then show ?thesis
      by simp
  qed
  then have "unat u = unat v"
    using hex_digits_inj uuid_str_parts[OF eq] by blast
  then show "u = v"
    by (rule unsigned_word_eqI)
qed simp

lemma length_uuid_str: "length (uuid_str u) = 36"
  by (simp add: uuid_str_def Let_def)

subsection \<open>Datetimes\<close>

datatype datetime = Naive int | Aware int int

type_synonym timedelta = int

fun is_aware :: "datetime \<Rightarrow> bool" where
  "is_aware (Naive w) = False"
| "is_aware (Aware w off) = True"

text \<open>\<open>tzinfo is not None and utcoffset() == timedelta(0)\<close>\<close>

fun is_utc :: "datetime \<Rightarrow> bool" where
  "is_utc (Naive w) = False"
| "is_utc (Aware w off) = (off = 0)"

fun instant :: "datetime \<Rightarrow> int" where
  "instant (Naive w) = w"
| "instant (Aware w off) = w - off"

fun dt_add :: "datetime \<Rightarrow> timedelta \<Rightarrow> datetime" where
  "dt_add (Naive w) d = Naive (w + d)"
| "dt_add (Aware w off) d = Aware (w + d) off"

abbreviation utc :: "int \<Rightarrow> datetime" where
  "utc t \<equiv> Aware t 0"

definition seconds :: "int \<Rightarrow> timedelta" where
  "seconds n = n * 1000000"

definition hours :: "int \<Rightarrow> timedelta" where
  "hours n = seconds (n * 3600)"

definition days :: "int \<Rightarrow> timedelta" where
  "days n = hours (n * 24)"

lemma is_utc_aware: "is_utc t \<Longrightarrow> is_aware t"
  by (cases t) simp_all

lemma is_utc_add [simp]: "is_utc (dt_add t d) = is_utc t"
  by (cases t) simp_all

lemma instant_add [simp]: "instant (dt_add t d) = instant t + d"
  by (cases t) simp_all

lemma is_utc_inject: "is_utc s \<Longrightarrow> is_utc t \<Longrightarrow> instant s = instant t \<Longrightarrow> s = t"
  by (cases s; cases t) simp_all

end
