(* ===== verification/Errors.thy ===== *)
theory Errors
  imports Python_Values
begin

section \<open>The exceptions of the program\<close>

text \<open>
  One constructor of \<open>exn\<close> per exception class the code raises or catches, with the
  error-code enumerations some of them carry. \<open>is_ValueError\<close> and its companions answer
  which \<open>except\<close> clauses a class belongs to, as the class hierarchy of the source fixes it.
\<close>

datatype confirmation_error_code =
    LOCKED_FIELD_CHANGED
  | BENEFIT_ORDER_INVALID
  | LOCALIZABLE_FIELDS_INVALID

datatype draft_error_code = BRAND_LOCK_UNCONFIRMED | DRAFT_OUTPUT_INVALID

datatype composition_error_code =
    LOCKED_ASSET_MISSING
  | LOCKED_CONTENT_DRIFT
  | COMPOSITION_INVALID_OUTPUT

datatype image_provider_error_code = BACKGROUND_REQUEST_INVALID | BACKGROUND_OUTPUT_INVALID

datatype analysis_error_code =
    INVALID_INPUT
  | UNSUPPORTED_SCOPE
  | ASSET_CLOSED
  | PROVIDER_FAILED
  | PROVIDER_OUTPUT_INVALID
  | INSTRUCTION_LIKE_CONTENT
  | PROHIBITED_CONTENT
  | UNSAFE_HYPOTHESIS

datatype composition_service_error_code =
    CS_RUN_NOT_FOUND
  | CS_INVALID_RUN_STATE
  | CS_BRAND_LOCK_UNCONFIRMED
  | CS_DRAFT_UNAVAILABLE
  | CS_OUTPUT_INVALID
  | CS_PERSISTENCE_FAILED

datatype composition_export_error_code =
    CE_RUN_NOT_FOUND
  | CE_COMPOSITION_UNAVAILABLE
  | CE_ARTIFACT_UNAVAILABLE

datatype revision_service_error_code =
    RS_RUN_NOT_FOUND
  | RS_INVALID_RUN_STATE
  | RS_IDEMPOTENCY_CONFLICT
  | RS_OPERATION_IN_PROGRESS
  | RS_REVISION_LIMIT_REACHED
  | RS_INVALID_REVISION_REQUEST
  | RS_REVISION_FAILED
  | RS_RETRY_FAILED

text \<open>The \<open>StrEnum\<close> values, where the code uses them as text.\<close>

fun confirmation_error_value :: "confirmation_error_code \<Rightarrow> pystr" where
  "confirmation_error_value LOCKED_FIELD_CHANGED = lit ''locked_field_changed''"
| "confirmation_error_value BENEFIT_ORDER_INVALID = lit ''benefit_order_invalid''"
| "confirmation_error_value LOCALIZABLE_FIELDS_INVALID = lit ''localizable_fields_invalid''"

fun draft_error_value :: "draft_error_code \<Rightarrow> pystr" where
  "draft_error_value BRAND_LOCK_UNCONFIRMED = lit ''brand_lock_unconfirmed''"
| "draft_error_value DRAFT_OUTPUT_INVALID = lit ''draft_output_invalid''"

fun analysis_error_value :: "analysis_error_code \<Rightarrow> pystr" where
  "analysis_error_value INVALID_INPUT = lit ''invalid_analysis_input''"
| "analysis_error_value UNSUPPORTED_SCOPE = lit ''unsupported_analysis_scope''"
| "analysis_error_value ASSET_CLOSED = lit ''asset_lifecycle_closed''"
| "analysis_error_value PROVIDER_FAILED = lit ''provider_failed''"
| "analysis_error_value PROVIDER_OUTPUT_INVALID = lit ''provider_output_invalid''"
| "analysis_error_value INSTRUCTION_LIKE_CONTENT = lit ''instruction_like_content''"
| "analysis_error_value PROHIBITED_CONTENT = lit ''prohibited_content''"
| "analysis_error_value UNSAFE_HYPOTHESIS = lit ''unsafe_hypothesis''"

fun composition_service_error_value :: "composition_service_error_code \<Rightarrow> pystr" where
  "composition_service_error_value CS_RUN_NOT_FOUND = lit ''run_not_found''"
| "composition_service_error_value CS_INVALID_RUN_STATE = lit ''invalid_run_state''"
| "composition_service_error_value CS_BRAND_LOCK_UNCONFIRMED = lit ''brand_lock_unconfirmed''"
| "composition_service_error_value CS_DRAFT_UNAVAILABLE = lit ''draft_unavailable''"
| "composition_service_error_value CS_OUTPUT_INVALID = lit ''composition_output_invalid''"
| "composition_service_error_value CS_PERSISTENCE_FAILED = lit ''composition_persistence_failed''"

fun composition_export_error_value :: "composition_export_error_code \<Rightarrow> pystr" where
  "composition_export_error_value CE_RUN_NOT_FOUND = lit ''run_not_found''"
| "composition_export_error_value CE_COMPOSITION_UNAVAILABLE = lit ''composition_unavailable''"
| "composition_export_error_value CE_ARTIFACT_UNAVAILABLE =
     lit ''composition_artifact_unavailable''"

fun revision_service_error_value :: "revision_service_error_code \<Rightarrow> pystr" where
  "revision_service_error_value RS_RUN_NOT_FOUND = lit ''run_not_found''"
| "revision_service_error_value RS_INVALID_RUN_STATE = lit ''invalid_run_state''"
| "revision_service_error_value RS_IDEMPOTENCY_CONFLICT = lit ''idempotency_conflict''"
| "revision_service_error_value RS_OPERATION_IN_PROGRESS = lit ''operation_in_progress''"
| "revision_service_error_value RS_REVISION_LIMIT_REACHED = lit ''revision_limit_reached''"
| "revision_service_error_value RS_INVALID_REVISION_REQUEST = lit ''invalid_revision_request''"
| "revision_service_error_value RS_REVISION_FAILED = lit ''revision_failed''"
| "revision_service_error_value RS_RETRY_FAILED = lit ''retry_failed''"

subsection \<open>One type of exceptions\<close>

datatype (plugins only: code size) exn =
    ValueError
  | ValidationError
  | TypeError
  | KeyError
  | IndexError
  | OSError
  | FileExistsError
  | RuntimeError
  | AssertionError
  | IntegrityError
  | UnidentifiedImageError
  | OtherException
  | ProjectRunNotFoundError
  | DuplicateProjectRunError
  | BrandLockImmutableError
  | InvalidRunStateError
  | DraftImmutableError
  | CompositionImmutableError
  | CritiqueImmutableError
  | IdempotencyConflictError
  | OperationInProgressError
  | RevisionLimitReachedError
  | BrandLockConfirmationError confirmation_error_code
  | CapabilityTokenError
  | AssetEmptyError
  | AssetTooLargeError
  | UnsupportedAssetTypeError
  | AssetTypeMismatchError
  | AssetMetadataError
  | AssetLifecycleClosedError
  | AssetStorageError
  | ObjectStorageError
  | ObjectNotFoundError
  | CompositionArtifactError
  | FixtureAssetError
  | ImageProviderError image_provider_error_code
  | CompositionError composition_error_code
  | DraftGenerationError draft_error_code
  | AnalysisPipelineError analysis_error_code
  | CompositionServiceError composition_service_error_code
  | CompositionExportError composition_export_error_code
  | RevisionServiceError revision_service_error_code
  | HTTPException nat pystr

text \<open>\<open>issubclass(cls, ValueError)\<close>, \<open>issubclass(cls, LookupError)\<close>,
  \<open>issubclass(cls, OSError)\<close>, \<open>issubclass(cls, ObjectStorageError)\<close>.\<close>

definition is_ValueError :: "exn \<Rightarrow> bool" where
  "is_ValueError e = (case e of
     ValueError \<Rightarrow> True
   | ValidationError \<Rightarrow> True
   | DuplicateProjectRunError \<Rightarrow> True
   | BrandLockImmutableError \<Rightarrow> True
   | InvalidRunStateError \<Rightarrow> True
   | DraftImmutableError \<Rightarrow> True
   | CompositionImmutableError \<Rightarrow> True
   | CritiqueImmutableError \<Rightarrow> True
   | IdempotencyConflictError \<Rightarrow> True
   | OperationInProgressError \<Rightarrow> True
   | RevisionLimitReachedError \<Rightarrow> True
   | BrandLockConfirmationError _ \<Rightarrow> True
   | CapabilityTokenError \<Rightarrow> True
   | AssetEmptyError \<Rightarrow> True
   | AssetTooLargeError \<Rightarrow> True
   | UnsupportedAssetTypeError \<Rightarrow> True
   | AssetTypeMismatchError \<Rightarrow> True
   | AssetMetadataError \<Rightarrow> True
   | AssetLifecycleClosedError \<Rightarrow> True
   | ImageProviderError _ \<Rightarrow> True
   | CompositionError _ \<Rightarrow> True
   | DraftGenerationError _ \<Rightarrow> True
   | _ \<Rightarrow> False)"

definition is_OSError :: "exn \<Rightarrow> bool" where
  "is_OSError e = (case e of
     OSError \<Rightarrow> True
   | FileExistsError \<Rightarrow> True
   | UnidentifiedImageError \<Rightarrow> True
   | _ \<Rightarrow> False)"

definition is_ObjectStorageError :: "exn \<Rightarrow> bool" where
  "is_ObjectStorageError e = (case e of
     ObjectStorageError \<Rightarrow> True
   | ObjectNotFoundError \<Rightarrow> True
   | _ \<Rightarrow> False)"

lemmas exn_class_defs = is_ValueError_def is_OSError_def is_ObjectStorageError_def

type_synonym 'a result = "exn + 'a"

end
