(* ===== verification/Domain.thy ===== *)
theory Domain
  imports Errors
begin

section \<open>ProjectRun and its status machine\<close>

text \<open>
  The model of \<open>src/cultureshift/domain.py\<close>: the two enumerations, the transition table, the
  \<open>ProjectRun\<close> value with the validators pydantic runs on every construction, and
  \<open>with_status\<close>. Lemmas: which runs validation accepts, that a validated run is a fixed point
  of validation, and that \<open>with_status\<close> only moves along the table.
\<close>

datatype localization_direction = CHINA_TO_UK | UK_TO_CHINA

datatype project_run_status =
    PENDING
  | IN_PROGRESS
  | AWAITING_BRAND_LOCK
  | BLOCKED
  | COMPLETED
  | FAILED
  | READY
  | FAILED_RETRYABLE
  | FAILED_FINAL

fun allowed_transitions :: "project_run_status \<Rightarrow> project_run_status set" where
  "allowed_transitions PENDING = {IN_PROGRESS, BLOCKED, FAILED}"
| "allowed_transitions IN_PROGRESS =
     {AWAITING_BRAND_LOCK, BLOCKED, COMPLETED, FAILED, READY, FAILED_RETRYABLE, FAILED_FINAL}"
| "allowed_transitions AWAITING_BRAND_LOCK = {IN_PROGRESS, FAILED}"
| "allowed_transitions BLOCKED = {IN_PROGRESS, FAILED}"
| "allowed_transitions COMPLETED = {}"
| "allowed_transitions FAILED = {}"
| "allowed_transitions READY = {IN_PROGRESS}"
| "allowed_transitions FAILED_RETRYABLE = {IN_PROGRESS}"
| "allowed_transitions FAILED_FINAL = {}"

record project_run =
  pr_id :: uuid
  pr_direction :: localization_direction
  pr_status :: project_run_status
  pr_warning_codes :: "pystr list"
  pr_initial_generation_count :: int
  pr_human_revision_count :: int
  pr_technical_attempt_count :: int
  pr_created_at :: datetime
  pr_updated_at :: datetime

text \<open>\<open>re.fullmatch(r"[a-z][a-z0-9_]{0,63}", code)\<close>.\<close>

definition is_warning_code :: "pystr \<Rightarrow> bool" where
  "is_warning_code s = (case s of [] \<Rightarrow> False
     | c # cs \<Rightarrow> is_lower c \<and> length cs \<le> 63
         \<and> list_all (\<lambda>d. is_lower d \<or> is_digit d \<or> d = 95) cs)"

definition validate_warning_codes :: "pystr list \<Rightarrow> (pystr list) result" where
  "validate_warning_codes codes =
     (if length codes > 32 \<or> \<not> unique codes then Inl ValueError
      else if list_ex (\<lambda>code. \<not> is_warning_code code) codes then Inl ValueError
      else Inr codes)"

text \<open>The after-validator: both times aware, and \<open>updated_at\<close> defaulting to \<open>created_at\<close>.\<close>

definition validate_timestamps :: "datetime \<Rightarrow> datetime option \<Rightarrow> datetime result" where
  "validate_timestamps created updated =
     (if \<not> is_aware created then Inl ValueError
      else case updated of
        None \<Rightarrow> Inr created
      | Some u \<Rightarrow>
          if \<not> is_aware u then Inl ValueError
          else if instant u < instant created then Inl ValueError
          else Inr u)"

text \<open>
  \<open>ProjectRun(...)\<close> and \<open>ProjectRun.model_validate\<close>: the field constraints
  (\<open>ge\<close>/\<open>le\<close>) and the two validators; pydantic reports every failure as one
  \<open>ValidationError\<close>.
\<close>

definition validate_project_run ::
  "uuid \<Rightarrow> localization_direction \<Rightarrow> project_run_status \<Rightarrow> pystr list \<Rightarrow> int \<Rightarrow> int \<Rightarrow> int
    \<Rightarrow> datetime \<Rightarrow> datetime option \<Rightarrow> project_run result" where
  "validate_project_run rid direction status codes initial human technical created updated =
     (if \<not> (0 \<le> initial \<and> initial \<le> 1) \<or> \<not> (0 \<le> human \<and> human \<le> 1) \<or> technical < 0
      then Inl ValidationError
      else case validate_warning_codes codes of
        Inl _ \<Rightarrow> Inl ValidationError
      | Inr codes' \<Rightarrow>
          (case validate_timestamps created updated of
            Inl _ \<Rightarrow> Inl ValidationError
          | Inr u \<Rightarrow> Inr \<lparr>pr_id = rid, pr_direction = direction, pr_status = status,
              pr_warning_codes = codes', pr_initial_generation_count = initial,
              pr_human_revision_count = human, pr_technical_attempt_count = technical,
              pr_created_at = created, pr_updated_at = u\<rparr>))"

text \<open>\<open>model_dump\<close>, an update of the dict, \<open>model_validate\<close>.\<close>

definition revalidate :: "project_run \<Rightarrow> project_run result" where
  "revalidate r = validate_project_run (pr_id r) (pr_direction r) (pr_status r)
     (pr_warning_codes r) (pr_initial_generation_count r) (pr_human_revision_count r)
     (pr_technical_attempt_count r) (pr_created_at r) (Some (pr_updated_at r))"

definition new_project_run :: "uuid \<Rightarrow> datetime \<Rightarrow> localization_direction \<Rightarrow> project_run result" where
  "new_project_run new_id now direction =
     validate_project_run new_id direction PENDING [] 0 0 0 now None"

text \<open>\<open>utc_now()\<close> is the argument \<open>now\<close>; \<open>updated_at\<close> is the optional keyword.\<close>

definition with_status ::
  "project_run \<Rightarrow> project_run_status \<Rightarrow> datetime option \<Rightarrow> datetime \<Rightarrow> project_run result" where
  "with_status r status updated now =
     (if status \<notin> allowed_transitions (pr_status r) then Inl ValueError
      else revalidate (r\<lparr>pr_status := status,
        pr_updated_at := (case updated of None \<Rightarrow> now | Some u \<Rightarrow> u)\<rparr>))"

subsection \<open>What validation accepts\<close>

definition valid_run :: "project_run \<Rightarrow> bool" where
  "valid_run r \<longleftrightarrow>
     0 \<le> pr_initial_generation_count r \<and> pr_initial_generation_count r \<le> 1
     \<and> 0 \<le> pr_human_revision_count r \<and> pr_human_revision_count r \<le> 1
     \<and> 0 \<le> pr_technical_attempt_count r
     \<and> length (pr_warning_codes r) \<le> 32 \<and> distinct (pr_warning_codes r)
     \<and> (\<forall>c \<in> set (pr_warning_codes r). is_warning_code c)
     \<and> is_aware (pr_created_at r) \<and> is_aware (pr_updated_at r)
     \<and> instant (pr_created_at r) \<le> instant (pr_updated_at r)"

lemma validate_warning_codes_Inr_iff:
  "validate_warning_codes codes = Inr codes' \<longleftrightarrow>
     codes' = codes \<and> length codes \<le> 32 \<and> distinct codes \<and> (\<forall>c \<in> set codes. is_warning_code c)"
  by (auto simp: validate_warning_codes_def list_ex_iff)

lemma validate_timestamps_Inr_iff:
  "validate_timestamps created updated = Inr u \<longleftrightarrow>
     is_aware created \<and> u = (case updated of None \<Rightarrow> created | Some u' \<Rightarrow> u')
     \<and> is_aware u \<and> instant created \<le> instant u"
  by (auto simp: validate_timestamps_def split: option.splits)

lemma validate_project_run_Inr_iff:
  "validate_project_run rid direction status codes initial human technical created updated = Inr r
    \<longleftrightarrow> r = \<lparr>pr_id = rid, pr_direction = direction, pr_status = status, pr_warning_codes = codes,
            pr_initial_generation_count = initial, pr_human_revision_count = human,
            pr_technical_attempt_count = technical, pr_created_at = created,
            pr_updated_at = (case updated of None \<Rightarrow> created | Some u \<Rightarrow> u)\<rparr> \<and> valid_run r"
  by (auto simp: validate_project_run_def valid_run_def validate_warning_codes_def list_ex_iff
      validate_timestamps_def split: option.splits)

lemma validate_project_run_Inl:
  "validate_project_run rid direction status codes initial human technical created updated = Inl e
    \<Longrightarrow> e = ValidationError"
  by (auto simp: validate_project_run_def split: if_splits sum.splits)

lemma revalidate_Inr_iff: "revalidate r = Inr r' \<longleftrightarrow> r' = r \<and> valid_run r"
  by (cases r) (auto simp: revalidate_def validate_project_run_Inr_iff)

lemma revalidate_cases: "revalidate r = (if valid_run r then Inr r else Inl ValidationError)"
proof (cases "revalidate r")
  case (Inl e)
  then show ?thesis
    by (metis Inl_Inr_False revalidate_Inr_iff revalidate_def validate_project_run_Inl)
next
  case (Inr r')
  then show ?thesis
    by (simp add: revalidate_Inr_iff)
qed

lemma new_project_run_Inr:
  "is_aware now \<Longrightarrow> new_project_run rid now d = Inr \<lparr>pr_id = rid, pr_direction = d,
     pr_status = PENDING, pr_warning_codes = [], pr_initial_generation_count = 0,
     pr_human_revision_count = 0, pr_technical_attempt_count = 0, pr_created_at = now,
     pr_updated_at = now\<rparr>"
  by (simp add: new_project_run_def validate_project_run_Inr_iff valid_run_def)

lemma with_status_Inr_iff:
  "with_status r st upd now = Inr r' \<longleftrightarrow>
     st \<in> allowed_transitions (pr_status r)
     \<and> r' = r\<lparr>pr_status := st, pr_updated_at := (case upd of None \<Rightarrow> now | Some u \<Rightarrow> u)\<rparr>
     \<and> valid_run r'"
  by (auto simp: with_status_def revalidate_Inr_iff)

end
