(* ===== verification/Contracts.thy ===== *)
theory Contracts
  imports Domain
begin

section \<open>Public contracts: values and validators\<close>

text \<open>
  The first half of \<open>src/cultureshift/contracts.py\<close>: constrained text, assets, the Brand Lock,
  analyses, briefs, copy and critiques (\<open>Result_Contracts\<close> has the rest). Each pydantic
  model is a record with the fields of the class in the class's order; \<open>valid_X\<close> is the
  conjunction of its field constraints and after-validators, and \<open>make_X\<close> is the
  constructor: it strips the text fields (\<open>str_strip_whitespace\<close>) and raises
  \<open>ValidationError\<close> unless the result is valid. Nested models are instances that were
  validated when they were built and are not validated again, as in pydantic.
\<close>

subsection \<open>Constrained text\<close>

definition strip_text :: "pystr \<Rightarrow> pystr" where
  "strip_text = strip_by is_white"

lemma strip_text_idem [simp]: "strip_text (strip_text s) = strip_text s"
  by (simp add: strip_text_def)

definition is_text :: "nat \<Rightarrow> pystr \<Rightarrow> bool" where
  "is_text limit s \<longleftrightarrow> strip_text s = s \<and> 1 \<le> length s \<and> length s \<le> limit"

definition is_short_text :: "pystr \<Rightarrow> bool" where
  "is_short_text = is_text 256"

definition is_long_text :: "pystr \<Rightarrow> bool" where
  "is_long_text = is_text 4000"

definition is_alnum :: "nat \<Rightarrow> bool" where
  "is_alnum c \<longleftrightarrow> is_lower c \<or> is_upper c \<or> is_digit c"

text \<open>\<open>(?:fixture|rights|evidence):[A-Za-z0-9][A-Za-z0-9._/-]*\<close>, matched in full.\<close>

definition is_reference_path :: "pystr \<Rightarrow> bool" where
  "is_reference_path s = (case s of [] \<Rightarrow> False
     | c # cs \<Rightarrow> is_alnum c
         \<and> list_all (\<lambda>d. is_alnum d \<or> d = 46 \<or> d = 95 \<or> d = 47 \<or> d = 45) cs)"

definition public_schemes :: "pystr list" where
  "public_schemes = [lit ''fixture:'', lit ''rights:'', lit ''evidence:'']"

definition is_public_reference :: "pystr \<Rightarrow> bool" where
  "is_public_reference s \<longleftrightarrow> strip_text s = s \<and> 1 \<le> length s \<and> length s \<le> 256
     \<and> list_ex (\<lambda>p. startswith s p \<and> is_reference_path (drop (length p) s)) public_schemes"

text \<open>\<open>TypeAdapter(PublicReference).validate_python\<close>.\<close>

definition validate_public_reference :: "pystr \<Rightarrow> pystr result" where
  "validate_public_reference s =
     (let s' = strip_text s in if is_public_reference s' then Inr s' else Inl ValidationError)"

definition is_sha256 :: "pystr \<Rightarrow> bool" where
  "is_sha256 s \<longleftrightarrow> length s = 64 \<and> list_all (\<lambda>c. is_digit c \<or> (97 \<le> c \<and> c \<le> 102)) s"

text \<open>\<open>[a-z0-9][a-z0-9.+-]*/[a-z0-9][a-z0-9.+-]*\<close>; the class has no slash.\<close>

definition is_media_token :: "pystr \<Rightarrow> bool" where
  "is_media_token s = (case s of [] \<Rightarrow> False
     | c # cs \<Rightarrow> (is_lower c \<or> is_digit c)
         \<and> list_all (\<lambda>d. is_lower d \<or> is_digit d \<or> d = 46 \<or> d = 43 \<or> d = 45) cs)"

definition is_media_type :: "pystr \<Rightarrow> bool" where
  "is_media_type s \<longleftrightarrow> is_media_token (takeWhile (\<lambda>c. c \<noteq> 47) s)
     \<and> (case dropWhile (\<lambda>c. c \<noteq> 47) s of [] \<Rightarrow> False | _ # t \<Rightarrow> is_media_token t)"

subsection \<open>Enumerations\<close>

datatype market = MARKET_CHINA | MARKET_UNITED_KINGDOM

datatype locale_tag = ZH_CN | EN_GB

datatype execution_mode = FIXTURE | LIVE

datatype asset_kind =
  SOURCE_AD | LOGO | PRODUCT_UI | LAYOUT_TEMPLATE | BACKGROUND | RENDERED_AD

datatype localizable_field = NARRATIVE | USE_SCENARIO | TRUST_INFORMATION | LANGUAGE

datatype run_status =
    RUN_PENDING
  | RUN_IN_PROGRESS
  | RUN_AWAITING_BRAND_LOCK
  | RUN_BLOCKED
  | RUN_COMPLETED
  | RUN_FAILED
  | RUN_READY
  | RUN_FAILED_RETRYABLE
  | RUN_FAILED_FINAL

text \<open>\<open>RunStatus(run.status.value)\<close>: the two enumerations have the same values.\<close>

fun run_status_of :: "project_run_status \<Rightarrow> run_status" where
  "run_status_of PENDING = RUN_PENDING"
| "run_status_of IN_PROGRESS = RUN_IN_PROGRESS"
| "run_status_of AWAITING_BRAND_LOCK = RUN_AWAITING_BRAND_LOCK"
| "run_status_of BLOCKED = RUN_BLOCKED"
| "run_status_of COMPLETED = RUN_COMPLETED"
| "run_status_of FAILED = RUN_FAILED"
| "run_status_of READY = RUN_READY"
| "run_status_of FAILED_RETRYABLE = RUN_FAILED_RETRYABLE"
| "run_status_of FAILED_FINAL = RUN_FAILED_FINAL"

datatype uncertainty = LOW | MEDIUM | HIGH

datatype review_status = REVIEW_PENDING | REVIEW_ACCEPTED | REVIEW_REJECTED

subsection \<open>Assets\<close>

record asset_ref =
  as_asset_id :: uuid
  as_kind :: asset_kind
  as_media_type :: pystr
  as_sha256 :: pystr
  as_provenance_ref :: pystr
  as_rights_ref :: pystr
  as_expires_at :: "datetime option"

definition valid_asset_ref :: "asset_ref \<Rightarrow> bool" where
  "valid_asset_ref a \<longleftrightarrow> is_media_type (as_media_type a) \<and> is_sha256 (as_sha256 a)
     \<and> is_public_reference (as_provenance_ref a) \<and> is_public_reference (as_rights_ref a)
     \<and> (case as_expires_at a of None \<Rightarrow> True | Some t \<Rightarrow> is_utc t)"

definition valid_source_ad_asset_ref :: "asset_ref \<Rightarrow> bool" where
  "valid_source_ad_asset_ref a \<longleftrightarrow> valid_asset_ref a \<and> as_kind a = SOURCE_AD"

definition strip_asset_ref :: "asset_ref \<Rightarrow> asset_ref" where
  "strip_asset_ref a = a\<lparr>as_media_type := strip_text (as_media_type a),
     as_sha256 := strip_text (as_sha256 a), as_provenance_ref := strip_text (as_provenance_ref a),
     as_rights_ref := strip_text (as_rights_ref a)\<rparr>"

definition make_source_ad_asset_ref :: "asset_ref \<Rightarrow> asset_ref result" where
  "make_source_ad_asset_ref a = (let a' = strip_asset_ref a in
     if valid_source_ad_asset_ref a' then Inr a' else Inl ValidationError)"

record asset_uploaded =
  up_asset :: asset_ref
  up_size_bytes :: int
  up_created_at :: datetime
  up_delete_capability_token :: pystr

definition is_token_text :: "pystr \<Rightarrow> bool" where
  "is_token_text s \<longleftrightarrow> 16 \<le> length s \<and> length s \<le> 4096"

definition make_asset_uploaded :: "asset_uploaded \<Rightarrow> asset_uploaded result" where
  "make_asset_uploaded u =
     (let u' = u\<lparr>up_delete_capability_token := strip_text (up_delete_capability_token u)\<rparr> in
      if 1 \<le> up_size_bytes u' \<and> up_size_bytes u' \<le> 10 * 1024 * 1024 \<and> is_utc (up_created_at u')
        \<and> is_token_text (up_delete_capability_token u')
      then Inr u' else Inl ValidationError)"

subsection \<open>Hypotheses and the Brand Lock\<close>

record cultural_hypothesis =
  hy_hypothesis_id :: uuid
  hy_target_market :: market
  hy_claim :: pystr
  hy_evidence_refs :: "pystr list"
  hy_uncertainty :: uncertainty
  hy_rationale :: pystr
  hy_validation_requirements :: "pystr list"
  hy_review_status :: review_status

definition valid_cultural_hypothesis :: "cultural_hypothesis \<Rightarrow> bool" where
  "valid_cultural_hypothesis h \<longleftrightarrow> is_long_text (hy_claim h)
     \<and> 1 \<le> length (hy_evidence_refs h) \<and> length (hy_evidence_refs h) \<le> 32
     \<and> list_all is_public_reference (hy_evidence_refs h) \<and> is_long_text (hy_rationale h)
     \<and> 1 \<le> length (hy_validation_requirements h) \<and> length (hy_validation_requirements h) \<le> 16
     \<and> list_all is_short_text (hy_validation_requirements h)"

record brand_lock =
  bl_logo_asset_id :: uuid
  bl_product_name :: pystr
  bl_verified_product_facts :: "pystr list"
  bl_product_ui_asset_ids :: "uuid list"
  bl_benefit_order :: "pystr list"
  bl_cta_action_meaning :: pystr
  bl_layout_template_asset_id :: uuid
  bl_localizable_fields :: "localizable_field list"

definition require_unique_sequences :: "brand_lock \<Rightarrow> bool" where
  "require_unique_sequences b \<longleftrightarrow> unique (bl_verified_product_facts b)
     \<and> unique (bl_product_ui_asset_ids b) \<and> unique (bl_benefit_order b)
     \<and> unique (bl_localizable_fields b)"

definition valid_brand_lock :: "brand_lock \<Rightarrow> bool" where
  "valid_brand_lock b \<longleftrightarrow> is_short_text (bl_product_name b)
     \<and> 1 \<le> length (bl_verified_product_facts b) \<and> length (bl_verified_product_facts b) \<le> 32
     \<and> list_all is_short_text (bl_verified_product_facts b)
     \<and> 1 \<le> length (bl_product_ui_asset_ids b) \<and> length (bl_product_ui_asset_ids b) \<le> 16
     \<and> 1 \<le> length (bl_benefit_order b) \<and> length (bl_benefit_order b) \<le> 16
     \<and> list_all is_short_text (bl_benefit_order b)
     \<and> is_short_text (bl_cta_action_meaning b)
     \<and> 1 \<le> length (bl_localizable_fields b) \<and> length (bl_localizable_fields b) \<le> 4
     \<and> require_unique_sequences b"

definition strip_brand_lock :: "brand_lock \<Rightarrow> brand_lock" where
  "strip_brand_lock b = b\<lparr>bl_product_name := strip_text (bl_product_name b),
     bl_verified_product_facts := map strip_text (bl_verified_product_facts b),
     bl_benefit_order := map strip_text (bl_benefit_order b),
     bl_cta_action_meaning := strip_text (bl_cta_action_meaning b)\<rparr>"

definition make_brand_lock :: "brand_lock \<Rightarrow> brand_lock result" where
  "make_brand_lock b = (let b' = strip_brand_lock b in
     if valid_brand_lock b' then Inr b' else Inl ValidationError)"

subsection \<open>Analyses, briefs and copy\<close>

record ad_analysis =
  an_source_asset :: asset_ref
  an_detected_locale :: locale_tag
  an_brand_lock :: brand_lock
  an_hypotheses :: "cultural_hypothesis list"
  an_warnings :: "pystr list"

definition valid_warnings :: "pystr list \<Rightarrow> bool" where
  "valid_warnings ws \<longleftrightarrow> length ws \<le> 32 \<and> list_all is_warning_code ws"

definition valid_ad_analysis :: "ad_analysis \<Rightarrow> bool" where
  "valid_ad_analysis a \<longleftrightarrow> length (an_hypotheses a) \<le> 32 \<and> valid_warnings (an_warnings a)"

definition make_ad_analysis :: "ad_analysis \<Rightarrow> ad_analysis result" where
  "make_ad_analysis a = (let a' = a\<lparr>an_warnings := map strip_text (an_warnings a)\<rparr> in
     if valid_ad_analysis a' then Inr a' else Inl ValidationError)"

record creative_brief =
  br_direction :: localization_direction
  br_target_locale :: locale_tag
  br_brand_lock :: brand_lock
  br_hypotheses :: "cultural_hypothesis list"
  br_narrative :: pystr
  br_use_scenario :: pystr
  br_trust_information :: pystr

definition valid_creative_brief :: "creative_brief \<Rightarrow> bool" where
  "valid_creative_brief b \<longleftrightarrow> length (br_hypotheses b) \<le> 32 \<and> is_long_text (br_narrative b)
     \<and> is_long_text (br_use_scenario b) \<and> is_long_text (br_trust_information b)"

definition make_creative_brief :: "creative_brief \<Rightarrow> creative_brief result" where
  "make_creative_brief b = (let b' = b\<lparr>br_narrative := strip_text (br_narrative b),
       br_use_scenario := strip_text (br_use_scenario b),
       br_trust_information := strip_text (br_trust_information b)\<rparr> in
     if valid_creative_brief b' then Inr b' else Inl ValidationError)"

record ad_copy =
  cp_locale :: locale_tag
  cp_headline :: pystr
  cp_body :: pystr
  cp_cta_label :: pystr
  cp_cta_action_meaning :: pystr

definition valid_ad_copy :: "ad_copy \<Rightarrow> bool" where
  "valid_ad_copy c \<longleftrightarrow> is_short_text (cp_headline c) \<and> is_long_text (cp_body c)
     \<and> is_short_text (cp_cta_label c) \<and> is_short_text (cp_cta_action_meaning c)"

definition make_ad_copy :: "ad_copy \<Rightarrow> ad_copy result" where
  "make_ad_copy c = (let c' = c\<lparr>cp_headline := strip_text (cp_headline c),
       cp_body := strip_text (cp_body c), cp_cta_label := strip_text (cp_cta_label c),
       cp_cta_action_meaning := strip_text (cp_cta_action_meaning c)\<rparr> in
     if valid_ad_copy c' then Inr c' else Inl ValidationError)"

subsection \<open>Critiques\<close>

datatype critique_status = PASS | REVISE | NEEDS_HUMAN_REVIEW | REJECT

datatype critique_category = CAT_BRAND_LOCK | CAT_FACT | CAT_READABILITY | CAT_CULTURE | CAT_SAFETY

datatype critique_severity = WARNING | BLOCKING

record critique_issue =
  ci_code :: pystr
  ci_category :: critique_category
  ci_severity :: critique_severity
  ci_message :: pystr
  ci_requires_human_review :: bool

definition valid_critique_issue :: "critique_issue \<Rightarrow> bool" where
  "valid_critique_issue i \<longleftrightarrow> is_warning_code (ci_code i) \<and> is_short_text (ci_message i)"

definition make_critique_issue :: "critique_issue \<Rightarrow> critique_issue result" where
  "make_critique_issue i = (let i' = i\<lparr>ci_code := strip_text (ci_code i),
       ci_message := strip_text (ci_message i)\<rparr> in
     if valid_critique_issue i' then Inr i' else Inl ValidationError)"

record critique_report =
  cr_status :: critique_status
  cr_issues :: "critique_issue list"
  cr_warnings :: "pystr list"
  cr_brand_lock_preserved :: bool
  cr_requires_human_review :: bool
  cr_reviewed_at :: datetime

definition is_blocking :: "critique_issue \<Rightarrow> bool" where
  "is_blocking i \<longleftrightarrow> ci_severity i = BLOCKING"

definition require_consistent_status :: "critique_report \<Rightarrow> bool" where
  "require_consistent_status r =
     (let blocking = list_ex is_blocking (cr_issues r) in
      if \<not> cr_brand_lock_preserved r
        \<and> \<not> list_ex (\<lambda>i. ci_category i = CAT_BRAND_LOCK \<and> is_blocking i) (cr_issues r)
      then False
      else if blocking \<noteq> (cr_status r = REJECT) then False
      else if cr_status r = PASS \<and> (cr_issues r \<noteq> [] \<or> cr_requires_human_review r) then False
      else if cr_status r = NEEDS_HUMAN_REVIEW \<and> \<not> cr_requires_human_review r then False
      else True)"

definition valid_critique_report :: "critique_report \<Rightarrow> bool" where
  "valid_critique_report r \<longleftrightarrow> length (cr_issues r) \<le> 32 \<and> valid_warnings (cr_warnings r)
     \<and> is_utc (cr_reviewed_at r) \<and> require_consistent_status r"

definition make_critique_report :: "critique_report \<Rightarrow> critique_report result" where
  "make_critique_report r = (let r' = r\<lparr>cr_warnings := map strip_text (cr_warnings r)\<rparr> in
     if valid_critique_report r' then Inr r' else Inl ValidationError)"

subsection \<open>Facts about text\<close>

lemma is_text_strip: "is_text n s \<Longrightarrow> strip_text s = s"
  by (simp add: is_text_def)

lemma is_short_text_strip [simp]: "is_short_text s \<Longrightarrow> strip_text s = s"
  by (simp add: is_short_text_def is_text_def)

lemma is_long_text_strip [simp]: "is_long_text s \<Longrightarrow> strip_text s = s"
  by (simp add: is_long_text_def is_text_def)

text \<open>A literal of the source is within its limit and has no white space at its ends.\<close>

lemma is_text_lit:
  "s \<noteq> [] \<Longrightarrow> length s \<le> n \<Longrightarrow> \<not> is_white (of_char (hd s)) \<Longrightarrow> \<not> is_white (of_char (last s))
    \<Longrightarrow> is_text n (lit s)"
  by (simp add: is_text_def strip_text_def strip_by_id lit_def hd_map last_map Suc_le_eq)

lemma is_text_points:
  "s \<noteq> [] \<Longrightarrow> length s \<le> n \<Longrightarrow> \<not> is_white (hd s) \<Longrightarrow> \<not> is_white (last s) \<Longrightarrow> is_text n s"
  by (simp add: is_text_def strip_text_def strip_by_id Suc_le_eq)

lemmas text_literals = is_short_text_def is_long_text_def is_text_lit is_white_def

lemmas code_literals = is_warning_code_def lit_def is_lower_def is_digit_def

text \<open>A code has no white space, so stripping leaves it alone.\<close>

lemma warning_code_strip [simp]:
  assumes "is_warning_code s"
  shows "strip_text s = s"
proof -
  have ends: "\<not> is_white c" if "is_lower c \<or> is_digit c \<or> c = 95" for c
    using that by (auto simp: is_white_def is_lower_def is_digit_def)
  have all: "list_all (\<lambda>c. is_lower c \<or> is_digit c \<or> c = 95) s" and ne: "s \<noteq> []"
    using assms by (auto simp: is_warning_code_def split: list.splits)
  from ne have "hd s \<in> set s" "last s \<in> set s"
    by simp_all
  then have "\<not> is_white (hd s)" "\<not> is_white (last s)"
    using all ends by (auto simp: list_all_iff)
  with ne show ?thesis
    by (simp add: strip_text_def strip_by_id)
qed

lemma valid_warnings_strip: "valid_warnings ws \<Longrightarrow> map strip_text ws = ws"
  by (auto simp: valid_warnings_def list_all_iff intro!: map_idI)

lemma list_all_short_strip: "list_all is_short_text ss \<Longrightarrow> map strip_text ss = ss"
  by (auto simp: list_all_iff intro!: map_idI)

subsection \<open>Validated values are fixed points of their constructors\<close>

lemma make_brand_lock_valid: "make_brand_lock b = Inr b' \<Longrightarrow> valid_brand_lock b'"
  by (auto simp: make_brand_lock_def Let_def split: if_splits)

lemma make_brand_lock_id: "valid_brand_lock b \<Longrightarrow> make_brand_lock b = Inr b"
  by (simp add: make_brand_lock_def strip_brand_lock_def valid_brand_lock_def
      list_all_short_strip Let_def)

lemma make_ad_analysis_valid: "make_ad_analysis a = Inr a' \<Longrightarrow> valid_ad_analysis a'"
  by (auto simp: make_ad_analysis_def Let_def split: if_splits)

lemma make_ad_analysis_id: "valid_ad_analysis a \<Longrightarrow> make_ad_analysis a = Inr a"
  by (simp add: make_ad_analysis_def valid_ad_analysis_def valid_warnings_strip Let_def)

lemma make_creative_brief_id: "valid_creative_brief b \<Longrightarrow> make_creative_brief b = Inr b"
  by (simp add: make_creative_brief_def valid_creative_brief_def Let_def)

lemma make_ad_copy_id: "valid_ad_copy c \<Longrightarrow> make_ad_copy c = Inr c"
  by (simp add: make_ad_copy_def valid_ad_copy_def Let_def)

lemma make_critique_issue_id: "valid_critique_issue i \<Longrightarrow> make_critique_issue i = Inr i"
  by (simp add: make_critique_issue_def valid_critique_issue_def Let_def)

lemma make_critique_report_valid: "make_critique_report r = Inr r' \<Longrightarrow> valid_critique_report r'"
  by (auto simp: make_critique_report_def Let_def split: if_splits)

lemma make_critique_report_id: "valid_critique_report r \<Longrightarrow> make_critique_report r = Inr r"
  by (simp add: make_critique_report_def valid_critique_report_def valid_warnings_strip Let_def)

lemma valid_report_blocking_iff:
  "valid_critique_report r \<Longrightarrow> (\<exists>i \<in> set (cr_issues r). is_blocking i) \<longleftrightarrow> cr_status r = REJECT"
  by (auto simp: valid_critique_report_def require_consistent_status_def Let_def list_ex_iff
      split: if_splits)

lemma valid_report_lock_preserved:
  "valid_critique_report r \<Longrightarrow> cr_status r \<noteq> REJECT \<Longrightarrow> cr_brand_lock_preserved r"
  by (auto simp: valid_critique_report_def require_consistent_status_def Let_def list_ex_iff
      split: if_splits)

end
