(* ===== verification/Result_Contracts.thy ===== *)
theory Result_Contracts
  imports Contracts
begin

section \<open>Public contracts: runs, drafts, compositions, revisions\<close>

text \<open>
  The second half of \<open>src/cultureshift/contracts.py\<close>, in the style of \<open>Contracts\<close>: the
  requests and responses of the API, with the after-validators that tie the parts of a
  response together. A field of a \<open>Literal\<close> type with one value keeps its check in
  \<open>valid_X\<close>; one with several values is a datatype.
\<close>

subsection \<open>Results of a run\<close>

record result_version =
  rv_version :: int
  rv_analysis :: ad_analysis
  rv_brief :: creative_brief
  rv_ad_copy :: ad_copy
  rv_rendered_asset :: "asset_ref option"
  rv_critique :: critique_report
  rv_created_at :: datetime

definition preserve_cross_artifact_brand_lock :: "result_version \<Rightarrow> bool" where
  "preserve_cross_artifact_brand_lock v \<longleftrightarrow>
     an_brand_lock (rv_analysis v) = br_brand_lock (rv_brief v)
     \<and> cp_cta_action_meaning (rv_ad_copy v) = bl_cta_action_meaning (br_brand_lock (rv_brief v))
     \<and> (case rv_rendered_asset v of None \<Rightarrow> True | Some a \<Rightarrow> as_kind a = RENDERED_AD)"

definition make_result_version :: "result_version \<Rightarrow> result_version result" where
  "make_result_version v =
     (if 1 \<le> rv_version v \<and> is_utc (rv_created_at v) \<and> preserve_cross_artifact_brand_lock v
      then Inr v else Inl ValidationError)"

datatype product_category = AI_SOFTWARE | AI_APPLICATION

datatype creative_format = STATIC_AD

record run_create =
  rc_direction :: localization_direction
  rc_execution_mode :: execution_mode
  rc_source_asset :: asset_ref
  rc_brand_lock :: brand_lock
  rc_product_category :: product_category
  rc_creative_format :: creative_format

definition make_run_create :: "run_create \<Rightarrow> run_create result" where
  "make_run_create r = (if rc_execution_mode r \<noteq> FIXTURE then Inl ValidationError else Inr r)"

record run_created =
  rd_run_id :: uuid
  rd_status :: run_status
  rd_capability_token :: pystr
  rd_created_at :: datetime

definition make_run_created :: "run_created \<Rightarrow> run_created result" where
  "make_run_created r =
     (let r' = r\<lparr>rd_capability_token := strip_text (rd_capability_token r)\<rparr> in
      if is_token_text (rd_capability_token r') \<and> is_utc (rd_created_at r')
      then Inr r' else Inl ValidationError)"

record run_snapshot =
  rn_run_id :: uuid
  rn_direction :: localization_direction
  rn_status :: run_status
  rn_warning_codes :: "pystr list"
  rn_created_at :: datetime
  rn_updated_at :: datetime

definition make_run_snapshot :: "run_snapshot \<Rightarrow> run_snapshot result" where
  "make_run_snapshot r =
     (let r' = r\<lparr>rn_warning_codes := map strip_text (rn_warning_codes r)\<rparr> in
      if valid_warnings (rn_warning_codes r') \<and> is_utc (rn_created_at r')
        \<and> is_utc (rn_updated_at r')
      then Inr r' else Inl ValidationError)"

record analysis_completed =
  ac_run_id :: uuid
  ac_status :: run_status
  ac_analysis :: ad_analysis
  ac_repair_attempted :: bool
  ac_completed_at :: datetime

definition make_analysis_completed :: "analysis_completed \<Rightarrow> analysis_completed result" where
  "make_analysis_completed c =
     (if ac_status c = RUN_AWAITING_BRAND_LOCK \<and> is_utc (ac_completed_at c)
      then Inr c else Inl ValidationError)"

record brand_lock_confirmed =
  bc_run_id :: uuid
  bc_status :: run_status
  bc_brand_lock :: brand_lock
  bc_confirmed_at :: datetime

definition make_brand_lock_confirmed :: "brand_lock_confirmed \<Rightarrow> brand_lock_confirmed result" where
  "make_brand_lock_confirmed c =
     (if bc_status c = RUN_IN_PROGRESS \<and> is_utc (bc_confirmed_at c)
      then Inr c else Inl ValidationError)"

subsection \<open>Drafts\<close>

record draft_generated =
  dg_run_id :: uuid
  dg_status :: run_status
  dg_brief :: creative_brief
  dg_ad_copy :: ad_copy
  dg_rule_ids :: "pystr list"
  dg_generated_at :: datetime

text \<open>The table \<open>expected\<close> of the directional constraint.\<close>

fun directional_constraint :: "localization_direction \<Rightarrow> locale_tag \<times> pystr list" where
  "directional_constraint CHINA_TO_UK = (EN_GB, [lit ''ZEU-S1'', lit ''ZEU-S3''])"
| "directional_constraint UK_TO_CHINA = (ZH_CN, [lit ''EZC-S1'', lit ''EZC-S3''])"

definition preserve_directional_constraints :: "draft_generated \<Rightarrow> bool" where
  "preserve_directional_constraints d =
     (case directional_constraint (br_direction (dg_brief d)) of (loc, rule_ids) \<Rightarrow>
        br_target_locale (dg_brief d) = loc \<and> cp_locale (dg_ad_copy d) = loc
        \<and> cp_cta_action_meaning (dg_ad_copy d)
            = bl_cta_action_meaning (br_brand_lock (dg_brief d))
        \<and> dg_rule_ids d = rule_ids)"

definition make_draft_generated :: "draft_generated \<Rightarrow> draft_generated result" where
  "make_draft_generated d =
     (let d' = d\<lparr>dg_rule_ids := map strip_text (dg_rule_ids d)\<rparr> in
      if dg_status d' = RUN_IN_PROGRESS \<and> length (dg_rule_ids d') = 2
        \<and> list_all is_short_text (dg_rule_ids d') \<and> is_utc (dg_generated_at d')
        \<and> preserve_directional_constraints d'
      then Inr d' else Inl ValidationError)"

record critique_completed =
  cc_run_id :: uuid
  cc_status :: run_status
  cc_critique :: critique_report
  cc_initial_generation_count :: int
  cc_human_revision_count :: int
  cc_technical_attempt_count :: int
  cc_reviewed_at :: datetime

definition make_critique_completed :: "critique_completed \<Rightarrow> critique_completed result" where
  "make_critique_completed c =
     (if cc_status c \<in> {RUN_READY, RUN_FAILED_FINAL}
        \<and> 0 \<le> cc_initial_generation_count c \<and> cc_initial_generation_count c \<le> 1
        \<and> 0 \<le> cc_human_revision_count c \<and> cc_human_revision_count c \<le> 1
        \<and> 0 \<le> cc_technical_attempt_count c \<and> is_utc (cc_reviewed_at c)
        \<and> cc_reviewed_at c = cr_reviewed_at (cc_critique c)
      then Inr c else Inl ValidationError)"

subsection \<open>Backgrounds and compositions\<close>

datatype prohibited_content =
  PC_LOGO | PC_BRAND_NAME | PC_PRODUCT_UI | PC_STATISTICS | PC_CLAIMS | PC_LONG_TEXT

definition background_guardrails :: "prohibited_content list" where
  "background_guardrails =
     [PC_LOGO, PC_BRAND_NAME, PC_PRODUCT_UI, PC_STATISTICS, PC_CLAIMS, PC_LONG_TEXT]"

record background_request =
  bg_direction :: localization_direction
  bg_target_locale :: locale_tag
  bg_narrative :: pystr
  bg_use_scenario :: pystr
  bg_width :: int
  bg_height :: int
  bg_prohibited_content :: "prohibited_content list"

fun expected_locale :: "localization_direction \<Rightarrow> locale_tag" where
  "expected_locale CHINA_TO_UK = EN_GB"
| "expected_locale UK_TO_CHINA = ZH_CN"

definition require_directional_locale_and_guardrails :: "background_request \<Rightarrow> bool" where
  "require_directional_locale_and_guardrails b \<longleftrightarrow>
     bg_target_locale b = expected_locale (bg_direction b)
     \<and> bg_prohibited_content b = background_guardrails"

text \<open>The call with the defaults for size and guardrails, as the services make it.\<close>

definition make_background_request ::
  "localization_direction \<Rightarrow> locale_tag \<Rightarrow> pystr \<Rightarrow> pystr \<Rightarrow> background_request result" where
  "make_background_request direction loc narrative scenario =
     (let b = \<lparr>bg_direction = direction, bg_target_locale = loc,
        bg_narrative = strip_text narrative, bg_use_scenario = strip_text scenario,
        bg_width = 1600, bg_height = 900, bg_prohibited_content = background_guardrails\<rparr> in
      if is_long_text (bg_narrative b) \<and> is_long_text (bg_use_scenario b)
        \<and> require_directional_locale_and_guardrails b
      then Inr b else Inl ValidationError)"

datatype layer_kind =
    LAYER_BACKGROUND
  | LAYER_PRODUCT_UI
  | LAYER_LOGO
  | LAYER_HEADLINE
  | LAYER_BODY
  | LAYER_CTA
  | LAYER_DISCLOSURE

record composition_layer =
  ly_kind :: layer_kind
  ly_source_asset_id :: "uuid option"
  ly_rgba_sha256 :: pystr
  ly_bounds :: "int \<times> int \<times> int \<times> int"
  ly_width :: int
  ly_height :: int

definition require_valid_source_and_bounds :: "composition_layer \<Rightarrow> bool" where
  "require_valid_source_and_bounds l =
     (if (ly_kind l \<in> {LAYER_LOGO, LAYER_PRODUCT_UI}) \<noteq> (ly_source_asset_id l \<noteq> None) then False
      else case ly_bounds l of (left, upper, right, lower) \<Rightarrow>
        \<not> (left < 0 \<or> upper < 0 \<or> right > 1600 \<or> lower > 900 \<or> right \<le> left \<or> lower \<le> upper
           \<or> right - left \<noteq> ly_width l \<or> lower - upper \<noteq> ly_height l))"

definition valid_composition_layer :: "composition_layer \<Rightarrow> bool" where
  "valid_composition_layer l \<longleftrightarrow> is_sha256 (ly_rgba_sha256 l)
     \<and> 1 \<le> ly_width l \<and> ly_width l \<le> 1600 \<and> 1 \<le> ly_height l \<and> ly_height l \<le> 900
     \<and> require_valid_source_and_bounds l"

definition make_composition_layer :: "composition_layer \<Rightarrow> composition_layer result" where
  "make_composition_layer l = (let l' = l\<lparr>ly_rgba_sha256 := strip_text (ly_rgba_sha256 l)\<rparr> in
     if valid_composition_layer l' then Inr l' else Inl ValidationError)"

record composition_generated =
  co_run_id :: uuid
  co_status :: run_status
  co_execution_mode :: execution_mode
  co_width :: int
  co_height :: int
  co_media_type :: pystr
  co_rendered_sha256 :: pystr
  co_artifact_id :: uuid
  co_layers :: "composition_layer list"
  co_disclosure :: pystr
  co_generated_at :: datetime

text \<open>\<open>"Fixture Demo / \<dots>"\<close>, the disclosure with its five Chinese characters.\<close>

definition DISCLOSURE :: pystr where
  "DISCLOSURE = lit ''Fixture Demo / '' @ [0x975E, 0x5B9E, 0x65F6, 0x6A21, 0x578B]"

definition fixed_layer_order :: "layer_kind list" where
  "fixed_layer_order = [LAYER_BACKGROUND, LAYER_PRODUCT_UI, LAYER_LOGO, LAYER_HEADLINE,
     LAYER_BODY, LAYER_CTA, LAYER_DISCLOSURE]"

definition layer_order_without_ui :: "layer_kind list" where
  "layer_order_without_ui = [LAYER_BACKGROUND, LAYER_LOGO, LAYER_HEADLINE, LAYER_BODY,
     LAYER_CTA, LAYER_DISCLOSURE]"

definition require_fixed_layer_order :: "composition_generated \<Rightarrow> bool" where
  "require_fixed_layer_order c \<longleftrightarrow>
     map ly_kind (co_layers c) \<in> {fixed_layer_order, layer_order_without_ui}"

definition valid_composition_generated :: "composition_generated \<Rightarrow> bool" where
  "valid_composition_generated c \<longleftrightarrow> co_status c = RUN_IN_PROGRESS \<and> co_execution_mode c = FIXTURE
     \<and> co_width c = 1600 \<and> co_height c = 900 \<and> co_media_type c = lit ''image/png''
     \<and> is_sha256 (co_rendered_sha256 c)
     \<and> 6 \<le> length (co_layers c) \<and> length (co_layers c) \<le> 7
     \<and> co_disclosure c = DISCLOSURE \<and> is_utc (co_generated_at c)
     \<and> require_fixed_layer_order c"

definition make_composition_generated :: "composition_generated \<Rightarrow> composition_generated result" where
  "make_composition_generated c =
     (let c' = c\<lparr>co_rendered_sha256 := strip_text (co_rendered_sha256 c)\<rparr> in
      if valid_composition_generated c' then Inr c' else Inl ValidationError)"

text \<open>\<open>{layer.kind: layer.source_asset_id for layer in layers if ... is not None}\<close>, which the
  repository and the Critic both build.\<close>

definition layer_sources :: "composition_generated \<Rightarrow> layer_kind \<rightharpoonup> uuid" where
  "layer_sources c = dict_of (map (\<lambda>l. (ly_kind l, the (ly_source_asset_id l)))
     (filter (\<lambda>l. ly_source_asset_id l \<noteq> None) (co_layers c)))"

subsection \<open>Feedback, revision, retry\<close>

datatype revision_change = SHORTEN_HEADLINE | SHORTEN_BODY

record feedback_request =
  fb_run_id :: uuid
  fb_feedback :: pystr
  fb_requested_changes :: "revision_change list"
  fb_submitted_at :: datetime

definition make_feedback_request :: "feedback_request \<Rightarrow> feedback_request result" where
  "make_feedback_request f = (let f' = f\<lparr>fb_feedback := strip_text (fb_feedback f)\<rparr> in
     if is_long_text (fb_feedback f') \<and> 1 \<le> length (fb_requested_changes f')
       \<and> length (fb_requested_changes f') \<le> 2 \<and> unique (fb_requested_changes f')
       \<and> is_utc (fb_submitted_at f')
     then Inr f' else Inl ValidationError)"

record revision_completed =
  rp_run_id :: uuid
  rp_status :: run_status
  rp_result_version :: int
  rp_previous_composition :: composition_generated
  rp_brief :: creative_brief
  rp_ad_copy :: ad_copy
  rp_composition :: composition_generated
  rp_critique :: critique_report
  rp_initial_generation_count :: int
  rp_human_revision_count :: int
  rp_technical_attempt_count :: int
  rp_revised_at :: datetime

definition preserve_revision_identity :: "revision_completed \<Rightarrow> bool" where
  "preserve_revision_identity r \<longleftrightarrow>
     co_run_id (rp_previous_composition r) = rp_run_id r \<and> co_run_id (rp_composition r) = rp_run_id r
     \<and> co_artifact_id (rp_previous_composition r) \<noteq> co_artifact_id (rp_composition r)
     \<and> cp_locale (rp_ad_copy r) = br_target_locale (rp_brief r)
     \<and> cp_cta_action_meaning (rp_ad_copy r) = bl_cta_action_meaning (br_brand_lock (rp_brief r))
     \<and> (cr_status (rp_critique r) = REJECT) = (rp_status r = RUN_FAILED_FINAL)"

definition valid_revision_completed :: "revision_completed \<Rightarrow> bool" where
  "valid_revision_completed r \<longleftrightarrow> rp_status r \<in> {RUN_READY, RUN_FAILED_FINAL}
     \<and> rp_result_version r = 2 \<and> rp_initial_generation_count r = 1
     \<and> rp_human_revision_count r = 1 \<and> 0 \<le> rp_technical_attempt_count r
     \<and> is_utc (rp_revised_at r) \<and> preserve_revision_identity r"

definition make_revision_completed :: "revision_completed \<Rightarrow> revision_completed result" where
  "make_revision_completed r =
     (if valid_revision_completed r then Inr r else Inl ValidationError)"

datatype reason_category = REASON_VALIDATION | REASON_GENERATION | REASON_REVIEW

record retry_request =
  rq_run_id :: uuid
  rq_reason_category :: reason_category

subsection \<open>The contract of a whole run\<close>

record project_run_contract =
  pc_run_id :: uuid
  pc_request :: run_create
  pc_status :: run_status
  pc_result_versions :: "result_version list"
  pc_warning_codes :: "pystr list"
  pc_created_at :: datetime
  pc_updated_at :: datetime

definition tie_results_to_original_request :: "project_run_contract \<Rightarrow> bool" where
  "tie_results_to_original_request c = list_all (\<lambda>v.
     an_brand_lock (rv_analysis v) = rc_brand_lock (pc_request c)
     \<and> an_source_asset (rv_analysis v) = rc_source_asset (pc_request c)
     \<and> br_direction (rv_brief v) = rc_direction (pc_request c)
     \<and> cp_cta_action_meaning (rv_ad_copy v) = bl_cta_action_meaning (rc_brand_lock (pc_request c)))
     (pc_result_versions c)"

definition make_project_run_contract :: "project_run_contract \<Rightarrow> project_run_contract result" where
  "make_project_run_contract c =
     (let c' = c\<lparr>pc_warning_codes := map strip_text (pc_warning_codes c)\<rparr> in
      if length (pc_result_versions c') \<le> 64 \<and> valid_warnings (pc_warning_codes c')
        \<and> is_utc (pc_created_at c') \<and> is_utc (pc_updated_at c')
        \<and> tie_results_to_original_request c'
      then Inr c' else Inl ValidationError)"

subsection \<open>Facts about layers\<close>

lemma expected_locale_directional: "expected_locale d = fst (directional_constraint d)"
  by (cases d) simp_all

lemma valid_layer_bounds:
  assumes "valid_composition_layer l" "ly_bounds l = (x, y, x', y')"
  shows "0 \<le> x" "0 \<le> y" "x < x'" "y < y'" "x' \<le> 1600" "y' \<le> 900"
    "x' - x = ly_width l" "y' - y = ly_height l"
  using assms
  by (auto simp: valid_composition_layer_def require_valid_source_and_bounds_def
      split: if_splits)

lemma valid_composition_kinds_distinct:
  "valid_composition_generated c \<Longrightarrow> distinct (map ly_kind (co_layers c))"
  by (auto simp: valid_composition_generated_def require_fixed_layer_order_def
      fixed_layer_order_def layer_order_without_ui_def)

text \<open>In a valid composition a kind names one layer, so the dict holds that layer's source.\<close>

lemma layer_sources_eq:
  assumes "distinct (map ly_kind (co_layers c))" "l \<in> set (co_layers c)"
  shows "layer_sources c (ly_kind l) = ly_source_asset_id l"
proof -
  define kvs where "kvs = map (\<lambda>l. (ly_kind l, the (ly_source_asset_id l)))
     (filter (\<lambda>l. ly_source_asset_id l \<noteq> None) (co_layers c))"
  have fst_kvs: "map fst kvs = map ly_kind (filter (\<lambda>l. ly_source_asset_id l \<noteq> None) (co_layers c))"
    by (simp add: kvs_def)
  have dist: "distinct (map fst kvs)"
    unfolding fst_kvs using assms(1) by (rule distinct_map_filter)
  have sources: "layer_sources c = map_of kvs"
    unfolding layer_sources_def kvs_def[symmetric] by (rule dict_of_distinct[OF dist])
  show ?thesis
  proof (cases "ly_source_asset_id l")
    case None
    have "ly_kind l \<notin> set (map fst kvs)"
    proof
      assume "ly_kind l \<in> set (map fst kvs)"
      then obtain l' where "l' \<in> set (co_layers c)" "ly_source_asset_id l' \<noteq> None"
        "ly_kind l' = ly_kind l"
        unfolding fst_kvs by auto
      with assms None show False
        by (metis distinct_map inj_on_eq_iff)
    qed
    then show ?thesis
      by (simp add: sources None map_of_eq_None_iff)
  next
    case (Some u)
    then have "(ly_kind l, u) \<in> set kvs"
      using assms(2) unfolding kvs_def by force
    with dist show ?thesis
      by (simp add: sources Some)
  qed
qed

subsection \<open>Contracts that no handler answers with\<close>

record job_accepted =
  ja_run_id :: uuid
  ja_status :: run_status
  ja_accepted_at :: datetime

definition make_job_accepted :: "job_accepted \<Rightarrow> job_accepted result" where
  "make_job_accepted j = (if is_utc (ja_accepted_at j) then Inr j else Inl ValidationError)"

datatype approval_status = APPROVAL_PENDING | APPROVED | REJECTED

record export_summary_contract =
  es_run_id :: uuid
  es_result_version :: int
  es_approval_status :: approval_status
  es_warnings :: "pystr list"
  es_exported_at :: datetime

definition make_export_summary :: "export_summary_contract \<Rightarrow> export_summary_contract result" where
  "make_export_summary e =
     (let e' = e\<lparr>es_warnings := map strip_text (es_warnings e)\<rparr> in
      if 1 \<le> es_result_version e' \<and> valid_warnings (es_warnings e') \<and> is_utc (es_exported_at e')
      then Inr e' else Inl ValidationError)"

lemma make_export_summary_Inr:
  "make_export_summary e = Inr e' \<Longrightarrow> make_export_summary e' = Inr e'"
  by (auto simp: make_export_summary_def Let_def o_def split: if_splits)

end
