(* ===== verification/Workflow.thy ===== *)
theory Workflow
  imports Domain
begin

section \<open>Retry decisions\<close>

text \<open>
  The model of \<open>src/cultureshift/workflow.py\<close>: the server-side table that says, for a failure
  condition and the number of technical attempts made, what may be tried next and which status
  the run takes. Lemmas: the table on every branch, and that no condition allows a second
  technical retry.
\<close>

datatype retry_condition =
    CONNECTION_BEFORE_ACCEPTANCE
  | ACCEPTED_WITH_CALL_ID
  | ACCEPTANCE_UNKNOWN
  | INVALID_SCHEMA
  | SAFETY_REFUSAL
  | BRAND_LOCK_FAILURE
  | CULTURAL_AMBIGUITY

datatype retry_action =
    RETRY_ONCE
  | POLL_EXISTING
  | REQUIRE_EXPLICIT_ACKNOWLEDGEMENT
  | REPAIR_ONCE
  | DO_NOT_RETRY
  | RECOMPOSE_SAME_LAYERS_ONCE
  | REQUIRE_HUMAN_REVIEW

record retry_decision =
  rd_action :: retry_action
  rd_next_status :: project_run_status

text \<open>The dict literal of the three conditions that one more attempt may fix.\<close>

fun technical_action :: "retry_condition \<Rightarrow> retry_action option" where
  "technical_action CONNECTION_BEFORE_ACCEPTANCE = Some RETRY_ONCE"
| "technical_action BRAND_LOCK_FAILURE = Some RECOMPOSE_SAME_LAYERS_ONCE"
| "technical_action INVALID_SCHEMA = Some REPAIR_ONCE"
| "technical_action _ = None"

definition decide_retry :: "retry_condition \<Rightarrow> int \<Rightarrow> pystr option \<Rightarrow> retry_decision result" where
  "decide_retry condition attempt_count call_id =
     (if attempt_count < 0 then Inl ValueError
      else if condition = ACCEPTED_WITH_CALL_ID then
        (case call_id of
          None \<Rightarrow> Inl ValueError
        | Some c \<Rightarrow> if c = [] \<or> length c > 128 then Inl ValueError
            else Inr \<lparr>rd_action = POLL_EXISTING, rd_next_status = IN_PROGRESS\<rparr>)
      else case technical_action condition of
        Some action \<Rightarrow>
          if attempt_count \<ge> 1
          then Inr \<lparr>rd_action = DO_NOT_RETRY, rd_next_status = FAILED_FINAL\<rparr>
          else Inr \<lparr>rd_action = action, rd_next_status = IN_PROGRESS\<rparr>
      | None \<Rightarrow>
          if condition = ACCEPTANCE_UNKNOWN then
            Inr \<lparr>rd_action = REQUIRE_EXPLICIT_ACKNOWLEDGEMENT, rd_next_status = FAILED_RETRYABLE\<rparr>
          else if condition = CULTURAL_AMBIGUITY then
            Inr \<lparr>rd_action = REQUIRE_HUMAN_REVIEW, rd_next_status = READY\<rparr>
          else Inr \<lparr>rd_action = DO_NOT_RETRY, rd_next_status = FAILED_FINAL\<rparr>)"

text \<open>The set of actions that the repository and the revision service call retryable.\<close>

definition retryable_actions :: "retry_action set" where
  "retryable_actions = {RETRY_ONCE, REPAIR_ONCE, RECOMPOSE_SAME_LAYERS_ONCE}"

lemma technical_action_retryable: "technical_action c = Some a \<Longrightarrow> a \<in> retryable_actions"
  by (cases c) (auto simp: retryable_actions_def)

lemma decide_retry_error_iff:
  "(\<exists>e. decide_retry c n call = Inl e) \<longleftrightarrow>
     n < 0 \<or> (c = ACCEPTED_WITH_CALL_ID \<and> (call = None \<or> call = Some [] \<or> length (the call) > 128))"
  by (cases c) (auto simp: decide_retry_def split: option.splits)

lemma decide_retry_retryable_iff:
  "decide_retry c n call = Inr d \<Longrightarrow>
     rd_action d \<in> retryable_actions \<longleftrightarrow> n = 0 \<and> technical_action c = Some (rd_action d)"
  by (cases c) (auto simp: decide_retry_def retryable_actions_def split: if_splits option.splits)

text \<open>
  A decision that lets the server run the work again (retry, repair or recompose) is made
  only before the first technical attempt and puts the run back to work; after an attempt every
  condition that had such an action is final; and the next status is always one that an
  in-progress run may keep or move to along the transition table.
\<close>

theorem decide_retry_at_most_once:
  assumes "decide_retry condition attempts call = Inr d"
  shows "(rd_action d \<in> retryable_actions \<longrightarrow> attempts = 0 \<and> rd_next_status d = IN_PROGRESS)
    \<and> (1 \<le> attempts \<and> technical_action condition \<noteq> None \<longrightarrow>
         d = \<lparr>rd_action = DO_NOT_RETRY, rd_next_status = FAILED_FINAL\<rparr>)
    \<and> rd_next_status d \<in> insert IN_PROGRESS (allowed_transitions IN_PROGRESS)"
  using assms
  by (cases condition; auto simp: decide_retry_def retryable_actions_def
      split: if_splits option.splits)

theorem decide_retry_at_most_once_witness:
  "decide_retry INVALID_SCHEMA 1 None = Inr \<lparr>rd_action = DO_NOT_RETRY, rd_next_status = FAILED_FINAL\<rparr>
   \<and> REPAIR_ONCE \<in> retryable_actions
   \<and> decide_retry INVALID_SCHEMA 0 None = Inr \<lparr>rd_action = REPAIR_ONCE, rd_next_status = IN_PROGRESS\<rparr>
   \<and> IN_PROGRESS \<in> insert IN_PROGRESS (allowed_transitions IN_PROGRESS)"
proof -
  have one: "decide_retry INVALID_SCHEMA 1 None =
      Inr \<lparr>rd_action = DO_NOT_RETRY, rd_next_status = FAILED_FINAL\<rparr>"
    and zero: "decide_retry INVALID_SCHEMA 0 None =
      Inr \<lparr>rd_action = REPAIR_ONCE, rd_next_status = IN_PROGRESS\<rparr>"
    by (simp_all add: decide_retry_def)
  show ?thesis
    using one zero decide_retry_at_most_once[OF zero] by (simp add: retryable_actions_def)
qed

end
