(* ===== verification/Brand_Lock.thy ===== *)
theory Brand_Lock
  imports Contracts "HOL-Library.Multiset"
begin

section \<open>Confirmation of the Brand Lock\<close>

text \<open>
  The model of \<open>src/cultureshift/brand_lock_confirmation.py\<close>: the check that a proposed lock
  differs from the analysed one only in the order of the benefits and the selection of
  localizable fields. The lemma \<open>confirmation_accepts_iff\<close> says exactly which proposals pass.
\<close>

definition locked_fields_equal :: "brand_lock \<Rightarrow> brand_lock \<Rightarrow> bool" where
  "locked_fields_equal p a \<longleftrightarrow>
     bl_logo_asset_id p = bl_logo_asset_id a \<and> bl_product_name p = bl_product_name a
     \<and> bl_verified_product_facts p = bl_verified_product_facts a
     \<and> bl_product_ui_asset_ids p = bl_product_ui_asset_ids a
     \<and> bl_cta_action_meaning p = bl_cta_action_meaning a
     \<and> bl_layout_template_asset_id p = bl_layout_template_asset_id a"

definition validate_brand_lock_confirmation :: "brand_lock \<Rightarrow> brand_lock \<Rightarrow> brand_lock result" where
  "validate_brand_lock_confirmation proposed analyzed =
     (if \<not> locked_fields_equal proposed analyzed
      then Inl (BrandLockConfirmationError LOCKED_FIELD_CHANGED)
      else if length (bl_benefit_order proposed) \<noteq> length (bl_benefit_order analyzed)
        \<or> set (bl_benefit_order proposed) \<noteq> set (bl_benefit_order analyzed)
      then Inl (BrandLockConfirmationError BENEFIT_ORDER_INVALID)
      else if \<not> set (bl_localizable_fields proposed) \<subseteq> set (bl_localizable_fields analyzed)
      then Inl (BrandLockConfirmationError LOCALIZABLE_FIELDS_INVALID)
      else Inr proposed)"

text \<open>The contract of the check, stated without its order of tests.\<close>

definition confirms :: "brand_lock \<Rightarrow> brand_lock \<Rightarrow> bool" where
  "confirms proposed analyzed \<longleftrightarrow> locked_fields_equal proposed analyzed
     \<and> mset (bl_benefit_order proposed) = mset (bl_benefit_order analyzed)
     \<and> set (bl_localizable_fields proposed) \<subseteq> set (bl_localizable_fields analyzed)"

lemma perm_of_distinct_iff:
  assumes "distinct xs" "distinct ys"
  shows "length xs = length ys \<and> set xs = set ys \<longleftrightarrow> mset xs = mset ys"
  using assms by (metis mset_eq_length mset_eq_setD set_eq_iff_mset_eq_distinct)

lemma valid_brand_lock_distinct:
  "valid_brand_lock b \<Longrightarrow> distinct (bl_benefit_order b)"
  "valid_brand_lock b \<Longrightarrow> distinct (bl_verified_product_facts b)"
  "valid_brand_lock b \<Longrightarrow> distinct (bl_product_ui_asset_ids b)"
  "valid_brand_lock b \<Longrightarrow> distinct (bl_localizable_fields b)"
  by (simp_all add: valid_brand_lock_def require_unique_sequences_def)

lemma valid_brand_lock_nonempty:
  "valid_brand_lock b \<Longrightarrow> bl_product_ui_asset_ids b \<noteq> []"
  "valid_brand_lock b \<Longrightarrow> bl_verified_product_facts b \<noteq> []"
  by (auto simp: valid_brand_lock_def)

lemma validate_confirmation_Inr:
  "validate_brand_lock_confirmation p a = Inr r \<Longrightarrow> r = p"
  by (simp add: validate_brand_lock_confirmation_def split: if_splits)

lemma confirms_refl [simp]: "confirms b b"
  by (simp add: confirms_def locked_fields_equal_def)

lemma confirms_trans: "confirms a b \<Longrightarrow> confirms b c \<Longrightarrow> confirms a c"
  by (auto simp: confirms_def locked_fields_equal_def)

text \<open>
  C33. For two Brand Locks that satisfy the contract, the confirmation check accepts exactly the
  proposals that keep every locked field, permute the benefits, and select among the analysed
  localizable fields; it returns the proposal unchanged, and otherwise raises one of the three
  confirmation errors, the locked-field one first.
\<close>

theorem confirmation_accepts_iff:
  assumes "valid_brand_lock proposed" "valid_brand_lock analyzed"
  shows "validate_brand_lock_confirmation proposed analyzed =
     (if confirms proposed analyzed then Inr proposed
      else Inl (BrandLockConfirmationError
        (if \<not> locked_fields_equal proposed analyzed then LOCKED_FIELD_CHANGED
         else if mset (bl_benefit_order proposed) \<noteq> mset (bl_benefit_order analyzed)
         then BENEFIT_ORDER_INVALID else LOCALIZABLE_FIELDS_INVALID)))"
  using perm_of_distinct_iff[OF valid_brand_lock_distinct(1)[OF assms(1)]
      valid_brand_lock_distinct(1)[OF assms(2)]]
  by (auto simp: validate_brand_lock_confirmation_def confirms_def)

text \<open>The lock of the Orbit AI fixture, the subject of the witnesses here and below.\<close>

definition orbit_lock :: brand_lock where
  "orbit_lock = \<lparr>bl_logo_asset_id = 0xa1111111111141118111111111111111,
     bl_product_name = lit ''Orbit AI'',
     bl_verified_product_facts = [lit ''Turns approved notes into task summaries''],
     bl_product_ui_asset_ids = [0xa2222222222242228222222222222222],
     bl_benefit_order = [lit ''Summarize'', lit ''Organize''],
     bl_cta_action_meaning = lit ''Start a fixture demo'',
     bl_layout_template_asset_id = 0xa3333333333343338333333333333333,
     bl_localizable_fields = [NARRATIVE, USE_SCENARIO, TRUST_INFORMATION, LANGUAGE]\<rparr>"

definition reordered_orbit_lock :: brand_lock where
  "reordered_orbit_lock = orbit_lock\<lparr>bl_benefit_order := [lit ''Organize'', lit ''Summarize''],
     bl_localizable_fields := [NARRATIVE]\<rparr>"

lemma valid_orbit_lock: "valid_brand_lock orbit_lock"
  by (simp add: valid_brand_lock_def require_unique_sequences_def orbit_lock_def text_literals)

lemma valid_reordered_orbit_lock: "valid_brand_lock reordered_orbit_lock"
  by (simp add: valid_brand_lock_def require_unique_sequences_def orbit_lock_def
      reordered_orbit_lock_def text_literals)

theorem confirmation_accepts_iff_witness:
  "validate_brand_lock_confirmation reordered_orbit_lock orbit_lock = Inr reordered_orbit_lock"
proof -
  have "confirms reordered_orbit_lock orbit_lock"
    by (simp add: confirms_def locked_fields_equal_def reordered_orbit_lock_def orbit_lock_def)
  then show ?thesis
    using confirmation_accepts_iff[OF valid_reordered_orbit_lock valid_orbit_lock] by simp
qed

end
