(* ===== verification/Database.thy ===== *)
theory Database
  imports Result_Contracts Workflow Brand_Lock
begin

section \<open>The tables, the statements and the transaction\<close>

text \<open>
  The storage below \<open>src/cultureshift/repository.py\<close>: the records the module defines, one row
  type per table, the SQL statements the methods issue as functions on the tables, and
  \<open>_connect\<close>, the context manager that commits a transaction or rolls it back. A column that
  holds JSON or ISO text is modelled by the value it encodes, a nullable column by an option;
  tables with a primary key are maps on the run id (\<open>str\<close> on UUIDs is injective, see
  \<open>uuid_str_eq_iff\<close>), and the operations table is the list of its rows in the order of their
  \<open>AUTOINCREMENT\<close> ids.
\<close>

subsection \<open>The records of the module\<close>

datatype operation_kind = FEEDBACK | RETRY

datatype operation_state = OP_IN_PROGRESS | OP_SUCCEEDED | OP_FAILED_RETRYABLE | OP_FAILED_FINAL

record brand_lock_confirmation_record =
  bk_brand_lock :: brand_lock
  bk_confirmed_at :: datetime

record draft_record =
  dr_brief :: creative_brief
  dr_ad_copy :: ad_copy
  dr_fact_references :: "pystr list"
  dr_rule_ids :: "pystr list"
  dr_generated_at :: datetime

record critique_record =
  ck_report :: critique_report
  ck_reviewed_at :: datetime

record revision_record =
  re_run_id :: uuid
  re_result_version :: int
  re_requested_changes :: "revision_change list"
  re_feedback_digest :: pystr
  re_draft :: draft_record
  re_composition :: composition_generated
  re_critique :: critique_report
  re_revised_at :: datetime

record operation_record =
  op_id :: int
  op_run_id :: uuid
  op_kind :: operation_kind
  op_key_digest :: pystr
  op_fingerprint :: pystr
  op_state :: operation_state
  op_requested_changes :: "revision_change list"
  op_feedback_digest :: "pystr option"
  op_retry_condition :: "retry_condition option"
  op_retry_action :: "retry_action option"
  op_public_response :: "revision_completed option"
  op_created_at :: datetime
  op_updated_at :: datetime

subsection \<open>The tables\<close>

record run_row =
  rr_direction :: localization_direction
  rr_status :: project_run_status
  rr_warning_codes :: "pystr list"
  rr_created_at :: datetime
  rr_updated_at :: datetime

record context_row =
  cx_request :: run_create
  cx_analysis :: "ad_analysis option"
  cx_repair_attempted :: int
  cx_confirmed_brand_lock :: "brand_lock option"
  cx_brand_lock_confirmed_at :: "datetime option"
  cx_creative_brief :: "creative_brief option"
  cx_ad_copy :: "ad_copy option"
  cx_draft_fact_references :: "pystr list option"
  cx_draft_rule_ids :: "pystr list option"
  cx_draft_generated_at :: "datetime option"
  cx_composition :: "composition_generated option"
  cx_critique :: "critique_report option"
  cx_critic_reviewed_at :: "datetime option"
  cx_initial_generation_count :: int
  cx_human_revision_count :: int
  cx_technical_attempt_count :: int

record revision_row =
  rw_result_version :: int
  rw_requested_changes :: "revision_change list"
  rw_feedback_digest :: pystr
  rw_creative_brief :: creative_brief
  rw_ad_copy :: ad_copy
  rw_fact_references :: "pystr list"
  rw_rule_ids :: "pystr list"
  rw_composition :: composition_generated
  rw_critique :: critique_report
  rw_revised_at :: datetime

record operation_row =
  ow_id :: int
  ow_run_id :: uuid
  ow_kind :: operation_kind
  ow_key_digest :: pystr
  ow_fingerprint :: pystr
  ow_state :: operation_state
  ow_requested_changes :: "revision_change list option"
  ow_feedback_digest :: "pystr option"
  ow_retry_condition :: "retry_condition option"
  ow_retry_action :: "retry_action option"
  ow_public_response :: "revision_completed option"
  ow_created_at :: datetime
  ow_updated_at :: datetime

record db =
  db_runs :: "uuid \<rightharpoonup> run_row"
  db_contexts :: "uuid \<rightharpoonup> context_row"
  db_revisions :: "uuid \<rightharpoonup> revision_row"
  db_operations :: "operation_row list"
  db_operation_seq :: int

definition empty_db :: db where
  "empty_db = \<lparr>db_runs = Map.empty, db_contexts = Map.empty, db_revisions = Map.empty,
     db_operations = [], db_operation_seq = 0\<rparr>"

text \<open>The row that \<open>INSERT INTO project_run_contexts (run_id, request_json, analysis_json)\<close>
  makes with the column defaults.\<close>

definition new_context :: "run_create \<Rightarrow> context_row" where
  "new_context req = \<lparr>cx_request = req, cx_analysis = None, cx_repair_attempted = 0,
     cx_confirmed_brand_lock = None, cx_brand_lock_confirmed_at = None, cx_creative_brief = None,
     cx_ad_copy = None, cx_draft_fact_references = None, cx_draft_rule_ids = None,
     cx_draft_generated_at = None, cx_composition = None, cx_critique = None,
     cx_critic_reviewed_at = None, cx_initial_generation_count = 0, cx_human_revision_count = 0,
     cx_technical_attempt_count = 0\<rparr>"

subsection \<open>Statements\<close>

text \<open>\<open>UPDATE \<dots> WHERE\<close> on a primary key, with the \<open>rowcount\<close> as result.\<close>

definition update_runs ::
  "uuid \<Rightarrow> (run_row \<Rightarrow> bool) \<Rightarrow> (run_row \<Rightarrow> run_row) \<Rightarrow> (exn, db, nat) prog" where
  "update_runs rid cond f d = (case db_runs d rid of
     Some r \<Rightarrow> if cond r then (Inr 1, d\<lparr>db_runs := (db_runs d)(rid \<mapsto> f r)\<rparr>) else (Inr 0, d)
   | None \<Rightarrow> (Inr 0, d))"

definition update_contexts ::
  "uuid \<Rightarrow> (context_row \<Rightarrow> bool) \<Rightarrow> (context_row \<Rightarrow> context_row) \<Rightarrow> (exn, db, nat) prog" where
  "update_contexts rid cond f d = (case db_contexts d rid of
     Some c \<Rightarrow> if cond c then (Inr 1, d\<lparr>db_contexts := (db_contexts d)(rid \<mapsto> f c)\<rparr>) else (Inr 0, d)
   | None \<Rightarrow> (Inr 0, d))"

definition update_operations ::
  "(operation_row \<Rightarrow> bool) \<Rightarrow> (operation_row \<Rightarrow> operation_row) \<Rightarrow> (exn, db, nat) prog" where
  "update_operations cond f d = (Inr (length (filter cond (db_operations d))),
     d\<lparr>db_operations := map (\<lambda>row. if cond row then f row else row) (db_operations d)\<rparr>)"

text \<open>\<open>INSERT\<close>, which fails on a primary key or \<open>UNIQUE\<close> violation.\<close>

definition insert_run :: "project_run \<Rightarrow> (exn, db, unit) prog" where
  "insert_run r d = (if db_runs d (pr_id r) \<noteq> None then (Inl IntegrityError, d)
     else (Inr (), d\<lparr>db_runs := (db_runs d)(pr_id r \<mapsto> \<lparr>rr_direction = pr_direction r,
       rr_status = pr_status r, rr_warning_codes = pr_warning_codes r,
       rr_created_at = pr_created_at r, rr_updated_at = pr_updated_at r\<rparr>)\<rparr>))"

definition insert_context :: "uuid \<Rightarrow> run_create \<Rightarrow> (exn, db, unit) prog" where
  "insert_context rid req d = (if db_contexts d rid \<noteq> None then (Inl IntegrityError, d)
     else (Inr (), d\<lparr>db_contexts := (db_contexts d)(rid \<mapsto> new_context req)\<rparr>))"

definition insert_revision :: "uuid \<Rightarrow> revision_row \<Rightarrow> (exn, db, unit) prog" where
  "insert_revision rid row d = (if db_revisions d rid \<noteq> None then (Inl IntegrityError, d)
     else (Inr (), d\<lparr>db_revisions := (db_revisions d)(rid \<mapsto> row)\<rparr>))"

definition same_operation_key :: "operation_row \<Rightarrow> operation_row \<Rightarrow> bool" where
  "same_operation_key p q \<longleftrightarrow> ow_run_id p = ow_run_id q \<and> ow_kind p = ow_kind q
     \<and> ow_key_digest p = ow_key_digest q"

text \<open>The result is the \<open>lastrowid\<close> of the cursor.\<close>

definition insert_operation :: "operation_row \<Rightarrow> (exn, db, int) prog" where
  "insert_operation row d =
     (if list_ex (same_operation_key row) (db_operations d) then (Inl IntegrityError, d)
      else let new_id = db_operation_seq d + 1 in
        (Inr new_id, d\<lparr>db_operations := db_operations d @ [row\<lparr>ow_id := new_id\<rparr>],
           db_operation_seq := new_id\<rparr>))"

text \<open>\<open>SELECT \<dots> FROM project_runs LEFT JOIN project_run_contexts \<dots> WHERE r.id = ?\<close>, and the
  value of a nullable column of the joined row (\<open>NULL\<close> when there is no context).\<close>

definition select_run :: "uuid \<Rightarrow> db \<Rightarrow> (run_row \<times> context_row option) option" where
  "select_run rid d = map_option (\<lambda>r. (r, db_contexts d rid)) (db_runs d rid)"

definition column :: "(context_row \<Rightarrow> 'a option) \<Rightarrow> context_row option \<Rightarrow> 'a option" where
  "column f c = Option.bind c f"

definition select_operation :: "(operation_row \<Rightarrow> bool) \<Rightarrow> db \<Rightarrow> operation_row option" where
  "select_operation cond d = List.find cond (db_operations d)"

definition select_last_operation :: "(operation_row \<Rightarrow> bool) \<Rightarrow> db \<Rightarrow> operation_row option" where
  "select_last_operation cond d = List.find cond (rev (db_operations d))"

subsection \<open>Transactions\<close>

text \<open>\<open>_connect\<close>: commit when the body ends, roll back and re-raise when it raises.\<close>

definition connect :: "(exn, db, 'a) prog \<Rightarrow> (exn, db, 'a) prog" where
  "connect body d = (case body d of (Inl e, _) \<Rightarrow> (Inl e, d) | (Inr a, d') \<Rightarrow> (Inr a, d'))"

lemma connect_Inl_iff: "connect body d = (Inl e, d') \<longleftrightarrow> d' = d \<and> (\<exists>d''. body d = (Inl e, d''))"
  by (auto simp: connect_def split: prod.splits sum.splits)

lemma connect_Inr_iff [simp]: "connect body d = (Inr a, d') \<longleftrightarrow> body d = (Inr a, d')"
  by (auto simp: connect_def split: prod.splits sum.splits)

lemma connect_error_keeps: "connect body d = (Inl e, d') \<Longrightarrow> d' = d"
  by (simp add: connect_Inl_iff)

lemma snd_connect:
  "snd (connect body d) = (case fst (body d) of Inl _ \<Rightarrow> d | Inr _ \<Rightarrow> snd (body d))"
  by (auto simp: connect_def split: prod.splits sum.splits)

lemma keeps_connect [keeps_intros]:
  assumes "keeps I body"
  shows "keeps I (connect body)"
proof
  fix d assume "I d"
  moreover from this have "I (snd (body d))"
    using assms by (simp add: keeps_def)
  ultimately show "I (snd (connect body d))"
    by (simp add: snd_connect split: sum.split)
qed

subsection \<open>Evaluation of the statements\<close>

named_theorems sql "evaluation of statements, joins and transactions"

lemma update_runs_Some [sql]:
  "db_runs d rid = Some r \<Longrightarrow> update_runs rid cond f d =
     (if cond r then (Inr 1, d\<lparr>db_runs := (db_runs d)(rid \<mapsto> f r)\<rparr>) else (Inr 0, d))"
  by (simp add: update_runs_def)

lemma update_contexts_Some [sql]:
  "db_contexts d rid = Some c \<Longrightarrow> update_contexts rid cond f d =
     (if cond c then (Inr 1, d\<lparr>db_contexts := (db_contexts d)(rid \<mapsto> f c)\<rparr>) else (Inr 0, d))"
  by (simp add: update_contexts_def)

lemma select_run_Some_iff [sql]:
  "select_run rid d = Some (r, c) \<longleftrightarrow> db_runs d rid = Some r \<and> c = db_contexts d rid"
  by (auto simp: select_run_def)

lemma select_run_None_iff [sql]: "select_run rid d = None \<longleftrightarrow> db_runs d rid = None"
  by (simp add: select_run_def)

lemma column_simps [simp]: "column f None = None" "column f (Some c) = f c"
  by (simp_all add: column_def)

lemma column_Some_iff: "column f c = Some v \<longleftrightarrow> (\<exists>c'. c = Some c' \<and> f c' = Some v)"
  by (cases c) simp_all

lemma select_operation_Some:
  "select_operation cond d = Some row \<Longrightarrow> row \<in> set (db_operations d) \<and> cond row"
  by (auto simp: select_operation_def find_Some_iff)

lemma select_operation_None:
  "select_operation cond d = None \<longleftrightarrow> (\<forall>row \<in> set (db_operations d). \<not> cond row)"
  by (auto simp: select_operation_def find_None_iff)

lemma select_last_operation_Some:
  "select_last_operation cond d = Some row \<Longrightarrow> row \<in> set (db_operations d) \<and> cond row"
  by (metis find_Some_iff nth_mem select_last_operation_def set_rev)

lemma select_last_operation_None:
  "select_last_operation cond d = None \<longleftrightarrow> (\<forall>row \<in> set (db_operations d). \<not> cond row)"
  by (auto simp: select_last_operation_def find_None_iff)

end
