(* ===== verification/Repository.thy ===== *)
theory Repository
  imports Database
begin

section \<open>Runs, analyses and confirmations\<close>

text \<open>
  The methods of \<open>SQLiteProjectRunRepository\<close> (\<open>src/cultureshift/repository.py\<close>) that read a
  run and its artifacts, create a run, move its status, and record its analysis and its
  confirmed Brand Lock. A getter is a function of the database that may raise; a method that
  writes is a \<open>prog\<close> whose writes happen inside \<open>connect\<close>. \<open>now\<close> stands for
  \<open>utc_now()\<close>.
\<close>

subsection \<open>Decoding rows\<close>

definition confirmation_record ::
  "brand_lock option \<Rightarrow> datetime option \<Rightarrow> brand_lock_confirmation_record option result" where
  "confirmation_record encoded timestamp =
     (case (encoded, timestamp) of
        (None, None) \<Rightarrow> Inr None
      | (Some lock, Some t) \<Rightarrow>
          if \<not> is_utc t then Inl ValueError
          else Inr (Some \<lparr>bk_brand_lock = lock, bk_confirmed_at = t\<rparr>)
      | _ \<Rightarrow> Inl ValueError)"

definition draft_record_of ::
  "creative_brief option \<Rightarrow> ad_copy option \<Rightarrow> pystr list option \<Rightarrow> pystr list option
    \<Rightarrow> datetime option \<Rightarrow> draft_record option result" where
  "draft_record_of brief ad_copy facts rules generated =
     (if brief = None \<and> ad_copy = None \<and> facts = None \<and> rules = None \<and> generated = None
      then Inr None
      else case (brief, ad_copy, facts, rules, generated) of
        (Some b, Some c, Some fs, Some rs, Some t) \<Rightarrow>
          if \<not> is_utc t then Inl ValueError
          else Inr (Some \<lparr>dr_brief = b, dr_ad_copy = c, dr_fact_references = fs,
            dr_rule_ids = rs, dr_generated_at = t\<rparr>)
      | _ \<Rightarrow> Inl ValueError)"

definition critique_record_of ::
  "critique_report option \<Rightarrow> datetime option \<Rightarrow> critique_record option result" where
  "critique_record_of encoded timestamp =
     (case (encoded, timestamp) of
        (None, None) \<Rightarrow> Inr None
      | (Some report, Some t) \<Rightarrow>
          if \<not> is_utc t \<or> t \<noteq> cr_reviewed_at report then Inl ValueError
          else Inr (Some \<lparr>ck_report = report, ck_reviewed_at = t\<rparr>)
      | _ \<Rightarrow> Inl ValueError)"

definition operation_record_of :: "operation_row \<Rightarrow> operation_record" where
  "operation_record_of w = \<lparr>op_id = ow_id w, op_run_id = ow_run_id w, op_kind = ow_kind w,
     op_key_digest = ow_key_digest w, op_fingerprint = ow_fingerprint w, op_state = ow_state w,
     op_requested_changes = (case ow_requested_changes w of None \<Rightarrow> [] | Some cs \<Rightarrow> cs),
     op_feedback_digest = ow_feedback_digest w, op_retry_condition = ow_retry_condition w,
     op_retry_action = ow_retry_action w, op_public_response = ow_public_response w,
     op_created_at = ow_created_at w, op_updated_at = ow_updated_at w\<rparr>"

definition revision_record_of :: "uuid \<Rightarrow> revision_row \<Rightarrow> revision_record" where
  "revision_record_of rid w = \<lparr>re_run_id = rid, re_result_version = rw_result_version w,
     re_requested_changes = rw_requested_changes w, re_feedback_digest = rw_feedback_digest w,
     re_draft = \<lparr>dr_brief = rw_creative_brief w, dr_ad_copy = rw_ad_copy w,
       dr_fact_references = rw_fact_references w, dr_rule_ids = rw_rule_ids w,
       dr_generated_at = rw_revised_at w\<rparr>,
     re_composition = rw_composition w, re_critique = rw_critique w,
     re_revised_at = rw_revised_at w\<rparr>"

subsection \<open>Getters\<close>

definition get_context :: "uuid \<Rightarrow> db \<Rightarrow> context_row result" where
  "get_context rid d = (case db_contexts d rid of
     None \<Rightarrow> Inl ProjectRunNotFoundError | Some c \<Rightarrow> Inr c)"

definition get_request :: "uuid \<Rightarrow> db \<Rightarrow> run_create result" where
  "get_request rid d = bindR (get_context rid d) (\<lambda>c. Inr (cx_request c))"

definition get_analysis :: "uuid \<Rightarrow> db \<Rightarrow> ad_analysis option result" where
  "get_analysis rid d = bindR (get_context rid d) (\<lambda>c. Inr (cx_analysis c))"

definition get_repair_attempted :: "uuid \<Rightarrow> db \<Rightarrow> bool result" where
  "get_repair_attempted rid d = bindR (get_context rid d) (\<lambda>c.
     if cx_repair_attempted c \<notin> {0, 1} then Inl ValueError
     else Inr (cx_repair_attempted c = 1))"

definition get_confirmed_brand_lock ::
  "uuid \<Rightarrow> db \<Rightarrow> brand_lock_confirmation_record option result" where
  "get_confirmed_brand_lock rid d = bindR (get_context rid d) (\<lambda>c.
     confirmation_record (cx_confirmed_brand_lock c) (cx_brand_lock_confirmed_at c))"

definition context_draft :: "context_row option \<Rightarrow> draft_record option result" where
  "context_draft c = draft_record_of (column cx_creative_brief c) (column cx_ad_copy c)
     (column cx_draft_fact_references c) (column cx_draft_rule_ids c)
     (column cx_draft_generated_at c)"

definition get_draft :: "uuid \<Rightarrow> db \<Rightarrow> draft_record option result" where
  "get_draft rid d = bindR (get_context rid d) (\<lambda>c. context_draft (Some c))"

definition get_composition :: "uuid \<Rightarrow> db \<Rightarrow> composition_generated option result" where
  "get_composition rid d = bindR (get_context rid d) (\<lambda>c. Inr (cx_composition c))"

definition get_critique :: "uuid \<Rightarrow> db \<Rightarrow> critique_record option result" where
  "get_critique rid d = bindR (get_context rid d) (\<lambda>c.
     critique_record_of (cx_critique c) (cx_critic_reviewed_at c))"

definition get_revision :: "uuid \<Rightarrow> db \<Rightarrow> revision_record option result" where
  "get_revision rid d = Inr (map_option (revision_record_of rid) (db_revisions d rid))"

text \<open>\<open>get\<close>: the counters are \<open>COALESCE\<close>d to 0 and the run is validated again.\<close>

definition get_run :: "uuid \<Rightarrow> db \<Rightarrow> project_run result" where
  "get_run rid d = (case select_run rid d of
     None \<Rightarrow> Inl ProjectRunNotFoundError
   | Some (r, c) \<Rightarrow>
       let counter = (\<lambda>f. case c of None \<Rightarrow> 0 | Some c' \<Rightarrow> f c') in
       validate_project_run rid (rr_direction r) (rr_status r) (rr_warning_codes r)
         (counter cx_initial_generation_count) (counter cx_human_revision_count)
         (counter cx_technical_attempt_count) (rr_created_at r) (Some (rr_updated_at r)))"

subsection \<open>Creating a run and moving its status\<close>

definition create_run :: "project_run \<Rightarrow> run_create option \<Rightarrow> (exn, db, project_run) prog" where
  "create_run run request =
     catch
       (bind (connect (bind (insert_run run) (\<lambda>_.
          case request of
            None \<Rightarrow> return ()
          | Some req \<Rightarrow>
              if rc_direction req \<noteq> pr_direction run then raise ValueError
              else insert_context (pr_id run) req)))
        (\<lambda>_. return run))
       (\<lambda>e. if e = IntegrityError then raise DuplicateProjectRunError else raise e)"

definition set_status :: "project_run_status \<Rightarrow> datetime \<Rightarrow> run_row \<Rightarrow> run_row" where
  "set_status status t r = r\<lparr>rr_status := status, rr_updated_at := t\<rparr>"

definition increment_technical_attempt :: "uuid \<Rightarrow> (exn, db, project_run) prog" where
  "increment_technical_attempt rid =
     bind (connect (update_contexts rid (\<lambda>_. True)
        (\<lambda>c. c\<lparr>cx_technical_attempt_count := cx_technical_attempt_count c + 1\<rparr>))) (\<lambda>rowcount.
     if rowcount \<noteq> 1 then raise ProjectRunNotFoundError else reads (get_run rid))"

definition update_status ::
  "uuid \<Rightarrow> project_run_status \<Rightarrow> datetime \<Rightarrow> (exn, db, project_run) prog" where
  "update_status rid status now =
     bind (reads (get_run rid)) (\<lambda>current.
     bind (liftR (with_status current status None now)) (\<lambda>updated.
     bind (connect (update_runs rid (\<lambda>_. True)
        (set_status (pr_status updated) (pr_updated_at updated)))) (\<lambda>rowcount.
     if rowcount \<noteq> 1 then raise ProjectRunNotFoundError else return updated)))"

definition claim_analysis :: "uuid \<Rightarrow> datetime \<Rightarrow> (exn, db, project_run option) prog" where
  "claim_analysis rid now =
     bind (connect (update_runs rid (\<lambda>r. rr_status r = PENDING) (set_status IN_PROGRESS now)))
     (\<lambda>rowcount.
     if rowcount \<noteq> 1 then bind (reads (get_run rid)) (\<lambda>_. return None)
     else bind (reads (get_run rid)) (\<lambda>r. return (Some r)))"

definition complete_analysis ::
  "uuid \<Rightarrow> ad_analysis \<Rightarrow> bool \<Rightarrow> datetime \<Rightarrow> (exn, db, project_run) prog" where
  "complete_analysis rid analysis repair_attempted now =
     bind (reads (get_run rid)) (\<lambda>current.
     bind (reads (get_request rid)) (\<lambda>request.
     if an_source_asset analysis \<noteq> rc_source_asset request
       \<or> an_brand_lock analysis \<noteq> rc_brand_lock request
     then raise ValueError
     else bind (liftR (with_status current AWAITING_BRAND_LOCK None now)) (\<lambda>updated.
     bind (connect
       (bind (update_contexts rid (\<lambda>_. True)
          (\<lambda>c. c\<lparr>cx_analysis := Some analysis,
                cx_repair_attempted := (if repair_attempted then 1 else 0)\<rparr>)) (\<lambda>n.
        if n \<noteq> 1 then raise ProjectRunNotFoundError
        else bind (update_runs rid (\<lambda>r. rr_status r = IN_PROGRESS)
          (set_status (pr_status updated) (pr_updated_at updated))) (\<lambda>m.
        if m \<noteq> 1 then raise ProjectRunNotFoundError else return ()))))
     (\<lambda>_. return updated))))"

definition record_failure ::
  "uuid \<Rightarrow> project_run_status \<Rightarrow> pystr \<Rightarrow> datetime \<Rightarrow> (exn, db, project_run) prog" where
  "record_failure rid status code now =
     (if status \<notin> {BLOCKED, FAILED} then raise ValueError
      else bind (reads (get_run rid)) (\<lambda>current.
      bind (liftR (with_status current status None now)) (\<lambda>transitioned.
      bind (liftR (revalidate
        (transitioned\<lparr>pr_warning_codes := pr_warning_codes current @ [code]\<rparr>))) (\<lambda>updated.
      bind (connect (update_runs rid (\<lambda>_. True)
         (\<lambda>r. r\<lparr>rr_status := pr_status updated, rr_warning_codes := pr_warning_codes updated,
               rr_updated_at := pr_updated_at updated\<rparr>))) (\<lambda>rowcount.
      if rowcount \<noteq> 1 then raise ProjectRunNotFoundError else return updated)))))"

subsection \<open>Confirming the Brand Lock\<close>

definition confirm_brand_lock ::
  "uuid \<Rightarrow> brand_lock \<Rightarrow> datetime option \<Rightarrow> datetime
    \<Rightarrow> (exn, db, brand_lock_confirmation_record) prog" where
  "confirm_brand_lock rid proposed confirmed_at now =
     (let confirmation_time = (case confirmed_at of None \<Rightarrow> now | Some t \<Rightarrow> t) in
      if \<not> is_utc confirmation_time then raise ValueError
      else connect (\<lambda>d. case select_run rid d of
        None \<Rightarrow> raise ProjectRunNotFoundError d
      | Some (r, c) \<Rightarrow>
          bind (liftR (confirmation_record (column cx_confirmed_brand_lock c)
                         (column cx_brand_lock_confirmed_at c))) (\<lambda>existing.
          case existing of
            Some e \<Rightarrow> if bk_brand_lock e = proposed then return e else raise BrandLockImmutableError
          | None \<Rightarrow>
            if instant confirmation_time < instant (rr_created_at r) then raise ValueError
            else if rr_status r \<noteq> AWAITING_BRAND_LOCK then raise InvalidRunStateError
            else case column cx_analysis c of
              None \<Rightarrow> raise InvalidRunStateError
            | Some analysis \<Rightarrow>
              bind (liftR (validate_brand_lock_confirmation proposed (an_brand_lock analysis)))
              (\<lambda>validated.
              bind (update_contexts rid (\<lambda>c. cx_confirmed_brand_lock c = None)
                (\<lambda>c. c\<lparr>cx_confirmed_brand_lock := Some validated,
                      cx_brand_lock_confirmed_at := Some confirmation_time\<rparr>)) (\<lambda>n.
              if n \<noteq> 1 then raise BrandLockImmutableError
              else bind (update_runs rid (\<lambda>r. rr_status r = AWAITING_BRAND_LOCK)
                (set_status IN_PROGRESS confirmation_time)) (\<lambda>m.
              if m \<noteq> 1 then raise InvalidRunStateError
              else return \<lparr>bk_brand_lock = validated, bk_confirmed_at = confirmation_time\<rparr>)))) d))"

section \<open>Drafts, compositions and critiques\<close>

definition save_draft ::
  "uuid \<Rightarrow> creative_brief \<Rightarrow> ad_copy \<Rightarrow> pystr list \<Rightarrow> pystr list \<Rightarrow> datetime option \<Rightarrow> datetime
    \<Rightarrow> (exn, db, draft_record) prog" where
  "save_draft rid brief ad_copy fact_references rule_ids generated_at now =
     (let generation_time = (case generated_at of None \<Rightarrow> now | Some t \<Rightarrow> t) in
      if \<not> is_utc generation_time then raise ValueError
      else connect (\<lambda>d. case select_run rid d of
        None \<Rightarrow> raise ProjectRunNotFoundError d
      | Some (r, c) \<Rightarrow>
          bind (liftR (context_draft c)) (\<lambda>existing.
          case existing of
            Some e \<Rightarrow>
              if dr_brief e = brief \<and> dr_ad_copy e = ad_copy
                \<and> dr_fact_references e = fact_references \<and> dr_rule_ids e = rule_ids
              then return e else raise DraftImmutableError
          | None \<Rightarrow>
              if rr_status r \<noteq> IN_PROGRESS \<or> column cx_confirmed_brand_lock c = None
              then raise InvalidRunStateError
              else let confirmed = the (column cx_confirmed_brand_lock c) in
              if br_brand_lock brief \<noteq> confirmed then raise InvalidRunStateError
              else if fact_references = []
                \<or> \<not> set fact_references \<subseteq> set (bl_verified_product_facts confirmed)
              then raise InvalidRunStateError
              else bind (update_contexts rid
                (\<lambda>c. cx_creative_brief c = None \<and> cx_ad_copy c = None
                     \<and> cx_draft_fact_references c = None \<and> cx_draft_rule_ids c = None
                     \<and> cx_draft_generated_at c = None)
                (\<lambda>c. c\<lparr>cx_creative_brief := Some brief, cx_ad_copy := Some ad_copy,
                      cx_draft_fact_references := Some fact_references,
                      cx_draft_rule_ids := Some rule_ids,
                      cx_draft_generated_at := Some generation_time\<rparr>)) (\<lambda>n.
              if n \<noteq> 1 then raise DraftImmutableError
              else return \<lparr>dr_brief = brief, dr_ad_copy = ad_copy,
                dr_fact_references = fact_references, dr_rule_ids = rule_ids,
                dr_generated_at = generation_time\<rparr>)) d))"

text \<open>The logo and the product UI of a composition are the ones the lock names.\<close>

definition protected_layers_match :: "brand_lock \<Rightarrow> composition_generated \<Rightarrow> bool" where
  "protected_layers_match lock c \<longleftrightarrow>
     layer_sources c LAYER_LOGO = Some (bl_logo_asset_id lock)
     \<and> layer_sources c LAYER_PRODUCT_UI \<in> Some ` set (bl_product_ui_asset_ids lock)"

definition save_composition ::
  "uuid \<Rightarrow> composition_generated \<Rightarrow> (exn, db, composition_generated) prog" where
  "save_composition rid composition =
     (if uuid_str (co_run_id composition) \<noteq> uuid_str rid then raise InvalidRunStateError
      else connect (\<lambda>d. case select_run rid d of
        None \<Rightarrow> raise ProjectRunNotFoundError d
      | Some (r, c) \<Rightarrow>
         (case column cx_composition c of
           Some existing \<Rightarrow>
             if existing = composition then return existing d
             else raise CompositionImmutableError d
         | None \<Rightarrow>
             if rr_status r \<noteq> IN_PROGRESS \<or> column cx_confirmed_brand_lock c = None
               \<or> column cx_draft_generated_at c = None
             then raise InvalidRunStateError d
             else if \<not> protected_layers_match (the (column cx_confirmed_brand_lock c)) composition
             then raise InvalidRunStateError d
             else bind (update_contexts rid
                (\<lambda>c. cx_composition c = None \<and> cx_initial_generation_count c = 0)
                (\<lambda>c. c\<lparr>cx_composition := Some composition, cx_initial_generation_count := 1\<rparr>)) (\<lambda>n.
              if n \<noteq> 1 then raise CompositionImmutableError else return composition) d)))"

definition critique_target_status :: "critique_report \<Rightarrow> project_run_status" where
  "critique_target_status report = (if cr_status report = REJECT then FAILED_FINAL else READY)"

definition save_critique :: "uuid \<Rightarrow> critique_report \<Rightarrow> (exn, db, critique_record) prog" where
  "save_critique rid report =
     connect (\<lambda>d. case select_run rid d of
        None \<Rightarrow> raise ProjectRunNotFoundError d
      | Some (r, c) \<Rightarrow>
          if instant (cr_reviewed_at report) < instant (rr_created_at r)
          then raise InvalidRunStateError d
          else bind (liftR (critique_record_of (column cx_critique c)
                              (column cx_critic_reviewed_at c))) (\<lambda>existing.
          case existing of
            Some e \<Rightarrow> if ck_report e = report then return e else raise CritiqueImmutableError
          | None \<Rightarrow>
              if rr_status r \<noteq> IN_PROGRESS \<or> column cx_confirmed_brand_lock c = None
                \<or> column cx_draft_generated_at c = None \<or> column cx_composition c = None
                \<or> column (\<lambda>c. Some (cx_initial_generation_count c)) c \<noteq> Some 1
              then raise InvalidRunStateError
              else bind (update_contexts rid
                (\<lambda>c. cx_critique c = None \<and> cx_critic_reviewed_at c = None)
                (\<lambda>c. c\<lparr>cx_critique := Some report,
                      cx_critic_reviewed_at := Some (cr_reviewed_at report)\<rparr>)) (\<lambda>n.
              if n \<noteq> 1 then raise CritiqueImmutableError
              else bind (update_runs rid (\<lambda>r. rr_status r = IN_PROGRESS)
                (set_status (critique_target_status report) (cr_reviewed_at report))) (\<lambda>m.
              if m \<noteq> 1 then raise InvalidRunStateError
              else return \<lparr>ck_report = report, ck_reviewed_at = cr_reviewed_at report\<rparr>))) d)"

section \<open>Feedback, retry and revision operations\<close>

definition is_operation :: "uuid \<Rightarrow> operation_kind \<Rightarrow> operation_row \<Rightarrow> bool" where
  "is_operation rid kind w \<longleftrightarrow> ow_run_id w = rid \<and> ow_kind w = kind"

text \<open>The \<open>SELECT * \<dots> WHERE id = ?\<close> after an insert or update, and the \<open>assert\<close> on it.\<close>

definition fetch_operation :: "int \<Rightarrow> (exn, db, operation_record) prog" where
  "fetch_operation oid = reads (\<lambda>d. case select_operation (\<lambda>w. ow_id w = oid) d of
     None \<Rightarrow> Inl AssertionError | Some w \<Rightarrow> Inr (operation_record_of w))"

definition claim_feedback_operation ::
  "uuid \<Rightarrow> pystr \<Rightarrow> pystr \<Rightarrow> revision_change list \<Rightarrow> pystr \<Rightarrow> datetime
    \<Rightarrow> (exn, db, operation_record) prog" where
  "claim_feedback_operation rid key_digest fingerprint requested_changes feedback_digest claimed_at =
     connect (\<lambda>d. case select_operation
            (\<lambda>w. is_operation rid FEEDBACK w \<and> ow_key_digest w = key_digest) d of
        Some w \<Rightarrow>
          if ow_fingerprint w \<noteq> fingerprint then raise IdempotencyConflictError d
          else if ow_state w = OP_SUCCEEDED then return (operation_record_of w) d
          else raise OperationInProgressError d
      | None \<Rightarrow>
          if db_revisions d rid \<noteq> None then raise RevisionLimitReachedError d
          else if select_operation
              (\<lambda>w. is_operation rid FEEDBACK w \<and> ow_state w = OP_IN_PROGRESS) d \<noteq> None
          then raise OperationInProgressError d
          else case db_runs d rid of
            None \<Rightarrow> raise ProjectRunNotFoundError d
          | Some r \<Rightarrow>
              if rr_status r \<noteq> READY then raise InvalidRunStateError d
              else bind (insert_operation \<lparr>ow_id = 0, ow_run_id = rid, ow_kind = FEEDBACK,
                  ow_key_digest = key_digest, ow_fingerprint = fingerprint,
                  ow_state = OP_IN_PROGRESS, ow_requested_changes = Some requested_changes,
                  ow_feedback_digest = Some feedback_digest, ow_retry_condition = None,
                  ow_retry_action = None, ow_public_response = None, ow_created_at = claimed_at,
                  ow_updated_at = claimed_at\<rparr>) (\<lambda>oid.
                bind (update_runs rid (\<lambda>r. rr_status r = READY)
                  (set_status IN_PROGRESS claimed_at)) (\<lambda>n.
                if n \<noteq> 1 then raise OperationInProgressError
                else fetch_operation oid)) d)"

definition fail_revision_operation ::
  "uuid \<Rightarrow> int \<Rightarrow> retry_condition \<Rightarrow> retry_action \<Rightarrow> datetime
    \<Rightarrow> (exn, db, operation_record) prog" where
  "fail_revision_operation rid oid condition action failed_at =
     (let target = (if action \<in> retryable_actions then FAILED_RETRYABLE else FAILED_FINAL);
          state = (if target = FAILED_RETRYABLE then OP_FAILED_RETRYABLE else OP_FAILED_FINAL) in
      connect
        (bind (update_operations
           (\<lambda>w. ow_id w = oid \<and> ow_run_id w = rid \<and> ow_state w = OP_IN_PROGRESS)
           (\<lambda>w. w\<lparr>ow_state := state, ow_retry_condition := Some condition,
                 ow_retry_action := Some action, ow_updated_at := failed_at\<rparr>)) (\<lambda>n.
         if n \<noteq> 1 then raise InvalidRunStateError
         else bind (update_runs rid (\<lambda>_. True) (set_status target failed_at)) (\<lambda>_.
         fetch_operation oid))))"

definition claim_retry_operation ::
  "uuid \<Rightarrow> pystr \<Rightarrow> pystr \<Rightarrow> datetime \<Rightarrow> (exn, db, operation_record) prog" where
  "claim_retry_operation rid key_digest fingerprint claimed_at =
     connect (\<lambda>d. case select_operation
            (\<lambda>w. is_operation rid RETRY w \<and> ow_key_digest w = key_digest) d of
        Some w \<Rightarrow>
          if ow_fingerprint w \<noteq> fingerprint then raise IdempotencyConflictError d
          else if ow_state w = OP_SUCCEEDED then return (operation_record_of w) d
          else raise OperationInProgressError d
      | None \<Rightarrow>
          (case db_runs d rid of
            None \<Rightarrow> raise ProjectRunNotFoundError d
          | Some r \<Rightarrow>
              if rr_status r \<noteq> FAILED_RETRYABLE then raise InvalidRunStateError d
              else case select_last_operation
                  (\<lambda>w. is_operation rid FEEDBACK w \<and> ow_state w = OP_FAILED_RETRYABLE) d of
                None \<Rightarrow> raise InvalidRunStateError d
              | Some w \<Rightarrow>
                  let source = operation_record_of w in
                  bind (insert_operation \<lparr>ow_id = 0, ow_run_id = rid, ow_kind = RETRY,
                      ow_key_digest = key_digest, ow_fingerprint = fingerprint,
                      ow_state = OP_IN_PROGRESS,
                      ow_requested_changes = Some (op_requested_changes source),
                      ow_feedback_digest = op_feedback_digest source,
                      ow_retry_condition = op_retry_condition source,
                      ow_retry_action = op_retry_action source, ow_public_response = None,
                      ow_created_at = claimed_at, ow_updated_at = claimed_at\<rparr>) (\<lambda>oid.
                  bind (update_contexts rid (\<lambda>_. True)
                    (\<lambda>c. c\<lparr>cx_technical_attempt_count := cx_technical_attempt_count c + 1\<rparr>)) (\<lambda>_.
                  bind (update_runs rid (\<lambda>_. True) (set_status IN_PROGRESS claimed_at)) (\<lambda>_.
                  fetch_operation oid))) d))"

definition succeed_operation ::
  "revision_completed \<Rightarrow> datetime \<Rightarrow> operation_row \<Rightarrow> operation_row" where
  "succeed_operation response t w = w\<lparr>ow_state := OP_SUCCEEDED,
     ow_public_response := Some response, ow_updated_at := t\<rparr>"

definition revision_row_of :: "revision_record \<Rightarrow> revision_row" where
  "revision_row_of v = \<lparr>rw_result_version = 2, rw_requested_changes = re_requested_changes v,
     rw_feedback_digest = re_feedback_digest v, rw_creative_brief = dr_brief (re_draft v),
     rw_ad_copy = dr_ad_copy (re_draft v), rw_fact_references = dr_fact_references (re_draft v),
     rw_rule_ids = dr_rule_ids (re_draft v), rw_composition = re_composition v,
     rw_critique = re_critique v, rw_revised_at = re_revised_at v\<rparr>"

definition complete_revision ::
  "uuid \<Rightarrow> int \<Rightarrow> revision_record \<Rightarrow> revision_completed \<Rightarrow> (exn, db, revision_record) prog" where
  "complete_revision rid oid revision public_response =
     (let target = critique_target_status (re_critique revision) in
      bind (connect (\<lambda>d. case select_operation (\<lambda>w. ow_id w = oid \<and> ow_run_id w = rid) d of
          None \<Rightarrow> raise InvalidRunStateError d
        | Some operation \<Rightarrow>
            if ow_state operation \<noteq> OP_IN_PROGRESS then raise InvalidRunStateError d
            else bind (catch (insert_revision rid (revision_row_of revision))
                (\<lambda>e. if e = IntegrityError then raise RevisionLimitReachedError else raise e)) (\<lambda>_.
              bind (update_contexts rid (\<lambda>c. cx_human_revision_count c = 0)
                (\<lambda>c. c\<lparr>cx_human_revision_count := 1\<rparr>)) (\<lambda>n.
              if n \<noteq> 1 then raise RevisionLimitReachedError
              else bind (update_operations (\<lambda>w. ow_id w = oid \<and> ow_state w = OP_IN_PROGRESS)
                (succeed_operation public_response (re_revised_at revision))) (\<lambda>_.
              bind (if ow_kind operation = RETRY
                then update_operations
                  (\<lambda>w. is_operation rid FEEDBACK w \<and> ow_state w = OP_FAILED_RETRYABLE)
                  (succeed_operation public_response (re_revised_at revision))
                else return 0) (\<lambda>_.
              bind (update_runs rid (\<lambda>_. True) (set_status target (re_revised_at revision))) (\<lambda>_.
              return ()))))) d)) (\<lambda>_.
      bind (reads (get_revision rid)) (\<lambda>stored.
      case stored of None \<Rightarrow> raise AssertionError | Some v \<Rightarrow> return v)))"

end
