(* ===== verification/Repository_Effects.thy ===== *)
theory Repository_Effects
  imports Repository
begin

section \<open>What each repository method does to the tables\<close>

text \<open>
  One \<open>effect\<close> lemma per writing method: whatever it returns or raises, the database is either
  untouched or changed in the one way the lemma shows, and then under the conditions it shows.
  The lemmas are the interface of \<open>Repository\<close> to every later proof; nothing below them
  unfolds a method again.
\<close>

lemmas method_simps = connect_def bind_def select_run_def update_runs_def update_contexts_def
  raise_def return_def liftR_def reads_def

lemma create_run_effect:
  assumes "create_run run (Some req) d = (res, d')"
  shows "d' = d \<or> db_runs d (pr_id run) = None \<and> db_contexts d (pr_id run) = None
    \<and> rc_direction req = pr_direction run \<and> res = Inr run
    \<and> d' = d\<lparr>db_runs := (db_runs d)(pr_id run \<mapsto> \<lparr>rr_direction = pr_direction run,
          rr_status = pr_status run, rr_warning_codes = pr_warning_codes run,
          rr_created_at = pr_created_at run, rr_updated_at = pr_updated_at run\<rparr>),
        db_contexts := (db_contexts d)(pr_id run \<mapsto> new_context req)\<rparr>"
  using assms
  by (auto simp: create_run_def catch_def method_simps insert_run_def insert_context_def
      split: if_splits)

lemma update_runs_cases:
  "update_runs rid cond f d = (res, d') \<Longrightarrow>
     d' = d \<and> res = Inr 0
     \<or> (\<exists>r. db_runs d rid = Some r \<and> cond r \<and> res = Inr 1
          \<and> d' = d\<lparr>db_runs := (db_runs d)(rid \<mapsto> f r)\<rparr>)"
  by (auto simp: update_runs_def split: option.splits if_splits)

lemma claim_analysis_effect:
  assumes "claim_analysis rid now d = (res, d')"
  shows "d' = d \<and> (\<forall>run. res \<noteq> Inr (Some run))
    \<or> (\<exists>r. db_runs d rid = Some r \<and> rr_status r = PENDING
         \<and> d' = d\<lparr>db_runs := (db_runs d)(rid \<mapsto> set_status IN_PROGRESS now r)\<rparr>)"
  using assms
  by (auto simp: claim_analysis_def method_simps split: option.splits if_splits sum.splits)

lemma get_run_status: "get_run rid d = Inr run \<Longrightarrow> \<exists>r. db_runs d rid = Some r \<and> pr_id run = rid
    \<and> pr_status run = rr_status r \<and> pr_direction run = rr_direction r
    \<and> pr_warning_codes run = rr_warning_codes r \<and> pr_created_at run = rr_created_at r
    \<and> pr_updated_at run = rr_updated_at r \<and> valid_run run"
  by (auto simp: get_run_def select_run_def validate_project_run_Inr_iff Let_def
      split: option.splits)

lemma get_context_Inr [simp]: "get_context rid d = Inr c \<longleftrightarrow> db_contexts d rid = Some c"
  by (auto simp: get_context_def split: option.splits)

lemma complete_analysis_effect:
  assumes "complete_analysis rid a repair now d = (res, d')"
  shows "d' = d \<and> (\<exists>e. res = Inl e)
    \<or> (\<exists>r c t run. db_runs d rid = Some r \<and> db_contexts d rid = Some c \<and> rr_status r = IN_PROGRESS
         \<and> an_source_asset a = rc_source_asset (cx_request c)
         \<and> an_brand_lock a = rc_brand_lock (cx_request c) \<and> res = Inr run
         \<and> d' = d\<lparr>db_contexts := (db_contexts d)(rid \<mapsto> c\<lparr>cx_analysis := Some a,
               cx_repair_attempted := (if repair then 1 else 0)\<rparr>),
             db_runs := (db_runs d)(rid \<mapsto> set_status AWAITING_BRAND_LOCK t r)\<rparr>)"
  using assms
  by (cases "get_run rid d"; cases "get_request rid d")
    (auto simp: complete_analysis_def method_simps get_request_def with_status_Inr_iff
      split: option.splits if_splits sum.splits dest!: get_run_status sym[of "Inl _"])

lemma record_failure_effect:
  assumes "record_failure rid st code now d = (res, d')"
  shows "d' = d \<and> (\<exists>e. res = Inl e)
    \<or> (\<exists>r t run. db_runs d rid = Some r \<and> st \<in> {BLOCKED, FAILED}
         \<and> st \<in> allowed_transitions (rr_status r) \<and> res = Inr run
         \<and> d' = d\<lparr>db_runs := (db_runs d)(rid \<mapsto> r\<lparr>rr_status := st,
             rr_warning_codes := rr_warning_codes r @ [code], rr_updated_at := t\<rparr>)\<rparr>)"
  using assms
  by (cases "get_run rid d")
    (auto simp: record_failure_def method_simps with_status_Inr_iff revalidate_Inr_iff
      split: option.splits if_splits sum.splits dest!: get_run_status sym[of "Inl _"])

lemma confirmation_record_None:
  "confirmation_record l t = Inr None \<longleftrightarrow> l = None \<and> t = None"
  by (auto simp: confirmation_record_def split: option.splits)

lemma confirmation_record_Some:
  "confirmation_record l t = Inr (Some k) \<longleftrightarrow>
     l = Some (bk_brand_lock k) \<and> t = Some (bk_confirmed_at k) \<and> is_utc (bk_confirmed_at k)"
  by (cases k) (auto simp: confirmation_record_def split: option.splits)

lemma confirm_brand_lock_effect:
  assumes "confirm_brand_lock rid lock at now d = (res, d')"
  shows "d' = d \<or> (\<exists>r c a t. db_runs d rid = Some r \<and> db_contexts d rid = Some c
     \<and> rr_status r = AWAITING_BRAND_LOCK \<and> cx_confirmed_brand_lock c = None
     \<and> cx_brand_lock_confirmed_at c = None \<and> cx_analysis c = Some a
     \<and> validate_brand_lock_confirmation lock (an_brand_lock a) = Inr lock \<and> is_utc t
     \<and> res = Inr \<lparr>bk_brand_lock = lock, bk_confirmed_at = t\<rparr>
     \<and> d' = d\<lparr>db_runs := (db_runs d)(rid \<mapsto> set_status IN_PROGRESS t r),
         db_contexts := (db_contexts d)(rid \<mapsto> c\<lparr>cx_confirmed_brand_lock := Some lock,
           cx_brand_lock_confirmed_at := Some t\<rparr>)\<rparr>)"
  using assms
  by (auto simp: confirm_brand_lock_def method_simps Let_def confirmation_record_None column_Some_iff
      split: option.splits if_splits sum.splits dest: validate_confirmation_Inr)

lemma draft_record_None:
  "draft_record_of b c fs rs t = Inr None \<longleftrightarrow>
     b = None \<and> c = None \<and> fs = None \<and> rs = None \<and> t = None"
  by (auto simp: draft_record_of_def split: option.splits)

lemma draft_record_Some:
  "draft_record_of b c fs rs t = Inr (Some k) \<longleftrightarrow>
     b = Some (dr_brief k) \<and> c = Some (dr_ad_copy k) \<and> fs = Some (dr_fact_references k)
     \<and> rs = Some (dr_rule_ids k) \<and> t = Some (dr_generated_at k) \<and> is_utc (dr_generated_at k)"
  by (cases k) (auto simp: draft_record_of_def split: option.splits)

lemma save_draft_effect:
  assumes "save_draft rid brief copy facts rules at now d = (res, d')"
  shows "d' = d \<or> (\<exists>r c t. db_runs d rid = Some r \<and> db_contexts d rid = Some c
     \<and> rr_status r = IN_PROGRESS \<and> context_draft (Some c) = Inr None
     \<and> cx_confirmed_brand_lock c = Some (br_brand_lock brief) \<and> facts \<noteq> []
     \<and> set facts \<subseteq> set (bl_verified_product_facts (br_brand_lock brief)) \<and> is_utc t
     \<and> res = Inr \<lparr>dr_brief = brief, dr_ad_copy = copy, dr_fact_references = facts,
         dr_rule_ids = rules, dr_generated_at = t\<rparr>
     \<and> d' = d\<lparr>db_contexts := (db_contexts d)(rid \<mapsto> c\<lparr>cx_creative_brief := Some brief,
         cx_ad_copy := Some copy, cx_draft_fact_references := Some facts,
         cx_draft_rule_ids := Some rules, cx_draft_generated_at := Some t\<rparr>)\<rparr>)"
  using assms
  by (auto simp: save_draft_def method_simps Let_def context_draft_def column_Some_iff
      split: option.splits if_splits sum.splits)

lemma save_composition_effect:
  assumes "save_composition rid co d = (res, d')"
  shows "d' = d \<or> (\<exists>r c l. db_runs d rid = Some r \<and> db_contexts d rid = Some c
     \<and> co_run_id co = rid \<and> rr_status r = IN_PROGRESS \<and> cx_composition c = None
     \<and> cx_initial_generation_count c = 0 \<and> cx_confirmed_brand_lock c = Some l
     \<and> cx_draft_generated_at c \<noteq> None \<and> protected_layers_match l co \<and> res = Inr co
     \<and> d' = d\<lparr>db_contexts := (db_contexts d)(rid \<mapsto> c\<lparr>cx_composition := Some co,
         cx_initial_generation_count := 1\<rparr>)\<rparr>)"
  using assms
  by (auto simp: save_composition_def method_simps column_Some_iff
      split: option.splits if_splits sum.splits)

lemma critique_record_None:
  "critique_record_of r t = Inr None \<longleftrightarrow> r = None \<and> t = None"
  by (auto simp: critique_record_of_def split: option.splits)

lemma critique_record_Some:
  "critique_record_of r t = Inr (Some k) \<longleftrightarrow>
     r = Some (ck_report k) \<and> t = Some (ck_reviewed_at k) \<and> is_utc (ck_reviewed_at k)
     \<and> ck_reviewed_at k = cr_reviewed_at (ck_report k)"
  by (cases k) (auto simp: critique_record_of_def split: option.splits)

lemma save_critique_effect:
  assumes "save_critique rid report d = (res, d')"
  shows "d' = d \<or> (\<exists>r c. db_runs d rid = Some r \<and> db_contexts d rid = Some c
     \<and> rr_status r = IN_PROGRESS \<and> cx_confirmed_brand_lock c \<noteq> None
     \<and> cx_draft_generated_at c \<noteq> None \<and> cx_composition c \<noteq> None
     \<and> cx_initial_generation_count c = 1
     \<and> cx_critique c = None \<and> cx_critic_reviewed_at c = None
     \<and> res = Inr \<lparr>ck_report = report, ck_reviewed_at = cr_reviewed_at report\<rparr>
     \<and> d' = d\<lparr>db_runs := (db_runs d)(rid \<mapsto>
           set_status (critique_target_status report) (cr_reviewed_at report) r),
         db_contexts := (db_contexts d)(rid \<mapsto> c\<lparr>cx_critique := Some report,
           cx_critic_reviewed_at := Some (cr_reviewed_at report)\<rparr>)\<rparr>)"
  using assms
  by (auto simp: save_critique_def method_simps critique_record_None column_Some_iff
      split: option.splits if_splits sum.splits)


lemma update_status_effect:
  assumes "update_status rid st now d = (res, d')"
  shows "d' = d \<or> (\<exists>r t. db_runs d rid = Some r \<and> st \<in> allowed_transitions (rr_status r)
     \<and> d' = d\<lparr>db_runs := (db_runs d)(rid \<mapsto> set_status st t r)\<rparr>)"
  using assms
  by (cases "get_run rid d")
    (auto simp: update_status_def method_simps with_status_Inr_iff
      split: option.splits if_splits sum.splits dest!: get_run_status sym[of "Inl _"])

lemma increment_technical_attempt_effect:
  assumes "increment_technical_attempt rid d = (res, d')"
  shows "d' = d \<or> (\<exists>c. db_contexts d rid = Some c \<and> d' = d\<lparr>db_contexts := (db_contexts d)(rid \<mapsto>
     c\<lparr>cx_technical_attempt_count := cx_technical_attempt_count c + 1\<rparr>)\<rparr>)"
  using assms
  by (auto simp: increment_technical_attempt_def method_simps
      split: option.splits if_splits sum.splits)

subsection \<open>Operations\<close>

text \<open>The row a claim inserts.\<close>

definition feedback_operation_row ::
  "int \<Rightarrow> uuid \<Rightarrow> pystr \<Rightarrow> pystr \<Rightarrow> revision_change list \<Rightarrow> pystr \<Rightarrow> datetime \<Rightarrow> operation_row" where
  "feedback_operation_row oid rid key fingerprint changes digest t =
     \<lparr>ow_id = oid, ow_run_id = rid, ow_kind = FEEDBACK, ow_key_digest = key,
      ow_fingerprint = fingerprint, ow_state = OP_IN_PROGRESS,
      ow_requested_changes = Some changes, ow_feedback_digest = Some digest,
      ow_retry_condition = None, ow_retry_action = None, ow_public_response = None,
      ow_created_at = t, ow_updated_at = t\<rparr>"

definition retry_operation_row ::
  "int \<Rightarrow> uuid \<Rightarrow> pystr \<Rightarrow> pystr \<Rightarrow> operation_row \<Rightarrow> datetime \<Rightarrow> operation_row" where
  "retry_operation_row oid rid key fingerprint w t =
     \<lparr>ow_id = oid, ow_run_id = rid, ow_kind = RETRY, ow_key_digest = key,
      ow_fingerprint = fingerprint, ow_state = OP_IN_PROGRESS,
      ow_requested_changes = Some (case ow_requested_changes w of None \<Rightarrow> [] | Some cs \<Rightarrow> cs),
      ow_feedback_digest = ow_feedback_digest w, ow_retry_condition = ow_retry_condition w,
      ow_retry_action = ow_retry_action w, ow_public_response = None,
      ow_created_at = t, ow_updated_at = t\<rparr>"

lemmas operation_row_defs = feedback_operation_row_def retry_operation_row_def

definition no_open_operation :: "uuid \<Rightarrow> operation_kind \<Rightarrow> db \<Rightarrow> bool" where
  "no_open_operation rid kind d \<longleftrightarrow>
     (\<forall>w \<in> set (db_operations d). is_operation rid kind w \<longrightarrow> ow_state w \<noteq> OP_IN_PROGRESS)"

lemma insert_operation_cases:
  "insert_operation row d = (res, d') \<Longrightarrow>
     d' = d \<and> res = Inl IntegrityError \<and> list_ex (same_operation_key row) (db_operations d)
     \<or> res = Inr (db_operation_seq d + 1) \<and> \<not> list_ex (same_operation_key row) (db_operations d)
       \<and> d' = d\<lparr>db_operations := db_operations d @ [row\<lparr>ow_id := db_operation_seq d + 1\<rparr>],
               db_operation_seq := db_operation_seq d + 1\<rparr>"
  by (auto simp: insert_operation_def Let_def split: if_splits)

lemma claim_feedback_effect:
  assumes "claim_feedback_operation rid key fp changes digest t d = (res, d')"
  shows "d' = d \<or> (\<exists>r. db_runs d rid = Some r \<and> rr_status r = READY \<and> db_revisions d rid = None
     \<and> no_open_operation rid FEEDBACK d
     \<and> d' = d\<lparr>db_runs := (db_runs d)(rid \<mapsto> set_status IN_PROGRESS t r),
         db_operations := db_operations d
           @ [feedback_operation_row (db_operation_seq d + 1) rid key fp changes digest t],
         db_operation_seq := db_operation_seq d + 1\<rparr>)"
  using assms
  by (auto simp: claim_feedback_operation_def method_simps insert_operation_def Let_def
      fetch_operation_def select_operation_None no_open_operation_def operation_row_defs
      split: option.splits if_splits sum.splits)

lemma claim_retry_effect:
  assumes "claim_retry_operation rid key fp t d = (res, d')"
  shows "d' = d \<or> (\<exists>r w. db_runs d rid = Some r \<and> rr_status r = FAILED_RETRYABLE
     \<and> select_last_operation
         (\<lambda>w. is_operation rid FEEDBACK w \<and> ow_state w = OP_FAILED_RETRYABLE) d = Some w
     \<and> \<not> list_ex (same_operation_key (retry_operation_row 0 rid key fp w t)) (db_operations d)
     \<and> d' = d\<lparr>db_operations := db_operations d
           @ [retry_operation_row (db_operation_seq d + 1) rid key fp w t],
         db_operation_seq := db_operation_seq d + 1,
         db_contexts := (case db_contexts d rid of None \<Rightarrow> db_contexts d
           | Some c \<Rightarrow> (db_contexts d)(rid \<mapsto>
               c\<lparr>cx_technical_attempt_count := cx_technical_attempt_count c + 1\<rparr>)),
         db_runs := (db_runs d)(rid \<mapsto> set_status IN_PROGRESS t r)\<rparr>)"
  using assms
  by (auto simp: claim_retry_operation_def method_simps insert_operation_def Let_def
      fetch_operation_def operation_record_of_def operation_row_defs
      split: option.splits if_splits sum.splits)

definition failed_operation ::
  "retry_condition \<Rightarrow> retry_action \<Rightarrow> datetime \<Rightarrow> operation_row \<Rightarrow> operation_row" where
  "failed_operation condition action t w = w\<lparr>
     ow_state := (if action \<in> retryable_actions then OP_FAILED_RETRYABLE else OP_FAILED_FINAL),
     ow_retry_condition := Some condition, ow_retry_action := Some action, ow_updated_at := t\<rparr>"

lemma fail_revision_effect:
  assumes "fail_revision_operation rid oid condition action t d = (res, d')"
  shows "d' = d \<or> length (filter (\<lambda>w. ow_id w = oid \<and> ow_run_id w = rid
         \<and> ow_state w = OP_IN_PROGRESS) (db_operations d)) = 1
     \<and> d' = d\<lparr>db_operations := map (\<lambda>w. if ow_id w = oid \<and> ow_run_id w = rid
           \<and> ow_state w = OP_IN_PROGRESS then failed_operation condition action t w else w)
           (db_operations d),
         db_runs := (case db_runs d rid of None \<Rightarrow> db_runs d
           | Some r \<Rightarrow> (db_runs d)(rid \<mapsto> set_status
               (if action \<in> retryable_actions then FAILED_RETRYABLE else FAILED_FINAL) t r))\<rparr>"
  using assms
  by (auto simp: fail_revision_operation_def method_simps update_operations_def Let_def
      fetch_operation_def failed_operation_def
      split: option.splits if_splits sum.splits)

definition closed_by ::
  "uuid \<Rightarrow> int \<Rightarrow> operation_kind \<Rightarrow> operation_row \<Rightarrow> bool" where
  "closed_by rid oid kind w \<longleftrightarrow> ow_id w = oid \<and> ow_state w = OP_IN_PROGRESS
     \<or> kind = RETRY \<and> is_operation rid FEEDBACK w \<and> ow_state w = OP_FAILED_RETRYABLE"

lemma complete_revision_effect:
  assumes "complete_revision rid oid v response d = (res, d')"
  shows "d' = d \<or> (\<exists>w c. select_operation (\<lambda>w. ow_id w = oid \<and> ow_run_id w = rid) d = Some w
     \<and> ow_state w = OP_IN_PROGRESS \<and> db_revisions d rid = None
     \<and> db_contexts d rid = Some c \<and> cx_human_revision_count c = 0
     \<and> d' = d\<lparr>db_revisions := (db_revisions d)(rid \<mapsto> revision_row_of v),
         db_contexts := (db_contexts d)(rid \<mapsto> c\<lparr>cx_human_revision_count := 1\<rparr>),
         db_operations := map (\<lambda>w'. if closed_by rid oid (ow_kind w) w'
           then succeed_operation response (re_revised_at v) w' else w') (db_operations d),
         db_runs := (case db_runs d rid of None \<Rightarrow> db_runs d
           | Some r \<Rightarrow> (db_runs d)(rid \<mapsto>
               set_status (critique_target_status (re_critique v)) (re_revised_at v) r))\<rparr>)"
  using assms
  by (auto simp: complete_revision_def method_simps update_operations_def Let_def catch_def
      insert_revision_def get_revision_def closed_by_def succeed_operation_def
      split: option.splits if_splits sum.splits)

end
