(* ===== verification/Lifecycle.thy ===== *)
theory Lifecycle
  imports Repository_Effects
begin

section \<open>The life cycle of a run\<close>

text \<open>
  The repository as a state machine. A step is one call of a repository method, made under the
  condition the services and the API handlers establish before the call; a method is one
  transaction (or one read followed by one transaction that only the claiming request issues),
  so interleaved requests are interleaved steps. The abstract specification is a graph of
  sixteen phases: \<open>in_phase\<close> relates what the tables hold about a run to its phase, and
  \<open>next_phases\<close> is the graph.
\<close>

subsection \<open>What the tables hold about one run\<close>

type_synonym operation_key =
  "operation_kind \<times> operation_state \<times> retry_condition option \<times> retry_action option"

record run_view =
  vw_status :: "project_run_status option"
  vw_context :: "context_row option"
  vw_revision :: "revision_row option"
  vw_operations :: "operation_key list"

definition operation_key :: "operation_row \<Rightarrow> operation_key" where
  "operation_key w = (ow_kind w, ow_state w, ow_retry_condition w, ow_retry_action w)"

definition operations_of :: "uuid \<Rightarrow> db \<Rightarrow> operation_row list" where
  "operations_of rid d = filter (\<lambda>w. ow_run_id w = rid) (db_operations d)"

definition view_run :: "uuid \<Rightarrow> db \<Rightarrow> run_view" where
  "view_run rid d = \<lparr>vw_status = map_option rr_status (db_runs d rid),
     vw_context = db_contexts d rid, vw_revision = db_revisions d rid,
     vw_operations = map operation_key (operations_of rid d)\<rparr>"

subsection \<open>The phases\<close>

datatype phase =
    Absent | Pending | Analyzing | Blocked | Failed | Awaiting | Confirmed | Drafted | Composed
  | Reviewed | Rejected | Revising | Retryable | Retrying | Revised | Revision_Rejected | Exhausted

fun next_phases :: "phase \<Rightarrow> phase set" where
  "next_phases Absent = {Pending}"
| "next_phases Pending = {Analyzing}"
| "next_phases Analyzing = {Awaiting, Blocked, Failed}"
| "next_phases Awaiting = {Confirmed}"
| "next_phases Confirmed = {Drafted}"
| "next_phases Drafted = {Composed}"
| "next_phases Composed = {Reviewed, Rejected}"
| "next_phases Reviewed = {Revising}"
| "next_phases Revising = {Revised, Revision_Rejected, Retryable}"
| "next_phases Retryable = {Retrying}"
| "next_phases Retrying = {Revised, Revision_Rejected, Exhausted}"
| "next_phases _ = {}"

fun phase_status :: "phase \<Rightarrow> project_run_status option" where
  "phase_status Absent = None"
| "phase_status Pending = Some PENDING"
| "phase_status Blocked = Some BLOCKED"
| "phase_status Failed = Some FAILED"
| "phase_status Awaiting = Some AWAITING_BRAND_LOCK"
| "phase_status Reviewed = Some READY"
| "phase_status Revised = Some READY"
| "phase_status Retryable = Some FAILED_RETRYABLE"
| "phase_status Rejected = Some FAILED_FINAL"
| "phase_status Revision_Rejected = Some FAILED_FINAL"
| "phase_status Exhausted = Some FAILED_FINAL"
| "phase_status _ = Some IN_PROGRESS"

text \<open>How many of analysis, lock, draft, composition and critique the context holds.\<close>

fun phase_stage :: "phase \<Rightarrow> nat" where
  "phase_stage Awaiting = 1"
| "phase_stage Confirmed = 2"
| "phase_stage Drafted = 3"
| "phase_stage Composed = 4"
| "phase_stage p = (if p \<in> {Absent, Pending, Analyzing, Blocked, Failed} then 0 else 5)"

definition first_failure :: operation_key where
  "first_failure =
     (FEEDBACK, OP_FAILED_RETRYABLE, Some CONNECTION_BEFORE_ACCEPTANCE, Some RETRY_ONCE)"

fun phase_operations :: "phase \<Rightarrow> operation_key list set" where
  "phase_operations Revising = {[(FEEDBACK, OP_IN_PROGRESS, None, None)]}"
| "phase_operations Retryable = {[first_failure]}"
| "phase_operations Retrying = {[first_failure,
     (RETRY, OP_IN_PROGRESS, Some CONNECTION_BEFORE_ACCEPTANCE, Some RETRY_ONCE)]}"
| "phase_operations Exhausted = {[first_failure,
     (RETRY, OP_FAILED_FINAL, Some CONNECTION_BEFORE_ACCEPTANCE, Some DO_NOT_RETRY)]}"
| "phase_operations p = (if p \<in> {Revised, Revision_Rejected}
     then {[(FEEDBACK, OP_SUCCEEDED, None, None)],
           [(FEEDBACK, OP_SUCCEEDED, Some CONNECTION_BEFORE_ACCEPTANCE, Some RETRY_ONCE),
            (RETRY, OP_SUCCEEDED, Some CONNECTION_BEFORE_ACCEPTANCE, Some RETRY_ONCE)]}
     else {[]})"

definition has_revision :: "phase \<Rightarrow> bool" where
  "has_revision p \<longleftrightarrow> p = Revised \<or> p = Revision_Rejected"

definition retries :: "operation_key list \<Rightarrow> int" where
  "retries ks = int (length (filter (\<lambda>k. fst k = RETRY) ks))"

definition context_stage :: "nat \<Rightarrow> context_row \<Rightarrow> bool" where
  "context_stage n c \<longleftrightarrow>
     (cx_analysis c \<noteq> None \<longleftrightarrow> 1 \<le> n)
     \<and> (cx_confirmed_brand_lock c \<noteq> None \<longleftrightarrow> 2 \<le> n)
     \<and> (cx_brand_lock_confirmed_at c \<noteq> None \<longleftrightarrow> 2 \<le> n)
     \<and> (cx_creative_brief c \<noteq> None \<longleftrightarrow> 3 \<le> n) \<and> (cx_ad_copy c \<noteq> None \<longleftrightarrow> 3 \<le> n)
     \<and> (cx_draft_fact_references c \<noteq> None \<longleftrightarrow> 3 \<le> n) \<and> (cx_draft_rule_ids c \<noteq> None \<longleftrightarrow> 3 \<le> n)
     \<and> (cx_draft_generated_at c \<noteq> None \<longleftrightarrow> 3 \<le> n)
     \<and> (cx_composition c \<noteq> None \<longleftrightarrow> 4 \<le> n)
     \<and> cx_initial_generation_count c = (if 4 \<le> n then 1 else 0)
     \<and> (cx_critique c \<noteq> None \<longleftrightarrow> 5 \<le> n) \<and> (cx_critic_reviewed_at c \<noteq> None \<longleftrightarrow> 5 \<le> n)"

definition in_phase :: "phase \<Rightarrow> run_view \<Rightarrow> bool" where
  "in_phase p v \<longleftrightarrow> vw_status v = phase_status p
     \<and> vw_operations v \<in> phase_operations p
     \<and> (vw_revision v \<noteq> None \<longleftrightarrow> has_revision p)
     \<and> (case vw_context v of
          None \<Rightarrow> p = Absent
        | Some c \<Rightarrow> p \<noteq> Absent \<and> context_stage (phase_stage p) c
            \<and> cx_human_revision_count c = (if has_revision p then 1 else 0)
            \<and> cx_technical_attempt_count c = retries (vw_operations v))"

subsection \<open>The steps\<close>

text \<open>\<open>sys_analyzing\<close> is a ghost: the runs whose analysis a request has claimed and not yet
  finished, that is, the requests between \<open>claim_analysis\<close> and the end of \<open>analyze_run\<close>.\<close>

record sys =
  sys_db :: db
  sys_analyzing :: "uuid set"

definition init_sys :: sys where
  "init_sys = \<lparr>sys_db = empty_db, sys_analyzing = {}\<rparr>"

definition in_progress_operation :: "uuid \<Rightarrow> int \<Rightarrow> operation_kind \<Rightarrow> db \<Rightarrow> bool" where
  "in_progress_operation rid oid kind d \<longleftrightarrow>
     (\<exists>w \<in> set (db_operations d). ow_id w = oid \<and> ow_run_id w = rid \<and> ow_kind w = kind)"

text \<open>The action \<open>RevisionService._execute\<close> records for a failed operation.\<close>

definition failure_action :: "operation_kind \<Rightarrow> retry_action" where
  "failure_action kind = (if kind = RETRY then DO_NOT_RETRY else RETRY_ONCE)"

inductive step :: "sys \<Rightarrow> uuid \<Rightarrow> sys \<Rightarrow> bool" where
  Create: "new_project_run rid now (rc_direction req) = Inr run
     \<Longrightarrow> create_run run (Some req) d = (res, d')
     \<Longrightarrow> step \<lparr>sys_db = d, sys_analyzing = A\<rparr> rid \<lparr>sys_db = d', sys_analyzing = A\<rparr>"
| Claim_Analysis: "claim_analysis rid now d = (res, d')
     \<Longrightarrow> A' = (if \<exists>run. res = Inr (Some run) then insert rid A else A)
     \<Longrightarrow> step \<lparr>sys_db = d, sys_analyzing = A\<rparr> rid \<lparr>sys_db = d', sys_analyzing = A'\<rparr>"
| Complete_Analysis: "rid \<in> A \<Longrightarrow> complete_analysis rid a repair now d = (res, d')
     \<Longrightarrow> step \<lparr>sys_db = d, sys_analyzing = A\<rparr> rid \<lparr>sys_db = d', sys_analyzing = A - {rid}\<rparr>"
| Record_Failure: "rid \<in> A \<Longrightarrow> record_failure rid st code now d = (res, d')
     \<Longrightarrow> step \<lparr>sys_db = d, sys_analyzing = A\<rparr> rid \<lparr>sys_db = d', sys_analyzing = A - {rid}\<rparr>"
| Abandon_Analysis: "rid \<in> A
     \<Longrightarrow> step \<lparr>sys_db = d, sys_analyzing = A\<rparr> rid \<lparr>sys_db = d, sys_analyzing = A - {rid}\<rparr>"
| Confirm: "confirm_brand_lock rid lock at now d = (res, d')
     \<Longrightarrow> step \<lparr>sys_db = d, sys_analyzing = A\<rparr> rid \<lparr>sys_db = d', sys_analyzing = A\<rparr>"
| Save_Draft: "save_draft rid brief copy facts rules at now d = (res, d')
     \<Longrightarrow> step \<lparr>sys_db = d, sys_analyzing = A\<rparr> rid \<lparr>sys_db = d', sys_analyzing = A\<rparr>"
| Save_Composition: "save_composition rid composition d = (res, d')
     \<Longrightarrow> step \<lparr>sys_db = d, sys_analyzing = A\<rparr> rid \<lparr>sys_db = d', sys_analyzing = A\<rparr>"
| Save_Critique: "save_critique rid report d = (res, d')
     \<Longrightarrow> step \<lparr>sys_db = d, sys_analyzing = A\<rparr> rid \<lparr>sys_db = d', sys_analyzing = A\<rparr>"
| Claim_Feedback: "claim_feedback_operation rid key fp changes digest t d = (res, d')
     \<Longrightarrow> step \<lparr>sys_db = d, sys_analyzing = A\<rparr> rid \<lparr>sys_db = d', sys_analyzing = A\<rparr>"
| Fail_Revision: "in_progress_operation rid oid kind d
     \<Longrightarrow> fail_revision_operation rid oid CONNECTION_BEFORE_ACCEPTANCE (failure_action kind) t d
           = (res, d')
     \<Longrightarrow> step \<lparr>sys_db = d, sys_analyzing = A\<rparr> rid \<lparr>sys_db = d', sys_analyzing = A\<rparr>"
| Claim_Retry: "claim_retry_operation rid key fp t d = (res, d')
     \<Longrightarrow> step \<lparr>sys_db = d, sys_analyzing = A\<rparr> rid \<lparr>sys_db = d', sys_analyzing = A\<rparr>"
| Complete_Revision: "complete_revision rid oid revision response d = (res, d')
     \<Longrightarrow> step \<lparr>sys_db = d, sys_analyzing = A\<rparr> rid \<lparr>sys_db = d', sys_analyzing = A\<rparr>"

inductive reachable :: "sys \<Rightarrow> bool" where
  init: "reachable init_sys"
| step: "reachable s \<Longrightarrow> step s rid s' \<Longrightarrow> reachable s'"

subsection \<open>Views and writes\<close>

named_theorems view_simps "the view of a run after a write"

lemma operations_of_simps [view_simps]:
  "operations_of rid (d\<lparr>db_runs := x\<rparr>) = operations_of rid d"
  "operations_of rid (d\<lparr>db_contexts := y\<rparr>) = operations_of rid d"
  "operations_of rid (d\<lparr>db_revisions := z\<rparr>) = operations_of rid d"
  "operations_of rid (d\<lparr>db_operation_seq := n\<rparr>) = operations_of rid d"
  "operations_of rid (d\<lparr>db_operations := ws @ [w]\<rparr>) =
     filter (\<lambda>w. ow_run_id w = rid) ws @ (if ow_run_id w = rid then [w] else [])"
  by (simp_all add: operations_of_def)

lemma view_run_select [view_simps]:
  "vw_status (view_run rid d) = map_option rr_status (db_runs d rid)"
  "vw_context (view_run rid d) = db_contexts d rid"
  "vw_revision (view_run rid d) = db_revisions d rid"
  "vw_operations (view_run rid d) = map operation_key (operations_of rid d)"
  by (simp_all add: view_run_def)

lemma operations_of_map:
  assumes "\<And>w. ow_run_id (f w) = ow_run_id w"
  shows "operations_of rid (d\<lparr>db_operations := map f (db_operations d)\<rparr>) = map f (operations_of rid d)"
  using assms by (simp add: operations_of_def filter_map o_def)

lemma operations_of_frame:
  assumes "\<And>w. ow_run_id (f w) = ow_run_id w"
    and "\<And>w. w \<in> set (operations_of rid d) \<Longrightarrow> f w = w"
  shows "operations_of rid (d\<lparr>db_operations := map f (db_operations d)\<rparr>) = operations_of rid d"
  using assms by (simp add: operations_of_map map_idI)

lemma set_operations_of:
  "w \<in> set (operations_of rid d) \<longleftrightarrow> w \<in> set (db_operations d) \<and> ow_run_id w = rid"
  by (auto simp: operations_of_def)

text \<open>The facts about the operation ids that \<open>AUTOINCREMENT\<close> guarantees.\<close>

definition ids_ok :: "db \<Rightarrow> bool" where
  "ids_ok d \<longleftrightarrow> distinct (map ow_id (db_operations d))
     \<and> (\<forall>w \<in> set (db_operations d). ow_id w \<le> db_operation_seq d)"

lemma ids_ok_unique:
  "ids_ok d \<Longrightarrow> v \<in> set (db_operations d) \<Longrightarrow> w \<in> set (db_operations d) \<Longrightarrow> ow_id v = ow_id w
    \<Longrightarrow> v = w"
  by (auto simp: ids_ok_def distinct_map inj_on_def)

lemma ids_ok_simps [view_simps]:
  "ids_ok (d\<lparr>db_runs := x\<rparr>) = ids_ok d"
  "ids_ok (d\<lparr>db_contexts := y\<rparr>) = ids_ok d"
  "ids_ok (d\<lparr>db_revisions := z\<rparr>) = ids_ok d"
  by (simp_all add: ids_ok_def)

lemma ids_ok_append [view_simps]:
  "ids_ok d \<Longrightarrow> ow_id w = db_operation_seq d + 1 \<Longrightarrow>
     ids_ok (d\<lparr>db_operations := db_operations d @ [w], db_operation_seq := db_operation_seq d + 1\<rparr>)"
  by (force simp: ids_ok_def)

lemma ids_ok_map:
  "ids_ok d \<Longrightarrow> (\<And>w. ow_id (f w) = ow_id w) \<Longrightarrow>
     ids_ok (d\<lparr>db_operations := map f (db_operations d)\<rparr>)"
  by (simp add: ids_ok_def o_def)

subsection \<open>Reading the phase off the tables\<close>

lemma in_phase_context:
  "in_phase p v \<Longrightarrow> p \<noteq> Absent \<Longrightarrow> \<exists>c. vw_context v = Some c \<and> context_stage (phase_stage p) c
     \<and> cx_human_revision_count c = (if has_revision p then 1 else 0)
     \<and> cx_technical_attempt_count c = retries (vw_operations v)"
  by (auto simp: in_phase_def split: option.splits)

lemma in_phase_Absent: "in_phase Absent v \<longleftrightarrow> v = \<lparr>vw_status = None, vw_context = None,
    vw_revision = None, vw_operations = []\<rparr>"
  by (cases v) (auto simp: in_phase_def has_revision_def split: option.splits)

lemma phase_status_cases:
  "phase_status p = None \<longleftrightarrow> p = Absent"
  "phase_status p = Some PENDING \<longleftrightarrow> p = Pending"
  "phase_status p = Some AWAITING_BRAND_LOCK \<longleftrightarrow> p = Awaiting"
  "phase_status p = Some FAILED_RETRYABLE \<longleftrightarrow> p = Retryable"
  "phase_status p = Some READY \<longleftrightarrow> p = Reviewed \<or> p = Revised"
  "phase_status p = Some IN_PROGRESS \<longleftrightarrow>
     p \<in> {Analyzing, Confirmed, Drafted, Composed, Revising, Retrying}"
  by (cases p; simp)+

lemma in_phase_status: "in_phase p v \<Longrightarrow> vw_status v = phase_status p"
  by (simp add: in_phase_def)

lemma in_phase_run:
  "in_phase p (view_run rid d) \<Longrightarrow> db_runs d rid = Some r \<Longrightarrow> phase_status p = Some (rr_status r)"
  by (simp add: in_phase_def view_simps)

lemma in_phase_stage:
  "in_phase p (view_run rid d) \<Longrightarrow> db_contexts d rid = Some c \<Longrightarrow>
     p \<noteq> Absent \<and> context_stage (phase_stage p) c
     \<and> cx_human_revision_count c = (if has_revision p then 1 else 0)
     \<and> cx_technical_attempt_count c = retries (map operation_key (operations_of rid d))"
  by (auto simp: in_phase_def view_simps split: option.splits)

lemma in_phase_operations:
  "in_phase p (view_run rid d) \<Longrightarrow> map operation_key (operations_of rid d) \<in> phase_operations p"
  by (simp add: in_phase_def view_simps)

lemma in_phase_revision:
  "in_phase p (view_run rid d) \<Longrightarrow> db_revisions d rid \<noteq> None \<longleftrightarrow> has_revision p"
  by (simp add: in_phase_def view_simps)

subsection \<open>Advancing one run\<close>

definition keeps_value :: "'a option \<Rightarrow> 'a option \<Rightarrow> bool" where
  "keeps_value x y \<longleftrightarrow> (x \<noteq> None \<longrightarrow> y = x)"

lemma keeps_value_simps [simp]:
  "keeps_value None y" "keeps_value (Some x) y \<longleftrightarrow> y = Some x" "keeps_value z z"
  by (auto simp: keeps_value_def)

text \<open>An artifact that has been stored is never replaced.\<close>

definition context_extends :: "context_row \<Rightarrow> context_row \<Rightarrow> bool" where
  "context_extends c c' \<longleftrightarrow> cx_request c' = cx_request c
     \<and> keeps_value (cx_analysis c) (cx_analysis c')
     \<and> keeps_value (cx_confirmed_brand_lock c) (cx_confirmed_brand_lock c')
     \<and> keeps_value (cx_brand_lock_confirmed_at c) (cx_brand_lock_confirmed_at c')
     \<and> keeps_value (cx_creative_brief c) (cx_creative_brief c')
     \<and> keeps_value (cx_ad_copy c) (cx_ad_copy c')
     \<and> keeps_value (cx_draft_fact_references c) (cx_draft_fact_references c')
     \<and> keeps_value (cx_draft_rule_ids c) (cx_draft_rule_ids c')
     \<and> keeps_value (cx_draft_generated_at c) (cx_draft_generated_at c')
     \<and> keeps_value (cx_composition c) (cx_composition c')
     \<and> keeps_value (cx_critique c) (cx_critique c')
     \<and> keeps_value (cx_critic_reviewed_at c) (cx_critic_reviewed_at c')"

definition view_extends :: "run_view \<Rightarrow> run_view \<Rightarrow> bool" where
  "view_extends v v' \<longleftrightarrow> keeps_value (vw_revision v) (vw_revision v')
     \<and> (case vw_context v of None \<Rightarrow> True
        | Some c \<Rightarrow> \<exists>c'. vw_context v' = Some c' \<and> context_extends c c')"

lemma context_extends_refl [simp]: "context_extends c c"
  by (simp add: context_extends_def)

lemma view_extends_refl [simp]: "view_extends v v"
  by (simp add: view_extends_def split: option.split)

definition advances :: "uuid \<Rightarrow> phase set \<Rightarrow> db \<Rightarrow> db \<Rightarrow> bool" where
  "advances rid ps d d' \<longleftrightarrow> (\<exists>q \<in> ps. in_phase q (view_run rid d'))
     \<and> view_extends (view_run rid d) (view_run rid d')
     \<and> (\<forall>rid'. rid' \<noteq> rid \<longrightarrow> view_run rid' d' = view_run rid' d) \<and> ids_ok d'"

lemmas advance_simps = advances_def in_phase_def view_simps context_stage_def view_extends_def
  context_extends_def has_revision_def set_status_def new_context_def retries_def

lemma create_advances:
  assumes "in_phase p (view_run (pr_id run) d)" "ids_ok d" "pr_status run = PENDING"
    and "create_run run (Some req) d = (res, d')"
  shows "d' = d \<or> p = Absent \<and> advances (pr_id run) {Pending} d d'"
  using create_run_effect[OF assms(4)] assms(1-3)
  by (cases "p = Absent")
    (auto simp: in_phase_Absent advance_simps view_run_def phase_status_cases
      dest: in_phase_status)

lemma claim_analysis_advances:
  assumes "in_phase p (view_run rid d)" "ids_ok d" "claim_analysis rid now d = (res, d')"
  shows "d' = d \<and> (\<forall>run. res \<noteq> Inr (Some run)) \<or> p = Pending \<and> advances rid {Analyzing} d d'"
proof -
  from claim_analysis_effect[OF assms(3)] consider
    "d' = d \<and> (\<forall>run. res \<noteq> Inr (Some run))" | r where "db_runs d rid = Some r" "rr_status r = PENDING"
      "d' = d\<lparr>db_runs := (db_runs d)(rid \<mapsto> set_status IN_PROGRESS now r)\<rparr>"
    by blast
  then show ?thesis
  proof cases
    case 2
    then have "p = Pending"
      using in_phase_run[OF assms(1)] by (simp add: phase_status_cases)
    with 2 assms(1,2) have "advances rid {Analyzing} d d'"
      by (auto simp: advance_simps split: option.splits)
    with \<open>p = Pending\<close> show ?thesis by simp
  qed simp
qed

lemma complete_analysis_advances:
  assumes "in_phase Analyzing (view_run rid d)" "ids_ok d"
    and "complete_analysis rid a repair now d = (res, d')"
  shows "d' = d \<or> advances rid {Awaiting} d d'"
  using complete_analysis_effect[OF assms(3)] assms(1,2)
  by (auto simp: advance_simps)

lemma record_failure_advances:
  assumes "in_phase Analyzing (view_run rid d)" "ids_ok d"
    and "record_failure rid st code now d = (res, d')"
  shows "d' = d \<or> advances rid {Blocked, Failed} d d'"
proof -
  from record_failure_effect[OF assms(3)] consider "d' = d"
    | r t where "db_runs d rid = Some r" "st \<in> {BLOCKED, FAILED}"
      "d' = d\<lparr>db_runs := (db_runs d)(rid \<mapsto> r\<lparr>rr_status := st,
             rr_warning_codes := rr_warning_codes r @ [code], rr_updated_at := t\<rparr>)\<rparr>"
    by blast
  then show ?thesis
  proof cases
    case 2
    define q where "q = (if st = BLOCKED then Blocked else Failed)"
    have "in_phase q (view_run rid d')"
      using 2 assms(1) by (auto simp: q_def in_phase_def view_simps has_revision_def
          context_stage_def split: option.splits)
    moreover have "view_extends (view_run rid d) (view_run rid d')"
      "\<forall>rid'. rid' \<noteq> rid \<longrightarrow> view_run rid' d' = view_run rid' d" "ids_ok d'"
      using 2(3) assms(2)
      by (auto simp: view_run_def view_simps view_extends_def split: option.splits)
    ultimately show ?thesis
      unfolding advances_def q_def by (auto split: if_splits)
  qed simp
qed

lemma confirm_advances:
  assumes "in_phase p (view_run rid d)" "ids_ok d"
    and "confirm_brand_lock rid lock at now d = (res, d')"
  shows "d' = d \<or> p = Awaiting \<and> advances rid {Confirmed} d d'"
proof -
  from confirm_brand_lock_effect[OF assms(3)] consider "d' = d"
    | r c t where "db_runs d rid = Some r" "db_contexts d rid = Some c"
      "rr_status r = AWAITING_BRAND_LOCK"
      "d' = d\<lparr>db_runs := (db_runs d)(rid \<mapsto> set_status IN_PROGRESS t r),
         db_contexts := (db_contexts d)(rid \<mapsto> c\<lparr>cx_confirmed_brand_lock := Some lock,
           cx_brand_lock_confirmed_at := Some t\<rparr>)\<rparr>"
    by blast
  then show ?thesis
  proof cases
    case 2
    then have "p = Awaiting"
      using in_phase_run[OF assms(1)] by (simp add: phase_status_cases)
    with 2 assms(1,2) have "advances rid {Confirmed} d d'"
      by (auto simp: advance_simps)
    with \<open>p = Awaiting\<close> show ?thesis by simp
  qed simp
qed

lemma save_draft_advances:
  assumes "in_phase p (view_run rid d)" "ids_ok d"
    and "save_draft rid brief copy facts rules at now d = (res, d')"
  shows "d' = d \<or> p = Confirmed \<and> advances rid {Drafted} d d'"
proof -
  from save_draft_effect[OF assms(3)] consider "d' = d"
    | r c t where "db_runs d rid = Some r" "db_contexts d rid = Some c"
      "rr_status r = IN_PROGRESS" "context_draft (Some c) = Inr None"
      "cx_confirmed_brand_lock c \<noteq> None"
      "d' = d\<lparr>db_contexts := (db_contexts d)(rid \<mapsto> c\<lparr>cx_creative_brief := Some brief,
         cx_ad_copy := Some copy, cx_draft_fact_references := Some facts,
         cx_draft_rule_ids := Some rules, cx_draft_generated_at := Some t\<rparr>)\<rparr>"
    by blast
  then show ?thesis
  proof cases
    case 2
    then have "p \<in> {Analyzing, Confirmed, Drafted, Composed, Revising, Retrying}"
      using in_phase_run[OF assms(1)] by (simp add: phase_status_cases)
    moreover have "\<not> 3 \<le> phase_stage p" "2 \<le> phase_stage p"
      using in_phase_stage[OF assms(1) 2(2)] 2(4,5)
      by (auto simp: context_stage_def context_draft_def draft_record_None)
    ultimately have "p = Confirmed"
      by auto
    with 2 assms(1,2) have "advances rid {Drafted} d d'"
      by (auto simp: advance_simps)
    with \<open>p = Confirmed\<close> show ?thesis by simp
  qed simp
qed

lemma save_composition_advances:
  assumes "in_phase p (view_run rid d)" "ids_ok d" "save_composition rid co d = (res, d')"
  shows "d' = d \<or> p = Drafted \<and> advances rid {Composed} d d'"
proof -
  from save_composition_effect[OF assms(3)] consider "d' = d"
    | r c where "db_runs d rid = Some r" "db_contexts d rid = Some c"
      "rr_status r = IN_PROGRESS" "cx_composition c = None" "cx_draft_generated_at c \<noteq> None"
      "d' = d\<lparr>db_contexts := (db_contexts d)(rid \<mapsto> c\<lparr>cx_composition := Some co,
         cx_initial_generation_count := 1\<rparr>)\<rparr>"
    by blast
  then show ?thesis
  proof cases
    case 2
    then have "p \<in> {Analyzing, Confirmed, Drafted, Composed, Revising, Retrying}"
      using in_phase_run[OF assms(1)] by (simp add: phase_status_cases)
    moreover have "\<not> 4 \<le> phase_stage p" "3 \<le> phase_stage p"
      using in_phase_stage[OF assms(1) 2(2)] 2(4,5) by (auto simp: context_stage_def)
    ultimately have "p = Drafted"
      by auto
    with 2 assms(1,2) have "advances rid {Composed} d d'"
      by (auto simp: advance_simps)
    with \<open>p = Drafted\<close> show ?thesis by simp
  qed simp
qed

lemma critique_target_cases:
  "critique_target_status report = READY \<or> critique_target_status report = FAILED_FINAL"
  by (simp add: critique_target_status_def)

lemma save_critique_advances:
  assumes "in_phase p (view_run rid d)" "ids_ok d" "save_critique rid report d = (res, d')"
  shows "d' = d \<or> p = Composed \<and> advances rid {Reviewed, Rejected} d d'"
proof -
  from save_critique_effect[OF assms(3)] consider "d' = d"
    | r c where "db_runs d rid = Some r" "db_contexts d rid = Some c"
      "rr_status r = IN_PROGRESS" "cx_composition c \<noteq> None" "cx_critique c = None"
      "d' = d\<lparr>db_runs := (db_runs d)(rid \<mapsto>
           set_status (critique_target_status report) (cr_reviewed_at report) r),
         db_contexts := (db_contexts d)(rid \<mapsto> c\<lparr>cx_critique := Some report,
           cx_critic_reviewed_at := Some (cr_reviewed_at report)\<rparr>)\<rparr>"
    by blast
  then show ?thesis
  proof cases
    case 2
    then have "p \<in> {Analyzing, Confirmed, Drafted, Composed, Revising, Retrying}"
      using in_phase_run[OF assms(1)] by (simp add: phase_status_cases)
    moreover have "\<not> 5 \<le> phase_stage p" "4 \<le> phase_stage p"
      using in_phase_stage[OF assms(1) 2(2)] 2(4,5) by (auto simp: context_stage_def)
    ultimately have "p = Composed"
      by auto
    with 2 assms(1,2) critique_target_cases[of report] have "advances rid {Reviewed, Rejected} d d'"
      by (auto simp: advance_simps)
    with \<open>p = Composed\<close> show ?thesis by simp
  qed simp
qed

subsection \<open>Advancing through the operations\<close>

lemma operations_of_append:
  "operations_of rid (d\<lparr>db_runs := x, db_operations := db_operations d @ [w], db_operation_seq := n\<rparr>)
     = operations_of rid d @ (if ow_run_id w = rid then [w] else [])"
  by (simp add: operations_of_def)

lemma claim_feedback_advances:
  assumes "in_phase p (view_run rid d)" "ids_ok d"
    and "claim_feedback_operation rid key fp changes digest t d = (res, d')"
  shows "d' = d \<or> p = Reviewed \<and> advances rid {Revising} d d'"
proof -
  define w where "w = feedback_operation_row (db_operation_seq d + 1) rid key fp changes digest t"
  from claim_feedback_effect[OF assms(3)] consider "d' = d"
    | r where "db_runs d rid = Some r" "rr_status r = READY" "db_revisions d rid = None"
      "d' = d\<lparr>db_runs := (db_runs d)(rid \<mapsto> set_status IN_PROGRESS t r),
         db_operations := db_operations d @ [w], db_operation_seq := db_operation_seq d + 1\<rparr>"
    unfolding w_def by blast
  then show ?thesis
  proof cases
    case 2
    then have p: "p = Reviewed"
      using in_phase_run[OF assms(1)] in_phase_revision[OF assms(1)]
      by (auto simp: phase_status_cases has_revision_def)
    have w: "ow_id w = db_operation_seq d + 1" "ow_run_id w = rid"
      "operation_key w = (FEEDBACK, OP_IN_PROGRESS, None, None)"
      by (simp_all add: w_def operation_row_defs operation_key_def)
    have "ids_ok d'"
      using ids_ok_append[OF assms(2) w(1)] by (simp add: 2(4) ids_ok_def)
    moreover have "operations_of rid d = []"
      using in_phase_operations[OF assms(1)] p by simp
    moreover have ops: "operations_of rid' d' = operations_of rid' d @ (if rid' = rid then [w] else [])"
      for rid' by (simp add: 2(4) w operations_of_append)
    moreover have "\<forall>rid'. rid' \<noteq> rid \<longrightarrow> view_run rid' d' = view_run rid' d"
      by (simp add: view_run_def 2(4) operations_of_append w)
    ultimately have "advances rid {Revising} d d'"
      using 2 assms(1) p w by (auto simp: advance_simps split: option.splits)
    with p show ?thesis by simp
  qed simp
qed

text \<open>Operations that are rewritten in place: the view of the run whose rows change, and of the
  others.\<close>

lemma rewritten_operations:
  assumes "\<And>w. ow_run_id (f w) = ow_run_id w"
    and "\<And>w. w \<in> set (db_operations d) \<Longrightarrow> ow_run_id w \<noteq> rid \<Longrightarrow> f w = w"
    and "db_operations d' = map f (db_operations d)"
  shows "operations_of rid d' = map f (operations_of rid d)"
    and "rid' \<noteq> rid \<Longrightarrow> operations_of rid' d' = operations_of rid' d"
proof -
  have eq: "operations_of r d' = map f (operations_of r d)" for r
    using assms(1,3) by (simp add: operations_of_def filter_map o_def)
  then show "operations_of rid d' = map f (operations_of rid d)" .
  assume "rid' \<noteq> rid"
  with assms(2) show "operations_of rid' d' = operations_of rid' d"
    unfolding eq by (auto simp: operations_of_def intro!: map_idI)
qed

definition open_key :: "operation_key \<Rightarrow> bool" where
  "open_key k \<longleftrightarrow> fst (snd k) = OP_IN_PROGRESS"

text \<open>An operation in progress is the last of its run.\<close>

lemma open_operation_phase:
  assumes "in_phase p (view_run rid d)" "ids_ok d" "w \<in> set (db_operations d)"
    "ow_run_id w = rid" "ow_state w = OP_IN_PROGRESS"
  shows "p = Revising \<and> ow_kind w = FEEDBACK \<and> operations_of rid d = [w]
     \<or> p = Retrying \<and> ow_kind w = RETRY \<and> (\<exists>v. operations_of rid d = [v, w]
         \<and> operation_key v = first_failure \<and> ow_id v \<noteq> ow_id w)"
proof -
  have mem: "w \<in> set (operations_of rid d)"
    using assms(3,4) by (simp add: set_operations_of)
  have dist: "distinct (map ow_id (operations_of rid d))"
    using assms(2) by (simp add: ids_ok_def operations_of_def distinct_map_filter)
  have "map operation_key (operations_of rid d) \<in> phase_operations p"
    by (rule in_phase_operations[OF assms(1)])
  with mem dist assms(5) show ?thesis
    by (cases p) (auto simp: operation_key_def first_failure_def Cons_eq_map_conv
        eq_commute[of _ "map _ _"])
qed

lemma fail_revision_advances:
  assumes "in_phase p (view_run rid d)" "ids_ok d" "in_progress_operation rid oid kind d"
    and "fail_revision_operation rid oid CONNECTION_BEFORE_ACCEPTANCE (failure_action kind) t d
           = (res, d')"
  shows "d' = d \<or> p = Revising \<and> advances rid {Retryable} d d'
     \<or> p = Retrying \<and> advances rid {Exhausted} d d'"
proof -
  define cond where "cond w \<longleftrightarrow> ow_id w = oid \<and> ow_run_id w = rid \<and> ow_state w = OP_IN_PROGRESS"
    for w :: operation_row
  define f where "f w = (if cond w
    then failed_operation CONNECTION_BEFORE_ACCEPTANCE (failure_action kind) t w else w)" for w
  define st where "st = (if failure_action kind \<in> retryable_actions then FAILED_RETRYABLE else FAILED_FINAL)"
  from fail_revision_effect[OF assms(4)] consider "d' = d"
    | "length (filter cond (db_operations d)) = 1"
      "d' = d\<lparr>db_operations := map f (db_operations d),
         db_runs := (case db_runs d rid of None \<Rightarrow> db_runs d
           | Some r \<Rightarrow> (db_runs d)(rid \<mapsto> set_status st t r))\<rparr>"
    unfolding cond_def f_def st_def by blast
  then show ?thesis
  proof cases
    case 2
    then obtain w where w: "w \<in> set (db_operations d)" "cond w"
      by (metis filter_empty_conv length_0_conv zero_neq_one)
    have f_run: "ow_run_id (f v) = ow_run_id v" and f_id: "ow_id (f v) = ow_id v" for v
      by (simp_all add: f_def failed_operation_def)
    have ops': "db_operations d' = map f (db_operations d)"
      by (simp add: 2(2))
    have other: "operations_of rid' d' = operations_of rid' d" if "rid' \<noteq> rid" for rid'
      by (rule rewritten_operations(2)[where f = f, OF f_run _ ops' that]) (auto simp: f_def cond_def)
    have own: "operations_of rid d' = map f (operations_of rid d)"
      by (rule rewritten_operations(1)[where f = f, OF f_run _ ops']) (auto simp: f_def cond_def)
    have ids: "ids_ok d'"
      using assms(2) f_id by (simp add: ids_ok_def ops' 2(2) o_def)
    have kind: "ow_kind w = kind"
      using assms(2,3) w ids_ok_unique[of d] by (auto simp: in_progress_operation_def cond_def)
    have f_w: "operation_key (f w) = (kind, if failure_action kind \<in> retryable_actions
        then OP_FAILED_RETRYABLE else OP_FAILED_FINAL, Some CONNECTION_BEFORE_ACCEPTANCE,
        Some (failure_action kind))"
      using w kind by (simp add: f_def failed_operation_def operation_key_def)
    have frame: "\<forall>rid'. rid' \<noteq> rid \<longrightarrow> view_run rid' d' = view_run rid' d"
      using other by (auto simp: view_run_def 2(2) split: option.splits)
    have fields: "db_contexts d' = db_contexts d" "db_revisions d' = db_revisions d"
      by (simp_all add: 2(2))
    from open_operation_phase[OF assms(1,2) w(1)] w(2) kind consider
      "p = Revising" "kind = FEEDBACK" "operations_of rid d = [w]"
      | v where "p = Retrying" "kind = RETRY" "operations_of rid d = [v, w]"
        "operation_key v = first_failure" "ow_id v \<noteq> ow_id w"
      by (auto simp: cond_def)
    then show ?thesis
    proof cases
      case 1
      have "advances rid {Retryable} d d'"
        using assms(1) 1 ids frame fields own f_w 2(2)
        by (auto simp: advance_simps failure_action_def retryable_actions_def first_failure_def st_def
            operation_key_def split: option.splits)
      with 1 show ?thesis by simp
    next
      case 2
      have "f v = v"
        using 2 w(2) by (simp add: f_def cond_def)
      then have "advances rid {Exhausted} d d'"
        using assms(1) 2 ids frame fields own f_w \<open>d' = _\<close>
        by (auto simp: advance_simps failure_action_def retryable_actions_def first_failure_def st_def
            operation_key_def split: option.splits)
      with 2 show ?thesis by simp
    qed
  qed simp
qed

lemma claim_retry_advances:
  assumes "in_phase p (view_run rid d)" "ids_ok d"
    and "claim_retry_operation rid key fp t d = (res, d')"
  shows "d' = d \<or> p = Retryable \<and> advances rid {Retrying} d d'"
proof -
  from claim_retry_effect[OF assms(3)] consider "d' = d"
    | r w v where "db_runs d rid = Some r" "rr_status r = FAILED_RETRYABLE"
      "select_last_operation
         (\<lambda>w. is_operation rid FEEDBACK w \<and> ow_state w = OP_FAILED_RETRYABLE) d = Some v"
      "w = retry_operation_row (db_operation_seq d + 1) rid key fp v t"
      "d' = d\<lparr>db_operations := db_operations d @ [w], db_operation_seq := db_operation_seq d + 1,
         db_contexts := (case db_contexts d rid of None \<Rightarrow> db_contexts d
           | Some c \<Rightarrow> (db_contexts d)(rid \<mapsto>
               c\<lparr>cx_technical_attempt_count := cx_technical_attempt_count c + 1\<rparr>)),
         db_runs := (db_runs d)(rid \<mapsto> set_status IN_PROGRESS t r)\<rparr>"
    by blast
  then show ?thesis
  proof cases
    case 2
    then have p: "p = Retryable"
      using in_phase_run[OF assms(1)] by (simp add: phase_status_cases)
    have own: "map operation_key (operations_of rid d) = [first_failure]"
      using in_phase_operations[OF assms(1)] p by simp
    have "v \<in> set (operations_of rid d)"
      using select_last_operation_Some[OF 2(3)] by (simp add: set_operations_of is_operation_def)
    with own have v: "operations_of rid d = [v]" "operation_key v = first_failure"
      by (auto simp: Cons_eq_map_conv eq_commute[of _ "map _ _"])
    have w: "ow_id w = db_operation_seq d + 1" "ow_run_id w = rid"
      "operation_key w = (RETRY, OP_IN_PROGRESS, Some CONNECTION_BEFORE_ACCEPTANCE, Some RETRY_ONCE)"
      using v(2) by (simp_all add: 2(4) operation_row_defs operation_key_def first_failure_def)
    have ids: "ids_ok d'"
      using ids_ok_append[OF assms(2) w(1)] by (simp add: 2(5) ids_ok_def)
    have ops: "operations_of rid' d' = operations_of rid' d @ (if rid' = rid then [w] else [])"
      for rid' by (simp add: 2(5) w operations_of_def)
    obtain c where c: "db_contexts d rid = Some c"
      using in_phase_context[OF assms(1)] p by (auto simp: view_simps)
    have fields: "db_contexts d' = (db_contexts d)(rid \<mapsto>
        c\<lparr>cx_technical_attempt_count := cx_technical_attempt_count c + 1\<rparr>)"
      "db_runs d' = (db_runs d)(rid \<mapsto> set_status IN_PROGRESS t r)"
      "db_revisions d' = db_revisions d"
      by (simp_all add: 2(5) c)
    have frame: "\<forall>rid'. rid' \<noteq> rid \<longrightarrow> view_run rid' d' = view_run rid' d"
      by (simp add: view_run_def fields ops)
    have "in_phase Retrying (view_run rid d')"
      using in_phase_stage[OF assms(1) c] in_phase_revision[OF assms(1)] p v w
      by (auto simp: in_phase_def view_simps fields ops context_stage_def has_revision_def
          retries_def set_status_def first_failure_def)
    moreover have "view_extends (view_run rid d) (view_run rid d')"
      by (simp add: view_extends_def view_simps fields c context_extends_def)
    ultimately have "advances rid {Retrying} d d'"
      using ids frame by (simp add: advances_def)
    with p show ?thesis by simp
  qed simp
qed

lemma complete_revision_advances:
  assumes "in_phase p (view_run rid d)" "ids_ok d"
    and "complete_revision rid oid v response d = (res, d')"
  shows "d' = d \<or> p \<in> {Revising, Retrying} \<and> advances rid {Revised, Revision_Rejected} d d'"
proof -
  define t where "t = re_revised_at v"
  define f where "f k w = (if closed_by rid oid k w then succeed_operation response t w else w)"
    for k :: operation_kind and w :: operation_row
  from complete_revision_effect[OF assms(3)] consider "d' = d"
    | w c where "select_operation (\<lambda>w. ow_id w = oid \<and> ow_run_id w = rid) d = Some w"
      "ow_state w = OP_IN_PROGRESS" "db_revisions d rid = None"
      "db_contexts d rid = Some c" "cx_human_revision_count c = 0"
      "d' = d\<lparr>db_revisions := (db_revisions d)(rid \<mapsto> revision_row_of v),
         db_contexts := (db_contexts d)(rid \<mapsto> c\<lparr>cx_human_revision_count := 1\<rparr>),
         db_operations := map (f (ow_kind w)) (db_operations d),
         db_runs := (case db_runs d rid of None \<Rightarrow> db_runs d
           | Some r \<Rightarrow> (db_runs d)(rid \<mapsto>
               set_status (critique_target_status (re_critique v)) t r))\<rparr>"
    unfolding f_def t_def by blast
  then show ?thesis
  proof cases
    case 2
    have w: "w \<in> set (db_operations d)" "ow_id w = oid" "ow_run_id w = rid"
      using select_operation_Some[OF 2(1)] by simp_all
    have f_run: "ow_run_id (f k u) = ow_run_id u" and f_id: "ow_id (f k u) = ow_id u" for k u
      by (simp_all add: f_def succeed_operation_def)
    have f_other: "f (ow_kind w) u = u" if "u \<in> set (db_operations d)" "ow_run_id u \<noteq> rid" for u
      using that ids_ok_unique[OF assms(2) that(1) w(1)] w
      by (auto simp: f_def closed_by_def is_operation_def)
    have ops': "db_operations d' = map (f (ow_kind w)) (db_operations d)"
      by (simp add: 2(6))
    have other: "operations_of rid' d' = operations_of rid' d" if "rid' \<noteq> rid" for rid'
      by (rule rewritten_operations(2)[where f = "f (ow_kind w)", OF f_run f_other ops' that])
    have own: "operations_of rid d' = map (f (ow_kind w)) (operations_of rid d)"
      by (rule rewritten_operations(1)[where f = "f (ow_kind w)", OF f_run f_other ops'])
    have ids: "ids_ok d'"
      using assms(2) f_id by (simp add: ids_ok_def ops' 2(6) o_def)
    have frame: "\<forall>rid'. rid' \<noteq> rid \<longrightarrow> view_run rid' d' = view_run rid' d"
      using other by (auto simp: view_run_def 2(6) split: option.splits)
    have fields: "db_contexts d' = (db_contexts d)(rid \<mapsto> c\<lparr>cx_human_revision_count := 1\<rparr>)"
      "db_revisions d' = (db_revisions d)(rid \<mapsto> revision_row_of v)"
      by (simp_all add: 2(6))
    have f_w: "f (ow_kind w) w = succeed_operation response t w"
      using 2(2) w by (simp add: f_def closed_by_def)
    have f_first: "f RETRY u = succeed_operation response t u"
      if "operation_key u = first_failure" "u \<in> set (operations_of rid d)" for u
      using that by (simp add: f_def closed_by_def is_operation_def set_operations_of
          operation_key_def first_failure_def)
    have "p \<in> {Revising, Retrying} \<and> map operation_key (operations_of rid d') \<in> phase_operations Revised
      \<and> retries (map operation_key (operations_of rid d'))
         = retries (map operation_key (operations_of rid d))"
      using open_operation_phase[OF assms(1,2) w(1) w(3) 2(2)]
    proof (elim disjE conjE exE)
      assume "p = Revising" "ow_kind w = FEEDBACK" "operations_of rid d = [w]"
      then show ?thesis
        using f_w in_phase_operations[OF assms(1)]
        by (simp add: own succeed_operation_def operation_key_def retries_def)
    next
      fix u
      assume "p = Retrying" "ow_kind w = RETRY" "operations_of rid d = [u, w]"
        "operation_key u = first_failure"
      then show ?thesis
        using f_w f_first[of u] in_phase_operations[OF assms(1)]
        by (simp add: own succeed_operation_def operation_key_def retries_def first_failure_def)
    qed
    then have p: "p \<in> {Revising, Retrying}" and new_ops:
      "map operation_key (operations_of rid d') \<in> phase_operations Revised"
      "retries (map operation_key (operations_of rid d'))
         = retries (map operation_key (operations_of rid d))"
      by simp_all
    obtain r where r: "db_runs d rid = Some r"
      using in_phase_status[OF assms(1)] p by (auto simp: view_simps)
    define q where "q = (if critique_target_status (re_critique v) = READY then Revised
      else Revision_Rejected)"
    have run': "db_runs d' rid = Some (set_status (critique_target_status (re_critique v)) t r)"
      by (simp add: 2(6) r)
    have q: "q \<in> {Revised, Revision_Rejected}"
      "phase_status q = Some (critique_target_status (re_critique v))"
      using critique_target_cases[of "re_critique v"] by (auto simp: q_def)
    then have table: "phase_operations q = phase_operations Revised" "phase_stage q = 5"
      "has_revision q" "q \<noteq> Absent"
      by (auto simp: has_revision_def)
    have "phase_stage p = 5"
      using p by auto
    then have "in_phase q (view_run rid d')"
      using in_phase_stage[OF assms(1) 2(4)] new_ops q(2) table
      by (simp add: in_phase_def view_simps fields run' context_stage_def set_status_def)
    moreover have "view_extends (view_run rid d) (view_run rid d')"
      using 2(3) by (simp add: view_extends_def view_simps fields 2(4) context_extends_def)
    ultimately have "advances rid {Revised, Revision_Rejected} d d'"
      using ids frame q(1) by (auto simp: advances_def)
    with p show ?thesis by simp
  qed simp
qed

end
