(* ===== verification/Lifecycle_Demo.thy ===== *)
theory Lifecycle_Demo
  imports Lifecycle
begin

section \<open>One run from its creation to its revision\<close>

text \<open>
  A concrete history of the Orbit AI run, evaluated step by step: created, analysed, confirmed,
  drafted, composed, reviewed, revised once without success, retried and revised. It shows that
  the phases of \<open>Lifecycle\<close> are inhabited, and its states are the inputs of the witnesses.
\<close>

definition demo_source :: asset_ref where
  "demo_source = \<lparr>as_asset_id = 7, as_kind = SOURCE_AD, as_media_type = lit ''image/png'',
     as_sha256 = replicate 64 97, as_provenance_ref = lit ''fixture:orbit'',
     as_rights_ref = lit ''rights:orbit'', as_expires_at = None\<rparr>"

definition demo_request :: run_create where
  "demo_request = \<lparr>rc_direction = CHINA_TO_UK, rc_execution_mode = FIXTURE,
     rc_source_asset = demo_source, rc_brand_lock = orbit_lock,
     rc_product_category = AI_SOFTWARE, rc_creative_format = STATIC_AD\<rparr>"

definition demo_analysis :: ad_analysis where
  "demo_analysis = \<lparr>an_source_asset = demo_source, an_detected_locale = ZH_CN,
     an_brand_lock = orbit_lock, an_hypotheses = [], an_warnings = []\<rparr>"

definition demo_brief :: creative_brief where
  "demo_brief = \<lparr>br_direction = CHINA_TO_UK, br_target_locale = EN_GB, br_brand_lock = orbit_lock,
     br_hypotheses = [], br_narrative = lit ''Calm'', br_use_scenario = lit ''Desk'',
     br_trust_information = lit ''Clear''\<rparr>"

definition demo_copy :: ad_copy where
  "demo_copy = \<lparr>cp_locale = EN_GB, cp_headline = lit ''Orbit AI'', cp_body = lit ''Body'',
     cp_cta_label = lit ''Start'', cp_cta_action_meaning = lit ''Start a fixture demo''\<rparr>"

definition demo_layer :: "layer_kind \<Rightarrow> uuid option \<Rightarrow> composition_layer" where
  "demo_layer kind source = \<lparr>ly_kind = kind, ly_source_asset_id = source,
     ly_rgba_sha256 = replicate 64 97, ly_bounds = (0, 0, 1600, 900), ly_width = 1600,
     ly_height = 900\<rparr>"

definition demo_composition :: "uuid \<Rightarrow> composition_generated" where
  "demo_composition artifact = \<lparr>co_run_id = 1, co_status = RUN_IN_PROGRESS,
     co_execution_mode = FIXTURE, co_width = 1600, co_height = 900,
     co_media_type = lit ''image/png'', co_rendered_sha256 = replicate 64 97,
     co_artifact_id = artifact, co_layers = [demo_layer LAYER_BACKGROUND None,
       demo_layer LAYER_PRODUCT_UI (Some 0xa2222222222242228222222222222222),
       demo_layer LAYER_LOGO (Some 0xa1111111111141118111111111111111),
       demo_layer LAYER_HEADLINE None, demo_layer LAYER_BODY None, demo_layer LAYER_CTA None,
       demo_layer LAYER_DISCLOSURE None],
     co_disclosure = DISCLOSURE, co_generated_at = utc 5\<rparr>"

definition demo_report :: "int \<Rightarrow> critique_report" where
  "demo_report t = \<lparr>cr_status = PASS, cr_issues = [], cr_warnings = [],
     cr_brand_lock_preserved = True, cr_requires_human_review = False, cr_reviewed_at = utc t\<rparr>"

definition demo_facts :: "pystr list" where
  "demo_facts = bl_verified_product_facts orbit_lock"

text \<open>The database that holds this run alone.\<close>

definition demo_db ::
  "project_run_status \<Rightarrow> int \<Rightarrow> context_row \<Rightarrow> revision_row option \<Rightarrow> operation_row list \<Rightarrow> db" where
  "demo_db st t c revision ops = \<lparr>db_runs = [1 \<mapsto> \<lparr>rr_direction = CHINA_TO_UK, rr_status = st,
       rr_warning_codes = [], rr_created_at = utc 0, rr_updated_at = utc t\<rparr>],
     db_contexts = [1 \<mapsto> c],
     db_revisions = (case revision of None \<Rightarrow> Map.empty | Some w \<Rightarrow> [1 \<mapsto> w]),
     db_operations = ops, db_operation_seq = int (length ops)\<rparr>"

definition demo_context :: "nat \<Rightarrow> context_row" where
  "demo_context n = \<lparr>cx_request = demo_request,
     cx_analysis = (if 1 \<le> n then Some demo_analysis else None), cx_repair_attempted = 0,
     cx_confirmed_brand_lock = (if 2 \<le> n then Some orbit_lock else None),
     cx_brand_lock_confirmed_at = (if 2 \<le> n then Some (utc 3) else None),
     cx_creative_brief = (if 3 \<le> n then Some demo_brief else None),
     cx_ad_copy = (if 3 \<le> n then Some demo_copy else None),
     cx_draft_fact_references = (if 3 \<le> n then Some demo_facts else None),
     cx_draft_rule_ids = (if 3 \<le> n then Some [] else None),
     cx_draft_generated_at = (if 3 \<le> n then Some (utc 4) else None),
     cx_composition = (if 4 \<le> n then Some (demo_composition 11) else None),
     cx_critique = (if 5 \<le> n then Some (demo_report 6) else None),
     cx_critic_reviewed_at = (if 5 \<le> n then Some (utc 6) else None),
     cx_initial_generation_count = (if 4 \<le> n then 1 else 0),
     cx_human_revision_count = (if 7 \<le> n then 1 else 0),
     cx_technical_attempt_count = (if 6 \<le> n then 1 else 0)\<rparr>"

definition demo_feedback :: operation_row where
  "demo_feedback =
     feedback_operation_row 1 1 (lit ''k1'') (lit ''f1'') [SHORTEN_BODY] (lit ''d'') (utc 7)"

definition demo_failed_feedback :: operation_row where
  "demo_failed_feedback =
     failed_operation CONNECTION_BEFORE_ACCEPTANCE RETRY_ONCE (utc 8) demo_feedback"

definition demo_retry :: operation_row where
  "demo_retry = retry_operation_row 2 1 (lit ''k2'') (lit ''f2'') demo_failed_feedback (utc 9)"

definition demo_sys :: "project_run_status \<Rightarrow> int \<Rightarrow> nat \<Rightarrow> operation_row list \<Rightarrow> sys" where
  "demo_sys st t n ops = \<lparr>sys_db = demo_db st t (demo_context n) None ops, sys_analyzing = {}\<rparr>"

lemmas demo_defs = demo_db_def demo_context_def

lemma demo_get_run:
  assumes "0 \<le> t"
  shows "get_run 1 (demo_db st t (demo_context n) revision ops) = Inr \<lparr>pr_id = 1, pr_direction = CHINA_TO_UK,
     pr_status = st, pr_warning_codes = [],
     pr_initial_generation_count = cx_initial_generation_count (demo_context n),
     pr_human_revision_count = cx_human_revision_count (demo_context n),
     pr_technical_attempt_count = cx_technical_attempt_count (demo_context n),
     pr_created_at = utc 0, pr_updated_at = utc t\<rparr>"
  using assms
  by (simp add: get_run_def select_run_def demo_defs validate_project_run_Inr_iff valid_run_def)

lemma demo_created:
  "\<exists>run. new_project_run 1 (utc 0) CHINA_TO_UK = Inr run
     \<and> create_run run (Some demo_request) empty_db = (Inr run, demo_db PENDING 0 (demo_context 0) None [])"
  by (simp add: new_project_run_Inr create_run_def catch_def method_simps insert_run_def
      insert_context_def empty_db_def demo_defs demo_request_def new_context_def)

lemma demo_claimed:
  "\<exists>run. claim_analysis 1 (utc 1) (demo_db PENDING 0 (demo_context 0) None [])
     = (Inr (Some run), demo_db IN_PROGRESS 1 (demo_context 0) None [])"
proof -
  have "update_runs 1 (\<lambda>r. rr_status r = PENDING) (set_status IN_PROGRESS (utc 1))
      (demo_db PENDING 0 (demo_context 0) None [])
    = (Inr 1, demo_db IN_PROGRESS 1 (demo_context 0) None [])"
    by (simp add: update_runs_def demo_db_def set_status_def)
  then show ?thesis
    using demo_get_run[of 1 IN_PROGRESS 0 None "[]"]
    by (simp add: claim_analysis_def bind_def connect_def)
qed

lemma demo_analyzed:
  "\<exists>run. complete_analysis 1 demo_analysis False (utc 2) (demo_db IN_PROGRESS 1 (demo_context 0) None [])
     = (Inr run, demo_db AWAITING_BRAND_LOCK 2 (demo_context 1) None [])"
  using demo_get_run[of 1 IN_PROGRESS 0 None "[]"]
  by (simp add: complete_analysis_def get_request_def get_context_def with_status_def revalidate_cases
      valid_run_def method_simps demo_defs demo_analysis_def demo_request_def set_status_def)

lemma demo_confirmed:
  "\<exists>k. confirm_brand_lock 1 orbit_lock None (utc 3)
       (demo_db AWAITING_BRAND_LOCK 2 (demo_context 1) None [])
     = (Inr k, demo_db IN_PROGRESS 3 (demo_context 2) None [])"
  by (simp add: confirm_brand_lock_def confirmation_record_def Let_def method_simps demo_defs
      demo_analysis_def set_status_def validate_brand_lock_confirmation_def locked_fields_equal_def)

lemma demo_drafted:
  "\<exists>k. save_draft 1 demo_brief demo_copy demo_facts [] None (utc 4)
       (demo_db IN_PROGRESS 3 (demo_context 2) None [])
     = (Inr k, demo_db IN_PROGRESS 3 (demo_context 3) None [])"
  by (simp add: save_draft_def context_draft_def draft_record_of_def Let_def method_simps demo_defs
      demo_brief_def demo_facts_def orbit_lock_def)

lemma demo_layer_sources:
  "layer_sources (demo_composition a) LAYER_LOGO = Some 0xa1111111111141118111111111111111"
  "layer_sources (demo_composition a) LAYER_PRODUCT_UI = Some 0xa2222222222242228222222222222222"
  by (simp_all add: layer_sources_def demo_composition_def demo_layer_def dict_of_def)

lemma demo_protected: "protected_layers_match orbit_lock (demo_composition a)"
  by (simp add: protected_layers_match_def demo_layer_sources) (simp add: orbit_lock_def)

lemma demo_composed:
  "save_composition 1 (demo_composition 11) (demo_db IN_PROGRESS 3 (demo_context 3) None [])
     = (Inr (demo_composition 11), demo_db IN_PROGRESS 3 (demo_context 4) None [])"
  using demo_protected
  by (simp add: save_composition_def method_simps demo_defs)
    (simp add: demo_composition_def)

lemma demo_reviewed:
  "\<exists>k. save_critique 1 (demo_report 6) (demo_db IN_PROGRESS 3 (demo_context 4) None [])
     = (Inr k, demo_db READY 6 (demo_context 5) None [])"
  by (simp add: save_critique_def critique_record_of_def method_simps demo_defs demo_report_def
      set_status_def critique_target_status_def)

lemma demo_feedback_claimed:
  "\<exists>k. claim_feedback_operation 1 (lit ''k1'') (lit ''f1'') [SHORTEN_BODY] (lit ''d'') (utc 7)
       (demo_db READY 6 (demo_context 5) None [])
     = (Inr k, demo_db IN_PROGRESS 7 (demo_context 5) None [demo_feedback])"
  by (simp add: claim_feedback_operation_def select_operation_def insert_operation_def
      fetch_operation_def method_simps demo_db_def demo_feedback_def feedback_operation_row_def
      set_status_def)

lemma demo_feedback_failed:
  "\<exists>k. fail_revision_operation 1 1 CONNECTION_BEFORE_ACCEPTANCE RETRY_ONCE (utc 8)
       (demo_db IN_PROGRESS 7 (demo_context 5) None [demo_feedback])
     = (Inr k, demo_db FAILED_RETRYABLE 8 (demo_context 5) None [demo_failed_feedback])"
  by (simp add: fail_revision_operation_def select_operation_def update_operations_def
      fetch_operation_def method_simps demo_db_def demo_failed_feedback_def demo_feedback_def
      feedback_operation_row_def failed_operation_def set_status_def retryable_actions_def)

lemma demo_retry_claimed:
  "\<exists>k. claim_retry_operation 1 (lit ''k2'') (lit ''f2'') (utc 9)
       (demo_db FAILED_RETRYABLE 8 (demo_context 5) None [demo_failed_feedback])
     = (Inr k, demo_db IN_PROGRESS 9 (demo_context 6) None [demo_failed_feedback, demo_retry])"
  by (simp add: claim_retry_operation_def select_operation_def select_last_operation_def
      insert_operation_def same_operation_key_def fetch_operation_def method_simps demo_defs
      demo_failed_feedback_def demo_feedback_def feedback_operation_row_def failed_operation_def
      demo_retry_def retry_operation_row_def operation_record_of_def is_operation_def
      set_status_def retryable_actions_def)

subsection \<open>The states are reachable\<close>

lemma demo_pending: "step init_sys 1 (demo_sys PENDING 0 0 [])"
  using demo_created step.Create[of 1 "utc 0" demo_request _ empty_db _ _ "{}"]
  by (auto simp: init_sys_def demo_sys_def demo_request_def)

definition demo_analyzing :: sys where
  "demo_analyzing = \<lparr>sys_db = demo_db IN_PROGRESS 1 (demo_context 0) None [], sys_analyzing = {1}\<rparr>"

lemma demo_analyzing_step: "step (demo_sys PENDING 0 0 []) 1 demo_analyzing"
  using demo_claimed step.Claim_Analysis[of 1 "utc 1" _ _ _ _ "{}"]
  by (fastforce simp: demo_sys_def demo_analyzing_def)

lemma demo_awaiting: "step demo_analyzing 1 (demo_sys AWAITING_BRAND_LOCK 2 1 [])"
  using demo_analyzed step.Complete_Analysis[of 1 "{1}" demo_analysis False "utc 2"]
  by (fastforce simp: demo_sys_def demo_analyzing_def)

lemma demo_confirmed_step:
  "step (demo_sys AWAITING_BRAND_LOCK 2 1 []) 1 (demo_sys IN_PROGRESS 3 2 [])"
  using demo_confirmed step.Confirm[of 1 orbit_lock None "utc 3"]
  by (fastforce simp: demo_sys_def)

lemma demo_drafted_step: "step (demo_sys IN_PROGRESS 3 2 []) 1 (demo_sys IN_PROGRESS 3 3 [])"
  using demo_drafted step.Save_Draft[of 1 demo_brief demo_copy demo_facts "[]" None "utc 4"]
  by (fastforce simp: demo_sys_def)

lemma demo_composed_step: "step (demo_sys IN_PROGRESS 3 3 []) 1 (demo_sys IN_PROGRESS 3 4 [])"
  using demo_composed step.Save_Composition[of 1 "demo_composition 11"]
  by (fastforce simp: demo_sys_def)

lemma demo_reviewed_step: "step (demo_sys IN_PROGRESS 3 4 []) 1 (demo_sys READY 6 5 [])"
  using demo_reviewed step.Save_Critique[of 1 "demo_report 6"]
  by (fastforce simp: demo_sys_def)

lemma demo_revising_step:
  "step (demo_sys READY 6 5 []) 1 (demo_sys IN_PROGRESS 7 5 [demo_feedback])"
  using demo_feedback_claimed
    step.Claim_Feedback[of 1 "lit ''k1''" "lit ''f1''" "[SHORTEN_BODY]" "lit ''d''" "utc 7"]
  by (fastforce simp: demo_sys_def)

lemma demo_retryable_step:
  "step (demo_sys IN_PROGRESS 7 5 [demo_feedback]) 1
     (demo_sys FAILED_RETRYABLE 8 5 [demo_failed_feedback])"
proof -
  have "in_progress_operation 1 1 FEEDBACK (demo_db IN_PROGRESS 7 (demo_context 5) None [demo_feedback])"
    by (simp add: in_progress_operation_def demo_db_def demo_feedback_def feedback_operation_row_def)
  then show ?thesis
    using demo_feedback_failed step.Fail_Revision[of 1 1 FEEDBACK _ "utc 8"]
    by (fastforce simp: demo_sys_def failure_action_def)
qed

lemma demo_retrying_step:
  "step (demo_sys FAILED_RETRYABLE 8 5 [demo_failed_feedback]) 1
     (demo_sys IN_PROGRESS 9 6 [demo_failed_feedback, demo_retry])"
  using demo_retry_claimed step.Claim_Retry[of 1 "lit ''k2''" "lit ''f2''" "utc 9"]
  by (fastforce simp: demo_sys_def)

lemmas demo_steps = demo_pending demo_analyzing_step demo_awaiting demo_confirmed_step
  demo_drafted_step demo_composed_step demo_reviewed_step demo_revising_step demo_retryable_step
  demo_retrying_step

lemma demo_reachable:
  "reachable (demo_sys IN_PROGRESS 3 4 [])" "reachable (demo_sys READY 6 5 [])"
  "reachable (demo_sys IN_PROGRESS 9 6 [demo_failed_feedback, demo_retry])"
proof -
  show composed: "reachable (demo_sys IN_PROGRESS 3 4 [])"
    using demo_steps(1-6) reachable.intros by meson
  show ready: "reachable (demo_sys READY 6 5 [])"
    using composed demo_steps(7) reachable.step by blast
  show "reachable (demo_sys IN_PROGRESS 9 6 [demo_failed_feedback, demo_retry])"
    using ready demo_steps(8-10) reachable.step by meson
qed

end
