(* ===== verification/Lifecycle_Properties.thy ===== *)
theory Lifecycle_Properties
  imports Lifecycle_Demo
begin

section \<open>Properties of the life cycle\<close>

text \<open>
  The phase graph is an abstraction of the repository: in every reachable state each run is in
  exactly one phase (\<open>phase_of\<close> computes it) and every step leaves it there or moves it along an
  edge. What follows from the graph alone is proved once, in the locale \<open>ranked_machine\<close>, and
  transferred by its interpretation on the repository's steps.
\<close>

subsection \<open>Machines whose phases only go up\<close>

fun execution :: "('s \<Rightarrow> 'i \<Rightarrow> 's \<Rightarrow> bool) \<Rightarrow> 's \<Rightarrow> ('i \<times> 's) list \<Rightarrow> bool" where
  "execution stp s [] \<longleftrightarrow> True"
| "execution stp s ((i, s') # t) \<longleftrightarrow> stp s i s' \<and> execution stp s' t"

fun final_state :: "'s \<Rightarrow> ('i \<times> 's) list \<Rightarrow> 's" where
  "final_state s [] = s"
| "final_state s ((i, s') # t) = final_state s' t"

text \<open>How often a function of the state changes its value along an execution.\<close>

fun changes :: "('s \<Rightarrow> 'p) \<Rightarrow> 's \<Rightarrow> ('i \<times> 's) list \<Rightarrow> nat" where
  "changes f s [] = 0"
| "changes f s ((i, s') # t) = (if f s' = f s then 0 else 1) + changes f s' t"

locale ranked_machine =
  fixes stp :: "'s \<Rightarrow> 'i \<Rightarrow> 's \<Rightarrow> bool"
    and inv :: "'s \<Rightarrow> bool"
    and ph :: "'i \<Rightarrow> 's \<Rightarrow> 'p"
    and edges :: "'p \<Rightarrow> 'p set"
    and rank :: "'p \<Rightarrow> nat"
  assumes inv_step: "inv s \<Longrightarrow> stp s i s' \<Longrightarrow> inv s'"
    and move: "inv s \<Longrightarrow> stp s i s' \<Longrightarrow>
      (if j = i then ph j s' \<in> insert (ph j s) (edges (ph j s)) else ph j s' = ph j s)"
    and rank_edge: "q \<in> edges p \<Longrightarrow> rank p < rank q"
begin

lemma rank_step: "inv s \<Longrightarrow> stp s i s' \<Longrightarrow>
    rank (ph j s) + (if ph j s' = ph j s then 0 else 1) \<le> rank (ph j s')"
  using move[of s i s' j] rank_edge[of "ph j s'" "ph j s"] by (auto split: if_splits)

lemma inv_execution: "inv s \<Longrightarrow> execution stp s t \<Longrightarrow> inv (final_state s t)"
  by (induction t arbitrary: s) (auto, metis inv_step)

lemma changes_bounded:
  "inv s \<Longrightarrow> execution stp s t \<Longrightarrow>
     rank (ph j s) + changes (ph j) s t \<le> rank (ph j (final_state s t))"
proof (induction t arbitrary: s)
  case Nil
  then show ?case by simp
next
  case (Cons a t)
  obtain i s' where a: "a = (i, s')"
    by (cases a)
  with Cons.prems have "stp s i s'" "execution stp s' t"
    by simp_all
  with Cons.IH[of s'] Cons.prems(1) rank_step[of s i s' j] inv_step[of s i s'] show ?case
    by (simp add: a split: if_splits)
qed

text \<open>Once a phase has been left it is never entered again.\<close>

lemma rank_execution:
  "inv s \<Longrightarrow> execution stp s t \<Longrightarrow> rank (ph j s) \<le> rank (ph j (final_state s t))"
  using changes_bounded[of s t j] by simp

lemma stays_in_sink:
  "inv s \<Longrightarrow> execution stp s t \<Longrightarrow> edges (ph j s) = {} \<Longrightarrow> ph j (final_state s t) = ph j s"
proof (induction t arbitrary: s)
  case Nil
  then show ?case by simp
next
  case (Cons a t)
  obtain i s' where a: "a = (i, s')"
    by (cases a)
  with Cons.prems have st: "stp s i s'" "execution stp s' t"
    by simp_all
  have "ph j s' = ph j s"
    using move[OF Cons.prems(1) st(1), of j] Cons.prems(3) by (auto split: if_splits)
  with Cons.IH[of s'] Cons.prems st inv_step[of s i s'] show ?case
    by (simp add: a)
qed

end

subsection \<open>The phase of a run\<close>

definition all_phases :: "phase list" where
  "all_phases = [Absent, Pending, Analyzing, Blocked, Failed, Awaiting, Confirmed, Drafted,
     Composed, Reviewed, Rejected, Revising, Retryable, Retrying, Revised, Revision_Rejected,
     Exhausted]"

definition phase_of :: "run_view \<Rightarrow> phase" where
  "phase_of v = (case List.find (\<lambda>p. in_phase p v) all_phases of Some p \<Rightarrow> p | None \<Rightarrow> Absent)"

lemma all_phases_complete: "p \<in> set all_phases"
  by (cases p) (simp_all add: all_phases_def)

lemma context_stage_unique:
  "context_stage m c \<Longrightarrow> context_stage n c \<Longrightarrow> m \<le> 5 \<Longrightarrow> n \<le> 5 \<Longrightarrow> m = n"
  by (auto simp: context_stage_def le_less_Suc_eq numeral_eq_Suc le_Suc_eq)

lemma phase_stage_le: "phase_stage p \<le> 5"
  by (cases p) simp_all

lemma in_phase_unique:
  assumes "in_phase p v" "in_phase q v"
  shows "p = q"
proof (cases "vw_context v")
  case None
  then show ?thesis
    using assms by (simp add: in_phase_def)
next
  case (Some c)
  have "phase_stage p = phase_stage q"
    using assms Some phase_stage_le by (auto simp: in_phase_def intro: context_stage_unique)
  moreover have "phase_status p = phase_status q" "has_revision p = has_revision q"
    "vw_operations v \<in> phase_operations p" "vw_operations v \<in> phase_operations q"
    using assms by (simp_all add: in_phase_def)
  ultimately show ?thesis
    by (cases p; cases q; simp add: has_revision_def; fastforce)
qed

lemma phase_of_in_phase: "in_phase p v \<Longrightarrow> phase_of v = p"
proof -
  assume p: "in_phase p v"
  then obtain q where "List.find (\<lambda>p. in_phase p v) all_phases = Some q"
    using all_phases_complete[of p] by (metis find_None_iff not_Some_eq)
  moreover from this have "in_phase q v"
    by (auto simp: find_Some_iff)
  ultimately show ?thesis
    using in_phase_unique[OF p] by (simp add: phase_of_def)
qed

subsection \<open>The invariant and the simulation\<close>

definition lifecycle_inv :: "sys \<Rightarrow> bool" where
  "lifecycle_inv s \<longleftrightarrow> ids_ok (sys_db s)
     \<and> (\<forall>rid. \<exists>p. in_phase p (view_run rid (sys_db s)))
     \<and> (\<forall>rid \<in> sys_analyzing s. in_phase Analyzing (view_run rid (sys_db s)))"

lemma advances_mono: "advances rid ps d d' \<Longrightarrow> ps \<subseteq> qs \<Longrightarrow> advances rid qs d d'"
  by (auto simp: advances_def)

lemma step_advances:
  assumes "step s rid s'" "lifecycle_inv s" "in_phase p (view_run rid (sys_db s))"
  shows "sys_db s' = sys_db s \<and> sys_analyzing s' \<subseteq> sys_analyzing s
    \<or> advances rid (next_phases p) (sys_db s) (sys_db s')
      \<and> sys_analyzing s' \<subseteq> insert rid (sys_analyzing s)
      \<and> (rid \<in> sys_analyzing s' \<longrightarrow> p = Pending)"
proof -
  have ids: "ids_ok (sys_db s)" and claimed: "rid \<in> sys_analyzing s \<Longrightarrow> p = Analyzing"
    using assms(2,3) in_phase_unique by (auto simp: lifecycle_inv_def)
  from assms(1) show ?thesis
  proof cases
    case (Create now req run d res d' A)
    then have "pr_id run = rid" "pr_status run = PENDING"
      by (auto simp: new_project_run_def validate_project_run_Inr_iff)
    with Create create_advances[of p run d req res d'] assms(3) ids claimed show ?thesis
      by (auto elim!: advances_mono)
  next
    case (Claim_Analysis now d res d' A' A)
    with claim_analysis_advances[of p rid d now res d'] assms(3) ids claimed show ?thesis
      by (auto elim!: advances_mono)
  next
    case (Complete_Analysis A a repair now d res d')
    with complete_analysis_advances[of rid d a repair now res d'] assms(3) ids claimed show ?thesis
      by (auto elim!: advances_mono)
  next
    case (Record_Failure A st code now d res d')
    with record_failure_advances[of rid d st code now res d'] assms(3) ids claimed show ?thesis
      by (auto elim!: advances_mono)
  next
    case (Abandon_Analysis A d)
    then show ?thesis by auto
  next
    case (Confirm lock at now d res d' A)
    with confirm_advances[of p rid d lock at now res d'] assms(3) ids claimed show ?thesis
      by (auto elim!: advances_mono)
  next
    case (Save_Draft brief copy facts rules at now d res d' A)
    with save_draft_advances[of p rid d brief copy facts rules at now res d'] assms(3) ids claimed
    show ?thesis by (auto elim!: advances_mono)
  next
    case (Save_Composition composition d res d' A)
    with save_composition_advances[of p rid d composition res d'] assms(3) ids claimed show ?thesis
      by (auto elim!: advances_mono)
  next
    case (Save_Critique report d res d' A)
    with save_critique_advances[of p rid d report res d'] assms(3) ids claimed show ?thesis
      by (auto elim!: advances_mono)
  next
    case (Claim_Feedback key fp changes digest t d res d' A)
    with claim_feedback_advances[of p rid d key fp changes digest t res d'] assms(3) ids claimed
    show ?thesis by (auto elim!: advances_mono)
  next
    case (Fail_Revision oid kind d t res d' A)
    with fail_revision_advances[of p rid d oid kind t res d'] assms(3) ids claimed show ?thesis
      by (auto elim!: advances_mono)
  next
    case (Claim_Retry key fp t d res d' A)
    with claim_retry_advances[of p rid d key fp t res d'] assms(3) ids claimed show ?thesis
      by (auto elim!: advances_mono)
  next
    case (Complete_Revision oid revision response d res d' A)
    with complete_revision_advances[of p rid d oid revision response res d'] assms(3) ids claimed
    show ?thesis by (auto elim!: advances_mono)
  qed
qed

lemma in_phase_init: "in_phase Absent (view_run rid (sys_db init_sys))"
  by (simp add: in_phase_Absent view_run_def init_sys_def empty_db_def operations_of_def)

lemma lifecycle_inv_init: "lifecycle_inv init_sys"
proof -
  have "\<exists>p. in_phase p (view_run rid (sys_db init_sys))" for rid
    using in_phase_init by blast
  then show ?thesis
    by (simp add: lifecycle_inv_def) (simp add: init_sys_def ids_ok_def empty_db_def)
qed

lemma lifecycle_inv_step:
  assumes "lifecycle_inv s" "step s rid s'"
  shows "lifecycle_inv s'"
proof -
  obtain p where p: "in_phase p (view_run rid (sys_db s))"
    using assms(1) by (auto simp: lifecycle_inv_def)
  have phases: "\<exists>q. in_phase q (view_run r (sys_db s))" for r
    using assms(1) by (simp add: lifecycle_inv_def)
  from step_advances[OF assms(2,1) p] show ?thesis
  proof (elim disjE conjE)
    assume "sys_db s' = sys_db s" "sys_analyzing s' \<subseteq> sys_analyzing s"
    with assms(1) show ?thesis by (auto simp: lifecycle_inv_def)
  next
    assume adv: "advances rid (next_phases p) (sys_db s) (sys_db s')"
      and A: "sys_analyzing s' \<subseteq> insert rid (sys_analyzing s)" "rid \<in> sys_analyzing s' \<longrightarrow> p = Pending"
    obtain q where q: "q \<in> next_phases p" "in_phase q (view_run rid (sys_db s'))"
      using adv by (auto simp: advances_def)
    have other: "view_run r (sys_db s') = view_run r (sys_db s)" if "r \<noteq> rid" for r
      using adv that by (simp add: advances_def)
    have "\<exists>q. in_phase q (view_run r (sys_db s'))" for r
      using q(2) other[of r] phases[of r] by (cases "r = rid") auto
    moreover have "in_phase Analyzing (view_run r (sys_db s'))" if "r \<in> sys_analyzing s'" for r
    proof (cases "r = rid")
      case True
      with A(2) that q show ?thesis by simp
    next
      case False
      with A(1) that assms(1) show ?thesis
        by (auto simp: other lifecycle_inv_def)
    qed
    ultimately show ?thesis
      using adv by (simp add: lifecycle_inv_def advances_def)
  qed
qed

lemma reachable_inv: "reachable s \<Longrightarrow> lifecycle_inv s"
  by (induction rule: reachable.induct) (auto intro: lifecycle_inv_init lifecycle_inv_step)

definition run_phase :: "uuid \<Rightarrow> sys \<Rightarrow> phase" where
  "run_phase rid s = phase_of (view_run rid (sys_db s))"

lemma inv_run_phase: "lifecycle_inv s \<Longrightarrow> in_phase (run_phase rid s) (view_run rid (sys_db s))"
  using phase_of_in_phase by (auto simp: lifecycle_inv_def run_phase_def) metis

lemma step_run_phase:
  assumes "lifecycle_inv s" "step s rid s'"
  shows "if r = rid then run_phase r s' \<in> insert (run_phase r s) (next_phases (run_phase r s))
    else run_phase r s' = run_phase r s"
  using step_advances[OF assms(2,1) inv_run_phase[OF assms(1)]]
  by (auto simp: run_phase_def advances_def dest: phase_of_in_phase)

fun phase_rank :: "phase \<Rightarrow> nat" where
  "phase_rank Absent = 0"
| "phase_rank Pending = 1"
| "phase_rank Analyzing = 2"
| "phase_rank Awaiting = 3"
| "phase_rank Confirmed = 4"
| "phase_rank Drafted = 5"
| "phase_rank Composed = 6"
| "phase_rank Reviewed = 7"
| "phase_rank Rejected = 7"
| "phase_rank Revising = 8"
| "phase_rank Retryable = 9"
| "phase_rank Retrying = 10"
| "phase_rank _ = 11"

interpretation lifecycle: ranked_machine step lifecycle_inv run_phase next_phases phase_rank
proof
  show "lifecycle_inv s \<Longrightarrow> step s i s' \<Longrightarrow> lifecycle_inv s'" for s i s'
    by (rule lifecycle_inv_step)
  show "lifecycle_inv s \<Longrightarrow> step s i s' \<Longrightarrow>
      if j = i then run_phase j s' \<in> insert (run_phase j s) (next_phases (run_phase j s))
      else run_phase j s' = run_phase j s" for s i s' j
    by (rule step_run_phase)
  show "q \<in> next_phases p \<Longrightarrow> phase_rank p < phase_rank q" for p q
    by (cases p) auto
qed

lemma phase_edge_status:
  "q \<in> next_phases p \<Longrightarrow> phase_status p = Some st \<Longrightarrow> \<exists>st'. phase_status q = Some st' \<and>
     (st' = st \<or> st' \<in> allowed_transitions st)"
  by (cases p) auto

lemma reachable_status: "reachable s \<Longrightarrow>
    map_option rr_status (db_runs (sys_db s) rid) = phase_status (run_phase rid s)"
  using inv_run_phase[OF reachable_inv] by (simp add: in_phase_def view_run_def)

subsection \<open>Stored artifacts\<close>

lemma keeps_value_trans: "keeps_value x y \<Longrightarrow> keeps_value y z \<Longrightarrow> keeps_value x z"
  by (auto simp: keeps_value_def)

lemma context_extends_trans:
  assumes "context_extends a b" "context_extends b c"
  shows "context_extends a c"
proof -
  note trans = keeps_value_trans[where y = "f b" for f]
  from assms show ?thesis
    unfolding context_extends_def
    by (elim conjE, intro conjI) (simp, (erule (1) keeps_value_trans)+)
qed

lemma view_extends_trans:
  assumes "view_extends u v" "view_extends v w"
  shows "view_extends u w"
proof -
  have "keeps_value (vw_revision u) (vw_revision w)"
    using assms keeps_value_trans by (auto simp: view_extends_def)
  moreover have "\<exists>c'. vw_context w = Some c' \<and> context_extends c c'" if "vw_context u = Some c" for c
    using assms that context_extends_trans by (fastforce simp: view_extends_def)
  ultimately show ?thesis
    by (simp add: view_extends_def split: option.split)
qed

lemma step_extends:
  assumes "lifecycle_inv s" "step s rid s'"
  shows "view_extends (view_run r (sys_db s)) (view_run r (sys_db s'))"
  using step_advances[OF assms(2,1) inv_run_phase[OF assms(1)]]
  by (cases "r = rid") (auto simp: advances_def)

lemma execution_extends:
  "lifecycle_inv s \<Longrightarrow> execution step s t \<Longrightarrow>
     view_extends (view_run r (sys_db s)) (view_run r (sys_db (final_state s t)))"
proof (induction t arbitrary: s)
  case Nil
  then show ?case by simp
next
  case (Cons a t)
  obtain i s' where a: "a = (i, s')"
    by (cases a)
  with Cons show ?case
    by (auto intro: view_extends_trans step_extends lifecycle_inv_step)
qed

subsection \<open>Arbitrary calls\<close>

text \<open>
  Every writing method of the repository with any arguments on any database, also those calls
  the program never makes. The label marks the calls of \<open>complete_analysis\<close> with their run.
\<close>

inductive call :: "db \<Rightarrow> uuid option \<Rightarrow> db \<Rightarrow> bool" where
  Create_Run: "create_run run request d = (res, d') \<Longrightarrow> call d None d'"
| Increment: "increment_technical_attempt rid d = (res, d') \<Longrightarrow> call d None d'"
| Update_Status: "update_status rid st now d = (res, d') \<Longrightarrow> call d None d'"
| Claim: "claim_analysis rid now d = (res, d') \<Longrightarrow> call d None d'"
| Complete: "complete_analysis rid a repair now d = (res, d') \<Longrightarrow> call d (Some rid) d'"
| Failure: "record_failure rid st code now d = (res, d') \<Longrightarrow> call d None d'"
| Confirm_Lock: "confirm_brand_lock rid lock at now d = (res, d') \<Longrightarrow> call d None d'"
| Draft: "save_draft rid brief copy facts rules at now d = (res, d') \<Longrightarrow> call d None d'"
| Composition: "save_composition rid composition d = (res, d') \<Longrightarrow> call d None d'"
| Critique: "save_critique rid report d = (res, d') \<Longrightarrow> call d None d'"
| Feedback: "claim_feedback_operation rid key fp requested digest t d = (res, d') \<Longrightarrow> call d None d'"
| Fail: "fail_revision_operation rid oid condition action t d = (res, d') \<Longrightarrow> call d None d'"
| Retry: "claim_retry_operation rid key fp t d = (res, d') \<Longrightarrow> call d None d'"
| Revision: "complete_revision rid oid revision response d = (res, d') \<Longrightarrow> call d None d'"

text \<open>What a call keeps of a context: everything, or everything but the analysis.\<close>

definition context_keeps :: "bool \<Rightarrow> context_row \<Rightarrow> context_row \<Rightarrow> bool" where
  "context_keeps analysed c c' \<longleftrightarrow>
     context_extends (if analysed then c\<lparr>cx_analysis := None\<rparr> else c) c'"

lemma context_keeps_weaken: "context_extends c c' \<Longrightarrow> context_extends (c\<lparr>cx_analysis := None\<rparr>) c'"
  by (simp add: context_extends_def)

lemma context_keeps_trans:
  "context_keeps x a b \<Longrightarrow> context_keeps y b c \<Longrightarrow> context_keeps (x \<or> y) a c"
  using context_extends_trans[of a b c] context_keeps_weaken[of a b] context_keeps_weaken[of b c]
    context_extends_trans[of "a\<lparr>cx_analysis := None\<rparr>" "b\<lparr>cx_analysis := None\<rparr>" c]
  by (auto simp: context_keeps_def context_extends_def split: if_splits)

lemma create_run_extends:
  assumes "create_run run request d = (res, d')" "db_contexts d rid = Some c"
  shows "db_contexts d' rid = Some c \<and> db_revisions d' = db_revisions d"
  using assms
  by (auto simp: create_run_def catch_def method_simps insert_run_def insert_context_def
      split: option.splits if_splits)

lemma repository_call_keeps:
  assumes "call d l d'" "db_contexts d rid = Some c"
  shows "(\<exists>c'. db_contexts d' rid = Some c' \<and> context_keeps (l = Some rid) c c')
    \<and> keeps_value (db_revisions d rid) (db_revisions d' rid)"
  using assms(1)
proof cases
  case (Create_Run run request res)
  then show ?thesis
    using create_run_extends[OF Create_Run(2) assms(2)] by (simp add: context_keeps_def)
next
  case (Increment r res)
  from increment_technical_attempt_effect[OF Increment(2)] show ?thesis
    using assms(2) Increment(1) by (auto simp: context_keeps_def context_extends_def)
next
  case (Update_Status r st now res)
  from update_status_effect[OF Update_Status(2)] show ?thesis
    using assms(2) Update_Status(1) by (auto simp: context_keeps_def)
next
  case (Claim r now res)
  from claim_analysis_effect[OF Claim(2)] show ?thesis
    using assms(2) Claim(1) by (auto simp: context_keeps_def)
next
  case (Complete r a repair now res)
  from complete_analysis_effect[OF Complete(2)] show ?thesis
    using assms(2) Complete(1) by (auto simp: context_keeps_def context_extends_def simp del: if_split)
next
  case (Failure r st code now res)
  from record_failure_effect[OF Failure(2)] show ?thesis
    using assms(2) Failure(1) by (auto simp: context_keeps_def)
next
  case (Confirm_Lock r lock at now res)
  from confirm_brand_lock_effect[OF Confirm_Lock(2)] show ?thesis
    using assms(2) Confirm_Lock(1) by (auto simp: context_keeps_def context_extends_def)
next
  case (Draft r brief copy facts rules at now res)
  from save_draft_effect[OF Draft(2)] show ?thesis
    using assms(2) Draft(1)
    by (auto simp: context_keeps_def context_extends_def context_draft_def draft_record_None)
next
  case (Composition r composition res)
  from save_composition_effect[OF Composition(2)] show ?thesis
    using assms(2) Composition(1) by (auto simp: context_keeps_def context_extends_def)
next
  case (Critique r report res)
  from save_critique_effect[OF Critique(2)] show ?thesis
    using assms(2) Critique(1) by (auto simp: context_keeps_def context_extends_def)
next
  case (Feedback r key fp requested digest t res)
  from claim_feedback_effect[OF Feedback(2)] show ?thesis
    using assms(2) Feedback(1) by (auto simp: context_keeps_def)
next
  case (Fail r oid condition action t res)
  from fail_revision_effect[OF Fail(2)] show ?thesis
    using assms(2) Fail(1) by (auto simp: context_keeps_def)
next
  case (Retry r key fp t res)
  from claim_retry_effect[OF Retry(2)] show ?thesis
    using assms(2) Retry(1)
    by (auto simp: context_keeps_def context_extends_def split: option.splits)
next
  case (Revision r oid revision response res)
  from complete_revision_effect[OF Revision(2)] show ?thesis
    using assms(2) Revision(1) by (auto simp: context_keeps_def context_extends_def)
qed

lemma repository_calls_keep:
  "execution call d calls \<Longrightarrow> db_contexts d rid = Some c \<Longrightarrow>
    (\<exists>c'. db_contexts (final_state d calls) rid = Some c'
       \<and> context_keeps (Some rid \<in> fst ` set calls) c c')
    \<and> keeps_value (db_revisions d rid) (db_revisions (final_state d calls) rid)"
proof (induction calls arbitrary: d c)
  case Nil
  then show ?case by (simp add: context_keeps_def)
next
  case (Cons x calls)
  obtain l d' where x: "x = (l, d')"
    by (cases x)
  with Cons.prems obtain c' where c': "db_contexts d' rid = Some c'"
    "context_keeps (l = Some rid) c c'" "keeps_value (db_revisions d rid) (db_revisions d' rid)"
    using repository_call_keeps[of d l d' rid c] by auto
  from Cons.IH[OF _ c'(1)] Cons.prems(1) x obtain c'' where
    "db_contexts (final_state d' calls) rid = Some c''"
    "context_keeps (Some rid \<in> fst ` set calls) c' c''"
    "keeps_value (db_revisions d' rid) (db_revisions (final_state d' calls) rid)"
    by auto
  then show ?case
    using context_keeps_trans[OF c'(2)] keeps_value_trans[OF c'(3)] x by (auto simp: eq_commute)
qed

subsection \<open>What the artifacts have to do with each other\<close>

definition linked :: "uuid \<Rightarrow> context_row \<Rightarrow> bool" where
  "linked rid c \<longleftrightarrow>
     (\<forall>a. cx_analysis c = Some a \<longrightarrow> an_brand_lock a = rc_brand_lock (cx_request c)
        \<and> an_source_asset a = rc_source_asset (cx_request c))
     \<and> (\<forall>l. cx_confirmed_brand_lock c = Some l \<longrightarrow>
          validate_brand_lock_confirmation l (rc_brand_lock (cx_request c)) = Inr l)
     \<and> (\<forall>b. cx_creative_brief c = Some b \<longrightarrow> cx_confirmed_brand_lock c = Some (br_brand_lock b))
     \<and> (\<forall>fs. cx_draft_fact_references c = Some fs \<longrightarrow> fs \<noteq> []
          \<and> (\<exists>l. cx_confirmed_brand_lock c = Some l \<and> set fs \<subseteq> set (bl_verified_product_facts l)))
     \<and> (\<forall>k. cx_composition c = Some k \<longrightarrow> co_run_id k = rid
          \<and> (\<exists>l. cx_confirmed_brand_lock c = Some l \<and> protected_layers_match l k))"

definition contexts_linked :: "db \<Rightarrow> bool" where
  "contexts_linked d \<longleftrightarrow> (\<forall>rid c. db_contexts d rid = Some c \<longrightarrow> linked rid c)"

lemma contexts_linkedD: "contexts_linked d \<Longrightarrow> db_contexts d rid = Some c \<Longrightarrow> linked rid c"
  by (simp add: contexts_linked_def)

lemma contexts_linked_modify:
  assumes "contexts_linked d"
    and "\<And>c. db_contexts d' rid = Some c \<Longrightarrow> db_contexts d rid \<noteq> Some c \<Longrightarrow> linked rid c"
    and "\<And>r. r \<noteq> rid \<Longrightarrow> db_contexts d' r = db_contexts d r"
  shows "contexts_linked d'"
  unfolding contexts_linked_def
proof (intro allI impI)
  fix r c
  assume c: "db_contexts d' r = Some c"
  show "linked r c"
  proof (cases "r = rid")
    case True
    with c assms(1,2) show ?thesis
      by (auto simp: contexts_linked_def)
  next
    case False
    with c assms(1,3) show ?thesis
      by (simp add: contexts_linked_def)
  qed
qed

lemma linked_new_context: "linked rid (new_context req)"
  by (simp add: linked_def new_context_def)

lemma linked_counters [simp]:
  "linked rid (c\<lparr>cx_technical_attempt_count := n\<rparr>) = linked rid c"
  "linked rid (c\<lparr>cx_human_revision_count := n\<rparr>) = linked rid c"
  "linked rid (c\<lparr>cx_initial_generation_count := n\<rparr>) = linked rid c"
  "linked rid (c\<lparr>cx_critique := r, cx_critic_reviewed_at := x\<rparr>) = linked rid c"
  by (simp_all add: linked_def)

text \<open>The context a step leaves for its run: unchanged, new, or the old one with one artifact
  added that the method has checked against the others.\<close>

lemma step_linked_row:
  assumes "step s rid s'"
    and c: "db_contexts (sys_db s') rid = Some c'" "db_contexts (sys_db s) rid \<noteq> Some c'"
    and old: "\<And>c. db_contexts (sys_db s) rid = Some c \<Longrightarrow> linked rid c
      \<and> (cx_confirmed_brand_lock c = None \<longrightarrow> cx_creative_brief c = None
          \<and> cx_draft_fact_references c = None \<and> cx_composition c = None)"
  shows "linked rid c'"
  using assms(1)
proof cases
  case (Create now req run d res d' A)
  then have "pr_id run = rid"
    by (auto simp: new_project_run_def validate_project_run_Inr_iff)
  with Create create_run_effect[of run req d res d'] c show ?thesis
    by (auto simp: linked_new_context)
next
  case (Claim_Analysis now d res d' A' A)
  with claim_analysis_effect[of rid now d res d'] c show ?thesis by auto
next
  case (Complete_Analysis A a repair now d res d')
  with complete_analysis_effect[of rid a repair now d res d'] c obtain k where
    "db_contexts d rid = Some k" "an_source_asset a = rc_source_asset (cx_request k)"
    "an_brand_lock a = rc_brand_lock (cx_request k)"
    "c' = k\<lparr>cx_analysis := Some a, cx_repair_attempted := if repair then 1 else 0\<rparr>"
    by (auto simp del: if_split)
  with old[of k] Complete_Analysis show ?thesis
    by (simp add: linked_def)
next
  case (Record_Failure A st code now d res d')
  with record_failure_effect[of rid st code now d res d'] c show ?thesis by auto
next
  case (Abandon_Analysis A d)
  with c show ?thesis by simp
next
  case (Confirm lock at now d res d' A)
  with confirm_brand_lock_effect[of rid lock at now d res d'] c obtain k a t where
    k: "db_contexts d rid = Some k" "cx_analysis k = Some a" "cx_confirmed_brand_lock k = None"
    "validate_brand_lock_confirmation lock (an_brand_lock a) = Inr lock"
    "c' = k\<lparr>cx_confirmed_brand_lock := Some lock, cx_brand_lock_confirmed_at := Some t\<rparr>"
    by auto
  with old[of k] Confirm show ?thesis
    by (simp add: linked_def)
next
  case (Save_Draft brief copy facts rules at now d res d' A)
  with save_draft_effect[of rid brief copy facts rules at now d res d'] c obtain k t where
    "db_contexts d rid = Some k" "cx_confirmed_brand_lock k = Some (br_brand_lock brief)"
    "facts \<noteq> []" "set facts \<subseteq> set (bl_verified_product_facts (br_brand_lock brief))"
    "c' = k\<lparr>cx_creative_brief := Some brief, cx_ad_copy := Some copy,
      cx_draft_fact_references := Some facts, cx_draft_rule_ids := Some rules,
      cx_draft_generated_at := Some t\<rparr>"
    by auto
  with old[of k] Save_Draft show ?thesis
    by (simp add: linked_def)
next
  case (Save_Composition composition d res d' A)
  with save_composition_effect[of rid composition d res d'] c obtain k l where
    "db_contexts d rid = Some k" "co_run_id composition = rid"
    "cx_confirmed_brand_lock k = Some l" "protected_layers_match l composition"
    "c' = k\<lparr>cx_composition := Some composition, cx_initial_generation_count := 1\<rparr>"
    by auto
  with old[of k] Save_Composition show ?thesis
    by (simp add: linked_def)
next
  case (Save_Critique report d res d' A)
  with save_critique_effect[of rid report d res d'] c obtain k where
    "db_contexts d rid = Some k"
    "c' = k\<lparr>cx_critique := Some report, cx_critic_reviewed_at := Some (cr_reviewed_at report)\<rparr>"
    by auto
  with old[of k] Save_Critique show ?thesis by simp
next
  case (Claim_Feedback key fp changes digest t d res d' A)
  with claim_feedback_effect[of rid key fp changes digest t d res d'] c show ?thesis by auto
next
  case (Fail_Revision oid kind d t res d' A)
  with fail_revision_effect[OF Fail_Revision(4)] c show ?thesis by auto
next
  case (Claim_Retry key fp t d res d' A)
  with claim_retry_effect[of rid key fp t d res d'] c obtain k where
    "db_contexts d rid = Some k"
    "c' = k\<lparr>cx_technical_attempt_count := cx_technical_attempt_count k + 1\<rparr>"
    by (auto split: option.splits)
  with old[of k] Claim_Retry show ?thesis by simp
next
  case (Complete_Revision oid revision response d res d' A)
  with complete_revision_effect[of rid oid revision response d res d'] c obtain k where
    "db_contexts d rid = Some k" "c' = k\<lparr>cx_human_revision_count := 1\<rparr>"
    by auto
  with old[of k] Complete_Revision show ?thesis by simp
qed

lemma step_linked:
  assumes "step s rid s'" "lifecycle_inv s" "contexts_linked (sys_db s)"
  shows "contexts_linked (sys_db s')"
proof (rule contexts_linked_modify[OF assms(3)])
  have "linked rid c \<and> (cx_confirmed_brand_lock c = None \<longrightarrow> cx_creative_brief c = None
          \<and> cx_draft_fact_references c = None \<and> cx_composition c = None)"
    if "db_contexts (sys_db s) rid = Some c" for c
    using in_phase_stage[OF inv_run_phase[OF assms(2)] that] contexts_linkedD[OF assms(3) that]
    by (auto simp: context_stage_def)
  then show "linked rid c" if "db_contexts (sys_db s') rid = Some c"
    "db_contexts (sys_db s) rid \<noteq> Some c" for c
    using step_linked_row[OF assms(1) that] by blast
  show "db_contexts (sys_db s') r = db_contexts (sys_db s) r" if "r \<noteq> rid" for r
    using step_advances[OF assms(1,2) inv_run_phase[OF assms(2)]] that
    by (auto simp: advances_def view_run_def)
qed

lemma reachable_linked: "reachable s \<Longrightarrow> contexts_linked (sys_db s)"
proof (induction rule: reachable.induct)
  case init
  show ?case by (simp add: contexts_linked_def init_sys_def empty_db_def)
next
  case (step s rid s')
  then show ?case using step_linked reachable_inv by blast
qed

section \<open>The properties\<close>

lemma demo_reviewed_inv: "lifecycle_inv (demo_sys IN_PROGRESS 3 4 [])"
  by (rule reachable_inv[OF demo_reachable(1)])

text \<open>
  C2. The repository implements the phase graph. In every reachable state the tables hold, for
  each run, exactly what its phase says (status, which artifacts are present, the operations
  with their states, the counters, the revision), and a step on one run moves that run along at
  most one edge of the graph and leaves what the tables hold about every other run as it was.
\<close>

theorem repository_follows_phases:
  assumes "reachable s" "step s rid s'"
  shows "in_phase (run_phase r s) (view_run r (sys_db s))
    \<and> in_phase (run_phase r s') (view_run r (sys_db s'))
    \<and> (if r = rid then run_phase r s' \<in> insert (run_phase r s) (next_phases (run_phase r s))
       else view_run r (sys_db s') = view_run r (sys_db s))"
proof -
  have inv: "lifecycle_inv s" "lifecycle_inv s'"
    using assms reachable_inv lifecycle_inv_step by blast+
  have "view_run r (sys_db s') = view_run r (sys_db s)" if "r \<noteq> rid"
    using step_advances[OF assms(2) inv(1) inv_run_phase[OF inv(1)]] that
    by (auto simp: advances_def)
  then show ?thesis
    using inv_run_phase[OF inv(1)] inv_run_phase[OF inv(2)] step_run_phase[OF inv(1) assms(2), of r]
    by auto
qed

theorem repository_follows_phases_witness:
  "run_phase 1 (demo_sys READY 6 5 [])
     \<in> insert (run_phase 1 (demo_sys IN_PROGRESS 3 4 [])) (next_phases (run_phase 1 (demo_sys IN_PROGRESS 3 4 [])))"
  using repository_follows_phases[OF demo_reachable(1) demo_reviewed_step, of 1] by simp

text \<open>
  Although most methods write the status with a plain \<open>UPDATE\<close> and never consult the
  transition table of \<open>domain.py\<close>, every status change the repository makes is one that the
  table allows, and a run is never removed.
\<close>

theorem status_changes_are_allowed:
  assumes "reachable s" "step s rid s'" "db_runs (sys_db s) r = Some row"
  shows "\<exists>row'. db_runs (sys_db s') r = Some row'
    \<and> (rr_status row' = rr_status row \<or> rr_status row' \<in> allowed_transitions (rr_status row))"
proof -
  have st: "map_option rr_status (db_runs (sys_db s) r) = phase_status (run_phase r s)"
    "map_option rr_status (db_runs (sys_db s') r) = phase_status (run_phase r s')"
    using assms reachable_status reachable.step by blast+
  moreover have "run_phase r s' = run_phase r s \<or> run_phase r s' \<in> next_phases (run_phase r s)"
    using step_run_phase[OF reachable_inv[OF assms(1)] assms(2), of r] by (auto split: if_splits)
  moreover have "phase_status (run_phase r s) = Some (rr_status row)"
    using st(1) assms(3) by simp
  ultimately have "\<exists>st'. map_option rr_status (db_runs (sys_db s') r) = Some st'
      \<and> (st' = rr_status row \<or> st' \<in> allowed_transitions (rr_status row))"
    using phase_edge_status[of "run_phase r s'" "run_phase r s" "rr_status row"] by auto
  then show ?thesis
    by auto
qed

theorem status_changes_are_allowed_witness:
  "\<exists>row'. db_runs (sys_db (demo_sys READY 6 5 [])) 1 = Some row'
    \<and> (rr_status row' = IN_PROGRESS \<or> rr_status row' \<in> allowed_transitions IN_PROGRESS)"
proof -
  obtain row where row: "db_runs (sys_db (demo_sys IN_PROGRESS 3 4 [])) 1 = Some row"
    "rr_status row = IN_PROGRESS"
    by (simp add: demo_sys_def demo_db_def)
  show ?thesis
    using status_changes_are_allowed[OF demo_reachable(1) demo_reviewed_step row(1)]
    by (simp add: row(2))
qed

text \<open>
  C8. No artifact once stored for a run (request, confirmed Brand Lock and its time, brief, copy,
  facts, rules, composition, critique, revision) is changed or removed by any later sequence of
  repository calls, whatever methods are called with whatever arguments on whatever database; the
  stored analysis is kept too as long as \<open>complete_analysis\<close> is not called for the run, which
  is the one method that does not look whether its artifact is there. The program calls it only
  with a claim of the run's analysis: along the steps of the program from a reachable state the
  analysis is never changed either.
\<close>

theorem artifacts_are_immutable:
  assumes "db_contexts d rid = Some c" "execution call d calls"
  shows "(\<exists>c'. db_contexts (final_state d calls) rid = Some c'
        \<and> context_extends (c\<lparr>cx_analysis := None\<rparr>) c'
        \<and> (Some rid \<notin> fst ` set calls \<longrightarrow> context_extends c c'))
    \<and> keeps_value (db_revisions d rid) (db_revisions (final_state d calls) rid)
    \<and> (\<forall>s steps. reachable s \<longrightarrow> sys_db s = d \<longrightarrow> execution step s steps \<longrightarrow>
         (\<exists>c'. db_contexts (sys_db (final_state s steps)) rid = Some c' \<and> context_extends c c')
         \<and> keeps_value (db_revisions d rid) (db_revisions (sys_db (final_state s steps)) rid))"
proof (intro conjI allI impI)
  obtain c' where c': "db_contexts (final_state d calls) rid = Some c'"
    "context_keeps (Some rid \<in> fst ` set calls) c c'"
    and rev: "keeps_value (db_revisions d rid) (db_revisions (final_state d calls) rid)"
    using repository_calls_keep[OF assms(2,1)] by blast
  then show "\<exists>c'. db_contexts (final_state d calls) rid = Some c'
        \<and> context_extends (c\<lparr>cx_analysis := None\<rparr>) c'
        \<and> (Some rid \<notin> fst ` set calls \<longrightarrow> context_extends c c')"
    using context_keeps_weaken[of c c'] by (auto simp: context_keeps_def split: if_splits)
  show "keeps_value (db_revisions d rid) (db_revisions (final_state d calls) rid)"
    by (rule rev)
next
  fix s steps
  assume s: "reachable s" "sys_db s = d" "execution step s steps"
  show "\<exists>c'. db_contexts (sys_db (final_state s steps)) rid = Some c' \<and> context_extends c c'"
    and "keeps_value (db_revisions d rid) (db_revisions (sys_db (final_state s steps)) rid)"
    using execution_extends[OF reachable_inv[OF s(1)] s(3), of rid] assms(1) s(2)
    by (simp_all add: view_extends_def view_run_def)
qed

theorem artifacts_are_immutable_witness:
  "\<exists>c'. db_contexts (sys_db (demo_sys READY 6 5 [])) 1 = Some c' \<and> context_extends (demo_context 4) c'"
proof -
  have "call (sys_db (demo_sys IN_PROGRESS 3 4 [])) None (sys_db (demo_sys READY 6 5 []))"
    using demo_reviewed call.Critique by (fastforce simp: demo_sys_def)
  then show ?thesis
    using artifacts_are_immutable[of "sys_db (demo_sys IN_PROGRESS 3 4 [])" 1 "demo_context 4"
        "[(None, sys_db (demo_sys READY 6 5 []))]"]
    by (simp add: demo_sys_def demo_db_def)
qed

text \<open>
  C12. The cost bounds hold: a run has at most one initial generation, one human revision and one
  technical attempt, at most one stored revision (exactly when the revision counter is 1), and at
  most two operations, of which at most one is in progress.
\<close>

theorem run_counters_bounded:
  assumes "reachable s" "db_contexts (sys_db s) rid = Some c"
  shows "cx_initial_generation_count c \<in> {0, 1} \<and> cx_human_revision_count c \<in> {0, 1}
    \<and> cx_technical_attempt_count c \<in> {0, 1}
    \<and> (db_revisions (sys_db s) rid \<noteq> None \<longleftrightarrow> cx_human_revision_count c = 1)
    \<and> length (operations_of rid (sys_db s)) \<le> 2
    \<and> length (filter (\<lambda>w. ow_state w = OP_IN_PROGRESS) (operations_of rid (sys_db s))) \<le> 1"
proof -
  define p where "p = run_phase rid s"
  have p: "in_phase p (view_run rid (sys_db s))"
    unfolding p_def by (rule inv_run_phase[OF reachable_inv[OF assms(1)]])
  define ks where "ks = map operation_key (operations_of rid (sys_db s))"
  have "ks \<in> phase_operations p"
    unfolding ks_def by (rule in_phase_operations[OF p])
  then have ks: "length ks \<le> 2" "length (filter open_key ks) \<le> 1" "retries ks \<in> {0, 1}"
    by (cases p; auto simp: first_failure_def open_key_def retries_def)+
  moreover have "length (filter (\<lambda>w. ow_state w = OP_IN_PROGRESS) (operations_of rid (sys_db s)))
      = length (filter open_key ks)"
    by (simp add: ks_def filter_map o_def open_key_def operation_key_def)
  moreover have "length (operations_of rid (sys_db s)) = length ks"
    by (simp add: ks_def)
  ultimately show ?thesis
    using in_phase_stage[OF p assms(2)] in_phase_revision[OF p]
    by (auto simp: context_stage_def ks_def[symmetric])
qed

theorem run_counters_bounded_witness:
  "cx_technical_attempt_count (demo_context 6) \<in> {0, 1}"
  using run_counters_bounded[OF demo_reachable(3), of 1 "demo_context 6"]
  by (simp add: demo_sys_def demo_db_def)

text \<open>
  When \<open>RevisionService.retry\<close> has claimed its operation, the decision it then asks
  \<open>decide_retry\<close> for, with the attempts before this one, is the action the failed operation
  recorded and one of the retryable ones: the check that would leave a claimed retry unexecuted
  never fires.
\<close>

theorem retry_decision_agrees:
  assumes "reachable s" "w \<in> set (db_operations (sys_db s))" "ow_kind w = RETRY"
    "ow_state w = OP_IN_PROGRESS" "db_contexts (sys_db s) (ow_run_id w) = Some c"
  shows "\<exists>cond act. ow_retry_condition w = Some cond \<and> ow_retry_action w = Some act
    \<and> decide_retry cond (cx_technical_attempt_count c - 1) None
        = Inr \<lparr>rd_action = act, rd_next_status = IN_PROGRESS\<rparr>
    \<and> act \<in> retryable_actions"
proof -
  define rid where "rid = ow_run_id w"
  note inv = reachable_inv[OF assms(1)]
  note p = inv_run_phase[OF inv, of rid]
  have ids: "ids_ok (sys_db s)"
    using inv by (simp add: lifecycle_inv_def)
  obtain v where "operations_of rid (sys_db s) = [v, w]" "run_phase rid s = Retrying"
    using open_operation_phase[OF p ids assms(2) _ assms(4)] assms(3) by (auto simp: rid_def)
  then show ?thesis
    using in_phase_operations[OF p] in_phase_stage[OF p] assms(5)
    by (auto simp: rid_def operation_key_def first_failure_def retries_def decide_retry_def
        retryable_actions_def)
qed

theorem retry_decision_agrees_witness:
  "\<exists>cond act. ow_retry_condition demo_retry = Some cond \<and> ow_retry_action demo_retry = Some act
    \<and> decide_retry cond 0 None = Inr \<lparr>rd_action = act, rd_next_status = IN_PROGRESS\<rparr>
    \<and> act \<in> retryable_actions"
  using retry_decision_agrees[OF demo_reachable(3), of demo_retry "demo_context 6"]
  by (simp add: demo_sys_def demo_db_def demo_retry_def retry_operation_row_def demo_context_def)

text \<open>
  C13. A run comes to rest: along any execution from the empty database, however many requests it
  has, the phase of a run changes at most eleven times, and a run whose phase has no outgoing
  edge (blocked, failed, rejected, revised, exhausted) keeps that phase for ever.
\<close>

theorem run_comes_to_rest:
  assumes "execution step init_sys t"
  shows "changes (run_phase rid) init_sys t \<le> 11
    \<and> (\<forall>t'. execution step (final_state init_sys t) t' \<longrightarrow>
          next_phases (run_phase rid (final_state init_sys t)) = {} \<longrightarrow>
          run_phase rid (final_state (final_state init_sys t) t')
            = run_phase rid (final_state init_sys t))"
proof -
  have "phase_rank p \<le> 11" for p
    by (cases p) simp_all
  moreover have "phase_rank (run_phase rid init_sys) + changes (run_phase rid) init_sys t
      \<le> phase_rank (run_phase rid (final_state init_sys t))"
    by (rule lifecycle.changes_bounded[OF lifecycle_inv_init assms])
  ultimately have "changes (run_phase rid) init_sys t \<le> 11"
    by (meson add_leD2 order_trans)
  then show ?thesis
    using lifecycle.stays_in_sink lifecycle.inv_execution[OF lifecycle_inv_init assms] by blast
qed

theorem run_comes_to_rest_witness:
  "changes (run_phase 1) init_sys [(1, demo_sys PENDING 0 0 []), (1, demo_analyzing)] \<le> 11"
  using run_comes_to_rest[of "[(1, demo_sys PENDING 0 0 []), (1, demo_analyzing)]" 1]
    demo_pending demo_analyzing_step
  by simp

text \<open>
  C3. The Brand Lock is preserved from the request to the composition. In every reachable state
  the stored analysis has the lock and the source asset of the request; a confirmed lock passes
  the confirmation check against the request's lock; the brief carries the confirmed lock and the
  draft cites only, and at least one, of its verified facts; and the composition is of this run
  with the logo and product UI the confirmed lock names.
\<close>

theorem brand_lock_is_preserved:
  assumes "reachable s" "db_contexts (sys_db s) rid = Some c"
  shows "linked rid c"
  using reachable_linked[OF assms(1)] assms(2) by (rule contexts_linkedD)

theorem brand_lock_is_preserved_witness: "linked 1 (demo_context 5)"
  using brand_lock_is_preserved[OF demo_reachable(2), of 1 "demo_context 5"]
  by (simp add: demo_sys_def demo_db_def)

end
