(* ===== verification/Stored_Runs.thy ===== *)
theory Stored_Runs
  imports Lifecycle_Properties
begin

section \<open>Stored runs can be read\<close>

text \<open>
  \<open>ProjectRun\<close> validates a run whenever a row is read, so a row that does not validate makes every later
  request of the run fail. \<open>typed_runs\<close> is the type of the \<open>project_runs\<close> rows; every method of the
  repository keeps it when its time is aware and not before the creation of the run, and in a reachable
  state it is enough for \<open>get\<close> to succeed.
\<close>

definition typed_row :: "run_row \<Rightarrow> bool" where
  "typed_row r \<longleftrightarrow> length (rr_warning_codes r) \<le> 32 \<and> distinct (rr_warning_codes r)
     \<and> (\<forall>c \<in> set (rr_warning_codes r). is_warning_code c)
     \<and> is_aware (rr_created_at r) \<and> is_aware (rr_updated_at r)
     \<and> instant (rr_created_at r) \<le> instant (rr_updated_at r)"

definition typed_runs :: "db \<Rightarrow> bool" where
  "typed_runs d \<longleftrightarrow> (\<forall>rid r. db_runs d rid = Some r \<longrightarrow> typed_row r)"

text \<open>A time the methods can record for a run.\<close>

definition timely :: "db \<Rightarrow> uuid \<Rightarrow> datetime \<Rightarrow> bool" where
  "timely d rid t \<longleftrightarrow> is_aware t \<and> (\<forall>r. db_runs d rid = Some r \<longrightarrow> instant (rr_created_at r) \<le> instant t)"

text \<open>A write that only concerns one run, whose row it leaves alone or typed.\<close>

definition typed_change :: "uuid \<Rightarrow> db \<Rightarrow> db \<Rightarrow> bool" where
  "typed_change rid d d' \<longleftrightarrow> db_runs d' = db_runs d
     \<or> (\<exists>r. typed_row r \<and> db_runs d' = (db_runs d)(rid \<mapsto> r))"

lemma typed_change_runs: "typed_change rid d d' \<Longrightarrow> typed_runs d \<Longrightarrow> typed_runs d'"
  by (auto simp: typed_change_def typed_runs_def split: if_splits)

lemma typed_change_same [simp]: "typed_change rid d d"
  by (simp add: typed_change_def)

lemma typed_changeI: "typed_row r \<Longrightarrow> db_runs d' = (db_runs d)(rid \<mapsto> r) \<Longrightarrow> typed_change rid d d'"
  by (auto simp: typed_change_def)

lemma typed_status:
  "typed_runs d \<Longrightarrow> timely d rid t \<Longrightarrow> db_runs d rid = Some r \<Longrightarrow> typed_row (set_status st t r)"
  by (auto simp: typed_runs_def timely_def typed_row_def set_status_def)

lemma typed_change_status:
  "typed_runs d \<Longrightarrow> timely d rid t \<Longrightarrow> db_runs d rid = Some r \<Longrightarrow>
     db_runs d' = (db_runs d)(rid \<mapsto> set_status st t r) \<Longrightarrow> typed_change rid d d'"
  using typed_status typed_changeI by blast

subsection \<open>The methods that validate the new run before they write it\<close>

lemma with_status_row:
  assumes "get_run rid d = Inr run" "with_status run st None now = Inr run'" "db_runs d rid = Some r"
  shows "typed_row (set_status (pr_status run') (pr_updated_at run') r)"
  using assms get_run_status[OF assms(1)]
  by (auto simp: with_status_Inr_iff valid_run_def typed_row_def set_status_def)

lemma complete_analysis_typed:
  assumes "complete_analysis rid a repair now d = (res, d')"
  shows "typed_change rid d d'"
proof (cases "d' = d")
  case False
  obtain run where run: "get_run rid d = Inr run"
    using assms False by (cases "get_run rid d") (auto simp: complete_analysis_def method_simps)
  obtain request where request: "get_request rid d = Inr request"
    using assms False run by (cases "get_request rid d") (auto simp: complete_analysis_def method_simps)
  obtain run' where run': "with_status run AWAITING_BRAND_LOCK None now = Inr run'"
    using assms False run request
    by (cases "with_status run AWAITING_BRAND_LOCK None now") (auto simp: complete_analysis_def method_simps split: if_splits)
  obtain r where r: "db_runs d rid = Some r"
    using get_run_status[OF run] by blast
  have "db_runs d' = (db_runs d)(rid \<mapsto> set_status (pr_status run') (pr_updated_at run') r)"
    using assms False run request run' r
    by (auto simp: complete_analysis_def method_simps split: if_splits option.splits)
  then show ?thesis
    by (rule typed_changeI[OF with_status_row[OF run run' r]])
qed simp

lemma update_status_typed:
  assumes "update_status rid st now d = (res, d')"
  shows "typed_change rid d d'"
proof (cases "get_run rid d")
  case (Inl e)
  then show ?thesis
    using assms by (simp add: update_status_def method_simps)
next
  case (Inr run)
  then obtain r where r: "db_runs d rid = Some r"
    using get_run_status by blast
  show ?thesis
  proof (cases "with_status run st None now")
    case Inl': (Inl e)
    then show ?thesis
      using assms Inr by (simp add: update_status_def method_simps)
  next
    case Inr': (Inr run')
    then have "d' = d\<lparr>db_runs := (db_runs d)(rid \<mapsto> set_status (pr_status run') (pr_updated_at run') r)\<rparr>"
      using assms Inr r by (simp add: update_status_def method_simps)
    then show ?thesis
      using with_status_row[OF Inr Inr' r] by (auto intro: typed_changeI)
  qed
qed

lemma record_failure_typed:
  assumes "record_failure rid st code now d = (res, d')"
  shows "typed_change rid d d'"
proof (cases "get_run rid d")
  case (Inl e)
  then show ?thesis
    using assms by (simp add: record_failure_def method_simps split: if_splits)
next
  case (Inr run)
  obtain r where r: "db_runs d rid = Some r" "rr_created_at r = pr_created_at run"
    using get_run_status[OF Inr] by auto
  show ?thesis
  proof (cases "with_status run st None now")
    case Inl': (Inl e)
    then show ?thesis
      using assms Inr by (simp add: record_failure_def method_simps split: if_splits)
  next
    case Inr': (Inr run')
    let ?new = "run'\<lparr>pr_warning_codes := pr_warning_codes run @ [code]\<rparr>"
    show ?thesis
    proof (cases "valid_run ?new \<and> st \<in> {BLOCKED, FAILED}")
      case True
      then have "d' = d\<lparr>db_runs := (db_runs d)(rid \<mapsto> r\<lparr>rr_status := pr_status run',
          rr_warning_codes := pr_warning_codes run @ [code], rr_updated_at := pr_updated_at run'\<rparr>)\<rparr>"
        using assms Inr Inr' r by (auto simp: record_failure_def method_simps revalidate_cases)
      moreover have "pr_created_at run' = pr_created_at run"
        using Inr' by (auto simp: with_status_Inr_iff)
      ultimately show ?thesis
        using True r(2) by (auto intro!: typed_changeI simp: valid_run_def typed_row_def)
    next
      case False
      then show ?thesis
        using assms Inr Inr' by (auto simp: record_failure_def method_simps revalidate_cases split: if_splits)
    qed
  qed
qed

lemma create_run_typed:
  assumes "create_run run (Some req) d = (res, d')" "valid_run run"
  shows "typed_change (pr_id run) d d'"
  using create_run_effect[OF assms(1)]
proof
  assume "d' = d"
  then show ?thesis
    by simp
next
  assume "db_runs d (pr_id run) = None \<and> db_contexts d (pr_id run) = None
    \<and> rc_direction req = pr_direction run \<and> res = Inr run
    \<and> d' = d\<lparr>db_runs := (db_runs d)(pr_id run \<mapsto> \<lparr>rr_direction = pr_direction run,
          rr_status = pr_status run, rr_warning_codes = pr_warning_codes run,
          rr_created_at = pr_created_at run, rr_updated_at = pr_updated_at run\<rparr>),
        db_contexts := (db_contexts d)(pr_id run \<mapsto> new_context req)\<rparr>"
  then show ?thesis
    using assms(2) by (auto intro!: typed_changeI simp: valid_run_def typed_row_def)
qed

subsection \<open>The methods that write the time they are given\<close>

lemma claim_analysis_typed:
  assumes "claim_analysis rid now d = (res, d')" "typed_runs d" "timely d rid now"
  shows "typed_change rid d d'"
  using claim_analysis_effect[OF assms(1)] assms(2,3) by (auto intro: typed_change_status)

lemma confirm_brand_lock_typed:
  assumes "confirm_brand_lock rid lock at now d = (res, d')" "typed_runs d"
  shows "typed_change rid d d'"
proof -
  have "d' = d \<or> (\<exists>r t. db_runs d rid = Some r \<and> is_utc t \<and> instant (rr_created_at r) \<le> instant t
      \<and> db_runs d' = (db_runs d)(rid \<mapsto> set_status IN_PROGRESS t r))"
    using assms(1)
    by (auto simp: confirm_brand_lock_def method_simps Let_def split: option.splits if_splits sum.splits)
  moreover have "is_utc t \<Longrightarrow> is_aware t" for t
    by (cases t) simp_all
  ultimately show ?thesis
    using typed_change_status[OF assms(2), of rid _ _ d' IN_PROGRESS] by (auto simp: timely_def)
qed

lemma save_critique_typed:
  assumes "save_critique rid report d = (res, d')" "typed_runs d" "is_aware (cr_reviewed_at report)"
  shows "typed_change rid d d'"
proof -
  have "d' = d \<or> (\<exists>r. db_runs d rid = Some r \<and> instant (rr_created_at r) \<le> instant (cr_reviewed_at report)
      \<and> db_runs d' = (db_runs d)(rid \<mapsto> set_status (critique_target_status report) (cr_reviewed_at report) r))"
    using assms(1)
    by (auto simp: save_critique_def method_simps split: option.splits if_splits sum.splits)
  then show ?thesis
    using assms(2,3) by (auto intro: typed_change_status simp: timely_def)
qed

lemma feedback_typed:
  assumes "claim_feedback_operation rid key fp cs digest t d = (res, d')" "typed_runs d" "timely d rid t"
  shows "typed_change rid d d'"
  using claim_feedback_effect[OF assms(1)] assms(2,3) by (auto intro: typed_change_status)

lemma typed_change_row:
  assumes "typed_runs d" "timely d rid t" "db_runs d' = (case db_runs d rid of None \<Rightarrow> db_runs d
    | Some r \<Rightarrow> (db_runs d)(rid \<mapsto> set_status st t r))"
  shows "typed_change rid d d'"
proof (cases "db_runs d rid")
  case None
  then show ?thesis
    using assms(3) by (simp add: typed_change_def)
next
  case (Some r)
  then show ?thesis
    using typed_change_status[OF assms(1,2) Some] assms(3) by simp
qed

lemma fail_revision_typed:
  assumes "fail_revision_operation rid oid condition action t d = (res, d')" "typed_runs d" "timely d rid t"
  shows "typed_change rid d d'"
proof (cases "d' = d")
  case False
  then have "db_runs d' = (case db_runs d rid of None \<Rightarrow> db_runs d | Some r \<Rightarrow> (db_runs d)(rid \<mapsto>
      set_status (if action \<in> retryable_actions then FAILED_RETRYABLE else FAILED_FINAL) t r))"
    using fail_revision_effect[OF assms(1)] by (elim disjE conjE) (simp_all split: option.split)
  then show ?thesis
    by (rule typed_change_row[OF assms(2,3)])
qed simp

lemma retry_typed:
  assumes "claim_retry_operation rid key fp t d = (res, d')" "typed_runs d" "timely d rid t"
  shows "typed_change rid d d'"
  using claim_retry_effect[OF assms(1)] assms(2,3) by (auto intro: typed_change_status)

lemma complete_revision_typed:
  assumes "complete_revision rid oid v response d = (res, d')" "typed_runs d" "timely d rid (re_revised_at v)"
  shows "typed_change rid d d'"
proof (cases "d' = d")
  case False
  then have "db_runs d' = (case db_runs d rid of None \<Rightarrow> db_runs d | Some r \<Rightarrow> (db_runs d)(rid \<mapsto>
      set_status (critique_target_status (re_critique v)) (re_revised_at v) r))"
    using complete_revision_effect[OF assms(1)] by auto
  then show ?thesis
    by (rule typed_change_row[OF assms(2,3)])
qed simp

lemma context_only:
  "save_draft rid brief c facts rules at now d = (res, d') \<Longrightarrow> typed_change rid d d'"
  "save_composition rid co d = (res2, d') \<Longrightarrow> typed_change rid d d'"
  "increment_technical_attempt rid d = (res3, d') \<Longrightarrow> typed_change rid d d'"
  by (auto dest!: save_draft_effect save_composition_effect increment_technical_attempt_effect simp: typed_change_def)

subsection \<open>Every method keeps the type\<close>

lemma typed_readable:
  assumes "typed_runs d" "reachable \<lparr>sys_db = d, sys_analyzing = A\<rparr>" "db_runs d rid = Some r"
  shows "\<exists>run. get_run rid d = Inr run"
proof -
  have phase: "in_phase (run_phase rid \<lparr>sys_db = d, sys_analyzing = A\<rparr>) (view_run rid d)"
    using inv_run_phase[OF reachable_inv[OF assms(2)], of rid] by simp
  let ?p = "run_phase rid \<lparr>sys_db = d, sys_analyzing = A\<rparr>"
  have "?p \<noteq> Absent"
    using in_phase_run[OF phase assms(3)] by auto
  then obtain c where c: "db_contexts d rid = Some c" "context_stage (phase_stage ?p) c"
    "cx_human_revision_count c = (if has_revision ?p then 1 else 0)"
    "cx_technical_attempt_count c = retries (vw_operations (view_run rid d))"
    using in_phase_context[OF phase] by (auto simp: view_simps)
  have "cx_initial_generation_count c \<in> {0, 1}" "0 \<le> cx_technical_attempt_count c"
    using c(2,4) by (auto simp: context_stage_def retries_def)
  then show ?thesis
    using assms(1,3) c(1,3)
    by (auto simp: get_run_def select_run_def validate_project_run_Inr_iff valid_run_def typed_runs_def typed_row_def)
qed

text \<open>
  C14. Every method keeps the type of the stored runs, at any time that is aware and not before the run
  was created, with any arguments and on every branch: warning codes within the limits of the model,
  both times aware and in order. In a reachable state it is enough for every stored run to be read
  without \<open>ValidationError\<close>.
\<close>

theorem methods_keep_stored_runs_valid:
  assumes "typed_runs d" "timely d rid t"
  shows "(\<forall>req run. new_project_run rid t (rc_direction req) = Inr run \<longrightarrow> typed_runs (snd (create_run run (Some req) d)))
    \<and> typed_runs (snd (claim_analysis rid t d))
    \<and> typed_runs (snd (complete_analysis rid a repair t d))
    \<and> typed_runs (snd (record_failure rid st code t d))
    \<and> typed_runs (snd (update_status rid st t d))
    \<and> typed_runs (snd (increment_technical_attempt rid d))
    \<and> typed_runs (snd (confirm_brand_lock rid lock at t d))
    \<and> typed_runs (snd (save_draft rid brief copy facts rules at t d))
    \<and> typed_runs (snd (save_composition rid composition d))
    \<and> (is_aware (cr_reviewed_at report) \<longrightarrow> typed_runs (snd (save_critique rid report d)))
    \<and> typed_runs (snd (claim_feedback_operation rid key fp cs digest t d))
    \<and> typed_runs (snd (fail_revision_operation rid oid condition action t d))
    \<and> typed_runs (snd (claim_retry_operation rid key fp t d))
    \<and> (re_revised_at revision = t \<longrightarrow> typed_runs (snd (complete_revision rid oid revision response d)))
    \<and> (\<forall>A r. reachable \<lparr>sys_db = d, sys_analyzing = A\<rparr> \<and> db_runs d rid = Some r \<longrightarrow> (\<exists>run. get_run rid d = Inr run))"
proof -
  have keep: "typed_runs (snd (m d))" if "\<And>res d'. m d = (res, d') \<Longrightarrow> typed_change rid d d'" for m :: "db \<Rightarrow> 'r \<times> db"
    using that[of "fst (m d)" "snd (m d)"] assms(1) typed_change_runs by simp
  have created: "typed_runs (snd (create_run run (Some req) d))"
    if "new_project_run rid t (rc_direction req) = Inr run" for req run
  proof -
    have "valid_run run"
      using that by (auto simp: new_project_run_def validate_project_run_Inr_iff)
    then show ?thesis
      using create_run_typed[of run req d "fst (create_run run (Some req) d)" "snd (create_run run (Some req) d)"]
        assms(1) typed_change_runs by simp
  qed
  show ?thesis
    using assms typed_readable
    by (intro conjI allI impI created keep)
      (auto intro: complete_analysis_typed record_failure_typed update_status_typed context_only
        claim_analysis_typed confirm_brand_lock_typed save_critique_typed feedback_typed fail_revision_typed
        retry_typed complete_revision_typed)
qed

theorem methods_keep_stored_runs_valid_witness:
  "typed_runs (snd (claim_analysis 1 (utc 1) (demo_db PENDING 0 (demo_context 0) None [])))
   \<and> \<not> typed_runs (snd (claim_analysis 1 (utc (- 1)) (demo_db PENDING 0 (demo_context 0) None [])))"
proof -
  let ?d = "demo_db PENDING 0 (demo_context 0) None []"
  have "typed_runs ?d" "timely ?d 1 (utc 1)"
    by (simp_all add: typed_runs_def typed_row_def timely_def demo_db_def)
  from conjunct1[OF conjunct2[OF methods_keep_stored_runs_valid[OF this]]]
  have "typed_runs (snd (claim_analysis 1 (utc 1) ?d))" .
  moreover have "snd (claim_analysis 1 (utc (- 1)) ?d) = demo_db IN_PROGRESS (- 1) (demo_context 0) None []"
  proof -
    have "update_runs 1 (\<lambda>r. rr_status r = PENDING) (set_status IN_PROGRESS (utc (- 1))) ?d
      = (Inr 1, demo_db IN_PROGRESS (- 1) (demo_context 0) None [])"
      by (simp add: update_runs_def demo_db_def set_status_def)
    then show ?thesis
      by (simp add: claim_analysis_def bind_def connect_def reads_def return_def split: sum.split)
  qed
  moreover have "\<not> typed_runs (demo_db IN_PROGRESS (- 1) (demo_context 0) None [])"
    by (simp add: typed_runs_def typed_row_def demo_db_def)
  ultimately show ?thesis
    by simp
qed

end
