(* ===== verification/Rate_Limits.thy ===== *)
theory Rate_Limits
  imports Errors
begin

section \<open>The fixed-window rate limiter\<close>

text \<open>
  The model of \<open>src/cultureshift/rate_limits.py\<close>. The limiter is a record of its limit, its
  window and the entries per key; \<open>allow\<close> is one locked section, so a run of concurrent calls
  is a sequence of them. Lemmas: the invariant of the entries, that a call touches its own key
  only, and the bound on the calls one window lets through.
\<close>

record rate_limiter =
  rl_limit :: int
  rl_window :: timedelta
  rl_entries :: "pystr \<rightharpoonup> datetime \<times> int"

definition new_rate_limiter :: "int \<Rightarrow> timedelta \<Rightarrow> rate_limiter result" where
  "new_rate_limiter limit window =
     (if limit < 1 \<or> window \<le> 0 then Inl ValueError
      else Inr \<lparr>rl_limit = limit, rl_window = window, rl_entries = Map.empty\<rparr>)"

text \<open>The window start and the count a call works with, after a stale window is reset.\<close>

definition current_window :: "rate_limiter \<Rightarrow> pystr \<Rightarrow> datetime \<Rightarrow> datetime \<times> int" where
  "current_window l key checked_at =
     (let (window_start, count) =
        (case rl_entries l key of None \<Rightarrow> (checked_at, 0) | Some e \<Rightarrow> e) in
      if instant checked_at \<ge> instant (dt_add window_start (rl_window l)) then (checked_at, 0)
      else (window_start, count))"

definition allow :: "pystr \<Rightarrow> datetime \<Rightarrow> (exn, rate_limiter, bool) prog" where
  "allow key checked_at l =
     (if key = [] then (Inl ValueError, l)
      else if \<not> is_aware checked_at then (Inl ValueError, l)
      else let (window_start, count) = current_window l key checked_at in
        if count \<ge> rl_limit l then (Inr False, l)
        else (Inr True, l\<lparr>rl_entries := (rl_entries l)(key \<mapsto> (window_start, count + 1))\<rparr>))"

text \<open>A sequence of locked calls, each with its key and its clock, and the number of those for
  \<open>key\<close> that were let through.\<close>

fun passed :: "pystr \<Rightarrow> (pystr \<times> datetime) list \<Rightarrow> rate_limiter \<Rightarrow> int" where
  "passed key [] l = 0"
| "passed key ((k, t) # calls) l =
     (case allow k t l of (r, l') \<Rightarrow>
        (if k = key \<and> r = Inr True then 1 else 0) + passed key calls l')"

text \<open>The number of calls for a key.\<close>

definition calls_for :: "pystr \<Rightarrow> (pystr \<times> datetime) list \<Rightarrow> int" where
  "calls_for key calls = int (length (filter (\<lambda>(k, t). k = key) calls))"

lemma calls_for_simps [simp]:
  "calls_for key [] = 0"
  "calls_for key ((k, t) # calls) = (if k = key then 1 else 0) + calls_for key calls"
  "0 \<le> calls_for key calls"
  by (auto simp: calls_for_def)

text \<open>A call at \<open>t\<close> opens a window for the key when the key is new or its window has ended.\<close>

definition starts_window :: "rate_limiter \<Rightarrow> pystr \<Rightarrow> datetime \<Rightarrow> bool" where
  "starts_window l key t = (case rl_entries l key of None \<Rightarrow> True
     | Some (s, c) \<Rightarrow> instant s + rl_window l \<le> instant t)"

definition limiter_inv :: "rate_limiter \<Rightarrow> bool" where
  "limiter_inv l \<longleftrightarrow> 1 \<le> rl_limit l \<and> 0 < rl_window l
     \<and> (\<forall>k t c. rl_entries l k = Some (t, c) \<longrightarrow> 1 \<le> c \<and> c \<le> rl_limit l \<and> is_aware t)"

lemma new_rate_limiter_inv: "new_rate_limiter n w = Inr l \<Longrightarrow> limiter_inv l"
  by (auto simp: new_rate_limiter_def limiter_inv_def split: if_splits)

lemma current_window_count: "limiter_inv l \<Longrightarrow> 0 \<le> snd (current_window l k t)"
  by (force simp: current_window_def limiter_inv_def Let_def split: option.splits prod.splits)

lemma current_window_aware:
  "limiter_inv l \<Longrightarrow> is_aware t \<Longrightarrow> is_aware (fst (current_window l k t))"
  by (force simp: current_window_def limiter_inv_def Let_def split: option.splits prod.splits)

lemma allow_keeps_inv [keeps_intros]: "keeps limiter_inv (allow key t)"
proof
  fix l assume inv: "limiter_inv l"
  obtain s c where w: "current_window l key t = (s, c)"
    by (cases "current_window l key t")
  show "limiter_inv (snd (allow key t l))"
    using inv current_window_count[OF inv, of key t] current_window_aware[OF inv, of t key]
    by (auto simp: allow_def w limiter_inv_def)
qed

lemma allow_parameters [simp]:
  "rl_limit (snd (allow key t l)) = rl_limit l"
  "rl_window (snd (allow key t l)) = rl_window l"
  by (auto simp: allow_def Let_def split: prod.splits)

lemma allow_other_key: "k \<noteq> key \<Longrightarrow> rl_entries (snd (allow key t l)) k = rl_entries l k"
  by (auto simp: allow_def Let_def split: prod.splits)

text \<open>Inside one window the entry counts up to the limit and the start stays put.\<close>

lemma allow_within_window:
  assumes "rl_entries l key = Some (s, c)" "instant t < instant s + rl_window l"
    "is_aware t" "key \<noteq> []"
  shows "allow key t l = (if c \<ge> rl_limit l then (Inr False, l)
     else (Inr True, l\<lparr>rl_entries := (rl_entries l)(key \<mapsto> (s, c + 1))\<rparr>))"
  using assms by (simp add: allow_def current_window_def)

text \<open>Calls for other keys, at whatever clocks, leave the count of a key alone.\<close>

lemma passed_within_window:
  assumes "rl_entries l key = Some (s, c)" "c \<le> rl_limit l" "key \<noteq> []"
    and "\<forall>(k, t) \<in> set calls. k = key \<longrightarrow> is_aware t \<and> instant t < instant s + rl_window l"
  shows "passed key calls l = min (rl_limit l - c) (calls_for key calls)"
  using assms
proof (induction calls arbitrary: l c)
  case Nil
  then show ?case by simp
next
  case (Cons call calls)
  obtain k t where call: "call = (k, t)"
    by (cases call)
  show ?case
  proof (cases "k = key \<and> c < rl_limit l")
    case True
    have "allow key t l = (Inr True, l\<lparr>rl_entries := (rl_entries l)(key \<mapsto> (s, c + 1))\<rparr>)"
      using Cons.prems True call by (subst allow_within_window[of l key s c]) auto
    with Cons.IH[of "l\<lparr>rl_entries := (rl_entries l)(key \<mapsto> (s, c + 1))\<rparr>" "c + 1"]
      Cons.prems True call show ?thesis
      by (simp add: min_def)
  next
    case False
    have "allow k t l = (Inr False, l)" if "k = key"
      using Cons.prems False call that allow_within_window[of l key s c t] by auto
    then have same: "rl_entries (snd (allow k t l)) key = Some (s, c)"
      and no: "\<not> (k = key \<and> fst (allow k t l) = Inr True)"
      using Cons.prems(1) by (cases "k = key"; simp add: allow_other_key)+
    have "passed key calls (snd (allow k t l)) = min (rl_limit l - c) (calls_for key calls)"
      using Cons.IH[of "snd (allow k t l)" c] Cons.prems same by simp
    with no False Cons.prems(2) call show ?thesis
      by (auto simp: min_def split: prod.splits)
  qed
qed

text \<open>
  C40. In every window a key is let through exactly as often as the limit still allows. Let a call for
  the key come at \<open>t\<close>: if the key is new or its window has ended, a window starts at \<open>t\<close> with
  nothing used, and otherwise the stored window goes on with its count. Of this call and any
  further calls for the key before the end of that window, in any order of their clocks and with
  any calls for other keys in between, exactly \<open>limit - used\<close> pass, or all if they are fewer.
\<close>

theorem allow_limits_each_window:
  assumes "limiter_inv l" "key \<noteq> []" "is_aware t"
    and "if starts_window l key t then start = t \<and> used = 0
         else rl_entries l key = Some (start, used)"
    and "\<forall>(k, u) \<in> set calls. k = key \<longrightarrow> is_aware u \<and> instant u < instant start + rl_window l"
  shows "passed key ((key, t) # calls) l = min (rl_limit l - used) (1 + calls_for key calls)"
proof (cases "starts_window l key t")
  case True
  define l' where "l' = l\<lparr>rl_entries := (rl_entries l)(key \<mapsto> (t, 1))\<rparr>"
  have "current_window l key t = (t, 0)"
    using assms(1) True
    by (auto simp: current_window_def starts_window_def limiter_inv_def split: option.splits)
  then have first: "allow key t l = (Inr True, l')"
    using assms(1-3) by (auto simp: allow_def limiter_inv_def l'_def)
  have "passed key calls l' = min (rl_limit l' - 1) (calls_for key calls)"
    using assms True by (intro passed_within_window) (auto simp: l'_def limiter_inv_def)
  then show ?thesis
    using assms(4) True by (simp add: first l'_def min_def)
next
  case False
  with assms(4) have entry: "rl_entries l key = Some (start, used)"
    by simp
  moreover have "instant t < instant start + rl_window l" "used \<le> rl_limit l"
    using False entry assms(1) by (auto simp: starts_window_def limiter_inv_def)
  ultimately show ?thesis
    using passed_within_window[of l key start used "(key, t) # calls"] assms(2,3,5)
    by simp
qed

text \<open>An exhausted window that ended after a minute, and another host with its own clock.\<close>

definition two_per_minute :: rate_limiter where
  "two_per_minute = \<lparr>rl_limit = 2, rl_window = seconds 60, rl_entries = [lit ''host'' \<mapsto> (utc 0, 2)]\<rparr>"

theorem allow_limits_each_window_witness:
  "passed (lit ''host'') [(lit ''host'', utc 60000000), (lit ''other'', utc 500000000), (lit ''host'', utc 119000000),
     (lit ''host'', utc 63000000)] two_per_minute = 2"
proof -
  have "starts_window two_per_minute (lit ''host'') (utc 60000000)" "limiter_inv two_per_minute"
    by (simp_all add: two_per_minute_def limiter_inv_def starts_window_def seconds_def)
  moreover have "\<forall>(k, u) \<in> set [(lit ''other'', utc 500000000), (lit ''host'', utc 119000000), (lit ''host'', utc 63000000)].
      k = lit ''host'' \<longrightarrow> is_aware u \<and> instant u < instant (utc 60000000) + rl_window two_per_minute"
    by (simp add: two_per_minute_def seconds_def lit_def)
  ultimately show ?thesis
    using allow_limits_each_window[of two_per_minute "lit ''host''" "utc 60000000" "utc 60000000" 0
      "[(lit ''other'', utc 500000000), (lit ''host'', utc 119000000), (lit ''host'', utc 63000000)]"]
    by (simp add: lit_def two_per_minute_def del: passed.simps)
qed

end
