(* ===== verification/Hashing.thy ===== *)
theory Hashing
  imports Python_Values Errors
begin

section \<open>Bytes, UTF-8, SHA-256, HMAC and base64\<close>

text \<open>
  What the code uses of \<open>hashlib\<close>, \<open>hmac\<close>, \<open>base64\<close> and \<open>str.encode\<close>, as executable
  functions on bytes: SHA-256 of FIPS 180-4 on 32-bit words, HMAC of RFC 2104, URL-safe base64
  without padding as the capability tokens encode it, and UTF-8. Lemmas: a digest has 32 bytes
  and its hexadecimal text is 64 lower-case digits (what the contracts call a SHA-256), and
  decoding what was encoded gives it back.
\<close>

subsection \<open>SHA-256\<close>

type_synonym word32 = "32 word"

definition rotr :: "nat \<Rightarrow> word32 \<Rightarrow> word32" where
  "rotr n w = word_rotr n w"

text \<open>The two constant tables of the standard are fractional parts of roots of primes: the first
  32 bits behind the point of the cube roots of the first 64 primes, and of the square roots of
  the first eight. \<open>int_root k n\<close> is the integer part of the \<open>k\<close>-th root of an \<open>n\<close> below
  \<open>2 ^ (35 k)\<close>.\<close>

definition int_root :: "nat \<Rightarrow> nat \<Rightarrow> nat" where
  "int_root k n = foldl (\<lambda>r b. if (r + 2 ^ b) ^ k \<le> n then r + 2 ^ b else r) 0 (rev [0..<35])"

definition trial_prime :: "nat \<Rightarrow> bool" where
  "trial_prime n \<longleftrightarrow> list_all (\<lambda>d. n mod d \<noteq> 0) [2..<n]"

definition sha_k :: "word32 list" where
  "sha_k = map (\<lambda>p. word_of_nat (int_root 3 (p * 2 ^ 96))) (filter trial_prime [2..<312])"

definition sha_h0 :: "word32 list" where
  "sha_h0 = map (\<lambda>p. word_of_nat (int_root 2 (p * 2 ^ 64))) [2, 3, 5, 7, 11, 13, 17, 19]"

definition be_word :: "8 word list \<Rightarrow> word32" where
  "be_word bs = foldl (\<lambda>acc b. acc * 256 + ucast b) 0 bs"

definition word_bytes :: "word32 \<Rightarrow> 8 word list" where
  "word_bytes w = [ucast (drop_bit 24 w), ucast (drop_bit 16 w), ucast (drop_bit 8 w), ucast w]"

fun chunks :: "nat \<Rightarrow> 'a list \<Rightarrow> nat \<Rightarrow> 'a list list" where
  "chunks n xs 0 = []"
| "chunks n xs (Suc k) = take n xs # chunks n (drop n xs) k"

definition sha_pad :: "8 word list \<Rightarrow> 8 word list" where
  "sha_pad m = (let n = length m; z = (119 - n mod 64) mod 64 in
     m @ [0x80] @ replicate z 0 @ map (\<lambda>i. word_of_nat (n * 8 div 256 ^ (7 - i))) [0..<8])"

text \<open>The bitwise operations of the standard, by name: the operator syntax stays off in the theories
  that import this one.\<close>

abbreviation bxor :: "'a::len word \<Rightarrow> 'a word \<Rightarrow> 'a word" where
  "bxor \<equiv> semiring_bit_operations_class.xor"

abbreviation band :: "'a::len word \<Rightarrow> 'a word \<Rightarrow> 'a word" where
  "band \<equiv> semiring_bit_operations_class.and"

abbreviation bnot :: "'a::len word \<Rightarrow> 'a word" where
  "bnot \<equiv> ring_bit_operations_class.not"

definition sha_extend :: "word32 list \<Rightarrow> word32 list" where
  "sha_extend ws = foldl (\<lambda>w i.
     let a = w ! (i - 15); b = w ! (i - 2);
         s0 = bxor (bxor (rotr 7 a) (rotr 18 a)) (drop_bit 3 a);
         s1 = bxor (bxor (rotr 17 b) (rotr 19 b)) (drop_bit 10 b)
     in w @ [w ! (i - 16) + s0 + w ! (i - 7) + s1]) ws [16..<64]"

type_synonym sha_state =
  "word32 \<times> word32 \<times> word32 \<times> word32 \<times> word32 \<times> word32 \<times> word32 \<times> word32"

fun sha_round :: "sha_state \<Rightarrow> word32 \<times> word32 \<Rightarrow> sha_state" where
  "sha_round (a, b, c, d, e, f, g, h) (k, w) =
     (let s1 = bxor (bxor (rotr 6 e) (rotr 11 e)) (rotr 25 e);
          ch = bxor (band e f) (band (bnot e) g);
          t1 = h + s1 + ch + k + w;
          s0 = bxor (bxor (rotr 2 a) (rotr 13 a)) (rotr 22 a);
          maj = bxor (bxor (band a b) (band a c)) (band b c)
      in (t1 + s0 + maj, a, b, c, d + t1, e, f, g))"

fun sha_words :: "sha_state \<Rightarrow> word32 list" where
  "sha_words (a, b, c, d, e, f, g, h) = [a, b, c, d, e, f, g, h]"

definition sha_compress :: "word32 list \<Rightarrow> 8 word list \<Rightarrow> word32 list" where
  "sha_compress hs block =
     (let ws = sha_extend (map be_word (chunks 4 block 16));
          st = foldl sha_round
            (hs ! 0, hs ! 1, hs ! 2, hs ! 3, hs ! 4, hs ! 5, hs ! 6, hs ! 7) (zip sha_k ws)
      in map2 (+) hs (sha_words st))"

definition sha256 :: "8 word list \<Rightarrow> 8 word list" where
  "sha256 m = (let p = sha_pad m in
     concat (map word_bytes (foldl sha_compress sha_h0 (chunks 64 p (length p div 64)))))"

text \<open>\<open>hexdigest()\<close>.\<close>

definition hexdigest :: "8 word list \<Rightarrow> pystr" where
  "hexdigest bs = concat (map (\<lambda>b. hex_digits 2 (unat b)) bs)"

abbreviation sha256_hex :: "8 word list \<Rightarrow> pystr" where
  "sha256_hex bs \<equiv> hexdigest (sha256 bs)"

subsection \<open>HMAC\<close>

definition hmac_sha256 :: "8 word list \<Rightarrow> 8 word list \<Rightarrow> 8 word list" where
  "hmac_sha256 key msg =
     (let k0 = (if length key > 64 then sha256 key else key);
          k = k0 @ replicate (64 - length k0) 0
      in sha256 (map (\<lambda>b. bxor b 0x5c) k @ sha256 (map (\<lambda>b. bxor b 0x36) k @ msg)))"

lemma length_word_bytes [simp]: "length (word_bytes w) = 4"
  by (simp add: word_bytes_def)

lemma length_sha_words [simp]: "length (sha_words st) = 8"
  by (cases st rule: sha_words.cases) simp

lemma length_sha_compress: "length hs = 8 \<Longrightarrow> length (sha_compress hs block) = 8"
  by (simp add: sha_compress_def Let_def)

lemma length_sha_fold: "length hs = 8 \<Longrightarrow> length (foldl sha_compress hs bs) = 8"
  by (induction bs arbitrary: hs) (simp_all add: length_sha_compress)

lemma length_concat_const: "(\<And>x. x \<in> set xs \<Longrightarrow> length (f x) = n) \<Longrightarrow>
    length (concat (map f xs)) = n * length xs"
  by (induction xs) simp_all

lemma length_sha256 [simp]: "length (sha256 m) = 32"
proof -
  have "length (foldl sha_compress sha_h0 bs) = 8" for bs
    by (rule length_sha_fold) (simp add: sha_h0_def)
  then show ?thesis
    by (simp add: sha256_def Let_def length_concat_const[where n = 4])
qed

lemma length_hexdigest: "length (hexdigest bs) = 2 * length bs"
  by (simp add: hexdigest_def length_concat_const[where n = 2])

lemma hex_digit_range: "d < 16 \<Longrightarrow> is_digit (hex_digit d) \<or> (97 \<le> hex_digit d \<and> hex_digit d \<le> 102)"
  by (auto simp: hex_digit_def is_digit_def)

lemma hexdigest_chars: "c \<in> set (hexdigest bs) \<Longrightarrow> is_digit c \<or> (97 \<le> c \<and> c \<le> 102)"
  by (auto simp: hexdigest_def hex_digits_def intro!: hex_digit_range[simplified])

lemma hexdigest_inj:
  assumes "hexdigest a = hexdigest b" "length a = length b"
  shows "a = b"
  using assms(2,1)
proof (induction a b rule: list_induct2)
  case Nil
  then show ?case by simp
next
  case (Cons x xs y ys)
  then have "hex_digits 2 (unat x) = hex_digits 2 (unat y)" "hexdigest xs = hexdigest ys"
    by (simp_all add: hexdigest_def)
  moreover have "unat w < 16 ^ 2" for w :: "8 word"
    using unsigned_less[of w] by simp
  ultimately show ?case
    using Cons.IH hex_digits_inj by (metis unsigned_word_eqI)
qed

subsection \<open>UTF-8\<close>

definition utf8_char :: "nat \<Rightarrow> 8 word list" where
  "utf8_char c = map word_of_nat
     (if c < 0x80 then [c]
      else if c < 0x800 then [0xC0 + c div 64, 0x80 + c mod 64]
      else if c < 0x10000 then [0xE0 + c div 4096, 0x80 + c div 64 mod 64, 0x80 + c mod 64]
      else [0xF0 + c div 262144, 0x80 + c div 4096 mod 64, 0x80 + c div 64 mod 64, 0x80 + c mod 64])"

text \<open>\<open>str.encode("utf-8")\<close>: surrogates raise \<open>UnicodeEncodeError\<close>, a \<open>ValueError\<close>.\<close>

definition is_surrogate :: "nat \<Rightarrow> bool" where
  "is_surrogate c \<longleftrightarrow> 0xD800 \<le> c \<and> c \<le> 0xDFFF"

definition encode_utf8 :: "pystr \<Rightarrow> bytes result" where
  "encode_utf8 s = (if list_ex is_surrogate s then Inl ValueError
     else Inr (concat (map utf8_char s)))"

text \<open>\<open>str.encode("ascii")\<close> and the inverse.\<close>

definition encode_ascii :: "pystr \<Rightarrow> bytes result" where
  "encode_ascii s = (if list_all (\<lambda>c. c < 128) s then Inr (map word_of_nat s) else Inl ValueError)"

definition ascii_text :: "bytes \<Rightarrow> pystr" where
  "ascii_text = map unat"

lemma ascii_text_encode [simp]:
  "list_all (\<lambda>c. c < 128) s \<Longrightarrow> ascii_text (map word_of_nat s) = s"
  by (induction s) (simp_all add: ascii_text_def unat_of_nat)

subsection \<open>URL-safe base64 without padding\<close>

definition b64_char :: "nat \<Rightarrow> nat" where
  "b64_char v = (if v < 26 then 65 + v else if v < 52 then 71 + v else if v < 62 then v - 4
     else if v = 62 then 45 else 95)"

definition b64_value :: "nat \<Rightarrow> nat option" where
  "b64_value c = (if is_upper c then Some (c - 65) else if is_lower c then Some (c - 71)
     else if is_digit c then Some (c + 4) else if c = 45 \<or> c = 43 then Some 62
     else if c = 95 \<or> c = 47 then Some 63 else None)"

text \<open>\<open>_encode\<close>: \<open>urlsafe_b64encode(value).rstrip(b"=")\<close>.\<close>

fun b64_encode :: "bytes \<Rightarrow> pystr" where
  "b64_encode (a # b # c # rest) =
     b64_char (unat a div 4) # b64_char (unat a mod 4 * 16 + unat b div 16)
     # b64_char (unat b mod 16 * 4 + unat c div 64) # b64_char (unat c mod 64) # b64_encode rest"
| "b64_encode [a, b] = [b64_char (unat a div 4), b64_char (unat a mod 4 * 16 + unat b div 16),
     b64_char (unat b mod 16 * 4)]"
| "b64_encode [a] = [b64_char (unat a div 4), b64_char (unat a mod 4 * 16)]"
| "b64_encode [] = []"

lemma b64_value_char [simp]: "v < 64 \<Longrightarrow> b64_value (b64_char v) = Some v"
  by (auto simp: b64_value_def b64_char_def is_upper_def is_lower_def is_digit_def)

text \<open>\<open>_decode\<close>: padding is added, then \<open>b64decode(..., altchars=b"-_", validate=True)\<close>,
  which also takes the standard characters \<open>+\<close> and \<open>/\<close>.\<close>

definition b64_pad :: "pystr \<Rightarrow> pystr" where
  "b64_pad s = s @ replicate ((4 - length s mod 4) mod 4) 61"

definition byte_of :: "nat \<Rightarrow> 8 word" where
  "byte_of n = word_of_nat n"

fun b64_decode_padded :: "pystr \<Rightarrow> bytes option" where
  "b64_decode_padded [] = Some []"
| "b64_decode_padded (a # b # c # d # rest) =
     (case (b64_value a, b64_value b) of
        (Some va, Some vb) \<Rightarrow>
          if d = 61 then
            (if rest \<noteq> [] then None
             else if c = 61 then Some [byte_of (va * 4 + vb div 16)]
             else map_option (\<lambda>vc. [byte_of (va * 4 + vb div 16), byte_of (vb mod 16 * 16 + vc div 4)])
               (b64_value c))
          else (case (b64_value c, b64_value d) of
            (Some vc, Some vd) \<Rightarrow> map_option (\<lambda>bs. byte_of (va * 4 + vb div 16)
                # byte_of (vb mod 16 * 16 + vc div 4) # byte_of (vc mod 4 * 64 + vd) # bs)
              (b64_decode_padded rest)
          | _ \<Rightarrow> None)
      | _ \<Rightarrow> None)"
| "b64_decode_padded _ = None"

definition b64_decode :: "pystr \<Rightarrow> bytes result" where
  "b64_decode s = (case b64_decode_padded (b64_pad s) of
     None \<Rightarrow> Inl ValueError | Some bs \<Rightarrow> Inr bs)"

lemma b64_pad_group: "b64_pad (a # b # c # d # s) = a # b # c # d # b64_pad s"
  by (simp add: b64_pad_def)

lemma byte_nat [simp]:
  fixes b :: "8 word"
  shows "unat b < 256" "unat b div 4 < 64" "unat b div 16 < 16" "unat b div 64 < 4"
proof -
  show "unat b < 256"
    using unsigned_less[of b, where 'a = nat] by simp
  then show "unat b div 4 < 64" "unat b div 16 < 16" "unat b div 64 < 4"
    by (simp_all add: less_mult_imp_div_less)
qed

lemma byte_of_unat [simp]: "byte_of (unat b) = b"
  by (simp add: byte_of_def)

lemma b64_group:
  fixes a b c :: "8 word"
  shows "byte_of (unat a div 4 * 4 + (unat a mod 4 * 16 + unat b div 16) div 16) = a"
    and "byte_of ((unat a mod 4 * 16 + unat b div 16) mod 16 * 16
           + (unat b mod 16 * 4 + unat c div 64) div 4) = b"
    and "byte_of ((unat b mod 16 * 4 + unat c div 64) mod 4 * 64 + unat c mod 64) = c"
proof -
  have "unat b div 16 < 16" "unat c div 64 < 4"
    by simp_all
  then have "(unat a mod 4 * 16 + unat b div 16) div 16 = unat a mod 4"
    "(unat a mod 4 * 16 + unat b div 16) mod 16 = unat b div 16"
    "(unat b mod 16 * 4 + unat c div 64) div 4 = unat b mod 16"
    "(unat b mod 16 * 4 + unat c div 64) mod 4 = unat c div 64"
    by simp_all
  then show "byte_of (unat a div 4 * 4 + (unat a mod 4 * 16 + unat b div 16) div 16) = a"
    "byte_of ((unat a mod 4 * 16 + unat b div 16) mod 16 * 16
       + (unat b mod 16 * 4 + unat c div 64) div 4) = b"
    "byte_of ((unat b mod 16 * 4 + unat c div 64) mod 4 * 64 + unat c mod 64) = c"
    by (simp_all only: div_mult_mod_eq byte_of_unat)
qed

lemma b64_char_not_pad [simp]: "v < 64 \<Longrightarrow> b64_char v \<noteq> 61"
  by (auto simp: b64_char_def)

lemma six_bits [simp]:
  fixes a b c :: "8 word"
  shows "unat a mod 4 * 16 + unat b div 16 < 64" "unat b mod 16 * 4 + unat c div 64 < 64"
    "unat a mod 4 * 16 < 64" "unat a mod 16 * 4 < 64"
proof -
  have "unat b div 16 < 16" "unat c div 64 < 4" "unat a mod 4 < 4" "unat b mod 16 < 16"
    "unat a mod 16 < 16"
    by simp_all
  then show "unat a mod 4 * 16 + unat b div 16 < 64" "unat b mod 16 * 4 + unat c div 64 < 64"
    "unat a mod 4 * 16 < 64" "unat a mod 16 * 4 < 64"
    by linarith+
qed

lemma b64_decode_encode_padded: "b64_decode_padded (b64_pad (b64_encode bs)) = Some bs"
proof (induction bs rule: b64_encode.induct)
  case (1 a b c rest)
  then show ?case
    using b64_group(1)[of a b] b64_group(2)[of a b c] b64_group(3)[of b c] by (simp add: b64_pad_group)
next
  case (2 a b)
  then show ?case
    using b64_group(1)[of a b] b64_group(2)[of a b 0] by (simp add: b64_pad_def)
next
  case (3 a)
  then show ?case
    using b64_group(1)[of a 0] by (simp add: b64_pad_def numeral_2_eq_2)
next
  case 4
  then show ?case by (simp add: b64_pad_def)
qed

lemma b64_decode_encode [simp]: "b64_decode (b64_encode bs) = Inr bs"
  by (simp add: b64_decode_def b64_decode_encode_padded)

lemma b64_char_range: "v < 64 \<Longrightarrow> b64_char v < 128 \<and> b64_char v \<noteq> 46"
  by (auto simp: b64_char_def)

lemma b64_encode_chars: "c \<in> set (b64_encode bs) \<Longrightarrow> c < 128 \<and> c \<noteq> 46"
  by (induction bs rule: b64_encode.induct) (auto simp: b64_char_range)

end
