(* ===== verification/Media_Types.thy ===== *)
theory Media_Types
  imports Hashing Contracts
begin

section \<open>Media types of image data\<close>

text \<open>
  \<open>detect_media_type\<close>, \<open>_EXTENSIONS\<close> and the size limits of \<open>src/cultureshift/asset_storage.py\<close>,
  which the upload, the analysis and the composition stores share: the type of image data is read
  off its first and last bytes.
\<close>

definition PNG_SIGNATURE :: bytes where
  "PNG_SIGNATURE = [0x89, 0x50, 0x4E, 0x47, 0x0D, 0x0A, 0x1A, 0x0A]"

definition MAX_ASSET_BYTES :: nat where
  "MAX_ASSET_BYTES = 10 * 1024 * 1024"

definition MAX_METADATA_BYTES :: nat where
  "MAX_METADATA_BYTES = 64 * 1024"

abbreviation image_png :: pystr where
  "image_png \<equiv> lit ''image/png''"

abbreviation image_jpeg :: pystr where
  "image_jpeg \<equiv> lit ''image/jpeg''"

definition detect_media_type :: "bytes \<Rightarrow> pystr option" where
  "detect_media_type data =
     (if startswith data PNG_SIGNATURE then Some image_png
      else if startswith data [0xFF, 0xD8, 0xFF] \<and> endswith data [0xFF, 0xD9] then Some image_jpeg
      else None)"

text \<open>The table \<open>_EXTENSIONS\<close>.\<close>

definition extension_of :: "pystr \<Rightarrow> pystr option" where
  "extension_of media_type =
     (if media_type = image_png then Some (lit ''png'')
      else if media_type = image_jpeg then Some (lit ''jpg'')
      else None)"

lemma detected_types: "detect_media_type data = Some t \<Longrightarrow> t \<in> {image_png, image_jpeg}"
  by (auto simp: detect_media_type_def split: if_splits)

lemma detected_extension: "detect_media_type data = Some t \<Longrightarrow> extension_of t \<noteq> None"
  by (auto simp: extension_of_def dest!: detected_types)

lemma detected_nonempty: "detect_media_type data \<noteq> None \<Longrightarrow> data \<noteq> []"
  by (auto simp: detect_media_type_def startswith_def PNG_SIGNATURE_def split: if_splits)

lemma image_types_valid: "is_media_type image_png" "is_media_type image_jpeg"
  by (simp_all add: is_media_type_def is_media_token_def lit_def is_lower_def is_digit_def)

lemma image_types_strip: "strip_text image_png = image_png" "strip_text image_jpeg = image_jpeg"
  by (simp_all add: strip_text_def strip_by_def lit_def is_white_def)

text \<open>A digest in hexadecimal is what the contracts accept as a SHA-256.\<close>

lemma is_sha256_hex: "is_sha256 (sha256_hex data)"
  using hexdigest_chars[of _ "sha256 data"]
  by (auto simp: is_sha256_def length_hexdigest list_all_iff)

lemma hex_text_strip:
  assumes "\<forall>c \<in> set s. is_digit c \<or> (97 \<le> c \<and> c \<le> 102)"
  shows "strip_text s = s"
proof (cases "s = []")
  case True
  then show ?thesis
    by (simp add: strip_text_def strip_by_def)
next
  case False
  have white: "\<not> is_white c" if "is_digit c \<or> (97 \<le> c \<and> c \<le> 102)" for c
    using that by (auto simp: is_white_def is_digit_def)
  from False have "hd s \<in> set s" "last s \<in> set s"
    by simp_all
  with assms white have "\<not> is_white (hd s)" "\<not> is_white (last s)"
    by blast+
  then show ?thesis
    using False by (simp add: strip_text_def strip_by_id)
qed

lemma is_sha256_strip [simp]: "is_sha256 s \<Longrightarrow> strip_text s = s"
  by (rule hex_text_strip) (simp add: is_sha256_def list_all_iff)

end
