(* ===== verification/Analysis.thy ===== *)
theory Analysis
  imports Media_Types Brand_Lock
begin

section \<open>Vision providers and the analysis pipeline\<close>

text \<open>
  The models of \<open>src/cultureshift/analysis_provider.py\<close> and \<open>analysis_pipeline.py\<close>. A provider
  is a program on a state of its own, because the code's \<open>FakeProvider\<close> counts its calls; what it
  returns is an instance of the result model, a mapping with the fields of one, or anything else.
  The lemmas characterise the pipeline: the provider is asked at most twice, the repair only
  after an invalid answer, and an outcome carries the Brand Lock and the asset of the request
  unchanged and only pending hypotheses about the target market.
\<close>

subsection \<open>Requests and results\<close>

record vision_request =
  vq_content :: bytes
  vq_source_asset :: asset_ref
  vq_direction :: localization_direction
  vq_brand_lock :: brand_lock
  vq_product_category :: pystr
  vq_creative_format :: pystr

record provider_result =
  vp_detected_locale :: locale_tag
  vp_hypotheses :: "cultural_hypothesis list"
  vp_warnings :: "pystr list"
  vp_instruction_like :: bool
  vp_prohibited :: bool

datatype attempt = ATTEMPT_INITIAL | ATTEMPT_REPAIR

datatype raw_result =
    Raw_Model provider_result
  | Raw_Fields provider_result
  | Raw_Malformed

text \<open>\<open>VisionProviderResult.model_validate\<close>: an instance is taken as it is, a mapping is
  stripped and validated, the nested hypotheses included.\<close>

definition strip_hypothesis :: "cultural_hypothesis \<Rightarrow> cultural_hypothesis" where
  "strip_hypothesis h = h\<lparr>hy_claim := strip_text (hy_claim h),
     hy_evidence_refs := map strip_text (hy_evidence_refs h),
     hy_rationale := strip_text (hy_rationale h),
     hy_validation_requirements := map strip_text (hy_validation_requirements h)\<rparr>"

definition strip_provider_result :: "provider_result \<Rightarrow> provider_result" where
  "strip_provider_result r = r\<lparr>vp_hypotheses := map strip_hypothesis (vp_hypotheses r),
     vp_warnings := map strip_text (vp_warnings r)\<rparr>"

definition valid_provider_result :: "provider_result \<Rightarrow> bool" where
  "valid_provider_result r \<longleftrightarrow> length (vp_hypotheses r) \<le> 32
     \<and> list_all valid_cultural_hypothesis (vp_hypotheses r) \<and> valid_warnings (vp_warnings r)"

definition model_validate_result :: "raw_result \<Rightarrow> provider_result result" where
  "model_validate_result raw = (case raw of
     Raw_Model r \<Rightarrow> Inr r
   | Raw_Fields f \<Rightarrow> (let r = strip_provider_result f in
       if valid_provider_result r then Inr r else Inl ValidationError)
   | Raw_Malformed \<Rightarrow> Inl ValidationError)"

type_synonym 'p provider = "vision_request \<Rightarrow> attempt \<Rightarrow> (exn, 'p, raw_result) prog"

subsection \<open>The providers of the code\<close>

record fake_provider =
  fk_result :: raw_result
  fk_repair_result :: "raw_result option"
  fk_call_count :: int
  fk_attempts :: "attempt list"

definition new_fake_provider :: "raw_result \<Rightarrow> raw_result option \<Rightarrow> fake_provider" where
  "new_fake_provider r repair = \<lparr>fk_result = r, fk_repair_result = repair, fk_call_count = 0,
     fk_attempts = []\<rparr>"

definition fake_analyze :: "fake_provider provider" where
  "fake_analyze request attempt p =
     (let p' = p\<lparr>fk_call_count := fk_call_count p + 1, fk_attempts := fk_attempts p @ [attempt]\<rparr> in
      case fk_repair_result p of
        Some r \<Rightarrow> if attempt = ATTEMPT_REPAIR then (Inr r, p') else (Inr (fk_result p), p')
      | None \<Rightarrow> (Inr (fk_result p), p'))"

fun source_locale :: "localization_direction \<Rightarrow> locale_tag" where
  "source_locale CHINA_TO_UK = ZH_CN"
| "source_locale UK_TO_CHINA = EN_GB"

definition fixture_result :: "localization_direction \<Rightarrow> provider_result" where
  "fixture_result d = \<lparr>vp_detected_locale = source_locale d, vp_hypotheses = [],
     vp_warnings = [lit ''fixture_provider'', lit ''human_review_required''],
     vp_instruction_like = False, vp_prohibited = False\<rparr>"

definition fixture_analyze :: "'p provider" where
  "fixture_analyze request attempt = return (Raw_Model (fixture_result (vq_direction request)))"

subsection \<open>The safety gate\<close>

definition supported_media_types :: "pystr list" where
  "supported_media_types = [image_png, image_jpeg]"

definition supported_categories :: "pystr list" where
  "supported_categories = [lit ''ai_software'', lit ''ai_application'']"

definition gate_request :: "vision_request \<Rightarrow> datetime \<Rightarrow> unit result" where
  "gate_request q now =
     (let detected = detect_media_type (vq_content q) in
      if detected = None \<or> the detected \<notin> set supported_media_types
        \<or> the detected \<noteq> as_media_type (vq_source_asset q)
      then Inl (AnalysisPipelineError INVALID_INPUT)
      else if vq_product_category q \<notin> set supported_categories
        \<or> vq_creative_format q \<noteq> lit ''static_ad''
      then Inl (AnalysisPipelineError UNSUPPORTED_SCOPE)
      else case as_expires_at (vq_source_asset q) of
        None \<Rightarrow> Inr ()
      | Some t \<Rightarrow> if instant t \<le> instant now then Inl (AnalysisPipelineError ASSET_CLOSED)
          else Inr ())"

fun expected_market :: "localization_direction \<Rightarrow> market" where
  "expected_market CHINA_TO_UK = MARKET_UNITED_KINGDOM"
| "expected_market UK_TO_CHINA = MARKET_CHINA"

definition gate_result :: "vision_request \<Rightarrow> provider_result \<Rightarrow> unit result" where
  "gate_result q r =
     (if vp_instruction_like r then Inl (AnalysisPipelineError INSTRUCTION_LIKE_CONTENT)
      else if vp_prohibited r then Inl (AnalysisPipelineError PROHIBITED_CONTENT)
      else if list_ex (\<lambda>h. hy_review_status h \<noteq> REVIEW_PENDING
          \<or> hy_target_market h \<noteq> expected_market (vq_direction q)) (vp_hypotheses r)
      then Inl (AnalysisPipelineError UNSAFE_HYPOTHESIS)
      else Inr ())"

subsection \<open>The pipeline\<close>

record analysis_outcome =
  ao_analysis :: ad_analysis
  ao_repair_attempted :: bool

definition call_provider ::
  "'p provider \<Rightarrow> vision_request \<Rightarrow> attempt \<Rightarrow> (exn, 'p, raw_result) prog" where
  "call_provider provider q attempt =
     catch (provider q attempt) (\<lambda>_. raise (AnalysisPipelineError PROVIDER_FAILED))"

definition validate_provider_result :: "raw_result \<Rightarrow> provider_result result" where
  "validate_provider_result raw = (case model_validate_result raw of
     Inl e \<Rightarrow> if e \<in> {TypeError, ValidationError}
       then Inl (AnalysisPipelineError PROVIDER_OUTPUT_INVALID) else Inl e
   | Inr r \<Rightarrow> Inr r)"

definition ask_provider ::
  "'p provider \<Rightarrow> vision_request \<Rightarrow> attempt \<Rightarrow> (exn, 'p, provider_result) prog" where
  "ask_provider provider q attempt =
     bind (call_provider provider q attempt) (\<lambda>raw. liftR (validate_provider_result raw))"

definition run_pipeline ::
  "'p provider \<Rightarrow> vision_request \<Rightarrow> datetime \<Rightarrow> (exn, 'p, analysis_outcome) prog" where
  "run_pipeline provider q now =
     bind (liftR (gate_request q now)) (\<lambda>_.
     bind (catch (bind (ask_provider provider q ATTEMPT_INITIAL) (\<lambda>r. return (r, False)))
       (\<lambda>e. if e \<noteq> AnalysisPipelineError PROVIDER_OUTPUT_INVALID then raise e
            else bind (ask_provider provider q ATTEMPT_REPAIR) (\<lambda>r. return (r, True)))) (\<lambda>(r, repaired).
     bind (liftR (gate_result q r)) (\<lambda>_.
     bind (liftR (make_ad_analysis \<lparr>an_source_asset = vq_source_asset q,
       an_detected_locale = vp_detected_locale r, an_brand_lock = vq_brand_lock q,
       an_hypotheses = vp_hypotheses r, an_warnings = vp_warnings r\<rparr>)) (\<lambda>a.
     return \<lparr>ao_analysis = a, ao_repair_attempted = repaired\<rparr>))))"

subsection \<open>Properties of the pipeline\<close>

lemma model_validate_error: "model_validate_result raw = Inl e \<Longrightarrow> e = ValidationError"
  by (auto simp: model_validate_result_def Let_def split: raw_result.splits if_splits)

lemma validate_provider_result_eq:
  "validate_provider_result raw = (case model_validate_result raw of
     Inl e \<Rightarrow> Inl (AnalysisPipelineError PROVIDER_OUTPUT_INVALID) | Inr r \<Rightarrow> Inr r)"
  by (auto simp: validate_provider_result_def dest: model_validate_error split: sum.splits)

lemma ask_provider_eq:
  "ask_provider provider q a s = (case provider q a s of
     (Inl e, s') \<Rightarrow> (Inl (AnalysisPipelineError PROVIDER_FAILED), s')
   | (Inr raw, s') \<Rightarrow> (case model_validate_result raw of
       Inl e \<Rightarrow> (Inl (AnalysisPipelineError PROVIDER_OUTPUT_INVALID), s') | Inr r \<Rightarrow> (Inr r, s')))"
  by (simp add: ask_provider_def call_provider_def bind_def catch_def validate_provider_result_eq
      split: prod.split sum.split)

text \<open>The first answer of a provider is invalid: the case in which the code asks again.\<close>

definition invalid_answer :: "'p provider \<Rightarrow> vision_request \<Rightarrow> 'p \<Rightarrow> bool" where
  "invalid_answer provider q s = (case fst (provider q ATTEMPT_INITIAL s) of
     Inl e \<Rightarrow> False | Inr raw \<Rightarrow> isl (model_validate_result raw))"

text \<open>What the two questions come to.\<close>

definition answers ::
  "'p provider \<Rightarrow> vision_request \<Rightarrow> 'p \<Rightarrow> (exn + provider_result \<times> bool) \<times> 'p" where
  "answers provider q s = (case ask_provider provider q ATTEMPT_INITIAL s of
     (Inr r, s') \<Rightarrow> (Inr (r, False), s')
   | (Inl e, s') \<Rightarrow>
       if e \<noteq> AnalysisPipelineError PROVIDER_OUTPUT_INVALID then (Inl e, s')
       else (case ask_provider provider q ATTEMPT_REPAIR s' of
         (Inr r, s'') \<Rightarrow> (Inr (r, True), s'') | (Inl e', s'') \<Rightarrow> (Inl e', s'')))"

lemma run_pipeline_eq:
  "run_pipeline provider q now s = (case gate_request q now of
     Inl e \<Rightarrow> (Inl e, s)
   | Inr _ \<Rightarrow> (case answers provider q s of
       (Inl e, s') \<Rightarrow> (Inl e, s')
     | (Inr (r, repaired), s') \<Rightarrow> (bindR (gate_result q r) (\<lambda>_.
         bindR (make_ad_analysis \<lparr>an_source_asset = vq_source_asset q,
           an_detected_locale = vp_detected_locale r, an_brand_lock = vq_brand_lock q,
           an_hypotheses = vp_hypotheses r, an_warnings = vp_warnings r\<rparr>) (\<lambda>a.
         Inr \<lparr>ao_analysis = a, ao_repair_attempted = repaired\<rparr>)), s')))"
  by (simp add: run_pipeline_def answers_def bind_def catch_def bindR_def
      split: prod.split sum.split)

text \<open>A provider that keeps a log of the questions it is asked.\<close>

definition counted :: "'p provider \<Rightarrow> (attempt list \<times> 'p) provider" where
  "counted provider q a st = (case st of (log, s) \<Rightarrow>
     (case provider q a s of (r, s') \<Rightarrow> (r, (log @ [a], s'))))"

lemma ask_counted:
  "ask_provider (counted provider) q a (log, s) =
     (case ask_provider provider q a s of (r, s') \<Rightarrow> (r, (log @ [a], s')))"
  by (simp add: ask_provider_eq counted_def split: prod.split sum.split)

lemma ask_invalid_iff:
  "fst (ask_provider provider q ATTEMPT_INITIAL s) = Inl (AnalysisPipelineError PROVIDER_OUTPUT_INVALID)
     \<longleftrightarrow> invalid_answer provider q s"
  by (auto simp: ask_provider_eq invalid_answer_def isl_def split: prod.splits sum.splits)

lemma answers_counted:
  "snd (answers (counted provider) q (log, s)) = (log @ (if invalid_answer provider q s
     then [ATTEMPT_INITIAL, ATTEMPT_REPAIR] else [ATTEMPT_INITIAL]), snd (answers provider q s))"
proof (cases "ask_provider provider q ATTEMPT_INITIAL s")
  case (Pair r s')
  then have "r = Inl (AnalysisPipelineError PROVIDER_OUTPUT_INVALID) \<longleftrightarrow> invalid_answer provider q s"
    using ask_invalid_iff[of provider q s] by simp
  then show ?thesis
    by (auto simp: answers_def ask_counted Pair split: sum.splits prod.splits)
qed

lemma run_pipeline_state:
  "snd (run_pipeline provider q now s) = (if gate_request q now = Inr () then snd (answers provider q s) else s)"
  by (cases "gate_request q now") (auto simp: run_pipeline_eq split: prod.split sum.split)

text \<open>
  The pipeline asks a provider at most twice: not at all for a request the safety gate
  refuses, once in the normal case, and a second time, with the repair attempt, exactly when the
  first answer does not validate; a provider that raises is not asked again.
\<close>

theorem provider_asked_at_most_twice:
  "fst (snd (run_pipeline (counted provider) q now (log, s))) =
     log @ (if gate_request q now \<noteq> Inr () then []
       else if invalid_answer provider q s then [ATTEMPT_INITIAL, ATTEMPT_REPAIR]
       else [ATTEMPT_INITIAL])"
  by (simp add: run_pipeline_state answers_counted)

lemma answers_repaired:
  "answers provider q s = (Inr (r, repaired), s') \<Longrightarrow> repaired \<longleftrightarrow> invalid_answer provider q s"
  using ask_invalid_iff[of provider q s]
  by (auto simp: answers_def split: prod.splits sum.splits if_splits)

lemma run_pipeline_InrE:
  assumes "run_pipeline provider q now s = (Inr a, s')"
  obtains r where "gate_request q now = Inr ()" "answers provider q s = (Inr (r, ao_repair_attempted a), s')"
    "gate_result q r = Inr ()"
    "make_ad_analysis \<lparr>an_source_asset = vq_source_asset q,
       an_detected_locale = vp_detected_locale r, an_brand_lock = vq_brand_lock q,
       an_hypotheses = vp_hypotheses r, an_warnings = vp_warnings r\<rparr> = Inr (ao_analysis a)"
  using assms by (auto simp: run_pipeline_eq split: prod.splits sum.splits)

lemma make_ad_analysis_fields:
  "make_ad_analysis a = Inr a' \<Longrightarrow> an_source_asset a' = an_source_asset a
     \<and> an_detected_locale a' = an_detected_locale a \<and> an_brand_lock a' = an_brand_lock a
     \<and> an_hypotheses a' = an_hypotheses a"
  by (auto simp: make_ad_analysis_def Let_def split: if_splits)

text \<open>
  Whatever the provider answers, an analysis that comes out of the pipeline is valid, is about
  the asset and the Brand Lock of the request, comes from an image whose bytes have the declared
  type and which has not expired, and has only pending hypotheses about the target market.
\<close>

theorem analysis_keeps_request:
  assumes "run_pipeline provider q now s = (Inr a, s')"
  shows "valid_ad_analysis (ao_analysis a)
    \<and> an_source_asset (ao_analysis a) = vq_source_asset q
    \<and> an_brand_lock (ao_analysis a) = vq_brand_lock q
    \<and> detect_media_type (vq_content q) = Some (as_media_type (vq_source_asset q))
    \<and> (\<forall>t. as_expires_at (vq_source_asset q) = Some t \<longrightarrow> instant now < instant t)
    \<and> (\<forall>h \<in> set (an_hypotheses (ao_analysis a)). hy_review_status h = REVIEW_PENDING
        \<and> hy_target_market h = expected_market (vq_direction q))
    \<and> (ao_repair_attempted a \<longleftrightarrow> invalid_answer provider q s)"
proof -
  from assms obtain r where r: "gate_request q now = Inr ()"
    "answers provider q s = (Inr (r, ao_repair_attempted a), s')" "gate_result q r = Inr ()"
    and analysis: "make_ad_analysis \<lparr>an_source_asset = vq_source_asset q,
       an_detected_locale = vp_detected_locale r, an_brand_lock = vq_brand_lock q,
       an_hypotheses = vp_hypotheses r, an_warnings = vp_warnings r\<rparr> = Inr (ao_analysis a)"
    by (rule run_pipeline_InrE)
  have gate: "detect_media_type (vq_content q) = Some (as_media_type (vq_source_asset q))
    \<and> (\<forall>t. as_expires_at (vq_source_asset q) = Some t \<longrightarrow> instant now < instant t)"
    using r(1) by (auto simp: gate_request_def Let_def split: if_splits option.splits)
  have hyps: "\<forall>h \<in> set (vp_hypotheses r). hy_review_status h = REVIEW_PENDING
      \<and> hy_target_market h = expected_market (vq_direction q)"
    using r(3) by (auto simp: gate_result_def list_ex_iff split: if_splits)
  show ?thesis
    using gate hyps make_ad_analysis_valid[OF analysis] make_ad_analysis_fields[OF analysis]
      answers_repaired[OF r(2)] by simp
qed

subsection \<open>The provider protocol\<close>

text \<open>What a \<open>VisionProvider\<close> promises: an instance of the result model has been validated.\<close>

locale vision_provider =
  fixes provider :: "vision_request \<Rightarrow> attempt \<Rightarrow> 'p \<Rightarrow> (exn + raw_result) \<times> 'p"
  assumes provider_valid: "provider q a s = (Inr (Raw_Model r), s') \<Longrightarrow> valid_provider_result r"
begin

lemma asked_valid:
  assumes "ask_provider provider q a s = (Inr r, s')"
  shows "valid_provider_result r"
  using assms provider_valid
  by (auto simp: ask_provider_eq model_validate_result_def Let_def
      split: prod.splits sum.splits raw_result.splits if_splits)

lemma answers_valid: "answers provider q s = (Inr (r, repaired), s') \<Longrightarrow> valid_provider_result r"
  by (auto simp: answers_def dest: asked_valid split: prod.splits sum.splits if_splits)

lemma answers_error: "answers provider q s = (Inl e, s') \<Longrightarrow> \<exists>c. e = AnalysisPipelineError c"
  by (auto simp: answers_def ask_provider_eq split: prod.splits sum.splits if_splits)

text \<open>With a provider that keeps the protocol, every error is one of the pipeline's own codes.\<close>

lemma pipeline_error:
  assumes "run_pipeline provider q now s = (Inl e, s')"
  shows "\<exists>c. e = AnalysisPipelineError c"
proof (cases "gate_request q now")
  case (Inl e')
  then show ?thesis
    using assms by (auto simp: run_pipeline_eq gate_request_def Let_def split: if_splits option.splits)
next
  case (Inr u)
  show ?thesis
  proof (cases "answers provider q s")
    case (Pair r s'')
    show ?thesis
    proof (cases r)
      case (Inl e')
      then show ?thesis
        using assms Inr Pair answers_error by (auto simp: run_pipeline_eq)
    next
      case (Inr p)
      obtain v b where p: "p = (v, b)"
        by (cases p)
      then have "valid_provider_result v"
        using Inr Pair answers_valid by simp
      then have "make_ad_analysis \<lparr>an_source_asset = vq_source_asset q,
           an_detected_locale = vp_detected_locale v, an_brand_lock = vq_brand_lock q,
           an_hypotheses = vp_hypotheses v, an_warnings = vp_warnings v\<rparr>
         = Inr \<lparr>an_source_asset = vq_source_asset q,
           an_detected_locale = vp_detected_locale v, an_brand_lock = vq_brand_lock q,
           an_hypotheses = vp_hypotheses v, an_warnings = vp_warnings v\<rparr>"
        by (intro make_ad_analysis_id) (simp add: valid_provider_result_def valid_ad_analysis_def)
      then show ?thesis
        using assms \<open>gate_request q now = Inr u\<close> Pair Inr p
        by (auto simp: run_pipeline_eq bindR_Inl_iff gate_result_def split: if_splits)
    qed
  qed
qed

end

lemma fixture_result_valid: "valid_provider_result (fixture_result d)"
  by (simp add: valid_provider_result_def fixture_result_def valid_warnings_def code_literals)

interpretation fixture_vision: vision_provider "fixture_analyze :: 'p provider"
  by unfold_locales (auto simp: fixture_analyze_def fixture_result_valid)

definition fixture_analysis :: "vision_request \<Rightarrow> ad_analysis" where
  "fixture_analysis q = \<lparr>an_source_asset = vq_source_asset q,
     an_detected_locale = source_locale (vq_direction q), an_brand_lock = vq_brand_lock q,
     an_hypotheses = [],
     an_warnings = [lit ''fixture_provider'', lit ''human_review_required'']\<rparr>"

text \<open>
  With the fixture provider the pipeline is a function of the request: it passes the gate's
  refusal on, and otherwise returns the fixture analysis, which names no hypothesis and asks for
  human review, without a repair.
\<close>

theorem fixture_analysis_outcome:
  "run_pipeline fixture_analyze q now s = (case gate_request q now of
     Inl e \<Rightarrow> (Inl e, s)
   | Inr _ \<Rightarrow> (Inr \<lparr>ao_analysis = fixture_analysis q, ao_repair_attempted = False\<rparr>, s))"
proof -
  have "make_ad_analysis (fixture_analysis q) = Inr (fixture_analysis q)"
    by (rule make_ad_analysis_id)
      (simp add: valid_ad_analysis_def fixture_analysis_def valid_warnings_def code_literals)
  then show ?thesis
    by (simp add: run_pipeline_eq answers_def ask_provider_eq fixture_analyze_def fixture_result_def
        model_validate_result_def gate_result_def fixture_analysis_def split: sum.split)
qed

subsection \<open>Witness\<close>

definition sample_vision_request :: vision_request where
  "sample_vision_request = \<lparr>vq_content = PNG_SIGNATURE @ [0],
     vq_source_asset = \<lparr>as_asset_id = 7, as_kind = SOURCE_AD, as_media_type = image_png,
       as_sha256 = sha256_hex (PNG_SIGNATURE @ [0]), as_provenance_ref = lit ''fixture:orbit'',
       as_rights_ref = lit ''rights:orbit'', as_expires_at = Some (utc 100)\<rparr>,
     vq_direction = CHINA_TO_UK, vq_brand_lock = orbit_lock,
     vq_product_category = lit ''ai_software'', vq_creative_format = lit ''static_ad''\<rparr>"

lemma sample_vision_gate: "gate_request sample_vision_request (utc 5) = Inr ()"
  by (simp add: gate_request_def sample_vision_request_def detect_media_type_def startswith_def
      PNG_SIGNATURE_def supported_media_types_def supported_categories_def)

lemma sample_vision_direction: "vq_direction sample_vision_request = CHINA_TO_UK"
  by (simp add: sample_vision_request_def)

theorem analysis_keeps_request_witness:
  "\<exists>a p. run_pipeline fake_analyze sample_vision_request (utc 5)
       (new_fake_provider Raw_Malformed (Some (Raw_Model (fixture_result CHINA_TO_UK)))) = (Inr a, p)
     \<and> ao_repair_attempted a \<and> fk_call_count p = 2"
proof -
  let ?p = "new_fake_provider Raw_Malformed (Some (Raw_Model (fixture_result CHINA_TO_UK)))"
  have valid: "make_ad_analysis (fixture_analysis sample_vision_request)
      = Inr (fixture_analysis sample_vision_request)"
    by (rule make_ad_analysis_id)
      (simp add: valid_ad_analysis_def fixture_analysis_def valid_warnings_def code_literals)
  obtain a p where run: "run_pipeline fake_analyze sample_vision_request (utc 5) ?p = (Inr a, p)"
    "fk_call_count p = 2"
    using valid
    by (simp add: run_pipeline_eq answers_def ask_provider_eq fake_analyze_def new_fake_provider_def
        model_validate_result_def gate_result_def sample_vision_gate fixture_result_def
        fixture_analysis_def Let_def sample_vision_direction)
  moreover have "invalid_answer fake_analyze sample_vision_request ?p"
    by (simp add: invalid_answer_def fake_analyze_def new_fake_provider_def model_validate_result_def
        Let_def)
  ultimately show ?thesis
    using analysis_keeps_request[OF run(1)] by blast
qed

end
