(* ===== verification/Text_Layout.thy ===== *)
theory Text_Layout
  imports Complex_Main Errors
begin

section \<open>Breaking text into lines\<close>

text \<open>
  The text functions of \<open>src/cultureshift/composition.py\<close>: \<open>_is_cjk\<close>, \<open>_text_units\<close> and
  \<open>_wrap_text\<close>. A font is known only by \<open>getlength\<close>, the width it gives a text; the limits are
  the arguments of the code. The lemmas say that a wrapped text has only lines that fit, at most
  as many as allowed, and shows every character of the text in order, and that the result is the
  greedy layout of the text's units, or a refusal exactly when that layout does not exist.
\<close>

definition is_cjk :: "nat \<Rightarrow> bool" where
  "is_cjk c \<longleftrightarrow> (0x3400 \<le> c \<and> c \<le> 0x4DBF) \<or> (0x4E00 \<le> c \<and> c \<le> 0x9FFF)
     \<or> (0xF900 \<le> c \<and> c \<le> 0xFAFF)"

subsection \<open>\<open>" ".join(text.split())\<close>\<close>

function split_words :: "pystr \<Rightarrow> pystr list" where
  "split_words [] = []"
| "split_words (c # s) =
     (if is_space c then split_words s
      else (c # takeWhile (\<lambda>d. \<not> is_space d) s) # split_words (dropWhile (\<lambda>d. \<not> is_space d) s))"
  by pat_completeness auto
termination
  by (relation "measure length") (auto intro: le_less_trans[OF length_dropWhile_le])

fun join_words :: "pystr list \<Rightarrow> pystr" where
  "join_words [] = []"
| "join_words [w] = w"
| "join_words (w # ws) = w @ [32] @ join_words ws"

definition normalized :: "pystr \<Rightarrow> pystr" where
  "normalized s = join_words (split_words s)"

subsection \<open>\<open>_text_units\<close>\<close>

text \<open>The \<open>while\<close> loop on the rest of the text behind \<open>index\<close>; \<open>separated\<close> is its flag.\<close>

function units_loop :: "pystr \<Rightarrow> bool \<Rightarrow> (pystr \<times> bool) list" where
  "units_loop [] separated = []"
| "units_loop (c # s) separated =
     (if c = 32 then units_loop s True
      else if is_cjk c then ([c], separated) # units_loop s False
      else (c # takeWhile (\<lambda>d. d \<noteq> 32 \<and> \<not> is_cjk d) s, separated)
        # units_loop (dropWhile (\<lambda>d. d \<noteq> 32 \<and> \<not> is_cjk d) s) False)"
  by pat_completeness auto
termination
  by (relation "measure (\<lambda>(s, b). length s)") (auto intro: le_less_trans[OF length_dropWhile_le])

definition text_units :: "pystr \<Rightarrow> (pystr \<times> bool) list result" where
  "text_units s = (let n = normalized s in
     if n = [] then Inl (CompositionError COMPOSITION_INVALID_OUTPUT) else Inr (units_loop n False))"

subsection \<open>\<open>_wrap_text\<close>\<close>

definition candidate :: "pystr \<Rightarrow> pystr \<times> bool \<Rightarrow> pystr" where
  "candidate current u = (case u of (unit, separated) \<Rightarrow>
     current @ (if current \<noteq> [] \<and> separated then [32] else []) @ unit)"

fun wrap_loop ::
  "(pystr \<Rightarrow> rat) \<Rightarrow> int \<Rightarrow> int \<Rightarrow> (pystr \<times> bool) list \<Rightarrow> pystr list \<Rightarrow> pystr \<Rightarrow> (pystr list \<times> pystr) result"
where
  "wrap_loop getlength max_width max_lines [] lines current = Inr (lines, current)"
| "wrap_loop getlength max_width max_lines (u # us) lines current =
     (if getlength (candidate current u) \<le> of_int max_width
      then wrap_loop getlength max_width max_lines us lines (candidate current u)
      else if current = [] \<or> getlength (fst u) > of_int max_width
      then Inl (CompositionError COMPOSITION_INVALID_OUTPUT)
      else if int (length (lines @ [current])) \<ge> max_lines
      then Inl (CompositionError COMPOSITION_INVALID_OUTPUT)
      else wrap_loop getlength max_width max_lines us (lines @ [current]) (fst u))"

definition wrap_text :: "(pystr \<Rightarrow> rat) \<Rightarrow> pystr \<Rightarrow> int \<Rightarrow> int \<Rightarrow> pystr list result" where
  "wrap_text getlength s max_width max_lines =
     (if max_width \<le> 0 \<or> max_lines \<le> 0 then Inl (CompositionError COMPOSITION_INVALID_OUTPUT)
      else bindR (text_units s) (\<lambda>us.
        bindR (wrap_loop getlength max_width max_lines us [] []) (\<lambda>(lines, current).
        let lines' = (if current \<noteq> [] then lines @ [current] else lines) in
        if lines' = [] \<or> int (length lines') > max_lines
        then Inl (CompositionError COMPOSITION_INVALID_OUTPUT) else Inr lines')))"

subsection \<open>Nothing is lost\<close>

text \<open>The visible characters of a text.\<close>

abbreviation ink :: "pystr \<Rightarrow> pystr" where
  "ink s \<equiv> filter (\<lambda>c. c \<noteq> 32) s"

abbreviation visible :: "pystr \<Rightarrow> pystr" where
  "visible s \<equiv> filter (\<lambda>c. \<not> is_space c) s"

lemma is_space_32 [simp]: "is_space 32"
  by (simp add: is_space_def is_white_def)

text \<open>The run a loop takes and the rest it leaves make up the text again.\<close>

lemma run_rest_visible:
  "takeWhile (\<lambda>d. \<not> is_space d) s @ visible (dropWhile (\<lambda>d. \<not> is_space d) s) = visible s"
  by (induction s) auto

lemma run_rest_ink:
  "takeWhile (\<lambda>d. d \<noteq> 32 \<and> \<not> is_cjk d) s @ ink (dropWhile (\<lambda>d. d \<noteq> 32 \<and> \<not> is_cjk d) s) = ink s"
  by (induction s) auto

lemma takeWhile_all: "list_all P (takeWhile P s)"
  by (induction s) auto

lemma split_words_visible: "concat (split_words s) = visible s"
  by (induction s rule: split_words.induct) (simp_all add: run_rest_visible)

lemma split_words_clean:
  "list_all (\<lambda>w. w \<noteq> [] \<and> list_all (\<lambda>c. \<not> is_space c) w) (split_words s)"
  by (induction s rule: split_words.induct) (simp_all add: takeWhile_all)

lemma ink_clean: "list_all (\<lambda>c. \<not> is_space c) w \<Longrightarrow> ink w = w"
  by (induction w) auto

lemma ink_join_words: "(\<And>w. w \<in> set ws \<Longrightarrow> list_all (\<lambda>c. \<not> is_space c) w) \<Longrightarrow>
    ink (join_words ws) = concat ws"
  by (induction ws rule: join_words.induct) (auto simp: ink_clean)

lemma ink_normalized: "ink (normalized s) = visible s"
  using ink_join_words[of "split_words s"] split_words_clean[of s]
  by (simp add: normalized_def split_words_visible list_all_iff)

lemma normalized_Nil_iff: "normalized s = [] \<longleftrightarrow> visible s = []"
proof (cases "split_words s" rule: join_words.cases)
  case 1
  then show ?thesis
    using split_words_visible[of s] by (simp add: normalized_def)
next
  case (2 w)
  then show ?thesis
    using split_words_visible[of s] by (simp add: normalized_def)
next
  case (3 w v vs)
  then show ?thesis
    using split_words_visible[of s] split_words_clean[of s] by (auto simp: normalized_def)
qed

lemma is_cjk_32 [simp]: "\<not> is_cjk 32"
  by (simp add: is_cjk_def)

lemma units_loop_ink: "concat (map fst (units_loop s b)) = ink s"
  by (induction s b rule: units_loop.induct) (simp_all add: run_rest_ink)

lemma units_clean:
  "list_all (\<lambda>u. fst u \<noteq> [] \<and> list_all (\<lambda>c. c \<noteq> 32) (fst u)) (units_loop s b)"
proof (induction s b rule: units_loop.induct)
  case (2 c s b)
  have "list_all (\<lambda>d. d \<noteq> 32) (takeWhile (\<lambda>d. d \<noteq> 32 \<and> \<not> is_cjk d) s)"
    using takeWhile_all[of "\<lambda>d. d \<noteq> 32 \<and> \<not> is_cjk d" s] unfolding list_all_iff by blast
  then show ?case
    using 2 by (cases "c = 32"; cases "is_cjk c") (simp_all del: list.pred_set)
qed simp

lemma ink_candidate: "list_all (\<lambda>c. c \<noteq> 32) (fst u) \<Longrightarrow> ink (candidate current u) = ink current @ fst u"
  by (auto simp: candidate_def list_all_iff split: prod.splits)

lemma candidate_nonempty: "fst u \<noteq> [] \<Longrightarrow> candidate current u \<noteq> []"
  by (auto simp: candidate_def split: prod.splits)

lemma ink_clean32: "list_all (\<lambda>c. c \<noteq> 32) w \<Longrightarrow> ink w = w"
  by (induction w) auto

text \<open>The loop's invariant: what has been laid out fits and is the text read so far.\<close>

lemma wrap_loop_invariant:
  assumes "wrap_loop g mw ml us lines current = Inr (lines', current')"
    and "\<forall>u \<in> set us. fst u \<noteq> [] \<and> list_all (\<lambda>c. c \<noteq> 32) (fst u)"
    and "\<forall>l \<in> set lines. l \<noteq> [] \<and> g l \<le> of_int mw" "current \<noteq> [] \<longrightarrow> g current \<le> of_int mw"
    and "int (length lines) < ml"
  shows "(\<forall>l \<in> set lines'. l \<noteq> [] \<and> g l \<le> of_int mw) \<and> (current' \<noteq> [] \<longrightarrow> g current' \<le> of_int mw)
    \<and> int (length lines') < ml
    \<and> ink (concat lines' @ current') = ink (concat lines @ current) @ concat (map fst us)
    \<and> (us \<noteq> [] \<or> current \<noteq> [] \<longrightarrow> current' \<noteq> [])"
  using assms
proof (induction us arbitrary: lines current)
  case Nil
  then show ?case by simp
next
  case (Cons u us)
  show ?case
  proof (cases "g (candidate current u) \<le> of_int mw")
    case True
    then have "wrap_loop g mw ml us lines (candidate current u) = Inr (lines', current')"
      using Cons.prems(1) by simp
    from Cons.IH[OF this] show ?thesis
      using Cons.prems(2-) True by (simp add: ink_candidate candidate_nonempty)
  next
    case False
    then have fit: "current \<noteq> []" "g (fst u) \<le> of_int mw" "int (length (lines @ [current])) < ml"
      and rest: "wrap_loop g mw ml us (lines @ [current]) (fst u) = Inr (lines', current')"
      using Cons.prems(1) by (auto split: if_splits)
    from Cons.IH[OF rest] show ?thesis
      using Cons.prems(2-) fit by (simp add: ink_clean32)
  qed
qed

lemma wrap_text_InrE:
  assumes "wrap_text g s mw ml = Inr lines"
  obtains ls current where "0 < ml" "normalized s \<noteq> []"
    "wrap_loop g mw ml (units_loop (normalized s) False) [] [] = Inr (ls, current)"
    "lines = (if current \<noteq> [] then ls @ [current] else ls)" "lines \<noteq> []" "int (length lines) \<le> ml"
  using assms by (auto simp: wrap_text_def text_units_def Let_def split: if_splits)

text \<open>
  C37. A text that could be wrapped is shown whole: there is at least one line and there are at most
  as many as allowed, no line is empty or wider than the limit, and read in order the lines have
  every character of the text that is not white space, for every font.
\<close>

theorem wrapped_text_is_whole:
  assumes "wrap_text g s mw ml = Inr lines"
  shows "lines \<noteq> [] \<and> int (length lines) \<le> ml
    \<and> (\<forall>l \<in> set lines. l \<noteq> [] \<and> g l \<le> of_int mw) \<and> ink (concat lines) = visible s"
proof -
  from assms obtain ls current where w: "0 < ml" "normalized s \<noteq> []"
    "wrap_loop g mw ml (units_loop (normalized s) False) [] [] = Inr (ls, current)"
    "lines = (if current \<noteq> [] then ls @ [current] else ls)" "lines \<noteq> []" "int (length lines) \<le> ml"
    by (rule wrap_text_InrE)
  have units: "\<forall>u \<in> set (units_loop (normalized s) False). fst u \<noteq> [] \<and> list_all (\<lambda>c. c \<noteq> 32) (fst u)"
    using units_clean[of "normalized s" False] by (simp add: list_all_iff)
  from wrap_loop_invariant[OF w(3) units] w(1)
  have inv: "\<forall>l \<in> set ls. l \<noteq> [] \<and> g l \<le> of_int mw" "current \<noteq> [] \<longrightarrow> g current \<le> of_int mw"
    "ink (concat ls @ current) = visible s"
    by (simp_all add: units_loop_ink ink_normalized)
  then show ?thesis
    using w(4-6) by auto
qed

subsection \<open>Wrapping is greedy\<close>

text \<open>A line is a list of units; \<open>line_of\<close> is the text it shows.\<close>

definition line_of :: "(pystr \<times> bool) list \<Rightarrow> pystr" where
  "line_of us = foldl candidate [] us"

lemma line_of_simps [simp]:
  "line_of [] = []" "line_of (us @ [u]) = candidate (line_of us) u" "line_of [u] = fst u"
  by (auto simp: line_of_def candidate_def split: prod.splits)

lemma line_of_nonempty: "us \<noteq> [] \<Longrightarrow> \<forall>u \<in> set us. fst u \<noteq> [] \<Longrightarrow> line_of us \<noteq> []"
  by (induction us rule: rev_induct) (auto simp: candidate_nonempty)

text \<open>The units are the words and ideographs of the text: on one line they show all of it. A text is
  tidy behind a space (or not) when it has single spaces only and none at its end.\<close>

fun tidy :: "bool \<Rightarrow> pystr \<Rightarrow> bool" where
  "tidy b [] = (\<not> b)"
| "tidy b (c # s) = (if c = 32 then \<not> b \<and> tidy True s else tidy False s)"

lemma tidy_word: "list_all (\<lambda>c. \<not> is_space c) w \<Longrightarrow> w \<noteq> [] \<Longrightarrow> tidy b (w @ s) = tidy False s"
  by (induction w arbitrary: b) (auto, fastforce+)

lemma tidy_join_words:
  "list_all (\<lambda>w. w \<noteq> [] \<and> list_all (\<lambda>c. \<not> is_space c) w) ws \<Longrightarrow> ws \<noteq> [] \<Longrightarrow> tidy b (join_words ws)"
proof (induction ws arbitrary: b rule: join_words.induct)
  case (2 w)
  then show ?case using tidy_word[of w b "[]"] by simp
qed (simp_all add: tidy_word)

lemma tidy_rest: "tidy False s \<Longrightarrow> tidy False (dropWhile (\<lambda>d. d \<noteq> 32 \<and> \<not> is_cjk d) s)"
  by (induction s) auto

lemma units_loop_shown: "current \<noteq> [] \<Longrightarrow> tidy b s \<Longrightarrow>
    foldl candidate current (units_loop s b) = current @ (if b then [32] else []) @ s"
proof (induction s b arbitrary: current rule: units_loop.induct)
  case (2 c s b)
  then show ?case
    using takeWhile_dropWhile_id[of "\<lambda>d. d \<noteq> 32 \<and> \<not> is_cjk d" s]
    by (auto simp: candidate_def tidy_rest)
qed simp

lemma line_of_units: "line_of (units_loop (normalized s) False) = normalized s"
proof (cases "normalized s")
  case (Cons c r)
  then have "split_words s \<noteq> []"
    by (auto simp: normalized_def)
  then have "tidy True (normalized s)"
    using tidy_join_words split_words_clean by (simp add: normalized_def)
  then have "c \<noteq> 32" "tidy False r"
    using Cons by (auto split: if_splits)
  then show ?thesis
    using Cons takeWhile_dropWhile_id[of "\<lambda>d. d \<noteq> 32 \<and> \<not> is_cjk d" r]
    by (auto simp: line_of_def candidate_def units_loop_shown tidy_rest)
qed simp

text \<open>A line grows within the limit when it fits after each of its units; the layout is greedy when
  every line does and the first unit of the next line would not have fitted on it.\<close>

definition grows_within :: "(pystr \<Rightarrow> rat) \<Rightarrow> int \<Rightarrow> (pystr \<times> bool) list \<Rightarrow> bool" where
  "grows_within g mw l \<longleftrightarrow> l \<noteq> [] \<and> (\<forall>n \<in> {1..length l}. g (line_of (take n l)) \<le> of_int mw)"

fun greedy_layout :: "(pystr \<Rightarrow> rat) \<Rightarrow> int \<Rightarrow> (pystr \<times> bool) list list \<Rightarrow> bool" where
  "greedy_layout g mw [] \<longleftrightarrow> True"
| "greedy_layout g mw [l] \<longleftrightarrow> grows_within g mw l"
| "greedy_layout g mw (l # m # ls) \<longleftrightarrow> grows_within g mw l
     \<and> \<not> g (line_of (l @ [hd m])) \<le> of_int mw \<and> greedy_layout g mw (m # ls)"

lemma grows_within_snoc:
  "grows_within g mw (l @ [u]) \<longleftrightarrow> (l = [] \<or> grows_within g mw l) \<and> g (line_of (l @ [u])) \<le> of_int mw"
proof -
  have split: "{1..length (l @ [u])} = insert (Suc (length l)) {1..length l}"
    by auto
  show ?thesis
    unfolding grows_within_def split by auto
qed

lemma grows_within_prefix: "grows_within g mw (a @ b) \<Longrightarrow> a \<noteq> [] \<Longrightarrow> grows_within g mw a"
  by (induction b rule: rev_induct) (auto simp: grows_within_snoc simp flip: append_assoc)

lemma greedy_layout_lines: "greedy_layout g mw ls \<Longrightarrow> l \<in> set ls \<Longrightarrow> grows_within g mw l"
  by (induction ls rule: induct_list012) auto

text \<open>The loop with the line \<open>cur\<close> begun returns exactly the greedy layout of \<open>cur\<close> and the rest.\<close>

lemma wrap_loop_sound:
  assumes "wrap_loop g mw ml us lines (line_of cur) = Inr (lines', current')"
    and "grows_within g mw cur" "int (length lines) < ml"
  shows "\<exists>y zs. us = y @ concat zs \<and> greedy_layout g mw ((cur @ y) # zs)
    \<and> int (length lines + length zs) < ml \<and> lines' @ [current'] = lines @ map line_of ((cur @ y) # zs)"
  using assms
proof (induction us arbitrary: lines cur)
  case Nil
  then show ?case
    by (intro exI[of _ "[]"]) simp
next
  case (Cons u us)
  show ?case
  proof (cases "g (candidate (line_of cur) u) \<le> of_int mw")
    case True
    then obtain y zs where "us = y @ concat zs" "greedy_layout g mw ((cur @ u # y) # zs)"
      "int (length lines + length zs) < ml"
      "lines' @ [current'] = lines @ map line_of ((cur @ u # y) # zs)"
      using Cons.IH[of lines "cur @ [u]"] Cons.prems by (auto simp: grows_within_snoc)
    then show ?thesis
      by (intro exI[of _ "u # y"] exI[of _ zs]) simp
  next
    case False
    then have "g (fst u) \<le> of_int mw" "int (length (lines @ [line_of cur])) < ml"
      and "wrap_loop g mw ml us (lines @ [line_of cur]) (line_of [u]) = Inr (lines', current')"
      using Cons.prems(1) by (auto split: if_splits)
    then obtain y zs where "us = y @ concat zs" "greedy_layout g mw ((u # y) # zs)"
      "int (length lines + length zs) + 1 < ml"
      "lines' @ [current'] = lines @ line_of cur # map line_of ((u # y) # zs)"
      using Cons.IH[of "lines @ [line_of cur]" "[u]"]
      by (auto simp: grows_within_snoc[of g mw "[]", simplified])
    then show ?thesis
      using False Cons.prems(2) by (intro exI[of _ "[]"] exI[of _ "(u # y) # zs"]) simp
  qed
qed

lemma wrap_loop_follows:
  assumes "us = y @ concat zs" "greedy_layout g mw ((cur @ y) # zs)" "cur \<noteq> []"
    and "\<forall>u \<in> set (cur @ us). fst u \<noteq> []" "int (length lines + length zs) < ml"
  shows "\<exists>lines' current'. wrap_loop g mw ml us lines (line_of cur) = Inr (lines', current')
    \<and> lines' @ [current'] = lines @ map line_of ((cur @ y) # zs) \<and> current' \<noteq> []"
  using assms
proof (induction us arbitrary: y zs cur lines)
  case Nil
  then have "y = []" "zs = []"
    by (cases zs; auto dest: greedy_layout_lines simp: grows_within_def)+
  moreover have "line_of cur \<noteq> []"
    using Nil.prems(3,4) by (intro line_of_nonempty) auto
  ultimately show ?case
    using Nil by simp
next
  case (Cons u us)
  show ?case
  proof (cases y)
    case Nil
    then obtain z zs' where zs: "zs = (u # z) # zs'" "us = z @ concat zs'"
      using Cons.prems(1,2) by (cases zs; cases "hd zs") (auto dest: greedy_layout_lines simp: grows_within_def)
    then have far: "\<not> g (candidate (line_of cur) u) \<le> of_int mw" "greedy_layout g mw ((u # z) # zs')"
      using Cons.prems(2) Nil by auto
    then have "g (fst u) \<le> of_int mw"
      using greedy_layout_lines[OF far(2), of "u # z"] grows_within_prefix[of g mw "[u]" z]
        grows_within_snoc[of g mw "[]" u] by simp
    moreover have "line_of cur \<noteq> []"
      using Cons.prems(3,4) by (intro line_of_nonempty) auto
    moreover have "\<exists>lines' current'.
        wrap_loop g mw ml us (lines @ [line_of cur]) (line_of [u]) = Inr (lines', current')
        \<and> lines' @ [current'] = (lines @ [line_of cur]) @ map line_of (([u] @ z) # zs') \<and> current' \<noteq> []"
      using Cons.prems far(2) zs by (intro Cons.IH) auto
    ultimately show ?thesis
      using far(1) zs Nil Cons.prems(5) by auto
  next
    case (Cons u' y')
    then have y: "y = u # y'" "us = y' @ concat zs"
      using Cons.prems(1) by auto
    have "grows_within g mw ((cur @ [u]) @ y')"
      using greedy_layout_lines[OF Cons.prems(2)] y by simp
    then have "g (line_of (cur @ [u])) \<le> of_int mw"
      using grows_within_prefix grows_within_snoc by blast
    moreover have "\<exists>lines' current'. wrap_loop g mw ml us lines (line_of (cur @ [u])) = Inr (lines', current')
        \<and> lines' @ [current'] = lines @ map line_of (((cur @ [u]) @ y') # zs) \<and> current' \<noteq> []"
      using Cons.prems y by (intro Cons.IH) auto
    ultimately show ?thesis
      using y by simp
  qed
qed

text \<open>A layout of a text: its units in order, laid out greedily on at most \<open>ml\<close> lines.\<close>

definition lays_out :: "(pystr \<Rightarrow> rat) \<Rightarrow> pystr \<Rightarrow> int \<Rightarrow> int \<Rightarrow> (pystr \<times> bool) list list \<Rightarrow> bool" where
  "lays_out g s mw ml layout \<longleftrightarrow> layout \<noteq> [] \<and> concat layout = units_loop (normalized s) False
     \<and> greedy_layout g mw layout \<and> int (length layout) \<le> ml"

lemma wrap_text_of_layout:
  assumes "lays_out g s mw ml layout" "0 < mw" "0 < ml"
  shows "wrap_text g s mw ml = Inr (map line_of layout)"
proof -
  obtain l zs where l: "layout = l # zs"
    using assms(1) by (cases layout) (auto simp: lays_out_def)
  then obtain u y where u: "l = u # y"
    using assms(1) greedy_layout_lines[of g mw layout l]
    by (cases l) (auto simp: lays_out_def grows_within_def)
  let ?us = "units_loop (normalized s) False"
  have us: "?us = u # y @ concat zs" "greedy_layout g mw (([u] @ y) # zs)" "int (length zs) < ml"
    using assms(1) l u by (auto simp: lays_out_def)
  then have first: "g (fst u) \<le> of_int mw"
    using greedy_layout_lines[OF us(2), of "[u] @ y"] grows_within_prefix[of g mw "[u]" y]
      grows_within_snoc[of g mw "[]" u] by simp
  have units: "\<forall>u \<in> set ?us. fst u \<noteq> []"
    using units_clean[of "normalized s" False] by (simp add: list_all_iff)
  obtain lines' current' where
    "wrap_loop g mw ml (y @ concat zs) [] (line_of [u]) = Inr (lines', current')"
    "lines' @ [current'] = map line_of layout" "current' \<noteq> []"
    using wrap_loop_follows[of "y @ concat zs" y zs g mw "[u]" "[]" ml] us units l u by auto
  moreover from this(2) have "length layout = Suc (length lines')"
    using length_map[of line_of layout] by (metis length_append_singleton)
  moreover have "normalized s \<noteq> []"
    using us(1) by auto
  moreover have "candidate [] u = fst u"
    using line_of_simps(2)[of "[]" u] by simp
  ultimately show ?thesis
    using assms us(1) first by (simp add: wrap_text_def text_units_def lays_out_def)
qed

lemma layout_of_wrap_text:
  assumes "wrap_text g s mw ml = Inr lines"
  shows "0 < mw \<and> 0 < ml \<and> (\<exists>layout. lays_out g s mw ml layout)"
proof -
  from assms obtain ls current where w: "0 < ml" "normalized s \<noteq> []"
    "wrap_loop g mw ml (units_loop (normalized s) False) [] [] = Inr (ls, current)"
    by (rule wrap_text_InrE)
  obtain u us where us: "units_loop (normalized s) False = u # us"
    using w(2) units_loop_ink[of "normalized s" False] normalized_Nil_iff ink_normalized
    by (cases "units_loop (normalized s) False") auto
  have "candidate [] u = line_of [u]"
    using line_of_simps(2)[of "[]" u] by simp
  then have first: "grows_within g mw [u]"
    and "wrap_loop g mw ml us [] (line_of [u]) = Inr (ls, current)"
    using w(3) us by (auto simp: grows_within_snoc[of g mw "[]" u, simplified] split: if_splits)
  from wrap_loop_sound[OF this(2,1)] w(1) obtain y zs
    where "us = y @ concat zs" "greedy_layout g mw (([u] @ y) # zs)" "int (length zs) < ml"
    by auto
  then have "lays_out g s mw ml ((u # y) # zs)"
    using us by (simp add: lays_out_def)
  then show ?thesis
    using assms by (auto simp: wrap_text_def split: if_splits)
qed

lemma wrap_text_error: "wrap_text g s mw ml = Inl e \<Longrightarrow> e = CompositionError COMPOSITION_INVALID_OUTPUT"
proof -
  have "wrap_loop g mw ml us lines current = Inl e \<Longrightarrow> e = CompositionError COMPOSITION_INVALID_OUTPUT"
    for us lines current
    by (induction us arbitrary: lines current) (auto split: if_splits)
  then show "wrap_text g s mw ml = Inl e \<Longrightarrow> e = CompositionError COMPOSITION_INVALID_OUTPUT"
    by (auto simp: wrap_text_def text_units_def Let_def bindR_def split: if_splits sum.splits)
qed

text \<open>
  C38. What wrapping a text gives, for every font. Its units, which on one line would show the
  normalised text, are laid out greedily: a line grows unit by unit while the limit holds, and a
  new line starts only at a unit that no longer fits. The lines are returned exactly when this
  layout exists within the limits, and in every other case the answer is an invalid-output error.
\<close>

theorem wrap_is_greedy:
  "line_of (units_loop (normalized s) False) = normalized s
   \<and> (wrap_text g s mw ml = Inr lines
      \<longleftrightarrow> 0 < mw \<and> 0 < ml \<and> (\<exists>layout. lays_out g s mw ml layout \<and> lines = map line_of layout))
   \<and> (wrap_text g s mw ml = Inl e
      \<longleftrightarrow> \<not> (0 < mw \<and> 0 < ml \<and> (\<exists>layout. lays_out g s mw ml layout))
          \<and> e = CompositionError COMPOSITION_INVALID_OUTPUT)"
proof (intro conjI)
  show "wrap_text g s mw ml = Inr lines
      \<longleftrightarrow> 0 < mw \<and> 0 < ml \<and> (\<exists>layout. lays_out g s mw ml layout \<and> lines = map line_of layout)"
    using wrap_text_of_layout[of g s mw ml] layout_of_wrap_text[of g s mw ml] by fastforce
  show "wrap_text g s mw ml = Inl e
      \<longleftrightarrow> \<not> (0 < mw \<and> 0 < ml \<and> (\<exists>layout. lays_out g s mw ml layout))
          \<and> e = CompositionError COMPOSITION_INVALID_OUTPUT"
    using wrap_text_of_layout[of g s mw ml] layout_of_wrap_text[of g s mw ml]
      wrap_text_error[of g s mw ml] by (cases "wrap_text g s mw ml") fastforce+
qed (rule line_of_units)

subsection \<open>Witnesses\<close>

text \<open>A font of constant width.\<close>

definition monospace :: "pystr \<Rightarrow> rat" where
  "monospace s = of_nat (length s)"

theorem wrapped_text_is_whole_witness:
  "wrap_text monospace (lit ''to be or'') 5 2 = Inr [lit ''to be'', lit ''or''] \<and> ink (lit ''to be'' @ lit ''or'') = visible (lit ''to be or'')"
proof -
  have "wrap_text monospace (lit ''to be or'') 5 2 = Inr [lit ''to be'', lit ''or'']"
    by (simp add: wrap_text_def text_units_def normalized_def lit_def is_space_def is_white_def
        is_cjk_def candidate_def monospace_def)
  with wrapped_text_is_whole[OF this] show ?thesis
    by simp
qed

end
