(* ===== verification/Patterns.thy ===== *)
theory Patterns
  imports Python_Values
begin

section \<open>Regular expressions and Unicode tables\<close>

text \<open>
  What the code uses of \<open>re\<close> and of Python's Unicode tables. The patterns of the source use
  literals, word boundaries, character classes, repetition and alternatives; \<open>ends r s i\<close> lists
  the positions where a match of \<open>r\<close> begun at \<open>i\<close> can end, and \<open>search\<close> asks for a match
  anywhere. The tables behind \<open>str.casefold\<close>, \<open>\w\<close> and \<open>\d\<close> are a record that the
  definitions take as an argument; \<open>ascii_tables\<close> is what Python documents of them for ASCII.
\<close>

subsection \<open>Unicode tables\<close>

record unicode =
  uc_casefold :: "pystr \<Rightarrow> pystr"
  uc_alnum :: "nat \<Rightarrow> bool"
  uc_decimal :: "nat \<Rightarrow> bool"

definition is_word :: "unicode \<Rightarrow> nat \<Rightarrow> bool" where
  "is_word u c \<longleftrightarrow> uc_alnum u c \<or> c = 95"

definition ascii_lower :: "nat \<Rightarrow> nat" where
  "ascii_lower c = (if is_upper c then c + 32 else c)"

definition is_caseless :: "nat \<Rightarrow> bool" where
  "is_caseless c \<longleftrightarrow> (0x3001 \<le> c \<and> c \<le> 0x3002) \<or> (0x4E00 \<le> c \<and> c \<le> 0x9FFF)"

text \<open>ASCII letters fold to lower case and Chinese text to itself; ASCII letters and digits are
  the alphanumeric ASCII characters, the ASCII digits the decimal ones.\<close>

definition ascii_tables :: "unicode \<Rightarrow> bool" where
  "ascii_tables u \<longleftrightarrow>
     (\<forall>s. list_all (\<lambda>c. c < 128 \<or> is_caseless c) s \<longrightarrow> uc_casefold u s = map ascii_lower s)
     \<and> (\<forall>c < 128. uc_alnum u c \<longleftrightarrow> is_lower c \<or> is_upper c \<or> is_digit c)
     \<and> (\<forall>c < 128. uc_decimal u c \<longleftrightarrow> is_digit c)"

text \<open>Tables that know only what \<open>ascii_tables\<close> states, for concrete runs.\<close>

definition basic_tables :: unicode where
  "basic_tables = \<lparr>uc_casefold = map ascii_lower,
     uc_alnum = (\<lambda>c. is_lower c \<or> is_upper c \<or> is_digit c \<or> is_caseless c),
     uc_decimal = is_digit\<rparr>"

lemma ascii_basic_tables: "ascii_tables basic_tables"
  by (auto simp: ascii_tables_def basic_tables_def is_caseless_def)

subsection \<open>Patterns\<close>

datatype char_class = Class_Space | Class_Digit | Class_Dot

fun in_class :: "unicode \<Rightarrow> char_class \<Rightarrow> nat \<Rightarrow> bool" where
  "in_class u Class_Space c \<longleftrightarrow> is_space c"
| "in_class u Class_Digit c \<longleftrightarrow> uc_decimal u c"
| "in_class u Class_Dot c \<longleftrightarrow> c \<noteq> 10"

datatype regex =
    Text pystr
  | Boundary
  | Plus char_class
  | Many char_class
  | Seq regex regex
  | Alt regex regex

definition word_at :: "unicode \<Rightarrow> pystr \<Rightarrow> nat \<Rightarrow> bool" where
  "word_at u s i \<longleftrightarrow> i < length s \<and> is_word u (s ! i)"

definition at_boundary :: "unicode \<Rightarrow> pystr \<Rightarrow> nat \<Rightarrow> bool" where
  "at_boundary u s i \<longleftrightarrow> (0 < i \<and> word_at u s (i - 1)) \<noteq> word_at u s i"

definition class_run :: "unicode \<Rightarrow> char_class \<Rightarrow> pystr \<Rightarrow> nat \<Rightarrow> nat" where
  "class_run u c s i = length (takeWhile (in_class u c) (drop i s))"

fun ends :: "unicode \<Rightarrow> regex \<Rightarrow> pystr \<Rightarrow> nat \<Rightarrow> nat list" where
  "ends u (Text t) s i = (if startswith (drop i s) t then [i + length t] else [])"
| "ends u Boundary s i = (if at_boundary u s i then [i] else [])"
| "ends u (Plus c) s i = [i + 1..<i + class_run u c s i + 1]"
| "ends u (Many c) s i = [i..<i + class_run u c s i + 1]"
| "ends u (Seq a b) s i = concat (map (ends u b s) (ends u a s i))"
| "ends u (Alt a b) s i = ends u a s i @ ends u b s i"

text \<open>\<open>re.search(pattern, s) is not None\<close>.\<close>

definition search :: "unicode \<Rightarrow> regex \<Rightarrow> pystr \<Rightarrow> bool" where
  "search u r s \<longleftrightarrow> list_ex (\<lambda>i. ends u r s i \<noteq> []) [0..<length s + 1]"

lemma startswith_simps:
  "startswith s []"
  "\<not> startswith [] (a # p)"
  "startswith (c # s) (a # p) \<longleftrightarrow> c = a \<and> startswith s p"
  by (auto simp: startswith_def)

text \<open>A literal that occurs in every match: a sound test that a pattern cannot match.\<close>

fun requires :: "regex \<Rightarrow> pystr set" where
  "requires (Text t) = {t}"
| "requires Boundary = {}"
| "requires (Plus c) = {}"
| "requires (Many c) = {}"
| "requires (Seq a b) = requires a \<union> requires b"
| "requires (Alt a b) = {}"

lemma startswith_drop_contains: "startswith (drop i s) t \<Longrightarrow> contains t s"
  by (metis append_take_drop_id contains_iff startswith_iff)

lemma ends_requires: "j \<in> set (ends u r s i) \<Longrightarrow> t \<in> requires r \<Longrightarrow> contains t s"
  by (induction r arbitrary: i j)
    (auto dest: startswith_drop_contains split: if_splits)

lemma search_requires: "search u r s \<Longrightarrow> t \<in> requires r \<Longrightarrow> contains t s"
proof -
  assume t: "search u r s" "t \<in> requires r"
  then obtain i where "ends u r s i \<noteq> []"
    by (auto simp: search_def list_ex_iff)
  then obtain j where "j \<in> set (ends u r s i)"
    by (metis list.set_sel(1))
  then show ?thesis
    using t(2) by (rule ends_requires)
qed

subsection \<open>Words and phrases are found wherever they stand\<close>

text \<open>The character at either end of a phrase and its neighbour outside it.\<close>

definition delimited :: "unicode \<Rightarrow> pystr \<Rightarrow> pystr \<Rightarrow> bool" where
  "delimited u p s \<longleftrightarrow> (p = [] \<or> \<not> is_word u (last p)) \<and> (s = [] \<or> \<not> is_word u (hd s))"

lemma at_boundary_append:
  "at_boundary u (a @ b) (length a) \<longleftrightarrow>
     (a \<noteq> [] \<and> is_word u (last a)) \<noteq> (b \<noteq> [] \<and> is_word u (hd b))"
proof -
  have "0 < length a \<and> word_at u (a @ b) (length a - 1) \<longleftrightarrow> a \<noteq> [] \<and> is_word u (last a)"
    by (cases a rule: rev_cases) (simp_all add: word_at_def nth_append)
  moreover have "word_at u (a @ b) (length a) \<longleftrightarrow> b \<noteq> [] \<and> is_word u (hd b)"
    by (cases b) (simp_all add: word_at_def nth_append)
  ultimately show ?thesis
    by (simp add: at_boundary_def)
qed

text \<open>At the ends of a phrase that begins and ends with a word character, the boundaries say that
  the phrase is delimited.\<close>

lemma boundaries_delimit:
  assumes "w \<noteq> []" "is_word u (hd w)" "is_word u (last w)"
  shows "at_boundary u (p @ w @ s) (length p) \<and> at_boundary u (p @ w @ s) (length p + length w)
    \<longleftrightarrow> delimited u p s"
  using assms at_boundary_append[of u p "w @ s"] at_boundary_append[of u "p @ w" s]
  by (auto simp: delimited_def)

subsection \<open>The declarative meaning of a pattern\<close>

text \<open>\<open>matches u r p m s\<close>: the text \<open>m\<close>, standing between \<open>p\<close> and \<open>s\<close>, is matched by \<open>r\<close>.\<close>

inductive matches :: "unicode \<Rightarrow> regex \<Rightarrow> pystr \<Rightarrow> pystr \<Rightarrow> pystr \<Rightarrow> bool" for u where
  match_Text: "matches u (Text t) p t s"
| match_Boundary: "at_boundary u (p @ s) (length p) \<Longrightarrow> matches u Boundary p [] s"
| match_Plus: "m \<noteq> [] \<Longrightarrow> list_all (in_class u c) m \<Longrightarrow> matches u (Plus c) p m s"
| match_Many: "list_all (in_class u c) m \<Longrightarrow> matches u (Many c) p m s"
| match_Seq: "matches u a p m (n @ s) \<Longrightarrow> matches u b (p @ m) n s \<Longrightarrow> matches u (Seq a b) p (m @ n) s"
| match_Alt1: "matches u a p m s \<Longrightarrow> matches u (Alt a b) p m s"
| match_Alt2: "matches u b p m s \<Longrightarrow> matches u (Alt a b) p m s"

inductive_simps matches_simps:
  "matches u (Text t) p m s"
  "matches u Boundary p m s"
  "matches u (Plus c) p m s"
  "matches u (Many c) p m s"
  "matches u (Seq a b) p m s"
  "matches u (Alt a b) p m s"

lemma match_Seq_iff: "matches u (Seq a b) p m s \<longleftrightarrow>
    (\<exists>k n. m = k @ n \<and> matches u a p k (n @ s) \<and> matches u b (p @ k) n s)"
  by (simp add: matches_simps(5))

lemma class_run_le:
  "list_all (in_class u c) m \<Longrightarrow> length m \<le> class_run u c (p @ m @ s) (length p)"
  by (simp add: class_run_def list_all_iff takeWhile_append2)

lemma takeWhile_prefix:
  "n \<le> length (takeWhile P xs) \<Longrightarrow> list_all P (take n xs) \<and> n \<le> length xs"
proof -
  assume n: "n \<le> length (takeWhile P xs)"
  then have "take n (takeWhile P xs) = take n xs"
    by (metis append_take_drop_id takeWhile_dropWhile_id take_append diff_is_0_eq take0 append_Nil2)
  moreover have "set (take n (takeWhile P xs)) \<subseteq> Collect P"
    by (auto dest!: in_set_takeD set_takeWhileD)
  ultimately show ?thesis
    using n le_trans[OF n length_takeWhile_le] by (auto simp: list_all_iff)
qed

text \<open>Sound: every end position the matcher lists comes from a match of the declarative kind.\<close>

lemma ends_sound:
  "i \<le> length s \<Longrightarrow> j \<in> set (ends u r s i) \<Longrightarrow>
     i \<le> j \<and> j \<le> length s \<and> matches u r (take i s) (take (j - i) (drop i s)) (drop j s)"
proof (induction r arbitrary: i j)
  case (Text t)
  then have t: "take (length t) (drop i s) = t" "j = i + length t"
    by (auto simp: startswith_def split: if_splits)
  then have "length t \<le> length s - i"
    by (metis length_drop length_take min.absorb_iff2 min.commute)
  then show ?case
    using t Text.prems(1) match_Text[of u t "take i s" "drop j s"] by simp
next
  case Boundary
  then show ?case
    by (auto simp: min_absorb2 intro!: match_Boundary split: if_splits)
next
  case (Plus c)
  then have j: "i < j" "j - i \<le> length (takeWhile (in_class u c) (drop i s))"
    by (auto simp: class_run_def)
  then show ?case
    using takeWhile_prefix[OF j(2)] Plus.prems(1) by (auto intro!: match_Plus)
next
  case (Many c)
  then have j: "i \<le> j" "j - i \<le> length (takeWhile (in_class u c) (drop i s))"
    by (auto simp: class_run_def)
  then show ?case
    using takeWhile_prefix[OF j(2)] Many.prems(1) by (auto intro!: match_Many)
next
  case (Seq a b)
  from Seq.prems(2) obtain k where k: "k \<in> set (ends u a s i)" "j \<in> set (ends u b s k)"
    by auto
  note A = Seq.IH(1)[OF Seq.prems(1) k(1)]
  then have "k \<le> length s"
    by simp
  note B = Seq.IH(2)[OF this k(2)]
  have "j - i = (k - i) + (j - k)" "drop (k - i) (drop i s) = drop k s"
    using A B by simp_all
  then have split: "take (j - i) (drop i s) = take (k - i) (drop i s) @ take (j - k) (drop k s)"
    by (simp only: take_add)
  have "take i s @ take (k - i) (drop i s) = take k s"
    using A by (metis le_add_diff_inverse take_add)
  moreover have "take (j - k) (drop k s) @ drop j s = drop k s"
    using B by (metis append_take_drop_id drop_drop le_add_diff_inverse2)
  ultimately show ?case
    using A B match_Seq[of u a "take i s" "take (k - i) (drop i s)" "take (j - k) (drop k s)" "drop j s" b]
    by (simp add: split)
next
  case (Alt a b)
  from Alt.prems(2) consider "j \<in> set (ends u a s i)" | "j \<in> set (ends u b s i)"
    by auto
  then show ?case
  proof cases
    case 1
    from Alt.IH(1)[OF Alt.prems(1) 1] show ?thesis
      by (simp add: match_Alt1)
  next
    case 2
    from Alt.IH(2)[OF Alt.prems(1) 2] show ?thesis
      by (simp add: match_Alt2)
  qed
qed

text \<open>Complete: every declarative match is listed.\<close>

lemma ends_complete:
  "matches u r p m s \<Longrightarrow> length p + length m \<in> set (ends u r (p @ m @ s) (length p))"
proof (induction rule: matches.induct)
  case (match_Text t p s)
  then show ?case
    by (simp add: startswith_def)
next
  case (match_Boundary p s)
  then show ?case
    by simp
next
  case (match_Plus m c p s)
  then show ?case
    using class_run_le[of u c m p s] by (cases m) auto
next
  case (match_Many c m p s)
  then show ?case
    using class_run_le[of u c m p s] by auto
next
  case (match_Seq a p m n s b)
  then show ?case
    by (auto simp: add.assoc intro!: bexI[of _ "length p + length m"])
next
  case (match_Alt1 a p m s b)
  then show ?case
    by simp
next
  case (match_Alt2 b p m s a)
  then show ?case
    by simp
qed

lemma search_iff: "search u r s \<longleftrightarrow> (\<exists>p m t. s = p @ m @ t \<and> matches u r p m t)"
proof
  assume "search u r s"
  then obtain i where mem: "i \<in> set [0..<length s + 1]" and ne: "ends u r s i \<noteq> []"
    unfolding search_def list_ex_iff by blast
  from mem have i: "i \<le> length s"
    by auto
  from ne obtain j where j: "j \<in> set (ends u r s i)"
    by (metis list.set_sel(1))
  have "s = take i s @ take (j - i) (drop i s) @ drop j s"
    using ends_sound[OF i j] by (metis append_take_drop_id drop_drop le_add_diff_inverse2)
  then show "\<exists>p m t. s = p @ m @ t \<and> matches u r p m t"
    using ends_sound[OF i j] by blast
next
  assume "\<exists>p m t. s = p @ m @ t \<and> matches u r p m t"
  then obtain p m t where s: "s = p @ m @ t" "matches u r p m t"
    by blast
  then have "ends u r s (length p) \<noteq> []"
    using ends_complete[OF s(2)] by (metis list.set(1) empty_iff)
  then show "search u r s"
    unfolding search_def list_ex_iff using s(1) by (intro bexI[of _ "length p"]) auto
qed

text \<open>A pattern between boundaries whose matches begin and end with word characters.\<close>

lemma match_bounded:
  assumes "matches u r p m s \<Longrightarrow> m \<noteq> [] \<and> is_word u (hd m) \<and> is_word u (last m)"
  shows "matches u (Seq Boundary (Seq r Boundary)) p m s \<longleftrightarrow> matches u r p m s \<and> delimited u p s"
proof -
  have "matches u (Seq Boundary (Seq r Boundary)) p m s \<longleftrightarrow> matches u r p m s
      \<and> at_boundary u (p @ m @ s) (length p) \<and> at_boundary u (p @ m @ s) (length p + length m)"
    by (auto simp: matches_simps)
  then show ?thesis
    using assms boundaries_delimit[of m u p s] by blast
qed

end
