(* ===== verification/Critic.thy ===== *)
theory Critic
  imports Repository
begin

section \<open>The Critic\<close>

text \<open>
  The model of \<open>src/cultureshift/critic.py\<close>: the evidence of a draft and a composition is
  turned into issues, and the issues into a status. \<open>casefold\<close>, the Unicode table behind
  \<open>str.casefold\<close>, is an argument. The lemmas say for every request which issues and which
  status the report has, and when no report can be built.
\<close>

record critic_request =
  cq_analysis :: ad_analysis
  cq_confirmed_brand_lock :: brand_lock
  cq_draft :: draft_record
  cq_composition :: composition_generated
  cq_warning_codes :: "pystr list"

definition SAFETY_REFUSALS :: "pystr list" where
  "SAFETY_REFUSALS =
     [lit ''prohibited_content'', lit ''instruction_like_content'', lit ''safety_refusal'']"

definition ABSOLUTE_CULTURAL_PHRASES :: "pystr list" where
  "ABSOLUTE_CULTURAL_PHRASES =
     [lit ''all british people'', lit ''british people always'', lit ''all chinese people'',
      lit ''chinese people always'', [0x6240, 0x6709, 0x82F1, 0x56FD, 0x4EBA],
      [0x82F1, 0x56FD, 0x4EBA, 0x90FD], [0x6240, 0x6709, 0x4E2D, 0x56FD, 0x4EBA],
      [0x4E2D, 0x56FD, 0x4EBA, 0x90FD]]"

definition STEREOTYPE_PHRASES :: "pystr list" where
  "STEREOTYPE_PHRASES =
     [lit ''british people are reserved'', lit ''chinese users only like red'',
      [0x82F1, 0x56FD, 0x4EBA, 0x5F88, 0x4FDD, 0x5B88],
      [0x4E2D, 0x56FD, 0x7528, 0x6237, 0x53EA, 0x559C, 0x6B22, 0x7EA2, 0x8272]]"

text \<open>\<open>_issue\<close>.\<close>

definition critic_issue ::
  "string \<Rightarrow> critique_category \<Rightarrow> critique_severity \<Rightarrow> string \<Rightarrow> bool \<Rightarrow> critique_issue result" where
  "critic_issue code category severity message human = make_critique_issue
     \<lparr>ci_code = lit code, ci_category = category, ci_severity = severity,
      ci_message = lit message, ci_requires_human_review = human\<rparr>"

definition review_warnings :: "critic_request \<Rightarrow> pystr list" where
  "review_warnings q = dict_fromkeys (an_warnings (cq_analysis q) @ cq_warning_codes q)"

definition safety_refused :: "critic_request \<Rightarrow> bool" where
  "safety_refused q \<longleftrightarrow> list_ex (\<lambda>w. w \<in> set SAFETY_REFUSALS) (review_warnings q)"

definition lock_preserved :: "critic_request \<Rightarrow> bool" where
  "lock_preserved q \<longleftrightarrow>
     (let lock = cq_confirmed_brand_lock q; sources = layer_sources (cq_composition q) in
      an_brand_lock (cq_analysis q) = lock
      \<and> br_brand_lock (dr_brief (cq_draft q)) = lock
      \<and> cp_cta_action_meaning (dr_ad_copy (cq_draft q)) = bl_cta_action_meaning lock
      \<and> sources LAYER_LOGO = Some (bl_logo_asset_id lock)
      \<and> sources LAYER_PRODUCT_UI \<in> Some ` set (bl_product_ui_asset_ids lock))"

definition facts_supported :: "critic_request \<Rightarrow> bool" where
  "facts_supported q \<longleftrightarrow> dr_fact_references (cq_draft q) \<noteq> []
     \<and> set (dr_fact_references (cq_draft q))
         \<subseteq> set (bl_verified_product_facts (cq_confirmed_brand_lock q))"

definition copy_readable :: "ad_copy \<Rightarrow> bool" where
  "copy_readable c \<longleftrightarrow> \<not> (length (cp_headline c) > 80 \<or> length (cp_body c) > 220
     \<or> length (cp_cta_label c) > 32)"

definition mentions :: "pystr list \<Rightarrow> pystr \<Rightarrow> bool" where
  "mentions phrases claim \<longleftrightarrow> list_ex (\<lambda>p. contains p claim) phrases"

text \<open>The body of the loop over the hypotheses: at most one issue each.\<close>

definition hypothesis_issue ::
  "(pystr \<Rightarrow> pystr) \<Rightarrow> cultural_hypothesis \<Rightarrow> (critique_issue result) list" where
  "hypothesis_issue casefold h =
     (let claim = casefold (hy_claim h) in
      if mentions ABSOLUTE_CULTURAL_PHRASES claim then
        [critic_issue ''absolute_cultural_claim'' CAT_CULTURE WARNING
          ''A population-wide cultural claim must be rewritten as a hypothesis.'' False]
      else if mentions STEREOTYPE_PHRASES claim then
        [critic_issue ''possible_stereotype'' CAT_CULTURE WARNING
          ''A possible stereotype requires accountable human review.'' True]
      else if hy_review_status h = REVIEW_PENDING then
        [critic_issue ''cultural_hypothesis_pending'' CAT_CULTURE WARNING
          ''A cultural hypothesis remains pending human review.'' True]
      else [])"

definition review_issues ::
  "(pystr \<Rightarrow> pystr) \<Rightarrow> critic_request \<Rightarrow> (critique_issue result) list" where
  "review_issues casefold q =
     (if safety_refused q then [critic_issue ''safety_refusal'' CAT_SAFETY BLOCKING
        ''Persisted safety evidence blocks this concept.'' False] else [])
     @ (if \<not> lock_preserved q then [critic_issue ''brand_lock_mismatch'' CAT_BRAND_LOCK BLOCKING
        ''Protected Brand Lock evidence does not match the confirmation.'' False] else [])
     @ (if \<not> facts_supported q then [critic_issue ''unsupported_fact'' CAT_FACT BLOCKING
        ''Copy evidence includes an unsupported product fact.'' False] else [])
     @ (if \<not> copy_readable (dr_ad_copy (cq_draft q))
        then [critic_issue ''copy_unreadable'' CAT_READABILITY WARNING
          ''Copy exceeds the deterministic fixture readability limit.'' False] else [])
     @ concat (map (hypothesis_issue casefold) (an_hypotheses (cq_analysis q)))"

definition status_of_issues :: "critique_issue list \<Rightarrow> critique_status" where
  "status_of_issues issues =
     (if list_ex (\<lambda>i. ci_severity i = BLOCKING) issues then REJECT
      else if list_ex ci_requires_human_review issues then NEEDS_HUMAN_REVIEW
      else if issues \<noteq> [] then REVISE
      else PASS)"

definition review ::
  "(pystr \<Rightarrow> pystr) \<Rightarrow> critic_request \<Rightarrow> datetime \<Rightarrow> critique_report result" where
  "review casefold q now =
     bindR (mapR (\<lambda>i. i) (review_issues casefold q)) (\<lambda>issues.
     make_critique_report \<lparr>cr_status = status_of_issues issues, cr_issues = issues,
       cr_warnings = review_warnings q, cr_brand_lock_preserved = lock_preserved q,
       cr_requires_human_review = list_ex ci_requires_human_review issues,
       cr_reviewed_at = now\<rparr>)"

subsection \<open>The issues of a request\<close>

text \<open>The four kinds of evidence issues and the three of a hypothesis, as plain values.\<close>

definition issue_value ::
  "string \<Rightarrow> critique_category \<Rightarrow> critique_severity \<Rightarrow> string \<Rightarrow> bool \<Rightarrow> critique_issue" where
  "issue_value code category severity message human =
     \<lparr>ci_code = lit code, ci_category = category, ci_severity = severity,
      ci_message = lit message, ci_requires_human_review = human\<rparr>"

lemma critic_issue_value:
  "valid_critique_issue (issue_value code category severity message human) \<Longrightarrow>
     critic_issue code category severity message human
       = Inr (issue_value code category severity message human)"
  by (simp add: critic_issue_def issue_value_def make_critique_issue_id)

definition hypothesis_issue_value ::
  "(pystr \<Rightarrow> pystr) \<Rightarrow> cultural_hypothesis \<Rightarrow> critique_issue list" where
  "hypothesis_issue_value casefold h =
     (let claim = casefold (hy_claim h) in
      if mentions ABSOLUTE_CULTURAL_PHRASES claim then
        [issue_value ''absolute_cultural_claim'' CAT_CULTURE WARNING
          ''A population-wide cultural claim must be rewritten as a hypothesis.'' False]
      else if mentions STEREOTYPE_PHRASES claim then
        [issue_value ''possible_stereotype'' CAT_CULTURE WARNING
          ''A possible stereotype requires accountable human review.'' True]
      else if hy_review_status h = REVIEW_PENDING then
        [issue_value ''cultural_hypothesis_pending'' CAT_CULTURE WARNING
          ''A cultural hypothesis remains pending human review.'' True]
      else [])"

definition evidence_issues :: "critic_request \<Rightarrow> critique_issue list" where
  "evidence_issues q =
     (if safety_refused q then [issue_value ''safety_refusal'' CAT_SAFETY BLOCKING
        ''Persisted safety evidence blocks this concept.'' False] else [])
     @ (if \<not> lock_preserved q then [issue_value ''brand_lock_mismatch'' CAT_BRAND_LOCK BLOCKING
        ''Protected Brand Lock evidence does not match the confirmation.'' False] else [])
     @ (if \<not> facts_supported q then [issue_value ''unsupported_fact'' CAT_FACT BLOCKING
        ''Copy evidence includes an unsupported product fact.'' False] else [])
     @ (if \<not> copy_readable (dr_ad_copy (cq_draft q))
        then [issue_value ''copy_unreadable'' CAT_READABILITY WARNING
          ''Copy exceeds the deterministic fixture readability limit.'' False] else [])"

definition issue_values :: "(pystr \<Rightarrow> pystr) \<Rightarrow> critic_request \<Rightarrow> critique_issue list" where
  "issue_values casefold q = evidence_issues q
     @ concat (map (hypothesis_issue_value casefold) (an_hypotheses (cq_analysis q)))"

lemmas issue_literals = valid_critique_issue_def issue_value_def code_literals text_literals

lemma critic_issues_Inr:
  "critic_issue ''safety_refusal'' CAT_SAFETY BLOCKING
     ''Persisted safety evidence blocks this concept.'' False
   = Inr (issue_value ''safety_refusal'' CAT_SAFETY BLOCKING
     ''Persisted safety evidence blocks this concept.'' False)"
  "critic_issue ''brand_lock_mismatch'' CAT_BRAND_LOCK BLOCKING
     ''Protected Brand Lock evidence does not match the confirmation.'' False
   = Inr (issue_value ''brand_lock_mismatch'' CAT_BRAND_LOCK BLOCKING
     ''Protected Brand Lock evidence does not match the confirmation.'' False)"
  "critic_issue ''unsupported_fact'' CAT_FACT BLOCKING
     ''Copy evidence includes an unsupported product fact.'' False
   = Inr (issue_value ''unsupported_fact'' CAT_FACT BLOCKING
     ''Copy evidence includes an unsupported product fact.'' False)"
  "critic_issue ''copy_unreadable'' CAT_READABILITY WARNING
     ''Copy exceeds the deterministic fixture readability limit.'' False
   = Inr (issue_value ''copy_unreadable'' CAT_READABILITY WARNING
     ''Copy exceeds the deterministic fixture readability limit.'' False)"
  "critic_issue ''absolute_cultural_claim'' CAT_CULTURE WARNING
     ''A population-wide cultural claim must be rewritten as a hypothesis.'' False
   = Inr (issue_value ''absolute_cultural_claim'' CAT_CULTURE WARNING
     ''A population-wide cultural claim must be rewritten as a hypothesis.'' False)"
  "critic_issue ''possible_stereotype'' CAT_CULTURE WARNING
     ''A possible stereotype requires accountable human review.'' True
   = Inr (issue_value ''possible_stereotype'' CAT_CULTURE WARNING
     ''A possible stereotype requires accountable human review.'' True)"
  "critic_issue ''cultural_hypothesis_pending'' CAT_CULTURE WARNING
     ''A cultural hypothesis remains pending human review.'' True
   = Inr (issue_value ''cultural_hypothesis_pending'' CAT_CULTURE WARNING
     ''A cultural hypothesis remains pending human review.'' True)"
  by (rule critic_issue_value,
      simp add: valid_critique_issue_def issue_value_def is_short_text_def is_text_lit is_white_def,
      simp add: code_literals)+

lemma hypothesis_issue_Inr: "hypothesis_issue casefold h = map Inr (hypothesis_issue_value casefold h)"
  by (simp add: hypothesis_issue_def hypothesis_issue_value_def critic_issues_Inr Let_def)

lemma hypothesis_issues_Inr:
  "concat (map (hypothesis_issue casefold) hs) = map Inr (concat (map (hypothesis_issue_value casefold) hs))"
  by (induction hs) (simp_all add: hypothesis_issue_Inr)

lemma review_issues_Inr: "review_issues casefold q = map Inr (issue_values casefold q)"
  by (simp add: review_issues_def issue_values_def evidence_issues_def critic_issues_Inr
      hypothesis_issues_Inr)

lemma mapR_map_Inr [simp]: "mapR (\<lambda>i. i) (map Inr xs) = Inr xs"
  by (induction xs) simp_all

lemma hypothesis_issue_severity:
  "i \<in> set (hypothesis_issue_value casefold h) \<Longrightarrow> ci_severity i = WARNING \<and> ci_category i = CAT_CULTURE"
  by (auto simp: hypothesis_issue_value_def issue_value_def Let_def split: if_splits)

lemma hypothesis_issue_length: "length (hypothesis_issue_value casefold h) \<le> 1"
  by (simp add: hypothesis_issue_value_def Let_def)

lemma blocking_issue_iff:
  "list_ex (\<lambda>i. ci_severity i = BLOCKING) (issue_values casefold q) \<longleftrightarrow>
     safety_refused q \<or> \<not> lock_preserved q \<or> \<not> facts_supported q"
proof -
  have "list_ex (\<lambda>i. ci_severity i = BLOCKING) (evidence_issues q) \<longleftrightarrow>
      safety_refused q \<or> \<not> lock_preserved q \<or> \<not> facts_supported q"
    by (simp add: evidence_issues_def issue_value_def)
  moreover have "\<not> list_ex (\<lambda>i. ci_severity i = BLOCKING)
      (concat (map (hypothesis_issue_value casefold) hs))" for hs
    using hypothesis_issue_severity by (fastforce simp: list_ex_iff)
  ultimately show ?thesis
    by (simp add: issue_values_def)
qed

lemma brand_lock_issue:
  "\<not> lock_preserved q \<Longrightarrow>
     list_ex (\<lambda>i. ci_category i = CAT_BRAND_LOCK \<and> is_blocking i) (issue_values casefold q)"
  by (simp add: issue_values_def evidence_issues_def issue_value_def is_blocking_def)

lemma status_of_issues_cases:
  "status_of_issues issues = REJECT \<longleftrightarrow> list_ex (\<lambda>i. ci_severity i = BLOCKING) issues"
  "status_of_issues issues = PASS \<longleftrightarrow> issues = []"
  "status_of_issues issues = NEEDS_HUMAN_REVIEW \<Longrightarrow> list_ex ci_requires_human_review issues"
  by (auto simp: status_of_issues_def split: if_splits)

definition critic_report :: "(pystr \<Rightarrow> pystr) \<Rightarrow> critic_request \<Rightarrow> datetime \<Rightarrow> critique_report" where
  "critic_report casefold q now = (let issues = issue_values casefold q in
     \<lparr>cr_status = status_of_issues issues, cr_issues = issues, cr_warnings = review_warnings q,
      cr_brand_lock_preserved = lock_preserved q,
      cr_requires_human_review = list_ex ci_requires_human_review issues, cr_reviewed_at = now\<rparr>)"

lemma critic_report_consistent: "require_consistent_status (critic_report casefold q now)"
proof -
  define issues where "issues = issue_values casefold q"
  have "list_ex is_blocking issues \<longleftrightarrow> status_of_issues issues = REJECT"
    by (simp add: status_of_issues_cases is_blocking_def[abs_def])
  then show ?thesis
    using brand_lock_issue[of q casefold] status_of_issues_cases(2,3)[of issues]
    by (auto simp: require_consistent_status_def critic_report_def issues_def[symmetric] Let_def)
qed

text \<open>
  C35. Whatever the evidence, the report the Critic builds satisfies every consistency rule of the
  contract, so the only way a review of validated inputs can fail is the limit of 32 issues or 32
  warnings; then it raises \<open>ValidationError\<close> and the run is not reviewed.
\<close>

theorem review_outcome:
  assumes "list_all is_warning_code (an_warnings (cq_analysis q))"
    "list_all is_warning_code (cq_warning_codes q)" "is_utc now"
  shows "review casefold q now =
    (if length (issue_values casefold q) \<le> 32 \<and> length (review_warnings q) \<le> 32
     then Inr (critic_report casefold q now) else Inl ValidationError)"
proof -
  have codes: "list_all is_warning_code (review_warnings q)"
    using assms by (auto simp: review_warnings_def list_all_iff)
  then have "map strip_text (review_warnings q) = review_warnings q"
    by (auto simp: list_all_iff intro!: map_idI)
  then have "make_critique_report (critic_report casefold q now) =
    (if valid_critique_report (critic_report casefold q now)
     then Inr (critic_report casefold q now) else Inl ValidationError)"
    by (simp add: make_critique_report_def Let_def critic_report_def)
  moreover have "valid_critique_report (critic_report casefold q now) \<longleftrightarrow>
      length (issue_values casefold q) \<le> 32 \<and> length (review_warnings q) \<le> 32"
    using codes assms(3) critic_report_consistent[of casefold q now]
    by (auto simp: valid_critique_report_def valid_warnings_def critic_report_def Let_def)
  moreover have "review casefold q now = make_critique_report (critic_report casefold q now)"
    by (simp add: review_def review_issues_Inr critic_report_def Let_def)
  ultimately show ?thesis
    by simp
qed

lemma review_Inr_valid: "review casefold q now = Inr r \<Longrightarrow> valid_critique_report r"
  by (auto simp: review_def dest: make_critique_report_valid)

lemma review_reviewed_at: "review casefold q now = Inr r \<Longrightarrow> cr_reviewed_at r = now"
  by (auto simp: review_def make_critique_report_def Let_def split: if_splits)

text \<open>
  The verdict of a report: it rejects exactly when persisted safety evidence, a broken Brand
  Lock or an unsupported fact blocks the concept, however the hypotheses read; it passes exactly
  when there is no issue at all; it reports the Brand Lock as preserved exactly when it is; and a
  stereotype or a pending hypothesis always asks for human review.
\<close>

theorem review_verdict:
  assumes "review casefold q now = Inr r"
  shows "(cr_status r = REJECT \<longleftrightarrow> safety_refused q \<or> \<not> lock_preserved q \<or> \<not> facts_supported q)
    \<and> (cr_status r = PASS \<longleftrightarrow> cr_issues r = [])
    \<and> (cr_brand_lock_preserved r \<longleftrightarrow> lock_preserved q)
    \<and> (cr_status r = NEEDS_HUMAN_REVIEW \<longrightarrow> cr_requires_human_review r)
    \<and> ((\<exists>h \<in> set (an_hypotheses (cq_analysis q)).
          \<not> mentions ABSOLUTE_CULTURAL_PHRASES (casefold (hy_claim h))
          \<and> (mentions STEREOTYPE_PHRASES (casefold (hy_claim h)) \<or> hy_review_status h = REVIEW_PENDING))
        \<longrightarrow> cr_requires_human_review r)"
proof -
  have r: "cr_status r = status_of_issues (issue_values casefold q)"
    "cr_issues r = issue_values casefold q" "cr_brand_lock_preserved r = lock_preserved q"
    "cr_requires_human_review r = list_ex ci_requires_human_review (issue_values casefold q)"
    using assms by (auto simp: review_def review_issues_Inr make_critique_report_def Let_def
        split: if_splits)
  have human: "list_ex ci_requires_human_review (issue_values casefold q)"
    if "h \<in> set (an_hypotheses (cq_analysis q))"
      "\<not> mentions ABSOLUTE_CULTURAL_PHRASES (casefold (hy_claim h))"
      "mentions STEREOTYPE_PHRASES (casefold (hy_claim h)) \<or> hy_review_status h = REVIEW_PENDING" for h
  proof -
    have "list_ex ci_requires_human_review (hypothesis_issue_value casefold h)"
      using that(2,3) by (auto simp: hypothesis_issue_value_def issue_value_def Let_def)
    with that(1) show ?thesis
      by (auto simp: issue_values_def list_ex_iff)
  qed
  have "cr_status r = REJECT \<longleftrightarrow> safety_refused q \<or> \<not> lock_preserved q \<or> \<not> facts_supported q"
    by (simp only: r status_of_issues_cases blocking_issue_iff)
  moreover have "cr_status r = PASS \<longleftrightarrow> cr_issues r = []"
    by (simp only: r status_of_issues_cases)
  moreover have "cr_status r = NEEDS_HUMAN_REVIEW \<longrightarrow> cr_requires_human_review r"
    using status_of_issues_cases(3) by (simp add: r)
  ultimately show ?thesis
    using human by (simp only: r) metis
qed

lemma length_issue_values:
  "length (issue_values casefold q) = length (evidence_issues q)
     + length (concat (map (hypothesis_issue_value casefold) (an_hypotheses (cq_analysis q))))"
  by (simp add: issue_values_def)

lemma pending_issue:
  "hy_review_status h = REVIEW_PENDING \<Longrightarrow> length (hypothesis_issue_value casefold h) = 1"
  by (simp add: hypothesis_issue_value_def Let_def)

lemma pending_issues:
  "\<forall>h \<in> set hs. hy_review_status h = REVIEW_PENDING \<Longrightarrow>
     length (concat (map (hypothesis_issue_value casefold) hs)) = length hs"
  by (induction hs) (simp_all add: pending_issue)

text \<open>
  The limit is real: an analysis with the 32 pending hypotheses its contract allows cannot be
  reviewed once there is one other issue, for example copy longer than the readability limit.
  The review raises \<open>ValidationError\<close> although every input is valid.
\<close>

theorem full_analysis_cannot_be_reviewed:
  assumes "list_all is_warning_code (an_warnings (cq_analysis q))"
    "list_all is_warning_code (cq_warning_codes q)" "is_utc now"
    and "length (an_hypotheses (cq_analysis q)) = 32"
    "\<forall>h \<in> set (an_hypotheses (cq_analysis q)). hy_review_status h = REVIEW_PENDING"
    and "\<not> copy_readable (dr_ad_copy (cq_draft q))"
  shows "review casefold q now = Inl ValidationError"
proof -
  have "evidence_issues q \<noteq> []"
    using assms(6) by (simp add: evidence_issues_def)
  then have "\<not> length (issue_values casefold q) \<le> 32"
    using pending_issues[OF assms(5), of casefold] assms(4) by (simp add: length_issue_values)
  then show ?thesis
    using review_outcome[OF assms(1-3)] by simp
qed

subsection \<open>Witnesses\<close>

definition sample_hypothesis :: cultural_hypothesis where
  "sample_hypothesis = \<lparr>hy_hypothesis_id = 5, hy_target_market = MARKET_UNITED_KINGDOM,
     hy_claim = lit ''Readers may prefer a short summary'',
     hy_evidence_refs = [lit ''evidence:day10''], hy_uncertainty = MEDIUM,
     hy_rationale = lit ''Interviews'', hy_validation_requirements = [lit ''Ask five readers''],
     hy_review_status = REVIEW_PENDING\<rparr>"

definition sample_layer :: "layer_kind \<Rightarrow> uuid option \<Rightarrow> composition_layer" where
  "sample_layer kind source = \<lparr>ly_kind = kind, ly_source_asset_id = source,
     ly_rgba_sha256 = replicate 64 97, ly_bounds = (0, 0, 1600, 900), ly_width = 1600,
     ly_height = 900\<rparr>"

definition sample_request :: "cultural_hypothesis list \<Rightarrow> pystr \<Rightarrow> critic_request" where
  "sample_request hs headline = \<lparr>cq_analysis = \<lparr>an_source_asset = \<lparr>as_asset_id = 7,
       as_kind = SOURCE_AD, as_media_type = lit ''image/png'', as_sha256 = replicate 64 97,
       as_provenance_ref = lit ''fixture:orbit'', as_rights_ref = lit ''rights:orbit'',
       as_expires_at = None\<rparr>,
       an_detected_locale = ZH_CN, an_brand_lock = orbit_lock, an_hypotheses = hs,
       an_warnings = [lit ''fixture_provider'']\<rparr>,
     cq_confirmed_brand_lock = orbit_lock,
     cq_draft = \<lparr>dr_brief = \<lparr>br_direction = CHINA_TO_UK, br_target_locale = EN_GB,
         br_brand_lock = orbit_lock, br_hypotheses = hs, br_narrative = lit ''Calm'',
         br_use_scenario = lit ''Desk'', br_trust_information = lit ''Clear''\<rparr>,
       dr_ad_copy = \<lparr>cp_locale = EN_GB, cp_headline = headline, cp_body = lit ''Body'',
         cp_cta_label = lit ''Start'', cp_cta_action_meaning = bl_cta_action_meaning orbit_lock\<rparr>,
       dr_fact_references = bl_verified_product_facts orbit_lock, dr_rule_ids = [],
       dr_generated_at = utc 4\<rparr>,
     cq_composition = \<lparr>co_run_id = 1, co_status = RUN_IN_PROGRESS, co_execution_mode = FIXTURE,
       co_width = 1600, co_height = 900, co_media_type = lit ''image/png'',
       co_rendered_sha256 = replicate 64 97, co_artifact_id = 11,
       co_layers = [sample_layer LAYER_PRODUCT_UI (Some 0xa2222222222242228222222222222222),
         sample_layer LAYER_LOGO (Some 0xa1111111111141118111111111111111)],
       co_disclosure = DISCLOSURE, co_generated_at = utc 5\<rparr>,
     cq_warning_codes = []\<rparr>"

lemma sample_codes:
  "list_all is_warning_code (an_warnings (cq_analysis (sample_request hs headline)))"
  "list_all is_warning_code (cq_warning_codes (sample_request hs headline))"
  by (simp_all add: sample_request_def code_literals)

lemma sample_lock_preserved: "lock_preserved (sample_request hs headline)"
  by (simp add: lock_preserved_def sample_request_def layer_sources_def dict_of_def
      sample_layer_def Let_def) (simp add: orbit_lock_def)

lemma sample_facts: "facts_supported (sample_request hs headline)"
  by (simp add: facts_supported_def sample_request_def orbit_lock_def)

lemma sample_safe: "\<not> safety_refused (sample_request hs headline)"
  by (simp add: safety_refused_def review_warnings_def sample_request_def SAFETY_REFUSALS_def
      dict_fromkeys_def)

theorem review_outcome_witness:
  "review (\<lambda>s. s) (sample_request [] (lit ''Orbit AI'')) (utc 6)
     = Inr (critic_report (\<lambda>s. s) (sample_request [] (lit ''Orbit AI'')) (utc 6))"
proof -
  have "length (issue_values (\<lambda>s. s) (sample_request [] (lit ''Orbit AI''))) \<le> 32"
    "length (review_warnings (sample_request [] (lit ''Orbit AI''))) \<le> 32"
    by (simp_all add: issue_values_def evidence_issues_def sample_lock_preserved sample_facts
        sample_safe) (simp_all add: sample_request_def copy_readable_def review_warnings_def
        dict_fromkeys_def)
  then show ?thesis
    using review_outcome[OF sample_codes, of "utc 6" "\<lambda>s. s" "[]" "lit ''Orbit AI''"] by simp
qed

theorem review_verdict_witness:
  "\<exists>r. review (\<lambda>s. s) (sample_request [] (lit ''Orbit AI'')) (utc 6) = Inr r
    \<and> cr_status r \<noteq> REJECT \<and> cr_brand_lock_preserved r"
proof -
  obtain r where r: "review (\<lambda>s. s) (sample_request [] (lit ''Orbit AI'')) (utc 6) = Inr r"
    using review_outcome[OF sample_codes, of "utc 6" "\<lambda>s. s" "[]" "lit ''Orbit AI''"]
    by (simp add: issue_values_def evidence_issues_def sample_lock_preserved sample_facts
        sample_safe) (simp add: sample_request_def copy_readable_def review_warnings_def
        dict_fromkeys_def)
  show ?thesis
    using r review_verdict[OF r] sample_lock_preserved sample_facts sample_safe by blast
qed

theorem full_analysis_cannot_be_reviewed_witness:
  "review (\<lambda>s. s) (sample_request (replicate 32 sample_hypothesis) (replicate 81 97)) (utc 6)
     = Inl ValidationError"
  using full_analysis_cannot_be_reviewed[OF sample_codes, of "utc 6" "replicate 32 sample_hypothesis"
      "replicate 81 97" "\<lambda>s. s"]
  by (simp add: sample_request_def copy_readable_def sample_hypothesis_def)

end
