(* ===== verification/Draft_Generation.thy ===== *)
theory Draft_Generation
  imports Database Critic
begin

section \<open>Draft generation\<close>

text \<open>
  The model of \<open>src/cultureshift/draft_generation.py\<close>: the two direction fixtures, the
  \<open>Copywriter\<close> protocol as a locale with \<open>FixtureCopywriter\<close> as its interpretation, and
  \<open>DraftGenerator.generate\<close> for an arbitrary copywriter. The lemmas say when a draft is made,
  that every draft made meets the contract of the response whatever copywriter wrote it, and
  that the fixture draft passes the Critic's own limits.
\<close>

subsection \<open>Values\<close>

record copywriter_result =
  cw_ad_copy :: ad_copy
  cw_fact_references :: "pystr list"
  cw_rule_ids :: "pystr list"

record draft_artifacts =
  da_brief :: creative_brief
  da_ad_copy :: ad_copy
  da_fact_references :: "pystr list"
  da_rule_ids :: "pystr list"

record direction_fixture =
  df_target_locale :: locale_tag
  df_source_locale :: locale_tag
  df_rule_ids :: "pystr list"
  df_narrative :: pystr
  df_use_scenario :: pystr
  df_headline :: pystr
  df_body :: pystr
  df_cta_label :: pystr

text \<open>\<open>_FIXTURES\<close>, which has an entry for each of the two directions.\<close>

fun FIXTURES :: "localization_direction \<Rightarrow> direction_fixture" where
  "FIXTURES CHINA_TO_UK =
    \<lparr>df_target_locale = EN_GB, df_source_locale = ZH_CN,
     df_rule_ids = [lit ''ZEU-S1'', lit ''ZEU-S3''],
     df_narrative = lit ''Present approved-note summarisation as a clear, reviewable workflow.'',
     df_use_scenario = lit ''A UK team reviews approved meeting notes before organising task summaries.'',
     df_headline = lit ''Turn approved notes into clear task summaries'',
     df_body = lit ''Orbit AI helps teams organise approved meeting notes into task summaries.'',
     df_cta_label = lit ''Try the fixture demo''\<rparr>"
| "FIXTURES UK_TO_CHINA =
    \<lparr>df_target_locale = ZH_CN, df_source_locale = EN_GB,
     df_rule_ids = [lit ''EZC-S1'', lit ''EZC-S3''],
     df_narrative = [0x4EE5, 0x6E05, 0x6670, 0x3001, 0x53EF, 0x590D, 0x6838, 0x7684, 0x5DE5, 0x4F5C,
         0x6D41, 0x7A0B, 0x5448, 0x73B0, 0x5DF2, 0x6279, 0x51C6, 0x7B14, 0x8BB0, 0x7684,
         0x6574, 0x7406, 0x8FC7, 0x7A0B, 0x3002],
     df_use_scenario = [0x4E2D, 0x56FD, 0x56E2, 0x961F, 0x5728, 0x6574, 0x7406, 0x4EFB, 0x52A1, 0x6458,
         0x8981, 0x524D, 0x590D, 0x6838, 0x5DF2, 0x6279, 0x51C6, 0x7684, 0x4F1A, 0x8BAE,
         0x7B14, 0x8BB0, 0x3002],
     df_headline = [0x628A, 0x5DF2, 0x6279, 0x51C6, 0x7B14, 0x8BB0, 0x6574, 0x7406, 0x6210, 0x6E05,
         0x6670, 0x4EFB, 0x52A1, 0x6458, 0x8981],
     df_body = lit ''Orbit AI '' @ [0x5E2E, 0x52A9, 0x56E2, 0x961F, 0x5C06, 0x5DF2, 0x6279, 0x51C6,
         0x7684, 0x4F1A, 0x8BAE, 0x7B14, 0x8BB0, 0x6574, 0x7406, 0x4E3A, 0x4EFB, 0x52A1,
         0x6458, 0x8981, 0x3002],
     df_cta_label = [0x4F53, 0x9A8C, 0x793A, 0x4F8B, 0x6F14, 0x793A]\<rparr>"

type_synonym copywriter = "creative_brief \<Rightarrow> pystr list \<Rightarrow> copywriter_result result"

definition fixture_copywriter :: copywriter where
  "fixture_copywriter brief rule_ids =
     (let fixture = FIXTURES (br_direction brief) in
      bindR (make_ad_copy \<lparr>cp_locale = df_target_locale fixture,
        cp_headline = df_headline fixture, cp_body = df_body fixture,
        cp_cta_label = df_cta_label fixture,
        cp_cta_action_meaning = bl_cta_action_meaning (br_brand_lock brief)\<rparr>) (\<lambda>c.
      Inr \<lparr>cw_ad_copy = c,
        cw_fact_references = bl_verified_product_facts (br_brand_lock brief),
        cw_rule_ids = rule_ids\<rparr>))"

subsection \<open>\<open>DraftGenerator.generate\<close>\<close>

definition generate ::
  "copywriter \<Rightarrow> ad_analysis \<Rightarrow> brand_lock \<Rightarrow> localization_direction \<Rightarrow> draft_artifacts result" where
  "generate writer analysis confirmed direction =
     (if an_brand_lock analysis \<noteq> confirmed
      then Inl (DraftGenerationError BRAND_LOCK_UNCONFIRMED)
      else let fixture = FIXTURES direction in
      if an_detected_locale analysis \<noteq> df_source_locale fixture
      then Inl (DraftGenerationError DRAFT_OUTPUT_INVALID)
      else if list_ex (\<lambda>h. hy_review_status h \<noteq> REVIEW_PENDING) (an_hypotheses analysis)
      then Inl (DraftGenerationError DRAFT_OUTPUT_INVALID)
      else bindR (make_creative_brief \<lparr>br_direction = direction,
          br_target_locale = df_target_locale fixture, br_brand_lock = confirmed,
          br_hypotheses = an_hypotheses analysis, br_narrative = df_narrative fixture,
          br_use_scenario = df_use_scenario fixture, br_trust_information = DISCLOSURE\<rparr>) (\<lambda>brief.
      bindR (writer brief (df_rule_ids fixture)) (\<lambda>r.
      if cp_locale (cw_ad_copy r) \<noteq> df_target_locale fixture
        \<or> cp_cta_action_meaning (cw_ad_copy r) \<noteq> bl_cta_action_meaning confirmed
        \<or> cw_rule_ids r \<noteq> df_rule_ids fixture
        \<or> cw_fact_references r \<noteq> bl_verified_product_facts confirmed
      then Inl (DraftGenerationError DRAFT_OUTPUT_INVALID)
      else Inr \<lparr>da_brief = brief, da_ad_copy = cw_ad_copy r,
        da_fact_references = cw_fact_references r, da_rule_ids = cw_rule_ids r\<rparr>)))"

subsection \<open>The fixtures meet the text limits\<close>

lemma FIXTURES_directional:
  "(df_target_locale (FIXTURES d), df_rule_ids (FIXTURES d)) = directional_constraint d"
  by (cases d) simp_all

lemma FIXTURES_rule_ids:
  "length (df_rule_ids (FIXTURES d)) = 2" "list_all is_short_text (df_rule_ids (FIXTURES d))"
  by (cases d; simp add: text_literals)+

lemma DISCLOSURE_text: "is_long_text DISCLOSURE" "is_short_text DISCLOSURE"
  by (auto simp: is_long_text_def is_short_text_def DISCLOSURE_def lit_def is_white_def
      intro!: is_text_points)

lemma fixture_brief_text:
  "is_long_text (df_narrative (FIXTURES d))" "is_long_text (df_use_scenario (FIXTURES d))"
  by (cases d; simp add: is_long_text_def is_text_lit is_text_points is_white_def)+

lemma fixture_copy_text:
  "is_short_text (df_headline (FIXTURES d))" "is_long_text (df_body (FIXTURES d))"
  "is_short_text (df_cta_label (FIXTURES d))"
  by (cases d; simp add: is_short_text_def is_long_text_def is_text_lit is_text_points is_white_def
      lit_def)+

lemma fixture_copy_length:
  "length (df_headline (FIXTURES d)) \<le> 80" "length (df_body (FIXTURES d)) \<le> 220"
  "length (df_cta_label (FIXTURES d)) \<le> 32"
  by (cases d; simp)+

definition fixture_brief :: "ad_analysis \<Rightarrow> brand_lock \<Rightarrow> localization_direction \<Rightarrow> creative_brief" where
  "fixture_brief analysis lock d = \<lparr>br_direction = d,
     br_target_locale = df_target_locale (FIXTURES d), br_brand_lock = lock,
     br_hypotheses = an_hypotheses analysis, br_narrative = df_narrative (FIXTURES d),
     br_use_scenario = df_use_scenario (FIXTURES d), br_trust_information = DISCLOSURE\<rparr>"

definition fixture_copy :: "brand_lock \<Rightarrow> localization_direction \<Rightarrow> ad_copy" where
  "fixture_copy lock d = \<lparr>cp_locale = df_target_locale (FIXTURES d),
     cp_headline = df_headline (FIXTURES d), cp_body = df_body (FIXTURES d),
     cp_cta_label = df_cta_label (FIXTURES d), cp_cta_action_meaning = bl_cta_action_meaning lock\<rparr>"

lemma fixture_brief_simps [simp]:
  "br_direction (fixture_brief analysis lock d) = d"
  "br_target_locale (fixture_brief analysis lock d) = df_target_locale (FIXTURES d)"
  "br_brand_lock (fixture_brief analysis lock d) = lock"
  "br_hypotheses (fixture_brief analysis lock d) = an_hypotheses analysis"
  by (simp_all add: fixture_brief_def)

lemma fixture_copy_simps [simp]:
  "cp_locale (fixture_copy lock d) = df_target_locale (FIXTURES d)"
  "cp_cta_action_meaning (fixture_copy lock d) = bl_cta_action_meaning lock"
  by (simp_all add: fixture_copy_def)

lemma valid_fixture_brief:
  "length (an_hypotheses analysis) \<le> 32 \<Longrightarrow> valid_creative_brief (fixture_brief analysis lock d)"
  by (simp add: valid_creative_brief_def fixture_brief_def fixture_brief_text DISCLOSURE_text)

lemma valid_fixture_copy:
  "valid_brand_lock lock \<Longrightarrow> valid_ad_copy (fixture_copy lock d)"
  by (simp add: valid_ad_copy_def fixture_copy_def fixture_copy_text valid_brand_lock_def)

lemma fixture_copywriter_eq:
  "valid_brand_lock (br_brand_lock brief) \<Longrightarrow> fixture_copywriter brief ids =
     Inr \<lparr>cw_ad_copy = fixture_copy (br_brand_lock brief) (br_direction brief),
       cw_fact_references = bl_verified_product_facts (br_brand_lock brief), cw_rule_ids = ids\<rparr>"
  using valid_fixture_copy[of "br_brand_lock brief" "br_direction brief"]
  by (simp add: fixture_copywriter_def fixture_copy_def make_ad_copy_id Let_def)

lemma generate_eq:
  assumes "length (an_hypotheses analysis) \<le> 32"
  shows "generate writer analysis lock d =
    (if an_brand_lock analysis \<noteq> lock then Inl (DraftGenerationError BRAND_LOCK_UNCONFIRMED)
     else if an_detected_locale analysis \<noteq> df_source_locale (FIXTURES d)
       \<or> (\<exists>h \<in> set (an_hypotheses analysis). hy_review_status h \<noteq> REVIEW_PENDING)
     then Inl (DraftGenerationError DRAFT_OUTPUT_INVALID)
     else bindR (writer (fixture_brief analysis lock d) (df_rule_ids (FIXTURES d))) (\<lambda>r.
       if cp_locale (cw_ad_copy r) \<noteq> df_target_locale (FIXTURES d)
         \<or> cp_cta_action_meaning (cw_ad_copy r) \<noteq> bl_cta_action_meaning lock
         \<or> cw_rule_ids r \<noteq> df_rule_ids (FIXTURES d)
         \<or> cw_fact_references r \<noteq> bl_verified_product_facts lock
       then Inl (DraftGenerationError DRAFT_OUTPUT_INVALID)
       else Inr \<lparr>da_brief = fixture_brief analysis lock d, da_ad_copy = cw_ad_copy r,
         da_fact_references = cw_fact_references r, da_rule_ids = cw_rule_ids r\<rparr>))"
proof -
  have "make_creative_brief (fixture_brief analysis lock d) = Inr (fixture_brief analysis lock d)"
    using assms by (simp add: make_creative_brief_id valid_fixture_brief)
  then show ?thesis
    unfolding generate_def Let_def fixture_brief_def[symmetric] by (simp add: list_ex_iff)
qed

lemma generate_hypotheses:
  "generate writer analysis lock d = Inr a \<Longrightarrow> length (an_hypotheses analysis) \<le> 32"
  by (auto simp: generate_def Let_def make_creative_brief_def valid_creative_brief_def split: if_splits)

lemma generate_InrE:
  assumes "generate writer analysis lock d = Inr a"
  obtains r where "writer (fixture_brief analysis lock d) (df_rule_ids (FIXTURES d)) = Inr r"
    and "an_brand_lock analysis = lock" "cp_locale (cw_ad_copy r) = df_target_locale (FIXTURES d)"
    and "cp_cta_action_meaning (cw_ad_copy r) = bl_cta_action_meaning lock"
    and "a = \<lparr>da_brief = fixture_brief analysis lock d, da_ad_copy = cw_ad_copy r,
      da_fact_references = bl_verified_product_facts lock, da_rule_ids = df_rule_ids (FIXTURES d)\<rparr>"
  using assms generate_eq[OF generate_hypotheses[OF assms], of writer lock d]
  by (auto split: if_splits)

subsection \<open>The copywriter protocol\<close>

text \<open>What a \<open>Copywriter\<close> promises: the copy it returns is a validated \<open>AdCopy\<close>.\<close>

locale copywriter_protocol =
  fixes writer :: "creative_brief \<Rightarrow> pystr list \<Rightarrow> exn + copywriter_result"
  assumes writer_valid: "valid_brand_lock (br_brand_lock brief) \<Longrightarrow> writer brief ids = Inr r
    \<Longrightarrow> valid_ad_copy (cw_ad_copy r)"
begin

lemma draft_valid:
  assumes "generate writer analysis lock d = Inr a" "valid_brand_lock lock"
  shows "valid_creative_brief (da_brief a) \<and> valid_ad_copy (da_ad_copy a)"
  using assms generate_hypotheses[OF assms(1)]
  by (auto elim!: generate_InrE dest: writer_valid[rotated] simp: valid_fixture_brief)

end

interpretation fixture_writer: copywriter_protocol fixture_copywriter
  by unfold_locales (auto simp: fixture_copywriter_eq valid_fixture_copy)

subsection \<open>What a draft is\<close>

definition fixture_draft ::
  "ad_analysis \<Rightarrow> brand_lock \<Rightarrow> localization_direction \<Rightarrow> draft_artifacts" where
  "fixture_draft analysis lock d = \<lparr>da_brief = fixture_brief analysis lock d,
     da_ad_copy = fixture_copy lock d, da_fact_references = bl_verified_product_facts lock,
     da_rule_ids = df_rule_ids (FIXTURES d)\<rparr>"

lemma generate_fixture:
  assumes "length (an_hypotheses analysis) \<le> 32" "valid_brand_lock lock"
  shows "generate fixture_copywriter analysis lock d =
     (if an_brand_lock analysis \<noteq> lock then Inl (DraftGenerationError BRAND_LOCK_UNCONFIRMED)
      else if an_detected_locale analysis \<noteq> df_source_locale (FIXTURES d)
        \<or> (\<exists>h \<in> set (an_hypotheses analysis). hy_review_status h \<noteq> REVIEW_PENDING)
      then Inl (DraftGenerationError DRAFT_OUTPUT_INVALID)
      else Inr (fixture_draft analysis lock d))"
  using assms
  by (auto simp: generate_eq fixture_copywriter_eq fixture_draft_def)

text \<open>
  The draft generator with the fixture copywriter, on every valid analysis: it refuses a
  confirmed lock other than the analysed one, an analysis in the wrong language and an analysis
  with a reviewed hypothesis, each with its own error, and otherwise returns the draft of the
  direction, which is valid, readable by the Critic's limits and cites every verified fact.
\<close>

theorem fixture_draft_outcome:
  assumes "valid_ad_analysis analysis" "valid_brand_lock lock"
  shows "generate fixture_copywriter analysis lock d =
     (if an_brand_lock analysis \<noteq> lock then Inl (DraftGenerationError BRAND_LOCK_UNCONFIRMED)
      else if an_detected_locale analysis \<noteq> df_source_locale (FIXTURES d)
        \<or> (\<exists>h \<in> set (an_hypotheses analysis). hy_review_status h \<noteq> REVIEW_PENDING)
      then Inl (DraftGenerationError DRAFT_OUTPUT_INVALID)
      else Inr (fixture_draft analysis lock d))
    \<and> copy_readable (da_ad_copy (fixture_draft analysis lock d))
    \<and> valid_ad_copy (da_ad_copy (fixture_draft analysis lock d))
    \<and> valid_creative_brief (da_brief (fixture_draft analysis lock d))
    \<and> da_fact_references (fixture_draft analysis lock d) \<noteq> []"
proof -
  have hyps: "length (an_hypotheses analysis) \<le> 32"
    using assms(1) by (simp add: valid_ad_analysis_def)
  have "copy_readable (fixture_copy lock d)"
    using fixture_copy_length[of d] by (simp add: copy_readable_def fixture_copy_def)
  then show ?thesis
    using generate_fixture[OF hyps assms(2)] assms(2) hyps valid_brand_lock_nonempty
    by (simp add: valid_fixture_copy valid_fixture_brief fixture_draft_def)
qed

text \<open>
  C34. Whatever copywriter is plugged in, a draft that \<open>generate\<close> returns keeps the confirmed
  Brand Lock, the meaning of its call to action and all its verified facts, cites the two rules of
  its direction and passes every validator of the \<open>DraftGenerated\<close> response.
\<close>

theorem generated_draft_meets_contract:
  assumes "generate writer analysis lock d = Inr a" "is_utc t"
  shows "an_brand_lock analysis = lock \<and> br_brand_lock (da_brief a) = lock
    \<and> br_direction (da_brief a) = d \<and> da_fact_references a = bl_verified_product_facts lock
    \<and> br_hypotheses (da_brief a) = an_hypotheses analysis
    \<and> (let response = \<lparr>dg_run_id = rid, dg_status = RUN_IN_PROGRESS, dg_brief = da_brief a,
         dg_ad_copy = da_ad_copy a, dg_rule_ids = da_rule_ids a, dg_generated_at = t\<rparr> in
       make_draft_generated response = Inr response)"
  using assms FIXTURES_directional[of d] FIXTURES_rule_ids[of d]
  by (auto elim!: generate_InrE simp: make_draft_generated_def preserve_directional_constraints_def
      Let_def list_all_short_strip split: prod.splits)

text \<open>
  A confirmation that really uses the freedom the confirmation step grants (another benefit
  order, fewer localizable fields) can never be drafted: for every copywriter and direction the
  generator refuses it as unconfirmed.
\<close>

theorem adjusted_lock_is_never_drafted:
  assumes "validate_brand_lock_confirmation proposed (an_brand_lock analysis) = Inr confirmed"
    and "bl_benefit_order proposed \<noteq> bl_benefit_order (an_brand_lock analysis)
      \<or> bl_localizable_fields proposed \<noteq> bl_localizable_fields (an_brand_lock analysis)"
  shows "generate writer analysis confirmed d = Inl (DraftGenerationError BRAND_LOCK_UNCONFIRMED)"
proof -
  have "confirmed = proposed"
    using assms(1) by (rule validate_confirmation_Inr)
  with assms(2) have "an_brand_lock analysis \<noteq> confirmed"
    by auto
  then show ?thesis
    by (simp add: generate_def)
qed

subsection \<open>Witnesses\<close>

abbreviation sample_analysis :: ad_analysis where
  "sample_analysis \<equiv> cq_analysis (sample_request [sample_hypothesis] [])"

lemma valid_sample_analysis: "valid_ad_analysis sample_analysis"
  by (simp add: valid_ad_analysis_def sample_request_def valid_warnings_def code_literals)

lemma sample_analysis_fields:
  "an_brand_lock sample_analysis = orbit_lock" "an_detected_locale sample_analysis = ZH_CN"
  "an_hypotheses sample_analysis = [sample_hypothesis]" "hy_review_status sample_hypothesis = REVIEW_PENDING"
  by (simp_all add: sample_request_def sample_hypothesis_def)

theorem fixture_draft_outcome_witness:
  "generate fixture_copywriter sample_analysis orbit_lock CHINA_TO_UK
    = Inr (fixture_draft sample_analysis orbit_lock CHINA_TO_UK)"
  using fixture_draft_outcome[OF valid_sample_analysis valid_orbit_lock, of CHINA_TO_UK]
  by (simp add: sample_analysis_fields)

theorem generated_draft_meets_contract_witness:
  "\<exists>a. generate fixture_copywriter sample_analysis orbit_lock CHINA_TO_UK = Inr a
    \<and> br_brand_lock (da_brief a) = orbit_lock"
proof -
  have "generate fixture_copywriter sample_analysis orbit_lock CHINA_TO_UK
      = Inr (fixture_draft sample_analysis orbit_lock CHINA_TO_UK)"
    by (simp add: generate_fixture valid_orbit_lock sample_analysis_fields)
  with generated_draft_meets_contract[OF this, of "utc 0" 1] show ?thesis
    by auto
qed

theorem adjusted_lock_is_never_drafted_witness:
  "generate fixture_copywriter sample_analysis reordered_orbit_lock CHINA_TO_UK
    = Inl (DraftGenerationError BRAND_LOCK_UNCONFIRMED)"
proof -
  have "validate_brand_lock_confirmation reordered_orbit_lock (an_brand_lock sample_analysis)
      = Inr reordered_orbit_lock"
    by (simp add: sample_analysis_fields validate_brand_lock_confirmation_def
        locked_fields_equal_def reordered_orbit_lock_def orbit_lock_def insert_commute)
  then show ?thesis
    by (rule adjusted_lock_is_never_drafted)
      (simp add: sample_analysis_fields reordered_orbit_lock_def orbit_lock_def)
qed

end
