(* ===== verification/Image_Provider.thy ===== *)
theory Image_Provider
  imports Patterns Media_Types Draft_Generation
begin

section \<open>Backgrounds\<close>

text \<open>
  The model of \<open>src/cultureshift/image_provider.py\<close>: the guard that refuses a request whose text
  names protected content, with its twelve patterns, and the fixture provider. What Pillow draws
  is described as the list of drawing commands of the source; \<open>raster\<close>, the encoded PNG of such
  a picture, is an argument. The lemmas say which texts the guard refuses and that the fixture
  drafts always get a background.
\<close>

subsection \<open>The guard\<close>

abbreviation word_pattern :: "string \<Rightarrow> regex" where
  "word_pattern w \<equiv> Seq Boundary (Seq (Text (lit w)) Boundary)"

definition two_words :: "string \<Rightarrow> string \<Rightarrow> regex" where
  "two_words v w = Seq Boundary (Seq (Text (lit v)) (Seq (Plus Class_Space) (Seq (Text (lit w)) Boundary)))"

definition PROTECTED_PATTERNS :: "regex list" where
  "PROTECTED_PATTERNS = [
     two_words ''orbit'' ''ai'',
     word_pattern ''logo'',
     two_words ''brand'' ''name'',
     two_words ''product'' ''ui'',
     word_pattern ''screenshot'',
     word_pattern ''claim'',
     Seq Boundary (Seq (Text (lit ''statistic'')) (Seq (Alt (Text (lit ''s'')) (Text [])) Boundary)),
     two_words ''long'' ''text'',
     Seq Boundary (Seq (Text (lit ''typograph''))
       (Seq (Alt (Text (lit ''y'')) (Text (lit ''ic''))) Boundary)),
     word_pattern ''caption'',
     Seq (word_pattern ''render'') (Seq (Many Class_Dot) (word_pattern ''text'')),
     Seq (Plus Class_Digit) (Seq (Alt (Seq (Text (lit ''.'')) (Plus Class_Digit)) (Text []))
       (Text (lit ''%'')))]"

definition combined_text :: "unicode \<Rightarrow> background_request \<Rightarrow> pystr" where
  "combined_text u b = uc_casefold u (bg_narrative b @ [10] @ bg_use_scenario b)"

definition validate_background_request :: "unicode \<Rightarrow> background_request \<Rightarrow> unit result" where
  "validate_background_request u b =
     (if list_ex (\<lambda>r. search u r (combined_text u b)) PROTECTED_PATTERNS
      then Inl (ImageProviderError BACKGROUND_REQUEST_INVALID) else Inr ())"

subsection \<open>The picture and the provider\<close>

type_synonym colour = string

datatype drawing =
    New_Image nat nat colour
  | Ellipse int int int int colour
  | Rounded_Rectangle int int int int nat colour
  | Polygon "(int \<times> int) list" colour

fun base_accent :: "localization_direction \<Rightarrow> colour \<times> colour" where
  "base_accent CHINA_TO_UK = (''#eaf2f8'', ''#bfd6e6'')"
| "base_accent UK_TO_CHINA = (''#f5eee2'', ''#e0c9a8'')"

definition render_direction_background :: "localization_direction \<Rightarrow> drawing list" where
  "render_direction_background d = (case base_accent d of (base, accent) \<Rightarrow>
     [New_Image 1600 900 base,
      Ellipse 980 (-180) 1700 540 (accent @ ''b8''),
      Rounded_Rectangle 760 130 1510 790 48 ''#ffffff8a'',
      Polygon [(0, 760), (690, 500), (930, 900), (0, 900)] ''#ffffff73''])"

record generated_background =
  gb_execution_mode :: execution_mode
  gb_width :: int
  gb_height :: int
  gb_media_type :: pystr
  gb_sha256 :: pystr
  gb_provenance_ref :: pystr
  gb_png_bytes :: bytes

fun direction_value :: "localization_direction \<Rightarrow> pystr" where
  "direction_value CHINA_TO_UK = lit ''china_to_uk''"
| "direction_value UK_TO_CHINA = lit ''uk_to_china''"

type_synonym raster = "drawing list \<Rightarrow> bytes"

definition generate_background ::
  "unicode \<Rightarrow> raster \<Rightarrow> background_request \<Rightarrow> generated_background result" where
  "generate_background u raster b =
     bindR (validate_background_request u b) (\<lambda>_.
     let png = raster (render_direction_background (bg_direction b)) in
     Inr \<lparr>gb_execution_mode = FIXTURE, gb_width = 1600, gb_height = 900,
       gb_media_type = image_png, gb_sha256 = sha256_hex png,
       gb_provenance_ref = lit ''fixture:day12-background-'' @ direction_value (bg_direction b),
       gb_png_bytes = png\<rparr>)"

subsection \<open>What the guard refuses\<close>

text \<open>The guard's vocabulary, apart from the patterns: single words, stems with their two endings,
  and pairs of words with white space between them.\<close>

definition plain_words :: "string list" where
  "plain_words = [''logo'', ''screenshot'', ''claim'', ''caption'']"

definition inflected_words :: "(string \<times> string \<times> string) list" where
  "inflected_words = [(''statistic'', ''s'', []), (''typograph'', ''y'', ''ic'')]"

definition protected_pairs :: "(string \<times> string) list" where
  "protected_pairs = [(''orbit'', ''ai''), (''brand'', ''name''), (''product'', ''ui''),
     (''long'', ''text'')]"

definition protected_phrase :: "pystr \<Rightarrow> bool" where
  "protected_phrase t \<longleftrightarrow> (\<exists>w \<in> set plain_words. t = lit w)
     \<or> (\<exists>v x y e. (v, x, y) \<in> set inflected_words \<and> (e = x \<or> e = y) \<and> t = lit v @ lit e)
     \<or> (\<exists>v w gap. (v, w) \<in> set protected_pairs \<and> gap \<noteq> [] \<and> list_all is_space gap
          \<and> t = lit v @ gap @ lit w)"

text \<open>An order to render text: the two words of their own, on one line.\<close>

definition rendered_text :: "unicode \<Rightarrow> pystr \<Rightarrow> bool" where
  "rendered_text u t \<longleftrightarrow> (\<exists>gap. t = lit ''render'' @ gap @ lit ''text'' \<and> gap \<noteq> [] \<and> 10 \<notin> set gap
     \<and> \<not> is_word u (hd gap) \<and> \<not> is_word u (last gap))"

text \<open>A percentage: digits, with or without a decimal part, and the sign.\<close>

definition numeral_text :: "unicode \<Rightarrow> pystr \<Rightarrow> bool" where
  "numeral_text u t \<longleftrightarrow> t \<noteq> [] \<and> list_all (uc_decimal u) t"

definition percentage :: "unicode \<Rightarrow> pystr \<Rightarrow> bool" where
  "percentage u t \<longleftrightarrow> (\<exists>m. numeral_text u m \<and> (t = m @ lit ''%''
     \<or> (\<exists>n. numeral_text u n \<and> t = m @ lit ''.'' @ n @ lit ''%'')))"

text \<open>The part \<open>t\<close> of a text, standing between \<open>p\<close> and \<open>s\<close>, is forbidden.\<close>

definition forbidden_part :: "unicode \<Rightarrow> pystr \<Rightarrow> pystr \<Rightarrow> pystr \<Rightarrow> bool" where
  "forbidden_part u p t s \<longleftrightarrow>
     (protected_phrase t \<or> rendered_text u t) \<and> delimited u p s \<or> percentage u t"

abbreviation inflected_pattern :: "string \<Rightarrow> string \<Rightarrow> string \<Rightarrow> regex" where
  "inflected_pattern v x y \<equiv>
     Seq Boundary (Seq (Text (lit v)) (Seq (Alt (Text (lit x)) (Text (lit y))) Boundary))"

abbreviation lower_text :: "string \<Rightarrow> bool" where
  "lower_text w \<equiv> w \<noteq> [] \<and> list_all (\<lambda>c. is_lower (of_char c)) w"

lemma lower_word:
  assumes "ascii_tables u" "w \<noteq> []" "list_all (\<lambda>c. is_lower (of_char c)) w"
  shows "is_word u (hd (lit w))" "is_word u (last (lit w))" "lit w \<noteq> []"
proof -
  have word: "is_word u c" if "is_lower c" for c
    using assms(1) that by (auto simp: is_word_def ascii_tables_def is_lower_def)
  have "\<forall>c \<in> set (lit w). is_lower c" "lit w \<noteq> []"
    using assms(2,3) by (auto simp: lit_def list_all_iff)
  then show "is_word u (hd (lit w))" "is_word u (last (lit w))" "lit w \<noteq> []"
    using word by auto
qed

text \<open>What each kind of pattern matches.\<close>

lemma match_word:
  assumes "ascii_tables u" "lower_text w"
  shows "matches u (word_pattern w) p m s \<longleftrightarrow> m = lit w \<and> delimited u p s"
  using lower_word[OF assms(1), of w] assms(2)
  by (subst match_bounded) (auto simp: matches_simps)

lemma match_two_words:
  assumes "ascii_tables u" "lower_text v" "lower_text w"
  shows "matches u (two_words v w) p m s \<longleftrightarrow>
    (\<exists>gap. gap \<noteq> [] \<and> list_all is_space gap \<and> m = lit v @ gap @ lit w) \<and> delimited u p s"
proof -
  let ?r = "Seq (Text (lit v)) (Seq (Plus Class_Space) (Text (lit w)))"
  have r: "matches u ?r p m s \<longleftrightarrow> (\<exists>gap. gap \<noteq> [] \<and> list_all is_space gap \<and> m = lit v @ gap @ lit w)"
    by (auto simp: matches_simps list_all_iff)
  have "matches u (two_words v w) p m s \<longleftrightarrow> matches u (Seq Boundary (Seq ?r Boundary)) p m s"
    by (auto simp: two_words_def matches_simps)
  also have "\<dots> \<longleftrightarrow> matches u ?r p m s \<and> delimited u p s"
    using lower_word[OF assms(1), of v] lower_word[OF assms(1), of w] assms(2,3)
    by (intro match_bounded) (auto simp: r)
  finally show ?thesis
    by (simp add: r)
qed

lemma match_inflected:
  assumes "ascii_tables u" "v \<noteq> []" "lower_text (v @ x)" "lower_text (v @ y)"
  shows "matches u (inflected_pattern v x y) p m s \<longleftrightarrow>
    (m = lit v @ lit x \<or> m = lit v @ lit y) \<and> delimited u p s"
proof -
  let ?r = "Seq (Text (lit v)) (Alt (Text (lit x)) (Text (lit y)))"
  have join: "lit (v @ e) = lit v @ lit e" for e
    by (simp add: lit_def)
  have r: "matches u ?r p m s \<longleftrightarrow> m = lit v @ lit x \<or> m = lit v @ lit y"
    by (auto simp: matches_simps)
  have "matches u (inflected_pattern v x y) p m s \<longleftrightarrow> matches u (Seq Boundary (Seq ?r Boundary)) p m s"
    by (auto simp: matches_simps)
  also have "\<dots> \<longleftrightarrow> matches u ?r p m s \<and> delimited u p s"
    using lower_word[OF assms(1), of "v @ x"] lower_word[OF assms(1), of "v @ y"] assms(2-4)
    by (intro match_bounded) (auto simp: r join)
  finally show ?thesis
    by (simp add: r)
qed

text \<open>The inner boundaries of the rendering order ask for a gap that begins and ends outside words.\<close>

lemma match_rendered:
  assumes "ascii_tables u"
  shows "matches u (Seq (word_pattern ''render'') (Seq (Many Class_Dot) (word_pattern ''text''))) p m s
    \<longleftrightarrow> rendered_text u m \<and> delimited u p s"
proof -
  let ?a = "word_pattern ''render''" and ?b = "word_pattern ''text''"
  have words: "lower_text ''render''" "lower_text ''text''"
    by (simp_all add: is_lower_def)
  note ends = lower_word[OF assms, of "''render''"] lower_word[OF assms, of "''text''"]
  have "matches u (Seq ?a (Seq (Many Class_Dot) ?b)) p m s
      \<longleftrightarrow> (\<exists>gap. m = lit ''render'' @ gap @ lit ''text'' \<and> list_all (in_class u Class_Dot) gap
        \<and> delimited u p (gap @ lit ''text'' @ s) \<and> delimited u (p @ lit ''render'' @ gap) s)"
    unfolding match_Seq_iff[of u ?a "Seq (Many Class_Dot) ?b"] match_Seq_iff[of u "Many Class_Dot" ?b]
      match_word[OF assms words(1)] match_word[OF assms words(2)] matches_simps(4)
    by auto
  also have "\<dots> \<longleftrightarrow> rendered_text u m \<and> delimited u p s"
  proof -
    have "list_all (in_class u Class_Dot) gap \<longleftrightarrow> 10 \<notin> set gap" for gap
      by (auto simp: list_all_iff)
    moreover have "delimited u p (gap @ lit ''text'' @ s) \<and> delimited u (p @ lit ''render'' @ gap) s
        \<longleftrightarrow> gap \<noteq> [] \<and> \<not> is_word u (hd gap) \<and> \<not> is_word u (last gap) \<and> delimited u p s" for gap
      using words ends by (cases "gap = []") (auto simp: delimited_def hd_append last_append)
    ultimately show ?thesis
      by (auto simp: rendered_text_def)
  qed
  finally show ?thesis .
qed

lemma match_percentage:
  "matches u (Seq (Plus Class_Digit) (Seq (Alt (Seq (Text (lit ''.'')) (Plus Class_Digit)) (Text []))
       (Text (lit ''%'')))) p m s \<longleftrightarrow> percentage u m" (is "matches u ?r p m s \<longleftrightarrow> _")
proof
  assume "matches u ?r p m s"
  then show "percentage u m"
    by (auto simp: matches_simps percentage_def numeral_text_def list_all_iff)
next
  have digits: "matches u (Plus Class_Digit) p d s" if "numeral_text u d" for p d s
    using that by (intro match_Plus) (auto simp: numeral_text_def list_all_iff)
  assume "percentage u m"
  then consider d where "numeral_text u d" "m = d @ lit ''%''"
    | d n where "numeral_text u d" "numeral_text u n" "m = d @ lit ''.'' @ n @ lit ''%''"
    by (auto simp: percentage_def)
  then show "matches u ?r p m s"
  proof cases
    case (1 d)
    have "matches u ?r p (d @ ([] @ lit ''%'')) s"
      by (intro match_Seq match_Alt2 match_Text digits 1)
    with 1 show ?thesis
      by simp
  next
    case (2 d n)
    have "matches u ?r p (d @ ((lit ''.'' @ n) @ lit ''%'')) s"
      by (intro match_Seq match_Alt1 match_Text digits 2)
    with 2 show ?thesis
      by simp
  qed
qed

lemma lit_Nil: "lit [] = []"
  by (simp add: lit_def)

text \<open>The twelve patterns are the vocabulary, the rendering order and the percentage.\<close>

lemma patterns_vocabulary:
  "set PROTECTED_PATTERNS = word_pattern ` set plain_words
     \<union> (\<lambda>(v, x, y). inflected_pattern v x y) ` set inflected_words
     \<union> (\<lambda>(v, w). two_words v w) ` set protected_pairs
     \<union> {Seq (word_pattern ''render'') (Seq (Many Class_Dot) (word_pattern ''text'')),
        Seq (Plus Class_Digit) (Seq (Alt (Seq (Text (lit ''.'')) (Plus Class_Digit)) (Text []))
          (Text (lit ''%'')))}"
  unfolding PROTECTED_PATTERNS_def plain_words_def inflected_words_def protected_pairs_def
    list.set image_insert image_empty prod.case
  by (simp only: Un_insert_left Un_insert_right Un_empty_left Un_empty_right lit_Nil)
    (simp only: insert_commute)

lemma split_paired_Bex_image:
  "(\<exists>z \<in> (\<lambda>(v, w). g v w) ` B. P z) \<longleftrightarrow> (\<exists>v w. (v, w) \<in> B \<and> P (g v w))"
  "(\<exists>z \<in> (\<lambda>(v, x, y). h v x y) ` C. P z) \<longleftrightarrow> (\<exists>v x y. (v, x, y) \<in> C \<and> P (h v x y))"
  by force+

lemma bex_vocabulary: "X = A \<union> B \<union> C \<union> {a, b} \<Longrightarrow> (\<exists>z \<in> X. P z) \<longleftrightarrow>
    (\<exists>z \<in> A. P z) \<or> (\<exists>z \<in> B. P z) \<or> (\<exists>z \<in> C. P z) \<or> P a \<or> P b"
  by blast

lemma phrase_letters:
  "\<forall>w \<in> set plain_words. lower_text w"
  "\<forall>(v, x, y) \<in> set inflected_words. v \<noteq> [] \<and> lower_text (v @ x) \<and> lower_text (v @ y)"
  "\<forall>(v, w) \<in> set protected_pairs. lower_text v \<and> lower_text w"
  by (simp_all add: plain_words_def inflected_words_def protected_pairs_def is_lower_def)

lemma patterns_match:
  assumes "ascii_tables u"
  shows "(\<exists>r \<in> set PROTECTED_PATTERNS. matches u r p t s) \<longleftrightarrow> forbidden_part u p t s"
proof -
  have plain: "matches u (word_pattern w) p t s \<longleftrightarrow> t = lit w \<and> delimited u p s"
    if "w \<in> set plain_words" for w
    using match_word[OF assms] phrase_letters(1) that by blast
  have inflected: "matches u (inflected_pattern v x y) p t s
      \<longleftrightarrow> (t = lit v @ lit x \<or> t = lit v @ lit y) \<and> delimited u p s"
    if "(v, x, y) \<in> set inflected_words" for v x y
    using that phrase_letters(2) by (intro match_inflected[OF assms]) auto
  have pair: "matches u (two_words v w) p t s
      \<longleftrightarrow> (\<exists>gap. gap \<noteq> [] \<and> list_all is_space gap \<and> t = lit v @ gap @ lit w) \<and> delimited u p s"
    if "(v, w) \<in> set protected_pairs" for v w
    using that phrase_letters(3) by (intro match_two_words[OF assms]) auto
  have words: "(\<exists>w \<in> set plain_words. matches u (word_pattern w) p t s)
      \<longleftrightarrow> (\<exists>w \<in> set plain_words. t = lit w) \<and> delimited u p s"
    using plain by blast
  have stems: "(\<exists>v x y. (v, x, y) \<in> set inflected_words \<and> matches u (inflected_pattern v x y) p t s)
      \<longleftrightarrow> (\<exists>v x y e. (v, x, y) \<in> set inflected_words \<and> (e = x \<or> e = y) \<and> t = lit v @ lit e)
        \<and> delimited u p s"
    using inflected by metis
  have pairs: "(\<exists>v w. (v, w) \<in> set protected_pairs \<and> matches u (two_words v w) p t s)
      \<longleftrightarrow> (\<exists>v w gap. (v, w) \<in> set protected_pairs \<and> gap \<noteq> [] \<and> list_all is_space gap
        \<and> t = lit v @ gap @ lit w) \<and> delimited u p s"
    using pair by metis
  have all: "(\<exists>r \<in> set PROTECTED_PATTERNS. matches u r p t s) \<longleftrightarrow>
      (\<exists>w \<in> set plain_words. matches u (word_pattern w) p t s)
      \<or> (\<exists>v x y. (v, x, y) \<in> set inflected_words \<and> matches u (inflected_pattern v x y) p t s)
      \<or> (\<exists>v w. (v, w) \<in> set protected_pairs \<and> matches u (two_words v w) p t s)
      \<or> rendered_text u t \<and> delimited u p s \<or> percentage u t"
    unfolding bex_vocabulary[OF patterns_vocabulary] split_paired_Bex_image(2)
    unfolding split_paired_Bex_image(1)
    unfolding bex_simps(7) match_rendered[OF assms] match_percentage ..
  have "A \<and> D \<or> B \<and> D \<or> C \<and> D \<or> R \<and> D \<or> P \<longleftrightarrow> ((A \<or> B \<or> C) \<or> R) \<and> D \<or> P" for A B C D R P
    by blast
  then show ?thesis
    unfolding all words stems pairs forbidden_part_def protected_phrase_def .
qed

subsection \<open>What the guard accepts\<close>

text \<open>No pattern can match a text that lacks one of its literals.\<close>

definition stems :: "string list" where
  "stems = [''orbit'', ''logo'', ''brand'', ''product'',
     ''screenshot'', ''claim'', ''statistic'', ''long'', ''typograph'', ''caption'', ''render'', ''%'']"

lemma stems_required: "list_all2 (\<lambda>r w. lit w \<in> requires r) PROTECTED_PATTERNS stems"
  by (simp add: stems_def PROTECTED_PATTERNS_def two_words_def)

lemma guard_accepts:
  assumes "list_all (\<lambda>w. \<not> contains (lit w) (combined_text u b)) stems"
  shows "validate_background_request u b = Inr ()"
proof -
  have "\<not> search u r (combined_text u b)" if "r \<in> set PROTECTED_PATTERNS" for r
  proof -
    from that stems_required obtain w where "w \<in> set stems" "lit w \<in> requires r"
      by (metis list_all2_conv_all_nth in_set_conv_nth)
    then show ?thesis
      using assms search_requires[of u r "combined_text u b" "lit w"] by (auto simp: list_all_iff)
  qed
  then show ?thesis
    by (simp add: validate_background_request_def list_ex_iff)
qed

definition fixture_text :: "localization_direction \<Rightarrow> pystr" where
  "fixture_text d = df_narrative (FIXTURES d) @ [10] @ df_use_scenario (FIXTURES d)"

lemma fixture_text_folds:
  "ascii_tables u \<Longrightarrow> uc_casefold u (fixture_text d) = map ascii_lower (fixture_text d)"
  by (cases d) (simp_all add: ascii_tables_def fixture_text_def lit_def is_caseless_def)

lemma fixture_text_clean:
  "list_all (\<lambda>w. \<not> contains (lit w) (map ascii_lower (fixture_text d))) stems"
  unfolding stems_def list.pred_inject
  by (cases d) (simp_all add: fixture_text_def lit_def ascii_lower_def is_upper_def startswith_simps)

definition background_of :: "raster \<Rightarrow> localization_direction \<Rightarrow> generated_background" where
  "background_of raster d = (let png = raster (render_direction_background d) in
     \<lparr>gb_execution_mode = FIXTURE, gb_width = 1600, gb_height = 900, gb_media_type = image_png,
      gb_sha256 = sha256_hex png,
      gb_provenance_ref = lit ''fixture:day12-background-'' @ direction_value d,
      gb_png_bytes = png\<rparr>)"

lemma generate_background_eq:
  "generate_background u raster b =
     bindR (validate_background_request u b) (\<lambda>_. Inr (background_of raster (bg_direction b)))"
  by (simp add: generate_background_def background_of_def Let_def)

lemma fixture_background:
  assumes "ascii_tables u" "br_narrative brief = df_narrative (FIXTURES d)"
    "br_use_scenario brief = df_use_scenario (FIXTURES d)" "br_target_locale brief = expected_locale d"
  shows "bindR (make_background_request d (br_target_locale brief) (br_narrative brief)
      (br_use_scenario brief)) (generate_background u raster) = Inr (background_of raster d)"
proof -
  let ?b = "\<lparr>bg_direction = d, bg_target_locale = expected_locale d,
     bg_narrative = df_narrative (FIXTURES d), bg_use_scenario = df_use_scenario (FIXTURES d),
     bg_width = 1600, bg_height = 900, bg_prohibited_content = background_guardrails\<rparr>"
  have "make_background_request d (expected_locale d) (df_narrative (FIXTURES d))
      (df_use_scenario (FIXTURES d)) = Inr ?b"
    by (simp add: make_background_request_def fixture_brief_text
        require_directional_locale_and_guardrails_def Let_def)
  moreover have "combined_text u ?b = map ascii_lower (fixture_text d)"
    using fixture_text_folds[OF assms(1), of d] by (simp add: combined_text_def fixture_text_def)
  then have "validate_background_request u ?b = Inr ()"
    using fixture_text_clean[of d] by (intro guard_accepts) simp
  ultimately show ?thesis
    using assms(2-4) by (simp add: generate_background_eq)
qed

text \<open>
  The guard never stands in the way of the generator's own drafts: for every analysis that can
  be drafted, the background request the services build from the fixture brief is valid and gets
  the background of its direction, whose provenance is a public reference and whose digest is that
  of its bytes.
\<close>

theorem fixture_drafts_get_backgrounds:
  assumes "generate fixture_copywriter analysis lock d = Inr a" "ascii_tables u"
  shows "bindR (make_background_request d (br_target_locale (da_brief a)) (br_narrative (da_brief a))
      (br_use_scenario (da_brief a))) (generate_background u raster) = Inr (background_of raster d)
    \<and> is_public_reference (gb_provenance_ref (background_of raster d))
    \<and> gb_sha256 (background_of raster d) = sha256_hex (raster (render_direction_background d))"
proof -
  have brief: "da_brief a = fixture_brief analysis lock d"
    using assms(1) by (rule generate_InrE) simp
  have "br_target_locale (da_brief a) = expected_locale d"
    by (cases d) (simp_all add: brief)
  then have "bindR (make_background_request d (br_target_locale (da_brief a)) (br_narrative (da_brief a))
      (br_use_scenario (da_brief a))) (generate_background u raster) = Inr (background_of raster d)"
    by (intro fixture_background[OF assms(2)]) (simp_all add: brief fixture_brief_def)
  moreover have "is_public_reference (gb_provenance_ref (background_of raster d))"
    by (cases d) (simp_all add: background_of_def is_public_reference_def public_schemes_def Let_def
      startswith_def is_reference_path_def is_alnum_def is_lower_def is_upper_def is_digit_def
      strip_text_def strip_by_def lit_def is_white_def)
  ultimately show ?thesis
    by (simp add: background_of_def Let_def)
qed

subsection \<open>The guard in full\<close>

text \<open>
  C36. Exactly which requests get a background. Over tables that agree with Python's on ASCII, a
  request is refused exactly when its case-folded narrative and scenario, one line each, contain a
  forbidden part: as words of their own, one of the words for logos, screenshots, claims,
  statistics, typography and captions, or \<open>orbit ai\<close>, \<open>brand name\<close>, \<open>product ui\<close>, \<open>long text\<close>
  with white space between, or \<open>render\<close> before \<open>text\<close> on one line; or, anywhere, a percentage.
  Every other request gets the background of its direction.
\<close>

theorem guard_refuses_exactly:
  assumes "ascii_tables u"
  shows "generate_background u raster b =
    (if \<exists>p t s. uc_casefold u (bg_narrative b @ [10] @ bg_use_scenario b) = p @ t @ s
          \<and> forbidden_part u p t s
     then Inl (ImageProviderError BACKGROUND_REQUEST_INVALID)
     else Inr (background_of raster (bg_direction b)))"
proof -
  have "list_ex (\<lambda>r. search u r (combined_text u b)) PROTECTED_PATTERNS \<longleftrightarrow>
      (\<exists>p t s. combined_text u b = p @ t @ s \<and> forbidden_part u p t s)"
    unfolding list_ex_iff search_iff patterns_match[OF assms, symmetric] by blast
  then show ?thesis
    unfolding generate_background_eq validate_background_request_def combined_text_def by simp
qed

subsection \<open>Witnesses\<close>

definition logo_request :: background_request where
  "logo_request = \<lparr>bg_direction = CHINA_TO_UK, bg_target_locale = EN_GB,
     bg_narrative = lit ''Show the Logo'', bg_use_scenario = lit ''Desk'', bg_width = 1600,
     bg_height = 900, bg_prohibited_content = background_guardrails\<rparr>"

text \<open>A text that shows the logo is refused, and one that names desks only has no forbidden part.\<close>

theorem guard_refuses_exactly_witness:
  "generate_background basic_tables (\<lambda>_. []) logo_request
     = Inl (ImageProviderError BACKGROUND_REQUEST_INVALID)
   \<and> \<not> (\<exists>p t s. lit ''desk'' @ [10] @ lit ''desk'' = p @ t @ s \<and> forbidden_part basic_tables p t s)"
proof
  have "uc_casefold basic_tables (bg_narrative logo_request @ [10] @ bg_use_scenario logo_request)
      = lit ''show the '' @ lit ''logo'' @ (10 # lit ''desk'')"
    by (simp add: logo_request_def basic_tables_def lit_def ascii_lower_def is_upper_def)
  moreover have "protected_phrase (lit ''logo'')"
    by (simp add: protected_phrase_def plain_words_def)
  moreover have "delimited basic_tables (lit ''show the '') (10 # lit ''desk'')"
    by (simp add: delimited_def is_word_def basic_tables_def lit_def is_lower_def is_upper_def
        is_digit_def is_caseless_def)
  ultimately show "generate_background basic_tables (\<lambda>_. []) logo_request
     = Inl (ImageProviderError BACKGROUND_REQUEST_INVALID)"
    unfolding guard_refuses_exactly[OF ascii_basic_tables] forbidden_part_def by metis
next
  let ?b = "logo_request\<lparr>bg_narrative := lit ''desk'', bg_use_scenario := lit ''desk''\<rparr>"
  have fold: "combined_text basic_tables ?b = lit ''desk'' @ [10] @ lit ''desk''"
    by (simp add: combined_text_def basic_tables_def lit_def ascii_lower_def is_upper_def)
  have "list_all (\<lambda>w. \<not> contains (lit w) (combined_text basic_tables ?b)) stems"
    unfolding fold by (simp add: stems_def lit_def startswith_simps)
  then have "validate_background_request basic_tables ?b = Inr ()"
    by (rule guard_accepts)
  then have "generate_background basic_tables (\<lambda>_. []) ?b \<noteq> Inl (ImageProviderError BACKGROUND_REQUEST_INVALID)"
    by (simp add: generate_background_eq)
  then show "\<not> (\<exists>p t s. lit ''desk'' @ [10] @ lit ''desk'' = p @ t @ s \<and> forbidden_part basic_tables p t s)"
    using fold unfolding guard_refuses_exactly[OF ascii_basic_tables] combined_text_def by metis
qed

theorem fixture_drafts_get_backgrounds_witness:
  "\<exists>a. generate fixture_copywriter sample_analysis orbit_lock CHINA_TO_UK = Inr a
    \<and> bindR (make_background_request CHINA_TO_UK (br_target_locale (da_brief a))
        (br_narrative (da_brief a)) (br_use_scenario (da_brief a)))
        (generate_background basic_tables (\<lambda>_. PNG_SIGNATURE))
      = Inr (background_of (\<lambda>_. PNG_SIGNATURE) CHINA_TO_UK)"
proof -
  have draft: "generate fixture_copywriter sample_analysis orbit_lock CHINA_TO_UK
      = Inr (fixture_draft sample_analysis orbit_lock CHINA_TO_UK)"
    by (simp add: generate_fixture valid_orbit_lock sample_analysis_fields)
  show ?thesis
    using fixture_drafts_get_backgrounds[OF draft ascii_basic_tables] draft by auto
qed

end
