(* ===== verification/Fixture_Assets.thy ===== *)
theory Fixture_Assets
  imports Media_Types Brand_Lock
begin

section \<open>The registry of fixture assets\<close>

text \<open>
  The model of \<open>src/cultureshift/fixture_assets.py\<close>: the two registered assets, and
  \<open>resolve\<close>, which reads the file behind an identifier. The file system is the argument
  \<open>files\<close>, the outcome of \<open>read_bytes\<close> for each relative path.
\<close>

record registered_fixture_asset =
  fa_asset_id :: uuid
  fa_kind :: asset_kind
  fa_png_bytes :: bytes
  fa_sha256 :: pystr
  fa_provenance_ref :: pystr

text \<open>\<open>__post_init__\<close>: the digest must be that of the bytes.\<close>

definition make_registered_fixture_asset ::
  "registered_fixture_asset \<Rightarrow> registered_fixture_asset result" where
  "make_registered_fixture_asset a =
     (if sha256_hex (fa_png_bytes a) \<noteq> fa_sha256 a then Inl ValueError else Inr a)"

definition LOGO_ID :: uuid where
  "LOGO_ID = 0xa1111111111141118111111111111111"

definition PRODUCT_UI_ID :: uuid where
  "PRODUCT_UI_ID = 0xa2222222222242228222222222222222"

definition fixture_definitions :: "uuid \<Rightarrow> (asset_kind \<times> pystr \<times> pystr) option" where
  "fixture_definitions asset_id =
     (if asset_id = LOGO_ID
      then Some (LOGO, lit ''orbit-ai-logo.png'', lit ''fixture:orbit-ai-logo-day12-raster'')
      else if asset_id = PRODUCT_UI_ID
      then Some (PRODUCT_UI, lit ''orbit-ai-product-ui.png'',
        lit ''fixture:orbit-ai-product-ui-day12-raster'')
      else None)"

type_synonym files = "pystr \<Rightarrow> bytes result"

definition resolve :: "files \<Rightarrow> uuid \<Rightarrow> registered_fixture_asset result" where
  "resolve files asset_id =
     (case fixture_definitions asset_id of
        None \<Rightarrow> Inl FixtureAssetError
      | Some (kind, relative_path, provenance_ref) \<Rightarrow>
          (case files relative_path of
             Inl e \<Rightarrow> if is_OSError e then Inl FixtureAssetError else Inl e
           | Inr content \<Rightarrow>
               if \<not> startswith content PNG_SIGNATURE then Inl FixtureAssetError
               else make_registered_fixture_asset \<lparr>fa_asset_id = asset_id, fa_kind = kind,
                 fa_png_bytes = content, fa_sha256 = sha256_hex content,
                 fa_provenance_ref = provenance_ref\<rparr>))"

text \<open>
  A resolved asset is one of the two registered ones, of the kind its identifier stands for,
  with the bytes of its file, which are a PNG, and their digest; anything else, a missing file or
  a file that is not a PNG, is the one lookup error, as long as reading fails only with \<open>OSError\<close>.
\<close>

theorem resolve_outcome:
  assumes "\<forall>path e. files path = Inl e \<longrightarrow> is_OSError e"
  shows "case resolve files asset_id of
      Inl e \<Rightarrow> e = FixtureAssetError
    | Inr a \<Rightarrow> fa_asset_id a = asset_id \<and> asset_id \<in> {LOGO_ID, PRODUCT_UI_ID}
        \<and> fa_kind a = (if asset_id = LOGO_ID then LOGO else PRODUCT_UI)
        \<and> (\<exists>path. files path = Inr (fa_png_bytes a)) \<and> startswith (fa_png_bytes a) PNG_SIGNATURE
        \<and> fa_sha256 a = sha256_hex (fa_png_bytes a) \<and> is_sha256 (fa_sha256 a)
        \<and> is_public_reference (fa_provenance_ref a)"
proof -
  have refs: "is_public_reference (lit ''fixture:orbit-ai-logo-day12-raster'')"
    "is_public_reference (lit ''fixture:orbit-ai-product-ui-day12-raster'')"
    by (simp_all add: is_public_reference_def public_schemes_def startswith_def is_reference_path_def
        is_alnum_def is_lower_def is_upper_def is_digit_def strip_text_def strip_by_def lit_def
        is_white_def)
  have "LOGO_ID \<noteq> PRODUCT_UI_ID"
    by (simp add: LOGO_ID_def PRODUCT_UI_ID_def)
  then show ?thesis
    using assms refs is_sha256_hex
    by (auto simp: resolve_def fixture_definitions_def make_registered_fixture_asset_def
        split: sum.splits if_splits)
qed

lemma resolve_error:
  "(\<And>path e. files path = Inl e \<Longrightarrow> is_OSError e) \<Longrightarrow> resolve files asset_id = Inl e \<Longrightarrow> e = FixtureAssetError"
  by (auto simp: resolve_def make_registered_fixture_asset_def split: option.splits sum.splits if_splits)

lemma resolve_Inr:
  "resolve files asset_id = Inr a \<Longrightarrow> fa_asset_id a = asset_id
     \<and> fa_kind a = (if asset_id = LOGO_ID then LOGO else PRODUCT_UI)
     \<and> asset_id \<in> {LOGO_ID, PRODUCT_UI_ID}"
  by (auto simp: resolve_def fixture_definitions_def make_registered_fixture_asset_def
      split: option.splits sum.splits if_splits)

lemma orbit_lock_assets:
  "bl_logo_asset_id orbit_lock = LOGO_ID" "bl_product_ui_asset_ids orbit_lock = [PRODUCT_UI_ID]"
  by (simp_all add: orbit_lock_def LOGO_ID_def PRODUCT_UI_ID_def)

definition sample_files :: files where
  "sample_files path = (if path = lit ''orbit-ai-logo.png'' then Inr (PNG_SIGNATURE @ [1])
     else if path = lit ''orbit-ai-product-ui.png'' then Inr (PNG_SIGNATURE @ [2]) else Inl OSError)"

lemma sample_resolves:
  "resolve sample_files LOGO_ID = Inr \<lparr>fa_asset_id = LOGO_ID, fa_kind = LOGO,
     fa_png_bytes = PNG_SIGNATURE @ [1], fa_sha256 = sha256_hex (PNG_SIGNATURE @ [1]),
     fa_provenance_ref = lit ''fixture:orbit-ai-logo-day12-raster''\<rparr>"
  "resolve sample_files PRODUCT_UI_ID = Inr \<lparr>fa_asset_id = PRODUCT_UI_ID, fa_kind = PRODUCT_UI,
     fa_png_bytes = PNG_SIGNATURE @ [2], fa_sha256 = sha256_hex (PNG_SIGNATURE @ [2]),
     fa_provenance_ref = lit ''fixture:orbit-ai-product-ui-day12-raster''\<rparr>"
  by (simp_all add: resolve_def fixture_definitions_def sample_files_def startswith_def
      make_registered_fixture_asset_def LOGO_ID_def PRODUCT_UI_ID_def)

lemma sample_files_error: "sample_files path = Inl e \<Longrightarrow> is_OSError e"
  by (auto simp: sample_files_def is_OSError_def split: if_splits)

theorem resolve_outcome_witness:
  "fa_kind (projr (resolve sample_files LOGO_ID)) = LOGO \<and> resolve sample_files 5 = Inl FixtureAssetError"
proof -
  have files: "\<forall>path e. sample_files path = Inl e \<longrightarrow> is_OSError e"
    using sample_files_error by blast
  have "resolve sample_files 5 = Inl FixtureAssetError"
    by (simp add: resolve_def fixture_definitions_def LOGO_ID_def PRODUCT_UI_ID_def)
  then show ?thesis
    using resolve_outcome[OF files, of LOGO_ID] by (simp add: sample_resolves)
qed

end
