(* ===== verification/Composition.thy ===== *)
theory Composition
  imports Text_Layout Image_Provider Fixture_Assets
begin

section \<open>Composing an advertisement\<close>

text \<open>
  The model of \<open>src/cultureshift/composition.py\<close>: the check of the locked assets, the fitting of
  fonts, the text layers, the seven rendered layers with their evidence and the composite. Pillow
  is the record \<open>pillow\<close> of the calls the source makes, on a type \<open>'i\<close> of RGBA images and a type
  \<open>'f\<close> of loaded fonts; widths and boxes are rational numbers, the exact values of its floats. A
  Pillow image is mutable: each drawing call is the function from the image before to the image
  after. The contents of the font file are an argument.
\<close>

subsection \<open>Pillow\<close>

record ('i, 'f) pillow =
  pl_open_rgba :: "bytes \<Rightarrow> exn + 'i"
  pl_size :: "'i \<Rightarrow> int \<times> int"
  pl_thumbnail :: "int \<times> int \<Rightarrow> 'i \<Rightarrow> 'i"
  pl_tobytes :: "'i \<Rightarrow> bytes"
  pl_encode_png :: "'i \<Rightarrow> bytes"
  pl_new_rgba :: "int \<times> int \<Rightarrow> 'i"
  pl_rounded_rectangle :: "int \<times> int \<times> int \<times> int \<Rightarrow> int \<Rightarrow> string \<Rightarrow> 'i \<Rightarrow> 'i"
  pl_multiline_text :: "int \<times> rat \<Rightarrow> pystr \<Rightarrow> 'f \<Rightarrow> int \<Rightarrow> string \<Rightarrow> 'i \<Rightarrow> 'i"
  pl_alpha_composite :: "'i \<Rightarrow> int \<times> int \<Rightarrow> 'i \<Rightarrow> 'i"
  pl_truetype :: "int \<Rightarrow> exn + 'f"
  pl_getlength :: "'f \<Rightarrow> pystr \<Rightarrow> rat"
  pl_multiline_textbbox :: "'f \<Rightarrow> int \<Rightarrow> pystr \<Rightarrow> rat \<times> rat \<times> rat \<times> rat"

abbreviation invalid_output :: exn where
  "invalid_output \<equiv> CompositionError COMPOSITION_INVALID_OUTPUT"

text \<open>\<open>except (OSError, ValueError)\<close>, which also catches the subclasses of both.\<close>

definition is_image_error :: "exn \<Rightarrow> bool" where
  "is_image_error e \<longleftrightarrow> is_OSError e \<or> is_ValueError e"

definition decode_rgba ::
  "('i, 'f) pillow \<Rightarrow> bytes \<Rightarrow> (int \<times> int) option \<Rightarrow> exn + 'i" where
  "decode_rgba pil data expected_size =
     (case pl_open_rgba pil data of
        Inl e \<Rightarrow> if is_image_error e then Inl invalid_output else Inl e
      | Inr img \<Rightarrow> if expected_size \<noteq> None \<and> pl_size pil img \<noteq> the expected_size
          then Inl invalid_output else Inr img)"

definition contain :: "('i, 'f) pillow \<Rightarrow> bytes \<Rightarrow> int \<times> int \<Rightarrow> exn + 'i" where
  "contain pil data maximum = bindR (decode_rgba pil data None) (\<lambda>img.
     Inr (pl_thumbnail pil maximum img))"

subsection \<open>Fonts\<close>

text \<open>The code pins the digest of its font file. The definitions take the pinned digest as the
  argument \<open>pinned\<close>, so that they can be run with any font; the code is the instance with
  \<open>FONT_SHA256\<close>.\<close>

definition FONT_SHA256 :: pystr where
  "FONT_SHA256 = lit ''2c76254f6fc379fddfce0a7e84fb5385bb135d3e399294f6eeb6680d0365b74b''"

definition load_font :: "('i, 'f) pillow \<Rightarrow> pystr \<Rightarrow> bytes result \<Rightarrow> int \<Rightarrow> exn + 'f" where
  "load_font pil pinned font_file px =
     (case bindR font_file (\<lambda>content.
        if sha256_hex content \<noteq> pinned then Inl invalid_output else pl_truetype pil px) of
        Inl e \<Rightarrow> (case e of CompositionError c \<Rightarrow> Inl e
          | _ \<Rightarrow> if is_image_error e then Inl invalid_output else Inl e)
      | Inr f \<Rightarrow> Inr f)"

text \<open>\<open>range(start, minimum - 1, -2)\<close>.\<close>

definition font_sizes :: "int \<Rightarrow> int \<Rightarrow> int list" where
  "font_sizes start minimum = map (\<lambda>k. start - 2 * int k) [0..<nat ((start - minimum) div 2 + 1)]"

definition is_CompositionError :: "exn \<Rightarrow> bool" where
  "is_CompositionError e \<longleftrightarrow> (case e of CompositionError _ \<Rightarrow> True | _ \<Rightarrow> False)"

text \<open>\<open>"\n".join(lines)\<close>.\<close>

fun join_lines :: "pystr list \<Rightarrow> pystr" where
  "join_lines [] = []"
| "join_lines [l] = l"
| "join_lines (l # ls) = l @ [10] @ join_lines ls"

definition spacing_of :: "int \<Rightarrow> int" where
  "spacing_of px = max 2 (px div 6)"

fun fit_loop ::
  "('i, 'f) pillow \<Rightarrow> pystr \<Rightarrow> bytes result \<Rightarrow> pystr \<Rightarrow> int \<Rightarrow> int \<Rightarrow> int \<Rightarrow> int list
    \<Rightarrow> exn + ('f \<times> pystr list \<times> int)" where
  "fit_loop pil pinned font_file s width height maximum_lines [] = Inl invalid_output"
| "fit_loop pil pinned font_file s width height maximum_lines (px # sizes) =
     bindR (load_font pil pinned font_file px) (\<lambda>candidate.
     case wrap_text (pl_getlength pil candidate) s width maximum_lines of
       Inl e \<Rightarrow> if is_CompositionError e
         then fit_loop pil pinned font_file s width height maximum_lines sizes else Inl e
     | Inr lines \<Rightarrow>
         (case pl_multiline_textbbox pil candidate (spacing_of px) (join_lines lines) of
            (left, upper, right, lower) \<Rightarrow>
              if right - left \<le> of_int width \<and> lower - upper \<le> of_int height
              then Inr (candidate, lines, spacing_of px)
              else fit_loop pil pinned font_file s width height maximum_lines sizes))"

definition fit_font ::
  "('i, 'f) pillow \<Rightarrow> pystr \<Rightarrow> bytes result \<Rightarrow> pystr \<Rightarrow> int \<Rightarrow> int \<Rightarrow> int \<Rightarrow> int \<Rightarrow> int
    \<Rightarrow> exn + ('f \<times> pystr list \<times> int)" where
  "fit_font pil pinned font_file s width height start minimum maximum_lines =
     fit_loop pil pinned font_file s width height maximum_lines (font_sizes start minimum)"

subsection \<open>Layers\<close>

record text_style =
  ts_size :: "int \<times> int"
  ts_start_font :: int
  ts_minimum_font :: int
  ts_maximum_lines :: int
  ts_colour :: string
  ts_background :: "string option"

definition text_layer ::
  "('i, 'f) pillow \<Rightarrow> pystr \<Rightarrow> bytes result \<Rightarrow> pystr \<Rightarrow> text_style \<Rightarrow> exn + 'i" where
  "text_layer pil pinned font_file s st =
     (case ts_size st of (w, h) \<Rightarrow>
      let blank = pl_new_rgba pil (w, h);
          img = (case ts_background st of None \<Rightarrow> blank
            | Some fill \<Rightarrow> pl_rounded_rectangle pil (0, 0, w - 1, h - 1) 18 fill blank) in
      bindR (fit_font pil pinned font_file s (w - 24) h (ts_start_font st) (ts_minimum_font st)
        (ts_maximum_lines st)) (\<lambda>(font, lines, spacing).
      let rendered = join_lines lines in
      (case pl_multiline_textbbox pil font spacing rendered of (left, upper, right, lower) \<Rightarrow>
         let y = of_int \<lfloor>(of_int h - (lower - upper)) / 2\<rfloor> - upper in
         Inr (pl_multiline_text pil (12, y) rendered font spacing (ts_colour st) img))))"

record rendered_layer =
  rl_evidence :: composition_layer
  rl_png_bytes :: bytes

definition render_layer ::
  "('i, 'f) pillow \<Rightarrow> layer_kind \<Rightarrow> 'i \<Rightarrow> int \<times> int \<Rightarrow> uuid option \<Rightarrow> rendered_layer result" where
  "render_layer pil kind img origin source =
     (case pl_size pil img of (width, height) \<Rightarrow> case origin of (left, top') \<Rightarrow>
      bindR (make_composition_layer \<lparr>ly_kind = kind, ly_source_asset_id = source,
        ly_rgba_sha256 = sha256_hex (pl_tobytes pil img),
        ly_bounds = (left, top', left + width, top' + height), ly_width = width,
        ly_height = height\<rparr>) (\<lambda>evidence.
      Inr \<lparr>rl_evidence = evidence, rl_png_bytes = pl_encode_png pil img\<rparr>))"

subsection \<open>\<open>PillowCompositor.compose\<close>\<close>

record compose_request =
  qc_run_id :: uuid
  qc_background :: generated_background
  qc_brand_lock :: brand_lock
  qc_ad_copy :: ad_copy
  qc_logo :: registered_fixture_asset
  qc_product_ui :: registered_fixture_asset
  qc_font_file :: "bytes result"

record composed_ad =
  ca_png_bytes :: bytes
  ca_sha256 :: pystr
  ca_layers :: "composition_layer list"
  ca_rendered_layers :: "rendered_layer list"

text \<open>\<open>ComposedAd.layer\<close> and \<open>layer_png\<close>.\<close>

definition ca_layer :: "composed_ad \<Rightarrow> layer_kind \<Rightarrow> composition_layer result" where
  "ca_layer a kind = (case List.find (\<lambda>l. ly_kind l = kind) (ca_layers a) of
     Some l \<Rightarrow> Inr l | None \<Rightarrow> Inl KeyError)"

definition ca_layer_png :: "composed_ad \<Rightarrow> layer_kind \<Rightarrow> bytes result" where
  "ca_layer_png a kind = (case List.find (\<lambda>l. ly_kind (rl_evidence l) = kind) (ca_rendered_layers a) of
     Some l \<Rightarrow> Inr (rl_png_bytes l) | None \<Rightarrow> Inl KeyError)"

definition validate_compose_request :: "compose_request \<Rightarrow> unit result" where
  "validate_compose_request q =
     (if fa_asset_id (qc_logo q) \<noteq> bl_logo_asset_id (qc_brand_lock q)
        \<or> fa_kind (qc_logo q) \<noteq> LOGO
        \<or> fa_asset_id (qc_product_ui q) \<notin> set (bl_product_ui_asset_ids (qc_brand_lock q))
        \<or> fa_kind (qc_product_ui q) \<noteq> PRODUCT_UI
      then Inl (CompositionError LOCKED_ASSET_MISSING)
      else if cp_cta_action_meaning (qc_ad_copy q) \<noteq> bl_cta_action_meaning (qc_brand_lock q)
      then Inl (CompositionError LOCKED_CONTENT_DRIFT)
      else Inr ())"

definition headline_style :: text_style where
  "headline_style = \<lparr>ts_size = (660, 124), ts_start_font = 58, ts_minimum_font = 24,
     ts_maximum_lines = 2, ts_colour = ''#102f4a'', ts_background = None\<rparr>"

definition body_style :: text_style where
  "body_style = \<lparr>ts_size = (680, 86), ts_start_font = 34, ts_minimum_font = 16,
     ts_maximum_lines = 3, ts_colour = ''#27475f'', ts_background = None\<rparr>"

definition cta_style :: text_style where
  "cta_style = \<lparr>ts_size = (330, 76), ts_start_font = 34, ts_minimum_font = 24,
     ts_maximum_lines = 2, ts_colour = ''#ffffff'', ts_background = Some ''#164a7b''\<rparr>"

definition disclosure_style :: text_style where
  "disclosure_style = \<lparr>ts_size = (430, 44), ts_start_font = 22, ts_minimum_font = 18,
     ts_maximum_lines = 1, ts_colour = ''#5d1600'', ts_background = Some ''#ffe3d9''\<rparr>"

text \<open>The loop that pastes the layers, each read back from its PNG.\<close>

fun composite_layers :: "('i, 'f) pillow \<Rightarrow> rendered_layer list \<Rightarrow> 'i \<Rightarrow> exn + 'i" where
  "composite_layers pil [] output = Inr output"
| "composite_layers pil (l # ls) output =
     bindR (decode_rgba pil (rl_png_bytes l) None) (\<lambda>img.
     case ly_bounds (rl_evidence l) of (left, upper, right, lower) \<Rightarrow>
       composite_layers pil ls (pl_alpha_composite pil img (left, upper) output))"

definition compose :: "('i, 'f) pillow \<Rightarrow> pystr \<Rightarrow> compose_request \<Rightarrow> composed_ad result" where
  "compose pil pinned q =
     bindR (validate_compose_request q) (\<lambda>_.
     bindR (decode_rgba pil (gb_png_bytes (qc_background q)) (Some (1600, 900))) (\<lambda>background.
     bindR (contain pil (fa_png_bytes (qc_product_ui q)) (650, 520)) (\<lambda>product_ui.
     bindR (contain pil (fa_png_bytes (qc_logo q)) (220, 96)) (\<lambda>logo.
     bindR (text_layer pil pinned (qc_font_file q) (cp_headline (qc_ad_copy q)) headline_style) (\<lambda>headline.
     bindR (text_layer pil pinned (qc_font_file q) (cp_body (qc_ad_copy q)) body_style) (\<lambda>body.
     bindR (text_layer pil pinned (qc_font_file q) (cp_cta_label (qc_ad_copy q)) cta_style) (\<lambda>cta.
     bindR (text_layer pil pinned (qc_font_file q) DISCLOSURE disclosure_style) (\<lambda>disclosure.
     bindR (mapR (\<lambda>(kind, img, origin, source). render_layer pil kind img origin source)
       [(LAYER_BACKGROUND, background, (0, 0), None),
        (LAYER_PRODUCT_UI, product_ui, (850, 170), Some (fa_asset_id (qc_product_ui q))),
        (LAYER_LOGO, logo, (100, 70), Some (fa_asset_id (qc_logo q))),
        (LAYER_HEADLINE, headline, (100, 220), None),
        (LAYER_BODY, body, (100, 390), None),
        (LAYER_CTA, cta, (100, 560), None),
        (LAYER_DISCLOSURE, disclosure, (100, 820), None)]) (\<lambda>rendered.
     bindR (composite_layers pil rendered (pl_new_rgba pil (1600, 900))) (\<lambda>output.
     let png = pl_encode_png pil output in
     Inr \<lparr>ca_png_bytes = png, ca_sha256 = sha256_hex png, ca_layers = map rl_evidence rendered,
       ca_rendered_layers = rendered\<rparr>))))))))))"

subsection \<open>What the code relies on of Pillow\<close>

text \<open>Pillow's documentation: a PNG is lossless, opening fails with \<open>OSError\<close> or \<open>ValueError\<close>,
  an image has at least one pixel, a new image has its size, drawing keeps it, and a thumbnail is
  no larger than asked for.\<close>

definition imaging_laws :: "('i, 'f) pillow \<Rightarrow> bool" where
  "imaging_laws pil \<longleftrightarrow>
     (\<forall>i. pl_open_rgba pil (pl_encode_png pil i) = Inr i)
     \<and> (\<forall>d e. pl_open_rgba pil d = Inl e \<longrightarrow> is_image_error e)
     \<and> (\<forall>px e. pl_truetype pil px = Inl e \<longrightarrow> is_image_error e)
     \<and> (\<forall>i. 1 \<le> fst (pl_size pil i) \<and> 1 \<le> snd (pl_size pil i))
     \<and> (\<forall>w h. 1 \<le> w \<and> 1 \<le> h \<longrightarrow> pl_size pil (pl_new_rgba pil (w, h)) = (w, h))
     \<and> (\<forall>b r c i. pl_size pil (pl_rounded_rectangle pil b r c i) = pl_size pil i)
     \<and> (\<forall>xy t f n c i. pl_size pil (pl_multiline_text pil xy t f n c i) = pl_size pil i)
     \<and> (\<forall>m i. fst (pl_size pil (pl_thumbnail pil m i)) \<le> max 1 (fst m)
          \<and> snd (pl_size pil (pl_thumbnail pil m i)) \<le> max 1 (snd m))"

lemma imaging_lawsD:
  assumes "imaging_laws pil"
  shows "pl_open_rgba pil (pl_encode_png pil i) = Inr i"
    "pl_open_rgba pil d = Inl e \<Longrightarrow> is_image_error e"
    "pl_truetype pil px = Inl e \<Longrightarrow> is_image_error e"
    "1 \<le> fst (pl_size pil i)" "1 \<le> snd (pl_size pil i)"
    "1 \<le> w \<Longrightarrow> 1 \<le> h \<Longrightarrow> pl_size pil (pl_new_rgba pil (w, h)) = (w, h)"
    "pl_size pil (pl_rounded_rectangle pil b r c i) = pl_size pil i"
    "pl_size pil (pl_multiline_text pil pos t f n c i) = pl_size pil i"
    "fst (pl_size pil (pl_thumbnail pil m i)) \<le> max 1 (fst m)"
    "snd (pl_size pil (pl_thumbnail pil m i)) \<le> max 1 (snd m)"
  using assms unfolding imaging_laws_def by blast+

lemma is_CompositionError_code [simp]: "is_CompositionError (CompositionError c)"
  by (simp add: is_CompositionError_def)

lemma decode_rgba_error:
  "imaging_laws pil \<Longrightarrow> decode_rgba pil d s = Inl e \<Longrightarrow> is_CompositionError e"
  by (auto simp: decode_rgba_def dest: imaging_lawsD(2) split: sum.splits if_splits)

lemma decode_rgba_encoded: "imaging_laws pil \<Longrightarrow> decode_rgba pil (pl_encode_png pil i) None = Inr i"
  by (simp add: decode_rgba_def imaging_lawsD(1))

lemma decode_rgba_size: "decode_rgba pil d (Some s) = Inr i \<Longrightarrow> pl_size pil i = s"
  by (auto simp: decode_rgba_def split: sum.splits if_splits)

lemma contain_error: "imaging_laws pil \<Longrightarrow> contain pil d m = Inl e \<Longrightarrow> is_CompositionError e"
  by (auto simp: contain_def bindR_Inl_iff dest: decode_rgba_error)

lemma contain_size:
  assumes "imaging_laws pil" "contain pil d (w, h) = Inr i" "1 \<le> w" "1 \<le> h"
  shows "fst (pl_size pil i) \<le> w" "snd (pl_size pil i) \<le> h"
  using assms imaging_lawsD(9,10)[OF assms(1), of "(w, h)"]
  by (auto simp: contain_def max_def split: if_splits)

lemma load_font_error:
  assumes "imaging_laws pil" "\<forall>e. font_file = Inl e \<longrightarrow> is_OSError e" "load_font pil pinned font_file px = Inl e"
  shows "is_CompositionError e"
proof -
  have err: "is_CompositionError e' \<or> is_image_error e'"
    if "bindR font_file (\<lambda>content. if sha256_hex content \<noteq> pinned then Inl invalid_output
        else pl_truetype pil px) = Inl e'" for e'
    using that assms(1,2) imaging_lawsD(3)[OF assms(1)]
    by (auto simp: bindR_Inl_iff is_image_error_def split: if_splits)
  show ?thesis
    using assms(3) err
    by (auto simp: load_font_def is_CompositionError_def split: sum.splits exn.splits if_splits)
qed

lemma fit_loop_error:
  assumes "imaging_laws pil" "\<forall>e. font_file = Inl e \<longrightarrow> is_OSError e"
  shows "fit_loop pil pinned font_file s w h ml sizes = Inl e \<Longrightarrow> is_CompositionError e"
proof (induction sizes)
  case (Cons px sizes)
  show ?case
  proof (cases "load_font pil pinned font_file px")
    case (Inl e')
    then show ?thesis
      using Cons.prems load_font_error[OF assms Inl] by simp
  next
    case (Inr f)
    show ?thesis
      using Cons Inr by (auto split: sum.splits prod.splits if_splits dest: wrap_text_error)
  qed
qed auto

lemma text_layer_eq:
  "text_layer pil pinned font_file s st =
     bindR (fit_font pil pinned font_file s (fst (ts_size st) - 24) (snd (ts_size st))
       (ts_start_font st) (ts_minimum_font st) (ts_maximum_lines st)) (\<lambda>r. Inr
     (let box = pl_multiline_textbbox pil (fst r) (snd (snd r)) (join_lines (fst (snd r)));
          y = of_int \<lfloor>(of_int (snd (ts_size st)) - (snd (snd (snd box)) - fst (snd box))) / 2\<rfloor> - fst (snd box) in
      pl_multiline_text pil (12, y) (join_lines (fst (snd r))) (fst r) (snd (snd r)) (ts_colour st)
        (case ts_background st of None \<Rightarrow> pl_new_rgba pil (ts_size st)
         | Some fill \<Rightarrow> pl_rounded_rectangle pil (0, 0, fst (ts_size st) - 1, snd (ts_size st) - 1) 18 fill
             (pl_new_rgba pil (ts_size st)))))"
  by (cases "ts_size st"; cases "fit_font pil pinned font_file s (fst (ts_size st) - 24)
      (snd (ts_size st)) (ts_start_font st) (ts_minimum_font st) (ts_maximum_lines st)")
    (simp_all add: text_layer_def Let_def case_prod_beta split: option.split)

lemma text_layer_error:
  assumes "imaging_laws pil" "\<forall>e. font_file = Inl e \<longrightarrow> is_OSError e"
    "text_layer pil pinned font_file s st = Inl e"
  shows "is_CompositionError e"
  using assms(3) fit_loop_error[OF assms(1,2)]
  by (auto simp: text_layer_eq fit_font_def bindR_Inl_iff)

lemma text_layer_size:
  assumes "imaging_laws pil" "text_layer pil pinned font_file s st = Inr i"
    "1 \<le> fst (ts_size st)" "1 \<le> snd (ts_size st)"
  shows "pl_size pil i = ts_size st"
proof -
  have "pl_size pil (pl_new_rgba pil (ts_size st)) = ts_size st"
    using imaging_lawsD(6)[OF assms(1) assms(3,4)] by simp
  then show ?thesis
    using assms(2) imaging_lawsD(7,8)[OF assms(1)]
    by (auto simp: text_layer_eq Let_def split: option.splits)
qed

subsection \<open>The evidence of a layer\<close>

definition layer_evidence ::
  "('i, 'f) pillow \<Rightarrow> layer_kind \<Rightarrow> 'i \<Rightarrow> int \<times> int \<Rightarrow> uuid option \<Rightarrow> composition_layer" where
  "layer_evidence pil kind img origin source =
     \<lparr>ly_kind = kind, ly_source_asset_id = source, ly_rgba_sha256 = sha256_hex (pl_tobytes pil img),
      ly_bounds = (fst origin, snd origin, fst origin + fst (pl_size pil img),
        snd origin + snd (pl_size pil img)),
      ly_width = fst (pl_size pil img), ly_height = snd (pl_size pil img)\<rparr>"

definition inside_canvas :: "('i, 'f) pillow \<Rightarrow> 'i \<Rightarrow> int \<times> int \<Rightarrow> bool" where
  "inside_canvas pil img origin \<longleftrightarrow> 0 \<le> fst origin \<and> 0 \<le> snd origin
     \<and> fst origin + fst (pl_size pil img) \<le> 1600 \<and> snd origin + snd (pl_size pil img) \<le> 900"

lemma valid_layer_evidence:
  assumes "imaging_laws pil" "inside_canvas pil img origin"
    "(kind \<in> {LAYER_LOGO, LAYER_PRODUCT_UI}) = (source \<noteq> None)"
  shows "valid_composition_layer (layer_evidence pil kind img origin source)"
  using assms(2,3) imaging_lawsD(4,5)[OF assms(1), of img] is_sha256_hex[of "pl_tobytes pil img"]
  by (auto simp: valid_composition_layer_def require_valid_source_and_bounds_def layer_evidence_def
      inside_canvas_def)

lemma render_layer_eq:
  assumes "imaging_laws pil" "inside_canvas pil img origin"
    "(kind \<in> {LAYER_LOGO, LAYER_PRODUCT_UI}) = (source \<noteq> None)"
  shows "render_layer pil kind img origin source =
    Inr \<lparr>rl_evidence = layer_evidence pil kind img origin source, rl_png_bytes = pl_encode_png pil img\<rparr>"
proof -
  have "make_composition_layer (layer_evidence pil kind img origin source)
      = Inr (layer_evidence pil kind img origin source)"
    using valid_layer_evidence[OF assms]
    by (simp add: make_composition_layer_def Let_def valid_composition_layer_def layer_evidence_def)
  then show ?thesis
    by (simp add: render_layer_def layer_evidence_def case_prod_beta)
qed

lemma composite_layers_total:
  assumes "imaging_laws pil" "\<forall>l \<in> set ls. \<exists>i. rl_png_bytes l = pl_encode_png pil i"
  shows "\<exists>out. composite_layers pil ls i0 = Inr out"
  using assms(2)
proof (induction ls arbitrary: i0)
  case (Cons l ls)
  then obtain i where "rl_png_bytes l = pl_encode_png pil i"
    by auto
  then show ?case
    using Cons by (auto simp: decode_rgba_encoded[OF assms(1)] split: prod.split)
qed simp

subsection \<open>What \<open>compose\<close> makes\<close>

text \<open>The seven images with their places.\<close>

definition layer_plan ::
  "compose_request \<Rightarrow> 'i \<Rightarrow> 'i \<Rightarrow> 'i \<Rightarrow> 'i \<Rightarrow> 'i \<Rightarrow> 'i \<Rightarrow> 'i
    \<Rightarrow> (layer_kind \<times> 'i \<times> (int \<times> int) \<times> uuid option) list" where
  "layer_plan q background product_ui logo headline body cta disclosure =
     [(LAYER_BACKGROUND, background, (0, 0), None),
      (LAYER_PRODUCT_UI, product_ui, (850, 170), Some (fa_asset_id (qc_product_ui q))),
      (LAYER_LOGO, logo, (100, 70), Some (fa_asset_id (qc_logo q))),
      (LAYER_HEADLINE, headline, (100, 220), None),
      (LAYER_BODY, body, (100, 390), None),
      (LAYER_CTA, cta, (100, 560), None),
      (LAYER_DISCLOSURE, disclosure, (100, 820), None)]"

definition plan_fits :: "('i, 'f) pillow \<Rightarrow> (layer_kind \<times> 'i \<times> (int \<times> int) \<times> uuid option) list \<Rightarrow> bool" where
  "plan_fits pil plan \<longleftrightarrow> list_all (\<lambda>(kind, img, origin, source). inside_canvas pil img origin
     \<and> (kind \<in> {LAYER_LOGO, LAYER_PRODUCT_UI}) = (source \<noteq> None)) plan"

definition rendered_of ::
  "('i, 'f) pillow \<Rightarrow> layer_kind \<times> 'i \<times> (int \<times> int) \<times> uuid option \<Rightarrow> rendered_layer" where
  "rendered_of pil = (\<lambda>(kind, img, origin, source).
     \<lparr>rl_evidence = layer_evidence pil kind img origin source, rl_png_bytes = pl_encode_png pil img\<rparr>)"

lemma render_plan:
  assumes "imaging_laws pil" "plan_fits pil plan"
  shows "mapR (\<lambda>(kind, img, origin, source). render_layer pil kind img origin source) plan
    = Inr (map (rendered_of pil) plan)"
proof (rule mapR_all_Inr)
  fix x assume x: "x \<in> set plan"
  obtain kind img origin source where parts: "x = (kind, img, origin, source)"
    by (cases x)
  with x assms(2) have "inside_canvas pil img origin"
    "(kind \<in> {LAYER_LOGO, LAYER_PRODUCT_UI}) = (source \<noteq> None)"
    by (auto simp: plan_fits_def list_all_iff)
  from render_layer_eq[OF assms(1) this]
  show "(case x of (kind, img, origin, source) \<Rightarrow> render_layer pil kind img origin source)
      = Inr (rendered_of pil x)"
    by (simp add: parts rendered_of_def)
qed

lemma plan_layers_valid:
  assumes "imaging_laws pil" "plan_fits pil plan" "x \<in> set plan"
  shows "valid_composition_layer (rl_evidence (rendered_of pil x))"
proof -
  obtain kind img origin source where parts: "x = (kind, img, origin, source)"
    by (cases x)
  with assms(2,3) have "inside_canvas pil img origin"
    "(kind \<in> {LAYER_LOGO, LAYER_PRODUCT_UI}) = (source \<noteq> None)"
    by (auto simp: plan_fits_def list_all_iff)
  from valid_layer_evidence[OF assms(1) this] show ?thesis
    by (simp add: parts rendered_of_def)
qed

text \<open>With Pillow's laws, \<open>compose\<close> either raises one of its own errors or makes its seven layers.\<close>

lemma compose_cases:
  fixes pil :: "('i, 'f) pillow"
  assumes laws: "imaging_laws pil" and font: "\<forall>e. qc_font_file q = Inl e \<longrightarrow> is_OSError e"
  obtains (failed) e where "compose pil pinned q = Inl e" "is_CompositionError e"
  | (made) i1 i2 i3 i4 i5 i6 i7 out where "validate_compose_request q = Inr ()"
    "plan_fits pil (layer_plan q i1 i2 i3 i4 i5 i6 i7)"
    "compose pil pinned q = Inr \<lparr>ca_png_bytes = pl_encode_png pil out,
       ca_sha256 = sha256_hex (pl_encode_png pil out),
       ca_layers = map rl_evidence (map (rendered_of pil) (layer_plan q i1 i2 i3 i4 i5 i6 i7)),
       ca_rendered_layers = map (rendered_of pil) (layer_plan q i1 i2 i3 i4 i5 i6 i7)\<rparr>"
proof (cases "\<exists>e. compose pil pinned q = Inl e \<and> is_CompositionError e")
  case True
  then show ?thesis
    using failed by blast
next
  case False
  have valid: "validate_compose_request q = Inl e \<Longrightarrow> is_CompositionError e" for e
    by (auto simp: validate_compose_request_def split: if_splits)
  note errors = valid decode_rgba_error[OF laws] contain_error[OF laws] text_layer_error[OF laws font]
  from False errors obtain i1 i2 i3 i4 i5 i6 i7 where
    ok: "validate_compose_request q = Inr ()" and
    imgs: "decode_rgba pil (gb_png_bytes (qc_background q)) (Some (1600, 900)) = Inr i1"
      "contain pil (fa_png_bytes (qc_product_ui q)) (650, 520) = Inr i2"
      "contain pil (fa_png_bytes (qc_logo q)) (220, 96) = Inr i3"
      "text_layer pil pinned (qc_font_file q) (cp_headline (qc_ad_copy q)) headline_style = Inr i4"
      "text_layer pil pinned (qc_font_file q) (cp_body (qc_ad_copy q)) body_style = Inr i5"
      "text_layer pil pinned (qc_font_file q) (cp_cta_label (qc_ad_copy q)) cta_style = Inr i6"
      "text_layer pil pinned (qc_font_file q) DISCLOSURE disclosure_style = Inr i7"
    by (cases "compose pil pinned q") (auto simp: compose_def bindR_Inl_iff)
  let ?plan = "layer_plan q i1 i2 i3 i4 i5 i6 i7"
  have sizes: "pl_size pil i1 = (1600, 900)" "pl_size pil i4 = (660, 124)" "pl_size pil i5 = (680, 86)"
    "pl_size pil i6 = (330, 76)" "pl_size pil i7 = (430, 44)"
    using decode_rgba_size[OF imgs(1)] text_layer_size[OF laws imgs(4)] text_layer_size[OF laws imgs(5)]
      text_layer_size[OF laws imgs(6)] text_layer_size[OF laws imgs(7)]
    by (simp_all add: headline_style_def body_style_def cta_style_def disclosure_style_def)
  have fits: "plan_fits pil ?plan"
    using sizes contain_size[OF laws imgs(2)] contain_size[OF laws imgs(3)]
    by (simp add: plan_fits_def layer_plan_def inside_canvas_def)
  have "\<forall>l \<in> set (map (rendered_of pil) ?plan). \<exists>i. rl_png_bytes l = pl_encode_png pil i"
    by (auto simp: rendered_of_def)
  from composite_layers_total[OF laws this, of "pl_new_rgba pil (1600, 900)"] obtain out where
    out: "composite_layers pil (map (rendered_of pil) ?plan) (pl_new_rgba pil (1600, 900)) = Inr out"
    by blast
  have "compose pil pinned q = Inr \<lparr>ca_png_bytes = pl_encode_png pil out,
       ca_sha256 = sha256_hex (pl_encode_png pil out),
       ca_layers = map rl_evidence (map (rendered_of pil) ?plan),
       ca_rendered_layers = map (rendered_of pil) ?plan\<rparr>"
    unfolding compose_def ok imgs bindR_simps layer_plan_def[symmetric] render_plan[OF laws fits] out Let_def
    by (rule refl)
  with ok fits show ?thesis
    by (rule made)
qed

text \<open>The summary the services build of a composed ad.\<close>

definition composition_summary :: "uuid \<Rightarrow> uuid \<Rightarrow> composed_ad \<Rightarrow> datetime \<Rightarrow> composition_generated" where
  "composition_summary rid artifact_id ad now =
     \<lparr>co_run_id = rid, co_status = RUN_IN_PROGRESS, co_execution_mode = FIXTURE, co_width = 1600,
      co_height = 900, co_media_type = image_png, co_rendered_sha256 = ca_sha256 ad,
      co_artifact_id = artifact_id, co_layers = ca_layers ad, co_disclosure = DISCLOSURE,
      co_generated_at = now\<rparr>"

text \<open>
  C39. With the documented laws of Pillow and a font file that can be read or is missing, composing
  always ends in one of two ways: with an error of the compositor's own kind, or with an ad whose
  seven layers stand in the fixed order, have valid evidence inside the canvas, name the logo and
  the product UI of the Brand Lock, and make a valid summary that the repository accepts as showing
  the protected assets. It never raises \<open>ValidationError\<close>.
\<close>

theorem compose_outcome:
  assumes "imaging_laws pil" "\<forall>e. qc_font_file q = Inl e \<longrightarrow> is_OSError e" "is_utc now"
  shows "case compose pil pinned q of
      Inl e \<Rightarrow> is_CompositionError e
    | Inr a \<Rightarrow> map ly_kind (ca_layers a) = fixed_layer_order
        \<and> list_all valid_composition_layer (ca_layers a)
        \<and> ca_sha256 a = sha256_hex (ca_png_bytes a)
        \<and> make_composition_generated (composition_summary rid artifact_id a now)
            = Inr (composition_summary rid artifact_id a now)
        \<and> protected_layers_match (qc_brand_lock q) (composition_summary rid artifact_id a now)"
  using assms(1,2)
proof (cases rule: compose_cases[where pinned = pinned])
  case (failed e)
  then show ?thesis
    by simp
next
  case (made i1 i2 i3 i4 i5 i6 i7 out)
  let ?plan = "layer_plan q i1 i2 i3 i4 i5 i6 i7"
  let ?layers = "map rl_evidence (map (rendered_of pil) ?plan)"
  have kinds: "map ly_kind ?layers = fixed_layer_order"
    by (simp add: layer_plan_def rendered_of_def layer_evidence_def fixed_layer_order_def)
  have layers: "list_all valid_composition_layer ?layers"
    using plan_layers_valid[OF assms(1) made(2)] by (simp add: list_all_iff)
  have "fa_asset_id (qc_logo q) = bl_logo_asset_id (qc_brand_lock q)"
    "fa_asset_id (qc_product_ui q) \<in> set (bl_product_ui_asset_ids (qc_brand_lock q))"
    using made(1) by (auto simp: validate_compose_request_def split: if_splits)
  then have protected: "protected_layers_match (qc_brand_lock q) (composition_summary rid artifact_id
      \<lparr>ca_png_bytes = png, ca_sha256 = digest, ca_layers = ?layers, ca_rendered_layers = r\<rparr> now)"
    for png digest r
    by (simp add: protected_layers_match_def layer_sources_def dict_of_def composition_summary_def
        layer_plan_def rendered_of_def layer_evidence_def)
  have "length ?layers = 7"
    by (simp add: layer_plan_def)
  then show ?thesis
    using made(3) kinds layers protected is_sha256_hex[of "pl_encode_png pil out"] assms(3)
    by (simp add: make_composition_generated_def valid_composition_generated_def Let_def
        composition_summary_def require_fixed_layer_order_def del: map_map)
qed

subsection \<open>A small imaging library\<close>

text \<open>Images that are only their size, for concrete runs: the PNG of an image writes its width and
  height in unary behind the signature, every text has width 0 and every font loads.\<close>

definition tiny_encode :: "nat \<times> nat \<Rightarrow> bytes" where
  "tiny_encode i = PNG_SIGNATURE @ replicate (fst i) 1 @ [0] @ replicate (snd i) 1"

definition tiny_open :: "bytes \<Rightarrow> exn + nat \<times> nat" where
  "tiny_open d = (let r = drop 8 d; w = length (takeWhile (\<lambda>b. b \<noteq> 0) r) in
     if startswith d PNG_SIGNATURE then Inr (w, length r - w - 1) else Inl UnidentifiedImageError)"

definition tiny_size :: "nat \<times> nat \<Rightarrow> int \<times> int" where
  "tiny_size i = (int (fst i) + 1, int (snd i) + 1)"

definition tiny_pillow :: "(nat \<times> nat, int) pillow" where
  "tiny_pillow = \<lparr>pl_open_rgba = tiny_open, pl_size = tiny_size,
     pl_thumbnail = (\<lambda>m i. (min (fst i) (nat (fst m - 1)), min (snd i) (nat (snd m - 1)))),
     pl_tobytes = tiny_encode, pl_encode_png = tiny_encode,
     pl_new_rgba = (\<lambda>(w, h). (nat (w - 1), nat (h - 1))),
     pl_rounded_rectangle = (\<lambda>b r c i. i), pl_multiline_text = (\<lambda>xy t f n c i. i),
     pl_alpha_composite = (\<lambda>i xy out. out), pl_truetype = (\<lambda>px. Inr px),
     pl_getlength = (\<lambda>f t. 0), pl_multiline_textbbox = (\<lambda>f n t. (0, 0, 0, 0))\<rparr>"

lemma tiny_open_encode: "tiny_open (tiny_encode i) = Inr i"
proof -
  have "takeWhile (\<lambda>b. b \<noteq> 0) (replicate n (1 :: 8 word) @ 0 # r) = replicate n 1" for n r
    by (induction n) simp_all
  then show ?thesis
    by (cases i) (simp add: tiny_open_def tiny_encode_def PNG_SIGNATURE_def startswith_def)
qed

lemma tiny_open_error: "tiny_open d = Inl e \<Longrightarrow> is_image_error e"
  by (auto simp: tiny_open_def Let_def is_image_error_def is_OSError_def split: if_splits)

lemma tiny_laws: "imaging_laws tiny_pillow"
  unfolding imaging_laws_def tiny_pillow_def
  by (auto simp: tiny_open_encode tiny_size_def dest: tiny_open_error)

definition tiny_font :: bytes where
  "tiny_font = [1, 2, 3]"

definition tiny_background :: "localization_direction \<Rightarrow> generated_background" where
  "tiny_background = background_of (\<lambda>_. tiny_encode (1599, 899))"

definition tiny_request :: compose_request where
  "tiny_request = \<lparr>qc_run_id = 1, qc_background = tiny_background CHINA_TO_UK,
     qc_brand_lock = orbit_lock, qc_ad_copy = fixture_copy orbit_lock CHINA_TO_UK,
     qc_logo = projr (resolve sample_files LOGO_ID),
     qc_product_ui = projr (resolve sample_files PRODUCT_UI_ID), qc_font_file = Inr tiny_font\<rparr>"

theorem compose_outcome_witness:
  "case compose tiny_pillow (sha256_hex tiny_font) tiny_request of
      Inl e \<Rightarrow> is_CompositionError e
    | Inr a \<Rightarrow> map ly_kind (ca_layers a) = fixed_layer_order"
  using compose_outcome[OF tiny_laws, of tiny_request "utc 5" 1 2 "sha256_hex tiny_font"]
  by (auto simp: tiny_request_def split: sum.splits)

end
