(* ===== verification/Json.thy ===== *)
theory Json
  imports Hashing
begin

section \<open>JSON text\<close>

text \<open>
  \<open>json.dumps\<close> with the compact separators the code always passes, with and without
  \<open>ensure_ascii\<close>, and \<open>json.loads\<close>. A number with a fraction or an exponent is kept as its
  text (\<open>JReal\<close>). The main lemma, \<open>loads_dumps\<close>, says that reading what was written gives
  the value back.
\<close>

datatype json =
    JNull
  | JBool bool
  | JInt int
  | JReal pystr
  | JStr pystr
  | JArr "json list"
  | JObj "(pystr \<times> json) list"

subsection \<open>Writing\<close>

text \<open>The escapes of \<open>ESCAPE_ASCII\<close> (everything outside the printable ASCII range) and of
  \<open>ESCAPE\<close> (control characters only).\<close>

definition u_escape :: "nat \<Rightarrow> pystr" where
  "u_escape c = 92 # 117 # hex_digits 4 c"

definition escape_char :: "bool \<Rightarrow> nat \<Rightarrow> pystr" where
  "escape_char ascii c =
     (if c = 34 then [92, 34] else if c = 92 then [92, 92] else if c = 10 then [92, 110]
      else if c = 13 then [92, 114] else if c = 9 then [92, 116] else if c = 12 then [92, 102]
      else if c = 8 then [92, 98] else if c < 32 then u_escape c
      else if \<not> ascii \<or> c < 127 then [c]
      else if c < 0x10000 then u_escape c
      else u_escape (0xD800 + (c - 0x10000) div 0x400) @ u_escape (0xDC00 + (c - 0x10000) mod 0x400))"

definition json_string :: "bool \<Rightarrow> pystr \<Rightarrow> pystr" where
  "json_string ascii s = 34 # concat (map (escape_char ascii) s) @ [34]"

fun nat_digits :: "nat \<Rightarrow> pystr" where
  "nat_digits n = (if n < 10 then [48 + n] else nat_digits (n div 10) @ [48 + n mod 10])"

declare nat_digits.simps [simp del]

definition int_text :: "int \<Rightarrow> pystr" where
  "int_text i = (if i < 0 then 45 # nat_digits (nat (- i)) else nat_digits (nat i))"

fun dumps :: "bool \<Rightarrow> json \<Rightarrow> pystr"
  and dumps_elements :: "bool \<Rightarrow> json list \<Rightarrow> pystr"
  and dumps_members :: "bool \<Rightarrow> (pystr \<times> json) list \<Rightarrow> pystr" where
  "dumps a JNull = lit ''null''"
| "dumps a (JBool b) = (if b then lit ''true'' else lit ''false'')"
| "dumps a (JInt i) = int_text i"
| "dumps a (JReal s) = s"
| "dumps a (JStr s) = json_string a s"
| "dumps a (JArr js) = 91 # dumps_elements a js"
| "dumps a (JObj ms) = 123 # dumps_members a ms"
| "dumps_elements a [] = [93]"
| "dumps_elements a (j # js) = dumps a j @ (if js = [] then [93] else 44 # dumps_elements a js)"
| "dumps_members a [] = [125]"
| "dumps_members a ((k, v) # ms) = json_string a k @ 58 # dumps a v
     @ (if ms = [] then [125] else 44 # dumps_members a ms)"

subsection \<open>Reading\<close>

definition is_json_space :: "nat \<Rightarrow> bool" where
  "is_json_space c \<longleftrightarrow> c = 32 \<or> c = 9 \<or> c = 10 \<or> c = 13"

definition skip_space :: "pystr \<Rightarrow> pystr" where
  "skip_space = dropWhile is_json_space"

definition hex_value :: "nat \<Rightarrow> nat option" where
  "hex_value c = (if is_digit c then Some (c - 48) else if 97 \<le> c \<and> c \<le> 102 then Some (c - 87)
     else if 65 \<le> c \<and> c \<le> 70 then Some (c - 55) else None)"

fun read_hex4 :: "pystr \<Rightarrow> (nat \<times> pystr) option" where
  "read_hex4 (a # b # c # d # r) =
     (case (hex_value a, hex_value b, hex_value c, hex_value d) of
        (Some va, Some vb, Some vc, Some vd) \<Rightarrow> Some (((va * 16 + vb) * 16 + vc) * 16 + vd, r)
      | _ \<Rightarrow> None)"
| "read_hex4 _ = None"

definition simple_escape :: "nat \<Rightarrow> nat option" where
  "simple_escape c = (if c = 34 \<or> c = 92 \<or> c = 47 then Some c else if c = 98 then Some 8
     else if c = 102 then Some 12 else if c = 110 then Some 10 else if c = 114 then Some 13
     else if c = 116 then Some 9 else None)"

text \<open>One character of a string: a plain one, an escape, or a surrogate pair of escapes.\<close>

definition read_unicode :: "pystr \<Rightarrow> (nat \<times> pystr) option" where
  "read_unicode r = (case read_hex4 r of
     None \<Rightarrow> None
   | Some (u, r1) \<Rightarrow>
       if 0xD800 \<le> u \<and> u \<le> 0xDBFF \<and> take 2 r1 = [92, 117] then
         (case read_hex4 (drop 2 r1) of
            Some (v, r3) \<Rightarrow> if 0xDC00 \<le> v \<and> v \<le> 0xDFFF
              then Some (0x10000 + (u - 0xD800) * 0x400 + (v - 0xDC00), r3) else Some (u, r1)
          | None \<Rightarrow> None)
       else Some (u, r1))"

definition read_char :: "pystr \<Rightarrow> (nat \<times> pystr) option" where
  "read_char s = (case s of
     [] \<Rightarrow> None
   | c # r \<Rightarrow>
       if c < 32 \<or> c = 34 then None
       else if c \<noteq> 92 then Some (c, r)
       else (case r of
          [] \<Rightarrow> None
        | e # r1 \<Rightarrow> if e = 117 then read_unicode r1
            else map_option (\<lambda>v. (v, r1)) (simple_escape e)))"

text \<open>The text of a string after its opening quote; the fuel is the length of the text.\<close>

fun read_string :: "nat \<Rightarrow> pystr \<Rightarrow> (pystr \<times> pystr) option" where
  "read_string 0 s = None"
| "read_string (Suc n) s = (case s of
     [] \<Rightarrow> None
   | c # r \<Rightarrow> if c = 34 then Some ([], r)
       else (case read_char s of
         None \<Rightarrow> None
       | Some (v, r1) \<Rightarrow> map_option (\<lambda>(t, r2). (v # t, r2)) (read_string n r1)))"

definition digits_value :: "pystr \<Rightarrow> nat" where
  "digits_value ds = foldl (\<lambda>acc d. acc * 10 + (d - 48)) 0 ds"

text \<open>\<open>-?(0|[1-9][0-9]*)\<close> with the optional fraction and exponent.\<close>

definition read_fraction :: "pystr \<Rightarrow> pystr \<times> pystr" where
  "read_fraction s = (case s of
     c # r \<Rightarrow> if c = 46 \<and> takeWhile is_digit r \<noteq> []
       then (46 # takeWhile is_digit r, dropWhile is_digit r) else ([], s)
   | [] \<Rightarrow> ([], s))"

definition read_exponent :: "pystr \<Rightarrow> pystr \<times> pystr" where
  "read_exponent s = (case s of
     c # r \<Rightarrow>
       let sign = takeWhile (\<lambda>d. d = 43 \<or> d = 45) (take 1 r); r1 = drop (length sign) r in
       if (c = 101 \<or> c = 69) \<and> takeWhile is_digit r1 \<noteq> []
       then (c # sign @ takeWhile is_digit r1, dropWhile is_digit r1) else ([], s)
   | [] \<Rightarrow> ([], s))"

definition leading_digits :: "pystr \<Rightarrow> pystr" where
  "leading_digits s = (case s of c # _ \<Rightarrow> if c = 48 then [48] else takeWhile is_digit s | [] \<Rightarrow> [])"

definition read_number :: "pystr \<Rightarrow> (json \<times> pystr) option" where
  "read_number s =
     (let (neg, s1) = (case s of c # r \<Rightarrow> if c = 45 then (True, r) else (False, s) | [] \<Rightarrow> (False, s));
          ds = leading_digits s1;
          s2 = drop (length ds) s1
      in if ds = [] then None
      else (case read_fraction s2 of (frac, s3) \<Rightarrow> case read_exponent s3 of (ex, s4) \<Rightarrow>
        if frac = [] \<and> ex = []
        then Some (JInt (if neg then - int (digits_value ds) else int (digits_value ds)), s4)
        else Some (JReal ((if neg then [45] else []) @ ds @ frac @ ex), s4)))"

definition constants :: "(pystr \<times> json) list" where
  "constants = [(lit ''null'', JNull), (lit ''true'', JBool True), (lit ''false'', JBool False),
     (lit ''NaN'', JReal (lit ''NaN'')), (lit ''Infinity'', JReal (lit ''Infinity'')),
     (lit ''-Infinity'', JReal (lit ''-Infinity''))]"

definition read_constant :: "pystr \<Rightarrow> (json \<times> pystr) option" where
  "read_constant s = map_option (\<lambda>(w, v). (v, drop (length w) s))
     (List.find (\<lambda>(w, v). startswith s w) constants)"

text \<open>A later member of an object replaces an earlier one with the same name.\<close>

definition add_member :: "pystr \<Rightarrow> json \<Rightarrow> (pystr \<times> json) list \<Rightarrow> (pystr \<times> json) list" where
  "add_member k v ms = (if k \<in> fst ` set ms then ms else (k, v) # ms)"

fun read_value :: "nat \<Rightarrow> pystr \<Rightarrow> (json \<times> pystr) option"
  and read_elements :: "nat \<Rightarrow> pystr \<Rightarrow> (json list \<times> pystr) option"
  and read_members :: "nat \<Rightarrow> pystr \<Rightarrow> ((pystr \<times> json) list \<times> pystr) option" where
  "read_value 0 s = None"
| "read_value (Suc n) s = (case s of
     [] \<Rightarrow> None
   | c # r \<Rightarrow>
       if c = 34 then map_option (\<lambda>(t, r1). (JStr t, r1)) (read_string (length r) r)
       else if c = 91 then
         (if take 1 (skip_space r) = [93] then Some (JArr [], drop 1 (skip_space r))
          else map_option (\<lambda>(js, r1). (JArr js, r1)) (read_elements n (skip_space r)))
       else if c = 123 then
         (if take 1 (skip_space r) = [125] then Some (JObj [], drop 1 (skip_space r))
          else map_option (\<lambda>(ms, r1). (JObj ms, r1)) (read_members n (skip_space r)))
       else (case read_constant s of Some x \<Rightarrow> Some x | None \<Rightarrow> read_number s))"
| "read_elements 0 s = None"
| "read_elements (Suc n) s = (case read_value n s of
     None \<Rightarrow> None
   | Some (v, r) \<Rightarrow> (case skip_space r of
       [] \<Rightarrow> None
     | c # r1 \<Rightarrow> if c = 93 then Some ([v], r1)
         else if c = 44 then map_option (\<lambda>(js, r2). (v # js, r2)) (read_elements n (skip_space r1))
         else None))"
| "read_members 0 s = None"
| "read_members (Suc n) s = (case s of
     [] \<Rightarrow> None
   | q # r0 \<Rightarrow> if q \<noteq> 34 then None else (case read_string (length r0) r0 of
       None \<Rightarrow> None
     | Some (k, r1) \<Rightarrow> if take 1 (skip_space r1) \<noteq> [58] then None
         else (case read_value n (skip_space (drop 1 (skip_space r1))) of
           None \<Rightarrow> None
         | Some (v, r2) \<Rightarrow> (case skip_space r2 of
             [] \<Rightarrow> None
           | c # r3 \<Rightarrow> if c = 125 then Some ([(k, v)], r3)
               else if c = 44 then map_option (\<lambda>(ms, r4). (add_member k v ms, r4))
                 (read_members n (skip_space r3))
               else None))))"

definition loads :: "pystr \<Rightarrow> json result" where
  "loads s = (case read_value (Suc (length s)) (skip_space s) of
     Some (v, r) \<Rightarrow> if skip_space r = [] then Inr v else Inl ValueError
   | None \<Rightarrow> Inl ValueError)"

subsection \<open>Reading what was written\<close>

lemma hex_value_digit: "d < 16 \<Longrightarrow> hex_value (hex_digit d) = Some d"
  by (auto simp: hex_value_def hex_digit_def is_digit_def)

lemma hex4_value:
  assumes "c < (0x10000 :: nat)"
  shows "((c div 4096 mod 16 * 16 + c div 256 mod 16) * 16 + c div 16 mod 16) * 16 + c mod 16 = c"
proof -
  have d: "c div 256 = c div 16 div 16" "c div 4096 = c div 16 div 16 div 16"
    by (simp_all flip: div_mult2_eq)
  have "c div 4096 < 16"
    using assms by (simp add: less_mult_imp_div_less)
  then have "c div 4096 mod 16 = c div 16 div 16 div 16"
    using d(2) by simp
  then show ?thesis
    by (simp only: d div_mult_mod_eq)
qed

lemma read_hex4_digits:
  assumes "c < 0x10000"
  shows "read_hex4 (hex_digits 4 c @ r) = Some (c, r)"
proof -
  have "[0..<4] = [0, 1, 2, 3 :: nat]"
    by (simp add: upt_rec)
  then have "hex_digits 4 c = [hex_digit (c div 4096 mod 16), hex_digit (c div 256 mod 16),
      hex_digit (c div 16 mod 16), hex_digit (c mod 16)]"
    by (simp add: hex_digits_def)
  moreover define p q v u where "p = c div 4096 mod 16" and "q = c div 256 mod 16"
    and "v = c div 16 mod 16" and "u = c mod 16"
  moreover have "((p * 16 + q) * 16 + v) * 16 + u = c"
    unfolding p_def q_def v_def u_def by (rule hex4_value[OF assms])
  moreover have "p < 16" "q < 16" "v < 16" "u < 16"
    by (simp_all add: p_def q_def v_def u_def)
  ultimately show ?thesis
    by (simp only: append_Cons append_Nil read_hex4.simps hex_value_digit option.case prod.case)
qed

lemma read_unicode_plain: "c < 0xD800 \<or> 0xDC00 \<le> c \<Longrightarrow> c < 0x10000 \<Longrightarrow>
    read_unicode (hex_digits 4 c @ r) = Some (c, r)"
  by (auto simp: read_unicode_def read_hex4_digits)

lemma read_unicode_pair:
  assumes "0x10000 \<le> c" "c < 0x110000"
  shows "read_unicode (hex_digits 4 (0xD800 + (c - 0x10000) div 0x400)
    @ u_escape (0xDC00 + (c - 0x10000) mod 0x400) @ r) = Some (c, r)"
proof -
  define h where "h = (c - 0x10000) div 0x400"
  define l where "l = (c - 0x10000) mod 0x400"
  have bounds: "h < 0x400" "l < 0x400"
    using assms by (simp_all add: h_def l_def less_mult_imp_div_less)
  moreover have "0x10000 + h * 0x400 + l = c"
    using assms by (simp add: h_def l_def)
  ultimately show ?thesis
    unfolding h_def[symmetric] l_def[symmetric]
    by (simp add: read_unicode_def read_hex4_digits u_escape_def)
qed

text \<open>The characters Python strings hold; \<open>ensure_ascii\<close> keeps them all, except that two
  adjacent escaped surrogates would be read back as one character.\<close>

definition plain_char :: "nat \<Rightarrow> bool" where
  "plain_char c \<longleftrightarrow> c < 0x110000 \<and> \<not> is_surrogate c"

lemma escape_char_cases:
  "(\<exists>e. escape_char a c = [92, e] \<and> simple_escape e = Some c \<and> e \<noteq> 117)
   \<or> escape_char a c = u_escape c \<and> c < 0x10000
   \<or> escape_char a c = [c] \<and> 32 \<le> c \<and> c \<noteq> 34 \<and> c \<noteq> 92
   \<or> escape_char a c = u_escape (0xD800 + (c - 0x10000) div 0x400)
        @ u_escape (0xDC00 + (c - 0x10000) mod 0x400) \<and> 0x10000 \<le> c"
proof (cases "c \<in> {34, 92, 10, 13, 9, 12, 8}")
  case True
  then show ?thesis
    by (elim insertE) (simp_all add: escape_char_def simple_escape_def)
next
  case False
  then show ?thesis
    by (simp add: escape_char_def not_less)
qed

lemma read_char_escape:
  assumes "plain_char c"
  shows "read_char (escape_char a c @ r) = Some (c, r) \<and> hd (escape_char a c) \<noteq> 34
    \<and> escape_char a c \<noteq> []"
proof -
  have c: "c < 0xD800 \<or> 0xDC00 \<le> c" "c < 0x110000"
    using assms by (auto simp: plain_char_def is_surrogate_def)
  show ?thesis
    using escape_char_cases[of a c]
  proof (elim disjE exE conjE)
    fix e
    assume "escape_char a c = [92, e]" "simple_escape e = Some c" "e \<noteq> 117"
    then show ?thesis by (simp add: read_char_def)
  next
    assume "escape_char a c = u_escape c" "c < 0x10000"
    then show ?thesis
      using read_unicode_plain[OF c(1), of r] by (simp add: read_char_def u_escape_def)
  next
    assume "escape_char a c = [c]" "32 \<le> c" "c \<noteq> 34" "c \<noteq> 92"
    then show ?thesis by (simp add: read_char_def)
  next
    assume "escape_char a c = u_escape (0xD800 + (c - 0x10000) div 0x400)
        @ u_escape (0xDC00 + (c - 0x10000) mod 0x400)" "0x10000 \<le> c"
    then show ?thesis
      using read_unicode_pair[OF _ c(2), of r] by (simp add: read_char_def u_escape_def)
  qed
qed

lemma read_string_escaped:
  "list_all plain_char s \<Longrightarrow> length s < n \<Longrightarrow>
     read_string n (concat (map (escape_char a) s) @ 34 # r) = Some (s, r)"
proof (induction s arbitrary: n)
  case Nil
  then show ?case by (cases n) simp_all
next
  case (Cons c s)
  obtain m where m: "n = Suc m"
    using Cons.prems(2) by (cases n) simp_all
  define t where "t = concat (map (escape_char a) s) @ 34 # r"
  have c: "read_char (escape_char a c @ t) = Some (c, t)" "hd (escape_char a c) \<noteq> 34"
    "escape_char a c \<noteq> []"
    using read_char_escape[of c a t] Cons.prems(1) by simp_all
  from c(3) obtain x xs where x: "escape_char a c = x # xs"
    by (cases "escape_char a c") simp_all
  have "read_string m t = Some (s, r)"
    using Cons m by (simp add: t_def)
  then show ?case
    using c x by (simp add: m t_def[symmetric])
qed

lemma escape_nonempty: "plain_char c \<Longrightarrow> 1 \<le> length (escape_char a c)"
  using read_char_escape[of c a] by (simp add: Suc_le_eq)

lemma length_escaped: "list_all plain_char s \<Longrightarrow> length s \<le> length (concat (map (escape_char a) s))"
proof (induction s)
  case (Cons c s)
  then show ?case
    using escape_nonempty[of c a] by simp
qed simp

lemma read_json_string:
  assumes "list_all plain_char s"
  shows "\<exists>t. json_string a s @ r = 34 # t \<and> read_string (length t) t = Some (s, r)"
proof -
  define t where "t = concat (map (escape_char a) s) @ 34 # r"
  have "length s < length t"
    using length_escaped[OF assms, of a] by (simp add: t_def)
  with assms have "read_string (length t) t = Some (s, r)"
    unfolding t_def by (intro read_string_escaped) simp_all
  then show ?thesis
    by (auto simp: json_string_def t_def)
qed

text \<open>A number is read to its end because no digit, point or exponent follows it.\<close>

definition ends_number :: "pystr \<Rightarrow> bool" where
  "ends_number r \<longleftrightarrow> (case r of [] \<Rightarrow> True
     | c # _ \<Rightarrow> \<not> is_digit c \<and> c \<noteq> 46 \<and> c \<noteq> 101 \<and> c \<noteq> 69)"

lemma nat_digits_properties:
  "nat_digits n \<noteq> [] \<and> list_all is_digit (nat_digits n) \<and> digits_value (nat_digits n) = n
    \<and> (hd (nat_digits n) = 48 \<longrightarrow> nat_digits n = [48])"
proof (induction n rule: nat_digits.induct)
  case (1 n)
  show ?case
  proof (cases "n < 10")
    case True
    then show ?thesis
      by (simp add: nat_digits.simps is_digit_def digits_value_def)
  next
    case False
    have "n div 10 \<noteq> 0"
      using False by simp
    moreover have "hd (nat_digits (n div 10)) \<noteq> 48"
    proof
      assume "hd (nat_digits (n div 10)) = 48"
      with 1 False have "digits_value [48] = n div 10" by metis
      with \<open>n div 10 \<noteq> 0\<close> show False by (simp add: digits_value_def)
    qed
    moreover have "is_digit (48 + n mod 10)"
      by (simp add: is_digit_def)
    ultimately show ?thesis
      using 1 False by (simp add: nat_digits.simps[of n] digits_value_def)
  qed
qed

lemma read_fraction_none: "ends_number r \<Longrightarrow> read_fraction r = ([], r)"
  by (auto simp: read_fraction_def ends_number_def split: list.splits)

lemma read_exponent_none: "ends_number r \<Longrightarrow> read_exponent r = ([], r)"
  by (auto simp: read_exponent_def ends_number_def Let_def split: list.splits)

lemma takeWhile_digits: "list_all is_digit ds \<Longrightarrow> ends_number r \<Longrightarrow> takeWhile is_digit (ds @ r) = ds"
  by (induction ds) (auto simp: ends_number_def split: list.splits)

lemma read_number_int:
  assumes "ends_number r"
  shows "read_number (int_text i @ r) = Some (JInt i, r)"
proof -
  define ds where "ds = nat_digits (nat \<bar>i\<bar>)"
  have ds: "ds \<noteq> []" "list_all is_digit ds" "digits_value ds = nat \<bar>i\<bar>" "hd ds = 48 \<Longrightarrow> ds = [48]"
    using nat_digits_properties[of "nat \<bar>i\<bar>"] by (simp_all add: ds_def)
  obtain x xs where x: "ds = x # xs"
    using ds(1) by (cases ds) simp_all
  then have x45: "x \<noteq> 45"
    using ds(2) by (auto simp: is_digit_def)
  have pick: "leading_digits (ds @ r) = ds"
    using ds(4) takeWhile_digits[OF ds(2) assms] by (simp add: x leading_digits_def)
  have tail: "read_fraction r = ([], r)" "read_exponent r = ([], r)"
    using assms read_fraction_none read_exponent_none by blast+
  show ?thesis
  proof (cases "i < 0")
    case True
    then have "int_text i @ r = 45 # (ds @ r)"
      by (simp add: int_text_def ds_def)
    with True ds(1,3) pick tail show ?thesis
      unfolding read_number_def by (simp add: Let_def)
  next
    case False
    then have shape: "int_text i @ r = ds @ r"
      by (simp add: int_text_def ds_def)
    have "(case ds @ r of c # s \<Rightarrow> if c = 45 then (True, s) else (False, ds @ r)
        | [] \<Rightarrow> (False, ds @ r)) = (False, ds @ r)"
      using x x45 by simp
    then show ?thesis
      using False ds(1,3) pick tail unfolding shape read_number_def by (simp add: Let_def)
  qed
qed

text \<open>The values whose text reads back: plain characters, distinct member names, no \<open>JReal\<close>.\<close>

fun readable :: "json \<Rightarrow> bool" where
  "readable (JReal s) = False"
| "readable (JStr s) = list_all plain_char s"
| "readable (JArr js) = list_all readable js"
| "readable (JObj ms) = (distinct (map fst ms)
     \<and> list_all (\<lambda>(k, v). list_all plain_char k \<and> readable v) ms)"
| "readable _ = True"

lemma ends_number_simps [simp]:
  "ends_number []" "ends_number (44 # r)" "ends_number (93 # r)" "ends_number (125 # r)"
  by (simp_all add: ends_number_def is_digit_def)

lemma skip_space_cons [simp]: "\<not> is_json_space c \<Longrightarrow> skip_space (c # r) = c # r"
  by (simp add: skip_space_def)

lemma not_space [simp]: "\<not> is_json_space 44" "\<not> is_json_space 93" "\<not> is_json_space 125"
  "\<not> is_json_space 34" "\<not> is_json_space 58"
  by (simp_all add: is_json_space_def)

text \<open>The first character of a text decides how it is read; it is never a space, a comma or a
  closing bracket.\<close>

definition starts_value :: "pystr \<Rightarrow> bool" where
  "starts_value s \<longleftrightarrow> s \<noteq> [] \<and> \<not> is_json_space (hd s) \<and> hd s \<notin> {44, 93, 125}"

lemma int_text_start: "\<exists>c cs. int_text i = c # cs \<and> (is_digit c \<or> c = 45)"
proof (cases "i < 0")
  case False
  with nat_digits_properties[of "nat i"] show ?thesis
    by (cases "nat_digits (nat i)") (auto simp: int_text_def)
qed (simp add: int_text_def)

lemma starts_value_dumps: "readable j \<Longrightarrow> starts_value (dumps a j @ r)"
proof (cases j)
  case (JInt i)
  then show ?thesis
    using int_text_start[of i] by (auto simp: starts_value_def is_digit_def is_json_space_def)
qed (auto simp: starts_value_def is_json_space_def lit_def json_string_def)

lemma read_constant_other: "c \<notin> {110, 116, 102, 78, 73} \<Longrightarrow> c \<noteq> 45 \<Longrightarrow> read_constant (c # r) = None"
  by (simp add: read_constant_def constants_def lit_def startswith_def)

lemma read_constant_minus: "c \<noteq> 73 \<Longrightarrow> read_constant (45 # c # r) = None"
  by (simp add: read_constant_def constants_def lit_def startswith_def)

lemma read_value_int:
  assumes "ends_number r"
  shows "read_value (Suc n) (int_text i @ r) = Some (JInt i, r)"
proof -
  have "read_constant (int_text i @ r) = None"
  proof (cases "i < 0")
    case True
    obtain c cs where c: "nat_digits (nat (- i)) = c # cs" "is_digit c"
      using nat_digits_properties[of "nat (- i)"] by (cases "nat_digits (nat (- i))") auto
    then have "c \<noteq> 73"
      by (auto simp: is_digit_def)
    with True c show ?thesis
      by (simp add: int_text_def read_constant_minus)
  next
    case False
    obtain c cs where c: "nat_digits (nat i) = c # cs" "is_digit c"
      using nat_digits_properties[of "nat i"] by (cases "nat_digits (nat i)") auto
    then have "c \<notin> {110, 116, 102, 78, 73}" "c \<noteq> 45"
      by (auto simp: is_digit_def)
    with False c show ?thesis
      by (simp add: int_text_def read_constant_other)
  qed
  moreover obtain c cs where "int_text i = c # cs" "c \<notin> {34, 91, 123}"
    using int_text_start[of i] by (auto simp: is_digit_def)
  ultimately show ?thesis
    using read_number_int[OF assms, of i] by simp
qed

lemma add_member_new: "k \<notin> fst ` set ms \<Longrightarrow> add_member k v ms = (k, v) # ms"
  by (simp add: add_member_def)

lemma read_value_string:
  assumes "list_all plain_char s"
  shows "read_value (Suc n) (json_string a s @ r) = Some (JStr s, r)"
  using read_json_string[OF assms, of a r] by auto

lemma read_dumps:
  "readable j \<Longrightarrow> ends_number r \<Longrightarrow> length (dumps a j) \<le> n \<Longrightarrow>
     read_value n (dumps a j @ r) = Some (j, r)"
  "list_all readable js \<Longrightarrow> js \<noteq> [] \<Longrightarrow> length (dumps_elements a js) \<le> n \<Longrightarrow>
     read_elements n (dumps_elements a js @ r) = Some (js, r)"
  "list_all (\<lambda>(k, v). list_all plain_char k \<and> readable v) ms \<Longrightarrow> distinct (map fst ms) \<Longrightarrow> ms \<noteq> []
     \<Longrightarrow> length (dumps_members a ms) \<le> n \<Longrightarrow>
     read_members n (dumps_members a ms @ r) = Some (ms, r)"
proof (induction a j and a js and a ms arbitrary: n r and n r and n r
    rule: dumps_dumps_elements_dumps_members.induct)
  case (1 a)
  then obtain m where "n = Suc m" by (cases n) (simp_all add: lit_def)
  then show ?case
    by (simp add: read_constant_def constants_def lit_def startswith_def)
next
  case (2 a b)
  then obtain m where "n = Suc m" by (cases n; cases b) (simp_all add: lit_def)
  then show ?case
    by (cases b) (simp_all add: read_constant_def constants_def lit_def startswith_def)
next
  case (3 a i)
  then obtain m where "n = Suc m"
    using int_text_start[of i] by (cases n) auto
  then show ?case
    using read_value_int[OF 3(2), of m i] by simp
next
  case (4 a s)
  then show ?case by simp
next
  case (5 a s)
  then obtain m where "n = Suc m" by (cases n) (simp_all add: json_string_def)
  then show ?case
    using read_value_string[of s m a r] 5(1) by (simp del: read_value.simps)
next
  case (6 a js)
  then obtain m where m: "n = Suc m" "length (dumps_elements a js) \<le> m"
    by (cases n) simp_all
  show ?case
  proof (cases js)
    case Nil
    with m show ?thesis by simp
  next
    case (Cons j js')
    have "starts_value (dumps_elements a js @ r)"
      using starts_value_dumps[of j a "(if js' = [] then [93] else 44 # dumps_elements a js') @ r"]
        6(2) Cons by simp
    then have "skip_space (dumps_elements a js @ r) = dumps_elements a js @ r"
      "take 1 (dumps_elements a js @ r) \<noteq> [93]"
      by (cases "dumps_elements a js @ r"; simp add: starts_value_def)+
    moreover have "read_elements m (dumps_elements a js @ r) = Some (js, r)"
      using 6 m Cons by simp
    ultimately show ?thesis
      using m by simp
  qed
next
  case (7 a ms)
  then obtain m where m: "n = Suc m" "length (dumps_members a ms) \<le> m"
    by (cases n) simp_all
  show ?case
  proof (cases ms)
    case Nil
    with m show ?thesis by simp
  next
    case (Cons kv ms')
    obtain t where "dumps_members a ms @ r = 34 # t"
      by (cases kv) (simp add: Cons json_string_def)
    moreover have "read_members m (dumps_members a ms @ r) = Some (ms, r)"
      using 7 m Cons by simp
    ultimately show ?thesis
      using m by simp
  qed
next
  case (8 a)
  then show ?case by simp
next
  case (9 a j js)
  define rest where "rest = (if js = [] then [93] else 44 # dumps_elements a js) @ r"
  obtain m where m: "n = Suc m"
    using 9(5) by (cases n) (simp_all split: if_splits)
  have len: "length (dumps a j) \<le> m"
    using 9(5) m by (auto split: if_splits)
  have "ends_number rest"
    by (simp add: rest_def)
  then have j: "read_value m (dumps a j @ rest) = Some (j, rest)"
    using 9(1)[of rest m] 9(3) len by simp
  show ?case
  proof (cases "js = []")
    case True
    with j m show ?thesis by (simp add: rest_def)
  next
    case False
    then obtain j2 js2 where "js = j2 # js2"
      by (cases js) simp_all
    then have "starts_value (dumps_elements a js @ r)"
      using starts_value_dumps[of j2 a "(if js2 = [] then [93] else 44 # dumps_elements a js2) @ r"]
        9(3) by simp
    then have "skip_space (dumps_elements a js @ r) = dumps_elements a js @ r"
      by (cases "dumps_elements a js @ r"; simp add: starts_value_def)
    moreover have "read_elements m (dumps_elements a js @ r) = Some (js, r)"
      using 9(2)[of m r] 9(3,5) False m by simp
    ultimately show ?thesis
      using False j m by (simp add: rest_def)
  qed
next
  case (10 a)
  then show ?case by simp
next
  case (11 a k v ms)
  define rest where "rest = (if ms = [] then [125] else 44 # dumps_members a ms) @ r"
  define rest1 where "rest1 = 58 # dumps a v @ rest"
  obtain m where m: "n = Suc m"
    using 11(6) by (cases n) (simp_all add: json_string_def)
  have len: "length (dumps a v) \<le> m"
    using 11(6) m by (auto split: if_splits)
  have "ends_number rest"
    by (simp add: rest_def)
  then have v: "read_value m (dumps a v @ rest) = Some (v, rest)"
    using 11(1)[of rest m] 11(3) len by simp
  obtain t where t: "json_string a k @ rest1 = 34 # t" "read_string (length t) t = Some (k, rest1)"
    using read_json_string[of k a rest1] 11(3) by auto
  have sv: "starts_value (dumps a v @ rest)"
    using starts_value_dumps[of v a rest] 11(3) by simp
  then have skip: "skip_space (dumps a v @ rest) = dumps a v @ rest"
    by (cases "dumps a v @ rest"; simp add: starts_value_def)
  have shape: "dumps_members a ((k, v) # ms) @ r = 34 # t"
    using t(1) by (simp add: rest_def rest1_def)
  show ?case
  proof (cases "ms = []")
    case True
    with t(2) v skip show ?thesis
      unfolding shape m by (simp add: rest1_def) (simp add: rest_def)
  next
    case False
    then obtain u where u: "dumps_members a ms @ r = 34 # u"
      by (cases ms) (auto simp: json_string_def)
    have "read_members m (dumps_members a ms @ r) = Some (ms, r)"
      using 11(2)[of m r] 11(3,4,6) False m by simp
    with False t(2) v skip 11(4) u show ?thesis
      unfolding shape m by (simp add: rest1_def) (simp add: rest_def add_member_new)
  qed
qed

lemma loads_dumps: "readable j \<Longrightarrow> loads (dumps a j) = Inr j"
proof -
  assume j: "readable j"
  then have "skip_space (dumps a j) = dumps a j"
    using starts_value_dumps[of j a "[]"] by (cases "dumps a j") (simp_all add: starts_value_def)
  moreover have "read_value (Suc (length (dumps a j))) (dumps a j) = Some (j, [])"
    using read_dumps(1)[OF j, of "[]" a "Suc (length (dumps a j))"] by (simp del: read_value.simps)
  ultimately show ?thesis
    by (simp add: loads_def skip_space_def del: read_value.simps)
qed

subsection \<open>Documents as the code reads them\<close>

text \<open>\<open>json.loads\<close> on bytes: plain ASCII is decoded here, anything else by the codec that
  \<open>json.detect_encoding\<close> picks, which is the argument \<open>decode\<close>.\<close>

definition loads_bytes :: "(bytes \<Rightarrow> pystr result) \<Rightarrow> bytes \<Rightarrow> json result" where
  "loads_bytes decode bs =
     (if list_all (\<lambda>b. 0 < unat b \<and> unat b < 128) bs then loads (ascii_text bs)
      else bindR (decode bs) loads)"

definition member :: "pystr \<Rightarrow> json \<Rightarrow> json result" where
  "member key j = (case j of
     JObj ms \<Rightarrow> (case map_of ms key of None \<Rightarrow> Inl KeyError | Some v \<Rightarrow> Inr v)
   | _ \<Rightarrow> Inl TypeError)"

text \<open>\<open>bytes.decode("utf-8")\<close>: overlong forms, surrogates and values beyond the last code point are
  errors.\<close>

definition utf8_follows :: "nat \<Rightarrow> bool" where
  "utf8_follows b \<longleftrightarrow> 0x80 \<le> b \<and> b \<le> 0xBF"

fun utf8_scan :: "nat list \<Rightarrow> pystr option" where
  "utf8_scan [] = Some []"
| "utf8_scan (a # s) =
     (if a < 0x80 then map_option ((#) a) (utf8_scan s)
      else if a < 0xC2 then None
      else if a < 0xE0 then (case s of
          b # t \<Rightarrow> if utf8_follows b
            then map_option ((#) ((a - 0xC0) * 64 + (b - 0x80))) (utf8_scan t) else None
        | _ \<Rightarrow> None)
      else if a < 0xF0 then (case s of
          b # c # t \<Rightarrow> let v = ((a - 0xE0) * 64 + (b - 0x80)) * 64 + (c - 0x80) in
            if utf8_follows b \<and> utf8_follows c \<and> 0x800 \<le> v \<and> \<not> is_surrogate v
            then map_option ((#) v) (utf8_scan t) else None
        | _ \<Rightarrow> None)
      else (case s of
          b # c # d # t \<Rightarrow>
            let v = (((a - 0xF0) * 64 + (b - 0x80)) * 64 + (c - 0x80)) * 64 + (d - 0x80) in
            if utf8_follows b \<and> utf8_follows c \<and> utf8_follows d \<and> 0x10000 \<le> v \<and> v \<le> 0x10FFFF
            then map_option ((#) v) (utf8_scan t) else None
        | _ \<Rightarrow> None))"

definition decode_utf8 :: "bytes \<Rightarrow> pystr result" where
  "decode_utf8 bs = (case utf8_scan (map unat bs) of None \<Rightarrow> Inl ValueError | Some s \<Rightarrow> Inr s)"

text \<open>\<open>bytes.decode("ascii")\<close>.\<close>

definition decode_ascii :: "bytes \<Rightarrow> pystr result" where
  "decode_ascii bs = (if list_all (\<lambda>b. unat b < 128) bs then Inr (ascii_text bs) else Inl ValueError)"

text \<open>What is written with \<open>ensure_ascii\<close> is printable ASCII, so every codec reads it back.\<close>

lemma escape_ascii_range: "plain_char c \<Longrightarrow> x \<in> set (escape_char True c) \<Longrightarrow> 32 \<le> x \<and> x < 127"
proof -
  have hex: "x \<in> set (hex_digits 4 n) \<Longrightarrow> 32 \<le> x \<and> x < 127" for n
    by (auto simp: hex_digits_def hex_digit_def)
  assume "plain_char c" "x \<in> set (escape_char True c)"
  then show ?thesis
    using hex by (auto simp: escape_char_def u_escape_def split: if_splits)
qed

lemma json_string_range:
  "list_all plain_char s \<Longrightarrow> x \<in> set (json_string True s) \<Longrightarrow> 32 \<le> x \<and> x < 127"
  using escape_ascii_range by (auto simp: json_string_def list_all_iff)

lemma int_text_range: "x \<in> set (int_text i) \<Longrightarrow> 32 \<le> x \<and> x < 127"
  using nat_digits_properties[of "nat i"] nat_digits_properties[of "nat (- i)"]
  by (auto simp: int_text_def list_all_iff is_digit_def split: if_splits)

lemma dumps_range:
  "readable j \<Longrightarrow> x \<in> set (dumps True j) \<Longrightarrow> 32 \<le> x \<and> x < 127"
  "list_all readable js \<Longrightarrow> x \<in> set (dumps_elements True js) \<Longrightarrow> 32 \<le> x \<and> x < 127"
  "list_all (\<lambda>(k, v). list_all plain_char k \<and> readable v) ms \<Longrightarrow> x \<in> set (dumps_members True ms)
    \<Longrightarrow> 32 \<le> x \<and> x < 127"
proof (induction True j and True js and True ms
    rule: dumps_dumps_elements_dumps_members.induct)
  case (2 b)
  then show ?case by (cases b) (auto simp: lit_def)
qed (use json_string_range int_text_range in \<open>auto simp: lit_def split: if_splits\<close>)

lemma encode_utf8_ascii:
  assumes "\<forall>c \<in> set s. c < 128"
  shows "encode_utf8 s = Inr (map word_of_nat s)"
proof -
  have "concat (map utf8_char s) = map word_of_nat s"
    using assms by (induction s) (simp_all add: utf8_char_def)
  moreover have "\<not> list_ex is_surrogate s"
    using assms by (auto simp: list_ex_iff is_surrogate_def)
  ultimately show ?thesis
    by (simp add: encode_utf8_def)
qed

text \<open>The bytes of a document, \<open>json.dumps(...).encode()\<close>.\<close>

definition json_bytes :: "json \<Rightarrow> bytes" where
  "json_bytes j = map word_of_nat (dumps True j)"

lemma utf8_scan_ascii: "\<forall>c \<in> set s. c < 128 \<Longrightarrow> utf8_scan s = Some s"
  by (induction s) simp_all

lemma json_bytes_text:
  assumes "readable j"
  shows "encode_utf8 (dumps True j) = Inr (json_bytes j)" "encode_ascii (dumps True j) = Inr (json_bytes j)"
    "ascii_text (json_bytes j) = dumps True j"
    "list_all (\<lambda>b. 0 < unat b \<and> unat b < 128) (json_bytes j)"
    "decode_ascii (json_bytes j) = Inr (dumps True j)" "decode_utf8 (json_bytes j) = Inr (dumps True j)"
proof -
  have range: "\<forall>c \<in> set (dumps True j). 32 \<le> c \<and> c < 127"
    using dumps_range(1)[OF assms] by blast
  then have small: "\<forall>c \<in> set (dumps True j). c < 128"
    by auto
  show "encode_utf8 (dumps True j) = Inr (json_bytes j)"
    using small by (simp add: encode_utf8_ascii json_bytes_def)
  show "encode_ascii (dumps True j) = Inr (json_bytes j)"
    using small by (simp add: encode_ascii_def list_all_iff json_bytes_def)
  show txt_eq: "ascii_text (json_bytes j) = dumps True j"
    using small by (simp add: json_bytes_def list_all_iff)
  show bytes: "list_all (\<lambda>b. 0 < unat b \<and> unat b < 128) (json_bytes j)"
    using range by (auto simp: json_bytes_def list_all_iff unat_of_nat)
  show "decode_ascii (json_bytes j) = Inr (dumps True j)"
    using bytes txt_eq by (auto simp: decode_ascii_def list_all_iff)
  show "decode_utf8 (json_bytes j) = Inr (dumps True j)"
    using txt_eq small by (simp add: decode_utf8_def ascii_text_def utf8_scan_ascii)
qed

lemma loads_json_bytes: "readable j \<Longrightarrow> loads_bytes decode (json_bytes j) = Inr j"
  by (simp add: loads_bytes_def json_bytes_text loads_dumps)

end
