(* ===== verification/Text_Codecs.thy ===== *)
theory Text_Codecs
  imports Json
begin

section \<open>Times and identifiers as text\<close>

text \<open>
  \<open>datetime.isoformat\<close>, \<open>datetime.fromisoformat\<close> and \<open>UUID(text)\<close>, with which the stores write
  times and identifiers into their metadata and read them back. Days are counted from 1 January of
  year 1 in the Gregorian calendar; \<open>in_range\<close> is Python's range of years, 1 to 9999. The parsers
  read the spellings the program writes and refuse the other spellings of ISO 8601 and of UUIDs.
  The lemmas say that a UTC time and an identifier survive the way through text.
\<close>

subsection \<open>Fixed-width numbers\<close>

definition padded :: "nat \<Rightarrow> nat \<Rightarrow> pystr" where
  "padded w n = map (\<lambda>k. 48 + n div 10 ^ (w - 1 - k) mod 10) [0..<w]"

definition number :: "pystr \<Rightarrow> nat option" where
  "number s = (if s \<noteq> [] \<and> list_all is_digit s then Some (digits_value s) else None)"

lemma padded_Suc: "padded (Suc w) n = (48 + n div 10 ^ w mod 10) # padded w n"
  by (simp add: padded_def upt_rec[of 0 "Suc w"] map_Suc_upt[symmetric] del: upt_Suc)

lemma length_padded [simp]: "length (padded w n) = w"
  by (simp add: padded_def)

lemma padded_digits: "list_all is_digit (padded w n)"
proof -
  have "m mod 10 \<le> 9" for m :: nat
    by presburger
  then show ?thesis
    by (simp add: padded_def list_all_iff is_digit_def)
qed

lemma digits_value_foldl:
  "foldl (\<lambda>acc d. acc * 10 + (d - 48)) a (padded w n) = a * 10 ^ w + n mod 10 ^ w"
proof (induction w arbitrary: a)
  case 0
  then show ?case by (simp add: padded_def)
next
  case (Suc w)
  have "n mod 10 ^ Suc w = n div 10 ^ w mod 10 * 10 ^ w + n mod 10 ^ w"
    using mod_mult2_eq[of n "10 ^ w" 10] by (simp add: mult.commute)
  then show ?case
    by (simp add: padded_Suc Suc algebra_simps)
qed

lemma number_padded: "0 < w \<Longrightarrow> n < 10 ^ w \<Longrightarrow> number (padded w n) = Some n"
  using digits_value_foldl[of 0 w n] padded_digits[of w n]
  by (auto simp: number_def digits_value_def padded_def)

subsection \<open>The calendar\<close>

text \<open>Years and months are counted from 0 here; \<open>year_start y\<close> is the first day of the year
  \<open>y + 1\<close>.\<close>

definition year_start :: "nat \<Rightarrow> nat" where
  "year_start y = 365 * y + y div 4 - y div 100 + y div 400"

definition is_leap :: "nat \<Rightarrow> bool" where
  "is_leap y \<longleftrightarrow> Suc y mod 4 = 0 \<and> (Suc y mod 100 \<noteq> 0 \<or> Suc y mod 400 = 0)"

definition month_lengths :: "nat \<Rightarrow> nat list" where
  "month_lengths y = [31, if is_leap y then 29 else 28, 31, 30, 31, 30, 31, 31, 30, 31, 30, 31]"

definition year_of :: "nat \<Rightarrow> nat" where
  "year_of n = last (filter (\<lambda>y. year_start y \<le> n) [0..<9999])"

fun split_month :: "nat list \<Rightarrow> nat \<Rightarrow> nat \<times> nat" where
  "split_month [] r = (0, r)"
| "split_month (l # ls) r = (if r < l then (0, r) else
     (case split_month ls (r - l) of (m, d) \<Rightarrow> (Suc m, d)))"

definition civil :: "nat \<Rightarrow> nat \<times> nat \<times> nat" where
  "civil n = (let y = year_of n; md = split_month (month_lengths y) (n - year_start y) in
     (y, fst md, snd md))"

definition day_number :: "nat \<Rightarrow> nat \<Rightarrow> nat \<Rightarrow> nat" where
  "day_number y m d = year_start y + sum_list (take m (month_lengths y)) + d"

lemma year_length: "year_start (Suc y) = year_start y + 365 + (if is_leap y then 1 else 0)"
proof -
  have "Suc y div b = y div b + (if Suc y mod b = 0 then 1 else 0)" if "0 < b" for b
    using that by (simp add: div_Suc)
  then have d: "Suc y div 4 = y div 4 + (if Suc y mod 4 = 0 then 1 else 0)"
    "Suc y div 100 = y div 100 + (if Suc y mod 100 = 0 then 1 else 0)"
    "Suc y div 400 = y div 400 + (if Suc y mod 400 = 0 then 1 else 0)"
    by simp_all
  have m: "Suc y mod 400 = 0 \<longrightarrow> Suc y mod 100 = 0" "Suc y mod 100 = 0 \<longrightarrow> Suc y mod 4 = 0"
    by presburger+
  define a b c where "a = y div 4" and "b = y div 100" and "c = y div 400"
  have "b \<le> y"
    by (simp add: b_def)
  then show ?thesis
    unfolding year_start_def is_leap_def d a_def[symmetric] b_def[symmetric] c_def[symmetric]
    using m by auto
qed

lemma month_lengths_sum: "sum_list (month_lengths y) = 365 + (if is_leap y then 1 else 0)"
  by (simp add: month_lengths_def)

lemma sorted_last: "sorted xs \<Longrightarrow> x \<in> set xs \<Longrightarrow> x \<le> last xs" for xs :: "nat list"
  by (induction xs rule: rev_induct) (auto simp: sorted_append)

lemma year_of_range:
  assumes "n < year_start 9999"
  shows "year_of n < 9999" "year_start (year_of n) \<le> n" "n < year_start (Suc (year_of n))"
proof -
  let ?ys = "filter (\<lambda>y. year_start y \<le> n) [0..<9999]"
  have "0 \<in> set ?ys"
    by (simp add: year_start_def)
  then have ne: "?ys \<noteq> []"
    by (metis empty_iff list.set(1))
  then have mem: "year_of n \<in> set ?ys"
    unfolding year_of_def by (rule last_in_set)
  then show "year_of n < 9999" "year_start (year_of n) \<le> n"
    by auto
  show "n < year_start (Suc (year_of n))"
  proof (rule ccontr)
    assume "\<not> n < year_start (Suc (year_of n))"
    then have le: "year_start (Suc (year_of n)) \<le> n"
      by simp
    with assms have "Suc (year_of n) \<noteq> 9999"
      by auto
    with mem le have "Suc (year_of n) \<in> set ?ys"
      by auto
    moreover have "sorted ?ys"
      by (rule sorted_wrt_filter) simp
    ultimately have "Suc (year_of n) \<le> last ?ys"
      by (intro sorted_last)
    then show False
      by (simp add: year_of_def)
  qed
qed

lemma split_month_correct:
  "r < sum_list ls \<Longrightarrow> fst (split_month ls r) < length ls
     \<and> snd (split_month ls r) < ls ! fst (split_month ls r)
     \<and> sum_list (take (fst (split_month ls r)) ls) + snd (split_month ls r) = r"
proof (induction ls arbitrary: r)
  case (Cons l ls)
  show ?case
  proof (cases "r < l")
    case False
    with Cons.prems have "r - l < sum_list ls"
      by simp
    from Cons.IH[OF this] False show ?thesis
      by (auto simp: case_prod_beta add.assoc)
  qed simp
qed simp

lemma civil_correct:
  assumes "n < year_start 9999" "civil n = (y, m, d)"
  shows "y < 9999" "m < 12" "d < month_lengths y ! m" "day_number y m d = n"
proof -
  note yr = year_of_range[OF assms(1)]
  have parts: "y = year_of n" "split_month (month_lengths y) (n - year_start y) = (m, d)"
    using assms(2) by (auto simp: civil_def Let_def)
  have "n - year_start y < sum_list (month_lengths y)"
    using yr(2,3) parts(1) by (simp add: month_lengths_sum year_length)
  from split_month_correct[OF this]
  have md: "m < length (month_lengths y)" "d < month_lengths y ! m"
    "sum_list (take m (month_lengths y)) + d = n - year_start y"
    by (simp_all add: parts(2))
  show "y < 9999"
    using yr(1) parts(1) by simp
  show "m < 12"
    using md(1) by (simp add: month_lengths_def)
  show "d < month_lengths y ! m"
    by (rule md(2))
  show "day_number y m d = n"
    using md(3) yr(2) parts(1) by (simp add: day_number_def)
qed

subsection \<open>Times\<close>

definition day_us :: int where
  "day_us = 86400 * 1000000"

text \<open>The number of the day 1 January 1970.\<close>

definition epoch_day :: int where
  "epoch_day = 719162"

definition wall_clock :: "datetime \<Rightarrow> int" where
  "wall_clock t = (case t of Naive w \<Rightarrow> w | Aware w off \<Rightarrow> w)"

definition in_range :: "datetime \<Rightarrow> bool" where
  "in_range t \<longleftrightarrow> 0 \<le> wall_clock t div day_us + epoch_day
     \<and> wall_clock t div day_us + epoch_day < int (year_start 9999)"

definition clock_text :: "nat \<Rightarrow> pystr" where
  "clock_text us = (let sec = us div 1000000; micro = us mod 1000000 in
     padded 2 (sec div 3600) @ [58] @ padded 2 (sec div 60 mod 60) @ [58] @ padded 2 (sec mod 60)
       @ (if micro = 0 then [] else 46 # padded 6 micro))"

definition iso_wall :: "int \<Rightarrow> pystr" where
  "iso_wall w = (case civil (nat (w div day_us + epoch_day)) of (y, m, d) \<Rightarrow>
     padded 4 (Suc y) @ [45] @ padded 2 (Suc m) @ [45] @ padded 2 (Suc d) @ [84]
       @ clock_text (nat (w mod day_us)))"

definition iso_offset :: "int \<Rightarrow> pystr" where
  "iso_offset off = (let us = nat \<bar>off\<bar>; s = us div 1000000 mod 60; micro = us mod 1000000 in
     (if off < 0 then 45 else 43) # padded 2 (us div 3600000000) @ [58]
       @ padded 2 (us div 60000000 mod 60)
       @ (if s = 0 \<and> micro = 0 then [] else [58] @ padded 2 s
          @ (if micro = 0 then [] else 46 # padded 6 micro)))"

definition isoformat :: "datetime \<Rightarrow> pystr" where
  "isoformat t = (case t of Naive w \<Rightarrow> iso_wall w | Aware w off \<Rightarrow> iso_wall w @ iso_offset off)"

definition read_digits :: "nat \<Rightarrow> pystr \<Rightarrow> (nat \<times> pystr) option" where
  "read_digits w s = (if length s < w then None
     else map_option (\<lambda>n. (n, drop w s)) (number (take w s)))"

definition expect :: "nat \<Rightarrow> pystr \<Rightarrow> pystr option" where
  "expect c s = (case s of [] \<Rightarrow> None | d # r \<Rightarrow> if d = c then Some r else None)"

definition read_date :: "pystr \<Rightarrow> (nat \<times> pystr) option" where
  "read_date s0 =
     Option.bind (read_digits 4 s0) (\<lambda>(y, s1). Option.bind (expect 45 s1) (\<lambda>s2.
     Option.bind (read_digits 2 s2) (\<lambda>(m, s3). Option.bind (expect 45 s3) (\<lambda>s4.
     Option.bind (read_digits 2 s4) (\<lambda>(d, s5).
     if 1 \<le> y \<and> 1 \<le> m \<and> m \<le> 12 \<and> 1 \<le> d \<and> d \<le> month_lengths (y - 1) ! (m - 1)
     then Some (day_number (y - 1) (m - 1) (d - 1), s5) else None)))))"

definition read_micro :: "pystr \<Rightarrow> (nat \<times> pystr) option" where
  "read_micro s = (case expect 46 s of None \<Rightarrow> Some (0, s) | Some r \<Rightarrow> read_digits 6 r)"

definition read_clock :: "pystr \<Rightarrow> (nat \<times> pystr) option" where
  "read_clock s0 =
     Option.bind (read_digits 2 s0) (\<lambda>(h, s1). Option.bind (expect 58 s1) (\<lambda>s2.
     Option.bind (read_digits 2 s2) (\<lambda>(mi, s3). Option.bind (expect 58 s3) (\<lambda>s4.
     Option.bind (read_digits 2 s4) (\<lambda>(sec, s5). Option.bind (read_micro s5) (\<lambda>(micro, s6).
     if h < 24 \<and> mi < 60 \<and> sec < 60
     then Some (((h * 60 + mi) * 60 + sec) * 1000000 + micro, s6) else None))))))"

text \<open>An offset: nothing, or a sign with hours and minutes and perhaps more.\<close>

definition read_offset :: "pystr \<Rightarrow> int option option" where
  "read_offset s0 = (case s0 of
     [] \<Rightarrow> Some None
   | c # s1 \<Rightarrow>
       if c \<noteq> 43 \<and> c \<noteq> 45 then None
       else Option.bind (read_digits 2 s1) (\<lambda>(h, s2). Option.bind (expect 58 s2) (\<lambda>s3.
         Option.bind (read_digits 2 s3) (\<lambda>(mi, s4).
         Option.bind (case expect 58 s4 of None \<Rightarrow> Some (0, 0, s4)
           | Some s5 \<Rightarrow> Option.bind (read_digits 2 s5) (\<lambda>(sec, s6).
               map_option (\<lambda>(micro, s7). (sec, micro, s7)) (read_micro s6))) (\<lambda>(sec, micro, s8).
         if s8 = [] \<and> h < 24 \<and> mi < 60 \<and> sec < 60
         then Some (Some ((if c = 45 then - 1 else 1)
           * int (((h * 60 + mi) * 60 + sec) * 1000000 + micro))) else None)))))"

definition fromisoformat :: "pystr \<Rightarrow> datetime result" where
  "fromisoformat s0 =
     (case Option.bind (read_date s0) (\<lambda>(n, s1). Option.bind (expect 84 s1) (\<lambda>s2.
        Option.bind (read_clock s2) (\<lambda>(us, s3). Option.bind (read_offset s3) (\<lambda>off.
        let w = (int n - epoch_day) * day_us + int us in
        Some (case off of None \<Rightarrow> Naive w | Some o' \<Rightarrow> Aware w o'))))) of
        None \<Rightarrow> Inl ValueError | Some t \<Rightarrow> Inr t)"

lemma read_digits_padded: "0 < w \<Longrightarrow> n < 10 ^ w \<Longrightarrow> read_digits w (padded w n @ r) = Some (n, r)"
  by (simp add: read_digits_def number_padded)

lemma expect_same [simp]: "expect c (c # r) = Some r"
  by (simp add: expect_def)

lemma month_length_le: "m < 12 \<Longrightarrow> month_lengths y ! m \<le> 31"
proof -
  have "list_all (\<lambda>l. l \<le> 31) (month_lengths y)" "length (month_lengths y) = 12"
    by (simp_all add: month_lengths_def)
  then show "m < 12 \<Longrightarrow> month_lengths y ! m \<le> 31"
    by (simp add: list_all_length)
qed

lemma read_date_text:
  assumes "n < year_start 9999" "civil n = (y, m, d)"
  shows "read_date (padded 4 (Suc y) @ [45] @ padded 2 (Suc m) @ [45] @ padded 2 (Suc d) @ r)
    = Some (n, r)"
proof -
  note c = civil_correct[OF assms]
  have "d < 31"
    using c(3) month_length_le[OF c(2), of y] by simp
  then show ?thesis
    using c by (simp add: read_date_def read_digits_padded[of 4 "Suc y"] read_digits_padded[of 2])
qed

lemma read_clock_text:
  assumes "us < 86400 * 1000000" "r = [] \<or> hd r \<noteq> 46"
  shows "read_clock (clock_text us @ r) = Some (us, r)"
proof -
  define sec where "sec = us div 1000000"
  define micro where "micro = us mod 1000000"
  have lt: "sec < 86400" "micro < 1000000" and us: "us = sec * 1000000 + micro"
    using assms(1) by (simp_all add: sec_def micro_def less_mult_imp_div_less)
  define h where "h = sec div 3600"
  define mi where "mi = sec div 60 mod 60"
  define s where "s = sec mod 60"
  have parts: "h < 24" "mi < 60" "s < 60"
    using lt(1) by (simp_all add: h_def mi_def s_def less_mult_imp_div_less)
  have "h = sec div 60 div 60"
    by (simp add: h_def div_mult2_eq[symmetric])
  then have "sec div 60 = h * 60 + mi"
    by (simp add: mi_def)
  then have sec: "sec = (h * 60 + mi) * 60 + s"
    unfolding s_def by (metis div_mult_mod_eq)
  have micro': "read_micro ((if micro = 0 then [] else 46 # padded 6 micro) @ r) = Some (micro, r)"
    using assms(2) lt(2) read_digits_padded[of 6 micro r]
    by (cases r) (auto simp: read_micro_def expect_def)
  have txt_eq: "clock_text us = padded 2 h @ [58] @ padded 2 mi @ [58] @ padded 2 s
      @ (if micro = 0 then [] else 46 # padded 6 micro)"
    by (simp add: clock_text_def Let_def h_def mi_def s_def sec_def micro_def)
  show ?thesis
    using parts micro' unfolding txt_eq
    by (simp add: read_clock_def read_digits_padded[of 2] us sec)
qed

lemma read_offset_utc: "read_offset (iso_offset 0) = Some (Some 0)"
  by (simp add: iso_offset_def read_offset_def read_digits_padded[of 2] expect_def
      read_digits_padded[of 2 0 "[]", simplified])

lemma isoformat_utc: "isoformat (utc w) = iso_wall w @ iso_offset 0"
  by (simp add: isoformat_def)

text \<open>A UTC time in Python's range survives the way through text.\<close>

lemma fromisoformat_isoformat:
  assumes "is_utc t" "in_range t"
  shows "fromisoformat (isoformat t) = Inr t"
proof -
  obtain w where t: "t = utc w"
    using assms(1) by (cases t) auto
  define n where "n = nat (w div day_us + epoch_day)"
  define us where "us = nat (w mod day_us)"
  have n: "n < year_start 9999" "int n = w div day_us + epoch_day"
    using assms(2) by (auto simp: n_def in_range_def t wall_clock_def)
  have us: "us < 86400 * 1000000" "int us = w mod day_us"
    using pos_mod_bound[of day_us w] pos_mod_sign[of day_us w] by (simp_all add: us_def day_us_def)
  obtain y m d where civ: "civil n = (y, m, d)"
    by (cases "civil n")
  have off: "hd (iso_offset 0) \<noteq> 46"
    by (simp add: iso_offset_def Let_def)
  have txt_eq: "isoformat t = (padded 4 (Suc y) @ [45] @ padded 2 (Suc m) @ [45] @ padded 2 (Suc d)
      @ (84 # clock_text us @ iso_offset 0))"
    using civ by (simp add: t isoformat_utc iso_wall_def n_def us_def)
  have "(int n - epoch_day) * day_us + int us = w"
    using n(2) us(2) by simp
  then show ?thesis
    unfolding txt_eq fromisoformat_def
    using read_date_text[OF n(1) civ] read_clock_text[OF us(1), of "iso_offset 0"] off
    by (simp add: read_offset_utc t Let_def)
qed

subsection \<open>Identifiers\<close>

text \<open>\<open>UUID(text)\<close> for the canonical spelling and the spellings without hyphens or with braces.\<close>

definition hex_step :: "nat option \<Rightarrow> nat \<Rightarrow> nat option" where
  "hex_step acc c = (case (acc, hex_value c) of (Some a, Some d) \<Rightarrow> Some (a * 16 + d) | _ \<Rightarrow> None)"

definition hex_number :: "pystr \<Rightarrow> nat option" where
  "hex_number s = foldl hex_step (Some 0) s"

definition parse_uuid :: "pystr \<Rightarrow> uuid result" where
  "parse_uuid s = (let h = filter (\<lambda>c. c \<noteq> 45) (strip_by (\<lambda>c. c = 123 \<or> c = 125) s) in
     if length h \<noteq> 32 then Inl ValueError
     else case hex_number h of None \<Rightarrow> Inl ValueError | Some n \<Rightarrow> Inr (word_of_nat n))"

lemma hex_digits_Suc: "hex_digits (Suc w) n = hex_digit (n div 16 ^ w mod 16) # hex_digits w n"
  by (simp add: hex_digits_def upt_rec[of 0 "Suc w"] map_Suc_upt[symmetric] del: upt_Suc)

lemma hex_step_digit: "d < 16 \<Longrightarrow> hex_step (Some a) (hex_digit d) = Some (a * 16 + d)"
  by (simp add: hex_step_def hex_value_digit)

lemma hex_number_fold:
  "foldl hex_step (Some a) (hex_digits w n) = Some (a * 16 ^ w + n mod 16 ^ w)"
proof (induction w arbitrary: a)
  case 0
  then show ?case by (simp add: hex_digits_def)
next
  case (Suc w)
  have "n mod 16 ^ Suc w = n div 16 ^ w mod 16 * 16 ^ w + n mod 16 ^ w"
    using mod_mult2_eq[of n "16 ^ w" 16] by (simp add: mult.commute)
  then show ?case
    by (simp add: hex_digits_Suc hex_step_digit Suc algebra_simps)
qed

lemma hex_digits_clean: "c \<in> set (hex_digits w n) \<Longrightarrow> c \<noteq> 45 \<and> c \<noteq> 123 \<and> c \<noteq> 125 \<and> 48 \<le> c \<and> c \<le> 102"
  by (auto simp: hex_digits_def hex_digit_def)

lemma uuid_str_clean: "c \<in> set (uuid_str u) \<Longrightarrow> c \<noteq> 123 \<and> c \<noteq> 125 \<and> 45 \<le> c \<and> c \<le> 102"
proof -
  assume "c \<in> set (uuid_str u)"
  then have "c = 45 \<or> c \<in> set (hex_digits 32 (unat u))"
    by (auto simp: uuid_str_def Let_def dest: in_set_takeD in_set_dropD)
  then show ?thesis
    using hex_digits_clean[of c 32 "unat u"] by auto
qed

lemma parse_uuid_str: "parse_uuid (uuid_str u) = Inr u"
proof -
  define h where "h = hex_digits 32 (unat u)"
  have clean: "\<forall>c \<in> set h. c \<noteq> 45"
    using hex_digits_clean by (auto simp: h_def)
  have sub: "filter (\<lambda>c. c \<noteq> 45) xs = xs" if "set xs \<subseteq> set h" for xs
    using that clean by (intro filter_True) auto
  have parts: "set (take n h) \<subseteq> set h" "set (drop n h) \<subseteq> set h" "set (take m (drop n h)) \<subseteq> set h" for n m
    by (auto dest: in_set_takeD in_set_dropD)
  have len: "length (uuid_str u) = 36"
    by (rule length_uuid_str)
  then have ne: "uuid_str u \<noteq> []"
    by auto
  have "hd (uuid_str u) \<in> set (uuid_str u)" "last (uuid_str u) \<in> set (uuid_str u)"
    using ne by simp_all
  then have strip: "strip_by (\<lambda>c. c = 123 \<or> c = 125) (uuid_str u) = uuid_str u"
    using ne uuid_str_clean[of "hd (uuid_str u)" u] uuid_str_clean[of "last (uuid_str u)" u]
    by (intro strip_by_id) auto
  have cat: "take 8 h @ take 4 (drop 8 h) @ take 4 (drop 12 h) @ take 4 (drop 16 h) @ drop 20 h = h"
  proof -
    have "take 4 (drop n h) @ drop (n + 4) h = drop n h" for n
      using append_take_drop_id[of 4 "drop n h"] by (simp add: add.commute)
    from this[of 8] this[of 12] this[of 16] show ?thesis
      by simp
  qed
  have filt: "filter (\<lambda>c. c \<noteq> 45) (uuid_str u) = h"
    using cat by (simp add: uuid_str_def Let_def h_def[symmetric] sub parts)
  have "unat u < 16 ^ 32"
    using unsigned_less[of u, where 'a = nat] by simp
  then have "hex_number h = Some (unat u)"
    using hex_number_fold[of 0 32 "unat u"] by (simp add: hex_number_def h_def)
  then show ?thesis
    using filt strip by (simp add: parse_uuid_def Let_def) (simp add: h_def)
qed

subsection \<open>Texts that can stand in a document\<close>

lemma plain_ascii: "32 \<le> c \<Longrightarrow> c < 127 \<Longrightarrow> plain_char c"
  by (simp add: plain_char_def is_surrogate_def)

lemma plain_uuid_str: "list_all plain_char (uuid_str u)"
  using uuid_str_clean by (fastforce simp: list_all_iff intro: plain_ascii)

lemma plain_hexdigest: "list_all plain_char (hexdigest bs)"
  using hexdigest_chars by (fastforce simp: list_all_iff is_digit_def intro: plain_ascii)

lemma plain_padded: "list_all plain_char (padded w n)"
  using padded_digits[of w n] by (auto simp: list_all_iff is_digit_def intro!: plain_ascii)

lemma plain_isoformat: "list_all plain_char (isoformat t)"
proof -
  have p: "plain_char 45" "plain_char 58" "plain_char 43" "plain_char 46" "plain_char 84"
    by (simp_all add: plain_ascii)
  have "list_all plain_char (clock_text us)" for us
    by (simp add: clock_text_def Let_def plain_padded p)
  then have "list_all plain_char (iso_wall w)" for w
    by (simp add: iso_wall_def plain_padded p split: prod.split)
  moreover have "list_all plain_char (iso_offset off)" for off
    by (simp add: iso_offset_def Let_def plain_padded p)
  ultimately show ?thesis
    by (simp add: isoformat_def split: datetime.split)
qed

subsection \<open>UTF-8 text reads back\<close>

lemma bytes_of_small: "\<forall>n \<in> set ns. n < 256 \<Longrightarrow> map unat (map word_of_nat ns :: 8 word list) = ns"
  by (induction ns) (simp_all add: unat_of_nat)

lemma utf8_scan_char:
  assumes "plain_char c"
  shows "utf8_scan (map unat (utf8_char c) @ r) = map_option ((#) c) (utf8_scan r)"
proof -
  have c: "c < 0x110000" "\<not> is_surrogate c"
    using assms by (auto simp: plain_char_def)
  consider "c < 0x80" | "0x80 \<le> c" "c < 0x800" | "0x800 \<le> c" "c < 0x10000" | "0x10000 \<le> c"
    by linarith
  then show ?thesis
  proof cases
    case 1
    then have "map unat (utf8_char c) = [c]"
      by (simp add: utf8_char_def unat_of_nat)
    with 1 show ?thesis
      by simp
  next
    case 2
    define y z where "y = c div 64" and "z = c mod 64"
    have b: "y < 32" "2 \<le> y" "z < 64" "c = y * 64 + z"
      using 2 by (auto simp: y_def z_def)
    have "map unat (utf8_char c) = [0xC0 + y, 0x80 + z]"
      unfolding utf8_char_def using 2 b(1,3) by (subst bytes_of_small) (auto simp: y_def z_def)
    then show ?thesis
      using b by (simp add: utf8_follows_def)
  next
    case 3
    define x y z where "x = c div 4096" and "y = c div 64 mod 64" and "z = c mod 64"
    have b: "x < 16" "y < 64" "z < 64"
      using 3 by (auto simp: x_def y_def z_def)
    have "c div 64 = x * 64 + y"
      using div_mult_mod_eq[of "c div 64" 64] by (simp add: x_def y_def div_mult2_eq[symmetric])
    then have v: "(x * 64 + y) * 64 + z = c"
      using div_mult_mod_eq[of c 64] by (simp add: z_def)
    have "map unat (utf8_char c) = [0xE0 + x, 0x80 + y, 0x80 + z]"
      unfolding utf8_char_def using 3 b by (subst bytes_of_small) (auto simp: x_def y_def z_def)
    then show ?thesis
      using 3(1) b c(2) v by (simp add: utf8_follows_def Let_def)
  next
    case 4
    define w x y z where "w = c div 262144" and "x = c div 4096 mod 64" and "y = c div 64 mod 64" and "z = c mod 64"
    have b: "w < 8" "x < 64" "y < 64" "z < 64"
      using 4 c by (auto simp: w_def x_def y_def z_def)
    have "c div 4096 = w * 64 + x"
      using div_mult_mod_eq[of "c div 4096" 64] by (simp add: w_def x_def div_mult2_eq[symmetric])
    then have "c div 64 = (w * 64 + x) * 64 + y"
      using div_mult_mod_eq[of "c div 64" 64] by (simp add: y_def div_mult2_eq[symmetric])
    then have v: "((w * 64 + x) * 64 + y) * 64 + z = c"
      using div_mult_mod_eq[of c 64] by (simp add: z_def)
    have "map unat (utf8_char c) = [0xF0 + w, 0x80 + x, 0x80 + y, 0x80 + z]"
      unfolding utf8_char_def using 4 b by (subst bytes_of_small) (auto simp: w_def x_def y_def z_def)
    then show ?thesis
      using 4 b c(1) v by (simp add: utf8_follows_def Let_def)
  qed
qed

text \<open>Encoding and decoding are inverse on text without surrogates.\<close>

lemma decode_encode_utf8:
  assumes "list_all plain_char s"
  shows "encode_utf8 s = Inr (concat (map utf8_char s))" "decode_utf8 (concat (map utf8_char s)) = Inr s"
proof -
  show "encode_utf8 s = Inr (concat (map utf8_char s))"
    using assms by (auto simp: encode_utf8_def list_ex_iff list_all_iff plain_char_def)
  have "utf8_scan (map unat (concat (map utf8_char s))) = Some s"
    using assms by (induction s) (simp_all add: utf8_scan_char)
  then show "decode_utf8 (concat (map utf8_char s)) = Inr s"
    by (simp add: decode_utf8_def)
qed

lemma escape_plain: "plain_char c \<Longrightarrow> list_all plain_char (escape_char a c)"
proof -
  have ascii: "plain_char x" if "32 \<le> x" "x < 127" for x
    using that by (simp add: plain_char_def is_surrogate_def)
  have hex: "list_all plain_char (hex_digits 4 n)" for n
    using hex_digits_clean[of _ 4 n] ascii by (fastforce simp: list_all_iff)
  assume "plain_char c"
  then show ?thesis
    by (auto simp: escape_char_def u_escape_def ascii hex lit_def)
qed

lemma json_string_plain: "list_all plain_char s \<Longrightarrow> list_all plain_char (json_string a s)"
  using escape_plain by (induction s) (auto simp: json_string_def plain_char_def is_surrogate_def)

lemma int_text_plain: "list_all plain_char (int_text i)"
  using int_text_range[of _ i] by (fastforce simp: list_all_iff plain_char_def is_surrogate_def)

lemma dumps_plain:
  "readable j \<Longrightarrow> list_all plain_char (dumps a j)"
  "list_all readable js \<Longrightarrow> list_all plain_char (dumps_elements a js)"
  "list_all (\<lambda>(k, v). list_all plain_char k \<and> readable v) ms \<Longrightarrow> list_all plain_char (dumps_members a ms)"
proof (induction a j and a js and a ms rule: dumps_dumps_elements_dumps_members.induct)
  case (2 a b)
  then show ?case by (cases b) (auto simp: lit_def plain_char_def is_surrogate_def)
qed (use json_string_plain int_text_plain in \<open>auto simp: lit_def plain_char_def is_surrogate_def\<close>)

end
