(* ===== verification/Disk.thy ===== *)
theory Disk
  imports Errors "HOL-Library.AList"
begin

section \<open>A directory of files that can fail\<close>

text \<open>
  The file operations the two local stores use, on a directory given as the list of its files.
  Every operation that touches the disk takes its verdict from a list kept in the state: it is done,
  it fails with \<open>OSError\<close>, or, when it writes, it fails after some bytes and leaves a torn file.
  When the list is empty every operation succeeds. \<open>os.replace\<close> is atomic, as the stores rely on.
\<close>

datatype verdict = Done | Fails | Torn nat

record disk =
  dk_files :: "(pystr \<times> bytes) list"
  dk_verdicts :: "verdict list"

definition file_at :: "disk \<Rightarrow> pystr \<Rightarrow> bytes option" where
  "file_at d name = map_of (dk_files d) name"

definition put_file :: "pystr \<Rightarrow> bytes \<Rightarrow> disk \<Rightarrow> disk" where
  "put_file name data d = d\<lparr>dk_files := AList.update name data (dk_files d)\<rparr>"

definition drop_file :: "pystr \<Rightarrow> disk \<Rightarrow> disk" where
  "drop_file name d = d\<lparr>dk_files := AList.delete name (dk_files d)\<rparr>"

text \<open>Do the operation when the next verdict says so, otherwise \<open>torn\<close> and \<open>OSError\<close>.\<close>

definition attempt :: "(nat \<Rightarrow> disk \<Rightarrow> disk) \<Rightarrow> (exn, disk, 'a) prog \<Rightarrow> (exn, disk, 'a) prog" where
  "attempt torn m d = (case dk_verdicts d of
     [] \<Rightarrow> m d
   | Done # vs \<Rightarrow> m (d\<lparr>dk_verdicts := vs\<rparr>)
   | Fails # vs \<Rightarrow> (Inl OSError, d\<lparr>dk_verdicts := vs\<rparr>)
   | Torn n # vs \<Rightarrow> (Inl OSError, torn n (d\<lparr>dk_verdicts := vs\<rparr>)))"

definition file_exists :: "pystr \<Rightarrow> disk \<Rightarrow> bool" where
  "file_exists name d \<longleftrightarrow> file_at d name \<noteq> None"

text \<open>\<open>os.open(path, O_WRONLY | O_CREAT | O_EXCL)\<close>, write, flush and \<open>fsync\<close>.\<close>

definition write_exclusive :: "pystr \<Rightarrow> bytes \<Rightarrow> (exn, disk, unit) prog" where
  "write_exclusive name data d = (if file_exists name d then (Inl FileExistsError, d)
     else attempt (\<lambda>n. put_file name (take n data)) (\<lambda>d'. (Inr (), put_file name data d')) d)"

definition replace_file :: "pystr \<Rightarrow> pystr \<Rightarrow> (exn, disk, unit) prog" where
  "replace_file a b = attempt (\<lambda>_ d. d) (\<lambda>d. case file_at d a of
     None \<Rightarrow> (Inl OSError, d) | Some c \<Rightarrow> (Inr (), put_file b c (drop_file a d)))"

text \<open>\<open>path.unlink(missing_ok=True)\<close> and \<open>path.unlink()\<close>.\<close>

definition unlink_missing_ok :: "pystr \<Rightarrow> (exn, disk, unit) prog" where
  "unlink_missing_ok name = attempt (\<lambda>_ d. d) (\<lambda>d. (Inr (), drop_file name d))"

definition unlink :: "pystr \<Rightarrow> (exn, disk, unit) prog" where
  "unlink name = attempt (\<lambda>_ d. d) (\<lambda>d. if file_exists name d then (Inr (), drop_file name d)
     else (Inl OSError, d))"

definition read_file :: "pystr \<Rightarrow> (exn, disk, bytes) prog" where
  "read_file name = attempt (\<lambda>_ d. d) (\<lambda>d. case file_at d name of
     None \<Rightarrow> (Inl OSError, d) | Some c \<Rightarrow> (Inr c, d))"

definition make_directory :: "(exn, disk, unit) prog" where
  "make_directory = attempt (\<lambda>_ d. d) (\<lambda>d. (Inr (), d))"

fun for_each :: "('a \<Rightarrow> (exn, 's, unit) prog) \<Rightarrow> 'a list \<Rightarrow> (exn, 's, unit) prog" where
  "for_each f [] = return ()"
| "for_each f (x # xs) = bind (f x) (\<lambda>_. for_each f xs)"

lemma catch_Inr_iff: "catch m h s = (Inr a, s') \<longleftrightarrow>
    m s = (Inr a, s') \<or> (\<exists>e s1. m s = (Inl e, s1) \<and> h e s1 = (Inr a, s'))"
  by (auto simp: catch_def split: prod.splits sum.splits)

lemma catch_Inl_iff: "catch m h s = (Inl e', s') \<longleftrightarrow>
    (\<exists>e s1. m s = (Inl e, s1) \<and> h e s1 = (Inl e', s'))"
  by (auto simp: catch_def split: prod.splits sum.splits)

subsection \<open>What the operations leave\<close>

lemma file_at_simps [simp]:
  "file_at (put_file name data d) = (file_at d)(name \<mapsto> data)"
  "file_at (drop_file name d) = (file_at d)(name := None)"
  "file_at (d\<lparr>dk_verdicts := vs\<rparr>) = file_at d"
  by (auto simp: file_at_def put_file_def drop_file_def update_conv' delete_conv' fun_eq_iff)

lemma file_exists_iff: "file_exists name d \<longleftrightarrow> (\<exists>c. file_at d name = Some c)"
  by (simp add: file_exists_def)

text \<open>The state after an operation, as far as the files go: \<open>untouched keep d d'\<close> says that every
  file outside \<open>keep\<close> is as before.\<close>

definition untouched :: "pystr set \<Rightarrow> disk \<Rightarrow> disk \<Rightarrow> bool" where
  "untouched names d d' \<longleftrightarrow> (\<forall>n. n \<notin> names \<longrightarrow> file_at d' n = file_at d n)"

lemma untouched_refl [simp]: "untouched names d d"
  by (simp add: untouched_def)

lemma untouched_trans: "untouched A d d' \<Longrightarrow> untouched A d' d'' \<Longrightarrow> untouched A d d''"
  by (simp add: untouched_def)

lemma untouched_mono: "untouched A d d' \<Longrightarrow> A \<subseteq> B \<Longrightarrow> untouched B d d'"
  by (auto simp: untouched_def)

text \<open>Programs that touch only the files of a set.\<close>

definition touches :: "pystr set \<Rightarrow> (exn, disk, 'a) prog \<Rightarrow> bool" where
  "touches A m \<longleftrightarrow> (\<forall>d. untouched A d (snd (m d)))"

named_theorems touches_intros "programs and the files they touch"

lemma touchesD: "touches A m \<Longrightarrow> m d = (r, d') \<Longrightarrow> n \<notin> A \<Longrightarrow> file_at d' n = file_at d n"
  unfolding touches_def untouched_def by (metis snd_conv)

lemma touches_basic [touches_intros]:
  "touches A (return a)" "touches A (raise e)" "touches A (liftR r)" "touches A (reads f)"
  by (simp_all add: touches_def)

lemma touches_bind [touches_intros]:
  assumes "touches A m" "\<And>a. touches A (f a)"
  shows "touches A (bind m f)"
  unfolding touches_def
proof
  fix d
  show "untouched A d (snd (bind m f d))"
  proof (cases "m d")
    case (Pair r d')
    then have "untouched A d d'"
      using assms(1) unfolding touches_def by (metis snd_conv)
    then show ?thesis
      using Pair assms(2) by (cases r) (auto simp: bind_def touches_def intro: untouched_trans)
  qed
qed

lemma touches_catch [touches_intros]:
  assumes "touches A m" "\<And>e. touches A (h e)"
  shows "touches A (catch m h)"
  unfolding touches_def
proof
  fix d
  show "untouched A d (snd (catch m h d))"
  proof (cases "m d")
    case (Pair r d')
    then have "untouched A d d'"
      using assms(1) unfolding touches_def by (metis snd_conv)
    then show ?thesis
      using Pair assms(2) by (cases r) (auto simp: catch_def touches_def intro: untouched_trans)
  qed
qed

lemma touches_if [touches_intros]: "touches A m \<Longrightarrow> touches A m' \<Longrightarrow> touches A (if c then m else m')"
  by simp

lemma touches_attempt:
  assumes "touches A m" "\<And>n d. untouched A d (torn n d)"
  shows "touches A (attempt torn m)"
  unfolding touches_def
proof
  fix d
  have strip: "untouched A (d\<lparr>dk_verdicts := vs\<rparr>) d' \<Longrightarrow> untouched A d d'" for vs d'
    by (simp add: untouched_def)
  have same: "untouched A d (d\<lparr>dk_verdicts := vs\<rparr>)" for vs
    by (simp add: untouched_def)
  show "untouched A d (snd (attempt torn m d))"
    using assms unfolding touches_def attempt_def
    by (auto split: list.split verdict.split intro: strip same)
qed

lemma touches_operations [touches_intros]:
  "name \<in> A \<Longrightarrow> touches A (write_exclusive name data)"
  "a \<in> A \<Longrightarrow> b \<in> A \<Longrightarrow> touches A (replace_file a b)"
  "name \<in> A \<Longrightarrow> touches A (unlink_missing_ok name)"
  "name \<in> A \<Longrightarrow> touches A (unlink name)"
  "touches A (read_file name)" "touches A make_directory"
proof -
  have plain: "untouched A d (put_file n c d)" "untouched A d (drop_file n d)" if "n \<in> A" for n c d
    using that by (auto simp: untouched_def)
  show "touches A (write_exclusive name data)" if "name \<in> A"
  proof -
    have "touches A (attempt (\<lambda>n. put_file name (take n data)) (\<lambda>d'. (Inr (), put_file name data d')))"
      by (rule touches_attempt) (auto simp: touches_def plain that)
    then show ?thesis
      by (auto simp: touches_def write_exclusive_def)
  qed
  show "touches A (replace_file a b)" if "a \<in> A" "b \<in> A"
    unfolding replace_file_def
    by (rule touches_attempt) (auto simp: touches_def untouched_def that split: option.split)
  show "touches A (unlink_missing_ok name)" if "name \<in> A"
    unfolding unlink_missing_ok_def by (rule touches_attempt) (auto simp: touches_def plain that)
  show "touches A (unlink name)" if "name \<in> A"
    unfolding unlink_def by (rule touches_attempt) (auto simp: touches_def plain that)
  show "touches A (read_file name)"
    unfolding read_file_def by (rule touches_attempt) (auto simp: touches_def split: option.split)
  show "touches A make_directory"
    unfolding make_directory_def by (rule touches_attempt) (auto simp: touches_def)
qed

lemma touches_for_each [touches_intros]:
  "(\<And>x. x \<in> set xs \<Longrightarrow> touches A (f x)) \<Longrightarrow> touches A (for_each f xs)"
  by (induction xs) (auto intro!: touches_intros)

text \<open>The exceptions a program can end with.\<close>

definition raises :: "('e \<Rightarrow> bool) \<Rightarrow> ('e, 's, 'a) prog \<Rightarrow> bool" where
  "raises P m \<longleftrightarrow> (\<forall>s e s'. m s = (Inl e, s') \<longrightarrow> P e)"

named_theorems raises_intros "programs and the exceptions they raise"

lemma raisesI: "(\<And>s e s'. m s = (Inl e, s') \<Longrightarrow> P e) \<Longrightarrow> raises P m"
  by (simp add: raises_def)

lemma raisesD: "raises P m \<Longrightarrow> m s = (Inl e, s') \<Longrightarrow> P e"
  unfolding raises_def by blast

lemma raises_mono: "raises P m \<Longrightarrow> (\<And>e. P e \<Longrightarrow> Q e) \<Longrightarrow> raises Q m"
  unfolding raises_def by blast

lemma raises_basic [raises_intros]:
  "raises P (return a)"
  "P e \<Longrightarrow> raises P (raise e)"
  "(\<And>e. r = Inl e \<Longrightarrow> P e) \<Longrightarrow> raises P (liftR r)"
  "(\<And>s e. f s = Inl e \<Longrightarrow> P e) \<Longrightarrow> raises P (reads f)"
  by (auto simp: raises_def)

lemma raises_bind [raises_intros]: "raises P m \<Longrightarrow> (\<And>a. raises P (f a)) \<Longrightarrow> raises P (bind m f)"
  unfolding raises_def bind_Inl_iff by blast

lemma raises_catch: "raises Q m \<Longrightarrow> (\<And>e. Q e \<Longrightarrow> raises P (h e)) \<Longrightarrow> raises P (catch m h)"
  unfolding raises_def catch_Inl_iff by blast

lemma raises_if [raises_intros]:
  "(c \<Longrightarrow> raises P m) \<Longrightarrow> (\<not> c \<Longrightarrow> raises P m') \<Longrightarrow> raises P (if c then m else m')"
  by simp

lemma raises_for_each [raises_intros]: "(\<And>x. raises P (f x)) \<Longrightarrow> raises P (for_each f xs)"
  by (induction xs) (auto intro!: raises_intros)

lemma raises_attempt: "P OSError \<Longrightarrow> raises P m \<Longrightarrow> raises P (attempt torn m)"
  by (auto simp: raises_def attempt_def split: list.splits verdict.splits)

lemma raises_operations [raises_intros]:
  "raises is_OSError (write_exclusive name data)"
  "raises is_OSError (replace_file a b)"
  "raises is_OSError (unlink_missing_ok name)"
  "raises is_OSError (unlink name)"
  "raises is_OSError make_directory"
  "raises is_OSError (read_file name)"
proof -
  show "raises is_OSError (write_exclusive name data)"
    by (rule raisesI) (auto simp: write_exclusive_def attempt_def is_OSError_def
      split: if_splits list.splits verdict.splits)
  show "raises is_OSError (replace_file a b)"
    unfolding replace_file_def
    by (intro raises_attempt raisesI) (auto simp: is_OSError_def split: option.splits)
  show "raises is_OSError (unlink_missing_ok name)"
    unfolding unlink_missing_ok_def by (intro raises_attempt raisesI) (auto simp: is_OSError_def)
  show "raises is_OSError (unlink name)"
    unfolding unlink_def by (intro raises_attempt raisesI) (auto simp: is_OSError_def split: if_splits)
  show "raises is_OSError make_directory"
    unfolding make_directory_def by (intro raises_attempt raisesI) (auto simp: is_OSError_def)
  show "raises is_OSError (read_file name)"
    unfolding read_file_def by (intro raises_attempt raisesI) (auto simp: is_OSError_def split: option.splits)
qed

text \<open>What a successful operation has done, and what it does on a disk that does not fail.\<close>

lemma attempt_Inr: "attempt torn m d = (Inr a, d') \<Longrightarrow> \<exists>vs. m (d\<lparr>dk_verdicts := vs\<rparr>) = (Inr a, d')"
proof (cases "dk_verdicts d")
  case Nil
  assume "attempt torn m d = (Inr a, d')"
  then have "m d = (Inr a, d')"
    using Nil by (simp add: attempt_def)
  moreover have "d\<lparr>dk_verdicts := []\<rparr> = d"
    using Nil by (cases d) simp
  ultimately show ?thesis
    by metis
qed (auto simp: attempt_def split: verdict.splits)

lemma attempt_quiet [simp]: "dk_verdicts d = [] \<Longrightarrow> attempt torn m d = m d"
  by (simp add: attempt_def)

lemma write_exclusive_Inr:
  "write_exclusive name data d = (Inr u, d') \<Longrightarrow> file_at d name = None \<and> file_at d' = (file_at d)(name \<mapsto> data)"
  by (auto simp: write_exclusive_def file_exists_def dest!: attempt_Inr split: if_splits)

lemma replace_file_Inr:
  "replace_file a b d = (Inr u, d') \<Longrightarrow>
     \<exists>c. file_at d a = Some c \<and> file_at d' = (file_at d)(a := None, b \<mapsto> c)"
  by (auto simp: replace_file_def dest!: attempt_Inr split: option.splits)

lemma unlink_missing_ok_Inr:
  "unlink_missing_ok name d = (Inr u, d') \<Longrightarrow> file_at d' = (file_at d)(name := None)"
  by (auto simp: unlink_missing_ok_def dest!: attempt_Inr)

lemma unlink_Inr: "unlink name d = (Inr u, d') \<Longrightarrow> file_at d' = (file_at d)(name := None)"
  by (auto simp: unlink_def dest!: attempt_Inr split: if_splits)

lemma read_file_Inr: "read_file name d = (Inr c, d') \<Longrightarrow> file_at d name = Some c \<and> file_at d' = file_at d"
  by (auto simp: read_file_def dest!: attempt_Inr split: option.splits)

lemma make_directory_Inr: "make_directory d = (Inr u, d') \<Longrightarrow> file_at d' = file_at d"
  by (auto simp: make_directory_def dest!: attempt_Inr)

lemma replace_file_Inl: "replace_file a b d = (Inl e, d') \<Longrightarrow> file_at d' = file_at d"
  by (auto simp: replace_file_def attempt_def split: list.splits verdict.splits option.splits)

text \<open>Removing files, whether it ends or not, brings no file into being.\<close>

lemma unlink_missing_ok_shrinks:
  "unlink_missing_ok name d = (r, d') \<Longrightarrow> file_at d' n \<in> {None, file_at d n}"
  by (auto simp: unlink_missing_ok_def attempt_def split: list.splits verdict.splits)

lemma for_each_unlink_shrinks:
  "for_each unlink_missing_ok names d = (r, d') \<Longrightarrow> file_at d' n \<in> {None, file_at d n}"
proof (induction names arbitrary: d)
  case (Cons m names)
  obtain r1 d1 where step: "unlink_missing_ok m d = (r1, d1)"
    by (cases "unlink_missing_ok m d")
  show ?case
    using Cons.prems Cons.IH[of d1] unlink_missing_ok_shrinks[OF step, of n]
    by (cases r1) (auto simp: bind_def step)
qed simp

lemma for_each_unlink_Inr:
  "for_each unlink_missing_ok names d = (Inr u, d') \<Longrightarrow>
     file_at d' = (\<lambda>n. if n \<in> set names then None else file_at d n)"
proof (induction names arbitrary: d)
  case (Cons n names)
  then obtain d1 where step: "unlink_missing_ok n d = (Inr (), d1)" "for_each unlink_missing_ok names d1 = (Inr u, d')"
    by (auto simp: bind_Inr_iff)
  show ?case
    using Cons.IH[OF step(2)] unlink_missing_ok_Inr[OF step(1)] by (auto simp: fun_eq_iff)
qed (auto simp: fun_eq_iff)

lemma quiet_files [simp]:
  "dk_verdicts (put_file n c d) = dk_verdicts d" "dk_verdicts (drop_file n d) = dk_verdicts d"
  by (simp_all add: put_file_def drop_file_def)

text \<open>What a program keeps of the files it does not touch.\<close>

lemma keeps_for_each [keeps_intros]: "(\<And>x. keeps Q (f x)) \<Longrightarrow> keeps Q (for_each f xs)"
  by (induction xs) (auto intro!: keeps_intros)

lemma keeps_file: "touches A m \<Longrightarrow> n \<notin> A \<Longrightarrow> keeps (\<lambda>d. P (file_at d n)) m"
  unfolding keeps_def by (metis surjective_pairing touchesD)


lemma keeps_unchanging: "touches {} m \<Longrightarrow> (\<And>d d'. file_at d' = file_at d \<Longrightarrow> Q d \<Longrightarrow> Q d') \<Longrightarrow> keeps Q m"
  unfolding keeps_def by (metis (no_types, lifting) empty_iff ext surjective_pairing touchesD)

end
