(* ===== verification/Composition_Storage.thy ===== *)
theory Composition_Storage
  imports Text_Codecs Disk Media_Types
begin

section \<open>The store of composition artifacts\<close>

text \<open>
  The model of \<open>CompositionArtifactStore\<close> in \<open>src/cultureshift/composition_storage.py\<close>: an artifact
  is two files of the store's directory, the PNG and a JSON document about it, each written first
  under a \<open>.part\<close> name and then moved into place. The directory is the state; the size limit and the
  time are arguments. A JSON number with a fraction is not accepted as a size (Python would accept
  one that equals the integer; the store never writes one). The locale \<open>artifact_store\<close> is what the
  services rely on, and the store is an interpretation of it.
\<close>

subsection \<open>Records and names\<close>

record stored_artifact =
  sa_artifact_id :: uuid
  sa_sha256 :: pystr
  sa_size_bytes :: int
  sa_expires_at :: datetime

record loaded_artifact =
  la_record :: stored_artifact
  la_png_bytes :: bytes

definition artifact_file :: "uuid \<Rightarrow> string \<Rightarrow> pystr" where
  "artifact_file aid suffix = uuid_str aid @ lit suffix"

abbreviation png_path :: "uuid \<Rightarrow> pystr" where "png_path aid \<equiv> artifact_file aid ''.png''"
abbreviation metadata_path :: "uuid \<Rightarrow> pystr" where "metadata_path aid \<equiv> artifact_file aid ''.json''"
abbreviation png_part :: "uuid \<Rightarrow> pystr" where "png_part aid \<equiv> artifact_file aid ''.png.part''"
abbreviation metadata_part :: "uuid \<Rightarrow> pystr" where
  "metadata_part aid \<equiv> artifact_file aid ''.json.part''"

definition artifact_names :: "uuid \<Rightarrow> pystr set" where
  "artifact_names aid = {png_part aid, metadata_part aid, png_path aid, metadata_path aid}"

definition require_utc :: "datetime \<Rightarrow> datetime result" where
  "require_utc t = (if is_utc t then Inr t else Inl CompositionArtifactError)"

subsection \<open>The document of an artifact\<close>

definition artifact_document :: "stored_artifact \<Rightarrow> json" where
  "artifact_document r = JObj
     [(lit ''artifact_id'', JStr (uuid_str (sa_artifact_id r))),
      (lit ''expires_at'', JStr (isoformat (sa_expires_at r))),
      (lit ''sha256'', JStr (sa_sha256 r)),
      (lit ''size_bytes'', JInt (sa_size_bytes r))]"

text \<open>\<open>UUID(value)\<close> on a JSON value: a missing argument is a \<open>TypeError\<close>, a value that is not a
  string has no \<open>replace\<close>. \<open>datetime.fromisoformat(value)\<close> wants a string.\<close>

definition uuid_value :: "json \<Rightarrow> uuid result" where
  "uuid_value v = (case v of JStr s \<Rightarrow> parse_uuid s | JNull \<Rightarrow> Inl TypeError | _ \<Rightarrow> Inl OtherException)"

definition datetime_value :: "json \<Rightarrow> datetime result" where
  "datetime_value v = (case v of JStr s \<Rightarrow> fromisoformat s | _ \<Rightarrow> Inl TypeError)"

text \<open>What the later comparisons see of the two members that are taken as they are.\<close>

definition text_of :: "json \<Rightarrow> pystr" where
  "text_of v = (case v of JStr s \<Rightarrow> s | _ \<Rightarrow> [])"

definition integer_of :: "json \<Rightarrow> int" where
  "integer_of v = (case v of JInt i \<Rightarrow> i | JBool b \<Rightarrow> (if b then 1 else 0) | _ \<Rightarrow> - 1)"

definition parse_artifact :: "json \<Rightarrow> stored_artifact result" where
  "parse_artifact metadata =
     bindR (bindR (member (lit ''artifact_id'') metadata) uuid_value) (\<lambda>aid.
     bindR (member (lit ''sha256'') metadata) (\<lambda>sha.
     bindR (member (lit ''size_bytes'') metadata) (\<lambda>size_bytes.
     bindR (bindR (bindR (member (lit ''expires_at'') metadata) datetime_value) require_utc) (\<lambda>expires.
     Inr \<lparr>sa_artifact_id = aid, sa_sha256 = text_of sha, sa_size_bytes = integer_of size_bytes,
       sa_expires_at = expires\<rparr>))))"

subsection \<open>Operations\<close>

text \<open>\<open>except (OSError, KeyError, TypeError, ValueError, json.JSONDecodeError)\<close>; an exception of the
  store's own class is a \<open>RuntimeError\<close> and passes through.\<close>

definition is_load_error :: "exn \<Rightarrow> bool" where
  "is_load_error e \<longleftrightarrow> is_OSError e \<or> is_ValueError e \<or> e = KeyError \<or> e = TypeError"

definition as_unavailable :: "(exn, disk, 'a) prog \<Rightarrow> (exn, disk, 'a) prog" where
  "as_unavailable m = catch m (\<lambda>e. raise (if is_load_error e then CompositionArtifactError else e))"

definition acceptable :: "nat \<Rightarrow> uuid \<Rightarrow> stored_artifact \<Rightarrow> bytes \<Rightarrow> bool" where
  "acceptable max_bytes aid r content \<longleftrightarrow>
     sa_artifact_id r = aid \<and> sa_size_bytes r = int (length content) \<and> 9 \<le> sa_size_bytes r
     \<and> sa_size_bytes r \<le> int max_bytes \<and> sha256_hex content = sa_sha256 r
     \<and> startswith content PNG_SIGNATURE"

definition load_unlocked ::
  "nat \<Rightarrow> uuid \<Rightarrow> datetime \<Rightarrow> bool \<Rightarrow> (exn, disk, loaded_artifact) prog" where
  "load_unlocked max_bytes aid now check_expiry =
     bind (as_unavailable
       (bind (read_file (metadata_path aid)) (\<lambda>raw.
        bind (liftR (bindR (decode_ascii raw) loads)) (\<lambda>metadata.
        bind (read_file (png_path aid)) (\<lambda>content.
        bind (liftR (parse_artifact metadata)) (\<lambda>r. return (r, content))))))) (\<lambda>(r, content).
     if \<not> acceptable max_bytes aid r content
       \<or> (check_expiry \<and> instant (sa_expires_at r) \<le> instant now)
     then raise CompositionArtifactError
     else return \<lparr>la_record = r, la_png_bytes = content\<rparr>)"

definition load_artifact :: "nat \<Rightarrow> uuid \<Rightarrow> datetime \<Rightarrow> (exn, disk, loaded_artifact) prog" where
  "load_artifact max_bytes aid now = bind (liftR (require_utc now)) (\<lambda>checked_at.
     load_unlocked max_bytes aid checked_at True)"

definition artifact_record :: "uuid \<Rightarrow> bytes \<Rightarrow> datetime \<Rightarrow> stored_artifact" where
  "artifact_record aid png expires = \<lparr>sa_artifact_id = aid, sa_sha256 = sha256_hex png,
     sa_size_bytes = int (length png), sa_expires_at = expires\<rparr>"

definition write_parts :: "uuid \<Rightarrow> bytes \<Rightarrow> stored_artifact \<Rightarrow> (exn, disk, unit) prog" where
  "write_parts aid png r =
     bind (write_exclusive (png_part aid) png) (\<lambda>_.
     bind (write_exclusive (metadata_part aid) (json_bytes (artifact_document r))) (\<lambda>_.
     replace_file (png_part aid) (png_path aid)))"

definition remove_artifact :: "uuid \<Rightarrow> (exn, disk, unit) prog" where
  "remove_artifact aid = for_each unlink_missing_ok
     [png_part aid, metadata_part aid, png_path aid, metadata_path aid]"

definition write_artifact :: "uuid \<Rightarrow> bytes \<Rightarrow> stored_artifact \<Rightarrow> (exn, disk, stored_artifact) prog" where
  "write_artifact aid png r =
     catch
       (bind (write_parts aid png r) (\<lambda>_.
        bind (replace_file (metadata_part aid) (metadata_path aid)) (\<lambda>_. return r)))
       (\<lambda>e. if is_OSError e
         then bind (remove_artifact aid) (\<lambda>_. raise CompositionArtifactError)
         else raise e)"

definition save_artifact ::
  "nat \<Rightarrow> uuid \<Rightarrow> bytes \<Rightarrow> datetime \<Rightarrow> (exn, disk, stored_artifact) prog" where
  "save_artifact max_bytes aid png expires_at =
     bind (liftR (require_utc expires_at)) (\<lambda>expiration.
     if \<not> startswith png PNG_SIGNATURE \<or> length png < 9 \<or> max_bytes < length png
     then raise CompositionArtifactError
     else let r = artifact_record aid png expiration in
       bind make_directory (\<lambda>_.
       bind (reads (\<lambda>d. Inr (file_exists (png_path aid) d \<or> file_exists (metadata_path aid) d)))
       (\<lambda>present.
        if present
        then bind (load_unlocked max_bytes aid expiration False) (\<lambda>existing.
          if la_record existing = r \<and> la_png_bytes existing = png then return r
          else raise CompositionArtifactError)
        else write_artifact aid png r)))"

fun delete_paths :: "pystr list \<Rightarrow> bool \<Rightarrow> (exn, disk, bool) prog" where
  "delete_paths [] removed = return removed"
| "delete_paths (p # ps) removed = bind (reads (\<lambda>d. Inr (file_exists p d))) (\<lambda>present.
     if present then bind (unlink p) (\<lambda>_. delete_paths ps True) else delete_paths ps removed)"

definition delete_artifact :: "uuid \<Rightarrow> (exn, disk, bool) prog" where
  "delete_artifact aid = delete_paths [png_path aid, metadata_path aid] False"

subsection \<open>What the store holds\<close>

text \<open>The abstract state: the artifacts that can be read, whatever the time.\<close>

definition read_document :: "bytes \<Rightarrow> stored_artifact result" where
  "read_document raw = bindR (bindR (decode_ascii raw) loads) parse_artifact"

definition stored_at :: "nat \<Rightarrow> disk \<Rightarrow> uuid \<Rightarrow> loaded_artifact option" where
  "stored_at max_bytes d aid =
     (case (file_at d (metadata_path aid), file_at d (png_path aid)) of
        (Some raw, Some content) \<Rightarrow>
          (case read_document raw of
             Inr r \<Rightarrow> if acceptable max_bytes aid r content
               then Some \<lparr>la_record = r, la_png_bytes = content\<rparr> else None
           | Inl e \<Rightarrow> None)
      | _ \<Rightarrow> None)"

lemma artifact_file_eq_iff [simp]: "artifact_file a s = artifact_file b t \<longleftrightarrow> a = b \<and> s = t"
  by (simp add: artifact_file_def append_eq_append_conv length_uuid_str)

lemma artifact_names_disjoint: "a \<noteq> b \<Longrightarrow> artifact_file a s \<notin> artifact_names b"
  by (simp add: artifact_names_def)

lemma stored_at_untouched:
  "untouched (artifact_names a) d d' \<Longrightarrow> b \<noteq> a \<Longrightarrow> stored_at m d' b = stored_at m d b"
  by (simp add: stored_at_def untouched_def artifact_names_disjoint)

lemma stored_at_cong: "file_at d' = file_at d \<Longrightarrow> stored_at m d' = stored_at m d"
  by (rule ext) (simp add: stored_at_def)

lemma stored_at_absent:
  "file_at d (metadata_path aid) = None \<or> file_at d (png_path aid) = None \<Longrightarrow> stored_at m d aid = None"
  by (auto simp: stored_at_def split: option.split)

lemma stored_at_acceptable: "stored_at m d aid = Some l \<Longrightarrow> acceptable m aid (la_record l) (la_png_bytes l)"
  by (auto simp: stored_at_def split: option.splits sum.splits if_splits)

subsection \<open>The document reads back\<close>

lemma readable_document: "readable (artifact_document (artifact_record aid png t))"
  by (simp add: artifact_document_def artifact_record_def plain_uuid_str plain_isoformat plain_hexdigest)
    (simp add: lit_def plain_char_def is_surrogate_def)

lemma parse_artifact_document:
  assumes "is_utc (sa_expires_at r)" "in_range (sa_expires_at r)"
  shows "parse_artifact (artifact_document r) = Inr r"
  using fromisoformat_isoformat[OF assms]
  by (simp add: parse_artifact_def artifact_document_def member_def uuid_value_def datetime_value_def
      parse_uuid_str text_of_def integer_of_def require_utc_def assms(1))

lemma read_artifact_document:
  assumes "is_utc t" "in_range t"
  shows "read_document (json_bytes (artifact_document (artifact_record aid png t)))
    = Inr (artifact_record aid png t)"
proof -
  let ?j = "artifact_document (artifact_record aid png t)"
  have "decode_ascii (json_bytes ?j) = Inr (dumps True ?j)" "loads (dumps True ?j) = Inr ?j"
    by (simp_all add: json_bytes_text(5) loads_dumps readable_document)
  moreover have "parse_artifact ?j = Inr (artifact_record aid png t)"
    by (rule parse_artifact_document) (simp_all add: artifact_record_def assms)
  ultimately show ?thesis
    by (simp add: read_document_def)
qed

subsection \<open>What the operations do to it\<close>

lemma touches_load_unlocked: "touches {} (load_unlocked m aid now c)"
  unfolding load_unlocked_def as_unavailable_def
  by (intro touches_intros) (auto split: prod.split intro!: touches_intros)

lemma load_unlocked_frame: "load_unlocked m aid now c d = (r, d') \<Longrightarrow> file_at d' = file_at d"
  using touchesD[OF touches_load_unlocked] by (intro ext) blast

lemma as_unavailable_Inr: "as_unavailable m d = (Inr a, d') \<longleftrightarrow> m d = (Inr a, d')"
  by (auto simp: as_unavailable_def catch_def split: prod.splits sum.splits)

lemma load_unlocked_Inr:
  assumes "load_unlocked m aid now c d = (Inr l, d')"
  shows "stored_at m d aid = Some l" "c \<longrightarrow> instant now < instant (sa_expires_at (la_record l))"
proof -
  obtain raw d1 metadata content d2 r where steps: "read_file (metadata_path aid) d = (Inr raw, d1)"
    "bindR (decode_ascii raw) loads = Inr metadata" "read_file (png_path aid) d1 = (Inr content, d2)"
    "parse_artifact metadata = Inr r" "acceptable m aid r content"
    "l = \<lparr>la_record = r, la_png_bytes = content\<rparr>" "c \<longrightarrow> instant now < instant (sa_expires_at r)"
    using assms unfolding load_unlocked_def bind_Inr_iff as_unavailable_Inr
    by (auto simp: bind_Inr_iff split: sum.splits if_splits)
  have "file_at d (metadata_path aid) = Some raw" "file_at d (png_path aid) = Some content"
    using read_file_Inr[OF steps(1)] read_file_Inr[OF steps(3)] by simp_all
  moreover have "read_document raw = Inr r"
    using steps(4) by (simp only: read_document_def steps(2) bindR_simps)
  ultimately show "stored_at m d aid = Some l"
    by (simp add: stored_at_def steps(5,6))
  show "c \<longrightarrow> instant now < instant (sa_expires_at (la_record l))"
    using steps(6,7) by simp
qed

lemma load_unlocked_quiet:
  assumes "dk_verdicts d = []" "stored_at m d aid = Some l"
  shows "load_unlocked m aid now c d = (if c \<and> instant (sa_expires_at (la_record l)) \<le> instant now
    then (Inl CompositionArtifactError, d) else (Inr l, d))"
proof -
  obtain raw content r where parts: "file_at d (metadata_path aid) = Some raw"
    "file_at d (png_path aid) = Some content" "read_document raw = Inr r" "acceptable m aid r content"
    "l = \<lparr>la_record = r, la_png_bytes = content\<rparr>"
    using assms(2) by (auto simp: stored_at_def split: option.splits sum.splits if_splits)
  then obtain j where doc: "bindR (decode_ascii raw) loads = Inr j" "parse_artifact j = Inr r"
    by (cases "bindR (decode_ascii raw) loads") (auto simp: read_document_def)
  have read: "read_file (metadata_path aid) d = (Inr raw, d)" "read_file (png_path aid) d = (Inr content, d)"
    by (simp_all add: read_file_def assms(1) parts)
  have "as_unavailable (bind (read_file (metadata_path aid)) (\<lambda>raw.
        bind (liftR (bindR (decode_ascii raw) loads)) (\<lambda>metadata.
        bind (read_file (png_path aid)) (\<lambda>content.
        bind (liftR (parse_artifact metadata)) (\<lambda>r. return (r, content)))))) d = (Inr (r, content), d)"
    unfolding as_unavailable_Inr by (simp add: doc bind_eq read del: bindR_Inr_iff)
  then show ?thesis
    unfolding load_unlocked_def by (simp add: bind_eq(2) parts(4,5))
qed

lemma touches_write_artifact: "touches (artifact_names aid) (write_artifact aid png r)"
  unfolding write_artifact_def write_parts_def remove_artifact_def
  by (intro touches_intros) (auto simp: artifact_names_def intro!: touches_intros)

lemma touches_save_artifact: "touches (artifact_names aid) (save_artifact m aid png t)"
  unfolding save_artifact_def Let_def
proof (intro touches_intros touches_write_artifact)
  show "touches (artifact_names aid) (load_unlocked m aid u False)" for u
    using touches_load_unlocked[of m aid u False] by (auto simp: touches_def untouched_def)
qed

lemma delete_paths_touches: "set ps \<subseteq> A \<Longrightarrow> touches A (delete_paths ps b)"
  by (induction ps b rule: delete_paths.induct) (auto intro!: touches_intros)

lemma delete_paths_Inr:
  "delete_paths ps b d = (Inr c, d') \<Longrightarrow> file_at d' = (\<lambda>n. if n \<in> set ps then None else file_at d n)"
proof (induction ps b arbitrary: d rule: delete_paths.induct)
  case (2 p ps removed)
  show ?case
  proof (cases "file_exists p d")
    case True
    then obtain u d1 where step: "unlink p d = (Inr u, d1)" "delete_paths ps True d1 = (Inr c, d')"
      using "2.prems" by (auto simp: bind_Inr_iff)
    show ?thesis
      using "2.IH"(1)[OF True step(2)] unlink_Inr[OF step(1)] by (auto simp: fun_eq_iff)
  next
    case False
    then have rest: "delete_paths ps removed d = (Inr c, d')"
      using "2.prems" by simp
    show ?thesis
      using "2.IH"(2)[OF False rest] False by (auto simp: fun_eq_iff file_exists_def)
  qed
qed (auto simp: fun_eq_iff)

text \<open>The four writes either all happen or leave the artifact without its document.\<close>

lemma write_artifact_Inr:
  assumes "write_artifact aid png r d = (Inr r', d')"
  shows "r' = r" "file_at d' (png_path aid) = Some png"
    "file_at d' (metadata_path aid) = Some (json_bytes (artifact_document r))"
proof -
  have body: "bind (write_parts aid png r) (\<lambda>_.
      bind (replace_file (metadata_part aid) (metadata_path aid)) (\<lambda>_. return r)) d = (Inr r', d')"
    using assms by (auto simp: write_artifact_def catch_Inr_iff bind_Inr_iff split: if_splits)
  then obtain d1 d2 d3 where steps: "write_exclusive (png_part aid) png d = (Inr (), d1)"
    "write_exclusive (metadata_part aid) (json_bytes (artifact_document r)) d1 = (Inr (), d2)"
    "replace_file (png_part aid) (png_path aid) d2 = (Inr (), d3)"
    "replace_file (metadata_part aid) (metadata_path aid) d3 = (Inr (), d')" "r' = r"
    by (auto simp: write_parts_def bind_Inr_iff)
  from steps(5) show "r' = r" .
  show "file_at d' (png_path aid) = Some png"
    "file_at d' (metadata_path aid) = Some (json_bytes (artifact_document r))"
    using write_exclusive_Inr[OF steps(1)] write_exclusive_Inr[OF steps(2)]
      replace_file_Inr[OF steps(3)] replace_file_Inr[OF steps(4)]
    by auto
qed

lemma write_artifact_Inl:
  assumes "write_artifact aid png r d = (Inl e, d')" "file_at d (metadata_path aid) = None"
  shows "file_at d' (metadata_path aid) = None"
proof -
  have parts: "touches {png_part aid, metadata_part aid, png_path aid} (write_parts aid png r)"
    unfolding write_parts_def by (intro touches_intros) auto
  obtain e1 d1 where body: "bind (write_parts aid png r) (\<lambda>_.
      bind (replace_file (metadata_part aid) (metadata_path aid)) (\<lambda>_. return r)) d = (Inl e1, d1)"
    and handler: "d' = d1 \<or> (\<exists>q. remove_artifact aid d1 = (q, d'))"
    using assms(1) by (auto simp: write_artifact_def catch_Inl_iff bind_Inl_iff split: if_splits)
  have "file_at d1 (metadata_path aid) = None"
  proof -
    consider "write_parts aid png r d = (Inl e1, d1)"
      | d2 where "write_parts aid png r d = (Inr (), d2)"
        "replace_file (metadata_part aid) (metadata_path aid) d2 = (Inl e1, d1)"
      using body by (auto simp: bind_Inl_iff)
    then show ?thesis
    proof cases
      case 1
      then show ?thesis
        using touchesD[OF parts, of d _ _ "metadata_path aid"] assms(2) by simp
    next
      case 2
      then show ?thesis
        using touchesD[OF parts, of d _ _ "metadata_path aid"] assms(2) replace_file_Inl by simp
    qed
  qed
  then show ?thesis
    using handler for_each_unlink_shrinks[of _ d1 _ d' "metadata_path aid"]
    by (auto simp: remove_artifact_def simp del: for_each.simps)
qed

lemma save_artifact_cases:
  assumes "save_artifact m aid png t d = (q, d')"
  obtains (refused) "q = Inl CompositionArtifactError" "file_at d' = file_at d"
  | (no_directory) e where "q = Inl e" "file_at d' = file_at d"
  | (replayed) l where "is_utc t" "q = (if l = \<lparr>la_record = artifact_record aid png t, la_png_bytes = png\<rparr>
        then Inr (artifact_record aid png t) else Inl CompositionArtifactError)"
      "file_at d' = file_at d" "stored_at m d aid = Some l"
  | (written) d1 where "is_utc t" "file_at d1 = file_at d" "startswith png PNG_SIGNATURE" "9 \<le> length png"
      "length png \<le> m" "file_at d (png_path aid) = None" "file_at d (metadata_path aid) = None"
      "write_artifact aid png (artifact_record aid png t) d1 = (q, d')"
proof -
  show thesis
  proof (cases "is_utc t \<and> startswith png PNG_SIGNATURE \<and> 9 \<le> length png \<and> length png \<le> m")
    case False
    then show thesis
      using assms refused by (auto simp: save_artifact_def require_utc_def split: if_splits)
  next
    case ok: True
    obtain q1 d1 where dir: "make_directory d = (q1, d1)"
      by (cases "make_directory d")
    have same: "file_at d1 = file_at d"
      using touches_operations(6)[of "{}"] touchesD dir by (intro ext) blast
    show thesis
    proof (cases q1)
      case (Inl e)
      then show thesis
        using assms ok dir same no_directory by (auto simp: save_artifact_def require_utc_def bind_def Let_def)
    next
      case (Inr u)
      show thesis
      proof (cases "file_exists (png_path aid) d1 \<or> file_exists (metadata_path aid) d1")
        case False
        then show thesis
          using assms ok dir same Inr written[of d1]
          by (auto simp: save_artifact_def require_utc_def bind_eq Let_def file_exists_def)
      next
        case True
        obtain q2 d2 where load: "load_unlocked m aid t False d1 = (q2, d2)"
          by (cases "load_unlocked m aid t False d1")
        have eq: "(q, d') = (case q2 of Inl e \<Rightarrow> (Inl e, d2) | Inr l \<Rightarrow>
            (if la_record l = artifact_record aid png t \<and> la_png_bytes l = png
             then Inr (artifact_record aid png t) else Inl CompositionArtifactError, d2))"
          using assms ok dir Inr True load
          by (auto simp: save_artifact_def require_utc_def bind_eq bind_def Let_def split: sum.splits)
        have same2: "file_at d2 = file_at d"
          using load_unlocked_frame[OF load] same by simp
        show thesis
        proof (cases q2)
          case (Inl e)
          then show thesis
            using eq same2 no_directory by simp
        next
          case (Inr l)
          then have "stored_at m d aid = Some l"
            using load_unlocked_Inr(1) load stored_at_cong[OF same] by metis
          then show thesis
            using eq Inr same2 ok replayed[of l] by (cases l) auto
        qed
      qed
    qed
  qed
qed

lemma save_artifact_Inr:
  assumes "save_artifact m aid png t d = (Inr r, d')" "in_range t"
  shows "r = artifact_record aid png t" "is_utc t"
    "stored_at m d' aid = Some \<lparr>la_record = artifact_record aid png t, la_png_bytes = png\<rparr>"
proof -
  have "r = artifact_record aid png t \<and> is_utc t
    \<and> stored_at m d' aid = Some \<lparr>la_record = artifact_record aid png t, la_png_bytes = png\<rparr>"
    using assms(1)
  proof (cases rule: save_artifact_cases)
    case (replayed l)
    then show ?thesis
      using stored_at_cong[OF replayed(3)] by (auto split: if_splits)
  next
    case (written d1)
    have "acceptable m aid (artifact_record aid png t) png"
      using written by (simp add: acceptable_def artifact_record_def)
    then show ?thesis
      using write_artifact_Inr[OF written(8)] read_artifact_document[OF written(1) assms(2)] written(1)
      by (simp add: stored_at_def)
  qed simp_all
  then show "r = artifact_record aid png t" "is_utc t"
    "stored_at m d' aid = Some \<lparr>la_record = artifact_record aid png t, la_png_bytes = png\<rparr>"
    by auto
qed

lemma save_artifact_frame:
  assumes "save_artifact m aid png t d = (q, d')" "b \<noteq> aid"
  shows "stored_at m d' b = stored_at m d b"
  using touches_save_artifact[of aid m png t] assms(1)
  by (metis assms(2) snd_conv stored_at_untouched touches_def)

lemma save_artifact_Inl:
  assumes "save_artifact m aid png t d = (Inl e, d')"
  shows "stored_at m d' b = stored_at m d b"
proof (cases "b = aid")
  case False
  then show ?thesis
    by (rule save_artifact_frame[OF assms])
next
  case True
  from assms show ?thesis
  proof (cases rule: save_artifact_cases)
    case (written d1)
    have "file_at d1 (metadata_path aid) = None"
      using written(2,7) by simp
    then have "file_at d' (metadata_path aid) = None"
      by (rule write_artifact_Inl[OF written(8)])
    then show ?thesis
      using written(7) by (simp add: True stored_at_absent)
  next
    case refused
    from stored_at_cong[OF refused(2)] show ?thesis by simp
  next
    case (no_directory e')
    from stored_at_cong[OF no_directory(2)] show ?thesis by simp
  next
    case (replayed l)
    from stored_at_cong[OF replayed(3)] show ?thesis by simp
  qed
qed

lemma delete_artifact_frame:
  assumes "delete_artifact aid d = (q, d')" "b \<noteq> aid"
  shows "stored_at m d' b = stored_at m d b"
proof -
  have "touches (artifact_names aid) (delete_artifact aid)"
    unfolding delete_artifact_def by (rule delete_paths_touches) (simp add: artifact_names_def)
  then show ?thesis
    using assms by (metis snd_conv stored_at_untouched touches_def)
qed

text \<open>Whatever a removal does, it changes no file but by removing it.\<close>

lemma unlink_shrinks: "unlink name d = (r, d') \<Longrightarrow> file_at d' n = file_at d n \<or> file_at d' n = None"
  by (auto simp: unlink_def attempt_def split: list.splits verdict.splits if_splits)

lemma delete_paths_removes:
  "delete_paths ps b d = (r, d') \<Longrightarrow> file_at d' n = file_at d n \<or> file_at d' n = None"
proof (induction ps b arbitrary: d rule: delete_paths.induct)
  case (1 removed)
  then show ?case by simp
next
  case (2 p ps removed)
  show ?case
  proof (cases "file_exists p d")
    case True
    obtain q d1 where step: "unlink p d = (q, d1)"
      by (cases "unlink p d")
    then have first: "file_at d1 n = file_at d n \<or> file_at d1 n = None"
      by (rule unlink_shrinks)
    show ?thesis
    proof (cases q)
      case (Inl e)
      then show ?thesis
        using "2.prems" True step first by (simp add: bind_eq)
    next
      case (Inr u)
      then have "delete_paths ps True d1 = (r, d')"
        using "2.prems" True step by (simp add: bind_eq)
      from "2.IH"(1)[OF True this] first show ?thesis
        by auto
    qed
  next
    case False
    then have "delete_paths ps removed d = (r, d')"
      using "2.prems" by simp
    from "2.IH"(2)[OF False this] show ?thesis .
  qed
qed

lemma delete_artifact_Inl:
  assumes "delete_artifact aid d = (Inl e, d')"
  shows "stored_at m d' aid = stored_at m d aid \<or> stored_at m d' aid = None"
  using delete_paths_removes[OF assms[unfolded delete_artifact_def], of "png_path aid"]
    delete_paths_removes[OF assms[unfolded delete_artifact_def], of "metadata_path aid"]
  by (elim disjE) (simp_all add: stored_at_absent, simp add: stored_at_def)

lemma delete_artifact_Inr: "delete_artifact aid d = (Inr c, d') \<Longrightarrow> stored_at m d' aid = None"
  by (auto simp: delete_artifact_def stored_at_absent dest!: delete_paths_Inr simp del: delete_paths.simps)

lemma load_artifact_Inr:
  "load_artifact m aid now d = (Inr l, d') \<Longrightarrow>
     stored_at m d aid = Some l \<and> instant now < instant (sa_expires_at (la_record l))"
  using load_unlocked_Inr[of m aid now True d l d']
  by (auto simp: load_artifact_def require_utc_def split: if_splits)

lemma load_artifact_frame: "load_artifact m aid now d = (q, d') \<Longrightarrow> stored_at m d' = stored_at m d"
  using load_unlocked_frame[of m aid now True d q d'] stored_at_cong[of d' d m]
  by (auto simp: load_artifact_def require_utc_def split: if_splits)

text \<open>What an operation may raise beside the store's own error: a failing disk, or a document with an
  identifier that is no string.\<close>

definition is_store_failure :: "exn \<Rightarrow> bool" where
  "is_store_failure e \<longleftrightarrow> is_OSError e \<or> is_ObjectStorageError e \<or> e = OtherException"

abbreviation unavailable_or_failure :: "exn \<Rightarrow> bool" where
  "unavailable_or_failure e \<equiv> e = CompositionArtifactError \<or> is_store_failure e"

lemma failure_cases:
  "is_OSError e \<Longrightarrow> is_store_failure e" "is_OSError e \<Longrightarrow> unavailable_or_failure e"
  "is_OSError e \<Longrightarrow> is_load_error e"
  by (simp_all add: is_store_failure_def is_load_error_def)

lemmas raises_failure = raises_mono[OF _ failure_cases(1)] raises_mono[OF _ failure_cases(2)]
  raises_mono[OF _ failure_cases(3)]

lemma parse_artifact_error:
  "parse_artifact j = Inl e \<Longrightarrow> is_load_error e \<or> e = OtherException \<or> e = CompositionArtifactError"
proof -
  have mem: "is_load_error e" if "member k j = Inl e" for k e
    using that by (auto simp: member_def is_load_error_def split: json.splits option.splits)
  have dt: "is_load_error e" if "datetime_value v = Inl e" for v e
    using that by (auto simp: datetime_value_def fromisoformat_def is_load_error_def is_ValueError_def
        split: json.splits option.splits)
  have ident: "is_load_error e \<or> e = OtherException" if "uuid_value v = Inl e" for v e
    using that by (auto simp: uuid_value_def parse_uuid_def Let_def is_load_error_def is_ValueError_def
      split: json.splits if_splits option.splits)
  show "parse_artifact j = Inl e \<Longrightarrow> is_load_error e \<or> e = OtherException \<or> e = CompositionArtifactError"
    by (auto simp: parse_artifact_def bindR_Inl_iff require_utc_def dest!: mem dt ident
        split: if_splits)
qed

lemma raises_load_unlocked: "raises unavailable_or_failure (load_unlocked m aid now c)"
  unfolding load_unlocked_def as_unavailable_def
proof (rule raises_bind)
  let ?Q = "\<lambda>e. is_load_error e \<or> e = OtherException \<or> e = CompositionArtifactError"
  show "raises unavailable_or_failure (catch (bind (read_file (metadata_path aid)) (\<lambda>raw.
        bind (liftR (bindR (decode_ascii raw) loads)) (\<lambda>metadata.
        bind (read_file (png_path aid)) (\<lambda>content.
        bind (liftR (parse_artifact metadata)) (\<lambda>r. return (r, content))))))
      (\<lambda>e. raise (if is_load_error e then CompositionArtifactError else e)))"
  proof (rule raises_catch[where Q = ?Q])
    have reading: "raises ?Q (read_file n)" for n
      by (rule raises_mono[OF raises_operations(6)]) (simp add: failure_cases)
    have decoding: "?Q e" if "bindR (decode_ascii raw) loads = Inl e" for raw e
      using that by (auto simp: bindR_Inl_iff decode_ascii_def loads_def is_load_error_def is_ValueError_def
        split: if_splits option.splits prod.splits)
    show "raises ?Q (bind (read_file (metadata_path aid)) (\<lambda>raw.
        bind (liftR (bindR (decode_ascii raw) loads)) (\<lambda>metadata.
        bind (read_file (png_path aid)) (\<lambda>content.
        bind (liftR (parse_artifact metadata)) (\<lambda>r. return (r, content))))))"
      by (intro raises_intros reading) (auto dest: decoding parse_artifact_error)
  qed (auto intro!: raises_intros simp: is_store_failure_def)
qed (auto intro!: raises_intros split: prod.split)

lemma raises_write_artifact: "raises unavailable_or_failure (write_artifact aid png r)"
  unfolding write_artifact_def
proof (rule raises_catch[where Q = is_OSError])
  show "raises is_OSError (bind (write_parts aid png r) (\<lambda>_.
      bind (replace_file (metadata_part aid) (metadata_path aid)) (\<lambda>_. return r)))"
    unfolding write_parts_def by (intro raises_intros)
  have "raises is_OSError (remove_artifact aid)"
    unfolding remove_artifact_def by (intro raises_intros)
  then show "raises unavailable_or_failure (if is_OSError e
      then bind (remove_artifact aid) (\<lambda>_. raise CompositionArtifactError) else raise e)"
    if "is_OSError e" for e
    using that by (auto intro!: raises_intros intro: raises_failure)
qed

lemma raises_save_artifact: "raises unavailable_or_failure (save_artifact m aid png t)"
  unfolding save_artifact_def Let_def
  by (intro raises_intros raises_load_unlocked raises_write_artifact
      raises_failure(2)[OF raises_operations(5)]) (auto simp: require_utc_def split: if_splits)

lemma raises_delete_paths: "raises is_store_failure (delete_paths ps b)"
proof (induction ps b rule: delete_paths.induct)
  case (1 removed)
  show ?case
    unfolding delete_paths.simps by (rule raises_intros)
next
  case (2 p ps removed)
  show ?case
    unfolding delete_paths.simps
    by (intro raises_intros raises_failure(1)[OF raises_operations(4)]) (use 2 in simp_all)
qed

lemma raises_delete_artifact: "raises is_store_failure (delete_artifact aid)"
  unfolding delete_artifact_def by (rule raises_delete_paths)

lemma raises_load_artifact: "raises unavailable_or_failure (load_artifact m aid now)"
  unfolding load_artifact_def
  by (intro raises_intros raises_load_unlocked) (auto simp: require_utc_def split: if_splits)

subsection \<open>The interface of the services\<close>

text \<open>The calls a service makes, each with whatever outcome, and the state after a sequence of them.\<close>

datatype (plugins only: code size) artifact_call = Save_Call uuid bytes datetime | Load_Call uuid datetime | Delete_Call uuid

fun call_subject :: "artifact_call \<Rightarrow> uuid" where
  "call_subject (Save_Call aid png t) = aid"
| "call_subject (Load_Call aid now) = aid"
| "call_subject (Delete_Call aid) = aid"

fun after_call ::
  "(uuid \<Rightarrow> bytes \<Rightarrow> datetime \<Rightarrow> (exn, 's, stored_artifact) prog)
    \<Rightarrow> (uuid \<Rightarrow> datetime \<Rightarrow> (exn, 's, loaded_artifact) prog) \<Rightarrow> (uuid \<Rightarrow> (exn, 's, bool) prog)
    \<Rightarrow> artifact_call \<Rightarrow> 's \<Rightarrow> 's" where
  "after_call save load delete (Save_Call aid png t) s = snd (save aid png t s)"
| "after_call save load delete (Load_Call aid now) s = snd (load aid now s)"
| "after_call save load delete (Delete_Call aid) s = snd (delete aid s)"

locale artifact_store =
  fixes save :: "uuid \<Rightarrow> bytes \<Rightarrow> datetime \<Rightarrow> (exn, 's, stored_artifact) prog"
    and load :: "uuid \<Rightarrow> datetime \<Rightarrow> (exn, 's, loaded_artifact) prog"
    and delete :: "uuid \<Rightarrow> (exn, 's, bool) prog"
    and stored :: "'s \<Rightarrow> uuid \<Rightarrow> loaded_artifact option"
  assumes save_Inr: "save aid png t s = (Inr r, s') \<Longrightarrow> in_range t \<Longrightarrow>
      r = artifact_record aid png t
      \<and> stored s' aid = Some \<lparr>la_record = artifact_record aid png t, la_png_bytes = png\<rparr>"
    and save_Inl: "save aid png t s = (Inl e, s') \<Longrightarrow> stored s' b = stored s b"
    and save_frame: "save aid png t s = (q, s') \<Longrightarrow> b \<noteq> aid \<Longrightarrow> stored s' b = stored s b"
    and load_Inr: "load aid now s = (Inr l, s') \<Longrightarrow>
      stored s aid = Some l \<and> instant now < instant (sa_expires_at (la_record l))"
    and load_frame: "load aid now s = (ql, s') \<Longrightarrow> stored s' = stored s"
    and delete_Inr: "delete aid s = (Inr c, s') \<Longrightarrow> stored s' aid = None"
    and delete_Inl: "delete aid s = (Inl e, s') \<Longrightarrow> stored s' aid = stored s aid \<or> stored s' aid = None"
    and delete_frame: "delete aid s = (qd, s') \<Longrightarrow> b \<noteq> aid \<Longrightarrow> stored s' b = stored s b"
    and stored_intact: "stored s aid = Some l \<Longrightarrow>
      la_record l = artifact_record aid (la_png_bytes l) (sa_expires_at (la_record l))"
    and save_raises: "raises unavailable_or_failure (save aid png t)"
    and load_raises: "raises unavailable_or_failure (load aid now)"
    and delete_raises: "raises is_store_failure (delete aid)"
begin

lemma after_call_other:
  "call_subject c \<noteq> aid \<Longrightarrow> stored (after_call save load delete c s) aid = stored s aid"
  by (cases c) (auto simp: save_frame[OF prod.collapse[symmetric]] load_frame[OF prod.collapse[symmetric]]
      delete_frame[OF prod.collapse[symmetric]])

lemma after_calls_other:
  "\<forall>c \<in> set cs. call_subject c \<noteq> aid \<Longrightarrow>
     stored (fold (after_call save load delete) cs s) aid = stored s aid"
  by (induction cs arbitrary: s) (simp_all add: after_call_other)

text \<open>What was saved is what is loaded, whatever happens to other artifacts in between.\<close>

lemma load_after_save:
  assumes "save aid png t s = (Inr r, s1)" "in_range t" "\<forall>c \<in> set cs. call_subject c \<noteq> aid"
    "load aid now (fold (after_call save load delete) cs s1) = (Inr l, s2)"
  shows "l = \<lparr>la_record = r, la_png_bytes = png\<rparr>" "instant now < instant t"
  using save_Inr[OF assms(1,2)] load_Inr[OF assms(4)] after_calls_other[OF assms(3), of s1]
  by (auto simp: artifact_record_def)

lemma load_after_delete:
  assumes "delete aid s = (Inr c, s1)" "\<forall>c \<in> set cs. call_subject c \<noteq> aid"
    "load aid now (fold (after_call save load delete) cs s1) = (q, s2)"
  shows "\<exists>e. q = Inl e"
  using delete_Inr[OF assms(1)] after_calls_other[OF assms(2), of s1] load_Inr[of aid now _ _ s2] assms(3)
  by (cases q) auto

end

interpretation disk_store: artifact_store "save_artifact m" "load_artifact m" delete_artifact "stored_at m"
  for m
proof unfold_locales
  show "r = artifact_record aid png t
      \<and> stored_at m d' aid = Some \<lparr>la_record = artifact_record aid png t, la_png_bytes = png\<rparr>"
    if "save_artifact m aid png t d = (Inr r, d')" "in_range t" for aid png t d r d'
    using save_artifact_Inr(1,3)[OF that] by simp
  show "la_record l = artifact_record aid (la_png_bytes l) (sa_expires_at (la_record l))"
    if "stored_at m d aid = Some l" for d aid l
    using stored_at_acceptable[OF that] by (simp add: acceptable_def artifact_record_def)
qed (fact save_artifact_Inl save_artifact_frame load_artifact_Inr load_artifact_frame
  delete_artifact_Inr delete_artifact_Inl delete_artifact_frame raises_save_artifact raises_load_artifact raises_delete_artifact)+

subsection \<open>Properties\<close>

text \<open>On a disk that does not fail a new artifact is saved.\<close>

lemma save_artifact_quiet:
  assumes "dk_verdicts d = []" "\<forall>n \<in> artifact_names aid. file_at d n = None" "is_utc t"
    "startswith png PNG_SIGNATURE" "9 \<le> length png" "length png \<le> m"
  shows "\<exists>d'. save_artifact m aid png t d = (Inr (artifact_record aid png t), d') \<and> dk_verdicts d' = []"
  using assms
  by (simp add: artifact_names_def save_artifact_def require_utc_def make_directory_def bind_eq
      file_exists_def Let_def write_artifact_def write_parts_def catch_eq write_exclusive_def
      replace_file_def)

text \<open>
  C9. Saving is atomic although it writes two files on a disk where any operation may fail or leave a
  torn file: when it answers, exactly that artifact is stored with its bytes and its expiry, and when
  it raises, every artifact that could be read before can be read as before and no other has appeared.
\<close>

theorem save_is_atomic:
  assumes "in_range t"
  shows "case save_artifact m aid png t d of
      (Inr r, d') \<Rightarrow> r = artifact_record aid png t \<and> is_utc t
        \<and> stored_at m d' = (stored_at m d)(aid \<mapsto> \<lparr>la_record = r, la_png_bytes = png\<rparr>)
    | (Inl e, d') \<Rightarrow> stored_at m d' = stored_at m d"
proof (cases "save_artifact m aid png t d")
  case (Pair q d')
  show ?thesis
  proof (cases q)
    case (Inl e)
    then show ?thesis
      using Pair disk_store.save_Inl[of m aid png t d e d'] by auto
  next
    case (Inr r)
    then have "save_artifact m aid png t d = (Inr r, d')"
      using Pair by simp
    from save_artifact_Inr[OF this assms] disk_store.save_frame[OF this] show ?thesis
      using Pair Inr by auto
  qed
qed

definition torn_disk :: disk where
  "torn_disk = \<lparr>dk_files = [], dk_verdicts = [Done, Done, Torn 3, Fails]\<rparr>"

theorem save_is_atomic_witness:
  "case save_artifact 100 7 (PNG_SIGNATURE @ [0]) (utc 0) torn_disk of
      (Inr r, d') \<Rightarrow> r = artifact_record 7 (PNG_SIGNATURE @ [0]) (utc 0) \<and> is_utc (utc 0)
        \<and> stored_at 100 d' = (stored_at 100 torn_disk)(7 \<mapsto> \<lparr>la_record = r, la_png_bytes = PNG_SIGNATURE @ [0]\<rparr>)
    | (Inl e, d') \<Rightarrow> stored_at 100 d' = stored_at 100 torn_disk"
proof (rule save_is_atomic)
  show "in_range (utc 0)"
    by (simp add: in_range_def wall_clock_def epoch_day_def day_us_def year_start_def day_number_def)
qed

text \<open>
  C28. What is loaded is what was saved: after a save that answered, and any calls on other artifacts
  with any outcome, loading on a disk that has stopped failing answers the saved record and the same
  bytes before the expiry, and \<open>CompositionArtifactError\<close> from the expiry on.
\<close>

theorem saved_artifact_loads:
  assumes "save_artifact m aid png t d = (Inr r, d1)" "in_range t"
    "\<forall>c \<in> set cs. call_subject c \<noteq> aid"
    "d2 = fold (after_call (save_artifact m) (load_artifact m) delete_artifact) cs d1"
    "dk_verdicts d2 = []" "is_utc now"
  shows "load_artifact m aid now d2 =
    (if instant now < instant t then Inr \<lparr>la_record = artifact_record aid png t, la_png_bytes = png\<rparr>
     else Inl CompositionArtifactError, d2)"
proof -
  have "stored_at m d2 aid = Some \<lparr>la_record = artifact_record aid png t, la_png_bytes = png\<rparr>"
    using save_artifact_Inr(3)[OF assms(1,2)] disk_store.after_calls_other[OF assms(3), of m d1] assms(4)
    by simp
  from load_unlocked_quiet[OF assms(5) this, of now True] show ?thesis
    using assms(6) by (simp add: load_artifact_def require_utc_def artifact_record_def)
qed

theorem saved_artifact_loads_witness:
  "\<exists>d. fst (load_artifact 100 7 (utc 5) d)
    = Inr \<lparr>la_record = artifact_record 7 (PNG_SIGNATURE @ [0]) (utc 9), la_png_bytes = PNG_SIGNATURE @ [0]\<rparr>"
proof -
  let ?d = "\<lparr>dk_files = [], dk_verdicts = []\<rparr>"
  have range: "in_range (utc 9)"
    by (simp add: in_range_def wall_clock_def epoch_day_def day_us_def year_start_def day_number_def)
  obtain d' where saved: "save_artifact 100 7 (PNG_SIGNATURE @ [0]) (utc 9) ?d
      = (Inr (artifact_record 7 (PNG_SIGNATURE @ [0]) (utc 9)), d')" "dk_verdicts d' = []"
    using save_artifact_quiet[of ?d 7 "utc 9" "PNG_SIGNATURE @ [0]" 100]
    by (auto simp: file_at_def startswith_def PNG_SIGNATURE_def)
  show ?thesis
    using saved_artifact_loads[OF saved(1) range, of "[]" d' "utc 5"] saved(2)
    by (intro exI[of _ d']) simp
qed

text \<open>
  Nothing but an intact, unexpired artifact is ever loaded, whatever is in the directory: what a
  load answers has the identifier asked for, its recorded digest and size are those of the bytes, the
  bytes carry the PNG signature, stay within the limit and have not expired; and a deleted artifact
  cannot be loaded until it is saved again, whatever happens to the others.
\<close>

theorem loaded_artifact_is_intact:
  assumes "load_artifact m aid now d = (Inr l, d')"
  shows "la_record l = artifact_record aid (la_png_bytes l) (sa_expires_at (la_record l))
    \<and> startswith (la_png_bytes l) PNG_SIGNATURE \<and> 9 \<le> length (la_png_bytes l)
    \<and> length (la_png_bytes l) \<le> m \<and> instant now < instant (sa_expires_at (la_record l))
    \<and> (\<forall>cs c d0. (\<forall>x \<in> set cs. call_subject x \<noteq> aid) \<longrightarrow>
        d = fold (after_call (save_artifact m) (load_artifact m) delete_artifact) cs
          (snd (delete_artifact aid d0)) \<longrightarrow> fst (delete_artifact aid d0) \<noteq> Inr c)"
proof -
  have intact: "stored_at m d aid = Some l" "instant now < instant (sa_expires_at (la_record l))"
    using disk_store.load_Inr[OF assms] by auto
  have "fst (delete_artifact aid d0) \<noteq> Inr c"
    if "\<forall>x \<in> set cs. call_subject x \<noteq> aid"
      "d = fold (after_call (save_artifact m) (load_artifact m) delete_artifact) cs
          (snd (delete_artifact aid d0))" for cs c d0
    using disk_store.load_after_delete[of aid d0 c "snd (delete_artifact aid d0)" cs m now "Inr l" d']
      that assms by (auto simp: prod_eq_iff)
  then show ?thesis
    using stored_at_acceptable[OF intact(1)] intact(2)
    by (auto simp: acceptable_def artifact_record_def)
qed

theorem loaded_artifact_is_intact_witness:
  "\<exists>d d' l. load_artifact 100 7 (utc 5) d = (Inr l, d') \<and> startswith (la_png_bytes l) PNG_SIGNATURE"
proof -
  let ?d = "\<lparr>dk_files = [], dk_verdicts = []\<rparr>"
  have range: "in_range (utc 9)"
    by (simp add: in_range_def wall_clock_def epoch_day_def day_us_def year_start_def day_number_def)
  obtain d' where saved: "save_artifact 100 7 (PNG_SIGNATURE @ [0]) (utc 9) ?d
      = (Inr (artifact_record 7 (PNG_SIGNATURE @ [0]) (utc 9)), d')" "dk_verdicts d' = []"
    using save_artifact_quiet[of ?d 7 "utc 9" "PNG_SIGNATURE @ [0]" 100]
    by (auto simp: file_at_def startswith_def PNG_SIGNATURE_def)
  from load_unlocked_quiet[OF saved(2) save_artifact_Inr(3)[OF saved(1) range], of "utc 5" True]
  have "load_artifact 100 7 (utc 5) d' = (Inr \<lparr>la_record = artifact_record 7 (PNG_SIGNATURE @ [0]) (utc 9),
      la_png_bytes = PNG_SIGNATURE @ [0]\<rparr>, d')"
    by (simp add: load_artifact_def require_utc_def artifact_record_def)
  then show ?thesis
    using loaded_artifact_is_intact by blast
qed

end
