(* ===== verification/Services.thy ===== *)
theory Services
  imports Lifecycle_Properties Composition Composition_Storage
begin

section \<open>What the services share\<close>

text \<open>
  The composition service and the revision service act on two stores: the run repository and the
  artifact store. Their state is the pair of both; \<open>on_db\<close> and \<open>on_store\<close> run an operation of one
  of them, \<open>between\<close> is what other requests do to the database while the service works outside it,
  as the repository's calls are separate transactions. A \<open>studio\<close> bundles what a service is built
  from beside the stores, and \<open>render_ad\<close> is the chain of calls both services make with it: the
  background, the two registered assets and the composition. A store is the record of its three
  operations; the theorems take one that satisfies the interface \<open>artifact_store\<close> of \<open>Composition_Storage\<close>.
\<close>

type_synonym 's world = "db \<times> 's"

definition on_db :: "(exn, db, 'a) prog \<Rightarrow> (exn, 's world, 'a) prog" where
  "on_db m w = (case m (fst w) of (r, d') \<Rightarrow> (r, (d', snd w)))"

definition on_store :: "(exn, 's, 'a) prog \<Rightarrow> (exn, 's world, 'a) prog" where
  "on_store m w = (case m (snd w) of (r, s') \<Rightarrow> (r, (fst w, s')))"

definition between :: "(db \<Rightarrow> db) \<Rightarrow> (exn, 's world, unit) prog" where
  "between other w = (Inr (), (other (fst w), snd w))"

record 's store_operations =
  st_save :: "uuid \<Rightarrow> bytes \<Rightarrow> datetime \<Rightarrow> (exn, 's, stored_artifact) prog"
  st_load :: "uuid \<Rightarrow> datetime \<Rightarrow> (exn, 's, loaded_artifact) prog"
  st_delete :: "uuid \<Rightarrow> (exn, 's, bool) prog"

text \<open>What a service stores of a rendering: its bytes for a day.\<close>

abbreviation artifact_of :: "uuid \<Rightarrow> datetime \<Rightarrow> composed_ad \<Rightarrow> loaded_artifact" where
  "artifact_of artifact_id now a \<equiv> \<lparr>la_record = artifact_record artifact_id (ca_png_bytes a)
     (dt_add now (hours 24)), la_png_bytes = ca_png_bytes a\<rparr>"

definition disk_operations :: "nat \<Rightarrow> disk store_operations" where
  "disk_operations max_bytes = \<lparr>st_save = save_artifact max_bytes,
     st_load = load_artifact max_bytes, st_delete = delete_artifact\<rparr>"

record ('i, 'f) studio =
  sd_unicode :: unicode
  sd_raster :: raster
  sd_files :: files
  sd_pillow :: "('i, 'f) pillow"
  sd_pinned :: pystr
  sd_font_file :: "bytes result"

definition first_product_ui :: "('i, 'f) studio \<Rightarrow> brand_lock \<Rightarrow> registered_fixture_asset result" where
  "first_product_ui sd lock = (case bl_product_ui_asset_ids lock of
     [] \<Rightarrow> Inl IndexError | ui # _ \<Rightarrow> resolve (sd_files sd) ui)"

definition render_ad ::
  "('i, 'f) studio \<Rightarrow> uuid \<Rightarrow> localization_direction \<Rightarrow> creative_brief \<Rightarrow> brand_lock \<Rightarrow> ad_copy
    \<Rightarrow> composed_ad result" where
  "render_ad sd rid direction brief lock ad_copy =
     bindR (make_background_request direction (br_target_locale brief) (br_narrative brief)
       (br_use_scenario brief)) (\<lambda>request.
     bindR (generate_background (sd_unicode sd) (sd_raster sd) request) (\<lambda>background.
     bindR (resolve (sd_files sd) (bl_logo_asset_id lock)) (\<lambda>logo.
     bindR (first_product_ui sd lock) (\<lambda>product_ui.
     compose (sd_pillow sd) (sd_pinned sd) \<lparr>qc_run_id = rid, qc_background = background,
       qc_brand_lock = lock, qc_ad_copy = ad_copy, qc_logo = logo, qc_product_ui = product_ui,
       qc_font_file = sd_font_file sd\<rparr>))))"

text \<open>What the services rely on of the studio: the laws of Pillow, Unicode tables that extend ASCII, and
  files that can be read or raise \<open>OSError\<close>.\<close>

definition working_studio :: "('i, 'f) studio \<Rightarrow> bool" where
  "working_studio sd \<longleftrightarrow> imaging_laws (sd_pillow sd) \<and> ascii_tables (sd_unicode sd)
     \<and> (\<forall>e. sd_font_file sd = Inl e \<longrightarrow> is_OSError e)
     \<and> (\<forall>n e. sd_files sd n = Inl e \<longrightarrow> is_OSError e)"

text \<open>\<open>except (CompositionError, FixtureAssetError, ImageProviderError, IndexError, ValidationError)\<close>\<close>

definition is_output_error :: "exn \<Rightarrow> bool" where
  "is_output_error e = (case e of CompositionError _ \<Rightarrow> True | FixtureAssetError \<Rightarrow> True
     | ImageProviderError _ \<Rightarrow> True | IndexError \<Rightarrow> True | ValidationError \<Rightarrow> True | _ \<Rightarrow> False)"

subsection \<open>Running one store\<close>

lemma on_db_eq: "on_db m (d, s) = (fst (m d), (snd (m d), s))"
  by (simp add: on_db_def case_prod_beta)

lemma on_store_eq: "on_store m (d, s) = (fst (m s), (d, snd (m s)))"
  by (simp add: on_store_def case_prod_beta)

lemma on_db_iff: "on_db m (d, s) = (r, (d', s')) \<longleftrightarrow> m d = (r, d') \<and> s' = s"
  by (auto simp: on_db_def split: prod.splits)

lemma on_store_iff: "on_store m (d, s) = (r, (d', s')) \<longleftrightarrow> m s = (r, s') \<and> d' = d"
  by (auto simp: on_store_def split: prod.splits)

lemma between_eq [simp]: "between other (d, s) = (Inr (), (other d, s))"
  by (simp add: between_def)

subsection \<open>Rendering\<close>

lemma render_ad_error:
  assumes "working_studio sd" "render_ad sd rid direction brief lock c = Inl e"
  shows "is_output_error e"
proof -
  have request: "x = ValidationError" if "make_background_request a b n u = Inl x" for a b n u x
    using that by (auto simp: make_background_request_def Let_def split: if_splits)
  have background: "is_output_error x" if "generate_background un ra b = Inl x" for un ra b x
    using that by (auto simp: generate_background_def validate_background_request_def Let_def bindR_Inl_iff
        is_output_error_def split: if_splits)
  have asset: "x = FixtureAssetError" if "resolve (sd_files sd) i = Inl x" for i x
    using that assms(1) resolve_error[of "sd_files sd"] by (auto simp: working_studio_def)
  have composing: "is_output_error x" if "compose (sd_pillow sd) (sd_pinned sd) q = Inl x"
    "qc_font_file q = sd_font_file sd" for q x
    using compose_outcome[of "sd_pillow sd" q "utc 0" 0 0 "sd_pinned sd"] that assms(1)
    by (auto simp: working_studio_def is_CompositionError_def is_output_error_def split: exn.splits)
  show ?thesis
    using assms(2)
    by (auto simp: render_ad_def bindR_Inl_iff first_product_ui_def is_output_error_def
        dest!: request asset split: list.splits)
      (auto dest!: background composing simp: is_output_error_def)
qed

text \<open>A rendered advertisement shows the lock it was rendered with, and its summary is valid.\<close>

lemma render_ad_Inr:
  assumes "working_studio sd" "render_ad sd rid direction brief lock c = Inr a" "is_utc now"
  shows "make_composition_generated (composition_summary rid artifact_id a now)
      = Inr (composition_summary rid artifact_id a now)"
    "protected_layers_match lock (composition_summary rid artifact_id a now)"
    "ca_sha256 a = sha256_hex (ca_png_bytes a)"
proof -
  obtain q where q: "compose (sd_pillow sd) (sd_pinned sd) q = Inr a" "qc_brand_lock q = lock"
    "qc_font_file q = sd_font_file sd"
    using assms(2) by (auto simp: render_ad_def)
  show "make_composition_generated (composition_summary rid artifact_id a now)
      = Inr (composition_summary rid artifact_id a now)"
    "protected_layers_match lock (composition_summary rid artifact_id a now)"
    "ca_sha256 a = sha256_hex (ca_png_bytes a)"
    using compose_outcome[of "sd_pillow sd" q now rid artifact_id "sd_pinned sd"] q assms(1,3)
    by (simp_all add: working_studio_def)
qed

end
