(* ===== verification/Composition_Service.thy ===== *)
theory Composition_Service
  imports Services
begin

section \<open>The composition service\<close>

text \<open>
  The model of \<open>CompositionService.generate\<close> (\<open>src/cultureshift/composition_service.py\<close>) on both
  stores: the replay of a stored composition, the checks of the run, the rendering, the artifact and
  the repository, with every \<open>except\<close> clause and the removal of the artifact it makes. The identifier
  \<open>uuid4()\<close> and the time are arguments. The property says that no outcome leaves
  a composition whose artifact is missing, or an artifact that no composition names, unless its removal
  fails on the disk.
\<close>

subsection \<open>The operation\<close>

record generation_inputs =
  gi_run :: project_run
  gi_request :: run_create
  gi_analysis :: "ad_analysis option"
  gi_confirmation :: "brand_lock_confirmation_record option"
  gi_draft :: "draft_record option"

text \<open>The first \<open>try\<close>: the stored composition, or everything the generation needs.\<close>

definition read_inputs :: "uuid \<Rightarrow> db \<Rightarrow> (composition_generated + generation_inputs) result" where
  "read_inputs rid d =
     bindR (get_composition rid d) (\<lambda>existing.
     case existing of
       Some c \<Rightarrow> Inr (Inl c)
     | None \<Rightarrow>
         bindR (get_run rid d) (\<lambda>run.
         bindR (get_request rid d) (\<lambda>request.
         bindR (get_analysis rid d) (\<lambda>analysis.
         bindR (get_confirmed_brand_lock rid d) (\<lambda>confirmation.
         bindR (get_draft rid d) (\<lambda>draft.
         Inr (Inr \<lparr>gi_run = run, gi_request = request, gi_analysis = analysis,
           gi_confirmation = confirmation, gi_draft = draft\<rparr>)))))))"

definition check_inputs :: "generation_inputs \<Rightarrow> (brand_lock_confirmation_record \<times> draft_record) result" where
  "check_inputs i =
     (if pr_status (gi_run i) \<noteq> IN_PROGRESS \<or> gi_analysis i = None
      then Inl (CompositionServiceError CS_INVALID_RUN_STATE)
      else if rc_execution_mode (gi_request i) \<noteq> FIXTURE
      then Inl (CompositionServiceError CS_INVALID_RUN_STATE)
      else case gi_confirmation i of
        None \<Rightarrow> Inl (CompositionServiceError CS_BRAND_LOCK_UNCONFIRMED)
      | Some confirmation \<Rightarrow>
          (case gi_draft i of
             None \<Rightarrow> Inl (CompositionServiceError CS_DRAFT_UNAVAILABLE)
           | Some draft \<Rightarrow> Inr (confirmation, draft)))"

definition save_rendered ::
  "'s store_operations \<Rightarrow> uuid \<Rightarrow> uuid \<Rightarrow> datetime \<Rightarrow> composed_ad \<Rightarrow> (exn, 's, composition_generated) prog" where
  "save_rendered st rid artifact_id now composed =
     bind (st_save st artifact_id (ca_png_bytes composed) (dt_add now (hours 24))) (\<lambda>stored.
     if sa_sha256 stored \<noteq> ca_sha256 composed then raise CompositionArtifactError
     else liftR (make_composition_generated (composition_summary rid artifact_id composed now)))"

definition render_and_save ::
  "('i, 'f) studio \<Rightarrow> 's store_operations \<Rightarrow> uuid \<Rightarrow> uuid \<Rightarrow> datetime \<Rightarrow> project_run
    \<Rightarrow> brand_lock_confirmation_record \<Rightarrow> draft_record \<Rightarrow> (exn, 's, composition_generated) prog" where
  "render_and_save sd st rid artifact_id now run confirmation draft =
     catch
       (bind (liftR (render_ad sd (pr_id run) (pr_direction run) (dr_brief draft)
          (bk_brand_lock confirmation) (dr_ad_copy draft))) (\<lambda>composed.
        save_rendered st (pr_id run) artifact_id now composed))
       (\<lambda>e. if is_output_error e then raise (CompositionServiceError CS_OUTPUT_INVALID)
         else if e = CompositionArtifactError
         then bind (st_delete st artifact_id) (\<lambda>_. raise (CompositionServiceError CS_PERSISTENCE_FAILED))
         else raise e)"

text \<open>The second \<open>try\<close> of \<open>generate\<close>.\<close>

definition replay_composition :: "uuid \<Rightarrow> (exn, db, composition_generated option) prog" where
  "replay_composition rid = reads (\<lambda>d. case get_composition rid d of
     Inl e \<Rightarrow> if e = ProjectRunNotFoundError then Inr None else Inl e | Inr c \<Rightarrow> Inr c)"

definition persist_composition ::
  "'s store_operations \<Rightarrow> uuid \<Rightarrow> uuid \<Rightarrow> composition_generated \<Rightarrow> (exn, 's world, composition_generated) prog" where
  "persist_composition st rid artifact_id summary =
     catch (on_db (save_composition rid summary)) (\<lambda>e.
       bind (on_store (st_delete st artifact_id)) (\<lambda>_.
       if e = CompositionImmutableError
       then bind (on_db (replay_composition rid)) (\<lambda>replay.
         case replay of Some c \<Rightarrow> return c
         | None \<Rightarrow> raise (CompositionServiceError CS_PERSISTENCE_FAILED))
       else if e = InvalidRunStateError then raise (CompositionServiceError CS_INVALID_RUN_STATE)
       else raise (CompositionServiceError CS_PERSISTENCE_FAILED)))"

definition generate_composition ::
  "('i, 'f) studio \<Rightarrow> 's store_operations \<Rightarrow> (db \<Rightarrow> db) \<Rightarrow> uuid \<Rightarrow> uuid \<Rightarrow> datetime
    \<Rightarrow> (exn, 's world, composition_generated) prog" where
  "generate_composition sd st other rid artifact_id now =
     bind (on_db (reads (\<lambda>d. case read_inputs rid d of
       Inl e \<Rightarrow> Inl (if e = ProjectRunNotFoundError then CompositionServiceError CS_RUN_NOT_FOUND else e)
     | Inr i \<Rightarrow> Inr i))) (\<lambda>inputs.
     case inputs of
       Inl existing \<Rightarrow> return existing
     | Inr i \<Rightarrow>
         bind (liftR (check_inputs i)) (\<lambda>(confirmation, draft).
         bind (on_store (render_and_save sd st rid artifact_id now (gi_run i) confirmation draft)) (\<lambda>summary.
         bind (between other) (\<lambda>_.
         persist_composition st rid artifact_id summary))))"

subsection \<open>What can happen\<close>

definition rendered_by :: "('i, 'f) studio \<Rightarrow> uuid \<Rightarrow> composed_ad \<Rightarrow> bool" where
  "rendered_by sd rid a \<longleftrightarrow> (\<exists>direction brief lock c. render_ad sd rid direction brief lock c = Inr a)"

lemma get_run_id: "get_run rid d = Inr run \<Longrightarrow> pr_id run = rid"
  by (auto dest: get_run_status)

lemma save_composition_Inr:
  assumes "save_composition rid c d = (Inr c', d')"
  shows "c' = c" "get_composition rid d' = Inr (Some c)"
  using assms
  by (auto simp: save_composition_def method_simps column_Some_iff get_composition_def get_context_def
      split: option.splits if_splits sum.splits)

context artifact_store
begin

lemma save_rendered_outcome:
  assumes "working_studio sd" "render_ad sd rid direction brief lock c = Inr a" "is_utc now"
    "in_range (dt_add now (hours 24))"
    "save_rendered \<lparr>st_save = save, st_load = load, st_delete = delete\<rparr> rid artifact_id now a s = (r, s')"
  shows "(\<exists>e. r = Inl e \<and> unavailable_or_failure e \<and> stored s' = stored s)
    \<or> (r = Inr (composition_summary rid artifact_id a now)
       \<and> stored s' = (stored s)(artifact_id \<mapsto> \<lparr>la_record = artifact_record artifact_id (ca_png_bytes a)
           (dt_add now (hours 24)), la_png_bytes = ca_png_bytes a\<rparr>))"
proof -
  obtain r1 s1 where step: "save artifact_id (ca_png_bytes a) (dt_add now (hours 24)) s = (r1, s1)"
    by (cases "save artifact_id (ca_png_bytes a) (dt_add now (hours 24)) s")
  show ?thesis
  proof (cases r1)
    case (Inl e)
    have "stored s1 = stored s" "unavailable_or_failure e"
      using save_Inl raisesD[OF save_raises] step Inl by blast+
    then show ?thesis
      using assms(5) step Inl by (auto simp: save_rendered_def bind_def)
  next
    case (Inr x)
    then have rec: "x = artifact_record artifact_id (ca_png_bytes a) (dt_add now (hours 24))"
      "stored s1 artifact_id = Some \<lparr>la_record = x, la_png_bytes = ca_png_bytes a\<rparr>"
      using save_Inr[OF _ assms(4)] step by auto
    moreover have "stored s1 b = stored s b" if "b \<noteq> artifact_id" for b
      using save_frame[OF step that] .
    ultimately have "stored s1 = (stored s)(artifact_id \<mapsto> \<lparr>la_record = x, la_png_bytes = ca_png_bytes a\<rparr>)"
      by auto
    then show ?thesis
      using assms(5) step Inr rec(1) render_ad_Inr(1)[OF assms(1-3), of artifact_id] render_ad_Inr(3)[OF assms(1-3)]
      by (auto simp: save_rendered_def bind_def artifact_record_def)
  qed
qed

lemma delete_outcome:
  assumes "delete artifact_id s = (r, s')" "stored s0 artifact_id = None"
    "\<And>b. b \<noteq> artifact_id \<Longrightarrow> stored s b = stored s0 b"
  shows "(\<exists>e. r = Inl e \<and> is_store_failure e \<and> (stored s' = stored s \<or> stored s' = stored s0))
    \<or> (\<exists>b. r = Inr b \<and> stored s' = stored s0)"
proof (cases r)
  case (Inl e)
  have other: "stored s' b = stored s b" if "b \<noteq> artifact_id" for b
    using delete_frame[OF assms(1) that] .
  have "stored s' artifact_id = stored s artifact_id \<or> stored s' artifact_id = None"
    using delete_Inl[OF assms(1)[unfolded Inl]] .
  then have "stored s' = stored s \<or> stored s' = stored s0"
    using other assms(2,3) by (metis ext)
  then show ?thesis
    using raisesD[OF delete_raises] assms(1) Inl by auto
next
  case (Inr b)
  have "stored s' x = stored s0 x" for x
    using delete_Inr[of artifact_id s b s'] delete_frame[OF assms(1), of x] assms Inr
    by (cases "x = artifact_id") auto
  then show ?thesis
    using Inr by auto
qed

lemma render_and_save_outcome:
  assumes "working_studio sd" "is_utc now" "in_range (dt_add now (hours 24))" "stored s artifact_id = None"
    "pr_id run = rid"
    "render_and_save sd \<lparr>st_save = save, st_load = load, st_delete = delete\<rparr> rid artifact_id now run
      confirmation draft s = (r, s')"
  shows "(\<exists>e. r = Inl e \<and> (is_store_failure e \<or> (\<exists>code. e = CompositionServiceError code))
        \<and> stored s' = stored s)
    \<or> (\<exists>a. rendered_by sd rid a \<and> r = Inr (composition_summary rid artifact_id a now)
       \<and> stored s' = (stored s)(artifact_id \<mapsto> \<lparr>la_record = artifact_record artifact_id (ca_png_bytes a)
           (dt_add now (hours 24)), la_png_bytes = ca_png_bytes a\<rparr>))"
proof (cases "render_ad sd rid (pr_direction run) (dr_brief draft) (bk_brand_lock confirmation) (dr_ad_copy draft)")
  case (Inl e)
  then show ?thesis
    using render_ad_error[OF assms(1) Inl] assms(5,6)
    by (auto simp: render_and_save_def catch_def)
next
  case (Inr a)
  obtain r1 s1 where step: "save_rendered \<lparr>st_save = save, st_load = load, st_delete = delete\<rparr>
      rid artifact_id now a s = (r1, s1)"
    by (cases "save_rendered \<lparr>st_save = save, st_load = load, st_delete = delete\<rparr> rid artifact_id now a s")
  note outcome = save_rendered_outcome[OF assms(1) Inr assms(2,3) step]
  have digest: "rendered_by sd rid a"
    using Inr by (auto simp: rendered_by_def)
  show ?thesis
  proof (cases r1)
    case (Inr c)
    then show ?thesis
      using outcome step assms(5,6) \<open>render_ad sd rid _ _ _ _ = Inr a\<close> digest
      by (intro disjI2 exI[of _ a]) (auto simp: render_and_save_def catch_def)
  next
    case (Inl e)
    then have e: "unavailable_or_failure e" "stored s1 = stored s"
      using outcome by auto
    obtain r2 s2 where del: "delete artifact_id s1 = (r2, s2)"
      by (cases "delete artifact_id s1")
    have "stored s2 = stored s" "\<And>x. r2 = Inl x \<Longrightarrow> is_store_failure x"
      using delete_outcome[OF del assms(4)] e(2) by auto
    moreover have "\<not> is_output_error e" if "is_store_failure e"
      using that by (auto simp: is_output_error_def is_store_failure_def is_OSError_def
          is_ObjectStorageError_def split: exn.splits)
    ultimately show ?thesis
      using e step Inl assms(5,6) del \<open>render_ad sd rid _ _ _ _ = Inr a\<close>
        raisesD[OF delete_raises, of artifact_id s1]
      by (cases r2; cases "e = CompositionArtifactError")
        (auto simp: render_and_save_def catch_def bind_def is_output_error_def)
  qed
qed

lemma persist_outcome:
  assumes "stored s0 artifact_id = None" "\<And>b. b \<noteq> artifact_id \<Longrightarrow> stored s b = stored s0 b"
    "persist_composition \<lparr>st_save = save, st_load = load, st_delete = delete\<rparr> rid artifact_id c (d, s)
      = (r, (d', s'))"
  shows "(r = Inr c \<and> save_composition rid c d = (Inr c, d') \<and> s' = s)
    \<or> (d' = d \<and> (\<exists>c'. r = Inr c' \<and> get_composition rid d = Inr (Some c')) \<and> stored s' = stored s0)
    \<or> (d' = d \<and> (\<exists>e. r = Inl e \<and> (is_store_failure e \<and> (stored s' = stored s \<or> stored s' = stored s0) \<or>
        (\<exists>code. e = CompositionServiceError code) \<and> stored s' = stored s0)))"
proof -
  obtain r1 d1 where step: "save_composition rid c d = (r1, d1)"
    by (cases "save_composition rid c d")
  obtain r2 s2 where del: "delete artifact_id s = (r2, s2)"
    by (cases "delete artifact_id s")
  show ?thesis
  proof (cases r1)
    case (Inr c1)
    then have "c1 = c"
      using save_composition_Inr(1) step by simp
    then show ?thesis
      using assms(3) step Inr by (auto simp: persist_composition_def catch_def on_db_eq)
  next
    case (Inl e)
    then have same: "d1 = d"
      using step by (auto simp: save_composition_def connect_Inl_iff split: if_splits)
    have replay: "get_composition rid d0 = Inl x \<Longrightarrow> x = ProjectRunNotFoundError" for x d0
      by (auto simp: get_composition_def get_context_def bindR_Inl_iff split: option.splits)
    show ?thesis
      using assms(3) step Inl same del delete_outcome[OF del assms(1,2)] raisesD[OF delete_raises, of artifact_id s]
      by (cases r2)
        (auto simp: persist_composition_def catch_def bind_def on_db_eq on_store_eq replay_composition_def
          dest: replay split: if_splits sum.splits option.splits)
  qed
qed

text \<open>The whole operation: nothing changed, or the new composition with its artifact, or what another
  request stored; or the rendered artifact alone, when it could not be removed again.\<close>

lemma generate_outcome:
  assumes "working_studio sd" "is_utc now" "in_range (dt_add now (hours 24))" "stored s artifact_id = None"
    "generate_composition sd \<lparr>st_save = save, st_load = load, st_delete = delete\<rparr> other rid artifact_id now
      (d, s) = (r, (d', s'))"
  shows "case r of
      Inl e \<Rightarrow> d' \<in> {d, other d} \<and>
        (stored s' = stored s \<and> (is_store_failure e \<or> (\<exists>code. e = CompositionServiceError code)
            \<or> read_inputs rid d = Inl e)
        \<or> is_store_failure e \<and> (\<exists>a. rendered_by sd rid a
            \<and> stored s' = (stored s)(artifact_id \<mapsto> artifact_of artifact_id now a)))
    | Inr c \<Rightarrow> get_composition rid d' = Inr (Some c) \<and>
        (d' \<in> {d, other d} \<and> stored s' = stored s
        \<or> (\<exists>a. rendered_by sd rid a \<and> c = composition_summary rid artifact_id a now
            \<and> save_composition rid c (other d) = (Inr c, d')
            \<and> stored s' = (stored s)(artifact_id \<mapsto> \<lparr>la_record = artifact_record artifact_id
                (ca_png_bytes a) (dt_add now (hours 24)), la_png_bytes = ca_png_bytes a\<rparr>)))"
proof (cases "read_inputs rid d")
  case (Inl e)
  then show ?thesis
    using assms(5) by (auto simp: generate_composition_def bind_def on_db_eq split: if_splits)
next
  case inputs: (Inr x)
  show ?thesis
  proof (cases x)
    case (Inl c)
    then have "get_composition rid d = Inr (Some c)"
      using inputs by (auto simp: read_inputs_def split: option.splits)
    then show ?thesis
      using assms(5) inputs Inl by (auto simp: generate_composition_def bind_def on_db_eq)
  next
    case (Inr i)
    then have run: "pr_id (gi_run i) = rid"
      using inputs get_run_id by (auto simp: read_inputs_def split: option.splits)
    show ?thesis
    proof (cases "check_inputs i")
      case (Inl e)
      then have "\<exists>code. e = CompositionServiceError code"
        by (auto simp: check_inputs_def split: if_splits option.splits)
      then show ?thesis
        using assms(5) inputs Inr Inl by (auto simp: generate_composition_def bind_def on_db_eq)
    next
      case checked: (Inr y)
      obtain confirmation draft where y: "y = (confirmation, draft)"
        by (cases y)
      obtain r1 s1 where render: "render_and_save sd \<lparr>st_save = save, st_load = load, st_delete = delete\<rparr>
          rid artifact_id now (gi_run i) confirmation draft s = (r1, s1)"
        by (cases "render_and_save sd \<lparr>st_save = save, st_load = load, st_delete = delete\<rparr>
          rid artifact_id now (gi_run i) confirmation draft s")
      note rendered = render_and_save_outcome[OF assms(1-4) run render]
      show ?thesis
      proof (cases r1)
        case (Inl e)
        then show ?thesis
          using assms(5) inputs Inr checked y render rendered
          by (auto simp: generate_composition_def bind_def on_db_eq on_store_eq)
      next
        case summary: (Inr c)
        then obtain a where a: "rendered_by sd rid a"
          "c = composition_summary rid artifact_id a now"
          "stored s1 = (stored s)(artifact_id \<mapsto> \<lparr>la_record = artifact_record artifact_id
            (ca_png_bytes a) (dt_add now (hours 24)), la_png_bytes = ca_png_bytes a\<rparr>)"
          using rendered by auto
        have persist: "persist_composition \<lparr>st_save = save, st_load = load, st_delete = delete\<rparr>
            rid artifact_id c (other d, s1) = (r, (d', s'))"
          using assms(5) inputs Inr checked y render summary
          by (simp add: generate_composition_def bind_def on_db_eq on_store_eq)
        show ?thesis
          using persist_outcome[OF assms(4) _ persist] a save_composition_Inr(2)[of rid c "other d" c d']
          by auto
      qed
    qed
  qed
qed

end

subsection \<open>On the disk\<close>

text \<open>The composition of a run has its artifact: stored under its identifier, with its digest.\<close>

definition composition_backed :: "nat \<Rightarrow> uuid \<Rightarrow> db \<Rightarrow> disk \<Rightarrow> bool" where
  "composition_backed m rid d s \<longleftrightarrow> (case get_composition rid d of
       Inr (Some c) \<Rightarrow> (case stored_at m s (co_artifact_id c) of
           Some l \<Rightarrow> sa_sha256 (la_record l) = co_rendered_sha256 c | None \<Rightarrow> False)
     | _ \<Rightarrow> True)"

lemma save_composition_other_run:
  assumes "save_composition rid c d = (r, d')" "rid' \<noteq> rid"
  shows "get_composition rid' d' = get_composition rid' d"
  using save_composition_effect[OF assms(1)] assms(2)
  by (auto simp: get_composition_def get_context_def)

lemma backed_after_artifact:
  assumes "composition_backed m rid d s" "stored_at m s artifact_id = None"
    "stored_at m s' = (stored_at m s)(artifact_id \<mapsto> l)"
  shows "composition_backed m rid d s'"
  using assms by (auto simp: composition_backed_def split: sum.splits option.splits if_splits)

lemma backed_cong:
  "get_composition rid d' = get_composition rid d \<Longrightarrow> stored_at m s' = stored_at m s
    \<Longrightarrow> composition_backed m rid d' s' = composition_backed m rid d s"
  unfolding composition_backed_def by presburger

text \<open>A new composition is backed by the artifact that was stored with it.\<close>

lemma backed_after_saving:
  assumes "composition_backed m rid' d s" "stored_at m s artifact_id = None"
    "save_composition rid c d = (Inr c, d')" "c = composition_summary rid artifact_id a now"
    "ca_sha256 a = sha256_hex (ca_png_bytes a)"
    "stored_at m s' = (stored_at m s)(artifact_id \<mapsto> artifact_of artifact_id now a)"
  shows "composition_backed m rid' d' s'"
proof (cases "rid' = rid")
  case True
  then show ?thesis
    using save_composition_Inr(2)[OF assms(3)] assms(4-6)
    by (simp add: composition_backed_def composition_summary_def artifact_record_def)
next
  case False
  then show ?thesis
    using backed_after_artifact[OF assms(1,2,6)] save_composition_other_run[OF assms(3) False]
    by (simp add: composition_backed_def)
qed

text \<open>
  C6. Generating a composition keeps the two stores together, whatever fails on the disk and whatever
  other requests do to the database before the result is recorded. When it answers, the database holds
  that very composition for the run, and either no artifact was added (the composition was already
  there), or exactly the artifact the composition names was added, with the bytes of a rendering for
  this run, their digest and a day to live. When it raises, the repository is as the other requests left it and no
  artifact was added or removed, with one exception: if the artifact it had saved could not be removed again on the
  disk, that one rendering for this run, under this request's identifier, may stay, and the error is the disk's. In
  every case the lifecycle's reachability is kept, and every run whose composition has its artifact with its digest
  before (in the database as this request found it and as the others left it) has it after: also a composition the
  request answers because it was already there.
\<close>

theorem generated_composition_is_backed:
  assumes "working_studio sd" "is_utc now" "in_range (dt_add now (hours 24))"
    "stored_at m s artifact_id = None"
    "reachable \<lparr>sys_db = d, sys_analyzing = A\<rparr>" "reachable \<lparr>sys_db = other d, sys_analyzing = A\<rparr>"
    "generate_composition sd (disk_operations m) other rid artifact_id now (d, s) = (r, (d', s'))"
  shows "reachable \<lparr>sys_db = d', sys_analyzing = A\<rparr> \<and> (case r of
      Inl e \<Rightarrow> d' \<in> {d, other d} \<and>
        (stored_at m s' = stored_at m s \<and> (is_store_failure e \<or> (\<exists>code. e = CompositionServiceError code)
            \<or> read_inputs rid d = Inl e)
        \<or> is_store_failure e \<and> (\<exists>a. rendered_by sd rid a
            \<and> stored_at m s' = (stored_at m s)(artifact_id \<mapsto> artifact_of artifact_id now a)))
    | Inr c \<Rightarrow> get_composition rid d' = Inr (Some c) \<and>
        (d' \<in> {d, other d} \<and> stored_at m s' = stored_at m s
        \<or> (\<exists>a. rendered_by sd rid a \<and> c = composition_summary rid artifact_id a now
            \<and> ca_sha256 a = sha256_hex (ca_png_bytes a) \<and> save_composition rid c (other d) = (Inr c, d')
            \<and> stored_at m s' = (stored_at m s)(artifact_id \<mapsto> artifact_of artifact_id now a))))
    \<and> (\<forall>rid'. composition_backed m rid' d s \<and> composition_backed m rid' (other d) s
         \<longrightarrow> composition_backed m rid' d' s')"
proof -
  note outcome = disk_store.generate_outcome[OF assms(1-4) assms(7)[unfolded disk_operations_def]]
  have "reachable \<lparr>sys_db = d', sys_analyzing = A\<rparr>"
  proof -
    consider "d' \<in> {d, other d}" | c q where "save_composition rid c (other d) = (q, d')"
      using outcome by (cases r) auto
    then show ?thesis
      by cases (use assms(5,6) reachable.step[OF assms(6) Save_Composition] in auto)
  qed
  moreover have digest: "rendered_by sd rid a \<longleftrightarrow> rendered_by sd rid a \<and> ca_sha256 a = sha256_hex (ca_png_bytes a)" for a
    using render_ad_Inr(3)[OF assms(1) _ assms(2)] by (auto simp: rendered_by_def)
  moreover have "composition_backed m rid' d' s'"
    if before: "composition_backed m rid' d s" "composition_backed m rid' (other d) s" for rid'
  proof -
    consider (same) "d' \<in> {d, other d}" "stored_at m s' = stored_at m s"
      | (left) a where "d' \<in> {d, other d}" "stored_at m s' = (stored_at m s)(artifact_id \<mapsto> artifact_of artifact_id now a)"
      | (new) a c where "rendered_by sd rid a" "c = composition_summary rid artifact_id a now"
          "save_composition rid c (other d) = (Inr c, d')"
          "stored_at m s' = (stored_at m s)(artifact_id \<mapsto> artifact_of artifact_id now a)"
      using outcome by (cases r) auto
    then show ?thesis
    proof cases
      case same
      then show ?thesis
        using before backed_cong[of rid' d' d' m s' s] by auto
    next
      case left
      then show ?thesis
        using before backed_after_artifact[OF _ assms(4) left(2), of rid'] by auto
    next
      case new
      then show ?thesis
        using backed_after_saving[OF before(2) assms(4) new(3,2) _ new(4)] digest[of a] by blast
    qed
  qed
  ultimately show ?thesis
    using outcome by (cases r) auto
qed

end
