(* ===== verification/Requests.thy ===== *)
theory Requests
  imports Services
begin

section \<open>Requests as sequences of steps\<close>

text \<open>
  A request of the API is several transactions, and other requests run between them. \<open>later\<close> says that
  a database is the result of lifecycle steps from another one, \<open>law_abiding\<close> that a transformation of
  the database is such a sequence of steps, whatever the state. A service refines the lifecycle when
  running it, with law-abiding requests in between, leads to a later database: every property of
  \<open>Lifecycle_Properties\<close> then holds of it. \<open>operation_row_of\<close> is the row a claim made, which no step
  removes.
\<close>

definition any_step :: "sys \<Rightarrow> sys \<Rightarrow> bool" where
  "any_step s s' \<longleftrightarrow> (\<exists>rid. step s rid s')"

definition later :: "sys \<Rightarrow> sys \<Rightarrow> bool" where
  "later = any_step\<^sup>*\<^sup>*"

lemma later_refl [simp]: "later s s"
  by (simp add: later_def)

lemma later_trans [trans]: "later s t \<Longrightarrow> later t u \<Longrightarrow> later s u"
  by (simp add: later_def)

lemma later_step: "step s rid s' \<Longrightarrow> later s s'"
  unfolding later_def by (rule r_into_rtranclp) (auto simp: any_step_def)

lemma later_reachable: "later s s' \<Longrightarrow> reachable s \<Longrightarrow> reachable s'"
  unfolding later_def
  by (induction rule: rtranclp_induct) (auto simp: any_step_def intro: reachable.step)

text \<open>What the tables tell of the past.\<close>

lemma later_extends:
  assumes "later s s'" "reachable s"
  shows "view_extends (view_run rid (sys_db s)) (view_run rid (sys_db s'))"
  using assms(1) unfolding later_def
proof (induction rule: rtranclp_induct)
  case base
  show ?case by simp
next
  case (step t u)
  have "lifecycle_inv t"
    using step.hyps(1) later_reachable assms(2) reachable_inv by (simp add: later_def)
  then show ?case
    using step step_extends view_extends_trans by (fastforce simp: any_step_def)
qed

text \<open>Every step rewrites rows as failed or succeeded and appends open ones.\<close>

definition closes_row :: "operation_row \<Rightarrow> operation_row \<Rightarrow> bool" where
  "closes_row w w' \<longleftrightarrow> w' = w \<or> (\<exists>c a t. w' = failed_operation c a t w)
     \<or> (\<exists>response t. w' = succeed_operation response t w)"

definition operations_grow :: "operation_row list \<Rightarrow> operation_row list \<Rightarrow> bool" where
  "operations_grow ws ws' \<longleftrightarrow> (\<forall>w \<in> set ws. \<exists>w' \<in> set ws'. closes_row w w')
     \<and> (\<forall>w' \<in> set ws'. ow_state w' = OP_IN_PROGRESS \<or> (\<exists>w \<in> set ws. closes_row w w'))"

lemma grow_refl [simp]: "operations_grow ws ws"
  by (auto simp: operations_grow_def closes_row_def)

lemma grow_append: "ow_state w = OP_IN_PROGRESS \<Longrightarrow> operations_grow ws (ws @ [w])"
  by (auto simp: operations_grow_def closes_row_def)

lemma grow_map: "ws' = map f ws \<Longrightarrow> (\<And>w. closes_row w (f w)) \<Longrightarrow> operations_grow ws ws'"
  by (auto simp: operations_grow_def)

lemma operation_row_states:
  "ow_state (feedback_operation_row oid rid key fp cs digest t) = OP_IN_PROGRESS"
  "ow_state (retry_operation_row oid rid key fp w t) = OP_IN_PROGRESS"
  by (simp_all add: operation_row_defs)

lemma step_operations:
  assumes "step s rid' s'"
  shows "operations_grow (db_operations (sys_db s)) (db_operations (sys_db s'))"
  using assms
proof cases
  case (Create now req run d res d' A)
  then show ?thesis
    using create_run_effect[of run req d res d'] by auto
next
  case (Claim_Analysis now d res d' A' A)
  then show ?thesis
    using claim_analysis_effect[of rid' now d res d'] by auto
next
  case (Complete_Analysis A a repair now d res d')
  then show ?thesis
    using complete_analysis_effect[of rid' a repair now d res d'] by auto
next
  case (Record_Failure A st code now d res d')
  then show ?thesis
    using record_failure_effect[of rid' st code now d res d'] by auto
next
  case (Abandon_Analysis A d)
  then show ?thesis by simp
next
  case (Confirm lock tm now d res d' A)
  then show ?thesis
    using confirm_brand_lock_effect[of rid' lock tm now d res d'] by auto
next
  case (Save_Draft brief copy facts rules tm now d res d' A)
  then show ?thesis
    using save_draft_effect[of rid' brief copy facts rules tm now d res d']
    by auto
next
  case (Save_Composition composition d res d' A)
  then show ?thesis
    using save_composition_effect[of rid' composition d res d'] by auto
next
  case (Save_Critique report d res d' A)
  then show ?thesis
    using save_critique_effect[of rid' report d res d'] by auto
next
  case (Claim_Feedback key fp changes digest t d res d' A)
  then show ?thesis
    using claim_feedback_effect[of rid' key fp changes digest t d res d']
    by (auto simp: grow_append operation_row_states)
next
  case (Fail_Revision oid' kind' d t res d' A)
  then consider "d' = d" | "db_operations d' = map (\<lambda>w. if ow_id w = oid' \<and> ow_run_id w = rid'
      \<and> ow_state w = OP_IN_PROGRESS then failed_operation CONNECTION_BEFORE_ACCEPTANCE
      (failure_action kind') t w else w) (db_operations d)"
    using fail_revision_effect[of rid' oid' CONNECTION_BEFORE_ACCEPTANCE "failure_action kind'" t d res d']
    by auto
  then show ?thesis
  proof cases
    case 2
    have "operations_grow (db_operations d) (db_operations d')"
      by (rule grow_map[OF 2]) (auto simp: closes_row_def)
    with Fail_Revision show ?thesis by simp
  qed (use Fail_Revision in simp)
next
  case (Claim_Retry key fp t d res d' A)
  then show ?thesis
    using claim_retry_effect[of rid' key fp t d res d'] by (auto simp: grow_append operation_row_states)
next
  case (Complete_Revision oid' revision response d res d' A)
  have "d' = d \<or> (\<exists>w :: operation_row. db_operations d' = map (\<lambda>w'. if closed_by rid' oid' (ow_kind w) w'
      then succeed_operation response (re_revised_at revision) w' else w') (db_operations d))"
    using complete_revision_effect[OF Complete_Revision(3)]
    by (auto simp del: map_eq_conv)
  then have "operations_grow (db_operations d) (db_operations d')"
  proof (elim disjE exE)
    fix w :: operation_row
    assume "db_operations d' = map (\<lambda>w'. if closed_by rid' oid' (ow_kind w) w'
      then succeed_operation response (re_revised_at revision) w' else w') (db_operations d)"
    then show ?thesis
      by (rule grow_map) (auto simp: closes_row_def)
  qed simp
  with Complete_Revision(1,2) show ?thesis
    by simp
qed

lemma grow_keeps:
  assumes "operations_grow ws ws'" "w \<in> set ws"
  shows "\<exists>w' \<in> set ws'. ow_id w' = ow_id w \<and> ow_run_id w' = ow_run_id w \<and> ow_kind w' = ow_kind w"
proof -
  from assms obtain w' where "w' \<in> set ws'" "closes_row w w'"
    by (auto simp: operations_grow_def)
  then show ?thesis
    by (auto simp: closes_row_def failed_operation_def succeed_operation_def intro!: bexI[of _ w'])
qed

text \<open>A finished operation has a response.\<close>

definition responses_kept :: "db \<Rightarrow> bool" where
  "responses_kept d \<longleftrightarrow>
     (\<forall>w \<in> set (db_operations d). ow_state w = OP_SUCCEEDED \<longrightarrow> ow_public_response w \<noteq> None)"

lemma reachable_responses: "reachable s \<Longrightarrow> responses_kept (sys_db s)"
proof (induction rule: reachable.induct)
  case init
  show ?case by (simp add: responses_kept_def init_sys_def empty_db_def)
next
  case (step s rid s')
  show ?case
    unfolding responses_kept_def
  proof (intro ballI impI)
    fix w assume w: "w \<in> set (db_operations (sys_db s'))" "ow_state w = OP_SUCCEEDED"
    with step_operations[OF step.hyps(2)] obtain v where
      "v \<in> set (db_operations (sys_db s))" "closes_row v w"
      by (force simp: operations_grow_def)
    then show "ow_public_response w \<noteq> None"
      using w(2) step.IH
      by (auto simp: closes_row_def responses_kept_def succeed_operation_def failed_operation_def split: if_splits)
  qed
qed

lemma step_keeps_row:
  "step s rid' s' \<Longrightarrow> in_progress_operation rid oid kind (sys_db s)
    \<Longrightarrow> in_progress_operation rid oid kind (sys_db s')"
  using grow_keeps[OF step_operations] unfolding in_progress_operation_def by metis

lemma later_keeps_row:
  "later s s' \<Longrightarrow> in_progress_operation rid oid kind (sys_db s)
    \<Longrightarrow> in_progress_operation rid oid kind (sys_db s')"
  unfolding later_def
  by (induction rule: rtranclp_induct) (auto simp: any_step_def intro: step_keeps_row)

subsection \<open>Other requests\<close>

text \<open>From every reachable state, \<open>other\<close> makes only lifecycle steps.\<close>

definition law_abiding :: "(db \<Rightarrow> db) \<Rightarrow> bool" where
  "law_abiding other \<longleftrightarrow> (\<forall>d A. reachable \<lparr>sys_db = d, sys_analyzing = A\<rparr> \<longrightarrow>
     (\<exists>A'. later \<lparr>sys_db = d, sys_analyzing = A\<rparr> \<lparr>sys_db = other d, sys_analyzing = A'\<rparr>))"

lemma law_abidingD: "law_abiding other \<Longrightarrow> reachable \<lparr>sys_db = d, sys_analyzing = A\<rparr> \<Longrightarrow>
    \<exists>A'. later \<lparr>sys_db = d, sys_analyzing = A\<rparr> \<lparr>sys_db = other d, sys_analyzing = A'\<rparr>"
  by (simp add: law_abiding_def)

lemma law_abiding_id [simp]: "law_abiding (\<lambda>d. d)"
  unfolding law_abiding_def by (metis later_refl)

text \<open>The database \<open>d'\<close> is reached from \<open>d\<close>.\<close>

definition leads_to :: "db \<Rightarrow> uuid set \<Rightarrow> db \<Rightarrow> bool" where
  "leads_to d A d' \<longleftrightarrow> (\<exists>A'. later \<lparr>sys_db = d, sys_analyzing = A\<rparr> \<lparr>sys_db = d', sys_analyzing = A'\<rparr>)"

lemma leads_to_refl [simp]: "leads_to d A d"
  by (auto simp: leads_to_def intro: later_refl)

end
