(* ===== verification/Revision_Engine.thy ===== *)
theory Revision_Engine
  imports Draft_Generation
begin

section \<open>The fixture revision engine\<close>

text \<open>
  The model of \<open>src/cultureshift/revision.py\<close>: a revision replaces the headline or the body by
  the shorter text of its direction and keeps everything else of the stored draft. The lemmas say
  when it fails and that on the drafts the generator makes every requested change really shortens.
\<close>

record revision_artifacts =
  ra_brief :: creative_brief
  ra_ad_copy :: ad_copy
  ra_fact_references :: "pystr list"
  ra_rule_ids :: "pystr list"

record revision_fixture =
  rf_headline :: pystr
  rf_body :: pystr

fun REVISIONS :: "localization_direction \<Rightarrow> revision_fixture" where
  "REVISIONS CHINA_TO_UK =
    \<lparr>rf_headline = lit ''Turn approved notes into task summaries'',
     rf_body = lit ''Orbit AI organises approved notes into task summaries.''\<rparr>"
| "REVISIONS UK_TO_CHINA =
    \<lparr>rf_headline =
       [0x628A, 0x5DF2, 0x6279, 0x51C6, 0x7B14, 0x8BB0, 0x6574, 0x7406, 0x4E3A, 0x4EFB, 0x52A1, 0x6458, 0x8981],
     rf_body = lit ''Orbit AI '' 
       @ [0x5C06, 0x5DF2, 0x6279, 0x51C6, 0x7B14, 0x8BB0, 0x6574, 0x7406, 0x4E3A, 0x4EFB, 0x52A1, 0x6458, 0x8981, 0x3002]\<rparr>"

definition revise ::
  "localization_direction \<Rightarrow> draft_record \<Rightarrow> revision_change list \<Rightarrow> revision_artifacts result" where
  "revise direction draft requested_changes =
     (if br_direction (dr_brief draft) \<noteq> direction then Inl ValueError
      else let fixture = REVISIONS direction; selected = set requested_changes in
      bindR (make_ad_copy \<lparr>cp_locale = cp_locale (dr_ad_copy draft),
        cp_headline = (if SHORTEN_HEADLINE \<in> selected then rf_headline fixture
          else cp_headline (dr_ad_copy draft)),
        cp_body = (if SHORTEN_BODY \<in> selected then rf_body fixture
          else cp_body (dr_ad_copy draft)),
        cp_cta_label = cp_cta_label (dr_ad_copy draft),
        cp_cta_action_meaning = cp_cta_action_meaning (dr_ad_copy draft)\<rparr>) (\<lambda>revised_copy.
      Inr \<lparr>ra_brief = dr_brief draft, ra_ad_copy = revised_copy,
        ra_fact_references = dr_fact_references draft, ra_rule_ids = dr_rule_ids draft\<rparr>))"

subsection \<open>The effect of a revision\<close>

lemma revision_text:
  "is_short_text (rf_headline (REVISIONS d))" "is_long_text (rf_body (REVISIONS d))"
  by (cases d; simp add: is_short_text_def is_long_text_def is_text_lit is_text_points is_white_def
      lit_def)+

lemma revision_shorter:
  "length (rf_headline (REVISIONS d)) < length (df_headline (FIXTURES d))"
  "length (rf_body (REVISIONS d)) < length (df_body (FIXTURES d))"
  by (cases d; simp)+

definition revised_copy :: "localization_direction \<Rightarrow> ad_copy \<Rightarrow> revision_change list \<Rightarrow> ad_copy" where
  "revised_copy d c changes = \<lparr>cp_locale = cp_locale c,
     cp_headline = (if SHORTEN_HEADLINE \<in> set changes then rf_headline (REVISIONS d) else cp_headline c),
     cp_body = (if SHORTEN_BODY \<in> set changes then rf_body (REVISIONS d) else cp_body c),
     cp_cta_label = cp_cta_label c, cp_cta_action_meaning = cp_cta_action_meaning c\<rparr>"

lemma valid_revised_copy: "valid_ad_copy c \<Longrightarrow> valid_ad_copy (revised_copy d c changes)"
  by (simp add: valid_ad_copy_def revised_copy_def revision_text)

lemma revise_eq:
  assumes "valid_ad_copy (dr_ad_copy draft)"
  shows "revise d draft changes =
    (if br_direction (dr_brief draft) \<noteq> d then Inl ValueError
     else Inr \<lparr>ra_brief = dr_brief draft, ra_ad_copy = revised_copy d (dr_ad_copy draft) changes,
       ra_fact_references = dr_fact_references draft, ra_rule_ids = dr_rule_ids draft\<rparr>)"
  unfolding revise_def Let_def revised_copy_def[symmetric]
  by (simp add: make_ad_copy_id valid_revised_copy assms)

text \<open>
  A revision of a valid draft fails only with \<open>ValueError\<close>, exactly when the direction is not
  the one of the draft, and otherwise keeps the brief, the cited facts, the rules, the label, the
  language and the meaning of the call to action. On a draft of the fixture copywriter every
  requested change shortens its text and every other text stays as it was.
\<close>

theorem revision_keeps_identity:
  assumes "valid_ad_copy (dr_ad_copy draft)"
  shows "(case revise d draft changes of
      Inl e \<Rightarrow> e = ValueError \<and> br_direction (dr_brief draft) \<noteq> d
    | Inr r \<Rightarrow> br_direction (dr_brief draft) = d \<and> ra_brief r = dr_brief draft
        \<and> ra_fact_references r = dr_fact_references draft \<and> ra_rule_ids r = dr_rule_ids draft
        \<and> cp_locale (ra_ad_copy r) = cp_locale (dr_ad_copy draft)
        \<and> cp_cta_label (ra_ad_copy r) = cp_cta_label (dr_ad_copy draft)
        \<and> cp_cta_action_meaning (ra_ad_copy r) = cp_cta_action_meaning (dr_ad_copy draft)
        \<and> valid_ad_copy (ra_ad_copy r)
        \<and> (dr_ad_copy draft = fixture_copy lock d \<longrightarrow>
            (if SHORTEN_HEADLINE \<in> set changes
             then length (cp_headline (ra_ad_copy r)) < length (cp_headline (dr_ad_copy draft))
             else cp_headline (ra_ad_copy r) = cp_headline (dr_ad_copy draft))
          \<and> (if SHORTEN_BODY \<in> set changes
             then length (cp_body (ra_ad_copy r)) < length (cp_body (dr_ad_copy draft))
             else cp_body (ra_ad_copy r) = cp_body (dr_ad_copy draft))
          \<and> copy_readable (ra_ad_copy r)))"
proof (cases "br_direction (dr_brief draft) = d")
  case False
  then show ?thesis
    by (simp add: revise_eq[OF assms])
next
  case True
  have "copy_readable (revised_copy d (fixture_copy lock d) changes)"
    using fixture_copy_length[of d] revision_shorter[of d]
    by (simp add: copy_readable_def revised_copy_def fixture_copy_def)
  with True show ?thesis
    using valid_revised_copy[OF assms] revision_shorter[of d]
    by (simp add: revise_eq[OF assms]) (simp add: revised_copy_def fixture_copy_def)
qed

definition sample_draft_record :: draft_record where
  "sample_draft_record = \<lparr>dr_brief = fixture_brief sample_analysis orbit_lock CHINA_TO_UK,
     dr_ad_copy = fixture_copy orbit_lock CHINA_TO_UK,
     dr_fact_references = bl_verified_product_facts orbit_lock,
     dr_rule_ids = df_rule_ids (FIXTURES CHINA_TO_UK), dr_generated_at = utc 4\<rparr>"

theorem revision_keeps_identity_witness:
  "\<exists>r. revise CHINA_TO_UK sample_draft_record [SHORTEN_HEADLINE] = Inr r
    \<and> length (cp_headline (ra_ad_copy r)) < length (cp_headline (dr_ad_copy sample_draft_record))"
proof -
  have valid: "valid_ad_copy (dr_ad_copy sample_draft_record)"
    by (simp add: sample_draft_record_def valid_fixture_copy valid_orbit_lock)
  moreover obtain r where "revise CHINA_TO_UK sample_draft_record [SHORTEN_HEADLINE] = Inr r"
    using revise_eq[OF valid, of CHINA_TO_UK] by (simp add: sample_draft_record_def)
  ultimately show ?thesis
    using revision_keeps_identity[OF valid, of CHINA_TO_UK orbit_lock "[SHORTEN_HEADLINE]"]
    by (simp add: sample_draft_record_def)
qed

end
