(* ===== verification/Revision_Service.thy ===== *)
theory Revision_Service
  imports Composition_Service Requests Revision_Engine Critic
begin

section \<open>The revision service\<close>

text \<open>
  The model of \<open>src/cultureshift/revision_service.py\<close>: the idempotency key and the fingerprint of a
  request, \<open>submit_feedback\<close>, \<open>retry\<close> and \<open>_execute\<close> with its four groups of \<open>except\<close> clauses. The
  times a request reads from the clock, the identifier of its artifact, how pydantic writes a time and
  \<open>str.casefold\<close> are arguments; \<open>between\<close> runs other requests between the service's transactions.
\<close>

subsection \<open>Keys and fingerprints\<close>

definition digest_text :: "pystr \<Rightarrow> pystr result" where
  "digest_text value = bindR (encode_utf8 value) (\<lambda>data. Inr (sha256_hex data))"

text \<open>\<open>^[A-Za-z0-9_-]{16,128}$\<close> with \<open>fullmatch\<close>.\<close>

definition is_idempotency_key :: "pystr \<Rightarrow> bool" where
  "is_idempotency_key key \<longleftrightarrow> 16 \<le> length key \<and> length key \<le> 128
     \<and> list_all (\<lambda>c. is_lower c \<or> is_upper c \<or> is_digit c \<or> c = 95 \<or> c = 45) key"

definition key_digest :: "pystr \<Rightarrow> pystr result" where
  "key_digest key = (if is_idempotency_key key then digest_text key
     else Inl (RevisionServiceError RS_INVALID_REVISION_REQUEST))"

fun revision_change_value :: "revision_change \<Rightarrow> pystr" where
  "revision_change_value SHORTEN_HEADLINE = lit ''shorten_headline''"
| "revision_change_value SHORTEN_BODY = lit ''shorten_body''"

fun reason_category_value :: "reason_category \<Rightarrow> pystr" where
  "reason_category_value REASON_VALIDATION = lit ''validation''"
| "reason_category_value REASON_GENERATION = lit ''generation''"
| "reason_category_value REASON_REVIEW = lit ''review''"

definition feedback_json :: "(datetime \<Rightarrow> pystr) \<Rightarrow> feedback_request \<Rightarrow> json" where
  "feedback_json time_text f = JObj
     [(lit ''feedback'', JStr (fb_feedback f)),
      (lit ''requested_changes'', JArr (map (\<lambda>c. JStr (revision_change_value c)) (fb_requested_changes f))),
      (lit ''run_id'', JStr (uuid_str (fb_run_id f))),
      (lit ''submitted_at'', JStr (time_text (fb_submitted_at f)))]"

definition retry_json :: "retry_request \<Rightarrow> json" where
  "retry_json q = JObj
     [(lit ''reason_category'', JStr (reason_category_value (rq_reason_category q))),
      (lit ''run_id'', JStr (uuid_str (rq_run_id q)))]"

definition fingerprint :: "json \<Rightarrow> pystr result" where
  "fingerprint j = digest_text (dumps False j)"

definition map_repository_error :: "exn \<Rightarrow> exn" where
  "map_repository_error e = RevisionServiceError
     (if e = ProjectRunNotFoundError then RS_RUN_NOT_FOUND
      else if e = IdempotencyConflictError then RS_IDEMPOTENCY_CONFLICT
      else if e = OperationInProgressError then RS_OPERATION_IN_PROGRESS
      else if e = RevisionLimitReachedError then RS_REVISION_LIMIT_REACHED
      else RS_INVALID_RUN_STATE)"

definition is_claim_error :: "exn \<Rightarrow> bool" where
  "is_claim_error e \<longleftrightarrow> e \<in> {ProjectRunNotFoundError, IdempotencyConflictError, OperationInProgressError,
     RevisionLimitReachedError, InvalidRunStateError}"

definition map_claim_errors :: "(exn, db, 'a) prog \<Rightarrow> (exn, db, 'a) prog" where
  "map_claim_errors m = catch m (\<lambda>e. raise (if is_claim_error e then map_repository_error e else e))"

subsection \<open>\<open>_execute\<close>\<close>

record revision_clock =
  rt_claimed :: datetime
  rt_now :: datetime
  rt_reviewed :: datetime
  rt_failed :: datetime

record revision_inputs =
  ri_run :: project_run
  ri_analysis :: ad_analysis
  ri_confirmation :: brand_lock_confirmation_record
  ri_draft :: draft_record
  ri_previous :: composition_generated

definition read_revision_inputs :: "uuid \<Rightarrow> db \<Rightarrow> revision_inputs result" where
  "read_revision_inputs rid d =
     bindR (get_run rid d) (\<lambda>run.
     bindR (get_request rid d) (\<lambda>request.
     bindR (get_analysis rid d) (\<lambda>analysis.
     bindR (get_confirmed_brand_lock rid d) (\<lambda>confirmation.
     bindR (get_draft rid d) (\<lambda>draft.
     bindR (get_composition rid d) (\<lambda>previous.
     bindR (get_critique rid d) (\<lambda>critique.
     if rc_execution_mode request \<noteq> FIXTURE then Inl InvalidRunStateError
     else case (analysis, confirmation, draft, previous, critique) of
       (Some a, Some k, Some dr, Some c, Some ck) \<Rightarrow>
         if cr_status (ck_report ck) = REJECT then Inl InvalidRunStateError
         else Inr \<lparr>ri_run = run, ri_analysis = a, ri_confirmation = k, ri_draft = dr, ri_previous = c\<rparr>
     | _ \<Rightarrow> Inl InvalidRunStateError)))))))"

text \<open>The steps before the artifact is saved.\<close>

definition prepare_revision ::
  "('i, 'f) studio \<Rightarrow> 's store_operations \<Rightarrow> operation_record \<Rightarrow> uuid \<Rightarrow> datetime
    \<Rightarrow> (exn, 's world, revision_inputs \<times> revision_artifacts \<times> composed_ad \<times> stored_artifact) prog" where
  "prepare_revision sd st operation artifact_id now =
     bind (on_db (reads (read_revision_inputs (op_run_id operation)))) (\<lambda>i.
     bind (liftR (revise (pr_direction (ri_run i)) (ri_draft i) (op_requested_changes operation))) (\<lambda>revised.
     bind (liftR (render_ad sd (pr_id (ri_run i)) (pr_direction (ri_run i)) (ra_brief revised)
       (bk_brand_lock (ri_confirmation i)) (ra_ad_copy revised))) (\<lambda>composed.
     bind (on_store (st_save st artifact_id (ca_png_bytes composed) (dt_add now (hours 24)))) (\<lambda>stored.
     return (i, revised, composed, stored)))))"

definition revision_response ::
  "revision_inputs \<Rightarrow> revision_artifacts \<Rightarrow> composition_generated \<Rightarrow> critique_report \<Rightarrow> project_run
    \<Rightarrow> revision_completed" where
  "revision_response i revised composition report current =
     \<lparr>rp_run_id = pr_id (ri_run i),
      rp_status = (if cr_status report = REJECT then RUN_FAILED_FINAL else RUN_READY),
      rp_result_version = 2, rp_previous_composition = ri_previous i, rp_brief = ra_brief revised,
      rp_ad_copy = ra_ad_copy revised, rp_composition = composition, rp_critique = report,
      rp_initial_generation_count = 1, rp_human_revision_count = 1,
      rp_technical_attempt_count = pr_technical_attempt_count current,
      rp_revised_at = cr_reviewed_at report\<rparr>"

definition revised_draft :: "revision_artifacts \<Rightarrow> datetime \<Rightarrow> draft_record" where
  "revised_draft revised now = \<lparr>dr_brief = ra_brief revised, dr_ad_copy = ra_ad_copy revised,
     dr_fact_references = ra_fact_references revised, dr_rule_ids = ra_rule_ids revised,
     dr_generated_at = now\<rparr>"

definition revision_record_for ::
  "operation_record \<Rightarrow> uuid \<Rightarrow> pystr \<Rightarrow> draft_record \<Rightarrow> composition_generated \<Rightarrow> critique_report
    \<Rightarrow> revision_record" where
  "revision_record_for operation rid digest draft composition report =
     \<lparr>re_run_id = rid, re_result_version = 2, re_requested_changes = op_requested_changes operation,
      re_feedback_digest = digest, re_draft = draft, re_composition = composition,
      re_critique = report, re_revised_at = cr_reviewed_at report\<rparr>"

text \<open>\<open>operation.feedback_digest or self._digest("")\<close>\<close>

definition feedback_digest_of :: "operation_record \<Rightarrow> pystr result" where
  "feedback_digest_of operation = (case op_feedback_digest operation of
     Some (c # cs) \<Rightarrow> Inr (c # cs) | _ \<Rightarrow> digest_text [])"

text \<open>The steps after it is saved.\<close>

definition finish_revision ::
  "(pystr \<Rightarrow> pystr) \<Rightarrow> operation_record \<Rightarrow> uuid \<Rightarrow> revision_clock
    \<Rightarrow> revision_inputs \<times> revision_artifacts \<times> composed_ad \<times> stored_artifact
    \<Rightarrow> (exn, db, revision_completed) prog" where
  "finish_revision casefold operation artifact_id clock = (\<lambda>(i, revised, composed, stored).
     let rid = pr_id (ri_run i); draft = revised_draft revised (rt_now clock) in
     if sa_sha256 stored \<noteq> ca_sha256 composed then raise CompositionArtifactError
     else
     bind (liftR (make_composition_generated (composition_summary rid artifact_id composed (rt_now clock)))) (\<lambda>composition.
     bind (liftR (review casefold \<lparr>cq_analysis = ri_analysis i,
       cq_confirmed_brand_lock = bk_brand_lock (ri_confirmation i), cq_draft = draft,
       cq_composition = composition, cq_warning_codes = pr_warning_codes (ri_run i)\<rparr> (rt_reviewed clock))) (\<lambda>report.
     bind (reads (get_run rid)) (\<lambda>current.
     bind (liftR (make_revision_completed (revision_response i revised composition report current))) (\<lambda>response.
     bind (liftR (feedback_digest_of operation)) (\<lambda>digest.
     bind (complete_revision rid (op_id operation)
       (revision_record_for operation rid digest draft composition report) response) (\<lambda>_.
     return response)))))))"

text \<open>What an \<open>except\<close> clause of \<open>_execute\<close> does; \<open>saved\<close> is the local \<open>artifact_saved\<close>.\<close>

definition failure_code :: "bool \<Rightarrow> exn" where
  "failure_code retrying = RevisionServiceError (if retrying then RS_RETRY_FAILED else RS_REVISION_FAILED)"

definition answer_failure ::
  "operation_record \<Rightarrow> bool \<Rightarrow> datetime \<Rightarrow> exn \<Rightarrow> (exn, 's world, revision_completed) prog" where
  "answer_failure operation retrying failed_at e =
     (if e \<in> {IdempotencyConflictError, OperationInProgressError, RevisionLimitReachedError}
      then raise (map_repository_error e)
      else if e = InvalidRunStateError then raise (RevisionServiceError RS_INVALID_RUN_STATE)
      else if is_output_error e \<or> e = CompositionArtifactError
      then bind (on_db (catch
          (bind (fail_revision_operation (op_run_id operation) (op_id operation) CONNECTION_BEFORE_ACCEPTANCE
            (if retrying then DO_NOT_RETRY else RETRY_ONCE) failed_at) (\<lambda>_. return ()))
          (\<lambda>_. return ()))) (\<lambda>_. raise (failure_code retrying))
      else raise (failure_code retrying))"

definition on_failure ::
  "'s store_operations \<Rightarrow> operation_record \<Rightarrow> uuid \<Rightarrow> bool \<Rightarrow> datetime \<Rightarrow> bool \<Rightarrow> exn
    \<Rightarrow> (exn, 's world, revision_completed) prog" where
  "on_failure st operation artifact_id retrying failed_at saved e =
     bind (if saved then bind (on_store (st_delete st artifact_id)) (\<lambda>_. return ()) else return ()) (\<lambda>_.
     answer_failure operation retrying failed_at e)"

text \<open>\<open>try\<close> with the flag that the first part ended.\<close>

definition try_parts ::
  "('e, 's, 'a) prog \<Rightarrow> ('a \<Rightarrow> ('e, 's, 'b) prog) \<Rightarrow> (bool \<Rightarrow> 'e \<Rightarrow> ('e, 's, 'b) prog) \<Rightarrow> ('e, 's, 'b) prog" where
  "try_parts m f h w = (case m w of
     (Inl e, w') \<Rightarrow> h False e w'
   | (Inr a, w') \<Rightarrow> catch (f a) (h True) w')"

definition execute_revision ::
  "('i, 'f) studio \<Rightarrow> (pystr \<Rightarrow> pystr) \<Rightarrow> 's store_operations \<Rightarrow> (db \<Rightarrow> db) \<Rightarrow> uuid \<Rightarrow> revision_clock
    \<Rightarrow> operation_record \<Rightarrow> bool \<Rightarrow> (exn, 's world, revision_completed) prog" where
  "execute_revision sd casefold st other artifact_id clock operation retrying =
     try_parts (prepare_revision sd st operation artifact_id (rt_now clock))
       (\<lambda>p. bind (between other) (\<lambda>_. on_db (finish_revision casefold operation artifact_id clock p)))
       (on_failure st operation artifact_id retrying (rt_failed clock))"

subsection \<open>The two requests\<close>

definition submit_feedback ::
  "('i, 'f) studio \<Rightarrow> (pystr \<Rightarrow> pystr) \<Rightarrow> (datetime \<Rightarrow> pystr) \<Rightarrow> 's store_operations \<Rightarrow> (db \<Rightarrow> db) \<Rightarrow> uuid
    \<Rightarrow> revision_clock \<Rightarrow> feedback_request \<Rightarrow> pystr \<Rightarrow> (exn, 's world, revision_completed) prog" where
  "submit_feedback sd casefold time_text st other artifact_id clock request key =
     bind (liftR (key_digest key)) (\<lambda>kd.
     bind (liftR (fingerprint (feedback_json time_text request))) (\<lambda>fp.
     bind (liftR (digest_text (fb_feedback request))) (\<lambda>feedback.
     bind (on_db (map_claim_errors (claim_feedback_operation (fb_run_id request) kd fp
       (fb_requested_changes request) feedback (rt_claimed clock)))) (\<lambda>operation.
     case (op_state operation, op_public_response operation) of
       (OP_SUCCEEDED, Some response) \<Rightarrow> return response
     | _ \<Rightarrow> execute_revision sd casefold st other artifact_id clock operation False))))"

definition retry_revision ::
  "('i, 'f) studio \<Rightarrow> (pystr \<Rightarrow> pystr) \<Rightarrow> 's store_operations \<Rightarrow> (db \<Rightarrow> db) \<Rightarrow> uuid
    \<Rightarrow> revision_clock \<Rightarrow> retry_request \<Rightarrow> pystr \<Rightarrow> (exn, 's world, revision_completed) prog" where
  "retry_revision sd casefold st other artifact_id clock request key =
     bind (liftR (key_digest key)) (\<lambda>kd.
     bind (liftR (fingerprint (retry_json request))) (\<lambda>fp.
     bind (on_db (map_claim_errors (claim_retry_operation (rq_run_id request) kd fp (rt_claimed clock)))) (\<lambda>operation.
     case (op_state operation, op_public_response operation) of
       (OP_SUCCEEDED, Some response) \<Rightarrow> return response
     | _ \<Rightarrow>
       (case (op_retry_condition operation, op_retry_action operation) of
          (Some condition, Some action) \<Rightarrow>
            bind (on_db (reads (get_run (rq_run_id request)))) (\<lambda>run.
            bind (liftR (decide_retry condition (pr_technical_attempt_count run - 1) None)) (\<lambda>decision.
            if rd_action decision \<noteq> action \<or> rd_action decision \<notin> retryable_actions
            then raise (RevisionServiceError RS_INVALID_RUN_STATE)
            else execute_revision sd casefold st other artifact_id clock operation True))
        | _ \<Rightarrow> raise (RevisionServiceError RS_INVALID_RUN_STATE)))))"


subsection \<open>The repository's part\<close>

lemma fetch_inserted:
  assumes "insert_operation row d = (Inr oid, d1)" "ids_ok d" "db_operations d2 = db_operations d1"
  shows "fetch_operation oid d2 = (Inr (operation_record_of (row\<lparr>ow_id := oid\<rparr>)), d2)"
    "in_progress_operation (ow_run_id row) oid (ow_kind row) d2"
proof -
  have ops: "db_operations d2 = db_operations d @ [row\<lparr>ow_id := oid\<rparr>]" "oid = db_operation_seq d + 1"
    using assms(1,3) by (auto simp: insert_operation_def Let_def split: if_splits)
  have "\<forall>w \<in> set ws. ow_id w \<noteq> oid \<Longrightarrow> List.find (\<lambda>w. ow_id w = oid) (ws @ [row\<lparr>ow_id := oid\<rparr>]) =
      Some (row\<lparr>ow_id := oid\<rparr>)" for ws
    by (induction ws) simp_all
  then show "fetch_operation oid d2 = (Inr (operation_record_of (row\<lparr>ow_id := oid\<rparr>)), d2)"
    using assms(2) ops by (force simp: fetch_operation_def select_operation_def ids_ok_def)
  show "in_progress_operation (ow_run_id row) oid (ow_kind row) d2"
    using ops by (simp add: in_progress_operation_def)
qed

lemma insert_new_operation:
  assumes "select_operation (\<lambda>w. is_operation (ow_run_id row) (ow_kind row) w \<and> ow_key_digest w = ow_key_digest row) d = None"
  shows "insert_operation row d = (Inr (db_operation_seq d + 1),
    d\<lparr>db_operations := db_operations d @ [row\<lparr>ow_id := db_operation_seq d + 1\<rparr>],
      db_operation_seq := db_operation_seq d + 1\<rparr>)"
  using assms by (auto simp: insert_operation_def Let_def select_operation_None is_operation_def list_ex_iff
      same_operation_key_def)

text \<open>The two claims as functions of the tables.\<close>

definition claimed_feedback :: "uuid \<Rightarrow> pystr \<Rightarrow> pystr \<Rightarrow> revision_change list \<Rightarrow> pystr \<Rightarrow> datetime \<Rightarrow> db \<Rightarrow> db" where
  "claimed_feedback rid key fp cs digest t d = d\<lparr>
     db_operations := db_operations d @ [feedback_operation_row (db_operation_seq d + 1) rid key fp cs digest t],
     db_operation_seq := db_operation_seq d + 1,
     db_runs := (case db_runs d rid of None \<Rightarrow> db_runs d
       | Some r \<Rightarrow> (db_runs d)(rid \<mapsto> set_status IN_PROGRESS t r))\<rparr>"

lemma claim_feedback_eq:
  assumes "ids_ok d"
  shows "claim_feedback_operation rid key fp cs digest t d =
    (case select_operation (\<lambda>w. is_operation rid FEEDBACK w \<and> ow_key_digest w = key) d of
       Some w \<Rightarrow> (if ow_fingerprint w \<noteq> fp then Inl IdempotencyConflictError
         else if ow_state w = OP_SUCCEEDED then Inr (operation_record_of w) else Inl OperationInProgressError, d)
     | None \<Rightarrow>
         if db_revisions d rid \<noteq> None then (Inl RevisionLimitReachedError, d)
         else if \<not> no_open_operation rid FEEDBACK d then (Inl OperationInProgressError, d)
         else if db_runs d rid = None then (Inl ProjectRunNotFoundError, d)
         else if map_option rr_status (db_runs d rid) \<noteq> Some READY then (Inl InvalidRunStateError, d)
         else (Inr (operation_record_of (feedback_operation_row (db_operation_seq d + 1) rid key fp cs digest t)),
           claimed_feedback rid key fp cs digest t d))"
proof (cases "select_operation (\<lambda>w. is_operation rid FEEDBACK w \<and> ow_key_digest w = key) d")
  case (Some w)
  then show ?thesis
    by (simp add: claim_feedback_operation_def connect_def)
next
  case None
  let ?row = "feedback_operation_row 0 rid key fp cs digest t"
  have open_row: "select_operation (\<lambda>w. is_operation rid FEEDBACK w \<and> ow_state w = OP_IN_PROGRESS) d \<noteq> None
      \<longleftrightarrow> \<not> no_open_operation rid FEEDBACK d"
    by (auto simp: no_open_operation_def select_operation_def find_None_iff)
  have inserted: "insert_operation ?row d = (Inr (db_operation_seq d + 1),
    d\<lparr>db_operations := db_operations d @ [?row\<lparr>ow_id := db_operation_seq d + 1\<rparr>],
      db_operation_seq := db_operation_seq d + 1\<rparr>)"
    using insert_new_operation[of ?row d] None by (simp add: feedback_operation_row_def)
  have fetched: "fetch_operation (db_operation_seq d + 1) d2 = (Inr (operation_record_of
      (feedback_operation_row (db_operation_seq d + 1) rid key fp cs digest t)), d2)"
    if "db_operations d2 = db_operations d @ [?row\<lparr>ow_id := db_operation_seq d + 1\<rparr>]" for d2
    using fetch_inserted(1)[OF inserted assms, of d2] that by (simp add: feedback_operation_row_def)
  show ?thesis
  proof (cases "db_revisions d rid = None \<and> no_open_operation rid FEEDBACK d
      \<and> map_option rr_status (db_runs d rid) = Some READY")
    case True
    then obtain r where r: "db_runs d rid = Some r" "rr_status r = READY"
      by auto
    let ?d1 = "d\<lparr>db_operations := db_operations d @ [?row\<lparr>ow_id := db_operation_seq d + 1\<rparr>],
      db_operation_seq := db_operation_seq d + 1\<rparr>"
    have "update_runs rid (\<lambda>r. rr_status r = READY) (set_status IN_PROGRESS t) ?d1
        = (Inr 1, claimed_feedback rid key fp cs digest t d)"
      using r by (simp add: update_runs_def claimed_feedback_def feedback_operation_row_def)
    moreover have "fetch_operation (db_operation_seq d + 1) (claimed_feedback rid key fp cs digest t d)
        = (Inr (operation_record_of (feedback_operation_row (db_operation_seq d + 1) rid key fp cs digest t)),
           claimed_feedback rid key fp cs digest t d)"
      by (rule fetched) (simp add: claimed_feedback_def feedback_operation_row_def)
    ultimately show ?thesis
      using None True r open_row inserted
      by (simp add: claim_feedback_operation_def connect_def bind_def feedback_operation_row_def[of 0])
  next
    case False
    then show ?thesis
      using None open_row by (auto simp: claim_feedback_operation_def connect_def split: option.split)
  qed
qed

lemma claim_feedback_Inr:
  assumes "claim_feedback_operation rid key fp cs digest t d = (Inr op, d')" "ids_ok d"
  shows "(d' = d \<and> (\<exists>w \<in> set (db_operations d). is_operation rid FEEDBACK w \<and> ow_key_digest w = key
        \<and> ow_fingerprint w = fp \<and> ow_state w = OP_SUCCEEDED \<and> op = operation_record_of w))
    \<or> (op = operation_record_of (feedback_operation_row (db_operation_seq d + 1) rid key fp cs digest t)
       \<and> d' = claimed_feedback rid key fp cs digest t d)"
  using assms(1) unfolding claim_feedback_eq[OF assms(2)]
  by (auto split: option.splits if_splits dest!: select_operation_Some)

lemma claim_feedback_Inl:
  assumes "claim_feedback_operation rid key fp cs digest t d = (Inl e, d')" "ids_ok d"
  shows "d' = d \<and> is_claim_error e"
  using assms(1) unfolding claim_feedback_eq[OF assms(2)]
  by (auto simp: is_claim_error_def split: option.splits if_splits)


definition claimed_retry :: "uuid \<Rightarrow> pystr \<Rightarrow> pystr \<Rightarrow> operation_row \<Rightarrow> datetime \<Rightarrow> db \<Rightarrow> db" where
  "claimed_retry rid key fp w t d = d\<lparr>
     db_operations := db_operations d @ [retry_operation_row (db_operation_seq d + 1) rid key fp w t],
     db_operation_seq := db_operation_seq d + 1,
     db_contexts := (case db_contexts d rid of None \<Rightarrow> db_contexts d
       | Some c \<Rightarrow> (db_contexts d)(rid \<mapsto> c\<lparr>cx_technical_attempt_count := cx_technical_attempt_count c + 1\<rparr>)),
     db_runs := (case db_runs d rid of None \<Rightarrow> db_runs d
       | Some r \<Rightarrow> (db_runs d)(rid \<mapsto> set_status IN_PROGRESS t r))\<rparr>"

definition last_failure :: "uuid \<Rightarrow> db \<Rightarrow> operation_row option" where
  "last_failure rid = select_last_operation (\<lambda>w. is_operation rid FEEDBACK w \<and> ow_state w = OP_FAILED_RETRYABLE)"

lemma claim_retry_eq:
  assumes "ids_ok d"
  shows "claim_retry_operation rid key fp t d =
    (case select_operation (\<lambda>w. is_operation rid RETRY w \<and> ow_key_digest w = key) d of
       Some w \<Rightarrow> (if ow_fingerprint w \<noteq> fp then Inl IdempotencyConflictError
         else if ow_state w = OP_SUCCEEDED then Inr (operation_record_of w) else Inl OperationInProgressError, d)
     | None \<Rightarrow>
         if db_runs d rid = None then (Inl ProjectRunNotFoundError, d)
         else if map_option rr_status (db_runs d rid) \<noteq> Some FAILED_RETRYABLE then (Inl InvalidRunStateError, d)
         else case last_failure rid d of None \<Rightarrow> (Inl InvalidRunStateError, d)
           | Some w \<Rightarrow> (Inr (operation_record_of (retry_operation_row (db_operation_seq d + 1) rid key fp w t)),
               claimed_retry rid key fp w t d))"
proof (cases "select_operation (\<lambda>w. is_operation rid RETRY w \<and> ow_key_digest w = key) d")
  case (Some w)
  then show ?thesis
    by (simp add: claim_retry_operation_def connect_def)
next
  case None
  show ?thesis
  proof (cases "map_option rr_status (db_runs d rid) = Some FAILED_RETRYABLE \<and> last_failure rid d \<noteq> None")
    case True
    then obtain r w where r: "db_runs d rid = Some r" "rr_status r = FAILED_RETRYABLE"
      "last_failure rid d = Some w"
      by auto
    let ?row = "retry_operation_row 0 rid key fp w t"
    let ?d1 = "d\<lparr>db_operations := db_operations d @ [?row\<lparr>ow_id := db_operation_seq d + 1\<rparr>],
      db_operation_seq := db_operation_seq d + 1\<rparr>"
    have inserted: "insert_operation ?row d = (Inr (db_operation_seq d + 1), ?d1)"
      using insert_new_operation[of ?row d] None by (simp add: retry_operation_row_def)
    have "\<exists>n d2. update_contexts rid (\<lambda>_. True) (\<lambda>c. c\<lparr>cx_technical_attempt_count := cx_technical_attempt_count c + 1\<rparr>) ?d1
        = (Inr n, d2) \<and> update_runs rid (\<lambda>_. True) (set_status IN_PROGRESS t) d2
        = (Inr 1, claimed_retry rid key fp w t d)"
      using r by (simp add: update_contexts_def update_runs_def claimed_retry_def retry_operation_row_def
          split: option.split)
    then obtain n d2 where steps:
      "update_contexts rid (\<lambda>_. True) (\<lambda>c. c\<lparr>cx_technical_attempt_count := cx_technical_attempt_count c + 1\<rparr>) ?d1
        = (Inr n, d2)" "update_runs rid (\<lambda>_. True) (set_status IN_PROGRESS t) d2
        = (Inr 1, claimed_retry rid key fp w t d)"
      by blast
    have "fetch_operation (db_operation_seq d + 1) (claimed_retry rid key fp w t d) =
        (Inr (operation_record_of (?row\<lparr>ow_id := db_operation_seq d + 1\<rparr>)), claimed_retry rid key fp w t d)"
      by (rule fetch_inserted(1)[OF inserted assms]) (simp add: claimed_retry_def retry_operation_row_def)
    then show ?thesis
      using None r(1,2) r(3) inserted steps
      by (simp add: claim_retry_operation_def connect_def bind_def retry_operation_row_def[of 0]
          last_failure_def[symmetric] operation_record_of_def[of w] Let_def)
        (simp add: retry_operation_row_def)
  next
    case False
    then show ?thesis
      using None by (auto simp: claim_retry_operation_def connect_def last_failure_def[symmetric] split: option.split)
  qed
qed

lemma claim_retry_Inr:
  assumes "claim_retry_operation rid key fp t d = (Inr op, d')" "ids_ok d"
  shows "(d' = d \<and> (\<exists>w \<in> set (db_operations d). is_operation rid RETRY w \<and> ow_key_digest w = key
        \<and> ow_fingerprint w = fp \<and> ow_state w = OP_SUCCEEDED \<and> op = operation_record_of w))
    \<or> (\<exists>w. op = operation_record_of (retry_operation_row (db_operation_seq d + 1) rid key fp w t)
       \<and> last_failure rid d = Some w \<and> d' = claimed_retry rid key fp w t d)"
  using assms(1) unfolding claim_retry_eq[OF assms(2)]
  by (auto split: option.splits if_splits dest!: select_operation_Some)

lemma claim_retry_Inl:
  assumes "claim_retry_operation rid key fp t d = (Inl e, d')" "ids_ok d"
  shows "d' = d \<and> is_claim_error e"
  using assms(1) unfolding claim_retry_eq[OF assms(2)]
  by (auto simp: is_claim_error_def split: option.splits if_splits)

lemma claimed_rows:
  "in_progress_operation rid (db_operation_seq d + 1) FEEDBACK (claimed_feedback rid key fp cs digest t d)"
  "in_progress_operation rid (db_operation_seq d + 1) RETRY (claimed_retry rid key fp w t d)"
  by (simp_all add: in_progress_operation_def claimed_feedback_def claimed_retry_def operation_row_defs)

text \<open>Completing a revision stores it, with its response, or changes nothing.\<close>

lemma complete_revision_outcome:
  assumes "complete_revision rid oid v response d = (r, d')"
  shows "(\<exists>e. r = Inl e \<and> d' = d)
    \<or> (r = Inr (revision_record_of rid (revision_row_of v)) \<and> get_revision rid d' = Inr (Some (revision_record_of rid (revision_row_of v)))
       \<and> (\<exists>w \<in> set (db_operations d'). ow_id w = oid \<and> ow_run_id w = rid \<and> ow_state w = OP_SUCCEEDED
           \<and> ow_public_response w = Some response))"
proof -
  define body where "body = connect (\<lambda>d. case select_operation (\<lambda>w. ow_id w = oid \<and> ow_run_id w = rid) d of
          None \<Rightarrow> raise InvalidRunStateError d
        | Some operation \<Rightarrow>
            if ow_state operation \<noteq> OP_IN_PROGRESS then raise InvalidRunStateError d
            else bind (catch (insert_revision rid (revision_row_of v))
                (\<lambda>e. if e = IntegrityError then raise RevisionLimitReachedError else raise e)) (\<lambda>_.
              bind (update_contexts rid (\<lambda>c. cx_human_revision_count c = 0)
                (\<lambda>c. c\<lparr>cx_human_revision_count := 1\<rparr>)) (\<lambda>n.
              if n \<noteq> 1 then raise RevisionLimitReachedError
              else bind (update_operations (\<lambda>w. ow_id w = oid \<and> ow_state w = OP_IN_PROGRESS)
                (succeed_operation response (re_revised_at v))) (\<lambda>_.
              bind (if ow_kind operation = RETRY
                then update_operations
                  (\<lambda>w. is_operation rid FEEDBACK w \<and> ow_state w = OP_FAILED_RETRYABLE)
                  (succeed_operation response (re_revised_at v))
                else return 0) (\<lambda>_.
              bind (update_runs rid (\<lambda>_. True) (set_status (critique_target_status (re_critique v)) (re_revised_at v))) (\<lambda>_.
              return ()))))) d)"
  obtain r1 d1 where body: "body d = (r1, d1)"
    by (cases "body d")
  have eq: "complete_revision rid oid v response = bind body (\<lambda>_. bind (reads (get_revision rid)) (\<lambda>stored.
      case stored of None \<Rightarrow> raise AssertionError | Some v \<Rightarrow> return v))"
    by (simp add: complete_revision_def body_def Let_def)
  show ?thesis
  proof (cases r1)
    case (Inl e)
    then have "d1 = d"
      using body by (auto simp: body_def connect_Inl_iff)
    then show ?thesis
      using assms body Inl by (auto simp: eq bind_def)
  next
    case (Inr u)
    then have rows: "db_revisions d rid = None" "db_revisions d1 rid = Some (revision_row_of v)"
      using body
      by (auto simp: body_def method_simps update_operations_def catch_def insert_revision_def
          split: option.splits if_splits sum.splits)
    then have final: "r = Inr (revision_record_of rid (revision_row_of v))" "d' = d1"
      using assms body Inr by (simp_all add: eq bind_def get_revision_def)
    from complete_revision_effect[OF assms] rows final(2) obtain w where w:
      "select_operation (\<lambda>w. ow_id w = oid \<and> ow_run_id w = rid) d = Some w" "ow_state w = OP_IN_PROGRESS"
      "db_operations d1 = map (\<lambda>w'. if closed_by rid oid (ow_kind w) w'
        then succeed_operation response (re_revised_at v) w' else w') (db_operations d)"
      by auto
    from w(1,2) have "w \<in> set (db_operations d)" "closed_by rid oid (ow_kind w) w" "ow_id w = oid" "ow_run_id w = rid"
      by (auto dest: select_operation_Some simp: closed_by_def)
    then have "succeed_operation response (re_revised_at v) w \<in> set (db_operations d1)"
      using w(3) by force
    then show ?thesis
      using rows(2) final \<open>ow_id w = oid\<close> \<open>ow_run_id w = rid\<close>
      by (auto simp: get_revision_def succeed_operation_def intro: bexI[rotated])
  qed
qed


subsection \<open>Running a claimed operation\<close>

text \<open>What a response of the service stands for.\<close>

definition completes_revision ::
  "('i, 'f) studio \<Rightarrow> uuid \<Rightarrow> datetime \<Rightarrow> operation_record \<Rightarrow> revision_completed \<Rightarrow> composed_ad \<Rightarrow> db \<Rightarrow> bool" where
  "completes_revision sd artifact_id now operation response a d \<longleftrightarrow>
     (let rid = op_run_id operation in rendered_by sd rid a
      \<and> valid_revision_completed response \<and> rp_run_id response = rid
      \<and> rp_composition response = composition_summary rid artifact_id a now
      \<and> (\<exists>v. get_revision rid d = Inr (Some v) \<and> re_composition v = rp_composition response
          \<and> re_critique v = rp_critique response \<and> dr_ad_copy (re_draft v) = rp_ad_copy response
          \<and> dr_brief (re_draft v) = rp_brief response
          \<and> re_requested_changes v = op_requested_changes operation)
      \<and> (\<exists>w \<in> set (db_operations d). ow_id w = op_id operation \<and> ow_run_id w = rid
          \<and> ow_state w = OP_SUCCEEDED \<and> ow_public_response w = Some response))"

lemma read_revision_inputs_id: "read_revision_inputs rid d = Inr i \<Longrightarrow> pr_id (ri_run i) = rid"
  by (auto simp: read_revision_inputs_def get_run_id split: if_splits option.splits)

lemma finish_outcome:
  assumes "finish_revision casefold operation artifact_id clock (i, revised, composed, saved) d = (r, d')"
    "pr_id (ri_run i) = op_run_id operation" "rendered_by sd (op_run_id operation) composed"
    "working_studio sd" "is_utc (rt_now clock)"
  shows "(\<exists>e. r = Inl e \<and> d' = d)
    \<or> (\<exists>v response res. complete_revision (op_run_id operation) (op_id operation) v response d = (res, d')
        \<and> r = Inr response \<and> completes_revision sd artifact_id (rt_now clock) operation response composed d')"
proof (cases r)
  case (Inl e)
  have "d' = d"
    using assms(1) Inl complete_revision_outcome
    by (fastforce simp: finish_revision_def Let_def bind_def split: if_splits sum.splits prod.splits)
  with Inl show ?thesis by blast
next
  case (Inr response)
  let ?rid = "op_run_id operation" and ?draft = "revised_draft revised (rt_now clock)"
  let ?c = "composition_summary ?rid artifact_id composed (rt_now clock)"
  obtain composition report current digest res where steps:
    "make_composition_generated ?c = Inr composition"
    "make_revision_completed (revision_response i revised composition report current) = Inr response"
    "complete_revision ?rid (op_id operation)
       (revision_record_for operation ?rid digest ?draft composition report) response d = (Inr res, d')"
    using assms(1,2) Inr
    by (auto simp: finish_revision_def Let_def bind_Inr_iff[of "complete_revision _ _ _ _"] split: if_splits sum.splits)
  from assms(3) render_ad_Inr(1)[OF assms(4) _ assms(5)] steps(1) have c: "composition = ?c"
    by (auto simp: rendered_by_def)
  from steps(2) have response: "response = revision_response i revised composition report current"
    "valid_revision_completed response"
    by (auto simp: make_revision_completed_def split: if_splits)
  show ?thesis
    using complete_revision_outcome[OF steps(3)] steps(3) Inr assms(2,3) c response
    by (intro disjI2 exI conjI)
      (auto simp: completes_revision_def Let_def revision_response_def revision_record_for_def revised_draft_def
        revision_record_of_def revision_row_of_def)
qed

text \<open>The handlers end the request with an error, close the operation or leave the tables, and remove a
  saved artifact; if the removal fails, the artifact may stay.\<close>

lemma answer_failure_outcome:
  "\<exists>code. answer_failure operation retrying t e (d, s) = (Inl (RevisionServiceError code),
     (if is_output_error e \<or> e = CompositionArtifactError
      then snd (fail_revision_operation (op_run_id operation) (op_id operation) CONNECTION_BEFORE_ACCEPTANCE
        (failure_action (if retrying then RETRY else FEEDBACK)) t d) else d, s))"
proof -
  have closing: "on_db (catch (bind m (\<lambda>_. return ())) (\<lambda>_. return ())) (d, s) = (Inr (), (snd (m d), s))"
    for m :: "(exn, db, operation_record) prog"
    by (auto simp: on_db_eq catch_def bind_def split: prod.splits sum.splits)
  have "failure_action (if retrying then RETRY else FEEDBACK) = (if retrying then DO_NOT_RETRY else RETRY_ONCE)"
    by (simp add: failure_action_def)
  moreover have "\<not> is_output_error e" if "e \<in> {IdempotencyConflictError, OperationInProgressError,
      RevisionLimitReachedError, InvalidRunStateError}"
    using that by (auto simp: is_output_error_def)
  ultimately show ?thesis
    by (auto simp: answer_failure_def closing map_repository_error_def failure_code_def bind_def)
qed

context artifact_store
begin

lemma failure_outcome:
  assumes "on_failure \<lparr>st_save = save, st_load = load, st_delete = delete\<rparr> operation artifact_id retrying t
      saved e (d, s) = (r, (d', s'))"
    "stored s0 artifact_id = None" "\<forall>b. b \<noteq> artifact_id \<longrightarrow> stored s b = stored s0 b"
    "saved \<or> stored s = stored s0"
  shows "\<exists>e'. r = Inl e' \<and> (is_store_failure e' \<and> d' = d \<and> (stored s' = stored s \<or> stored s' = stored s0)
    \<or> (\<exists>code. e' = RevisionServiceError code) \<and> stored s' = stored s0
      \<and> d' = (if is_output_error e \<or> e = CompositionArtifactError
          then snd (fail_revision_operation (op_run_id operation) (op_id operation) CONNECTION_BEFORE_ACCEPTANCE
            (failure_action (if retrying then RETRY else FEEDBACK)) t d) else d))"
proof (cases saved)
  case False
  then show ?thesis
    using answer_failure_outcome[of operation retrying t e d s] assms(1,4) by (auto simp: on_failure_def)
next
  case True
  obtain r1 s1 where del: "delete artifact_id s = (r1, s1)"
    by (cases "delete artifact_id s")
  from delete_outcome[OF del assms(2) assms(3)[rule_format]] raisesD[OF delete_raises, of artifact_id s]
  show ?thesis
    using answer_failure_outcome[of operation retrying t e d s1] assms(1) True del
    by (cases r1) (auto simp: on_failure_def bind_def on_store_eq)
qed

lemma prepare_outcome:
  assumes "working_studio sd" "is_utc now" "in_range (dt_add now (hours 24))"
    "prepare_revision sd \<lparr>st_save = save, st_load = load, st_delete = delete\<rparr> operation artifact_id now (d, s)
      = (r, (d', s'))"
  shows "d' = d \<and> (case r of
      Inl e \<Rightarrow> stored s' = stored s
    | Inr (i, revised, composed, saved) \<Rightarrow> pr_id (ri_run i) = op_run_id operation
        \<and> rendered_by sd (op_run_id operation) composed
        \<and> stored s' = (stored s)(artifact_id \<mapsto> \<lparr>la_record = artifact_record artifact_id (ca_png_bytes composed)
            (dt_add now (hours 24)), la_png_bytes = ca_png_bytes composed\<rparr>))"
proof (cases "read_revision_inputs (op_run_id operation) d")
  case (Inl e)
  then show ?thesis
    using assms(4) by (auto simp: prepare_revision_def bind_def on_db_eq)
next
  case (Inr i)
  note run = read_revision_inputs_id[OF this]
  show ?thesis
  proof (cases "bindR (revise (pr_direction (ri_run i)) (ri_draft i) (op_requested_changes operation)) (\<lambda>revised.
      bindR (render_ad sd (pr_id (ri_run i)) (pr_direction (ri_run i)) (ra_brief revised)
       (bk_brand_lock (ri_confirmation i)) (ra_ad_copy revised)) (\<lambda>composed. Inr (revised, composed)))")
    case (Inl e)
    then show ?thesis
      using assms(4) \<open>read_revision_inputs _ _ = _\<close>
      by (auto simp: prepare_revision_def bind_def on_db_eq bindR_Inl_iff)
  next
    case made: (Inr y)
    then obtain revised composed where y: "revise (pr_direction (ri_run i)) (ri_draft i)
        (op_requested_changes operation) = Inr revised"
      "render_ad sd (pr_id (ri_run i)) (pr_direction (ri_run i)) (ra_brief revised)
       (bk_brand_lock (ri_confirmation i)) (ra_ad_copy revised) = Inr composed"
      by auto
    obtain r1 s1 where step: "save artifact_id (ca_png_bytes composed) (dt_add now (hours 24)) s = (r1, s1)"
      by (cases "save artifact_id (ca_png_bytes composed) (dt_add now (hours 24)) s")
    show ?thesis
    proof (cases r1)
      case (Inl e)
      moreover have "stored s1 = stored s"
        using save_Inl step Inl by blast
      ultimately show ?thesis
        using assms(4) \<open>read_revision_inputs _ _ = _\<close> y step
        by (auto simp: prepare_revision_def bind_def on_db_eq on_store_eq)
    next
      case (Inr x)
      have "stored s1 = (stored s)(artifact_id \<mapsto> \<lparr>la_record = artifact_record artifact_id (ca_png_bytes composed)
            (dt_add now (hours 24)), la_png_bytes = ca_png_bytes composed\<rparr>)"
        using save_Inr[OF _ assms(3)] step Inr save_frame[OF step] by (intro ext) auto
      moreover have "rendered_by sd (op_run_id operation) composed"
        using y(2) run by (auto simp: rendered_by_def)
      ultimately show ?thesis
        using assms(4) \<open>read_revision_inputs _ _ = _\<close> y step Inr run
        by (auto simp: prepare_revision_def bind_def on_db_eq on_store_eq)
    qed
  qed
qed

lemma execute_outcome:
  assumes "working_studio sd" "is_utc (rt_now clock)" "in_range (dt_add (rt_now clock) (hours 24))"
    "stored s artifact_id = None" "law_abiding other" "reachable \<lparr>sys_db = d, sys_analyzing = A\<rparr>"
    "in_progress_operation (op_run_id operation) (op_id operation) (if retrying then RETRY else FEEDBACK) d"
    "execute_revision sd casefold \<lparr>st_save = save, st_load = load, st_delete = delete\<rparr> other artifact_id clock
      operation retrying (d, s) = (r, (d', s'))"
  shows "leads_to d A d' \<and> (case r of
      Inl e \<Rightarrow> stored s' = stored s \<and> (is_store_failure e \<or> (\<exists>code. e = RevisionServiceError code))
        \<or> is_store_failure e \<and> (\<exists>a. rendered_by sd (op_run_id operation) a
            \<and> stored s' = (stored s)(artifact_id \<mapsto> artifact_of artifact_id (rt_now clock) a))
    | Inr response \<Rightarrow> \<exists>a. completes_revision sd artifact_id (rt_now clock) operation response a d'
        \<and> stored s' = (stored s)(artifact_id \<mapsto> \<lparr>la_record = artifact_record artifact_id (ca_png_bytes a)
            (dt_add (rt_now clock) (hours 24)), la_png_bytes = ca_png_bytes a\<rparr>))"
proof -
  let ?st = "\<lparr>st_save = save, st_load = load, st_delete = delete\<rparr>"
  let ?kind = "if retrying then RETRY else FEEDBACK"
  let ?fail = "\<lambda>d. snd (fail_revision_operation (op_run_id operation) (op_id operation) CONNECTION_BEFORE_ACCEPTANCE
      (failure_action ?kind) (rt_failed clock) d)"
  have closed: "later \<lparr>sys_db = d, sys_analyzing = A\<rparr> \<lparr>sys_db = ?fail d1, sys_analyzing = A1\<rparr>"
    if "later \<lparr>sys_db = d, sys_analyzing = A\<rparr> \<lparr>sys_db = d1, sys_analyzing = A1\<rparr>" for d1 A1
  proof -
    have "in_progress_operation (op_run_id operation) (op_id operation) ?kind d1"
      using later_keeps_row[OF that, of "op_run_id operation" "op_id operation" ?kind] assms(7) by simp
    then show ?thesis
      by (intro later_trans[OF that] later_step[OF Fail_Revision[OF _ surjective_pairing]])
  qed
  obtain r1 d1 s1 where prep: "prepare_revision sd ?st operation artifact_id (rt_now clock) (d, s) = (r1, (d1, s1))"
    by (metis prod_cases3)
  note prepared = prepare_outcome[OF assms(1-3) prep]
  show ?thesis
  proof (cases r1)
    case (Inl e)
    have handler: "on_failure ?st operation artifact_id retrying (rt_failed clock) False e (d, s1) = (r, (d', s'))"
      using assms(8) prep Inl prepared by (simp add: execute_revision_def try_parts_def)
    have "\<forall>b. b \<noteq> artifact_id \<longrightarrow> stored s1 b = stored s b" "False \<or> stored s1 = stored s"
      using prepared Inl by auto
    from failure_outcome[OF handler assms(4) this] prepared Inl obtain e' where
      "r = Inl e'" "is_store_failure e' \<and> d' = d \<and> stored s' = stored s
        \<or> (\<exists>code. e' = RevisionServiceError code) \<and> stored s' = stored s \<and> d' \<in> {?fail d, d}"
      by (auto split: if_splits)
    then show ?thesis
      using closed[OF later_refl] by (auto simp: leads_to_def intro: later_refl)
  next
    case (Inr y)
    obtain i revised composed saved where y: "y = (i, revised, composed, saved)"
      by (cases y)
    obtain A1 where other: "later \<lparr>sys_db = d, sys_analyzing = A\<rparr> \<lparr>sys_db = other d, sys_analyzing = A1\<rparr>"
      using law_abidingD[OF assms(5,6)] by blast
    obtain r2 d2 where finish: "finish_revision casefold operation artifact_id clock y (other d) = (r2, d2)"
      by (cases "finish_revision casefold operation artifact_id clock y (other d)")
    have facts: "d1 = d" "pr_id (ri_run i) = op_run_id operation" "rendered_by sd (op_run_id operation) composed"
      "stored s1 = (stored s)(artifact_id \<mapsto> \<lparr>la_record = artifact_record artifact_id (ca_png_bytes composed)
            (dt_add (rt_now clock) (hours 24)), la_png_bytes = ca_png_bytes composed\<rparr>)"
      using prepared Inr y by auto
    note finished = finish_outcome[OF finish[unfolded y] facts(2,3) assms(1,2)]
    show ?thesis
    proof (cases r2)
      case (Inl e)
      then have same: "d2 = other d"
        using finished by auto
      have handler: "on_failure ?st operation artifact_id retrying (rt_failed clock) True e (other d, s1) = (r, (d', s'))"
        using assms(8) prep Inr Inl facts(1) finish same
        by (simp add: execute_revision_def try_parts_def catch_def bind_def on_db_eq)
      have "\<forall>b. b \<noteq> artifact_id \<longrightarrow> stored s1 b = stored s b" "True \<or> stored s1 = stored s"
        using facts(4) by auto
      from failure_outcome[OF handler assms(4) this] obtain e' where
        "r = Inl e'" "is_store_failure e' \<and> d' = other d \<and> (stored s' = stored s1 \<or> stored s' = stored s)
          \<or> (\<exists>code. e' = RevisionServiceError code) \<and> stored s' = stored s \<and> d' \<in> {?fail (other d), other d}"
        by (auto split: if_splits)
      then show ?thesis
        using closed[OF other] other facts(3,4) by (auto simp: leads_to_def)
    next
      case response: (Inr response)
      then obtain v res where completed:
        "complete_revision (op_run_id operation) (op_id operation) v response (other d) = (res, d2)"
        "completes_revision sd artifact_id (rt_now clock) operation response composed d2"
        using finished by auto
      have "r = Inr response" "d' = d2" "s' = s1"
        using assms(8) prep Inr response facts(1) finish
        by (simp_all add: execute_revision_def try_parts_def catch_def bind_def on_db_eq)
      moreover have "leads_to d A d2"
        using later_trans[OF other later_step[OF Complete_Revision[OF completed(1)]]] by (auto simp: leads_to_def)
      ultimately show ?thesis
        using completed(2) facts(4) by auto
    qed
  qed
qed

end


subsection \<open>Both requests\<close>

lemma map_claim_errors_eq: "map_claim_errors m d =
    (case m d of (Inl e, d') \<Rightarrow> (Inl (if is_claim_error e then map_repository_error e else e), d') | (Inr a, d') \<Rightarrow> (Inr a, d'))"
  by (simp add: map_claim_errors_def catch_def split: prod.split sum.split)

text \<open>The response of a finished operation that the same key and the same request made.\<close>

definition recorded_response ::
  "operation_kind \<Rightarrow> uuid \<Rightarrow> pystr \<Rightarrow> json \<Rightarrow> revision_completed \<Rightarrow> db \<Rightarrow> bool" where
  "recorded_response kind rid key j response d \<longleftrightarrow> (\<exists>w \<in> set (db_operations d). is_operation rid kind w
     \<and> key_digest key = Inr (ow_key_digest w) \<and> fingerprint j = Inr (ow_fingerprint w)
     \<and> ow_state w = OP_SUCCEEDED \<and> ow_public_response w = Some response)"

lemma digest_text_error: "digest_text v = Inl e \<Longrightarrow> e = ValueError"
  by (auto simp: digest_text_def encode_utf8_def bindR_Inl_iff split: if_splits)

lemma key_digest_error: "key_digest key = Inl e \<Longrightarrow> e = ValueError \<or> e = RevisionServiceError RS_INVALID_REVISION_REQUEST"
  by (auto simp: key_digest_def dest: digest_text_error split: if_splits)

lemma reachable_ids: "reachable \<lparr>sys_db = d, sys_analyzing = A\<rparr> \<Longrightarrow> ids_ok d"
  using reachable_inv by (fastforce simp: lifecycle_inv_def)

lemma leads_to_trans: "leads_to d A d1 \<Longrightarrow> (\<And>A1. leads_to d1 A1 d2) \<Longrightarrow> leads_to d A d2"
  unfolding leads_to_def by (meson later_trans)

context artifact_store
begin

lemma submit_outcome:
  assumes "working_studio sd" "is_utc (rt_now clock)" "in_range (dt_add (rt_now clock) (hours 24))"
    "stored s artifact_id = None" "law_abiding other" "reachable \<lparr>sys_db = d, sys_analyzing = A\<rparr>"
    "submit_feedback sd casefold time_text \<lparr>st_save = save, st_load = load, st_delete = delete\<rparr> other artifact_id
      clock request key (d, s) = (r, (d', s'))"
  shows "leads_to d A d' \<and> (case r of
      Inl e \<Rightarrow> stored s' = stored s \<and> (is_store_failure e \<or> e = ValueError \<or> (\<exists>code. e = RevisionServiceError code))
        \<or> is_store_failure e \<and> (\<exists>a. rendered_by sd (fb_run_id request) a
            \<and> stored s' = (stored s)(artifact_id \<mapsto> artifact_of artifact_id (rt_now clock) a))
    | Inr response \<Rightarrow>
        d' = d \<and> s' = s \<and> recorded_response FEEDBACK (fb_run_id request) key (feedback_json time_text request) response d
        \<or> (\<exists>operation a. op_run_id operation = fb_run_id request
            \<and> op_requested_changes operation = fb_requested_changes request
            \<and> completes_revision sd artifact_id (rt_now clock) operation response a d'
            \<and> stored s' = (stored s)(artifact_id \<mapsto> \<lparr>la_record = artifact_record artifact_id (ca_png_bytes a)
                (dt_add (rt_now clock) (hours 24)), la_png_bytes = ca_png_bytes a\<rparr>)))"
proof -
  let ?st = "\<lparr>st_save = save, st_load = load, st_delete = delete\<rparr>"
  let ?rid = "fb_run_id request"
  have early: ?thesis if "r = Inl e" "d' = d" "s' = s" "e = ValueError \<or> (\<exists>code. e = RevisionServiceError code)" for e
    using that by auto
  show ?thesis
  proof (cases "bindR (key_digest key) (\<lambda>kd. bindR (fingerprint (feedback_json time_text request)) (\<lambda>fp.
      bindR (digest_text (fb_feedback request)) (\<lambda>feedback. Inr (kd, fp, feedback))))")
    case (Inl e)
    then have "e = ValueError \<or> (\<exists>code. e = RevisionServiceError code)"
      by (auto simp: bindR_Inl_iff fingerprint_def dest!: key_digest_error digest_text_error)
    with Inl show ?thesis
      using assms(7) by (intro early[of e]) (auto simp: submit_feedback_def bindR_Inl_iff)
  next
    case (Inr x)
    then obtain kd fp fb where digests: "key_digest key = Inr kd" "fingerprint (feedback_json time_text request) = Inr fp"
      "digest_text (fb_feedback request) = Inr fb"
      by auto
    obtain res d1 where claim: "claim_feedback_operation ?rid kd fp (fb_requested_changes request) fb (rt_claimed clock) d
        = (res, d1)"
      by (cases "claim_feedback_operation ?rid kd fp (fb_requested_changes request) fb (rt_claimed clock) d")
    note ids = reachable_ids[OF assms(6)]
    show ?thesis
    proof (cases res)
      case (Inl e)
      then show ?thesis
        using assms(7) digests claim claim_feedback_Inl[OF claim[unfolded Inl] ids]
        by (intro early[of "map_repository_error e"])
          (auto simp: submit_feedback_def bind_def on_db_eq map_claim_errors_eq map_repository_error_def)
    next
      case (Inr operation)
      have run: "submit_feedback sd casefold time_text ?st other artifact_id clock request key (d, s) =
          (case (op_state operation, op_public_response operation) of
            (OP_SUCCEEDED, Some response) \<Rightarrow> return response
          | _ \<Rightarrow> execute_revision sd casefold ?st other artifact_id clock operation False) (d1, s)"
        using digests claim Inr by (simp add: submit_feedback_def bind_def on_db_eq map_claim_errors_eq)
      from claim_feedback_Inr[OF claim[unfolded Inr] ids] show ?thesis
      proof (elim disjE conjE bexE)
        fix w assume w: "d1 = d" "w \<in> set (db_operations d)" "is_operation ?rid FEEDBACK w" "ow_key_digest w = kd"
          "ow_fingerprint w = fp" "ow_state w = OP_SUCCEEDED" "operation = operation_record_of w"
        then obtain response where "ow_public_response w = Some response"
          using reachable_responses[OF assms(6)] by (auto simp: responses_kept_def)
        then show ?thesis
          using assms(7) run w digests by (auto simp: operation_record_of_def recorded_response_def)
      next
        assume new: "operation = operation_record_of (feedback_operation_row (db_operation_seq d + 1) ?rid kd fp
            (fb_requested_changes request) fb (rt_claimed clock))"
          "d1 = claimed_feedback ?rid kd fp (fb_requested_changes request) fb (rt_claimed clock) d"
        then have op: "op_state operation = OP_IN_PROGRESS" "op_run_id operation = ?rid"
          "op_id operation = db_operation_seq d + 1" "op_requested_changes operation = fb_requested_changes request"
          by (simp_all add: operation_record_of_def feedback_operation_row_def)
        have first: "step \<lparr>sys_db = d, sys_analyzing = A\<rparr> ?rid \<lparr>sys_db = d1, sys_analyzing = A\<rparr>"
          using Claim_Feedback[OF claim] .
        have row: "in_progress_operation (op_run_id operation) (op_id operation) (if False then RETRY else FEEDBACK) d1"
          using claimed_rows(1) op new(2) by simp
        have "execute_revision sd casefold ?st other artifact_id clock operation False (d1, s) = (r, (d', s'))"
          using assms(7) run op(1) by simp
        from execute_outcome[OF assms(1-5) reachable.step[OF assms(6) first] row this] later_step[OF first] op(2,4)
        show ?thesis
          by (cases r) (auto simp: leads_to_def intro: later_trans)
      qed
    qed
  qed
qed

lemma retry_outcome:
  assumes "working_studio sd" "is_utc (rt_now clock)" "in_range (dt_add (rt_now clock) (hours 24))"
    "stored s artifact_id = None" "law_abiding other" "reachable \<lparr>sys_db = d, sys_analyzing = A\<rparr>"
    "retry_revision sd casefold \<lparr>st_save = save, st_load = load, st_delete = delete\<rparr> other artifact_id
      clock request key (d, s) = (r, (d', s'))"
  shows "leads_to d A d' \<and> (case r of
      Inl e \<Rightarrow> stored s' = stored s
        \<or> is_store_failure e \<and> (\<exists>a. rendered_by sd (rq_run_id request) a
            \<and> stored s' = (stored s)(artifact_id \<mapsto> artifact_of artifact_id (rt_now clock) a))
    | Inr response \<Rightarrow>
        d' = d \<and> s' = s \<and> recorded_response RETRY (rq_run_id request) key (retry_json request) response d
        \<or> (\<exists>operation a w. op_run_id operation = rq_run_id request
            \<and> last_failure (rq_run_id request) d = Some w
            \<and> op_requested_changes operation = op_requested_changes (operation_record_of w)
            \<and> completes_revision sd artifact_id (rt_now clock) operation response a d'
            \<and> stored s' = (stored s)(artifact_id \<mapsto> \<lparr>la_record = artifact_record artifact_id (ca_png_bytes a)
                (dt_add (rt_now clock) (hours 24)), la_png_bytes = ca_png_bytes a\<rparr>)))"
proof -
  let ?st = "\<lparr>st_save = save, st_load = load, st_delete = delete\<rparr>"
  let ?rid = "rq_run_id request"
  show ?thesis
  proof (cases "bindR (key_digest key) (\<lambda>kd. bindR (fingerprint (retry_json request)) (\<lambda>fp. Inr (kd, fp)))")
    case (Inl e)
    then show ?thesis
      using assms(7) by (auto simp: retry_revision_def bindR_Inl_iff)
  next
    case (Inr x)
    then obtain kd fp where digests: "key_digest key = Inr kd" "fingerprint (retry_json request) = Inr fp"
      by auto
    obtain res d1 where claim: "claim_retry_operation ?rid kd fp (rt_claimed clock) d = (res, d1)"
      by (cases "claim_retry_operation ?rid kd fp (rt_claimed clock) d")
    note ids = reachable_ids[OF assms(6)]
    show ?thesis
    proof (cases res)
      case (Inl e)
      then show ?thesis
        using assms(7) digests claim claim_retry_Inl[OF claim[unfolded Inl] ids]
        by (auto simp: retry_revision_def bind_def on_db_eq map_claim_errors_eq)
    next
      case (Inr operation)
      have run: "retry_revision sd casefold ?st other artifact_id clock request key (d, s) =
          (case (op_state operation, op_public_response operation) of
            (OP_SUCCEEDED, Some response) \<Rightarrow> return response
          | _ \<Rightarrow> (case (op_retry_condition operation, op_retry_action operation) of
              (Some condition, Some action) \<Rightarrow>
                bind (on_db (reads (get_run ?rid))) (\<lambda>run.
                bind (liftR (decide_retry condition (pr_technical_attempt_count run - 1) None)) (\<lambda>decision.
                if rd_action decision \<noteq> action \<or> rd_action decision \<notin> retryable_actions
                then raise (RevisionServiceError RS_INVALID_RUN_STATE)
                else execute_revision sd casefold ?st other artifact_id clock operation True))
            | _ \<Rightarrow> raise (RevisionServiceError RS_INVALID_RUN_STATE))) (d1, s)"
        using digests claim Inr by (simp add: retry_revision_def bind_def on_db_eq map_claim_errors_eq)
      from claim_retry_Inr[OF claim[unfolded Inr] ids] show ?thesis
      proof (elim disjE conjE bexE exE)
        fix w assume w: "d1 = d" "w \<in> set (db_operations d)" "is_operation ?rid RETRY w" "ow_key_digest w = kd"
          "ow_fingerprint w = fp" "ow_state w = OP_SUCCEEDED" "operation = operation_record_of w"
        then obtain response where "ow_public_response w = Some response"
          using reachable_responses[OF assms(6)] by (auto simp: responses_kept_def)
        then show ?thesis
          using assms(7) run w digests by (auto simp: operation_record_of_def recorded_response_def)
      next
        fix w assume new: "operation = operation_record_of (retry_operation_row (db_operation_seq d + 1) ?rid kd fp
            w (rt_claimed clock))" "last_failure ?rid d = Some w"
          "d1 = claimed_retry ?rid kd fp w (rt_claimed clock) d"
        then have op: "op_state operation = OP_IN_PROGRESS" "op_run_id operation = ?rid"
          "op_id operation = db_operation_seq d + 1"
          "op_requested_changes operation = op_requested_changes (operation_record_of w)"
          by (simp_all add: operation_record_of_def retry_operation_row_def)
        have first: "step \<lparr>sys_db = d, sys_analyzing = A\<rparr> ?rid \<lparr>sys_db = d1, sys_analyzing = A\<rparr>"
          using Claim_Retry[OF claim] .
        have row: "in_progress_operation (op_run_id operation) (op_id operation) (if True then RETRY else FEEDBACK) d1"
          using claimed_rows(2) op new(3) by simp
        have "(\<exists>e. (r, (d', s')) = (Inl e, (d1, s)))
            \<or> execute_revision sd casefold ?st other artifact_id clock operation True (d1, s) = (r, (d', s'))"
          using assms(7) run op(1)
          by (auto simp: bind_def on_db_eq split: option.splits sum.splits if_splits)
        then show ?thesis
        proof (elim disjE exE)
          fix e assume "(r, (d', s')) = (Inl e, (d1, s))"
          then show ?thesis
            using later_step[OF first] by (auto simp: leads_to_def)
        next
          assume "execute_revision sd casefold ?st other artifact_id clock operation True (d1, s) = (r, (d', s'))"
          from execute_outcome[OF assms(1-5) reachable.step[OF assms(6) first] row this] later_step[OF first]
            op(2,4) new(2)
          show ?thesis
            by (cases r) (auto simp: leads_to_def intro: later_trans)
        qed
      qed
    qed
  qed
qed

end

end
