(* ===== verification/Composition_Export.thy ===== *)
theory Composition_Export
  imports Composition_Service
begin

section \<open>Exporting a composition\<close>

text \<open>
  The model of \<open>src/cultureshift/composition_export.py\<close>: the choice of the result version, the PNG
  with its checks against the recorded summary, and the JSON document. What Pillow says of a file
  (its format, its size, whether its pixels load) is the record \<open>image_reader\<close>; how pydantic writes a
  datetime is an argument.
\<close>

record exported_composition =
  ec_png_bytes :: bytes
  ec_sha256 :: pystr
  ec_size_bytes :: int

record image_reader =
  ir_open :: "bytes \<Rightarrow> (pystr \<times> int \<times> int) result"
  ir_load :: "bytes \<Rightarrow> unit result"

definition export_summary :: "uuid \<Rightarrow> int \<Rightarrow> db \<Rightarrow> composition_generated result" where
  "export_summary rid version d =
     (case (if version = 1 then get_composition rid d
            else if version = 2 then bindR (get_revision rid d) (\<lambda>revision.
              Inr (map_option re_composition revision))
            else Inl ValueError) of
        Inl e \<Rightarrow> Inl (if e = ProjectRunNotFoundError then CompositionExportError CE_RUN_NOT_FOUND else e)
      | Inr None \<Rightarrow> Inl (CompositionExportError CE_COMPOSITION_UNAVAILABLE)
      | Inr (Some summary) \<Rightarrow> Inr summary)"

definition read_exported ::
  "image_reader \<Rightarrow> composition_generated \<Rightarrow> loaded_artifact \<Rightarrow> exported_composition result" where
  "read_exported rd summary loaded =
     (if sa_artifact_id (la_record loaded) \<noteq> co_artifact_id summary
        \<or> sa_sha256 (la_record loaded) \<noteq> co_rendered_sha256 summary
        \<or> sa_size_bytes (la_record loaded) \<noteq> int (length (la_png_bytes loaded))
      then Inl CompositionArtifactError
      else bindR (ir_open rd (la_png_bytes loaded)) (\<lambda>(format, size).
      if format \<noteq> lit ''PNG'' \<or> size \<noteq> (co_width summary, co_height summary)
      then Inl CompositionArtifactError
      else bindR (ir_load rd (la_png_bytes loaded)) (\<lambda>_.
      Inr \<lparr>ec_png_bytes = la_png_bytes loaded, ec_sha256 = sa_sha256 (la_record loaded),
        ec_size_bytes = sa_size_bytes (la_record loaded)\<rparr>)))"

definition export_png ::
  "'s store_operations \<Rightarrow> image_reader \<Rightarrow> uuid \<Rightarrow> int \<Rightarrow> datetime \<Rightarrow> (exn, 's world, exported_composition) prog" where
  "export_png st rd rid version now =
     bind (on_db (reads (export_summary rid version))) (\<lambda>summary.
     catch
       (bind (on_store (st_load st (co_artifact_id summary) now)) (\<lambda>loaded.
        liftR (read_exported rd summary loaded)))
       (\<lambda>e. if e = CompositionArtifactError \<or> is_OSError e
         then raise (CompositionExportError CE_ARTIFACT_UNAVAILABLE) else raise e))"

subsection \<open>The document\<close>

fun layer_kind_value :: "layer_kind \<Rightarrow> pystr" where
  "layer_kind_value LAYER_BACKGROUND = lit ''background''"
| "layer_kind_value LAYER_PRODUCT_UI = lit ''product_ui''"
| "layer_kind_value LAYER_LOGO = lit ''logo''"
| "layer_kind_value LAYER_HEADLINE = lit ''headline''"
| "layer_kind_value LAYER_BODY = lit ''body''"
| "layer_kind_value LAYER_CTA = lit ''cta''"
| "layer_kind_value LAYER_DISCLOSURE = lit ''disclosure''"

definition layer_json :: "composition_layer \<Rightarrow> json" where
  "layer_json l = (case ly_bounds l of (left, upper, right, lower) \<Rightarrow> JObj
     [(lit ''bounds'', JArr [JInt left, JInt upper, JInt right, JInt lower]),
      (lit ''height'', JInt (ly_height l)),
      (lit ''kind'', JStr (layer_kind_value (ly_kind l))),
      (lit ''rgba_sha256'', JStr (ly_rgba_sha256 l)),
      (lit ''source_asset_id'', case ly_source_asset_id l of None \<Rightarrow> JNull | Some u \<Rightarrow> JStr (uuid_str u)),
      (lit ''width'', JInt (ly_width l))])"

definition composition_json :: "(datetime \<Rightarrow> pystr) \<Rightarrow> composition_generated \<Rightarrow> json" where
  "composition_json time_text c = JObj
     [(lit ''artifact_id'', JStr (uuid_str (co_artifact_id c))),
      (lit ''disclosure'', JStr (co_disclosure c)),
      (lit ''execution_mode'', JStr (lit ''fixture'')),
      (lit ''generated_at'', JStr (time_text (co_generated_at c))),
      (lit ''height'', JInt (co_height c)),
      (lit ''layers'', JArr (map layer_json (co_layers c))),
      (lit ''media_type'', JStr (co_media_type c)),
      (lit ''rendered_sha256'', JStr (co_rendered_sha256 c)),
      (lit ''run_id'', JStr (uuid_str (co_run_id c))),
      (lit ''status'', JStr (lit ''in_progress'')),
      (lit ''width'', JInt (co_width c))]"

definition export_json ::
  "(datetime \<Rightarrow> pystr) \<Rightarrow> uuid \<Rightarrow> int \<Rightarrow> db \<Rightarrow> bytes result" where
  "export_json time_text rid version d =
     bindR (export_summary rid version d) (\<lambda>summary.
     bindR (encode_utf8 (dumps False (composition_json time_text summary))) (\<lambda>data.
     Inr (data @ [10])))"

subsection \<open>Exports agree with the record\<close>

definition reader_errors :: "image_reader \<Rightarrow> bool" where
  "reader_errors rd \<longleftrightarrow> (\<forall>d e. ir_open rd d = Inl e \<longrightarrow> is_OSError e) \<and> (\<forall>d e. ir_load rd d = Inl e \<longrightarrow> is_OSError e)"

lemma export_summary_error:
  "export_summary rid version d = Inl e \<Longrightarrow>
     (\<exists>code. e = CompositionExportError code) \<or> (version \<noteq> 1 \<and> version \<noteq> 2 \<and> e = ValueError)"
  by (auto simp: export_summary_def get_composition_def get_context_def get_revision_def
      split: sum.splits option.splits if_splits)

text \<open>An unknown run is found out for the first version only.\<close>

lemma unknown_run_export:
  assumes "db_contexts d rid = None" "db_revisions d rid = None"
  shows "export_summary rid 1 d = Inl (CompositionExportError CE_RUN_NOT_FOUND)"
    "export_summary rid 2 d = Inl (CompositionExportError CE_COMPOSITION_UNAVAILABLE)"
  using assms by (simp_all add: export_summary_def get_composition_def get_context_def get_revision_def)

context artifact_store
begin

lemma export_png_outcome:
  assumes "reader_errors rd"
    "export_png \<lparr>st_save = save, st_load = load, st_delete = delete\<rparr> rd rid version now (d, s) = (r, (d', s'))"
  shows "d' = d \<and> stored s' = stored s \<and> (case r of
      Inr x \<Rightarrow> \<exists>summary t. export_summary rid version d = Inr summary
        \<and> ec_sha256 x = co_rendered_sha256 summary \<and> ec_sha256 x = sha256_hex (ec_png_bytes x)
        \<and> ec_size_bytes x = int (length (ec_png_bytes x)) \<and> ir_load rd (ec_png_bytes x) = Inr ()
        \<and> ir_open rd (ec_png_bytes x) = Inr (lit ''PNG'', co_width summary, co_height summary)
        \<and> stored s (co_artifact_id summary) = Some \<lparr>la_record = artifact_record (co_artifact_id summary)
            (ec_png_bytes x) t, la_png_bytes = ec_png_bytes x\<rparr> \<and> instant now < instant t
    | Inl e \<Rightarrow> (\<exists>code. e = CompositionExportError code) \<or> is_store_failure e \<and> \<not> is_OSError e
        \<or> (version \<noteq> 1 \<and> version \<noteq> 2 \<and> e = ValueError))"
proof (cases "export_summary rid version d")
  case (Inl e)
  then show ?thesis
    using assms(2) export_summary_error[OF Inl] by (auto simp: export_png_def on_db_eq bind_def)
next
  case summary: (Inr summary)
  obtain r1 s1 where step: "load (co_artifact_id summary) now s = (r1, s1)"
    by (cases "load (co_artifact_id summary) now s")
  note frame = load_frame[OF step]
  show ?thesis
  proof (cases r1)
    case (Inl e)
    then have "unavailable_or_failure e"
      using raisesD[OF load_raises] step by blast
    then show ?thesis
      using assms(2) summary step Inl frame
      by (auto simp: export_png_def on_db_eq on_store_eq bind_def catch_def split: if_splits)
  next
    case (Inr l)
    have loaded: "stored s (co_artifact_id summary) = Some l" "instant now < instant (sa_expires_at (la_record l))"
      using load_Inr step Inr by blast+
    note intact = stored_intact[OF loaded(1)]
    show ?thesis
    proof (cases "read_exported rd summary l")
      case (Inl e)
      then have "e = CompositionArtifactError \<or> is_OSError e"
        using assms(1) by (auto simp: read_exported_def bindR_Inl_iff reader_errors_def split: if_splits)
      then show ?thesis
        using assms(2) summary step Inr Inl frame
        by (auto simp: export_png_def on_db_eq on_store_eq bind_def catch_def)
    next
      case read: (Inr x)
      have x: "ec_png_bytes x = la_png_bytes l" "ec_sha256 x = sa_sha256 (la_record l)"
        "ec_size_bytes x = sa_size_bytes (la_record l)" "sa_sha256 (la_record l) = co_rendered_sha256 summary"
        "ir_open rd (la_png_bytes l) = Inr (lit ''PNG'', co_width summary, co_height summary)"
        "ir_load rd (la_png_bytes l) = Inr ()"
        using read by (auto simp: read_exported_def split: if_splits)
      have out: "r = Inr x" "d' = d" "stored s' = stored s"
        using assms(2) summary step Inr read frame
        by (auto simp: export_png_def on_db_eq on_store_eq bind_def catch_def)
      have record_fields: "sa_sha256 (la_record l) = sha256_hex (la_png_bytes l)"
        "sa_size_bytes (la_record l) = int (length (la_png_bytes l))"
        by (subst intact, simp add: artifact_record_def)+
      have "stored s (co_artifact_id summary) = Some \<lparr>la_record = artifact_record (co_artifact_id summary)
          (ec_png_bytes x) (sa_expires_at (la_record l)), la_png_bytes = ec_png_bytes x\<rparr>"
        using loaded(1) intact x(1) by (cases l) simp
      then show ?thesis
        using out x record_fields loaded(2) summary by auto
    qed
  qed
qed

end

text \<open>
  An exported PNG is the one on record: when the export answers, the bytes have the digest and the
  size it reports, the digest is the one the chosen version's summary recorded, the file is a PNG of
  the summary's size whose pixels load, and its artifact had not expired. Otherwise the error is one of
  the service's three, except that a document with a broken identifier and a version other than 1 or 2
  are not translated. Exporting changes neither store.
\<close>

theorem exported_png_is_on_record:
  assumes "reader_errors rd"
  shows "case export_png (disk_operations m) rd rid version now (d, s) of (r, (d', s')) \<Rightarrow>
    d' = d \<and> stored_at m s' = stored_at m s \<and> (case r of
      Inr x \<Rightarrow> \<exists>summary t. export_summary rid version d = Inr summary
        \<and> ec_sha256 x = co_rendered_sha256 summary \<and> ec_sha256 x = sha256_hex (ec_png_bytes x)
        \<and> ec_size_bytes x = int (length (ec_png_bytes x)) \<and> ir_load rd (ec_png_bytes x) = Inr ()
        \<and> ir_open rd (ec_png_bytes x) = Inr (lit ''PNG'', co_width summary, co_height summary)
        \<and> stored_at m s (co_artifact_id summary) = Some \<lparr>la_record = artifact_record (co_artifact_id summary)
            (ec_png_bytes x) t, la_png_bytes = ec_png_bytes x\<rparr> \<and> instant now < instant t
    | Inl e \<Rightarrow> (\<exists>code. e = CompositionExportError code) \<or> is_store_failure e \<and> \<not> is_OSError e
        \<or> (version \<noteq> 1 \<and> version \<noteq> 2 \<and> e = ValueError))"
proof -
  obtain r d' s' where run: "export_png (disk_operations m) rd rid version now (d, s) = (r, (d', s'))"
    by (metis prod.exhaust)
  show ?thesis
    using disk_store.export_png_outcome[OF assms run[unfolded disk_operations_def]]
    unfolding run by simp
qed

subsection \<open>From the generation to the export\<close>

text \<open>Pillow reads back the format and the size of what it wrote, and pasting keeps the canvas.\<close>

definition reader_laws :: "('i, 'f) pillow \<Rightarrow> image_reader \<Rightarrow> bool" where
  "reader_laws pil rd \<longleftrightarrow> reader_errors rd
     \<and> (\<forall>i. ir_open rd (pl_encode_png pil i) = Inr (lit ''PNG'', pl_size pil i))
     \<and> (\<forall>i. ir_load rd (pl_encode_png pil i) = Inr ())
     \<and> (\<forall>i xy out. pl_size pil (pl_alpha_composite pil i xy out) = pl_size pil out)"

lemma composite_layers_size:
  assumes "reader_laws pil rd"
  shows "composite_layers pil ls out = Inr res \<Longrightarrow> pl_size pil res = pl_size pil out"
proof (induction ls arbitrary: out)
  case (Cons l ls)
  obtain left upper right lower where "ly_bounds (rl_evidence l) = (left, upper, right, lower)"
    by (cases "ly_bounds (rl_evidence l)")
  then obtain img where
    "composite_layers pil ls (pl_alpha_composite pil img (left, upper) out) = Inr res"
    using Cons.prems by auto
  from Cons.IH[OF this] show ?case
    using assms by (simp add: reader_laws_def)
qed simp

lemma compose_png:
  assumes "imaging_laws pil" "reader_laws pil rd" "compose pil pinned q = Inr a"
  shows "ir_open rd (ca_png_bytes a) = Inr (lit ''PNG'', 1600, 900)" "ir_load rd (ca_png_bytes a) = Inr ()"
proof -
  obtain ls out where "composite_layers pil ls (pl_new_rgba pil (1600, 900)) = Inr out"
    "ca_png_bytes a = pl_encode_png pil out"
    using assms(3) by (auto simp: compose_def Let_def simp del: mapR.simps composite_layers.simps)
  moreover from this have "pl_size pil out = (1600, 900)"
    using composite_layers_size[OF assms(2)] imaging_lawsD(6)[OF assms(1)] by fastforce
  ultimately show "ir_open rd (ca_png_bytes a) = Inr (lit ''PNG'', 1600, 900)" "ir_load rd (ca_png_bytes a) = Inr ()"
    using assms(2) by (auto simp: reader_laws_def)
qed

lemma rendered_png:
  assumes "working_studio sd" "reader_laws (sd_pillow sd) rd" "rendered_by sd rid a"
  shows "ir_open rd (ca_png_bytes a) = Inr (lit ''PNG'', 1600, 900)" "ir_load rd (ca_png_bytes a) = Inr ()"
  using assms compose_png[of "sd_pillow sd" rd "sd_pinned sd" _ a]
  by (auto simp: working_studio_def rendered_by_def render_ad_def)

text \<open>
  C27. What was generated can be downloaded: after a generation that added its artifact, any later
  steps of the repository for any run, and any calls on other artifacts, the export of version 1 on a
  disk that has stopped failing answers the rendered bytes with the digest of the summary while the
  artifact lives, and \<open>composition_artifact_unavailable\<close> once the day is over.
\<close>

theorem generated_composition_exports:
  assumes "working_studio sd" "reader_laws (sd_pillow sd) rd" "is_utc now" "in_range (dt_add now (hours 24))"
    "stored_at m s artifact_id = None"
    "generate_composition sd (disk_operations m) other rid artifact_id now (d, s) = (Inr c, (d1, s1))"
    "stored_at m s1 artifact_id \<noteq> None"
    "reachable \<lparr>sys_db = d1, sys_analyzing = A\<rparr>" "execution step \<lparr>sys_db = d1, sys_analyzing = A\<rparr> t"
    "\<forall>x \<in> set cs. call_subject x \<noteq> artifact_id"
    "s2 = fold (after_call (save_artifact m) (load_artifact m) delete_artifact) cs s1"
    "dk_verdicts s2 = []" "is_utc later"
  shows "\<exists>png. co_rendered_sha256 c = sha256_hex png \<and> co_artifact_id c = artifact_id \<and>
    export_png (disk_operations m) rd rid 1 later (sys_db (final_state \<lparr>sys_db = d1, sys_analyzing = A\<rparr> t), s2) =
      (if instant later < instant now + hours 24
       then Inr \<lparr>ec_png_bytes = png, ec_sha256 = sha256_hex png, ec_size_bytes = int (length png)\<rparr>
       else Inl (CompositionExportError CE_ARTIFACT_UNAVAILABLE),
       (sys_db (final_state \<lparr>sys_db = d1, sys_analyzing = A\<rparr> t), s2))"
proof -
  let ?d2 = "sys_db (final_state \<lparr>sys_db = d1, sys_analyzing = A\<rparr> t)"
  from disk_store.generate_outcome[OF assms(1,3-5) assms(6)[unfolded disk_operations_def]] assms(5,7)
  obtain a where a: "get_composition rid d1 = Inr (Some c)" "rendered_by sd rid a"
    "c = composition_summary rid artifact_id a now"
    "stored_at m s1 artifact_id = Some \<lparr>la_record = artifact_record artifact_id (ca_png_bytes a)
       (dt_add now (hours 24)), la_png_bytes = ca_png_bytes a\<rparr>"
    by auto
  have digest: "ca_sha256 a = sha256_hex (ca_png_bytes a)"
    using a(2) render_ad_Inr(3)[OF assms(1) _ assms(3)] by (auto simp: rendered_by_def)
  obtain x where "db_contexts d1 rid = Some x" "cx_composition x = Some c"
    using a(1) by (auto simp: get_composition_def)
  then have "get_composition rid ?d2 = Inr (Some c)"
    using execution_extends[OF reachable_inv[OF assms(8)] assms(9), of rid]
    by (auto simp: view_extends_def view_run_def context_extends_def get_composition_def)
  then have summary: "export_summary rid 1 ?d2 = Inr c"
    by (simp add: export_summary_def)
  have kept: "stored_at m s2 artifact_id = Some \<lparr>la_record = artifact_record artifact_id (ca_png_bytes a)
       (dt_add now (hours 24)), la_png_bytes = ca_png_bytes a\<rparr>"
    using disk_store.after_calls_other[OF assms(10), of m s1] a(4) assms(11) by simp
  have fields: "co_artifact_id c = artifact_id" "co_rendered_sha256 c = sha256_hex (ca_png_bytes a)"
    "co_width c = 1600" "co_height c = 900"
    by (simp_all add: a(3) composition_summary_def digest)
  have "load_artifact m artifact_id later s2 = (if instant later < instant now + hours 24
      then Inr \<lparr>la_record = artifact_record artifact_id (ca_png_bytes a) (dt_add now (hours 24)),
        la_png_bytes = ca_png_bytes a\<rparr> else Inl CompositionArtifactError, s2)"
    using load_unlocked_quiet[OF assms(12) kept, of later True] assms(13)
    by (simp add: load_artifact_def require_utc_def artifact_record_def)
  then show ?thesis
    using summary fields rendered_png[OF assms(1,2) a(2)]
    by (intro exI[of _ "ca_png_bytes a"])
      (simp add: export_png_def on_db_eq on_store_eq bind_def catch_def disk_operations_def
        read_exported_def artifact_record_def)
qed


subsection \<open>The document reads back\<close>

lemma hex_text_plain: "is_sha256 s \<Longrightarrow> list_all plain_char s"
  by (auto simp: is_sha256_def is_digit_def list_all_iff intro!: plain_ascii)

lemma lit_plain: "list_all (\<lambda>c. of_char c < (128 :: nat)) s \<Longrightarrow> list_all plain_char (lit s)"
  by (auto simp: lit_def list_all_iff plain_char_def is_surrogate_def)

lemma readable_layer: "valid_composition_layer l \<Longrightarrow> readable (layer_json l)"
  by (cases "ly_kind l")
    (auto simp: layer_json_def valid_composition_layer_def hex_text_plain plain_uuid_str lit_plain
      split: prod.split option.split)

lemma readable_composition:
  assumes "valid_composition_generated c" "list_all valid_composition_layer (co_layers c)"
    "list_all plain_char (time_text (co_generated_at c))"
  shows "readable (composition_json time_text c)"
proof -
  have "list_all plain_char DISCLOSURE"
    by (simp add: DISCLOSURE_def lit_def plain_char_def is_surrogate_def)
  then show ?thesis
    using assms readable_layer
    by (auto simp: composition_json_def valid_composition_generated_def hex_text_plain plain_uuid_str
        lit_plain list_all_iff[of readable] list_all_iff[of valid_composition_layer])
qed

text \<open>
  The JSON export is lossless and framed by one newline: for a valid summary, decoding the bytes
  before the newline and parsing them gives exactly the summary's document, Chinese disclosure
  included, for whatever plain text pydantic writes for the time; and the export raises nothing but
  what choosing the version raises.
\<close>

theorem exported_json_reads_back:
  assumes "\<And>summary. export_summary rid version d = Inr summary \<Longrightarrow>
      valid_composition_generated summary \<and> list_all valid_composition_layer (co_layers summary)
      \<and> list_all plain_char (time_text (co_generated_at summary))"
  shows "case export_json time_text rid version d of
      Inl e \<Rightarrow> export_summary rid version d = Inl e
    | Inr data \<Rightarrow> \<exists>summary. export_summary rid version d = Inr summary \<and> last data = 10
        \<and> bindR (decode_utf8 (butlast data)) loads = Inr (composition_json time_text summary)"
proof (cases "export_summary rid version d")
  case (Inr summary)
  let ?text = "dumps False (composition_json time_text summary)"
  have doc: "readable (composition_json time_text summary)"
    using assms[OF Inr] readable_composition by blast
  have plain: "list_all plain_char ?text"
    using dumps_plain(1)[OF doc] .
  show ?thesis
    using Inr decode_encode_utf8[OF plain] loads_dumps[OF doc, of False]
    by (simp add: export_json_def)
qed (simp add: export_json_def)

end
