(* ===== verification/Services_Demo.thy ===== *)
theory Services_Demo
  imports Composition_Export
begin

section \<open>The services on a small studio\<close>

text \<open>
  A studio whose imaging library knows only the sizes of its images (\<open>tiny_pillow\<close>), on the drafted
  run of \<open>Lifecycle_Demo\<close> and an empty directory: the composition service makes its composition and
  the export answers its PNG. It is the input of the witnesses of the services' properties.
\<close>

definition tiny_studio :: "(nat \<times> nat, int) studio" where
  "tiny_studio = \<lparr>sd_unicode = basic_tables, sd_raster = (\<lambda>_. tiny_encode (1599, 899)),
     sd_files = sample_files, sd_pillow = tiny_pillow, sd_pinned = sha256_hex tiny_font,
     sd_font_file = Inr tiny_font\<rparr>"

lemma working_tiny_studio: "working_studio tiny_studio"
  using tiny_laws ascii_basic_tables sample_files_error
  by (simp add: working_studio_def tiny_studio_def)

subsection \<open>Every text fits\<close>

lemma wrap_loop_free:
  "(\<And>t. g t = 0) \<Longrightarrow> 0 \<le> mw \<Longrightarrow> wrap_loop g mw ml us ls c = Inr (ls, foldl candidate c us)"
  by (induction us arbitrary: c) simp_all

lemma wrap_free:
  assumes "\<And>t. g t = 0" "0 < mw" "0 < ml" "text_units s = Inr us" "foldl candidate [] us \<noteq> []"
  shows "\<exists>ls. wrap_text g s mw ml = Inr ls"
  using assms by (simp add: wrap_text_def wrap_loop_free Let_def)

lemma tiny_text_layer:
  assumes "text_units s = Inr us" "foldl candidate [] us \<noteq> []"
    "24 < fst (ts_size st)" "0 < snd (ts_size st)" "0 < ts_maximum_lines st" "ts_minimum_font st \<le> ts_start_font st"
  shows "\<exists>i. text_layer tiny_pillow (sha256_hex tiny_font) (Inr tiny_font) s st = Inr i"
proof -
  obtain w h where wh: "ts_size st = (w, h)"
    by (cases "ts_size st")
  have "\<exists>ls. wrap_text (pl_getlength tiny_pillow f) s (w - 24) (ts_maximum_lines st) = Inr ls" for f
    using assms wh by (intro wrap_free) (simp_all add: tiny_pillow_def)
  moreover have "\<exists>px rest. font_sizes (ts_start_font st) (ts_minimum_font st) = px # rest"
    using assms(6) by (simp add: font_sizes_def upt_conv_Cons)
  moreover have "load_font tiny_pillow (sha256_hex tiny_font) (Inr tiny_font) px = Inr px" for px
    by (simp add: load_font_def tiny_pillow_def)
  ultimately have "\<exists>r. fit_font tiny_pillow (sha256_hex tiny_font) (Inr tiny_font) s (w - 24) h
      (ts_start_font st) (ts_minimum_font st) (ts_maximum_lines st) = Inr r"
    using assms(3,4) wh by (auto simp: fit_font_def tiny_pillow_def)
  then show ?thesis
    by (auto simp: text_layer_eq wh Let_def split: option.split)
qed


lemma ink_line: "list_all (\<lambda>u. list_all (\<lambda>c. c \<noteq> 32) (fst u)) us \<Longrightarrow>
    ink (foldl candidate c us) = ink c @ concat (map fst us)"
  by (induction us arbitrary: c) (simp_all add: ink_candidate)

lemma visible_text_units:
  assumes "visible s \<noteq> []"
  shows "\<exists>us. text_units s = Inr us \<and> foldl candidate [] us \<noteq> []"
proof -
  let ?us = "units_loop (normalized s) False"
  have "list_all (\<lambda>u. list_all (\<lambda>c. c \<noteq> 32) (fst u)) ?us"
    using units_clean[of "normalized s" False] by (simp add: list_all_iff)
  then have "ink (foldl candidate [] ?us) = visible s"
    by (simp add: ink_line units_loop_ink ink_normalized)
  then have "foldl candidate [] ?us \<noteq> []"
    using assms by auto
  moreover have "text_units s = Inr ?us"
    using assms by (simp add: text_units_def normalized_Nil_iff Let_def)
  ultimately show ?thesis
    by blast
qed

lemma tiny_layer:
  assumes "visible s \<noteq> []" "st \<in> {headline_style, body_style, cta_style, disclosure_style}"
  shows "\<exists>i. text_layer tiny_pillow (sha256_hex tiny_font) (Inr tiny_font) s st = Inr i"
proof -
  obtain us where "text_units s = Inr us" "foldl candidate [] us \<noteq> []"
    using visible_text_units[OF assms(1)] by blast
  from tiny_text_layer[OF this, of st] assms(2) show ?thesis
    by (auto simp: headline_style_def body_style_def cta_style_def disclosure_style_def)
qed

subsection \<open>The compositor and the rendering\<close>

lemma tiny_compose:
  assumes "validate_compose_request q = Inr ()" "gb_png_bytes (qc_background q) = tiny_encode (1599, 899)"
    "startswith (fa_png_bytes (qc_product_ui q)) PNG_SIGNATURE" "startswith (fa_png_bytes (qc_logo q)) PNG_SIGNATURE"
    "visible (cp_headline (qc_ad_copy q)) \<noteq> []" "visible (cp_body (qc_ad_copy q)) \<noteq> []"
    "visible (cp_cta_label (qc_ad_copy q)) \<noteq> []" "qc_font_file q = Inr tiny_font"
  shows "\<exists>a. compose tiny_pillow (sha256_hex tiny_font) q = Inr a"
proof -
  have background: "decode_rgba tiny_pillow (tiny_encode (1599, 899)) (Some (1600, 900)) = Inr (1599, 899)"
    by (simp add: decode_rgba_def tiny_pillow_def tiny_open_encode tiny_size_def)
  have asset: "\<exists>i. contain tiny_pillow d m = Inr i" if "startswith d PNG_SIGNATURE" for d m
    using that by (simp add: contain_def decode_rgba_def tiny_pillow_def tiny_open_def Let_def)
  have "visible DISCLOSURE \<noteq> []"
    by (simp add: DISCLOSURE_def lit_def is_space_def is_white_def)
  then obtain i2 i3 i4 i5 i6 i7 where
    imgs: "contain tiny_pillow (fa_png_bytes (qc_product_ui q)) (650, 520) = Inr i2"
    "contain tiny_pillow (fa_png_bytes (qc_logo q)) (220, 96) = Inr i3"
    "text_layer tiny_pillow (sha256_hex tiny_font) (Inr tiny_font) (cp_headline (qc_ad_copy q)) headline_style = Inr i4"
    "text_layer tiny_pillow (sha256_hex tiny_font) (Inr tiny_font) (cp_body (qc_ad_copy q)) body_style = Inr i5"
    "text_layer tiny_pillow (sha256_hex tiny_font) (Inr tiny_font) (cp_cta_label (qc_ad_copy q)) cta_style = Inr i6"
    "text_layer tiny_pillow (sha256_hex tiny_font) (Inr tiny_font) DISCLOSURE disclosure_style = Inr i7"
    using asset assms(3-7) tiny_layer by (metis insertI1 insertI2)
  have sizes: "pl_size tiny_pillow (1599, 899) = (1600, 900)" "pl_size tiny_pillow i4 = (660, 124)"
    "pl_size tiny_pillow i5 = (680, 86)" "pl_size tiny_pillow i6 = (330, 76)" "pl_size tiny_pillow i7 = (430, 44)"
    using text_layer_size[OF tiny_laws imgs(3)] text_layer_size[OF tiny_laws imgs(4)]
      text_layer_size[OF tiny_laws imgs(5)] text_layer_size[OF tiny_laws imgs(6)]
    by (simp_all add: tiny_pillow_def tiny_size_def headline_style_def body_style_def cta_style_def
        disclosure_style_def)
  let ?plan = "layer_plan q (1599, 899) i2 i3 i4 i5 i6 i7"
  have fits: "plan_fits tiny_pillow ?plan"
    using sizes contain_size[OF tiny_laws imgs(1)] contain_size[OF tiny_laws imgs(2)]
    by (simp add: plan_fits_def layer_plan_def inside_canvas_def)
  have "\<forall>l \<in> set (map (rendered_of tiny_pillow) ?plan). \<exists>i. rl_png_bytes l = pl_encode_png tiny_pillow i"
    by (auto simp: rendered_of_def case_prod_beta simp del: split_paired_Ex)
  from composite_layers_total[OF tiny_laws this, of "pl_new_rgba tiny_pillow (1600, 900)"] obtain out where
    "composite_layers tiny_pillow (map (rendered_of tiny_pillow) ?plan) (pl_new_rgba tiny_pillow (1600, 900)) = Inr out"
    by blast
  then show ?thesis
    unfolding compose_def assms(1,2,8) background imgs bindR_simps layer_plan_def[symmetric]
      render_plan[OF tiny_laws fits] Let_def
    by (simp only: bindR_simps) blast
qed

lemma tiny_render:
  assumes "visible (cp_headline c) \<noteq> []" "visible (cp_body c) \<noteq> []" "visible (cp_cta_label c) \<noteq> []"
    "cp_cta_action_meaning c = bl_cta_action_meaning orbit_lock"
  shows "\<exists>a. render_ad tiny_studio 1 CHINA_TO_UK demo_brief orbit_lock c = Inr a"
proof -
  let ?b = "\<lparr>bg_direction = CHINA_TO_UK, bg_target_locale = EN_GB, bg_narrative = lit ''Calm'',
     bg_use_scenario = lit ''Desk'', bg_width = 1600, bg_height = 900,
     bg_prohibited_content = background_guardrails\<rparr>"
  have request: "make_background_request CHINA_TO_UK EN_GB (lit ''Calm'') (lit ''Desk'') = Inr ?b"
    by (simp add: make_background_request_def require_directional_locale_and_guardrails_def Let_def
        is_long_text_def is_text_lit strip_text_def strip_by_def) (simp add: is_text_def strip_text_def strip_by_def lit_def is_white_def)
  have "combined_text basic_tables ?b = lit ''calm'' @ 10 # lit ''desk''"
    by (simp add: combined_text_def basic_tables_def lit_def ascii_lower_def is_upper_def)
  then have "validate_background_request basic_tables ?b = Inr ()"
    by (intro guard_accepts) (simp add: stems_def lit_def startswith_simps)
  then have background: "generate_background basic_tables (\<lambda>_. tiny_encode (1599, 899)) ?b
      = Inr (tiny_background CHINA_TO_UK)"
    by (simp add: generate_background_eq tiny_background_def)
  show ?thesis
    using assms
    by (simp add: render_ad_def tiny_studio_def demo_brief_def request background first_product_ui_def
        orbit_lock_assets sample_resolves)
      (auto intro!: tiny_compose simp: validate_compose_request_def orbit_lock_assets startswith_def
        tiny_background_def background_of_def Let_def)
qed


subsection \<open>A composition is made and exported\<close>

abbreviation drafted_db :: db where
  "drafted_db \<equiv> demo_db IN_PROGRESS 3 (demo_context 3) None []"

definition empty_disk :: disk where
  "empty_disk = \<lparr>dk_files = [], dk_verdicts = []\<rparr>"

definition demo_reader :: image_reader where
  "demo_reader = \<lparr>ir_open = (\<lambda>d. map_sum id (\<lambda>i. (lit ''PNG'', tiny_size i))
       (case tiny_open d of Inl _ \<Rightarrow> Inl UnidentifiedImageError | Inr i \<Rightarrow> Inr i)),
     ir_load = (\<lambda>_. Inr ())\<rparr>"

lemma demo_reader_laws: "reader_laws tiny_pillow demo_reader"
  by (auto simp: reader_laws_def reader_errors_def demo_reader_def is_OSError_def tiny_pillow_def
      tiny_open_encode split: sum.splits)

lemma early_in_range: "in_range (dt_add (utc 5) (hours 24))" "in_range (utc 5)"
  by (simp_all add: in_range_def wall_clock_def epoch_day_def day_us_def year_start_def day_number_def
      hours_def seconds_def)

lemma demo_inputs:
  "\<exists>run. read_inputs 1 drafted_db = Inr (Inr \<lparr>gi_run = run, gi_request = demo_request,
      gi_analysis = Some demo_analysis, gi_confirmation = Some \<lparr>bk_brand_lock = orbit_lock, bk_confirmed_at = utc 3\<rparr>,
      gi_draft = Some \<lparr>dr_brief = demo_brief, dr_ad_copy = demo_copy, dr_fact_references = demo_facts,
        dr_rule_ids = [], dr_generated_at = utc 4\<rparr>\<rparr>) \<and> pr_id run = 1 \<and> pr_status run = IN_PROGRESS
      \<and> pr_direction run = CHINA_TO_UK"
proof -
  have "get_composition 1 drafted_db = Inr None" "get_request 1 drafted_db = Inr demo_request"
    "get_analysis 1 drafted_db = Inr (Some demo_analysis)"
    "get_confirmed_brand_lock 1 drafted_db = Inr (Some \<lparr>bk_brand_lock = orbit_lock, bk_confirmed_at = utc 3\<rparr>)"
    "get_draft 1 drafted_db = Inr (Some \<lparr>dr_brief = demo_brief, dr_ad_copy = demo_copy,
        dr_fact_references = demo_facts, dr_rule_ids = [], dr_generated_at = utc 4\<rparr>)"
    by (simp_all add: get_composition_def get_request_def get_analysis_def get_confirmed_brand_lock_def
      get_draft_def get_context_def context_draft_def draft_record_of_def confirmation_record_def demo_defs)
  then show ?thesis
    by (simp add: read_inputs_def demo_get_run)
qed

lemma demo_render: "\<exists>a. render_ad tiny_studio 1 CHINA_TO_UK demo_brief orbit_lock demo_copy = Inr a"
  by (rule tiny_render)
    (simp_all add: demo_copy_def lit_def is_space_def is_white_def orbit_lock_def)

lemma demo_save_composition:
  assumes "protected_layers_match orbit_lock c" "co_run_id c = 1"
  shows "\<exists>d'. save_composition 1 c drafted_db = (Inr c, d')"
  using assms by (simp add: save_composition_def method_simps demo_defs)

lemma tiny_png: "render_ad tiny_studio rid direction brief lock c = Inr a \<Longrightarrow>
    startswith (ca_png_bytes a) PNG_SIGNATURE \<and> 9 \<le> length (ca_png_bytes a) \<and> length (ca_png_bytes a) \<le> 10000"
proof -
  assume "render_ad tiny_studio rid direction brief lock c = Inr a"
  then obtain q where q: "compose tiny_pillow (sha256_hex tiny_font) q = Inr a"
    by (auto simp: render_ad_def tiny_studio_def)
  then obtain ls out where out: "composite_layers tiny_pillow ls (pl_new_rgba tiny_pillow (1600, 900)) = Inr out"
    "ca_png_bytes a = pl_encode_png tiny_pillow out"
    by (auto simp: compose_def Let_def simp del: mapR.simps composite_layers.simps)
  have "pl_size tiny_pillow out = (1600, 900)"
    using composite_layers_size[OF demo_reader_laws out(1)] imaging_lawsD(6)[OF tiny_laws, of 1600 900] by simp
  then have "out = (1599, 899)"
    by (cases out) (simp add: tiny_pillow_def tiny_size_def)
  then show ?thesis
    using out(2) by (simp add: tiny_pillow_def tiny_encode_def startswith_def PNG_SIGNATURE_def)
qed

lemma demo_generate:
  "\<exists>a d' s'. generate_composition tiny_studio (disk_operations 10000) (\<lambda>d. d) 1 20 (utc 5) (drafted_db, empty_disk)
      = (Inr (composition_summary 1 20 a (utc 5)), (d', s')) \<and> dk_verdicts s' = []
    \<and> rendered_by tiny_studio 1 a \<and> stored_at 10000 s' 20 \<noteq> None
    \<and> save_composition 1 (composition_summary 1 20 a (utc 5)) drafted_db = (Inr (composition_summary 1 20 a (utc 5)), d')"
proof -
  obtain run where inputs: "read_inputs 1 drafted_db = Inr (Inr \<lparr>gi_run = run, gi_request = demo_request,
      gi_analysis = Some demo_analysis, gi_confirmation = Some \<lparr>bk_brand_lock = orbit_lock, bk_confirmed_at = utc 3\<rparr>,
      gi_draft = Some \<lparr>dr_brief = demo_brief, dr_ad_copy = demo_copy, dr_fact_references = demo_facts,
        dr_rule_ids = [], dr_generated_at = utc 4\<rparr>\<rparr>)"
    "pr_id run = 1" "pr_status run = IN_PROGRESS" "pr_direction run = CHINA_TO_UK"
    using demo_inputs by blast
  obtain a where a: "render_ad tiny_studio 1 CHINA_TO_UK demo_brief orbit_lock demo_copy = Inr a"
    using demo_render by blast
  let ?c = "composition_summary 1 20 a (utc 5)"
  note made = render_ad_Inr(1,2)[OF working_tiny_studio a, of "utc 5" 20]
    render_ad_Inr(3)[OF working_tiny_studio a, of "utc 5"]
  obtain s' where saved: "save_artifact 10000 20 (ca_png_bytes a) (dt_add (utc 5) (hours 24)) empty_disk
      = (Inr (artifact_record 20 (ca_png_bytes a) (dt_add (utc 5) (hours 24))), s')" "dk_verdicts s' = []"
    using save_artifact_quiet[of empty_disk 20 "dt_add (utc 5) (hours 24)" "ca_png_bytes a" 10000] tiny_png[OF a]
    by (auto simp: empty_disk_def file_at_def)
  obtain d' where stored: "save_composition 1 ?c drafted_db = (Inr ?c, d')"
    using demo_save_composition[of ?c] made(2) by (auto simp: composition_summary_def[of 1])
  have "render_and_save tiny_studio (disk_operations 10000) 1 20 (utc 5) run
      \<lparr>bk_brand_lock = orbit_lock, bk_confirmed_at = utc 3\<rparr>
      \<lparr>dr_brief = demo_brief, dr_ad_copy = demo_copy, dr_fact_references = demo_facts,
        dr_rule_ids = [], dr_generated_at = utc 4\<rparr> empty_disk = (Inr ?c, s')"
    using inputs(2,4) a saved made(1,3)
    by (simp add: render_and_save_def catch_def save_rendered_def disk_operations_def bind_def artifact_record_def)
  then have "generate_composition tiny_studio (disk_operations 10000) (\<lambda>d. d) 1 20 (utc 5) (drafted_db, empty_disk)
      = (Inr ?c, (d', s'))"
    using inputs stored
    by (simp add: generate_composition_def bind_def on_db_eq on_store_eq check_inputs_def demo_request_def
        persist_composition_def catch_def)
  moreover have "stored_at 10000 s' 20 \<noteq> None"
    using save_artifact_Inr(3)[OF saved(1) early_in_range(1)] by simp
  ultimately show ?thesis
    using a saved(2) stored
    by (intro exI[of _ a] exI[of _ d'] exI[of _ s']) (auto simp: rendered_by_def)
qed

lemma drafted_reachable: "reachable \<lparr>sys_db = drafted_db, sys_analyzing = {}\<rparr>"
proof -
  have "reachable (demo_sys IN_PROGRESS 3 3 [])"
    using demo_steps(1-5) reachable.intros by meson
  then show ?thesis
    by (simp add: demo_sys_def)
qed

lemma nothing_stored: "stored_at m empty_disk aid = None"
  by (simp add: stored_at_absent file_at_def empty_disk_def)


subsection \<open>Witnesses\<close>

theorem generated_composition_is_backed_witness:
  "\<exists>d' s' c. generate_composition tiny_studio (disk_operations 10000) (\<lambda>d. d) 1 20 (utc 5)
      (drafted_db, empty_disk) = (Inr c, (d', s'))
    \<and> get_composition 1 d' = Inr (Some c) \<and> reachable \<lparr>sys_db = d', sys_analyzing = {}\<rparr>"
proof -
  obtain c d' s' where run: "generate_composition tiny_studio (disk_operations 10000) (\<lambda>d. d) 1 20 (utc 5)
      (drafted_db, empty_disk) = (Inr c, (d', s'))"
    using demo_generate by blast
  show ?thesis
    using generated_composition_is_backed[OF working_tiny_studio _ early_in_range(1) nothing_stored
        drafted_reachable drafted_reachable run] run by auto
qed

theorem exported_png_is_on_record_witness:
  "fst (snd (export_png (disk_operations 9) demo_reader 1 1 (utc 5) (drafted_db, empty_disk))) = drafted_db"
proof -
  have "reader_errors demo_reader"
    using demo_reader_laws by (simp add: reader_laws_def)
  from exported_png_is_on_record[OF this, where m = 9 and rid = 1 and version = 1 and now = "utc 5"
      and d = drafted_db and s = empty_disk] show ?thesis
    by (auto split: prod.splits)
qed

theorem generated_composition_exports_witness:
  "\<exists>d s png. fst (export_png (disk_operations 10000) demo_reader 1 1 (utc 6) (d, s))
    = Inr \<lparr>ec_png_bytes = png, ec_sha256 = sha256_hex png, ec_size_bytes = int (length png)\<rparr>"
proof -
  obtain c d' s' where run: "generate_composition tiny_studio (disk_operations 10000) (\<lambda>d. d) 1 20 (utc 5)
      (drafted_db, empty_disk) = (Inr c, (d', s'))" "stored_at 10000 s' 20 \<noteq> None" "dk_verdicts s' = []"
    using demo_generate by blast
  have utc5: "is_utc (utc 5)"
    by simp
  have reach: "reachable \<lparr>sys_db = d', sys_analyzing = {}\<rparr>"
    using generated_composition_is_backed[OF working_tiny_studio utc5 early_in_range(1) nothing_stored
        drafted_reachable drafted_reachable run(1)] by simp
  have laws: "reader_laws (sd_pillow tiny_studio) demo_reader"
    using demo_reader_laws by (simp add: tiny_studio_def)
  obtain png where "export_png (disk_operations 10000) demo_reader 1 1 (utc 6) (d', s')
      = (Inr \<lparr>ec_png_bytes = png, ec_sha256 = sha256_hex png, ec_size_bytes = int (length png)\<rparr>, (d', s'))"
    using generated_composition_exports[OF working_tiny_studio laws utc5 early_in_range(1) nothing_stored
        run(1,2) reach, of "[]" "[]" s' "utc 6"] run(3)
    by (auto simp: hours_def seconds_def)
  then show ?thesis
    by (metis fst_conv)
qed

lemma demo_valid_composition:
  "valid_composition_generated (demo_composition 11)"
  "list_all valid_composition_layer (co_layers (demo_composition 11))"
proof -
  have sha: "is_sha256 (replicate 64 97)"
    by (simp add: is_sha256_def is_digit_def list_all_iff)
  show "list_all valid_composition_layer (co_layers (demo_composition 11))"
    by (simp add: demo_composition_def demo_layer_def valid_composition_layer_def sha
        require_valid_source_and_bounds_def)
  show "valid_composition_generated (demo_composition 11)"
    by (simp add: valid_composition_generated_def demo_composition_def sha require_fixed_layer_order_def
        fixed_layer_order_def demo_layer_def)
qed

theorem exported_json_reads_back_witness:
  "\<exists>data. export_json isoformat 1 1 (demo_db READY 6 (demo_context 5) None []) = Inr data \<and> last data = 10
    \<and> bindR (decode_utf8 (butlast data)) loads = Inr (composition_json isoformat (demo_composition 11))"
proof -
  have summary: "export_summary 1 1 (demo_db READY 6 (demo_context 5) None []) = Inr (demo_composition 11)"
    by (simp add: export_summary_def get_composition_def get_context_def demo_defs)
  have valid: "valid_composition_generated x \<and> list_all valid_composition_layer (co_layers x)
      \<and> list_all plain_char (isoformat (co_generated_at x))"
    if "export_summary 1 1 (demo_db READY 6 (demo_context 5) None []) = Inr x" for x
    using that demo_valid_composition by (simp add: summary plain_isoformat)
  from exported_json_reads_back[where rid = 1 and version = 1 and time_text = isoformat
      and d = "demo_db READY 6 (demo_context 5) None []", OF valid] show ?thesis
    by (auto simp: summary split: sum.splits)
qed

end
