(* ===== verification/Revision_Properties.thy ===== *)
theory Revision_Properties
  imports Revision_Service Services_Demo
begin

section \<open>Properties of the revision service\<close>

text \<open>
  The two requests of \<open>Revision_Service\<close> on the disk store: both follow the lifecycle and keep the two
  stores together, and a storage error in the middle of a revision closes the run to every later
  request. The small studio of \<open>Services_Demo\<close> revises its reviewed run as the input of the witnesses.
\<close>

subsection \<open>Outcomes\<close>

text \<open>
  C4. A feedback request, with law-abiding requests between its transactions and any failures of the
  disk, only makes steps of the lifecycle. When it answers, the response is the recorded one of the
  finished operation with the same key and the same request, and nothing changed, or the revision has
  just been stored with exactly this response, these changes, and the artifact its composition names.
  When it raises, no artifact was added or removed, with one exception: if the artifact it had saved
  could not be removed again on the disk, that one rendering for this run, under this request's
  identifier, may stay. The error is one of the service's own, the disk's at the removal, or
  \<open>ValueError\<close> for a text that cannot be encoded.
\<close>

theorem feedback_is_consistent:
  assumes "working_studio sd" "is_utc (rt_now clock)" "in_range (dt_add (rt_now clock) (hours 24))"
    "stored_at m s artifact_id = None" "law_abiding other" "reachable \<lparr>sys_db = d, sys_analyzing = A\<rparr>"
    "submit_feedback sd casefold time_text (disk_operations m) other artifact_id clock request key (d, s)
      = (r, (d', s'))"
  shows "leads_to d A d' \<and> (case r of
      Inl e \<Rightarrow> stored_at m s' = stored_at m s
          \<and> (is_store_failure e \<or> e = ValueError \<or> (\<exists>code. e = RevisionServiceError code))
        \<or> is_store_failure e \<and> (\<exists>a. rendered_by sd (fb_run_id request) a
            \<and> stored_at m s' = (stored_at m s)(artifact_id \<mapsto> artifact_of artifact_id (rt_now clock) a))
    | Inr response \<Rightarrow>
        d' = d \<and> s' = s \<and> recorded_response FEEDBACK (fb_run_id request) key (feedback_json time_text request) response d
        \<or> (\<exists>operation a. op_run_id operation = fb_run_id request
            \<and> op_requested_changes operation = fb_requested_changes request
            \<and> completes_revision sd artifact_id (rt_now clock) operation response a d'
            \<and> stored_at m s' = (stored_at m s)(artifact_id \<mapsto> \<lparr>la_record = artifact_record artifact_id
                (ca_png_bytes a) (dt_add (rt_now clock) (hours 24)), la_png_bytes = ca_png_bytes a\<rparr>)))"
  by (rule disk_store.submit_outcome[OF assms(1-6) assms(7)[unfolded disk_operations_def]])

text \<open>
  C5. A retry request, in the same circumstances, only makes steps of the lifecycle. When it answers,
  the response is the recorded one of the finished retry with the same key and request, and nothing
  changed, or the revision has just been stored with this response, the artifact its composition
  names, and the changes the last failed feedback of the run asked for. When it raises, no artifact
  was added or removed, except that one rendering for this run, under this request's identifier, may
  stay if its removal failed on the disk, and then the error is the disk's.
\<close>

theorem retry_is_consistent:
  assumes "working_studio sd" "is_utc (rt_now clock)" "in_range (dt_add (rt_now clock) (hours 24))"
    "stored_at m s artifact_id = None" "law_abiding other" "reachable \<lparr>sys_db = d, sys_analyzing = A\<rparr>"
    "retry_revision sd casefold (disk_operations m) other artifact_id clock request key (d, s) = (r, (d', s'))"
  shows "leads_to d A d' \<and> (case r of
      Inl e \<Rightarrow> stored_at m s' = stored_at m s
        \<or> is_store_failure e \<and> (\<exists>a. rendered_by sd (rq_run_id request) a
            \<and> stored_at m s' = (stored_at m s)(artifact_id \<mapsto> artifact_of artifact_id (rt_now clock) a))
    | Inr response \<Rightarrow>
        d' = d \<and> s' = s \<and> recorded_response RETRY (rq_run_id request) key (retry_json request) response d
        \<or> (\<exists>operation a w. op_run_id operation = rq_run_id request
            \<and> last_failure (rq_run_id request) d = Some w
            \<and> op_requested_changes operation = op_requested_changes (operation_record_of w)
            \<and> completes_revision sd artifact_id (rt_now clock) operation response a d'
            \<and> stored_at m s' = (stored_at m s)(artifact_id \<mapsto> \<lparr>la_record = artifact_record artifact_id
                (ca_png_bytes a) (dt_add (rt_now clock) (hours 24)), la_png_bytes = ca_png_bytes a\<rparr>)))"
  by (rule disk_store.retry_outcome[OF assms(1-6) assms(7)[unfolded disk_operations_def]])

subsection \<open>A storage error closes the run\<close>

text \<open>While an operation is open, every claim is refused.\<close>

lemma revising_refuses_claims:
  assumes "in_phase Revising (view_run rid d)" "ids_ok d"
  shows "claim_feedback_operation rid kd fp cs fb t d = (Inl e, d') \<longrightarrow> e \<in> {IdempotencyConflictError, OperationInProgressError}"
    "\<exists>e. claim_feedback_operation rid kd fp cs fb t d = (Inl e, d) \<and> is_claim_error e"
    "claim_retry_operation rid kd fp t d = (Inl InvalidRunStateError, d)"
proof -
  have ops: "map operation_key (operations_of rid d) = [(FEEDBACK, OP_IN_PROGRESS, None, None)]"
    "map_option rr_status (db_runs d rid) = Some IN_PROGRESS" "db_revisions d rid = None"
    using in_phase_operations[OF assms(1)] in_phase_status[OF assms(1)] in_phase_revision[OF assms(1)]
    by (simp_all add: view_simps has_revision_def)
  then obtain w where w: "operations_of rid d = [w]" "ow_kind w = FEEDBACK" "ow_state w = OP_IN_PROGRESS"
    by (auto simp: operation_key_def)
  then have row: "w \<in> set (db_operations d)" "is_operation rid FEEDBACK w"
    using set_operations_of[of w rid d] by (auto simp: is_operation_def)
  have only: "v = w" if "v \<in> set (db_operations d)" "is_operation rid k v" for v k
    using that w(1) set_operations_of[of v rid d] by (auto simp: is_operation_def)
  have open_row: "\<not> no_open_operation rid FEEDBACK d"
    using row w(3) by (auto simp: no_open_operation_def)
  have found: "ow_state v = OP_IN_PROGRESS" if "select_operation (\<lambda>w. is_operation rid FEEDBACK w \<and> ow_key_digest w = kd) d = Some v" for v
    using select_operation_Some[OF that] only w(3) by blast
  have none: "select_operation (\<lambda>w. is_operation rid RETRY w \<and> ow_key_digest w = kd) d = None"
    using only w(2) by (auto simp: select_operation_None is_operation_def)
  show "claim_feedback_operation rid kd fp cs fb t d = (Inl e, d') \<longrightarrow> e \<in> {IdempotencyConflictError, OperationInProgressError}"
    "\<exists>e. claim_feedback_operation rid kd fp cs fb t d = (Inl e, d) \<and> is_claim_error e"
    using ops(3) open_row found
    by (auto simp: claim_feedback_eq[OF assms(2)] is_claim_error_def split: option.splits if_splits)
  show "claim_retry_operation rid kd fp t d = (Inl InvalidRunStateError, d)"
    using ops(2) none by (auto simp: claim_retry_eq[OF assms(2)])
qed

lemma claimed_is_revising:
  assumes "reachable \<lparr>sys_db = d, sys_analyzing = A\<rparr>"
    "claim_feedback_operation rid kd fp cs fb t d = (Inr operation, d1)" "op_state operation = OP_IN_PROGRESS"
  shows "in_phase Revising (view_run rid d1)" "ids_ok d1" "op_run_id operation = rid"
    "\<exists>w \<in> set (db_operations d1). ow_id w = op_id operation \<and> ow_run_id w = rid \<and> ow_state w = OP_IN_PROGRESS
       \<and> ow_requested_changes w = Some cs"
proof -
  have reach: "reachable \<lparr>sys_db = d1, sys_analyzing = A\<rparr>"
    using reachable.step[OF assms(1) Claim_Feedback[OF assms(2)]] .
  then show ids: "ids_ok d1"
    by (rule reachable_ids)
  have new: "operation = operation_record_of (feedback_operation_row (db_operation_seq d + 1) rid kd fp cs fb t)"
    "d1 = claimed_feedback rid kd fp cs fb t d"
    using claim_feedback_Inr[OF assms(2) reachable_ids[OF assms(1)]] assms(3)
    by (auto simp: operation_record_of_def)
  then show "op_run_id operation = rid"
    by (simp add: operation_record_of_def feedback_operation_row_def)
  show "\<exists>w \<in> set (db_operations d1). ow_id w = op_id operation \<and> ow_run_id w = rid \<and> ow_state w = OP_IN_PROGRESS
       \<and> ow_requested_changes w = Some cs"
    using new by (simp add: claimed_feedback_def operation_record_of_def feedback_operation_row_def)
  let ?w = "feedback_operation_row (db_operation_seq d + 1) rid kd fp cs fb t"
  have "?w \<in> set (db_operations d1)" "ow_run_id ?w = rid" "ow_state ?w = OP_IN_PROGRESS" "ow_kind ?w = FEEDBACK"
    using new(2) by (simp_all add: claimed_feedback_def feedback_operation_row_def)
  moreover have phase: "in_phase (run_phase rid \<lparr>sys_db = d1, sys_analyzing = A\<rparr>) (view_run rid d1)"
    using inv_run_phase[OF reachable_inv[OF reach], of rid] by simp
  ultimately have "run_phase rid \<lparr>sys_db = d1, sys_analyzing = A\<rparr> = Revising"
    using open_operation_phase[OF phase ids, of ?w] by simp
  with phase show "in_phase Revising (view_run rid d1)"
    by simp
qed

text \<open>
  C30. When the artifact store raises \<open>OSError\<close> while a claimed feedback is being worked on (the
  directory cannot be made, for example), the request answers that the revision failed, but the
  operation stays open and the run stays in progress: every later feedback and every later retry for
  the run, whatever its key and content and whatever the store then does, is refused and changes
  nothing.
\<close>

theorem storage_error_closes_run:
  assumes "reachable \<lparr>sys_db = d, sys_analyzing = A\<rparr>" "key_digest key = Inr kd"
    "fingerprint (feedback_json time_text request) = Inr fp" "digest_text (fb_feedback request) = Inr fb"
    "claim_feedback_operation (fb_run_id request) kd fp (fb_requested_changes request) fb (rt_claimed clock) d
      = (Inr operation, d1)" "op_state operation = OP_IN_PROGRESS"
    "prepare_revision sd st operation artifact_id (rt_now clock) (d1, s) = (Inl OSError, (d1, s1))"
  shows "submit_feedback sd casefold time_text st other artifact_id clock request key (d, s)
      = (Inl (RevisionServiceError RS_REVISION_FAILED), (d1, s1))
    \<and> run_phase (fb_run_id request) \<lparr>sys_db = d1, sys_analyzing = A\<rparr> = Revising
    \<and> (\<forall>request' key' clock' s'. fb_run_id request' = fb_run_id request \<longrightarrow>
        (\<exists>e. submit_feedback sd casefold time_text st other artifact_id clock' request' key' (d1, s') = (Inl e, (d1, s'))))
    \<and> (\<forall>request' key' clock' s'. rq_run_id request' = fb_run_id request \<longrightarrow>
        (\<exists>e. retry_revision sd casefold st other artifact_id clock' request' key' (d1, s') = (Inl e, (d1, s'))))"
proof (intro conjI allI impI)
  note revising = claimed_is_revising[OF assms(1,5,6)]
  show "submit_feedback sd casefold time_text st other artifact_id clock request key (d, s)
      = (Inl (RevisionServiceError RS_REVISION_FAILED), (d1, s1))"
    using assms(2-7)
    by (simp add: submit_feedback_def bind_def on_db_eq map_claim_errors_eq execute_revision_def try_parts_def
        on_failure_def answer_failure_def failure_code_def is_output_error_def)
  show "run_phase (fb_run_id request) \<lparr>sys_db = d1, sys_analyzing = A\<rparr> = Revising"
    using phase_of_in_phase[OF revising(1)] by (simp add: run_phase_def)
next
  fix request' key' clock' s' assume same: "fb_run_id (request' :: feedback_request) = fb_run_id request"
  note refused = revising_refuses_claims(2)[OF claimed_is_revising(1,2)[OF assms(1,5,6)]]
  show "\<exists>e. submit_feedback sd casefold time_text st other artifact_id clock' request' key' (d1, s') = (Inl e, (d1, s'))"
  proof (cases "bindR (key_digest key') (\<lambda>kd. bindR (fingerprint (feedback_json time_text request')) (\<lambda>fp.
      bindR (digest_text (fb_feedback request')) (\<lambda>feedback. Inr (kd, fp, feedback))))")
    case (Inl e)
    then show ?thesis
      by (auto simp: submit_feedback_def bindR_Inl_iff)
  next
    case (Inr x)
    then obtain kd' fp' fb' where digests: "key_digest key' = Inr kd'"
      "fingerprint (feedback_json time_text request') = Inr fp'" "digest_text (fb_feedback request') = Inr fb'"
      by auto
    with refused[of kd' fp' "fb_requested_changes request'" fb' "rt_claimed clock'"] same show ?thesis
      by (auto simp: submit_feedback_def bind_def on_db_eq map_claim_errors_eq)
  qed
next
  fix request' key' clock' s' assume same: "rq_run_id (request' :: retry_request) = fb_run_id request"
  note refused = revising_refuses_claims(3)[OF claimed_is_revising(1,2)[OF assms(1,5,6)]]
  show "\<exists>e. retry_revision sd casefold st other artifact_id clock' request' key' (d1, s') = (Inl e, (d1, s'))"
    using refused same
    by (auto simp: retry_revision_def bind_def on_db_eq map_claim_errors_eq split: sum.splits)
qed

subsection \<open>A failed rendering can be retried once\<close>

lemma only_open_row:
  assumes "ids_ok d" "w \<in> set (db_operations d)" "ow_state w = OP_IN_PROGRESS"
  shows "length (filter (\<lambda>v. ow_id v = ow_id w \<and> ow_run_id v = ow_run_id w \<and> ow_state v = OP_IN_PROGRESS)
    (db_operations d)) = 1"
proof -
  let ?xs = "filter (\<lambda>v. ow_id v = ow_id w \<and> ow_run_id v = ow_run_id w \<and> ow_state v = OP_IN_PROGRESS) (db_operations d)"
  have "set ?xs = {w}"
    using assms ids_ok_unique[OF assms(1)] by auto
  moreover have "distinct ?xs"
    using assms(1) by (auto simp: ids_ok_def distinct_map)
  ultimately show ?thesis
    using distinct_card[of ?xs] by simp
qed

lemma failed_operation_eq: "v\<lparr>ow_state := OP_FAILED_RETRYABLE, ow_retry_condition := Some c,
    ow_retry_action := Some RETRY_ONCE, ow_updated_at := t\<rparr> = failed_operation c RETRY_ONCE t v"
  by (simp add: failed_operation_def retryable_actions_def)

lemma fail_open_operation:
  assumes "ids_ok d" "w \<in> set (db_operations d)" "ow_state w = OP_IN_PROGRESS"
    "db_runs d (ow_run_id w) = Some r"
  shows "db_runs (snd (fail_revision_operation (ow_run_id w) (ow_id w) c RETRY_ONCE t d)) (ow_run_id w)
      = Some (set_status FAILED_RETRYABLE t r)"
    "db_operations (snd (fail_revision_operation (ow_run_id w) (ow_id w) c RETRY_ONCE t d))
      = map (\<lambda>v. if ow_id v = ow_id w \<and> ow_run_id v = ow_run_id w \<and> ow_state v = OP_IN_PROGRESS
          then failed_operation c RETRY_ONCE t v else v) (db_operations d)"
proof -
  obtain res d' where run: "fail_revision_operation (ow_run_id w) (ow_id w) c RETRY_ONCE t d = (res, d')"
    by (cases "fail_revision_operation (ow_run_id w) (ow_id w) c RETRY_ONCE t d")
  let ?d2 = "d\<lparr>db_operations := map (\<lambda>v. if ow_id v = ow_id w \<and> ow_run_id v = ow_run_id w \<and> ow_state v = OP_IN_PROGRESS
      then v\<lparr>ow_state := OP_FAILED_RETRYABLE, ow_retry_condition := Some c, ow_retry_action := Some RETRY_ONCE,
        ow_updated_at := t\<rparr> else v) (db_operations d),
      db_runs := (db_runs d)(ow_run_id w \<mapsto> set_status FAILED_RETRYABLE t r)\<rparr>"
  have "operations_grow (db_operations d) (db_operations ?d2)"
    by (simp, rule grow_map[OF refl]) (auto simp: closes_row_def failed_operation_eq)
  from grow_keeps[OF this assms(2)] have "select_operation (\<lambda>v. ow_id v = ow_id w) ?d2 \<noteq> None"
    unfolding select_operation_None by blast
  then have "d' = ?d2"
    using run only_open_row[OF assms(1-3)] assms(4)
    by (auto simp: fail_revision_operation_def retryable_actions_def Let_def connect_def bind_def
        update_operations_def update_runs_def fetch_operation_def split: option.splits)
  then show "db_runs (snd (fail_revision_operation (ow_run_id w) (ow_id w) c RETRY_ONCE t d)) (ow_run_id w)
      = Some (set_status FAILED_RETRYABLE t r)"
    "db_operations (snd (fail_revision_operation (ow_run_id w) (ow_id w) c RETRY_ONCE t d))
      = map (\<lambda>v. if ow_id v = ow_id w \<and> ow_run_id v = ow_run_id w \<and> ow_state v = OP_IN_PROGRESS
          then failed_operation c RETRY_ONCE t v else v) (db_operations d)"
    using run by (simp_all add: failed_operation_eq)
qed

lemma retryable_accepts_retry:
  assumes "in_phase Retryable (view_run rid d)" "ids_ok d"
  shows "\<exists>operation d' w. claim_retry_operation rid kd fp t d = (Inr operation, d') \<and> operations_of rid d = [w]
    \<and> op_requested_changes operation = op_requested_changes (operation_record_of w)"
proof -
  have ops: "map operation_key (operations_of rid d) = [first_failure]"
    "map_option rr_status (db_runs d rid) = Some FAILED_RETRYABLE"
    using in_phase_operations[OF assms(1)] in_phase_status[OF assms(1)] by (simp_all add: view_simps)
  then obtain w where w: "operations_of rid d = [w]" "ow_kind w = FEEDBACK" "ow_state w = OP_FAILED_RETRYABLE"
    by (auto simp: operation_key_def first_failure_def)
  have only: "v \<in> set (db_operations d) \<and> ow_run_id v = rid \<longleftrightarrow> v = w" for v
    using w(1) set_operations_of[of v rid d] by simp
  have none: "select_operation (\<lambda>w. is_operation rid RETRY w \<and> ow_key_digest w = kd) d = None"
  proof -
    have "\<not> is_operation rid RETRY v" if "v \<in> set (db_operations d)" for v
      using only[of v] that w(2) by (cases "ow_run_id v = rid") (auto simp: is_operation_def)
    then show ?thesis
      by (simp add: select_operation_None)
  qed
  obtain v where v: "last_failure rid d = Some v"
    using only[of w] w(2,3) by (cases "last_failure rid d") (auto simp: last_failure_def select_last_operation_None is_operation_def)
  then have "v = w"
    using only[of v] by (auto simp: last_failure_def is_operation_def dest!: select_last_operation_Some)
  with v have "last_failure rid d = Some w"
    by simp
  then show ?thesis
    using none ops(2) w(1) by (auto simp: claim_retry_eq[OF assms(2)] operation_record_of_def retry_operation_row_def)
qed

text \<open>
  C29. When the rendering of a claimed feedback fails, or the store refuses the artifact, the request
  answers that the revision failed, the operation is closed and the run can be retried: the claim of
  the first retry that follows succeeds, with the changes of the feedback.
\<close>

theorem failed_rendering_can_be_retried:
  assumes "reachable \<lparr>sys_db = d, sys_analyzing = A\<rparr>" "key_digest key = Inr kd"
    "fingerprint (feedback_json time_text request) = Inr fp" "digest_text (fb_feedback request) = Inr fb"
    "claim_feedback_operation (fb_run_id request) kd fp (fb_requested_changes request) fb (rt_claimed clock) d
      = (Inr operation, d1)" "op_state operation = OP_IN_PROGRESS"
    "prepare_revision sd st operation artifact_id (rt_now clock) (d1, s) = (Inl e, (d1, s1))"
    "is_output_error e \<or> e = CompositionArtifactError"
  shows "\<exists>d2. submit_feedback sd casefold time_text st other artifact_id clock request key (d, s)
      = (Inl (RevisionServiceError RS_REVISION_FAILED), (d2, s1))
    \<and> run_phase (fb_run_id request) \<lparr>sys_db = d2, sys_analyzing = A\<rparr> = Retryable
    \<and> (\<forall>kd' fp' t. \<exists>retry d3. claim_retry_operation (fb_run_id request) kd' fp' t d2 = (Inr retry, d3)
        \<and> op_requested_changes retry = fb_requested_changes request)"
proof -
  let ?rid = "fb_run_id request"
  note revising = claimed_is_revising[OF assms(1,5,6)]
  obtain w where w: "w \<in> set (db_operations d1)" "ow_id w = op_id operation" "ow_run_id w = ?rid"
    "ow_state w = OP_IN_PROGRESS" "ow_requested_changes w = Some (fb_requested_changes request)"
    using revising(4) by blast
  obtain r where r: "db_runs d1 ?rid = Some r"
    using in_phase_status[OF revising(1)] by (auto simp: view_simps)
  obtain res d2 where failed: "fail_revision_operation ?rid (op_id operation) CONNECTION_BEFORE_ACCEPTANCE RETRY_ONCE
      (rt_failed clock) d1 = (res, d2)"
    by (cases "fail_revision_operation ?rid (op_id operation) CONNECTION_BEFORE_ACCEPTANCE RETRY_ONCE (rt_failed clock) d1")
  have status: "map_option rr_status (db_runs d2 ?rid) = Some FAILED_RETRYABLE"
    using fail_open_operation(1)[OF revising(2) w(1,4), of r CONNECTION_BEFORE_ACCEPTANCE "rt_failed clock"] r w(2,3) failed
    by (simp add: set_status_def)
  have reach1: "reachable \<lparr>sys_db = d1, sys_analyzing = A\<rparr>"
    using reachable.step[OF assms(1) Claim_Feedback[OF assms(5)]] .
  have kind: "in_progress_operation ?rid (op_id operation) FEEDBACK d1"
    using w open_operation_phase[OF revising(1,2) w(1,3,4)] by (auto simp: in_progress_operation_def)
  have "step \<lparr>sys_db = d1, sys_analyzing = A\<rparr> ?rid \<lparr>sys_db = d2, sys_analyzing = A\<rparr>"
    using Fail_Revision[OF kind, of "rt_failed clock"] failed by (simp add: failure_action_def)
  then have reach2: "reachable \<lparr>sys_db = d2, sys_analyzing = A\<rparr>"
    by (rule reachable.step[OF reach1])
  have phase: "run_phase ?rid \<lparr>sys_db = d2, sys_analyzing = A\<rparr> = Retryable"
    using reachable_status[OF reach2, of ?rid] status by (simp flip: phase_status_cases(4))
  have answer: "submit_feedback sd casefold time_text st other artifact_id clock request key (d, s)
      = (Inl (RevisionServiceError RS_REVISION_FAILED), (d2, s1))"
  proof -
    have "on_failure st operation artifact_id False (rt_failed clock) False e (d1, s1)
        = (Inl (RevisionServiceError RS_REVISION_FAILED), (d2, s1))"
      using failed assms(8) revising(3)
      by (auto simp: on_failure_def answer_failure_def failure_code_def bind_def on_db_eq catch_def
          is_output_error_def split: sum.splits)
    then show ?thesis
      using assms(2-7) by (simp add: submit_feedback_def bind_def on_db_eq map_claim_errors_eq execute_revision_def
          try_parts_def)
  qed
  have view: "in_phase Retryable (view_run ?rid d2)"
    using inv_run_phase[OF reachable_inv[OF reach2], of ?rid] phase by simp
  have "\<exists>retry d3. claim_retry_operation ?rid kd' fp' t d2 = (Inr retry, d3)
        \<and> op_requested_changes retry = fb_requested_changes request" for kd' fp' t
  proof -
    obtain retry d3 v where v: "claim_retry_operation ?rid kd' fp' t d2 = (Inr retry, d3)"
      "operations_of ?rid d2 = [v]" "op_requested_changes retry = op_requested_changes (operation_record_of v)"
      using retryable_accepts_retry[OF view reachable_ids[OF reach2]] by blast
    have "operations_of ?rid d1 = [w]"
      using open_operation_phase[OF revising(1,2) w(1,3,4)] by auto
    then have only: "v' = w" if "v' \<in> set (db_operations d1)" "ow_run_id v' = ?rid" for v'
      using that set_operations_of[of v' ?rid d1] by simp
    have rows: "db_operations d2 = map (\<lambda>v. if ow_id v = ow_id w \<and> ow_run_id v = ow_run_id w \<and> ow_state v = OP_IN_PROGRESS
        then failed_operation CONNECTION_BEFORE_ACCEPTANCE RETRY_ONCE (rt_failed clock) v else v) (db_operations d1)"
      using fail_open_operation(2)[OF revising(2) w(1,4), of r CONNECTION_BEFORE_ACCEPTANCE "rt_failed clock"] r w(2,3) failed
      by simp
    have "v \<in> set (db_operations d2)" "ow_run_id v = ?rid"
      using v(2) set_operations_of[of v ?rid d2] by auto
    with rows obtain v' where "v' \<in> set (db_operations d1)" "ow_run_id v' = ?rid"
      "ow_requested_changes v = ow_requested_changes v'"
      by (auto simp: failed_operation_def split: if_splits)
    with only w(5) have "ow_requested_changes v = Some (fb_requested_changes request)"
      by metis
    then show ?thesis
      using v by (auto simp: operation_record_of_def)
  qed
  with phase answer show ?thesis
    by blast
qed

subsection \<open>Revising the reviewed run\<close>

abbreviation reviewed_db :: db where
  "reviewed_db \<equiv> demo_db READY 6 (demo_context 5) None []"

definition demo_revision_request :: feedback_request where
  "demo_revision_request = \<lparr>fb_run_id = 1, fb_feedback = lit ''Shorter'', fb_requested_changes = [SHORTEN_BODY],
     fb_submitted_at = utc 7\<rparr>"

definition demo_clock :: revision_clock where
  "demo_clock = \<lparr>rt_claimed = utc 7, rt_now = utc 8, rt_reviewed = utc 9, rt_failed = utc 9\<rparr>"

abbreviation demo_key :: pystr where
  "demo_key \<equiv> replicate 16 97"

lemma demo_clock_range: "in_range (dt_add (utc 8) (hours 24))"
  by (simp add: in_range_def wall_clock_def epoch_day_def day_us_def year_start_def day_number_def
      hours_def seconds_def)

lemma demo_digests:
  "\<exists>kd fp fb. key_digest demo_key = Inr kd \<and> fingerprint (feedback_json isoformat demo_revision_request) = Inr fp
    \<and> digest_text (fb_feedback demo_revision_request) = Inr fb"
proof -
  have encodes: "\<exists>h. digest_text s = Inr h" if "list_all plain_char s" for s
    using decode_encode_utf8(1)[OF that] by (simp add: digest_text_def)
  have "readable (feedback_json isoformat demo_revision_request)"
    by (simp add: feedback_json_def demo_revision_request_def plain_isoformat plain_uuid_str)
      (simp add: lit_def plain_char_def is_surrogate_def)
  then have "list_all plain_char (dumps False (feedback_json isoformat demo_revision_request))"
    by (rule dumps_plain(1))
  then have "\<exists>fp. fingerprint (feedback_json isoformat demo_revision_request) = Inr fp"
    using encodes by (simp add: fingerprint_def)
  moreover have "\<exists>kd. key_digest demo_key = Inr kd"
    using encodes[of demo_key] by (simp add: key_digest_def is_idempotency_key_def is_lower_def plain_char_def
        is_surrogate_def list_all_iff)
  moreover have "\<exists>fb. digest_text (fb_feedback demo_revision_request) = Inr fb"
    by (rule encodes) (simp add: demo_revision_request_def lit_def plain_char_def is_surrogate_def)
  ultimately show ?thesis
    by blast
qed

lemma demo_claim:
  "claim_feedback_operation 1 kd fp [SHORTEN_BODY] fb (utc 7) reviewed_db
    = (Inr (operation_record_of (feedback_operation_row 1 1 kd fp [SHORTEN_BODY] fb (utc 7))),
       demo_db IN_PROGRESS 7 (demo_context 5) None [feedback_operation_row 1 1 kd fp [SHORTEN_BODY] fb (utc 7)])"
proof -
  have ids: "ids_ok reviewed_db"
    by (simp add: ids_ok_def demo_db_def)
  show ?thesis
    by (simp add: claim_feedback_eq[OF ids]) (simp add: select_operation_def demo_db_def no_open_operation_def
        claimed_feedback_def set_status_def)
qed

lemma demo_revision_inputs:
  assumes "n = 5 \<or> n = 6" "0 \<le> t"
  shows "\<exists>run. read_revision_inputs 1 (demo_db IN_PROGRESS t (demo_context n) None ops) = Inr
    \<lparr>ri_run = run, ri_analysis = demo_analysis,
     ri_confirmation = \<lparr>bk_brand_lock = orbit_lock, bk_confirmed_at = utc 3\<rparr>,
     ri_draft = \<lparr>dr_brief = demo_brief, dr_ad_copy = demo_copy, dr_fact_references = demo_facts,
        dr_rule_ids = [], dr_generated_at = utc 4\<rparr>, ri_previous = demo_composition 11\<rparr>
    \<and> pr_id run = 1 \<and> pr_direction run = CHINA_TO_UK \<and> pr_warning_codes run = []"
proof -
  let ?d = "demo_db IN_PROGRESS t (demo_context n) None ops"
  have "get_composition 1 ?d = Inr (Some (demo_composition 11))" "get_request 1 ?d = Inr demo_request"
    "get_analysis 1 ?d = Inr (Some demo_analysis)"
    "get_confirmed_brand_lock 1 ?d = Inr (Some \<lparr>bk_brand_lock = orbit_lock, bk_confirmed_at = utc 3\<rparr>)"
    "get_draft 1 ?d = Inr (Some \<lparr>dr_brief = demo_brief, dr_ad_copy = demo_copy,
        dr_fact_references = demo_facts, dr_rule_ids = [], dr_generated_at = utc 4\<rparr>)"
    "get_critique 1 ?d = Inr (Some \<lparr>ck_report = demo_report 6, ck_reviewed_at = utc 6\<rparr>)"
    using assms(1)
    by (auto simp: get_composition_def get_request_def get_analysis_def get_confirmed_brand_lock_def
      get_draft_def get_critique_def get_context_def context_draft_def draft_record_of_def confirmation_record_def
      critique_record_of_def demo_defs demo_report_def)
  moreover obtain run where "get_run 1 ?d = Inr run" "pr_id run = 1" "pr_direction run = CHINA_TO_UK"
    "pr_warning_codes run = []"
    using demo_get_run[OF assms(2), of IN_PROGRESS n None ops] by simp
  moreover have "rc_execution_mode demo_request = FIXTURE" "cr_status (demo_report 6) = PASS"
    by (simp_all add: demo_request_def demo_report_def)
  ultimately show ?thesis
    by (simp add: read_revision_inputs_def)
qed

lemma demo_revise: "revise CHINA_TO_UK \<lparr>dr_brief = demo_brief, dr_ad_copy = demo_copy, dr_fact_references = demo_facts,
        dr_rule_ids = [], dr_generated_at = utc 4\<rparr> [SHORTEN_BODY]
    = Inr \<lparr>ra_brief = demo_brief, ra_ad_copy = revised_copy CHINA_TO_UK demo_copy [SHORTEN_BODY],
        ra_fact_references = demo_facts, ra_rule_ids = []\<rparr>"
proof -
  have "valid_ad_copy demo_copy"
    by (simp add: valid_ad_copy_def demo_copy_def text_literals)
  then show ?thesis
    using revise_eq[of "\<lparr>dr_brief = demo_brief, dr_ad_copy = demo_copy, dr_fact_references = demo_facts,
        dr_rule_ids = [], dr_generated_at = utc 4\<rparr>" CHINA_TO_UK "[SHORTEN_BODY]"]
    by (simp add: demo_brief_def)
qed

lemma demo_revised_render:
  "\<exists>a. render_ad tiny_studio 1 CHINA_TO_UK demo_brief orbit_lock (revised_copy CHINA_TO_UK demo_copy [SHORTEN_BODY]) = Inr a"
  by (rule tiny_render)
    (simp_all add: revised_copy_def demo_copy_def lit_def is_space_def is_white_def orbit_lock_def)

abbreviation revising_db :: "pystr \<Rightarrow> pystr \<Rightarrow> pystr \<Rightarrow> db" where
  "revising_db kd fp fb \<equiv>
     demo_db IN_PROGRESS 7 (demo_context 5) None [feedback_operation_row 1 1 kd fp [SHORTEN_BODY] fb (utc 7)]"

lemma reviewed_reachable: "reachable \<lparr>sys_db = reviewed_db, sys_analyzing = {}\<rparr>"
  using demo_reachable(2) by (simp add: demo_sys_def)

text \<open>On a full disk the directory cannot be made.\<close>

definition full_disk :: disk where
  "full_disk = \<lparr>dk_files = [], dk_verdicts = [Fails]\<rparr>"

lemma demo_prepare_fails:
  "prepare_revision tiny_studio (disk_operations 10000)
     (operation_record_of (feedback_operation_row 1 1 kd fp [SHORTEN_BODY] fb (utc 7))) 21 (utc 8)
     (revising_db kd fp fb, full_disk) = (Inl OSError, (revising_db kd fp fb, empty_disk))"
proof -
  obtain run where inputs: "read_revision_inputs 1 (revising_db kd fp fb) = Inr
    \<lparr>ri_run = run, ri_analysis = demo_analysis,
     ri_confirmation = \<lparr>bk_brand_lock = orbit_lock, bk_confirmed_at = utc 3\<rparr>,
     ri_draft = \<lparr>dr_brief = demo_brief, dr_ad_copy = demo_copy, dr_fact_references = demo_facts,
        dr_rule_ids = [], dr_generated_at = utc 4\<rparr>, ri_previous = demo_composition 11\<rparr>"
    "pr_id run = 1" "pr_direction run = CHINA_TO_UK"
    using demo_revision_inputs[of 5 7] by auto
  obtain a where a: "render_ad tiny_studio 1 CHINA_TO_UK demo_brief orbit_lock
      (revised_copy CHINA_TO_UK demo_copy [SHORTEN_BODY]) = Inr a"
    using demo_revised_render by blast
  have "save_artifact 10000 21 (ca_png_bytes a) (dt_add (utc 8) (hours 24)) full_disk = (Inl OSError, empty_disk)"
    using tiny_png[OF a] by (simp add: save_artifact_def require_utc_def Let_def bind_def make_directory_def attempt_def
        full_disk_def empty_disk_def)
  with inputs a show ?thesis
    by (simp add: prepare_revision_def bind_def on_db_eq on_store_eq disk_operations_def operation_record_of_def
        feedback_operation_row_def demo_revise)
qed

theorem storage_error_closes_run_witness:
  "\<exists>d1. submit_feedback tiny_studio (\<lambda>s. s) isoformat (disk_operations 10000) (\<lambda>d. d) 21 demo_clock
      demo_revision_request demo_key (reviewed_db, full_disk)
      = (Inl (RevisionServiceError RS_REVISION_FAILED), (d1, empty_disk))
    \<and> run_phase 1 \<lparr>sys_db = d1, sys_analyzing = {}\<rparr> = Revising"
proof -
  obtain kd fp fb where digests: "key_digest demo_key = Inr kd"
    "fingerprint (feedback_json isoformat demo_revision_request) = Inr fp"
    "digest_text (fb_feedback demo_revision_request) = Inr fb"
    using demo_digests by blast
  have claim: "claim_feedback_operation (fb_run_id demo_revision_request) kd fp (fb_requested_changes demo_revision_request)
      fb (rt_claimed demo_clock) reviewed_db
      = (Inr (operation_record_of (feedback_operation_row 1 1 kd fp [SHORTEN_BODY] fb (utc 7))), revising_db kd fp fb)"
    using demo_claim by (simp add: demo_revision_request_def demo_clock_def)
  have failing: "prepare_revision tiny_studio (disk_operations 10000)
     (operation_record_of (feedback_operation_row 1 1 kd fp [SHORTEN_BODY] fb (utc 7))) 21 (rt_now demo_clock)
     (revising_db kd fp fb, full_disk) = (Inl OSError, (revising_db kd fp fb, empty_disk))"
    using demo_prepare_fails by (simp add: demo_clock_def)
  have in_progress: "op_state (operation_record_of (feedback_operation_row 1 1 kd fp [SHORTEN_BODY] fb (utc 7))) = OP_IN_PROGRESS"
    by (simp add: operation_record_of_def feedback_operation_row_def)
  have rid: "fb_run_id demo_revision_request = 1"
    by (simp add: demo_revision_request_def)
  from storage_error_closes_run[OF reviewed_reachable digests claim in_progress failing] show ?thesis
    unfolding rid by blast
qed

lemma demo_review:
  assumes "cq_analysis q = demo_analysis" "cq_warning_codes q = []" "is_utc now"
  shows "\<exists>report. review casefold q now = Inr report"
proof -
  have "length (issue_values casefold q) \<le> 32" "length (review_warnings q) \<le> 32"
    using assms by (simp_all add: issue_values_def evidence_issues_def demo_analysis_def review_warnings_def dict_fromkeys_def)
  then show ?thesis
    using review_outcome[of q now casefold] assms by (simp add: demo_analysis_def)
qed

lemma demo_complete:
  assumes "n = 5 \<or> n = 6" "select_operation (\<lambda>w. ow_id w = oid \<and> ow_run_id w = 1) (demo_db IN_PROGRESS t (demo_context n) None ops) = Some w"
    "ow_state w = OP_IN_PROGRESS"
  shows "\<exists>v' d'. complete_revision 1 oid v response (demo_db IN_PROGRESS t (demo_context n) None ops) = (Inr v', d')"
proof -
  have "cx_human_revision_count (demo_context n) = 0"
    using assms(1) by (auto simp: demo_context_def)
  then show ?thesis
    using assms(2,3)
    by (simp add: complete_revision_def connect_def bind_def catch_def insert_revision_def update_contexts_def
        update_operations_def update_runs_def demo_db_def get_revision_def Let_def)
qed

lemma demo_execute:
  assumes "n = 5 \<or> n = 6" "0 \<le> t" "operation = operation_record_of w" "ow_run_id w = 1" "ow_state w = OP_IN_PROGRESS"
    "ow_requested_changes w = Some [SHORTEN_BODY]"
    "select_operation (\<lambda>v. ow_id v = ow_id w \<and> ow_run_id v = 1) (demo_db IN_PROGRESS t (demo_context n) None ops) = Some w"
  shows "\<exists>response w'. execute_revision tiny_studio (\<lambda>s. s) (disk_operations 10000) (\<lambda>d. d) 21 demo_clock operation retrying
      (demo_db IN_PROGRESS t (demo_context n) None ops, empty_disk) = (Inr response, w')"
proof -
  let ?d = "demo_db IN_PROGRESS t (demo_context n) None ops"
  have op: "op_run_id operation = 1" "op_requested_changes operation = [SHORTEN_BODY]" "op_id operation = ow_id w"
    using assms(3,4,6) by (simp_all add: operation_record_of_def)
  obtain run where inputs: "read_revision_inputs 1 ?d = Inr
    \<lparr>ri_run = run, ri_analysis = demo_analysis,
     ri_confirmation = \<lparr>bk_brand_lock = orbit_lock, bk_confirmed_at = utc 3\<rparr>,
     ri_draft = \<lparr>dr_brief = demo_brief, dr_ad_copy = demo_copy, dr_fact_references = demo_facts,
        dr_rule_ids = [], dr_generated_at = utc 4\<rparr>, ri_previous = demo_composition 11\<rparr>"
    "pr_id run = 1" "pr_direction run = CHINA_TO_UK" "pr_warning_codes run = []"
    using demo_revision_inputs[OF assms(1,2)] by blast
  obtain a where a: "render_ad tiny_studio 1 CHINA_TO_UK demo_brief orbit_lock
      (revised_copy CHINA_TO_UK demo_copy [SHORTEN_BODY]) = Inr a"
    using demo_revised_render by blast
  let ?c = "composition_summary 1 21 a (utc 8)"
  note made = render_ad_Inr(1)[OF working_tiny_studio a, of "utc 8" 21]
    render_ad_Inr(3)[OF working_tiny_studio a, of "utc 8"]
  obtain s' where saved: "save_artifact 10000 21 (ca_png_bytes a) (dt_add (utc 8) (hours 24)) empty_disk
      = (Inr (artifact_record 21 (ca_png_bytes a) (dt_add (utc 8) (hours 24))), s')"
    using save_artifact_quiet[of empty_disk 21 "dt_add (utc 8) (hours 24)" "ca_png_bytes a" 10000] tiny_png[OF a]
    by (auto simp: empty_disk_def file_at_def)
  let ?revised = "\<lparr>ra_brief = demo_brief, ra_ad_copy = revised_copy CHINA_TO_UK demo_copy [SHORTEN_BODY],
        ra_fact_references = demo_facts, ra_rule_ids = []\<rparr>"
  obtain report where report: "review (\<lambda>s. s) \<lparr>cq_analysis = demo_analysis, cq_confirmed_brand_lock = orbit_lock,
      cq_draft = revised_draft ?revised (utc 8), cq_composition = ?c, cq_warning_codes = []\<rparr> (utc 9) = Inr report"
    using demo_review[of "\<lparr>cq_analysis = demo_analysis, cq_confirmed_brand_lock = orbit_lock,
      cq_draft = revised_draft ?revised (utc 8), cq_composition = ?c, cq_warning_codes = []\<rparr>" "utc 9"] by auto
  obtain current where current: "get_run 1 ?d = Inr current" "0 \<le> pr_technical_attempt_count current"
    using demo_get_run[OF assms(2), of IN_PROGRESS n None ops] by (simp add: demo_context_def)
  obtain digest where digest: "feedback_digest_of operation = Inr digest"
  proof -
    have "\<exists>h. digest_text [] = Inr h"
      by (simp add: digest_text_def encode_utf8_def)
    then show ?thesis
      using that by (cases "op_feedback_digest operation"; cases "the (op_feedback_digest operation)")
        (auto simp: feedback_digest_of_def)
  qed
  define i where "i = \<lparr>ri_run = run, ri_analysis = demo_analysis,
     ri_confirmation = \<lparr>bk_brand_lock = orbit_lock, bk_confirmed_at = utc 3\<rparr>,
     ri_draft = \<lparr>dr_brief = demo_brief, dr_ad_copy = demo_copy, dr_fact_references = demo_facts,
        dr_rule_ids = [], dr_generated_at = utc 4\<rparr>, ri_previous = demo_composition 11\<rparr>"
  let ?response = "revision_response i ?revised ?c report current"
  have response: "make_revision_completed ?response = Inr ?response"
    using review_reviewed_at[OF report] current(2) inputs(2)
    by (simp add: make_revision_completed_def valid_revision_completed_def preserve_revision_identity_def
        revision_response_def i_def revised_copy_def demo_copy_def demo_brief_def composition_summary_def
        demo_composition_def) (simp add: orbit_lock_def)
  obtain v' d' where completed: "complete_revision 1 (ow_id w) (revision_record_for operation 1 digest
      (revised_draft ?revised (utc 8)) ?c report) ?response ?d = (Inr v', d')"
    using demo_complete[OF assms(1,7,5)] by blast
  have prepared: "prepare_revision tiny_studio (disk_operations 10000) operation 21 (utc 8) (?d, empty_disk)
      = (Inr (i, ?revised, a, artifact_record 21 (ca_png_bytes a) (dt_add (utc 8) (hours 24))), (?d, s'))"
    using inputs op a saved
    by (simp add: prepare_revision_def bind_def on_db_eq on_store_eq disk_operations_def demo_revise i_def)
  have finished: "finish_revision (\<lambda>s. s) operation 21 demo_clock
      (i, ?revised, a, artifact_record 21 (ca_png_bytes a) (dt_add (utc 8) (hours 24))) ?d = (Inr ?response, d')"
    using made report current(1) response digest completed inputs(2,4) op(3)
    by (simp add: finish_revision_def Let_def i_def demo_clock_def artifact_record_def bind_def)
  show ?thesis
    using prepared finished
    by (simp add: execute_revision_def try_parts_def catch_def bind_def on_db_eq demo_clock_def)
qed

subsection \<open>Witnesses\<close>

lemma revised_run_facts: "is_utc (rt_now demo_clock)" "in_range (dt_add (rt_now demo_clock) (hours 24))"
  using demo_clock_range by (simp_all add: demo_clock_def)

theorem feedback_is_consistent_witness:
  "\<exists>response d' s' operation a. submit_feedback tiny_studio (\<lambda>s. s) isoformat (disk_operations 10000) (\<lambda>d. d) 21 demo_clock
      demo_revision_request demo_key (reviewed_db, empty_disk) = (Inr response, (d', s'))
    \<and> leads_to reviewed_db {} d' \<and> completes_revision tiny_studio 21 (utc 8) operation response a d'"
proof -
  obtain kd fp fb where digests: "key_digest demo_key = Inr kd"
    "fingerprint (feedback_json isoformat demo_revision_request) = Inr fp"
    "digest_text (fb_feedback demo_revision_request) = Inr fb"
    using demo_digests by blast
  let ?w = "feedback_operation_row 1 1 kd fp [SHORTEN_BODY] fb (utc 7)"
  have "\<exists>response w'. execute_revision tiny_studio (\<lambda>s. s) (disk_operations 10000) (\<lambda>d. d) 21 demo_clock
      (operation_record_of ?w) False (revising_db kd fp fb, empty_disk) = (Inr response, w')"
    by (rule demo_execute[where w = ?w]) (simp_all add: feedback_operation_row_def select_operation_def demo_db_def)
  then obtain response d' s' where executed: "execute_revision tiny_studio (\<lambda>s. s) (disk_operations 10000) (\<lambda>d. d) 21
      demo_clock (operation_record_of ?w) False (revising_db kd fp fb, empty_disk) = (Inr response, (d', s'))"
    by force
  have state: "op_state (operation_record_of ?w) = OP_IN_PROGRESS"
    by (simp add: operation_record_of_def feedback_operation_row_def)
  have run: "submit_feedback tiny_studio (\<lambda>s. s) isoformat (disk_operations 10000) (\<lambda>d. d) 21 demo_clock
      demo_revision_request demo_key (reviewed_db, empty_disk) = (Inr response, (d', s'))"
    using digests executed state demo_claim
    by (simp add: submit_feedback_def bind_def on_db_eq map_claim_errors_eq demo_revision_request_def demo_clock_def)
  have "\<not> recorded_response FEEDBACK 1 k j response reviewed_db" for k j
    by (simp add: recorded_response_def demo_db_def)
  with feedback_is_consistent[OF working_tiny_studio revised_run_facts nothing_stored law_abiding_id
      reviewed_reachable run] run show ?thesis
    by (fastforce simp: demo_revision_request_def demo_clock_def)
qed

abbreviation retryable_db :: db where
  "retryable_db \<equiv> demo_db FAILED_RETRYABLE 8 (demo_context 5) None [demo_failed_feedback]"

definition demo_retry_request :: retry_request where
  "demo_retry_request = \<lparr>rq_run_id = 1, rq_reason_category = REASON_GENERATION\<rparr>"

lemma demo_claim_retry:
  "claim_retry_operation 1 kd fp (utc 7) retryable_db
    = (Inr (operation_record_of (retry_operation_row 2 1 kd fp demo_failed_feedback (utc 7))),
       demo_db IN_PROGRESS 7 (demo_context 6) None
         [demo_failed_feedback, retry_operation_row 2 1 kd fp demo_failed_feedback (utc 7)])"
proof -
  have ids: "ids_ok retryable_db"
    by (simp add: ids_ok_def demo_db_def demo_failed_feedback_def failed_operation_def demo_feedback_def
        feedback_operation_row_def)
  have "last_failure 1 retryable_db = Some demo_failed_feedback"
    by (simp add: last_failure_def select_last_operation_def demo_db_def is_operation_def demo_failed_feedback_def
        failed_operation_def demo_feedback_def feedback_operation_row_def retryable_actions_def)
  moreover have "select_operation (\<lambda>w. is_operation 1 RETRY w \<and> ow_key_digest w = kd) retryable_db = None"
    by (simp add: select_operation_def demo_db_def is_operation_def demo_failed_feedback_def
        failed_operation_def demo_feedback_def feedback_operation_row_def)
  moreover have "claimed_retry 1 kd fp demo_failed_feedback (utc 7) retryable_db = demo_db IN_PROGRESS 7 (demo_context 6) None
      [demo_failed_feedback, retry_operation_row 2 1 kd fp demo_failed_feedback (utc 7)]"
    by (simp add: claimed_retry_def demo_defs set_status_def)
  ultimately show ?thesis
    by (simp add: claim_retry_eq[OF ids]) (simp add: demo_db_def)
qed

theorem retry_is_consistent_witness:
  "\<exists>response d' s' operation a. retry_revision tiny_studio (\<lambda>s. s) (disk_operations 10000) (\<lambda>d. d) 21 demo_clock
      demo_retry_request demo_key (retryable_db, empty_disk) = (Inr response, (d', s'))
    \<and> leads_to retryable_db {} d' \<and> completes_revision tiny_studio 21 (utc 8) operation response a d'"
proof -
  have plain: "\<exists>h. digest_text s = Inr h" if "list_all plain_char s" for s
    using decode_encode_utf8(1)[OF that] by (simp add: digest_text_def)
  have "readable (retry_json demo_retry_request)"
    by (simp add: retry_json_def demo_retry_request_def plain_uuid_str) (simp add: lit_def plain_char_def is_surrogate_def)
  then obtain fp where fp: "fingerprint (retry_json demo_retry_request) = Inr fp"
    using plain[OF dumps_plain(1)] by (auto simp: fingerprint_def)
  obtain kd where kd: "key_digest demo_key = Inr kd"
    using demo_digests by blast
  let ?w = "retry_operation_row 2 1 kd fp demo_failed_feedback (utc 7)"
  let ?d = "demo_db IN_PROGRESS 7 (demo_context 6) None [demo_failed_feedback, ?w]"
  note rows = demo_failed_feedback_def failed_operation_def demo_feedback_def operation_row_defs retryable_actions_def
  have "\<exists>response w'. execute_revision tiny_studio (\<lambda>s. s) (disk_operations 10000) (\<lambda>d. d) 21 demo_clock
      (operation_record_of ?w) True (?d, empty_disk) = (Inr response, w')"
    by (rule demo_execute[where w = ?w]) (simp_all add: rows select_operation_def demo_db_def)
  then obtain response d' s' where executed: "execute_revision tiny_studio (\<lambda>s. s) (disk_operations 10000) (\<lambda>d. d) 21
      demo_clock (operation_record_of ?w) True (?d, empty_disk) = (Inr response, (d', s'))"
    by force
  have state: "op_state (operation_record_of ?w) = OP_IN_PROGRESS"
    "op_retry_condition (operation_record_of ?w) = Some CONNECTION_BEFORE_ACCEPTANCE"
    "op_retry_action (operation_record_of ?w) = Some RETRY_ONCE"
    by (simp_all add: operation_record_of_def rows)
  obtain current where current: "get_run 1 ?d = Inr current" "pr_technical_attempt_count current = 1"
    using demo_get_run[of 7 IN_PROGRESS 6 None "[demo_failed_feedback, ?w]"] by (simp add: demo_context_def)
  have decision: "decide_retry CONNECTION_BEFORE_ACCEPTANCE 0 None = Inr \<lparr>rd_action = RETRY_ONCE, rd_next_status = IN_PROGRESS\<rparr>"
    by (simp add: decide_retry_def)
  have run: "retry_revision tiny_studio (\<lambda>s. s) (disk_operations 10000) (\<lambda>d. d) 21 demo_clock
      demo_retry_request demo_key (retryable_db, empty_disk) = (Inr response, (d', s'))"
    using kd fp executed state demo_claim_retry[of kd fp] current decision
    by (simp add: retry_revision_def bind_def on_db_eq map_claim_errors_eq demo_retry_request_def demo_clock_def
        retryable_actions_def)
  have "\<not> recorded_response RETRY 1 k j response retryable_db" for k j
    by (simp add: recorded_response_def demo_db_def is_operation_def rows)
  moreover have "reachable (demo_sys FAILED_RETRYABLE 8 5 [demo_failed_feedback])"
    using demo_reachable(2) demo_steps(8,9) reachable.step by meson
  then have "reachable \<lparr>sys_db = retryable_db, sys_analyzing = {}\<rparr>"
    by (simp add: demo_sys_def)
  moreover note retry_is_consistent[OF working_tiny_studio revised_run_facts nothing_stored law_abiding_id this run]
  ultimately show ?thesis
    using run by (fastforce simp: demo_retry_request_def demo_clock_def)
qed

theorem failed_rendering_can_be_retried_witness:
  "\<exists>d2. submit_feedback tiny_studio (\<lambda>s. s) isoformat (disk_operations 8) (\<lambda>d. d) 21 demo_clock
      demo_revision_request demo_key (reviewed_db, empty_disk)
      = (Inl (RevisionServiceError RS_REVISION_FAILED), (d2, empty_disk))
    \<and> run_phase 1 \<lparr>sys_db = d2, sys_analyzing = {}\<rparr> = Retryable"
proof -
  obtain kd fp fb where digests: "key_digest demo_key = Inr kd"
    "fingerprint (feedback_json isoformat demo_revision_request) = Inr fp"
    "digest_text (fb_feedback demo_revision_request) = Inr fb"
    using demo_digests by blast
  let ?op = "operation_record_of (feedback_operation_row 1 1 kd fp [SHORTEN_BODY] fb (utc 7))"
  have claim: "claim_feedback_operation (fb_run_id demo_revision_request) kd fp (fb_requested_changes demo_revision_request)
      fb (rt_claimed demo_clock) reviewed_db = (Inr ?op, revising_db kd fp fb)"
    using demo_claim by (simp add: demo_revision_request_def demo_clock_def)
  obtain run where inputs: "read_revision_inputs 1 (revising_db kd fp fb) = Inr
    \<lparr>ri_run = run, ri_analysis = demo_analysis,
     ri_confirmation = \<lparr>bk_brand_lock = orbit_lock, bk_confirmed_at = utc 3\<rparr>,
     ri_draft = \<lparr>dr_brief = demo_brief, dr_ad_copy = demo_copy, dr_fact_references = demo_facts,
        dr_rule_ids = [], dr_generated_at = utc 4\<rparr>, ri_previous = demo_composition 11\<rparr>"
    "pr_id run = 1" "pr_direction run = CHINA_TO_UK"
    using demo_revision_inputs[of 5 7] by auto
  obtain a where a: "render_ad tiny_studio 1 CHINA_TO_UK demo_brief orbit_lock
      (revised_copy CHINA_TO_UK demo_copy [SHORTEN_BODY]) = Inr a"
    using demo_revised_render by blast
  have "save_artifact 8 21 (ca_png_bytes a) (dt_add (utc 8) (hours 24)) empty_disk = (Inl CompositionArtifactError, empty_disk)"
    using tiny_png[OF a] by (simp add: save_artifact_def require_utc_def)
  with inputs a have failing: "prepare_revision tiny_studio (disk_operations 8) ?op 21 (rt_now demo_clock)
     (revising_db kd fp fb, empty_disk) = (Inl CompositionArtifactError, (revising_db kd fp fb, empty_disk))"
    by (simp add: prepare_revision_def bind_def on_db_eq on_store_eq disk_operations_def operation_record_of_def
        feedback_operation_row_def demo_revise demo_clock_def)
  have state: "op_state ?op = OP_IN_PROGRESS"
    by (simp add: operation_record_of_def feedback_operation_row_def)
  have rid: "fb_run_id demo_revision_request = 1"
    by (simp add: demo_revision_request_def)
  from failed_rendering_can_be_retried[OF reviewed_reachable digests claim state failing] show ?thesis
    unfolding rid by blast
qed

end
