(* ===== verification/Capability_Tokens.thy ===== *)
theory Capability_Tokens
  imports Json "HOL-Library.List_Lexorder" "HOL-Library.Multiset"
begin

section \<open>Capability tokens\<close>

text \<open>
  The model of \<open>src/cultureshift/capability_tokens.py\<close>: the token is the base64 of a JSON
  payload, a point, and the base64 of its HMAC-SHA-256. The theorem
  \<open>issued_token_grants_exactly\<close> says for every issued token what verification answers.
  A \<open>datetime\<close> is unbounded here (the code's \<open>OverflowError\<close> for years beyond 9999 is not
  modelled), and a signed payload whose \<open>v\<close>, \<open>iat\<close> or \<open>exp\<close> is not an integer, which the
  service never writes, is refused.
\<close>

datatype capability =
    READ_PROJECT_RUN
  | ANALYZE_PROJECT_RUN
  | UPDATE_PROJECT_RUN
  | DELETE_ASSET

fun capability_value :: "capability \<Rightarrow> pystr" where
  "capability_value READ_PROJECT_RUN = lit ''project_run:read''"
| "capability_value ANALYZE_PROJECT_RUN = lit ''project_run:analyze''"
| "capability_value UPDATE_PROJECT_RUN = lit ''project_run:update''"
| "capability_value DELETE_ASSET = lit ''asset:delete''"

text \<open>\<open>Capability(value)\<close>.\<close>

definition capability_of :: "json \<Rightarrow> capability result" where
  "capability_of v =
     (case List.find (\<lambda>c. v = JStr (capability_value c))
        [READ_PROJECT_RUN, ANALYZE_PROJECT_RUN, UPDATE_PROJECT_RUN, DELETE_ASSET] of
        None \<Rightarrow> Inl ValueError | Some c \<Rightarrow> Inr c)"

record capability_claims =
  cm_subject :: json
  cm_audience :: pystr
  cm_capabilities :: "capability list"
  cm_issued_at :: datetime
  cm_expires_at :: datetime

record token_service =
  ts_secret :: bytes
  ts_audience :: pystr

definition make_token_service :: "bytes \<Rightarrow> pystr \<Rightarrow> token_service result" where
  "make_token_service secret audience =
     (if length secret < 32 then Inl ValueError
      else if audience = [] then Inl ValueError
      else Inr \<lparr>ts_secret = secret, ts_audience = audience\<rparr>)"

text \<open>\<open>int(value.timestamp())\<close>, which truncates towards zero.\<close>

definition int_timestamp :: "datetime \<Rightarrow> int" where
  "int_timestamp t = (if 0 \<le> instant t then instant t div 1000000
     else - ((- instant t) div 1000000))"

definition from_timestamp :: "int \<Rightarrow> datetime" where
  "from_timestamp n = utc (seconds n)"

definition signature :: "token_service \<Rightarrow> bytes \<Rightarrow> pystr" where
  "signature ts encoded = b64_encode (hmac_sha256 (ts_secret ts) encoded)"

definition token_payload ::
  "token_service \<Rightarrow> pystr \<Rightarrow> capability list \<Rightarrow> timedelta \<Rightarrow> datetime \<Rightarrow> json" where
  "token_payload ts subject capabilities ttl issued_at = JObj
     [(lit ''aud'', JStr (ts_audience ts)),
      (lit ''cap'', JArr (map JStr (sort (map capability_value (remdups capabilities))))),
      (lit ''exp'', JInt (int_timestamp (dt_add issued_at ttl))),
      (lit ''iat'', JInt (int_timestamp issued_at)),
      (lit ''sub'', JStr subject),
      (lit ''v'', JInt 1)]"

text \<open>The set of capabilities is a list whose order and repetitions do not matter; the keys of
  the payload are already in the order of \<open>sort_keys\<close>.\<close>

definition issue ::
  "token_service \<Rightarrow> pystr \<Rightarrow> capability list \<Rightarrow> timedelta \<Rightarrow> datetime \<Rightarrow> pystr result" where
  "issue ts subject capabilities ttl now =
     (if subject = [] \<or> capabilities = [] then Inl ValueError
      else if ttl \<le> 0 then Inl ValueError
      else if \<not> is_aware now then Inl ValueError
      else bindR (encode_utf8 (dumps True (token_payload ts subject capabilities ttl now))) (\<lambda>body.
        let encoded = b64_encode body in
        bindR (encode_ascii encoded) (\<lambda>bs. Inr (encoded @ [46] @ signature ts bs))))"

text \<open>\<open>token.split(".", maxsplit=1)\<close> unpacked into two parts.\<close>

definition split_token :: "pystr \<Rightarrow> (pystr \<times> pystr) result" where
  "split_token token = (case dropWhile (\<lambda>c. c \<noteq> 46) token of
     [] \<Rightarrow> Inl ValueError
   | _ # rest \<Rightarrow> Inr (takeWhile (\<lambda>c. c \<noteq> 46) token, rest))"

text \<open>\<open>hmac.compare_digest\<close> on strings, which raises when one is not ASCII.\<close>

definition compare_digest :: "pystr \<Rightarrow> pystr \<Rightarrow> bool result" where
  "compare_digest a b = (if list_all (\<lambda>c. c < 128) a \<and> list_all (\<lambda>c. c < 128) b
     then Inr (a = b) else Inl TypeError)"

definition iterate :: "json \<Rightarrow> (json list) result" where
  "iterate j = (case j of
     JArr js \<Rightarrow> Inr js
   | JObj ms \<Rightarrow> Inr (map (JStr \<circ> fst) ms)
   | JStr s \<Rightarrow> Inr (map (\<lambda>c. JStr [c]) s)
   | _ \<Rightarrow> Inl TypeError)"

definition integer :: "json \<Rightarrow> int result" where
  "integer j = (case j of JInt i \<Rightarrow> Inr i | JBool b \<Rightarrow> Inr (if b then 1 else 0) | _ \<Rightarrow> Inl TypeError)"

definition check_payload ::
  "token_service \<Rightarrow> json \<Rightarrow> capability \<Rightarrow> datetime \<Rightarrow> capability_claims result" where
  "check_payload ts payload required now =
     bindR (member (lit ''cap'') payload) (\<lambda>cap.
     bindR (iterate cap) (\<lambda>values.
     bindR (mapR capability_of values) (\<lambda>capabilities.
     if \<not> is_aware now then Inl CapabilityTokenError
     else if (case member (lit ''v'') payload of
         Inl _ \<Rightarrow> True | Inr v \<Rightarrow> integer v \<noteq> Inr 1) then Inl CapabilityTokenError
     else bindR (member (lit ''aud'') payload) (\<lambda>aud.
     if aud \<noteq> JStr (ts_audience ts) then Inl CapabilityTokenError
     else if required \<notin> set capabilities then Inl CapabilityTokenError
     else bindR (bindR (member (lit ''exp'') payload) integer) (\<lambda>expires.
     if expires \<le> int_timestamp now then Inl CapabilityTokenError
     else bindR (member (lit ''sub'') payload) (\<lambda>sub.
     bindR (bindR (member (lit ''iat'') payload) integer) (\<lambda>issued.
     Inr \<lparr>cm_subject = sub, cm_audience = ts_audience ts, cm_capabilities = capabilities,
       cm_issued_at = from_timestamp issued, cm_expires_at = from_timestamp expires\<rparr>)))))))"

definition verify ::
  "(bytes \<Rightarrow> pystr result) \<Rightarrow> token_service \<Rightarrow> pystr \<Rightarrow> capability \<Rightarrow> datetime
    \<Rightarrow> capability_claims result" where
  "verify decode ts token required now =
     (case bindR (split_token token) (\<lambda>(encoded, supplied).
        bindR (encode_ascii encoded) (\<lambda>bs.
        bindR (compare_digest supplied (signature ts bs)) (\<lambda>same.
        if \<not> same then Inl CapabilityTokenError
        else bindR (b64_decode encoded) (\<lambda>body.
          bindR (loads_bytes decode body) (\<lambda>payload.
          check_payload ts payload required now))))) of
        Inr claims \<Rightarrow> Inr claims
      | Inl _ \<Rightarrow> Inl CapabilityTokenError)"

subsection \<open>Facts\<close>

lemma capability_of_value [simp]: "capability_of (JStr (capability_value c)) = Inr c"
  by (cases c) (simp_all add: capability_of_def)

lemma capability_value_inj: "inj capability_value"
proof (rule injI)
  fix c d assume "capability_value c = capability_value d"
  then show "c = d" by (cases c; cases d) simp_all
qed

lemma mapR_capabilities [simp]:
  "mapR capability_of (map (JStr \<circ> capability_value) cs) = Inr cs"
  by (induction cs) simp_all

lemma b64_ascii: "list_all (\<lambda>c. c < 128) (b64_encode bs)"
  using b64_encode_chars by (auto simp: list_all_iff)

lemma split_token_issued: "split_token (b64_encode bs @ [46] @ sig) = Inr (b64_encode bs, sig)"
proof -
  have chars: "\<forall>c \<in> set (b64_encode bs). c \<noteq> 46"
    using b64_encode_chars by blast
  then have "takeWhile (\<lambda>c. c \<noteq> 46) (b64_encode bs @ [46] @ sig) = b64_encode bs"
    "dropWhile (\<lambda>c. c \<noteq> 46) (b64_encode bs @ [46] @ sig) = 46 # sig"
    by (simp_all add: takeWhile_append2 dropWhile_append2)
  then show ?thesis
    by (simp only: split_token_def) simp
qed

lemma sort_capabilities:
  "sort (map capability_value cs) = map capability_value (sort_key capability_value cs)"
  by (rule properties_for_sort) simp_all

lemma readable_payload:
  "list_all plain_char (ts_audience ts) \<Longrightarrow> list_all plain_char subject \<Longrightarrow>
     readable (token_payload ts subject caps ttl now)"
proof -
  have val: "list_all plain_char (capability_value c)" for c
    by (cases c) (simp_all add: lit_def plain_char_def is_surrogate_def)
  have "list_all readable (map JStr (sort (map capability_value cs)))" for cs
    using val by (simp add: list_all_iff)
  moreover have "list_all plain_char (lit s)" if "s \<in> {''aud'', ''cap'', ''exp'', ''iat'', ''sub'', ''v''}" for s
    using that by (auto simp: lit_def plain_char_def is_surrogate_def)
  moreover assume "list_all plain_char (ts_audience ts)" "list_all plain_char subject"
  ultimately show ?thesis
    by (simp add: token_payload_def)
qed

definition token_claims ::
  "token_service \<Rightarrow> pystr \<Rightarrow> capability list \<Rightarrow> timedelta \<Rightarrow> datetime \<Rightarrow> capability_claims" where
  "token_claims ts subject caps ttl now = \<lparr>cm_subject = JStr subject, cm_audience = ts_audience ts,
     cm_capabilities = sort_key capability_value (remdups caps),
     cm_issued_at = from_timestamp (int_timestamp now),
     cm_expires_at = from_timestamp (int_timestamp (dt_add now ttl))\<rparr>"

lemma check_issued_payload:
  "check_payload ts (token_payload ts subject caps ttl issued) required now =
     (if is_aware now \<and> required \<in> set caps \<and> int_timestamp now < int_timestamp (dt_add issued ttl)
      then Inr (token_claims ts subject caps ttl issued) else Inl CapabilityTokenError)"
proof -
  have caps: "mapR capability_of (map JStr (sort (map capability_value cs))) =
      Inr (sort_key capability_value cs)" for cs
    by (simp add: sort_capabilities)
  show ?thesis
    by (simp add: check_payload_def token_payload_def member_def iterate_def integer_def caps
        token_claims_def not_le)
qed

lemma issue_Inr_iff:
  assumes "list_all plain_char (ts_audience ts)" "list_all plain_char subject"
  shows "issue ts subject caps ttl now = Inr token \<longleftrightarrow>
    subject \<noteq> [] \<and> caps \<noteq> [] \<and> 0 < ttl \<and> is_aware now \<and>
    (\<exists>body. token = b64_encode body @ [46] @ signature ts (map word_of_nat (b64_encode body))
       \<and> ascii_text body = dumps True (token_payload ts subject caps ttl now)
       \<and> list_all (\<lambda>b. 0 < unat b \<and> unat b < 128) body
       \<and> body = map word_of_nat (dumps True (token_payload ts subject caps ttl now)))"
proof -
  define s where "s = dumps True (token_payload ts subject caps ttl now)"
  have range: "\<forall>c \<in> set s. 32 \<le> c \<and> c < 127"
    using dumps_range(1)[OF readable_payload[OF assms]] by (auto simp: s_def)
  then have "encode_utf8 s = Inr (map word_of_nat s)"
    by (intro encode_utf8_ascii) auto
  moreover have "ascii_text (map word_of_nat s) = s"
    using range by (intro ascii_text_encode) (auto simp: list_all_iff)
  moreover have "list_all (\<lambda>b. 0 < unat b \<and> unat b < 128) (map word_of_nat s :: bytes)"
    using range by (auto simp: list_all_iff unat_of_nat)
  moreover have "encode_ascii (b64_encode bs) = Inr (map word_of_nat (b64_encode bs))" for bs
    using b64_ascii by (simp add: encode_ascii_def)
  ultimately show ?thesis
    by (auto simp: issue_def Let_def s_def[symmetric])
qed

lemma verify_issued:
  assumes "list_all plain_char (ts_audience ts)" "list_all plain_char subject"
    and "issue ts subject caps ttl issued = Inr token"
  shows "verify decode ts token required now =
    (if is_aware now \<and> required \<in> set caps \<and> int_timestamp now < int_timestamp (dt_add issued ttl)
     then Inr (token_claims ts subject caps ttl issued) else Inl CapabilityTokenError)"
proof -
  from assms(3) issue_Inr_iff[OF assms(1,2)] obtain body where
    token: "token = b64_encode body @ [46] @ signature ts (map word_of_nat (b64_encode body))"
    and body: "ascii_text body = dumps True (token_payload ts subject caps ttl issued)"
    "list_all (\<lambda>b. 0 < unat b \<and> unat b < 128) body"
    by blast
  have "loads_bytes decode body = Inr (token_payload ts subject caps ttl issued)"
    using body loads_dumps[OF readable_payload[OF assms(1,2)]] by (simp add: loads_bytes_def)
  moreover have "compare_digest (signature ts bs) (signature ts bs) = Inr True" for bs
    using b64_ascii by (simp add: compare_digest_def signature_def)
  moreover have "encode_ascii (b64_encode body) = Inr (map word_of_nat (b64_encode body))"
    using b64_ascii by (simp add: encode_ascii_def)
  ultimately show ?thesis
    by (simp add: verify_def token split_token_issued check_issued_payload
        del: append_Cons)
qed

text \<open>
  C32. An issued token grants exactly what it was issued for: verification answers the claims it
  was issued with when the required capability is among them and the token has not expired, and
  raises the one unspecific \<open>CapabilityTokenError\<close> otherwise, whatever the codec for other text.
\<close>

theorem issued_token_grants_exactly:
  assumes "list_all plain_char (ts_audience ts)" "list_all plain_char subject"
    and "issue ts subject caps ttl issued = Inr token"
  shows "verify decode ts token required now =
    (if is_aware now \<and> required \<in> set caps \<and> int_timestamp now < int_timestamp (dt_add issued ttl)
     then Inr (token_claims ts subject caps ttl issued) else Inl CapabilityTokenError)"
  using assms by (rule verify_issued)

lemma check_payload_grants:
  "check_payload ts payload required now = Inr claims \<Longrightarrow>
     is_aware now \<and> required \<in> set (cm_capabilities claims) \<and> cm_audience claims = ts_audience ts
     \<and> instant (from_timestamp (int_timestamp now)) < instant (cm_expires_at claims)"
  by (auto simp: check_payload_def from_timestamp_def seconds_def split: if_splits)

lemma verify_authentic:
  assumes "verify decode ts token required now = Inr claims"
  shows "\<exists>encoded. token = encoded @ [46] @ signature ts (map word_of_nat encoded)
    \<and> is_aware now \<and> required \<in> set (cm_capabilities claims) \<and> cm_audience claims = ts_audience ts
    \<and> instant (from_timestamp (int_timestamp now)) < instant (cm_expires_at claims)"
proof -
  from assms obtain encoded supplied bs body payload where
    split: "split_token token = Inr (encoded, supplied)" "encode_ascii encoded = Inr bs"
    "compare_digest supplied (signature ts bs) = Inr True"
    and payload: "check_payload ts payload required now = Inr claims"
    by (auto simp: verify_def split: sum.splits prod.splits if_splits)
  from split(1) obtain c where c: "dropWhile (\<lambda>c. c \<noteq> 46) token = c # supplied"
    "encoded = takeWhile (\<lambda>c. c \<noteq> 46) token"
    by (auto simp: split_token_def split: list.splits)
  then have "c = 46"
    using hd_dropWhile[of "\<lambda>c. c \<noteq> 46" token] by simp
  then have "token = encoded @ [46] @ supplied"
    using c takeWhile_dropWhile_id[of "\<lambda>c. c \<noteq> 46" token] by simp
  moreover have "supplied = signature ts (map word_of_nat encoded)"
    using split(2,3) by (auto simp: encode_ascii_def compare_digest_def split: if_splits)
  ultimately show ?thesis
    using check_payload_grants[OF payload] by blast
qed

text \<open>
  Verification is sound: whatever text is presented as a token, when claims come back the text
  carries the HMAC of its payload under the service's secret, names the service's audience and
  the required capability, and has not expired.
\<close>

theorem verified_token_is_authentic:
  assumes "verify decode ts token required now = Inr claims"
  shows "\<exists>encoded. token = encoded @ [46] @ signature ts (map word_of_nat encoded)
    \<and> is_aware now \<and> required \<in> set (cm_capabilities claims) \<and> cm_audience claims = ts_audience ts
    \<and> instant (from_timestamp (int_timestamp now)) < instant (cm_expires_at claims)"
  using assms by (rule verify_authentic)

text \<open>The token of the witnesses.\<close>

definition demo_service :: token_service where
  "demo_service = \<lparr>ts_secret = replicate 32 7, ts_audience = lit ''cultureshift-api''\<rparr>"

lemma demo_token:
  "\<exists>token. issue demo_service (lit ''run'') [READ_PROJECT_RUN] (seconds 900) (utc 0) = Inr token"
  "list_all plain_char (ts_audience demo_service)" "list_all plain_char (lit ''run'')"
proof -
  show plain: "list_all plain_char (ts_audience demo_service)" "list_all plain_char (lit ''run'')"
    by (simp_all add: demo_service_def lit_def plain_char_def is_surrogate_def)
  define body :: bytes where "body = map word_of_nat
     (dumps True (token_payload demo_service (lit ''run'') [READ_PROJECT_RUN] (seconds 900) (utc 0)))"
  have range: "\<forall>c \<in> set (dumps True (token_payload demo_service (lit ''run'') [READ_PROJECT_RUN]
      (seconds 900) (utc 0))). 32 \<le> c \<and> c < 127"
    using dumps_range(1)[OF readable_payload[OF plain]] by auto
  have "ascii_text body = dumps True
      (token_payload demo_service (lit ''run'') [READ_PROJECT_RUN] (seconds 900) (utc 0))"
    unfolding body_def using range by (intro ascii_text_encode) (auto simp: list_all_iff)
  moreover have "list_all (\<lambda>b. 0 < unat b \<and> unat b < 128) body"
    unfolding body_def using range by (auto simp: list_all_iff unat_of_nat)
  ultimately show "\<exists>token. issue demo_service (lit ''run'') [READ_PROJECT_RUN] (seconds 900) (utc 0) = Inr token"
    using body_def by (auto simp: issue_Inr_iff[OF plain] seconds_def)
qed

theorem issued_token_grants_exactly_witness:
  "\<exists>token claims. issue demo_service (lit ''run'') [READ_PROJECT_RUN] (seconds 900) (utc 0) = Inr token
    \<and> verify (\<lambda>_. Inl ValueError) demo_service token READ_PROJECT_RUN (utc (seconds 899)) = Inr claims
    \<and> verify (\<lambda>_. Inl ValueError) demo_service token READ_PROJECT_RUN (utc (seconds 900))
        = Inl CapabilityTokenError
    \<and> verify (\<lambda>_. Inl ValueError) demo_service token UPDATE_PROJECT_RUN (utc (seconds 899))
        = Inl CapabilityTokenError"
proof -
  obtain token where token:
    "issue demo_service (lit ''run'') [READ_PROJECT_RUN] (seconds 900) (utc 0) = Inr token"
    using demo_token(1) by blast
  show ?thesis
    using token issued_token_grants_exactly[OF demo_token(2,3) token, of "\<lambda>_. Inl ValueError"]
    by (simp add: int_timestamp_def seconds_def)
qed

theorem verified_token_is_authentic_witness:
  "\<exists>token claims encoded. verify (\<lambda>_. Inl ValueError) demo_service token READ_PROJECT_RUN (utc 0) = Inr claims
    \<and> token = encoded @ [46] @ signature demo_service (map word_of_nat encoded)"
proof -
  obtain token where token:
    "issue demo_service (lit ''run'') [READ_PROJECT_RUN] (seconds 900) (utc 0) = Inr token"
    using demo_token(1) by blast
  from issued_token_grants_exactly[OF demo_token(2,3) token, of "\<lambda>_. Inl ValueError"] obtain claims where
    claims: "verify (\<lambda>_. Inl ValueError) demo_service token READ_PROJECT_RUN (utc 0) = Inr claims"
    by (simp add: int_timestamp_def seconds_def)
  show ?thesis
    using verified_token_is_authentic[OF claims] claims by blast
qed

end
