(* ===== verification/Asset_Storage.thy ===== *)
theory Asset_Storage
  imports Disk Text_Codecs Media_Types
begin

section \<open>The temporary store of source assets\<close>

text \<open>
  The model of \<open>TemporaryAssetStore\<close> (\<open>src/cultureshift/asset_storage.py\<close>) on the directory of
  \<open>Disk\<close>: an uploaded image and its metadata are two files written under temporary names and moved into
  place, and a deletion leaves a tombstone that closes the identifier. \<open>pydantic\<close> bundles what the store
  uses of pydantic's own text formats; every other check of the metadata is the contract's.
\<close>

subsection \<open>Records and names\<close>

record stored_asset =
  sd_asset :: asset_ref
  sd_size_bytes :: int
  sd_created_at :: datetime

record loaded_asset =
  ld_asset :: asset_ref
  ld_content :: bytes

definition ASSET_TTL :: int where "ASSET_TTL = hours 24"
definition TOMBSTONE_TTL :: int where "TOMBSTONE_TTL = hours (7 * 24)"

definition asset_file :: "uuid \<Rightarrow> pystr \<Rightarrow> pystr" where
  "asset_file aid suffix = uuid_str aid @ 46 # suffix"

abbreviation asset_part :: "uuid \<Rightarrow> pystr" where "asset_part aid \<equiv> asset_file aid (lit ''part'')"
abbreviation meta_part :: "uuid \<Rightarrow> pystr" where "meta_part aid \<equiv> asset_file aid (lit ''meta.part'')"
abbreviation meta_path :: "uuid \<Rightarrow> pystr" where "meta_path aid \<equiv> asset_file aid (lit ''meta.json'')"

definition id_digest :: "uuid \<Rightarrow> pystr" where
  "id_digest aid = sha256_hex (map word_of_nat (uuid_str aid))"

definition tombstone_path :: "uuid \<Rightarrow> pystr" where
  "tombstone_path aid = lit ''tombstones/'' @ id_digest aid @ lit ''.json''"

definition tombstone_part :: "uuid \<Rightarrow> pystr" where
  "tombstone_part aid = lit ''tombstones/'' @ id_digest aid @ lit ''.part''"

definition is_closed :: "uuid \<Rightarrow> disk \<Rightarrow> bool" where
  "is_closed aid d \<longleftrightarrow> file_exists (tombstone_path aid) d"

definition require_utc_time :: "datetime \<Rightarrow> datetime result" where
  "require_utc_time t = (if is_utc t then Inr t else Inl ValueError)"

subsection \<open>The metadata document\<close>

record pydantic =
  py_time_text :: "datetime \<Rightarrow> pystr"
  py_read_uuid :: "pystr \<Rightarrow> uuid option"
  py_read_time :: "json \<Rightarrow> datetime option"

definition asset_json :: "pydantic \<Rightarrow> asset_ref \<Rightarrow> json" where
  "asset_json py a = JObj
     [(lit ''asset_id'', JStr (uuid_str (as_asset_id a))),
      (lit ''expires_at'', case as_expires_at a of None \<Rightarrow> JNull | Some t \<Rightarrow> JStr (py_time_text py t)),
      (lit ''kind'', JStr (lit ''source_ad'')),
      (lit ''media_type'', JStr (as_media_type a)),
      (lit ''provenance_ref'', JStr (as_provenance_ref a)),
      (lit ''rights_ref'', JStr (as_rights_ref a)),
      (lit ''sha256'', JStr (as_sha256 a))]"

definition metadata_json :: "pydantic \<Rightarrow> stored_asset \<Rightarrow> json" where
  "metadata_json py s = JObj
     [(lit ''asset'', asset_json py (sd_asset s)),
      (lit ''created_at'', JStr (isoformat (sd_created_at s))),
      (lit ''size_bytes'', JInt (sd_size_bytes s))]"

definition metadata_bytes :: "pydantic \<Rightarrow> stored_asset \<Rightarrow> bytes" where
  "metadata_bytes py s = json_bytes (metadata_json py s) @ [10]"

text \<open>\<open>SourceAdAssetRef.model_validate\<close>: no field beside the seven, six of them required, each of its
  type, and then the checks of the contract.\<close>

definition asset_fields :: "pystr list" where
  "asset_fields = [lit ''asset_id'', lit ''expires_at'', lit ''kind'', lit ''media_type'', lit ''provenance_ref'',
     lit ''rights_ref'', lit ''sha256'']"

definition string_field :: "string \<Rightarrow> (pystr \<times> json) list \<Rightarrow> pystr option" where
  "string_field key ms = (case map_of ms (lit key) of Some (JStr s) \<Rightarrow> Some s | _ \<Rightarrow> None)"

definition expiry_field :: "pydantic \<Rightarrow> (pystr \<times> json) list \<Rightarrow> datetime option option" where
  "expiry_field py ms = (case map_of ms (lit ''expires_at'') of None \<Rightarrow> Some None | Some JNull \<Rightarrow> Some None
     | Some j \<Rightarrow> map_option Some (py_read_time py j))"

definition validate_asset :: "pydantic \<Rightarrow> json \<Rightarrow> asset_ref result" where
  "validate_asset py j = (case j of
     JObj ms \<Rightarrow>
       if \<not> list_all (\<lambda>(k, v). k \<in> set asset_fields) ms \<or> string_field ''kind'' ms \<noteq> Some (lit ''source_ad'')
       then Inl ValidationError
       else (case (Option.bind (string_field ''asset_id'' ms) (py_read_uuid py), string_field ''media_type'' ms,
           string_field ''sha256'' ms, string_field ''provenance_ref'' ms, string_field ''rights_ref'' ms,
           expiry_field py ms) of
         (Some aid, Some media_type, Some sha, Some provenance, Some rights, Some expires) \<Rightarrow>
           make_source_ad_asset_ref \<lparr>as_asset_id = aid, as_kind = SOURCE_AD, as_media_type = media_type,
             as_sha256 = sha, as_provenance_ref = provenance, as_rights_ref = rights, as_expires_at = expires\<rparr>
       | _ \<Rightarrow> Inl ValidationError)
   | _ \<Rightarrow> Inl ValidationError)"

definition time_value :: "json \<Rightarrow> datetime result" where
  "time_value v = (case v of JStr s \<Rightarrow> bindR (fromisoformat s) require_utc_time | _ \<Rightarrow> Inl TypeError)"

text \<open>What \<open>load\<close> reads of the document before it compares anything: the asset, the size as it stands and
  the time.\<close>

definition parse_metadata :: "pydantic \<Rightarrow> bytes \<Rightarrow> (asset_ref \<times> json \<times> datetime) result" where
  "parse_metadata py raw =
     bindR (bindR (decode_utf8 raw) loads) (\<lambda>metadata.
     bindR (bindR (member (lit ''asset'') metadata) (validate_asset py)) (\<lambda>asset.
     bindR (member (lit ''size_bytes'') metadata) (\<lambda>size_bytes.
     bindR (bindR (member (lit ''created_at'') metadata) time_value) (\<lambda>created_at.
     Inr (asset, size_bytes, created_at)))))"

definition acceptable_size :: "json \<Rightarrow> bool" where
  "acceptable_size v = (case v of JInt n \<Rightarrow> 1 \<le> n \<and> n \<le> int MAX_ASSET_BYTES | _ \<Rightarrow> False)"

subsection \<open>Operations\<close>

definition read_bounded :: "pystr \<Rightarrow> nat \<Rightarrow> (exn, disk, bytes) prog" where
  "read_bounded name limit =
     bind (catch (read_file name) (\<lambda>e. raise (if is_OSError e then AssetStorageError else e))) (\<lambda>content.
     if limit < length content then raise AssetStorageError else return content)"

text \<open>\<open>path.stat().st_size\<close>\<close>

definition file_size :: "pystr \<Rightarrow> (exn, disk, nat) prog" where
  "file_size name = bind (read_file name) (\<lambda>content. return (length content))"

definition new_asset :: "uuid \<Rightarrow> pystr \<Rightarrow> bytes \<Rightarrow> pystr \<Rightarrow> pystr \<Rightarrow> datetime \<Rightarrow> asset_ref" where
  "new_asset aid media_type data provenance rights created_at = \<lparr>as_asset_id = aid, as_kind = SOURCE_AD,
     as_media_type = media_type, as_sha256 = sha256_hex data, as_provenance_ref = provenance,
     as_rights_ref = rights, as_expires_at = Some (dt_add created_at ASSET_TTL)\<rparr>"

text \<open>Everything \<open>store\<close> checks before it takes the lock.\<close>

definition prepare_asset ::
  "uuid \<Rightarrow> bytes \<Rightarrow> pystr \<Rightarrow> pystr \<Rightarrow> pystr \<Rightarrow> datetime \<Rightarrow> (stored_asset \<times> pystr) result" where
  "prepare_asset aid data declared provenance_ref rights_ref now =
     (if extension_of declared = None then Inl UnsupportedAssetTypeError
      else if data = [] then Inl AssetEmptyError
      else if MAX_ASSET_BYTES < length data then Inl AssetTooLargeError
      else if detect_media_type data \<noteq> Some declared then Inl AssetTypeMismatchError
      else case (validate_public_reference provenance_ref, validate_public_reference rights_ref) of
        (Inr provenance, Inr rights) \<Rightarrow>
          bindR (require_utc_time now) (\<lambda>created_at.
          bindR (make_source_ad_asset_ref (new_asset aid declared data provenance rights created_at)) (\<lambda>asset.
          Inr (\<lparr>sd_asset = asset, sd_size_bytes = int (length data), sd_created_at = created_at\<rparr>,
            the (extension_of declared))))
      | _ \<Rightarrow> Inl AssetMetadataError)"

definition check_open :: "uuid \<Rightarrow> (exn, disk, unit) prog" where
  "check_open aid = bind (reads (\<lambda>d. Inr (is_closed aid d))) (\<lambda>closed.
     if closed then raise AssetLifecycleClosedError else return ())"

definition place_files :: "uuid \<Rightarrow> pystr \<Rightarrow> bytes \<Rightarrow> bytes \<Rightarrow> (exn, disk, unit) prog" where
  "place_files aid extension data metadata =
     bind make_directory (\<lambda>_.
     bind (write_exclusive (asset_part aid) data) (\<lambda>_.
     bind (write_exclusive (meta_part aid) metadata) (\<lambda>_.
     bind (check_open aid) (\<lambda>_.
     bind (replace_file (asset_part aid) (asset_file aid extension)) (\<lambda>_.
     bind (check_open aid) (\<lambda>_.
     bind (replace_file (meta_part aid) (meta_path aid)) (\<lambda>_.
     check_open aid)))))))"

definition remove_files :: "uuid \<Rightarrow> pystr \<Rightarrow> (exn, disk, unit) prog" where
  "remove_files aid extension = for_each unlink_missing_ok
     [asset_part aid, meta_part aid, asset_file aid extension, meta_path aid]"

definition store_asset ::
  "pydantic \<Rightarrow> uuid \<Rightarrow> bytes \<Rightarrow> pystr \<Rightarrow> pystr \<Rightarrow> pystr \<Rightarrow> datetime \<Rightarrow> (exn, disk, stored_asset) prog" where
  "store_asset py aid data declared provenance_ref rights_ref now =
     bind (liftR (prepare_asset aid data declared provenance_ref rights_ref now)) (\<lambda>(stored, extension).
     bind (check_open aid) (\<lambda>_.
     bind (catch (place_files aid extension data (metadata_bytes py stored)) (\<lambda>e.
       if e = AssetLifecycleClosedError
       then bind (remove_files aid extension) (\<lambda>_. raise e)
       else if is_OSError e then bind (remove_files aid extension) (\<lambda>_. raise AssetStorageError)
       else raise e)) (\<lambda>_.
     return stored)))"

text \<open>The body of the \<open>try\<close> of \<open>load\<close>.\<close>

definition read_asset :: "pydantic \<Rightarrow> uuid \<Rightarrow> datetime \<Rightarrow> (exn, disk, asset_ref \<times> int \<times> bytes) prog" where
  "read_asset py aid loaded_at =
     bind (read_bounded (meta_path aid) MAX_METADATA_BYTES) (\<lambda>raw.
     bind (liftR (parse_metadata py raw)) (\<lambda>(asset, size_bytes, created_at).
     if as_asset_id asset \<noteq> aid \<or> \<not> acceptable_size size_bytes \<or> instant loaded_at < instant created_at
     then raise ValueError
     else if (case as_expires_at asset of None \<Rightarrow> False | Some t \<Rightarrow> instant t \<le> instant loaded_at)
     then raise AssetLifecycleClosedError
     else case (extension_of (as_media_type asset), size_bytes) of
       (Some extension, JInt n_bytes) \<Rightarrow>
         bind (file_size (asset_file aid extension)) (\<lambda>n.
         if int n \<noteq> n_bytes then raise AssetStorageError
         else bind (read_bounded (asset_file aid extension) MAX_ASSET_BYTES) (\<lambda>content.
         return (asset, n_bytes, content)))
     | _ \<Rightarrow> raise KeyError))"

definition is_read_error :: "exn \<Rightarrow> bool" where
  "is_read_error e \<longleftrightarrow> e \<noteq> AssetLifecycleClosedError
     \<and> (is_OSError e \<or> e = KeyError \<or> e = TypeError \<or> is_ValueError e)"

definition load_asset :: "pydantic \<Rightarrow> uuid \<Rightarrow> datetime \<Rightarrow> (exn, disk, loaded_asset) prog" where
  "load_asset py aid now =
     bind (liftR (require_utc_time now)) (\<lambda>loaded_at.
     bind (check_open aid) (\<lambda>_.
     bind (catch (read_asset py aid loaded_at)
       (\<lambda>e. raise (if is_read_error e then AssetStorageError else e))) (\<lambda>(asset, n_bytes, content).
     if int (length content) \<noteq> n_bytes \<or> detect_media_type content \<noteq> Some (as_media_type asset)
       \<or> sha256_hex content \<noteq> as_sha256 asset
     then raise AssetStorageError
     else return \<lparr>ld_asset = asset, ld_content = content\<rparr>)))"

definition active_files :: "uuid \<Rightarrow> disk \<Rightarrow> pystr list" where
  "active_files aid d = filter (\<lambda>n. startswith n (asset_file aid []) \<and> 47 \<notin> set n) (map fst (dk_files d))"

definition tombstone_json :: "datetime \<Rightarrow> pystr \<Rightarrow> bool \<Rightarrow> json" where
  "tombstone_json deleted_at reason existed = JObj
     [(lit ''deleted_at'', JStr (isoformat deleted_at)), (lit ''reason'', JStr reason),
      (lit ''result'', JStr (if existed then lit ''removed'' else lit ''already_absent''))]"

definition write_tombstone :: "uuid \<Rightarrow> bytes \<Rightarrow> (exn, disk, unit) prog" where
  "write_tombstone aid payload =
     catch
       (bind (write_exclusive (tombstone_part aid) payload) (\<lambda>_.
        replace_file (tombstone_part aid) (tombstone_path aid)))
       (\<lambda>e. if is_OSError e
         then bind (unlink_missing_ok (tombstone_part aid)) (\<lambda>_. raise AssetStorageError)
         else raise e)"

definition delete_asset :: "uuid \<Rightarrow> pystr \<Rightarrow> datetime \<Rightarrow> (exn, disk, bool) prog" where
  "delete_asset aid reason now =
     bind (liftR (require_utc_time now)) (\<lambda>deleted_at.
     bind (reads (\<lambda>d. Inr (active_files aid d, is_closed aid d))) (\<lambda>(active, closed).
     let existed = active \<noteq> [] in
     bind (if closed then return () else
       bind make_directory (\<lambda>_.
       write_tombstone aid (json_bytes (tombstone_json deleted_at reason existed) @ [10]))) (\<lambda>_.
     bind (catch (for_each unlink_missing_ok active)
       (\<lambda>e. raise (if is_OSError e then AssetStorageError else e))) (\<lambda>_.
     return existed))))"

subsection \<open>Removing what has expired\<close>

definition metadata_files :: "disk \<Rightarrow> pystr list" where
  "metadata_files d = filter (\<lambda>n. endswith n (lit ''.meta.json'') \<and> 47 \<notin> set n) (map fst (dk_files d))"

definition tombstone_files :: "disk \<Rightarrow> pystr list" where
  "tombstone_files d = filter (\<lambda>n. startswith n (lit ''tombstones/'') \<and> endswith n (lit ''.json'')
     \<and> 47 \<notin> set (drop 11 n)) (map fst (dk_files d))"

definition expired_in :: "pydantic \<Rightarrow> datetime \<Rightarrow> bytes \<Rightarrow> uuid option result" where
  "expired_in py purge_at raw =
     bindR (bindR (decode_utf8 raw) loads) (\<lambda>metadata.
     bindR (bindR (member (lit ''asset'') metadata) (validate_asset py)) (\<lambda>asset.
     Inr (case as_expires_at asset of None \<Rightarrow> None
       | Some t \<Rightarrow> if instant t \<le> instant purge_at then Some (as_asset_id asset) else None)))"

fun find_expired :: "pydantic \<Rightarrow> datetime \<Rightarrow> pystr list \<Rightarrow> (exn, disk, uuid list) prog" where
  "find_expired py purge_at [] = return []"
| "find_expired py purge_at (n # ns) =
     bind (read_file n) (\<lambda>raw.
     bind (liftR (expired_in py purge_at raw)) (\<lambda>found.
     bind (find_expired py purge_at ns) (\<lambda>rest.
     return (case found of None \<Rightarrow> rest | Some aid \<Rightarrow> aid # rest))))"

fun delete_all :: "datetime \<Rightarrow> uuid list \<Rightarrow> (exn, disk, nat) prog" where
  "delete_all purge_at [] = return 0"
| "delete_all purge_at (aid # aids) =
     bind (delete_asset aid (lit ''expired'') purge_at) (\<lambda>existed.
     bind (delete_all purge_at aids) (\<lambda>n.
     return ((if existed then 1 else 0) + n)))"

text \<open>One round of the loop over the tombstones; \<open>continue\<close> ends it.\<close>

definition deleted_at_of :: "bytes \<Rightarrow> datetime result" where
  "deleted_at_of raw =
     bindR (bindR (decode_utf8 raw) loads) (\<lambda>payload.
     bindR (member (lit ''deleted_at'') payload) time_value)"

definition is_skipped :: "exn \<Rightarrow> bool" where
  "is_skipped e \<longleftrightarrow> is_OSError e \<or> e = KeyError \<or> is_ValueError e"

definition purge_tombstone :: "datetime \<Rightarrow> pystr \<Rightarrow> (exn, disk, unit) prog" where
  "purge_tombstone cutoff name =
     catch
       (bind (read_file name) (\<lambda>raw.
        bind (liftR (deleted_at_of raw)) (\<lambda>deleted_at.
        if instant deleted_at \<le> instant cutoff then unlink_missing_ok name else return ())))
       (\<lambda>e. if is_skipped e then return () else raise e)"

definition purge_expired :: "pydantic \<Rightarrow> datetime \<Rightarrow> (exn, disk, nat) prog" where
  "purge_expired py now =
     bind (liftR (require_utc_time now)) (\<lambda>purge_at.
     bind (catch (bind (reads (\<lambda>d. Inr (metadata_files d))) (find_expired py purge_at))
       (\<lambda>e. raise (if is_skipped e then AssetStorageError else e))) (\<lambda>expired.
     bind (delete_all purge_at expired) (\<lambda>removed.
     bind (reads (\<lambda>d. Inr (tombstone_files d))) (\<lambda>names.
     bind (for_each (purge_tombstone (dt_add purge_at (- TOMBSTONE_TTL))) names) (\<lambda>_.
     return removed)))))"

subsection \<open>The metadata reads back\<close>

text \<open>What the store relies on of pydantic: it reads back the identifiers and the times it writes, and a
  time is a short line of text.\<close>

definition pydantic_laws :: "pydantic \<Rightarrow> bool" where
  "pydantic_laws py \<longleftrightarrow> (\<forall>u. py_read_uuid py (uuid_str u) = Some u)
     \<and> (\<forall>t. is_utc t \<longrightarrow> in_range t \<longrightarrow> py_read_time py (JStr (py_time_text py t)) = Some t
          \<and> list_all plain_char (py_time_text py t) \<and> length (py_time_text py t) \<le> 64)"

lemma ends_number_newline [simp]: "ends_number [10]"
  by (simp add: ends_number_def is_digit_def)

lemma loads_line: "readable j \<Longrightarrow> loads (dumps a j @ [10]) = Inr j"
proof -
  assume j: "readable j"
  then have "skip_space (dumps a j @ [10]) = dumps a j @ [10]"
    using starts_value_dumps[of j a "[10]"] by (cases "dumps a j @ [10]") (simp_all add: starts_value_def)
  moreover have "read_value (Suc (Suc (length (dumps a j)))) (dumps a j @ [10]) = Some (j, [10])"
    using read_dumps(1)[OF j, of "[10]" a "Suc (Suc (length (dumps a j)))"] by (simp del: read_value.simps)
  ultimately show ?thesis
    by (simp add: loads_def skip_space_def is_json_space_def del: read_value.simps)
qed

lemma decode_line: "readable j \<Longrightarrow> decode_utf8 (json_bytes j @ [10]) = Inr (dumps True j @ [10])"
proof -
  assume "readable j"
  then have "\<forall>c \<in> set (dumps True j). c < 128"
    using dumps_range(1) by fastforce
  then show ?thesis
    using json_bytes_text(3)[OF \<open>readable j\<close>] by (simp add: decode_utf8_def ascii_text_def utf8_scan_ascii)
qed

lemma reference_plain: "is_public_reference r \<Longrightarrow> list_all plain_char r"
proof -
  have part: "list_all plain_char s" if "is_reference_path s" for s
    using that by (auto simp: is_reference_path_def is_alnum_def is_lower_def is_upper_def is_digit_def
      list_all_iff intro!: plain_ascii split: list.splits)
  have scheme: "list_all plain_char p" if "p \<in> set public_schemes" for p
    using that by (auto simp: public_schemes_def lit_def plain_char_def is_surrogate_def)
  assume "is_public_reference r"
  then obtain p t where "r = p @ t" "p \<in> set public_schemes" "is_reference_path t"
    by (auto simp: is_public_reference_def list_ex_iff startswith_iff)
  then show ?thesis
    using part[of t] scheme[of p] by (simp add: list_all_append)
qed

lemma readable_metadata:
  assumes "pydantic_laws py" "valid_source_ad_asset_ref (sd_asset s)" "as_media_type (sd_asset s) \<in> {image_png, image_jpeg}"
    "\<forall>t. as_expires_at (sd_asset s) = Some t \<longrightarrow> in_range t"
  shows "readable (metadata_json py s)"
proof -
  have digest: "list_all plain_char d" if "is_sha256 d" for d
    using that by (auto simp: is_sha256_def list_all_iff is_digit_def intro!: plain_ascii)
  have "\<forall>t. as_expires_at (sd_asset s) = Some t \<longrightarrow> list_all plain_char (py_time_text py t)"
    using assms by (auto simp: pydantic_laws_def valid_source_ad_asset_ref_def valid_asset_ref_def)
  moreover have "list_all plain_char (as_media_type (sd_asset s))"
    using assms(3) by (auto simp: lit_def plain_char_def is_surrogate_def)
  ultimately show ?thesis
    using assms(2) reference_plain digest plain_uuid_str plain_isoformat
    by (simp add: metadata_json_def asset_json_def valid_source_ad_asset_ref_def valid_asset_ref_def
        split: option.split)
      (simp add: lit_def plain_char_def is_surrogate_def)
qed

lemma nat_digits_length: "n < 10 ^ Suc k \<Longrightarrow> length (nat_digits n) \<le> Suc k"
proof (induction k arbitrary: n)
  case 0
  then show ?case by (simp add: nat_digits.simps)
next
  case (Suc k)
  then have "n div 10 < 10 ^ Suc k"
    by (simp add: less_mult_imp_div_less)
  with Suc.IH[of "n div 10"] show ?case
    by (subst nat_digits.simps) simp
qed

lemma length_escape: "length (escape_char True c) \<le> 12"
  by (simp add: escape_char_def u_escape_def length_hex_digits)

lemma length_json_string: "length (json_string True s) \<le> 12 * length s + 2"
proof -
  have "length (concat (map (escape_char True) s)) \<le> 12 * length s"
    using length_escape by (induction s) (auto intro: add_mono)
  then show ?thesis
    by (simp add: json_string_def)
qed


lemma int_text_length: "0 \<le> i \<Longrightarrow> i < 10 ^ Suc k \<Longrightarrow> length (int_text i) \<le> Suc k"
  using nat_digits_length[of "nat i" k] by (simp add: int_text_def nat_less_iff)

lemma iso_length: "is_utc t \<Longrightarrow> length (isoformat t) \<le> 32"
  by (cases t) (auto simp: isoformat_def iso_wall_def iso_offset_def clock_text_def Let_def case_prod_beta)

lemma metadata_length:
  assumes "pydantic_laws py" "valid_source_ad_asset_ref (sd_asset s)" "as_media_type (sd_asset s) \<in> {image_png, image_jpeg}"
    "\<forall>t. as_expires_at (sd_asset s) = Some t \<longrightarrow> in_range t" "is_utc (sd_created_at s)"
    "0 \<le> sd_size_bytes s" "sd_size_bytes s < 10 ^ 8"
  shows "length (metadata_bytes py s) \<le> MAX_METADATA_BYTES"
proof -
  let ?n = "\<lambda>s. length (json_string True s)"
  have time: "?n (py_time_text py t) \<le> 770" if "as_expires_at (sd_asset s) = Some t" for t
    using assms(1,2,4) that length_json_string[of "py_time_text py t"]
    by (fastforce simp: pydantic_laws_def valid_source_ad_asset_ref_def valid_asset_ref_def)
  have "?n (as_provenance_ref (sd_asset s)) \<le> 3074" "?n (as_rights_ref (sd_asset s)) \<le> 3074"
    "?n (as_sha256 (sd_asset s)) \<le> 770"
    using assms(2) length_json_string[of "as_provenance_ref (sd_asset s)"]
      length_json_string[of "as_rights_ref (sd_asset s)"] length_json_string[of "as_sha256 (sd_asset s)"]
    by (simp_all add: valid_source_ad_asset_ref_def valid_asset_ref_def is_public_reference_def is_sha256_def)
  moreover have "?n (as_media_type (sd_asset s)) \<le> 770"
    using assms(3) length_json_string[of "as_media_type (sd_asset s)"] by (auto simp: lit_def)
  moreover have "?n (uuid_str (as_asset_id (sd_asset s))) \<le> 434"
    using length_json_string[of "uuid_str (as_asset_id (sd_asset s))"] by (simp add: length_uuid_str)
  moreover have "?n (isoformat (sd_created_at s)) \<le> 386"
    using iso_length[OF assms(5)] length_json_string[of "isoformat (sd_created_at s)"] by simp
  moreover have "length (int_text (sd_size_bytes s)) \<le> 8"
    using int_text_length[of _ 7] assms(6,7) by simp
  moreover have "length (dumps True (case as_expires_at (sd_asset s) of None \<Rightarrow> JNull
      | Some t \<Rightarrow> JStr (py_time_text py t))) \<le> 770"
    using time by (simp add: lit_def split: option.split)
  moreover have "?n (lit k) \<le> 12 * length k + 2" for k
    using length_json_string[of "lit k"] by (simp add: lit_def)
  from this[of "''asset''"] this[of "''created_at''"] this[of "''size_bytes''"] this[of "''asset_id''"]
    this[of "''expires_at''"] this[of "''kind''"] this[of "''media_type''"] this[of "''provenance_ref''"]
    this[of "''rights_ref''"] this[of "''sha256''"] this[of "''source_ad''"]
  have "?n (lit ''asset'') + ?n (lit ''created_at'') + ?n (lit ''size_bytes'') + ?n (lit ''asset_id'')
    + ?n (lit ''expires_at'') + ?n (lit ''kind'') + ?n (lit ''media_type'') + ?n (lit ''provenance_ref'')
    + ?n (lit ''rights_ref'') + ?n (lit ''sha256'') + ?n (lit ''source_ad'') \<le> 2000"
    by simp
  ultimately show ?thesis
    by (simp add: metadata_bytes_def json_bytes_def metadata_json_def asset_json_def MAX_METADATA_BYTES_def)
qed

lemma make_asset_idem: "make_source_ad_asset_ref a = Inr b \<Longrightarrow> make_source_ad_asset_ref b = Inr b"
  by (auto simp: make_source_ad_asset_ref_def strip_asset_ref_def Let_def split: if_splits)

lemma validate_asset_json:
  assumes "pydantic_laws py" "make_source_ad_asset_ref a = Inr a"
    "\<forall>t. as_expires_at a = Some t \<longrightarrow> in_range t"
  shows "validate_asset py (asset_json py a) = Inr a"
proof -
  have kind: "as_kind a = SOURCE_AD" and utc: "\<forall>t. as_expires_at a = Some t \<longrightarrow> is_utc t"
    using assms(2) by (auto simp: make_source_ad_asset_ref_def Let_def valid_source_ad_asset_ref_def
      valid_asset_ref_def strip_asset_ref_def split: if_splits)
  have "expiry_field py [(lit ''asset_id'', JStr (uuid_str (as_asset_id a))),
      (lit ''expires_at'', case as_expires_at a of None \<Rightarrow> JNull | Some t \<Rightarrow> JStr (py_time_text py t)),
      (lit ''kind'', JStr (lit ''source_ad'')),
      (lit ''media_type'', JStr (as_media_type a)),
      (lit ''provenance_ref'', JStr (as_provenance_ref a)),
      (lit ''rights_ref'', JStr (as_rights_ref a)),
      (lit ''sha256'', JStr (as_sha256 a))] = Some (as_expires_at a)"
    using assms(1,3) utc by (auto simp: expiry_field_def pydantic_laws_def split: option.split)
  moreover have "py_read_uuid py (uuid_str u) = Some u" for u
    using assms(1) by (simp add: pydantic_laws_def)
  moreover have "\<lparr>as_asset_id = as_asset_id a, as_kind = SOURCE_AD, as_media_type = as_media_type a,
      as_sha256 = as_sha256 a, as_provenance_ref = as_provenance_ref a, as_rights_ref = as_rights_ref a,
      as_expires_at = as_expires_at a\<rparr> = a"
    using kind by simp
  ultimately show ?thesis
    using assms(2) by (simp add: validate_asset_def asset_json_def asset_fields_def string_field_def)
qed

lemma parse_metadata_bytes:
  assumes "pydantic_laws py" "make_source_ad_asset_ref (sd_asset s) = Inr (sd_asset s)"
    "as_media_type (sd_asset s) \<in> {image_png, image_jpeg}"
    "\<forall>t. as_expires_at (sd_asset s) = Some t \<longrightarrow> in_range t" "is_utc (sd_created_at s)" "in_range (sd_created_at s)"
  shows "parse_metadata py (metadata_bytes py s) = Inr (sd_asset s, JInt (sd_size_bytes s), sd_created_at s)"
proof -
  have "valid_source_ad_asset_ref (sd_asset s)"
    using assms(2) by (auto simp: make_source_ad_asset_ref_def Let_def split: if_splits)
  from readable_metadata[OF assms(1) this assms(3,4)]
  have "bindR (decode_utf8 (metadata_bytes py s)) loads = Inr (metadata_json py s)"
    by (simp add: metadata_bytes_def decode_line loads_line)
  then show ?thesis
    using validate_asset_json[OF assms(1,2,4)] fromisoformat_isoformat[OF assms(5,6)] assms(5)
    by (simp add: parse_metadata_def metadata_json_def member_def time_value_def require_utc_time_def del: bindR_Inr_iff)
qed


subsection \<open>What the store holds\<close>

text \<open>The abstract state: the assets that can be read, whatever the time, with the time of their upload.\<close>

definition asset_at :: "pydantic \<Rightarrow> disk \<Rightarrow> uuid \<Rightarrow> (loaded_asset \<times> datetime) option" where
  "asset_at py d aid = (case file_at d (meta_path aid) of None \<Rightarrow> None | Some raw \<Rightarrow>
     if MAX_METADATA_BYTES < length raw then None else (case parse_metadata py raw of Inl e \<Rightarrow> None
     | Inr (asset, size_bytes, created_at) \<Rightarrow>
         if as_asset_id asset \<noteq> aid \<or> \<not> acceptable_size size_bytes then None
         else (case extension_of (as_media_type asset) of None \<Rightarrow> None | Some extension \<Rightarrow>
           (case file_at d (asset_file aid extension) of None \<Rightarrow> None | Some content \<Rightarrow>
             if size_bytes = JInt (int (length content))
               \<and> detect_media_type content = Some (as_media_type asset)
               \<and> sha256_hex content = as_sha256 asset
             then Some (\<lparr>ld_asset = asset, ld_content = content\<rparr>, created_at) else None))))"

definition has_expired :: "asset_ref \<Rightarrow> datetime \<Rightarrow> bool" where
  "has_expired a now = (case as_expires_at a of None \<Rightarrow> False | Some t \<Rightarrow> instant t \<le> instant now)"

definition asset_names :: "uuid \<Rightarrow> pystr set" where
  "asset_names aid = {n. startswith n (asset_file aid []) \<and> 47 \<notin> set n}"

lemma asset_file_eq_iff [simp]: "asset_file a s = asset_file b t \<longleftrightarrow> a = b \<and> s = t"
  by (simp add: asset_file_def append_eq_append_conv length_uuid_str)

lemma no_slash: "47 \<notin> set (uuid_str u)"
  by (auto simp: uuid_str_def Let_def hex_digits_def hex_digit_def dest!: in_set_takeD in_set_dropD)

lemma asset_names_file [simp]: "47 \<notin> set s \<Longrightarrow> asset_file aid s \<in> asset_names b \<longleftrightarrow> b = aid"
  using no_slash[of aid]
  by (auto simp: asset_names_def startswith_iff asset_file_def append_eq_append_conv length_uuid_str)

lemma plain_suffixes [simp]:
  "47 \<notin> set (lit ''part'')" "47 \<notin> set (lit ''meta.part'')" "47 \<notin> set (lit ''meta.json'')"
  "extension_of m = Some x \<Longrightarrow> 47 \<notin> set x"
  by (auto simp: lit_def extension_of_def split: if_splits)

lemma tombstone_not_asset [simp]: "tombstone_path a \<notin> asset_names b" "tombstone_part a \<notin> asset_names b"
  by (simp_all add: asset_names_def tombstone_path_def tombstone_part_def lit_def)

lemma asset_at_untouched:
  "(\<forall>n \<in> asset_names aid. file_at d' n = file_at d n) \<Longrightarrow> asset_at py d' aid = asset_at py d aid"
  by (auto simp: asset_at_def split: option.split sum.split)

lemma asset_at_cong: "file_at d' = file_at d \<Longrightarrow> asset_at py d' = asset_at py d"
  by (rule ext) (simp add: asset_at_untouched)

lemma asset_at_absent: "file_at d (meta_path aid) = None \<Longrightarrow> asset_at py d aid = None"
  by (simp add: asset_at_def)

subsection \<open>What the operations do to it\<close>

lemma touches_read_asset: "touches A (read_asset py aid now)"
  unfolding read_asset_def read_bounded_def file_size_def
  by (intro touches_intros) (auto split: prod.split option.split json.split intro!: touches_intros)

lemma touches_check_open: "touches A (check_open aid)"
  unfolding check_open_def by (intro touches_intros)

lemma touches_load_asset: "touches A (load_asset py aid now)"
  unfolding load_asset_def
  by (intro touches_intros touches_check_open touches_read_asset) (auto split: prod.split intro!: touches_intros)

lemma load_asset_frame: "load_asset py aid now d = (r, d') \<Longrightarrow> file_at d' = file_at d"
  using touchesD[OF touches_load_asset] by (intro ext) blast

lemma check_open_eq: "check_open aid d = (if is_closed aid d then (Inl AssetLifecycleClosedError, d) else (Inr (), d))"
  by (simp add: check_open_def bind_eq)

lemma read_bounded_Inr: "read_bounded n limit d = (Inr c, d') \<Longrightarrow>
    file_at d n = Some c \<and> length c \<le> limit \<and> file_at d' = file_at d"
  by (auto simp: read_bounded_def bind_Inr_iff catch_Inr_iff dest!: read_file_Inr split: if_splits)

lemma file_size_Inr: "file_size n d = (Inr k, d') \<Longrightarrow>
    \<exists>c. file_at d n = Some c \<and> k = length c \<and> file_at d' = file_at d"
  by (auto simp: file_size_def bind_Inr_iff dest!: read_file_Inr)

lemma load_asset_closed:
  "is_closed aid d \<Longrightarrow> is_utc now \<Longrightarrow> load_asset py aid now d = (Inl AssetLifecycleClosedError, d)"
  by (simp add: load_asset_def require_utc_time_def bind_eq check_open_eq bind_def)

lemma load_asset_Inr:
  assumes "load_asset py aid now d = (Inr l, d')"
  shows "\<not> is_closed aid d \<and> \<not> has_expired (ld_asset l) now
    \<and> (\<exists>t. asset_at py d aid = Some (l, t) \<and> instant t \<le> instant now)"
proof -
  from assms obtain asset n_bytes content d1 where steps: "\<not> is_closed aid d"
    "read_asset py aid now d = (Inr (asset, n_bytes, content), d1)"
    "int (length content) = n_bytes" "detect_media_type content = Some (as_media_type asset)"
    "sha256_hex content = as_sha256 asset" "l = \<lparr>ld_asset = asset, ld_content = content\<rparr>"
    by (auto simp: load_asset_def bind_Inr_iff check_open_eq require_utc_time_def catch_Inr_iff split: if_splits)
  from steps(2) obtain raw d2 created_at where meta: "read_bounded (meta_path aid) MAX_METADATA_BYTES d = (Inr raw, d2)"
    "parse_metadata py raw = Inr (asset, JInt n_bytes, created_at)"
    "as_asset_id asset = aid" "acceptable_size (JInt n_bytes)" "instant created_at \<le> instant now" "\<not> has_expired asset now"
    and rest: "\<exists>extension k d3. extension_of (as_media_type asset) = Some extension
      \<and> file_size (asset_file aid extension) d2 = (Inr k, d3)
      \<and> read_bounded (asset_file aid extension) MAX_ASSET_BYTES d3 = (Inr content, d1)"
    unfolding read_asset_def has_expired_def bind_Inr_iff
    by (auto simp: bind_Inr_iff split: sum.splits prod.splits if_splits option.splits json.splits)
  then show ?thesis
    using steps by (auto simp: asset_at_def dest!: read_bounded_Inr file_size_Inr)
qed

lemma load_asset_quiet:
  assumes "dk_verdicts d = []" "\<not> is_closed aid d" "asset_at py d aid = Some (l, t)" "is_utc now"
    "instant t \<le> instant now"
  shows "load_asset py aid now d = (if has_expired (ld_asset l) now
    then (Inl AssetLifecycleClosedError, d) else (Inr l, d))"
proof -
  obtain raw asset extension content where parts: "file_at d (meta_path aid) = Some raw"
    "length raw \<le> MAX_METADATA_BYTES" "parse_metadata py raw = Inr (asset, JInt (int (length content)), t)"
    "as_asset_id asset = aid" "acceptable_size (JInt (int (length content)))"
    "extension_of (as_media_type asset) = Some extension"
    "file_at d (asset_file aid extension) = Some content"
    "detect_media_type content = Some (as_media_type asset)" "sha256_hex content = as_sha256 asset"
    "l = \<lparr>ld_asset = asset, ld_content = content\<rparr>"
    using assms(3) by (auto simp: asset_at_def not_less split: option.splits sum.splits if_splits)
  have small: "length content \<le> MAX_ASSET_BYTES"
    using parts(5) by (simp add: acceptable_size_def)
  have bounded: "read_bounded n m d = (Inr c, d)" if "file_at d n = Some c" "length c \<le> m" for n c m
    using that assms(1) by (simp add: read_bounded_def bind_eq catch_eq read_file_def)
  have measured: "file_size n d = (Inr (length c), d)" if "file_at d n = Some c" for n c
    using that assms(1) by (simp add: file_size_def bind_eq read_file_def)
  show ?thesis
    using parts(2-6,8-10) assms(2,4,5) bounded[OF parts(1,2)] bounded[OF parts(7) small] measured[OF parts(7)]
    by (simp add: load_asset_def require_utc_time_def bind_eq check_open_eq read_asset_def catch_eq has_expired_def
        is_read_error_def)
qed


subsection \<open>Uploading\<close>

lemma prepare_asset_Inr:
  assumes "prepare_asset aid data declared p r now = Inr (s, extension)"
  shows "detect_media_type data = Some declared" "extension_of declared = Some extension" "is_utc now"
    "s = \<lparr>sd_asset = sd_asset s, sd_size_bytes = int (length data), sd_created_at = now\<rparr>"
    "make_source_ad_asset_ref (sd_asset s) = Inr (sd_asset s)" "as_asset_id (sd_asset s) = aid"
    "as_media_type (sd_asset s) = declared" "as_sha256 (sd_asset s) = sha256_hex data"
    "as_expires_at (sd_asset s) = Some (dt_add now ASSET_TTL)" "data \<noteq> []" "length data \<le> MAX_ASSET_BYTES"
proof -
  from assms obtain provenance rights where parts: "detect_media_type data = Some declared" "is_utc now"
    "extension_of declared = Some extension" "data \<noteq> []" "length data \<le> MAX_ASSET_BYTES"
    "make_source_ad_asset_ref (new_asset aid declared data provenance rights now) = Inr (sd_asset s)"
    "s = \<lparr>sd_asset = sd_asset s, sd_size_bytes = int (length data), sd_created_at = now\<rparr>"
    by (auto simp: prepare_asset_def require_utc_time_def split: if_splits sum.splits)
  show "detect_media_type data = Some declared" "extension_of declared = Some extension" "is_utc now"
    "s = \<lparr>sd_asset = sd_asset s, sd_size_bytes = int (length data), sd_created_at = now\<rparr>"
    "data \<noteq> []" "length data \<le> MAX_ASSET_BYTES"
    by (fact parts)+
  show "make_source_ad_asset_ref (sd_asset s) = Inr (sd_asset s)"
    using parts(6) by (rule make_asset_idem)
  have asset: "sd_asset s = strip_asset_ref (new_asset aid declared data provenance rights now)"
    using parts(6) by (auto simp: make_source_ad_asset_ref_def Let_def split: if_splits)
  have "strip_text declared = declared"
    using detected_types[OF parts(1)] image_types_strip by auto
  then show "as_asset_id (sd_asset s) = aid" "as_media_type (sd_asset s) = declared"
    "as_sha256 (sd_asset s) = sha256_hex data" "as_expires_at (sd_asset s) = Some (dt_add now ASSET_TTL)"
    by (simp_all add: asset strip_asset_ref_def new_asset_def is_sha256_hex)
qed

lemma extension_not_part [simp]:
  "extension_of m = Some x \<Longrightarrow> x \<noteq> lit ''part'' \<and> x \<noteq> lit ''meta.part'' \<and> x \<noteq> lit ''meta.json''"
  "lit ''part'' \<noteq> lit ''meta.part''" "lit ''part'' \<noteq> lit ''meta.json''" "lit ''meta.part'' \<noteq> lit ''meta.json''"
  by (auto simp: extension_of_def lit_def split: if_splits)

lemma touches_place_files:
  "47 \<notin> set extension \<Longrightarrow> touches (asset_names aid) (place_files aid extension data metadata)"
  unfolding place_files_def by (intro touches_intros touches_check_open) simp_all

lemma touches_remove_files: "47 \<notin> set extension \<Longrightarrow> touches (asset_names aid) (remove_files aid extension)"
  unfolding remove_files_def by (intro touches_intros) auto

lemma prepared_extension: "prepare_asset aid data m p r now = Inr (s, x) \<Longrightarrow> extension_of m = Some x \<and> 47 \<notin> set x"
  using prepare_asset_Inr(2) plain_suffixes(4) by blast

lemma touches_store_asset: "touches (asset_names aid) (store_asset py aid data m p r now)"
proof (cases "prepare_asset aid data m p r now")
  case (Inl e)
  then show ?thesis
    by (simp add: store_asset_def touches_def bind_eq bind_def)
next
  case (Inr sx)
  then obtain s x where prepared: "prepare_asset aid data m p r now = Inr (s, x)"
    by (cases sx) simp
  then have "47 \<notin> set x"
    using prepared_extension by blast
  then have "touches (asset_names aid) (bind (check_open aid) (\<lambda>_.
     bind (catch (place_files aid x data (metadata_bytes py s)) (\<lambda>e.
       if e = AssetLifecycleClosedError then bind (remove_files aid x) (\<lambda>_. raise e)
       else if is_OSError e then bind (remove_files aid x) (\<lambda>_. raise AssetStorageError)
       else raise e)) (\<lambda>_. return s)))"
    by (intro touches_intros touches_place_files touches_remove_files
        touches_check_open)
  then show ?thesis
    by (simp add: store_asset_def touches_def prepared bind_eq)
qed

lemma place_files_Inr:
  assumes "place_files aid x data metadata d = (Inr u, d')" "extension_of m = Some x"
  shows "\<not> is_closed aid d'" "file_at d' (asset_file aid x) = Some data" "file_at d' (meta_path aid) = Some metadata"
proof -
  from assms(1) obtain d0 d1 d2 d3 where steps: "make_directory d = (Inr (), d0)"
    "write_exclusive (asset_part aid) data d0 = (Inr (), d1)"
    "write_exclusive (meta_part aid) metadata d1 = (Inr (), d2)"
    "replace_file (asset_part aid) (asset_file aid x) d2 = (Inr (), d3)"
    "replace_file (meta_part aid) (meta_path aid) d3 = (Inr (), d')" "\<not> is_closed aid d'"
    by (auto simp: place_files_def bind_Inr_iff check_open_eq split: if_splits)
  show "\<not> is_closed aid d'" by (fact steps)
  show "file_at d' (asset_file aid x) = Some data" "file_at d' (meta_path aid) = Some metadata"
    using write_exclusive_Inr[OF steps(2)] write_exclusive_Inr[OF steps(3)] replace_file_Inr[OF steps(4)]
      replace_file_Inr[OF steps(5)] extension_not_part(1)[OF assms(2)] by auto
qed

lemma store_asset_Inr:
  assumes "store_asset py aid data m p r now d = (Inr s, d')" "pydantic_laws py"
    "in_range now" "in_range (dt_add now ASSET_TTL)"
  shows "\<exists>x. prepare_asset aid data m p r now = Inr (s, x)" "\<not> is_closed aid d \<and> \<not> is_closed aid d'"
    "asset_at py d' aid = Some (\<lparr>ld_asset = sd_asset s, ld_content = data\<rparr>, now)"
proof -
  from assms(1) obtain x where prepared: "prepare_asset aid data m p r now = Inr (s, x)"
    and opened: "\<not> is_closed aid d"
    and placed: "place_files aid x data (metadata_bytes py s) d = (Inr (), d')"
    unfolding store_asset_def bind_Inr_iff
    by (auto simp: bind_Inr_iff catch_Inr_iff check_open_eq split: if_splits prod.splits sum.splits)
  note facts = prepare_asset_Inr[OF prepared]
  note files = place_files_Inr[OF placed facts(2)]
  show "\<exists>x. prepare_asset aid data m p r now = Inr (s, x)"
    using prepared by blast
  show "\<not> is_closed aid d \<and> \<not> is_closed aid d'"
    using opened files(1) by simp
  have times: "sd_created_at s = now" "sd_size_bytes s = int (length data)"
    using facts(4) by (metis stored_asset.select_convs(2,3))+
  have kind: "as_media_type (sd_asset s) \<in> {image_png, image_jpeg}"
    using detected_types[OF facts(1)] facts(7) by simp
  have range: "\<forall>t. as_expires_at (sd_asset s) = Some t \<longrightarrow> in_range t"
    using facts(9) assms(4) by simp
  have parsed: "parse_metadata py (metadata_bytes py s) = Inr (sd_asset s, JInt (int (length data)), now)"
    using parse_metadata_bytes[OF assms(2) facts(5) kind range] facts(3) assms(3) times by simp
  have "valid_source_ad_asset_ref (sd_asset s)"
    using facts(5) by (auto simp: make_source_ad_asset_ref_def Let_def split: if_splits)
  then have "length (metadata_bytes py s) \<le> MAX_METADATA_BYTES"
    using metadata_length[OF assms(2) _ kind range] facts(3,11) times by (simp add: MAX_ASSET_BYTES_def)
  then show "asset_at py d' aid = Some (\<lparr>ld_asset = sd_asset s, ld_content = data\<rparr>, now)"
    using files parsed facts by (simp add: asset_at_def acceptable_size_def Suc_le_eq)
qed


lemma tombstone_untouched:
  "untouched (asset_names a) d d' \<Longrightarrow> file_at d' (tombstone_path b) = file_at d (tombstone_path b)"
  by (simp add: untouched_def)

lemma store_keeps_tombstones:
  "store_asset py aid data m p r now d = (q, d') \<Longrightarrow> file_at d' (tombstone_path b) = file_at d (tombstone_path b)"
  using touchesD[OF touches_store_asset[of aid py data m p r now]] by simp

text \<open>An upload that fails before its document is in place leaves no document.\<close>

lemma place_files_Inl:
  assumes "place_files aid x data metadata d = (Inl e, d')" "extension_of m = Some x"
    "file_at d (meta_path aid) = None" "\<not> is_closed aid d"
  shows "file_at d' (meta_path aid) = None"
proof -
  define prefix where "prefix = bind make_directory (\<lambda>_.
     bind (write_exclusive (asset_part aid) data) (\<lambda>_.
     bind (write_exclusive (meta_part aid) metadata) (\<lambda>_.
     bind (check_open aid) (\<lambda>_.
     bind (replace_file (asset_part aid) (asset_file aid x)) (\<lambda>_. check_open aid)))))"
  have split: "place_files aid x data metadata = bind prefix (\<lambda>_.
      bind (replace_file (meta_part aid) (meta_path aid)) (\<lambda>_. check_open aid))"
    by (simp add: place_files_def prefix_def prog_bind_assoc)
  have prefix: "touches {asset_part aid, meta_part aid, asset_file aid x} prefix"
    unfolding prefix_def by (intro touches_intros touches_check_open) auto
  have name: "meta_path aid \<notin> {asset_part aid, meta_part aid, asset_file aid x}"
    using extension_not_part(1)[OF assms(2)] by auto
  obtain q d1 where run: "prefix d = (q, d1)"
    by (cases "prefix d")
  have d1: "file_at d1 (meta_path aid) = None"
    using touchesD[OF prefix run name] assms(3) by simp
  have opened: "\<not> is_closed aid d1" if "q = Inr u" for u
    using run that by (auto simp: prefix_def bind_Inr_iff check_open_eq split: if_splits)
  show ?thesis
  proof (cases q)
    case (Inl e')
    then show ?thesis
      using assms(1) run d1 by (simp add: split bind_def)
  next
    case (Inr u)
    then obtain q2 d2 where replaced: "replace_file (meta_part aid) (meta_path aid) d1 = (q2, d2)"
      by (cases "replace_file (meta_part aid) (meta_path aid) d1") auto
    have tomb: "file_at d2 (tombstone_path aid) = file_at d1 (tombstone_path aid)"
      using touchesD[OF touches_operations(2)[of _ "asset_names aid"] replaced] by simp
    show ?thesis
    proof (cases q2)
      case q2: (Inl e')
      then show ?thesis
        using assms(1) run Inr replaced replace_file_Inl[of "meta_part aid" "meta_path aid" d1 e' d2] d1
        by (simp add: split bind_def)
    next
      case q2: (Inr v)
      then show ?thesis
        using assms(1) run Inr replaced opened[OF Inr] tomb
        by (simp add: split bind_def check_open_eq is_closed_def file_exists_def)
    qed
  qed
qed

lemma store_asset_Inl:
  assumes "store_asset py aid data m p r now d = (Inl e, d')" "file_at d (meta_path aid) = None"
  shows "file_at d' (meta_path aid) = None"
proof (cases "prepare_asset aid data m p r now")
  case (Inl e')
  then show ?thesis
    using assms by (simp add: store_asset_def bind_eq bind_def)
next
  case (Inr sx)
  then obtain s x where prepared: "prepare_asset aid data m p r now = Inr (s, x)"
    by (cases sx) simp
  show ?thesis
  proof (cases "is_closed aid d")
    case True
    then show ?thesis
      using assms by (simp add: store_asset_def prepared bind_eq check_open_eq bind_def)
  next
    case False
    then obtain e1 d1 where placed: "place_files aid x data (metadata_bytes py s) d = (Inl e1, d1)"
      and handler: "d' = d1 \<or> (\<exists>q. remove_files aid x d1 = (q, d'))"
      using assms(1)
      by (auto simp: store_asset_def prepared bind_eq check_open_eq bind_Inl_iff catch_Inl_iff split: if_splits)
    have "file_at d1 (meta_path aid) = None"
      by (rule place_files_Inl[OF placed _ assms(2) False]) (use prepare_asset_Inr(2)[OF prepared] in blast)
    then show ?thesis
      using handler for_each_unlink_shrinks[of _ d1 _ d' "meta_path aid"]
      by (auto simp: remove_files_def simp del: for_each.simps)
  qed
qed

text \<open>On a disk that does not fail, an upload that passes the checks succeeds.\<close>

lemma store_asset_quiet:
  assumes "dk_verdicts d = []" "prepare_asset aid data m p r now = Inr (s, x)" "\<not> is_closed aid d"
    "file_at d (asset_part aid) = None" "file_at d (meta_part aid) = None"
  shows "\<exists>d'. store_asset py aid data m p r now d = (Inr s, d') \<and> dk_verdicts d' = []"
proof -
  have names: "tombstone_path aid \<noteq> asset_file aid y" if "47 \<notin> set y" for y
    using that tombstone_not_asset(1)[of aid aid] asset_names_file[OF that, of aid aid] by metis
  have x: "47 \<notin> set x" "x \<noteq> lit ''part''" "x \<noteq> lit ''meta.part''"
    using prepared_extension[OF assms(2)] extension_not_part(1)[of m x] by auto
  show ?thesis
    using assms x names
    by (simp add: store_asset_def bind_eq check_open_eq catch_eq place_files_def make_directory_def
        write_exclusive_def replace_file_def file_exists_def is_closed_def quiet_files)
qed

subsection \<open>Deleting\<close>

lemma length_id_digest: "length (id_digest aid) = 64"
  using is_sha256_hex by (simp add: id_digest_def is_sha256_def)

lemma tombstone_names [simp]:
  "tombstone_path a \<noteq> tombstone_part b" "tombstone_path a = tombstone_path b \<longleftrightarrow> id_digest a = id_digest b"
  by (simp_all add: tombstone_path_def tombstone_part_def lit_def append_eq_append_conv length_id_digest)

lemma active_files_names: "n \<in> set (active_files aid d) \<Longrightarrow> n \<in> asset_names aid"
  by (simp add: active_files_def asset_names_def)

lemma file_at_listed: "file_at d n = Some c \<Longrightarrow> n \<in> set (map fst (dk_files d))"
  by (auto simp: file_at_def dest!: map_of_SomeD intro: rev_image_eqI)

lemma active_files_all: "n \<in> asset_names aid \<Longrightarrow> n \<notin> set (active_files aid d) \<Longrightarrow> file_at d n = None"
  using file_at_listed[of d n] by (auto simp: active_files_def asset_names_def)

abbreviation remove_active :: "pystr list \<Rightarrow> (exn, disk, unit) prog" where
  "remove_active ns \<equiv> catch (for_each unlink_missing_ok ns) (\<lambda>e. raise (if is_OSError e then AssetStorageError else e))"

lemma touches_unlinks: "set ns \<subseteq> A \<Longrightarrow> touches A (catch (for_each unlink_missing_ok ns)
    (\<lambda>e. raise (if is_OSError e then AssetStorageError else e)))"
  by (intro touches_intros) auto

lemma touches_write_tombstone:
  "touches {tombstone_part aid, tombstone_path aid} (write_tombstone aid payload)"
  unfolding write_tombstone_def by (intro touches_intros) auto

lemma delete_asset_cases:
  assumes "delete_asset aid reason now d = (q, d')"
  obtains (naive) e where "q = Inl e" "d' = d" "\<not> is_utc now"
  | (failed) e where "is_utc now" "q = Inl e" "\<not> is_closed aid d"
      "untouched {tombstone_part aid, tombstone_path aid} d d'"
  | (closed) q' d1 where "is_utc now" "is_closed aid d1" "untouched {tombstone_part aid, tombstone_path aid} d d1"
      "is_closed aid d \<longrightarrow> d1 = d"
      "\<not> is_closed aid d \<longrightarrow> file_at d1 (tombstone_path aid)
        = Some (json_bytes (tombstone_json now reason (active_files aid d \<noteq> [])) @ [10])"
      "catch (for_each unlink_missing_ok (active_files aid d))
        (\<lambda>e. raise (if is_OSError e then AssetStorageError else e)) d1 = (q', d')"
      "q = map_sum id (\<lambda>_. active_files aid d \<noteq> []) q'"
proof (cases "is_utc now")
  case False
  then show thesis
    using assms naive[of ValueError] by (simp add: delete_asset_def require_utc_time_def bind_eq bind_def)
next
  case utc: True
  show thesis
  proof (cases "is_closed aid d")
    case True
    obtain q' d2 where removed: "catch (for_each unlink_missing_ok (active_files aid d))
        (\<lambda>e. raise (if is_OSError e then AssetStorageError else e)) d = (q', d2)"
      by (cases "catch (for_each unlink_missing_ok (active_files aid d))
        (\<lambda>e. raise (if is_OSError e then AssetStorageError else e)) d")
    then have "q = map_sum id (\<lambda>_. active_files aid d \<noteq> []) q'" "d' = d2"
      using assms utc True
      by (auto simp: delete_asset_def require_utc_time_def bind_eq bind_def split: sum.splits)
    with closed[of d q'] True removed utc show thesis
      by simp
  next
    case False
    let ?payload = "json_bytes (tombstone_json now reason (active_files aid d \<noteq> [])) @ [10]"
    let ?attempt = "bind make_directory (\<lambda>_. write_tombstone aid ?payload)"
    obtain q1 d1 where written: "?attempt d = (q1, d1)"
      by (cases "?attempt d")
    have "touches {tombstone_part aid, tombstone_path aid} ?attempt"
      by (intro touches_intros touches_write_tombstone)
    then have frame: "untouched {tombstone_part aid, tombstone_path aid} d d1"
      using written unfolding touches_def by (metis snd_conv)
    have run: "bind ?attempt (\<lambda>_. bind (remove_active (active_files aid d)) (\<lambda>_.
        return (active_files aid d \<noteq> []))) d = (q, d')"
      using assms utc False by (simp add: delete_asset_def require_utc_time_def bind_eq Let_def)
    show thesis
    proof (cases q1)
      case (Inl e)
      with written have w: "?attempt d = (Inl e, d1)"
        by simp
      have "q = Inl e" "d' = d1"
        using trans[OF run[symmetric] bind_eq(1)[of ?attempt, OF w]] by auto
      then show thesis
        using failed utc False frame by simp
    next
      case (Inr u)
      have tomb: "file_at d1 (tombstone_path aid) = Some ?payload"
      proof -
        from written Inr obtain d2 d3 where "write_exclusive (tombstone_part aid) ?payload d2 = (Inr (), d3)"
          "replace_file (tombstone_part aid) (tombstone_path aid) d3 = (Inr (), d1)"
          by (auto simp: bind_Inr_iff write_tombstone_def catch_Inr_iff split: if_splits)
        then show ?thesis
          using write_exclusive_Inr[of "tombstone_part aid" ?payload d2 "()" d3]
            replace_file_Inr[of "tombstone_part aid" "tombstone_path aid" d3 "()" d1] by auto
      qed
      obtain q' d2 where removed: "catch (for_each unlink_missing_ok (active_files aid d))
          (\<lambda>e. raise (if is_OSError e then AssetStorageError else e)) d1 = (q', d2)"
        by (cases "catch (for_each unlink_missing_ok (active_files aid d))
          (\<lambda>e. raise (if is_OSError e then AssetStorageError else e)) d1")
      from written Inr have w: "?attempt d = (Inr u, d1)"
        by simp
      have "q = map_sum id (\<lambda>_. active_files aid d \<noteq> []) q'" "d' = d2"
        using trans[OF run[symmetric] bind_eq(2)[of ?attempt, OF w]] removed by (auto simp: bind_def split: sum.splits)
      then show thesis
        using closed[of d1 q'] utc False frame tomb removed by (simp add: is_closed_def file_exists_def)
    qed
  qed
qed

lemma remove_active_effect:
  assumes "remove_active ns d = (q, d')"
  shows "file_at d' n \<in> {None, file_at d n}" "n \<notin> set ns \<Longrightarrow> file_at d' n = file_at d n"
    "q = Inr u \<Longrightarrow> n \<in> set ns \<Longrightarrow> file_at d' n = None"
proof -
  obtain q1 where run: "for_each unlink_missing_ok ns d = (q1, d')"
    using assms by (auto simp: catch_def split: prod.splits sum.splits)
  show "file_at d' n \<in> {None, file_at d n}"
    by (rule for_each_unlink_shrinks[OF run])
  show "n \<notin> set ns \<Longrightarrow> file_at d' n = file_at d n"
    using touchesD[OF touches_unlinks[of ns "set ns"] assms] by simp
  show "file_at d' n = None" if "q = Inr u" "n \<in> set ns"
  proof -
    from assms that(1) have "for_each unlink_missing_ok ns d = (Inr u, d')"
      by (auto simp: catch_Inr_iff)
    from for_each_unlink_Inr[OF this] that(2) show ?thesis
      by simp
  qed
qed

text \<open>Whatever its outcome, a deletion removes files of its asset and keeps every tombstone there is.\<close>

lemma delete_asset_effect:
  assumes "delete_asset aid reason now d = (q, d')"
  shows "n \<in> asset_names b \<Longrightarrow> file_at d' n \<in> {None, file_at d n}"
    "n \<in> asset_names b \<Longrightarrow> b \<noteq> aid \<Longrightarrow> file_at d' n = file_at d n"
    "file_at d (tombstone_path b) = Some raw \<Longrightarrow> file_at d' (tombstone_path b) = Some raw"
    "id_digest b \<noteq> id_digest aid \<Longrightarrow> file_at d' (tombstone_path b) = file_at d (tombstone_path b)"
    "q = Inr existed \<Longrightarrow> is_closed aid d' \<and> (\<forall>n \<in> asset_names aid. file_at d' n = None)"
    "q = Inr existed \<Longrightarrow> \<not> is_closed aid d \<Longrightarrow> file_at d' (tombstone_path aid)
        = Some (json_bytes (tombstone_json now reason existed) @ [10])"
proof -
  have not_tomb: "n \<noteq> tombstone_part a \<and> n \<noteq> tombstone_path a" if "n \<in> asset_names b" for a
    using that tombstone_not_asset by metis
  have active: "tombstone_path a \<notin> set (active_files aid d)" for a
    using active_files_names tombstone_not_asset by blast
  have other: "n \<notin> set (active_files aid d)" if "n \<in> asset_names b" "b \<noteq> aid"
    using that active_files_names[of n aid d]
    by (auto simp: asset_names_def startswith_def asset_file_def length_uuid_str)
  have "(n \<in> asset_names b \<longrightarrow> file_at d' n \<in> {None, file_at d n} \<and> (b \<noteq> aid \<longrightarrow> file_at d' n = file_at d n))
    \<and> (file_at d (tombstone_path b) = Some raw \<longrightarrow> file_at d' (tombstone_path b) = Some raw)
    \<and> (id_digest b \<noteq> id_digest aid \<longrightarrow> file_at d' (tombstone_path b) = file_at d (tombstone_path b))
    \<and> (q = Inr existed \<longrightarrow> is_closed aid d' \<and> (\<forall>n \<in> asset_names aid. file_at d' n = None)
        \<and> (\<not> is_closed aid d \<longrightarrow> file_at d' (tombstone_path aid)
             = Some (json_bytes (tombstone_json now reason existed) @ [10])))"
    using assms
  proof (cases rule: delete_asset_cases)
    case (failed e)
    then have same: "file_at d' m = file_at d m" if "m \<noteq> tombstone_part aid" "m \<noteq> tombstone_path aid" for m
      using that by (simp add: untouched_def)
    have "file_at d (tombstone_path b) = None" if "id_digest b = id_digest aid"
      using that failed(3) by (simp add: is_closed_def file_exists_def tombstone_path_def)
    then show ?thesis
      using failed(2) not_tomb[of aid] same[of n] same[of "tombstone_path b"]
      by (cases "id_digest b = id_digest aid") auto
  next
    case (closed q' d1)
    have same: "file_at d1 m = file_at d m" if "m \<noteq> tombstone_part aid" "m \<noteq> tombstone_path aid" for m
      using closed(3) that by (simp add: untouched_def)
    note removed = remove_active_effect[OF closed(6)]
    have tombs: "file_at d' (tombstone_path a) = file_at d1 (tombstone_path a)" for a
      using removed(2) active by blast
    have gone: "file_at d' m = None" if "q' = Inr u" "m \<in> asset_names aid" for m u
    proof (cases "m \<in> set (active_files aid d)")
      case True
      then show ?thesis
        using removed(3)[OF that(1)] by blast
    next
      case False
      then have "file_at d m = None" "m \<noteq> tombstone_part aid" "m \<noteq> tombstone_path aid"
        using active_files_all[OF that(2)] that(2) tombstone_not_asset by auto
      then show ?thesis
        using same[of m] removed(2)[OF False] by simp
    qed
    have "q = Inr existed \<Longrightarrow> \<exists>u. q' = Inr u \<and> existed = (active_files aid d \<noteq> [])"
      using closed(7) by (cases q') auto
    moreover have "is_closed aid d'"
      using closed(2) tombs by (simp add: is_closed_def file_exists_def)
    moreover have "file_at d (tombstone_path b) = Some raw \<longrightarrow> file_at d' (tombstone_path b) = Some raw"
    proof (cases "id_digest b = id_digest aid")
      case True
      then have path: "tombstone_path b = tombstone_path aid"
        by (simp add: tombstone_path_def)
      show ?thesis
        unfolding path using closed(4) tombs[of aid] by (auto simp: is_closed_def file_exists_def)
    next
      case False
      then show ?thesis
        using tombs[of b] same[of "tombstone_path b"] by simp
    qed
    ultimately show ?thesis
      using gone tombs[of aid] tombs[of b] same[of "tombstone_path b"] closed(5) removed(1)[of n] removed(2)[of n]
        other same[of n] not_tomb[of aid] by auto
  qed auto
  then show "n \<in> asset_names b \<Longrightarrow> file_at d' n \<in> {None, file_at d n}"
    "n \<in> asset_names b \<Longrightarrow> b \<noteq> aid \<Longrightarrow> file_at d' n = file_at d n"
    "file_at d (tombstone_path b) = Some raw \<Longrightarrow> file_at d' (tombstone_path b) = Some raw"
    "id_digest b \<noteq> id_digest aid \<Longrightarrow> file_at d' (tombstone_path b) = file_at d (tombstone_path b)"
    "q = Inr existed \<Longrightarrow> is_closed aid d' \<and> (\<forall>n \<in> asset_names aid. file_at d' n = None)"
    "q = Inr existed \<Longrightarrow> \<not> is_closed aid d \<Longrightarrow> file_at d' (tombstone_path aid)
        = Some (json_bytes (tombstone_json now reason existed) @ [10])"
    by blast+
qed


subsection \<open>Purging\<close>

lemma touches_find_expired: "touches A (find_expired py now ns)"
proof (induction ns)
  case Nil
  show ?case
    unfolding find_expired.simps by (rule touches_intros)
next
  case (Cons n ns)
  then show ?case
    unfolding find_expired.simps by (intro touches_intros)
qed

lemma touches_purge_tombstone: "n \<in> A \<Longrightarrow> touches A (purge_tombstone cutoff n)"
  unfolding purge_tombstone_def by (intro touches_intros) auto

lemma tombstone_files_names: "n \<in> set (tombstone_files d) \<Longrightarrow> n \<notin> asset_names aid"
  by (auto simp: tombstone_files_def asset_names_def startswith_iff lit_def)

lemma purge_tombstone_keeps:
  assumes "deleted_at_of raw = Inr t" "instant cutoff < instant t"
  shows "keeps (\<lambda>d. file_at d name = Some raw) (purge_tombstone cutoff n)"
proof (cases "n = name")
  case False
  have "touches {n} (purge_tombstone cutoff n)"
    by (rule touches_purge_tombstone) simp
  then show ?thesis
    using False by (intro keeps_file) auto
next
  case True
  show ?thesis
    unfolding keeps_def
  proof (intro allI impI)
    fix d :: disk assume d: "file_at d name = Some raw"
    obtain q d1 where read: "read_file n d = (q, d1)"
      by (cases "read_file n d")
    have same: "file_at d1 = file_at d"
      using touchesD[OF touches_operations(5)[of "{}"] read] by (intro ext) simp
    have "q = Inr c \<Longrightarrow> c = raw" for c
      using read_file_Inr[of n d c d1] read d True by simp
    then have "file_at (snd (purge_tombstone cutoff n d)) = file_at d"
      using read same assms by (cases q) (auto simp: purge_tombstone_def bind_eq catch_def)
    then show "file_at (snd (purge_tombstone cutoff n d)) name = Some raw"
      by (simp add: d)
  qed
qed

lemma keeps_delete_tombstone: "keeps (\<lambda>d. file_at d (tombstone_path b) = Some raw) (delete_asset aid reason now)"
  unfolding keeps_def by (metis delete_asset_effect(3) surjective_pairing)

lemma keeps_delete_all:
  "(\<And>aid. aid \<in> set aids \<Longrightarrow> keeps Q (delete_asset aid (lit ''expired'') now)) \<Longrightarrow> keeps Q (delete_all now aids)"
proof (induction aids)
  case Nil
  show ?case
    unfolding delete_all.simps by (rule keeps_intros)
next
  case (Cons aid aids)
  then show ?case
    unfolding delete_all.simps by (intro keeps_intros) simp_all
qed

lemma purge_expired_eq: "purge_expired py now = (if is_utc now then
     bind (catch (bind (reads (\<lambda>d. Inr (metadata_files d))) (find_expired py now))
       (\<lambda>e. raise (if is_skipped e then AssetStorageError else e))) (\<lambda>expired.
     bind (delete_all now expired) (\<lambda>removed.
     bind (reads (\<lambda>d. Inr (tombstone_files d))) (\<lambda>names.
     bind (for_each (purge_tombstone (dt_add now (- TOMBSTONE_TTL))) names) (\<lambda>_.
     return removed))))
   else raise ValueError)"
  by (rule ext) (simp add: purge_expired_def require_utc_time_def bind_eq)

lemma keeps_finding: "keeps (\<lambda>d. P (file_at d)) (catch (bind (reads (\<lambda>d. Inr (metadata_files d))) (find_expired py now))
       (\<lambda>e. raise (if is_skipped e then AssetStorageError else e)))"
  by (rule keeps_unchanging) (auto intro!: touches_intros touches_find_expired)

lemma purge_keeps_tombstone:
  assumes "deleted_at_of raw = Inr t" "instant now < instant t + TOMBSTONE_TTL"
  shows "keeps (\<lambda>d. file_at d (tombstone_path b) = Some raw) (purge_expired py now)"
  unfolding purge_expired_eq
  by (intro keeps_intros keeps_delete_all keeps_delete_tombstone purge_tombstone_keeps[OF assms(1)]
      keeps_finding[where P = "\<lambda>f. f (tombstone_path b) = Some raw"]) (use assms(2) in simp)

text \<open>\<open>shrunk b d0\<close>: no file of the asset was written since \<open>d0\<close>.\<close>

definition shrunk :: "uuid \<Rightarrow> disk \<Rightarrow> disk \<Rightarrow> bool" where
  "shrunk b d0 d \<longleftrightarrow> (\<forall>n \<in> asset_names b. file_at d n \<in> {None, file_at d0 n})"

lemma shrunk_refl [simp]: "shrunk b d d"
  by (simp add: shrunk_def)

lemma shrunk_trans: "shrunk b d0 d \<Longrightarrow> (\<And>n. n \<in> asset_names b \<Longrightarrow> file_at d' n \<in> {None, file_at d n}) \<Longrightarrow> shrunk b d0 d'"
  unfolding shrunk_def by (metis insert_iff singletonD)

lemma shrunk_asset: "shrunk b d0 d \<Longrightarrow> asset_at py d b = Some x \<Longrightarrow> asset_at py d0 b = Some x"
proof -
  assume shrunk: "shrunk b d0 d" and "asset_at py d b = Some x"
  then obtain raw asset size_bytes created_at extension content where parts: "file_at d (meta_path b) = Some raw"
    "\<not> MAX_METADATA_BYTES < length raw" "parse_metadata py raw = Inr (asset, size_bytes, created_at)"
    "as_asset_id asset = b" "acceptable_size size_bytes" "extension_of (as_media_type asset) = Some extension"
    "file_at d (asset_file b extension) = Some content" "size_bytes = JInt (int (length content))"
    "detect_media_type content = Some (as_media_type asset)" "sha256_hex content = as_sha256 asset"
    "x = (\<lparr>ld_asset = asset, ld_content = content\<rparr>, created_at)"
    by (auto simp: asset_at_def split: option.splits sum.splits if_splits)
  have "file_at d0 n = Some c" if "n \<in> asset_names b" "file_at d n = Some c" for n c
    using shrunk that by (auto simp: shrunk_def)
  from this[OF _ parts(1)] this[OF _ parts(7)] show ?thesis
    using parts by (simp add: asset_at_def)
qed

lemma keeps_shrunk_delete: "keeps (shrunk b d0) (delete_asset aid reason now)"
  unfolding keeps_def using shrunk_trans delete_asset_effect(1)[OF surjective_pairing] by blast

lemma keeps_shrunk_other:
  assumes "touches A m" "A \<inter> asset_names b = {}"
  shows "keeps (shrunk b d0) m"
proof -
  have "file_at (snd (m d)) n = file_at d n" if "n \<in> asset_names b" for d n
    using touchesD[OF assms(1) surjective_pairing] assms(2) that by blast
  then show ?thesis
    by (simp add: keeps_def shrunk_def)
qed

lemma keeps_shrunk_finding: "keeps (shrunk b d0) (catch (bind (reads (\<lambda>d. Inr (metadata_files d))) (find_expired py now))
       (\<lambda>e. raise (if is_skipped e then AssetStorageError else e)))"
  unfolding shrunk_def by (rule keeps_finding)

lemma keeps_shrunk_tombstones: "keeps (shrunk b d0)
    (bind (reads (\<lambda>d. Inr (tombstone_files d))) (\<lambda>names. for_each (purge_tombstone c) names))"
  unfolding keeps_def
proof (intro allI impI)
  fix d assume d: "shrunk b d0 d"
  have "touches (set (tombstone_files d)) (for_each (purge_tombstone c) (tombstone_files d))"
    by (intro touches_intros touches_purge_tombstone)
  moreover have "set (tombstone_files d) \<inter> asset_names b = {}"
    using tombstone_files_names by blast
  ultimately have "keeps (shrunk b d0) (for_each (purge_tombstone c) (tombstone_files d))"
    by (rule keeps_shrunk_other)
  then show "shrunk b d0 (snd (bind (reads (\<lambda>d. Inr (tombstone_files d))) (\<lambda>names. for_each (purge_tombstone c) names) d))"
    using d by (simp add: keeps_def bind_eq)
qed

lemma keeps_shrunk_purge: "keeps (shrunk b d0) (purge_expired py now)"
proof -
  have "keeps (shrunk b d0) (if is_utc now then
     bind (catch (bind (reads (\<lambda>d. Inr (metadata_files d))) (find_expired py now))
       (\<lambda>e. raise (if is_skipped e then AssetStorageError else e))) (\<lambda>expired.
     bind (delete_all now expired) (\<lambda>removed.
     bind (bind (reads (\<lambda>d. Inr (tombstone_files d))) (\<lambda>names.
       for_each (purge_tombstone (dt_add now (- TOMBSTONE_TTL))) names)) (\<lambda>_.
     return removed)))
   else raise ValueError)"
    by (intro keeps_intros keeps_delete_all keeps_shrunk_delete keeps_shrunk_finding keeps_shrunk_tombstones)
  then show ?thesis
    by (simp only: purge_expired_eq prog_bind_assoc)
qed


subsection \<open>Sequences of calls\<close>

datatype (plugins only: code size) asset_call =
    Store_Asset uuid bytes pystr pystr pystr datetime
  | Load_Asset uuid datetime
  | Delete_Asset uuid pystr datetime
  | Purge_Assets datetime

fun after_asset_call :: "pydantic \<Rightarrow> asset_call \<Rightarrow> disk \<Rightarrow> disk" where
  "after_asset_call py (Store_Asset aid data m p r now) d = snd (store_asset py aid data m p r now d)"
| "after_asset_call py (Load_Asset aid now) d = snd (load_asset py aid now d)"
| "after_asset_call py (Delete_Asset aid reason now) d = snd (delete_asset aid reason now d)"
| "after_asset_call py (Purge_Assets now) d = snd (purge_expired py now d)"

abbreviation after_asset_calls :: "pydantic \<Rightarrow> asset_call list \<Rightarrow> disk \<Rightarrow> disk" where
  "after_asset_calls py \<equiv> fold (after_asset_call py)"

lemma after_calls_keep:
  "Q d \<Longrightarrow> \<forall>c \<in> set cs. \<forall>d. Q d \<longrightarrow> Q (after_asset_call py c d) \<Longrightarrow> Q (after_asset_calls py cs d)"
  by (induction cs arbitrary: d) simp_all

text \<open>Calls that do not concern an asset, calls that do not write it, and calls that purge only what was
  deleted before.\<close>

fun spares :: "uuid \<Rightarrow> asset_call \<Rightarrow> bool" where
  "spares aid (Store_Asset b data m p r now) = (b \<noteq> aid)"
| "spares aid (Load_Asset b now) = True"
| "spares aid (Delete_Asset b reason now) = (id_digest b \<noteq> id_digest aid)"
| "spares aid (Purge_Assets now) = False"

fun writes_asset :: "uuid \<Rightarrow> asset_call \<Rightarrow> bool" where
  "writes_asset aid (Store_Asset b data m p r now) = (b = aid)"
| "writes_asset aid _ = False"

fun purges_before :: "int \<Rightarrow> asset_call \<Rightarrow> bool" where
  "purges_before limit (Purge_Assets now) = (instant now < limit)"
| "purges_before limit _ = True"

lemma store_other: "store_asset py aid data m p r now d = (q, d') \<Longrightarrow> b \<noteq> aid \<Longrightarrow> n \<in> asset_names b \<Longrightarrow>
    file_at d' n = file_at d n"
  using touchesD[OF touches_store_asset[of aid py data m p r now]]
  by (auto simp: asset_names_def startswith_def asset_file_def length_uuid_str)

lemma spared_call:
  assumes "spares aid c" "n \<in> asset_names aid \<or> n = tombstone_path aid"
  shows "file_at (after_asset_call py c d) n = file_at d n"
  using assms
proof (cases c)
  case (Store_Asset b data m p r now)
  then show ?thesis
    using assms store_other[OF surjective_pairing, where aid = b and b = aid]
      store_keeps_tombstones[OF surjective_pairing] by auto
next
  case (Load_Asset b now)
  then show ?thesis
    using load_asset_frame[OF surjective_pairing] by simp
next
  case (Delete_Asset b reason now)
  then have "b \<noteq> aid" "id_digest b \<noteq> id_digest aid"
    using assms(1) by auto
  then show ?thesis
    using Delete_Asset assms(2) delete_asset_effect(2,4)[OF surjective_pairing] by auto
qed simp

lemma spared_calls:
  assumes "\<forall>c \<in> set cs. spares aid c"
  shows "asset_at py (after_asset_calls py cs d) aid = asset_at py d aid"
    "is_closed aid (after_asset_calls py cs d) = is_closed aid d"
proof -
  have "file_at (after_asset_calls py cs d) n = file_at d n"
    if "n \<in> asset_names aid \<or> n = tombstone_path aid" for n
    using assms by (induction cs arbitrary: d) (simp_all add: spared_call[OF _ that])
  then show "asset_at py (after_asset_calls py cs d) aid = asset_at py d aid"
    "is_closed aid (after_asset_calls py cs d) = is_closed aid d"
    by (simp_all add: asset_at_untouched is_closed_def file_exists_def)
qed

lemma unwritten_calls:
  assumes "\<forall>c \<in> set cs. \<not> writes_asset aid c"
  shows "shrunk aid d (after_asset_calls py cs d)"
proof (rule after_calls_keep)
  have "shrunk aid d (after_asset_call py c d1)" if "\<not> writes_asset aid c" "shrunk aid d d1" for c d1
    using that
  proof (cases c)
    case (Store_Asset b data m p r now)
    then have "file_at (after_asset_call py c d1) n = file_at d1 n" if "n \<in> asset_names aid" for n
      using that \<open>\<not> writes_asset aid c\<close> store_other[OF surjective_pairing, where aid = b and b = aid] by simp
    then show ?thesis
      using that(2) by (simp add: shrunk_def)
  next
    case (Load_Asset b now)
    then show ?thesis
      using that load_asset_frame[OF surjective_pairing] by (simp add: shrunk_def)
  next
    case (Delete_Asset b reason now)
    then show ?thesis
      using that keeps_shrunk_delete[of aid d b reason now] by (simp add: keeps_def)
  next
    case (Purge_Assets now)
    then show ?thesis
      using that keeps_shrunk_purge[of aid d py now] by (simp add: keeps_def)
  qed
  then show "\<forall>c \<in> set cs. \<forall>d1. shrunk aid d d1 \<longrightarrow> shrunk aid d (after_asset_call py c d1)"
    using assms by blast
qed simp

lemma closed_calls:
  assumes "file_at d (tombstone_path aid) = Some raw" "deleted_at_of raw = Inr t"
    "\<forall>c \<in> set cs. purges_before (instant t + TOMBSTONE_TTL) c"
  shows "file_at (after_asset_calls py cs d) (tombstone_path aid) = Some raw"
proof (rule after_calls_keep[where Q = "\<lambda>d. file_at d (tombstone_path aid) = Some raw"])
  have "file_at (after_asset_call py c d) (tombstone_path aid) = Some raw"
    if "purges_before (instant t + TOMBSTONE_TTL) c" "file_at d (tombstone_path aid) = Some raw" for c d
  proof (cases c)
    case (Store_Asset b data m p r now)
    then show ?thesis
      using that store_keeps_tombstones[OF surjective_pairing] by simp
  next
    case (Load_Asset b now)
    then show ?thesis
      using that load_asset_frame[OF surjective_pairing] by simp
  next
    case (Delete_Asset b reason now)
    then show ?thesis
      using that keeps_delete_tombstone[of aid raw b reason now] by (simp add: keeps_def)
  next
    case (Purge_Assets now)
    then show ?thesis
      using that purge_keeps_tombstone[OF assms(2), of now aid py] by (simp add: keeps_def)
  qed
  then show "\<forall>c \<in> set cs. \<forall>d. file_at d (tombstone_path aid) = Some raw \<longrightarrow>
      file_at (after_asset_call py c d) (tombstone_path aid) = Some raw"
    using assms(3) by blast
qed (fact assms(1))

lemma deleted_at_of_tombstone:
  assumes "is_utc t" "in_range t" "list_all plain_char reason"
  shows "deleted_at_of (json_bytes (tombstone_json t reason existed) @ [10]) = Inr t"
proof -
  have "readable (tombstone_json t reason existed)"
    using assms(3) plain_isoformat
    by (simp add: tombstone_json_def) (simp add: lit_def plain_char_def is_surrogate_def)
  then have "bindR (decode_utf8 (json_bytes (tombstone_json t reason existed) @ [10])) loads
      = Inr (tombstone_json t reason existed)"
    by (simp add: decode_line loads_line)
  then show ?thesis
    using fromisoformat_isoformat[OF assms(1,2)] assms(1)
    by (simp add: deleted_at_of_def tombstone_json_def member_def time_value_def require_utc_time_def del: bindR_Inr_iff)
qed


text \<open>The deletions of a purge.\<close>

lemma find_expired_Inr:
  "find_expired py now ns d = (Inr aids, d') \<Longrightarrow> file_at d' = file_at d
     \<and> set aids = {b. \<exists>n \<in> set ns. \<exists>raw. file_at d n = Some raw \<and> expired_in py now raw = Inr (Some b)}"
proof (induction ns arbitrary: d aids)
  case (Cons n ns)
  from Cons.prems obtain raw d1 found d2 rest d3 where "read_file n d = (Inr raw, d1)"
    "liftR (expired_in py now raw) d1 = (Inr found, d2)" "find_expired py now ns d2 = (Inr rest, d3)"
    "(case found of None \<Rightarrow> rest | Some b \<Rightarrow> b # rest) = aids" "d3 = d'"
    unfolding find_expired.simps bind_Inr_iff outcome_simps by blast
  then have steps: "read_file n d = (Inr raw, d1)" "expired_in py now raw = Inr found"
    "find_expired py now ns d1 = (Inr rest, d')" "aids = (case found of None \<Rightarrow> rest | Some b \<Rightarrow> b # rest)"
    by (auto split: sum.splits)
  from read_file_Inr[OF steps(1)] Cons.IH[OF steps(3)] steps(2,4) show ?case
    by (auto split: option.splits)
qed simp

lemma delete_all_Inr:
  "delete_all now aids d = (Inr k, d') \<Longrightarrow> b \<in> set aids \<Longrightarrow> n \<in> asset_names b \<Longrightarrow> file_at d' n = None"
proof (induction aids arbitrary: d k)
  case (Cons a aids)
  then obtain existed d1 k' where steps: "delete_asset a (lit ''expired'') now d = (Inr existed, d1)"
    "delete_all now aids d1 = (Inr k', d')"
    by (auto simp: bind_Inr_iff)
  show ?case
  proof (cases "b \<in> set aids")
    case True
    then show ?thesis
      using Cons.IH[OF steps(2)] Cons.prems(3) by blast
  next
    case False
    then have gone: "file_at d1 n = None"
      using Cons.prems(2,3) delete_asset_effect(5)[OF steps(1) refl] by auto
    have "keeps (\<lambda>d. file_at d n = None) (delete_all now aids)"
      by (rule keeps_delete_all) (use Cons.prems(3) delete_asset_effect(1)[OF surjective_pairing] in
          \<open>fastforce simp: keeps_def\<close>)
    then show ?thesis
      using keepsD[of "\<lambda>d. file_at d n = None" "delete_all now aids" d1 "Inr k'" d'] steps(2) gone by simp
  qed
qed simp

lemma delete_all_other:
  "b \<notin> set aids \<Longrightarrow> n \<in> asset_names b \<Longrightarrow> keeps (\<lambda>d. file_at d n = c) (delete_all now aids)"
  by (rule keeps_delete_all) (use delete_asset_effect(2)[OF surjective_pairing] in \<open>fastforce simp: keeps_def\<close>)

text \<open>Each document in the directory is the one of the asset it names.\<close>

definition well_named :: "pydantic \<Rightarrow> datetime \<Rightarrow> disk \<Rightarrow> bool" where
  "well_named py now d \<longleftrightarrow> (\<forall>n \<in> set (metadata_files d). \<forall>raw b.
     file_at d n = Some raw \<longrightarrow> expired_in py now raw = Inr (Some b) \<longrightarrow> n = meta_path b)"

lemma expired_in_parse:
  assumes "parse_metadata py raw = Inr (asset, n, t)"
  shows "expired_in py now raw = Inr (if has_expired asset now then Some (as_asset_id asset) else None)"
proof (cases "bindR (decode_utf8 raw) loads")
  case (Inr metadata)
  show ?thesis
  proof (cases "bindR (member (lit ''asset'') metadata) (validate_asset py)")
    case (Inr a)
    with assms \<open>bindR (decode_utf8 raw) loads = Inr metadata\<close> have "a = asset"
      by (auto simp: parse_metadata_def)
    then show ?thesis
      using Inr \<open>bindR (decode_utf8 raw) loads = Inr metadata\<close>
      by (simp add: expired_in_def has_expired_def split: option.split del: bindR_Inr_iff)
  qed (use assms Inr in \<open>simp add: parse_metadata_def del: bindR_Inr_iff\<close>)
qed (use assms in \<open>simp add: parse_metadata_def del: bindR_Inr_iff\<close>)

lemma meta_path_listed: "file_at d (meta_path b) = Some raw \<Longrightarrow> meta_path b \<in> set (metadata_files d)"
  using file_at_listed[of d "meta_path b" raw] no_slash[of b]
  by (auto simp: metadata_files_def asset_file_def endswith_def lit_def)

subsection \<open>Properties\<close>

text \<open>
  C18. What was uploaded is what is loaded: after an upload that answered, and any calls that do not
  concern the asset, with any outcome, loading on a disk that has stopped failing answers the recorded
  reference and the same bytes for 24 hours, and that the lifecycle is closed from then on.
\<close>

theorem uploaded_asset_loads:
  assumes "store_asset py aid data declared provenance rights created d = (Inr s, d1)"
    "pydantic_laws py" "in_range created" "in_range (dt_add created ASSET_TTL)"
    "\<forall>c \<in> set cs. spares aid c" "d2 = after_asset_calls py cs d1" "dk_verdicts d2 = []"
    "is_utc now" "instant created \<le> instant now"
  shows "load_asset py aid now d2 =
    (if instant now < instant created + hours 24 then Inr \<lparr>ld_asset = sd_asset s, ld_content = data\<rparr>
     else Inl AssetLifecycleClosedError, d2)"
proof -
  note stored = store_asset_Inr[OF assms(1-4)]
  from stored(1) obtain x where prepared: "prepare_asset aid data declared provenance rights created = Inr (s, x)"
    by blast
  have "has_expired (sd_asset s) now \<longleftrightarrow> \<not> instant now < instant created + hours 24"
    using prepare_asset_Inr(9)[OF prepared] by (auto simp: has_expired_def ASSET_TTL_def)
  then show ?thesis
    using load_asset_quiet[OF assms(7) _ _ assms(8,9), of aid py] stored(2,3) spared_calls[OF assms(5), of py d1] assms(6)
    by simp
qed

text \<open>
  C17. A deleted asset stays deleted: once a deletion has answered, and until a purge that runs seven
  days later, no sequence of calls, uploads under the same identifier included, makes the asset
  readable again; loading and uploading it raise \<open>AssetLifecycleClosedError\<close>.
\<close>

theorem deleted_asset_stays_closed:
  assumes "delete_asset aid reason t d = (Inr existed, d1)" "\<not> is_closed aid d" "is_utc t" "in_range t"
    "list_all plain_char reason" "\<forall>c \<in> set cs. purges_before (instant t + hours (7 * 24)) c"
    "d2 = after_asset_calls py cs d1" "is_utc now"
  shows "load_asset py aid now d2 = (Inl AssetLifecycleClosedError, d2)
    \<and> (\<forall>s. fst (store_asset py aid data declared provenance rights now d2) \<noteq> Inr s)"
proof -
  have "file_at d2 (tombstone_path aid) = Some (json_bytes (tombstone_json t reason existed) @ [10])"
    using closed_calls[OF delete_asset_effect(6)[OF assms(1) refl assms(2)] deleted_at_of_tombstone[OF assms(3-5)], of cs py]
      assms(6,7) by (simp add: TOMBSTONE_TTL_def)
  then have closed: "is_closed aid d2"
    by (simp add: is_closed_def file_exists_def)
  moreover have "store_asset py aid data declared provenance rights now d2 \<noteq> (Inr s, d3)" for s d3
    using closed by (auto simp: store_asset_def bind_Inr_iff check_open_eq split: sum.splits)
  ultimately show ?thesis
    using load_asset_closed[OF closed assms(8)] by (metis surjective_pairing)
qed

text \<open>
  C19. A purge removes exactly what has expired: when it answers, on a store whose documents are under
  their own names, every asset that could be read and has not expired can be read as before, and
  every other asset cannot be read.
\<close>

theorem purge_removes_the_expired:
  assumes "purge_expired py now d = (Inr n, d')" "well_named py now d"
  shows "asset_at py d' b = (case asset_at py d b of
      Some (l, t) \<Rightarrow> if has_expired (ld_asset l) now then None else Some (l, t) | None \<Rightarrow> None)"
proof -
  obtain aids d1 k d2 where found: "find_expired py now (metadata_files d) d = (Inr aids, d1)"
    and deleted: "delete_all now aids d1 = (Inr k, d2)"
    and tombs: "for_each (purge_tombstone (dt_add now (- TOMBSTONE_TTL))) (tombstone_files d2) d2 = (Inr (), d')"
    using assms(1) by (auto simp: purge_expired_eq bind_Inr_iff catch_Inr_iff split: if_splits)
  note ids = find_expired_Inr[OF found]
  have last: "file_at d' n = file_at d2 n" if "n \<in> asset_names b" for n
  proof -
    have "touches (set (tombstone_files d2)) (for_each (purge_tombstone (dt_add now (- TOMBSTONE_TTL))) (tombstone_files d2))"
      by (intro touches_intros touches_purge_tombstone)
    from touchesD[OF this tombs] show ?thesis
      using that tombstone_files_names by blast
  qed
  have shrunk: "shrunk b d d'"
    using keepsD[OF keeps_shrunk_purge _ assms(1), of b d] by simp
  show ?thesis
  proof (cases "asset_at py d b")
    case None
    then show ?thesis
      using shrunk_asset[OF shrunk, of py] by (cases "asset_at py d' b") auto
  next
    case (Some lt)
    obtain l t where lt: "lt = (l, t)"
      by (cases lt)
    from Some lt obtain raw n where doc: "file_at d (meta_path b) = Some raw"
      "parse_metadata py raw = Inr (ld_asset l, n, t)" "as_asset_id (ld_asset l) = b"
      by (auto simp: asset_at_def split: option.splits sum.splits if_splits)
    note expiry = expired_in_parse[OF doc(2), of now]
    show ?thesis
    proof (cases "has_expired (ld_asset l) now")
      case True
      then have "b \<in> set aids"
        using ids meta_path_listed[OF doc(1)] doc(1,3) expiry by auto
      then have "file_at d' (meta_path b) = None"
        using delete_all_Inr[OF deleted] last by simp
      then show ?thesis
        using Some lt True by (simp add: asset_at_absent)
    next
      case False
      have "b \<notin> set aids"
      proof
        assume "b \<in> set aids"
        then obtain m raw' where m: "m \<in> set (metadata_files d)" "file_at d m = Some raw'"
          "expired_in py now raw' = Inr (Some b)"
          using ids by auto
        then have "m = meta_path b"
          using assms(2) by (auto simp: well_named_def)
        then show False
          using m(2,3) doc(1) expiry False by simp
      qed
      have "file_at d2 n = file_at d n" if "n \<in> asset_names b" for n
        using keepsD[OF delete_all_other[OF \<open>b \<notin> set aids\<close> that] _ deleted, of "file_at d1 n"] ids by simp
      then have "asset_at py d' b = asset_at py d b"
        using last by (intro asset_at_untouched) simp
      then show ?thesis
        using Some lt False by simp
    qed
  qed
qed


subsection \<open>A concrete store\<close>

text \<open>The text formats as the standard library writes them, and a disk with one upload.\<close>

definition plain_pydantic :: pydantic where
  "plain_pydantic = \<lparr>py_time_text = isoformat,
     py_read_uuid = (\<lambda>s. case parse_uuid s of Inr u \<Rightarrow> Some u | Inl e \<Rightarrow> None),
     py_read_time = (\<lambda>j. case j of JStr s \<Rightarrow> (case fromisoformat s of Inr t \<Rightarrow> Some t | Inl e \<Rightarrow> None) | _ \<Rightarrow> None)\<rparr>"

lemma plain_pydantic_laws: "pydantic_laws plain_pydantic"
  by (auto simp: pydantic_laws_def plain_pydantic_def parse_uuid_str fromisoformat_isoformat plain_isoformat
    intro: order_trans[OF iso_length])

definition demo_image :: bytes where
  "demo_image = PNG_SIGNATURE @ [0]"

abbreviation demo_reference :: pystr where
  "demo_reference \<equiv> lit ''fixture:demo''"

definition clean_disk :: disk where
  "clean_disk = \<lparr>dk_files = [], dk_verdicts = []\<rparr>"

lemma utc_in_range: "0 \<le> t \<Longrightarrow> t \<le> hours 48 \<Longrightarrow> in_range (utc t)"
  by (simp add: in_range_def wall_clock_def epoch_day_def day_us_def year_start_def day_number_def hours_def seconds_def)

lemma demo_prepared: "\<exists>s. prepare_asset 7 demo_image image_png demo_reference demo_reference (utc 0) = Inr (s, lit ''png'')"
proof -
  have reference: "validate_public_reference demo_reference = Inr demo_reference" "is_public_reference demo_reference"
    "strip_text demo_reference = demo_reference"
    by (simp_all add: validate_public_reference_def is_public_reference_def strip_text_def strip_by_def is_white_def
        public_schemes_def startswith_def is_reference_path_def is_alnum_def is_lower_def is_upper_def is_digit_def lit_def)
  have "make_source_ad_asset_ref (new_asset 7 image_png demo_image demo_reference demo_reference (utc 0))
      = Inr (new_asset 7 image_png demo_image demo_reference demo_reference (utc 0))"
    using image_types_valid image_types_strip is_sha256_hex[of demo_image] reference
    by (simp add: make_source_ad_asset_ref_def strip_asset_ref_def new_asset_def valid_source_ad_asset_ref_def
        valid_asset_ref_def)
  moreover have "detect_media_type demo_image = Some image_png" "demo_image \<noteq> []" "length demo_image = 9"
    by (simp_all add: detect_media_type_def demo_image_def startswith_def PNG_SIGNATURE_def)
  ultimately show ?thesis
    using reference(1) by (simp add: prepare_asset_def extension_of_def MAX_ASSET_BYTES_def require_utc_time_def)
qed

lemma demo_stored:
  obtains s d where "store_asset plain_pydantic 7 demo_image image_png demo_reference demo_reference (utc 0) clean_disk
      = (Inr s, d)" "dk_verdicts d = []"
proof -
  obtain s where "prepare_asset 7 demo_image image_png demo_reference demo_reference (utc 0) = Inr (s, lit ''png'')"
    using demo_prepared by blast
  from store_asset_quiet[OF _ this, of clean_disk plain_pydantic] that show thesis
    by (auto simp: clean_disk_def is_closed_def file_exists_def file_at_def)
qed


theorem uploaded_asset_loads_witness:
  "\<exists>s d. fst (load_asset plain_pydantic 7 (utc (hours 24 - 1)) (after_asset_calls plain_pydantic [Load_Asset 8 (Naive 0)] d))
      = Inr \<lparr>ld_asset = s, ld_content = demo_image\<rparr>
    \<and> fst (load_asset plain_pydantic 7 (utc (hours 24)) (after_asset_calls plain_pydantic [Load_Asset 8 (Naive 0)] d))
      = Inl AssetLifecycleClosedError"
proof -
  obtain s d where stored: "store_asset plain_pydantic 7 demo_image image_png demo_reference demo_reference (utc 0) clean_disk
      = (Inr s, d)" "dk_verdicts d = []"
    using demo_stored by blast
  have calm: "dk_verdicts (after_asset_calls plain_pydantic [Load_Asset 8 (Naive 0)] d) = []"
    using stored(2) by (simp add: load_asset_def require_utc_time_def bind_eq)
  note run = uploaded_asset_loads[OF stored(1) plain_pydantic_laws _ _ _ refl calm]
  show ?thesis
    using run[of "utc (hours 24 - 1)"] run[of "utc (hours 24)"] utc_in_range[of 0] utc_in_range[of "hours 24"]
    by (intro exI[of _ "sd_asset s"] exI[of _ d]) (simp add: ASSET_TTL_def hours_def seconds_def)
qed

theorem deleted_asset_stays_closed_witness:
  "\<exists>d. \<forall>s. fst (load_asset plain_pydantic 7 (utc 5) d) = Inl AssetLifecycleClosedError
    \<and> fst (store_asset plain_pydantic 7 demo_image image_png demo_reference demo_reference (utc 5) d) \<noteq> Inr s"
proof -
  obtain d1 where deleted: "delete_asset 7 (lit ''deleted'') (utc 0) clean_disk = (Inr False, d1)"
    by (simp add: delete_asset_def require_utc_time_def bind_eq clean_disk_def active_files_def is_closed_def
        file_exists_def file_at_def make_directory_def write_tombstone_def write_exclusive_def replace_file_def catch_eq
        put_file_def drop_file_def)
  have "list_all plain_char (lit ''deleted'')"
    by (simp add: lit_def plain_char_def is_surrogate_def)
  then have "load_asset plain_pydantic 7 (utc 5) (after_asset_calls plain_pydantic [Purge_Assets (utc 9)] d1)
      = (Inl AssetLifecycleClosedError, after_asset_calls plain_pydantic [Purge_Assets (utc 9)] d1)
    \<and> (\<forall>s. fst (store_asset plain_pydantic 7 demo_image image_png demo_reference demo_reference (utc 5)
        (after_asset_calls plain_pydantic [Purge_Assets (utc 9)] d1)) \<noteq> Inr s)"
    by (intro deleted_asset_stays_closed[OF deleted, where cs = "[Purge_Assets (utc 9)]"])
      (simp_all add: is_closed_def file_exists_def file_at_def clean_disk_def hours_def seconds_def
        utc_in_range[of 0, unfolded hours_def seconds_def])
  then show ?thesis
    by (metis fst_conv)
qed

theorem purge_removes_the_expired_witness:
  "\<exists>d d' s. asset_at plain_pydantic d 7 = Some (\<lparr>ld_asset = s, ld_content = demo_image\<rparr>, utc 0)
    \<and> purge_expired plain_pydantic (utc 5) d = (Inr 0, d')
    \<and> asset_at plain_pydantic d' 7 = Some (\<lparr>ld_asset = s, ld_content = demo_image\<rparr>, utc 0)"
proof -
  obtain s where prepared: "prepare_asset 7 demo_image image_png demo_reference demo_reference (utc 0) = Inr (s, lit ''png'')"
    using demo_prepared by blast
  note facts = prepare_asset_Inr[OF prepared]
  let ?raw = "metadata_bytes plain_pydantic s"
  let ?d = "\<lparr>dk_files = [(meta_path 7, ?raw), (asset_file 7 (lit ''png''), demo_image)], dk_verdicts = []\<rparr>"
  have times: "sd_created_at s = utc 0" "sd_size_bytes s = int (length demo_image)"
    using facts(4) by (metis stored_asset.select_convs(2,3))+
  have range: "\<forall>t. as_expires_at (sd_asset s) = Some t \<longrightarrow> in_range t"
    using facts(9) utc_in_range[of "hours 24"] by (simp add: ASSET_TTL_def hours_def seconds_def)
  have parsed: "parse_metadata plain_pydantic ?raw = Inr (sd_asset s, JInt (int (length demo_image)), utc 0)"
    using parse_metadata_bytes[OF plain_pydantic_laws facts(5) _ range] facts(7) utc_in_range[of 0] times
    by (simp add: hours_def seconds_def)
  have "valid_source_ad_asset_ref (sd_asset s)"
    using facts(5) by (auto simp: make_source_ad_asset_ref_def Let_def split: if_splits)
  then have small: "length ?raw \<le> MAX_METADATA_BYTES"
    using metadata_length[OF plain_pydantic_laws _ _ range] facts(7,11) times by (simp add: MAX_ASSET_BYTES_def)
  have files: "file_at ?d (meta_path 7) = Some ?raw" "file_at ?d (asset_file 7 (lit ''png'')) = Some demo_image"
    by (simp_all add: file_at_def) 
  have readable: "asset_at plain_pydantic ?d 7 = Some (\<lparr>ld_asset = sd_asset s, ld_content = demo_image\<rparr>, utc 0)"
    using files small parsed facts by (simp add: asset_at_def acceptable_size_def Suc_le_eq)
  have fresh: "\<not> has_expired (sd_asset s) (utc 5)"
    using facts(9) by (simp add: has_expired_def ASSET_TTL_def hours_def seconds_def)
  have meta: "metadata_files ?d = [meta_path 7]"
    using no_slash[of 7] by (simp add: metadata_files_def asset_file_def endswith_def lit_def)
  have tombs: "tombstone_files ?d = []"
  proof -
    have "47 \<notin> set (asset_file 7 x)" if "47 \<notin> set x" for x
      using no_slash[of 7] that by (simp add: asset_file_def)
    moreover have "47 \<in> set n" if "startswith n (lit ''tombstones/'')" for n
      using that by (auto simp: startswith_iff lit_def)
    ultimately show ?thesis
      using plain_suffixes(3) by (fastforce simp: tombstone_files_def lit_def)
  qed
  have expiry: "expired_in plain_pydantic (utc 5) ?raw = Inr None"
    using expired_in_parse[OF parsed, of "utc 5"] fresh by simp
  have run: "purge_expired plain_pydantic (utc 5) ?d = (Inr 0, ?d)"
    using files(1) by (simp add: purge_expired_eq bind_eq catch_eq meta tombs read_file_def expiry del: file_at_simps)
  have "well_named plain_pydantic (utc 5) ?d"
    using files(1) expiry by (simp add: well_named_def meta)
  from purge_removes_the_expired[OF run this, of 7] readable fresh run show ?thesis
    by (intro exI[of _ ?d] exI[of _ "sd_asset s"]) simp
qed

end
