(* ===== verification/Api.thy ===== *)
theory Api
  imports Revision_Service Composition_Export Draft_Generation Analysis Capability_Tokens Rate_Limits
    Asset_Storage
begin

section \<open>The API\<close>

text \<open>
  The model of the request handlers of \<open>src/cultureshift/app.py\<close>, which compose every other part: the
  capability tokens, the run repository, the asset and the artifact stores, the analysis provider, the
  copywriter, the Critic and the services. A \<open>server\<close> is what \<open>create_app\<close> is given, an \<open>api\<close> the state
  behind it. A handler is several transactions: before its \<open>i\<close>-th call of the repository beyond the
  first, other requests transform the database by \<open>other i\<close>, and its \<open>i\<close>-th reading of the time gives
  \<open>clock i\<close>. Identifiers that \<open>uuid4()\<close> draws are arguments. An \<open>HTTPException\<close> carries its status and
  its code; any other exception is the framework's 500. A request body has passed the validation of its
  contract.
\<close>

subsection \<open>The server\<close>

record 'a asset_operations =
  so_store :: "uuid \<Rightarrow> bytes \<Rightarrow> pystr \<Rightarrow> pystr \<Rightarrow> pystr \<Rightarrow> datetime \<Rightarrow> (exn, 'a, stored_asset) prog"
  so_load :: "uuid \<Rightarrow> datetime \<Rightarrow> (exn, 'a, loaded_asset) prog"
  so_delete :: "uuid \<Rightarrow> pystr \<Rightarrow> datetime \<Rightarrow> (exn, 'a, bool) prog"
  so_purge :: "datetime \<Rightarrow> (exn, 'a, nat) prog"

definition temporary_assets :: "pydantic \<Rightarrow> disk asset_operations" where
  "temporary_assets py = \<lparr>so_store = store_asset py, so_load = load_asset py, so_delete = delete_asset,
     so_purge = purge_expired py\<rparr>"

record ('i, 'f, 's, 'a, 'p) server =
  sv_tokens :: token_service
  sv_decode :: "bytes \<Rightarrow> pystr result"
  sv_casefold :: "pystr \<Rightarrow> pystr"
  sv_assets :: "'a asset_operations"
  sv_artifacts :: "'s store_operations"
  sv_provider :: "'p provider"
  sv_writer :: copywriter
  sv_studio :: "('i, 'f) studio"
  sv_reader :: image_reader
  sv_time_text :: "datetime \<Rightarrow> pystr"

record ('s, 'a, 'p) api =
  ap_db :: db
  ap_artifacts :: 's
  ap_assets :: 'a
  ap_provider :: 'p
  ap_limiter :: rate_limiter

type_synonym ('s, 'a, 'p, 'r) handler = "(exn, ('s, 'a, 'p) api, 'r) prog"

definition on_runs :: "(exn, db, 'r) prog \<Rightarrow> ('s, 'a, 'p, 'r) handler" where
  "on_runs m a = (case m (ap_db a) of (r, d) \<Rightarrow> (r, a\<lparr>ap_db := d\<rparr>))"

definition on_assets :: "(exn, 'a, 'r) prog \<Rightarrow> ('s, 'a, 'p, 'r) handler" where
  "on_assets m a = (case m (ap_assets a) of (r, s) \<Rightarrow> (r, a\<lparr>ap_assets := s\<rparr>))"

definition on_provider :: "(exn, 'p, 'r) prog \<Rightarrow> ('s, 'a, 'p, 'r) handler" where
  "on_provider m a = (case m (ap_provider a) of (r, p) \<Rightarrow> (r, a\<lparr>ap_provider := p\<rparr>))"

definition on_limiter :: "(exn, rate_limiter, 'r) prog \<Rightarrow> ('s, 'a, 'p, 'r) handler" where
  "on_limiter m a = (case m (ap_limiter a) of (r, l) \<Rightarrow> (r, a\<lparr>ap_limiter := l\<rparr>))"

definition on_world :: "(exn, 's world, 'r) prog \<Rightarrow> ('s, 'a, 'p, 'r) handler" where
  "on_world m a = (case m (ap_db a, ap_artifacts a) of
     (r, (d, s)) \<Rightarrow> (r, a\<lparr>ap_db := d, ap_artifacts := s\<rparr>))"

definition meanwhile :: "(db \<Rightarrow> db) \<Rightarrow> ('s, 'a, 'p, unit) handler" where
  "meanwhile other a = (Inr (), a\<lparr>ap_db := other (ap_db a)\<rparr>)"

text \<open>The responses with a code.\<close>

definition http :: "nat \<Rightarrow> string \<Rightarrow> exn" where
  "http status code = HTTPException status (lit code)"

abbreviation run_not_found :: exn where
  "run_not_found \<equiv> http 404 ''run_not_found''"

abbreviation invalid_run_state :: exn where
  "invalid_run_state \<equiv> http 409 ''invalid_run_state''"

text \<open>\<open>except ProjectRunNotFoundError\<close> around a read.\<close>

definition or_not_found :: "exn \<Rightarrow> exn" where
  "or_not_found e = (if e = ProjectRunNotFoundError then run_not_found else e)"

definition find_run :: "(db \<Rightarrow> 'r result) \<Rightarrow> ('s, 'a, 'p, 'r) handler" where
  "find_run f = catch (on_runs (reads f)) (\<lambda>e. raise (or_not_found e))"

subsection \<open>Capabilities\<close>

text \<open>\<open>authorization.partition(" ")\<close> and the checks every handler begins with.\<close>

definition bearer_token :: "(pystr \<Rightarrow> pystr) \<Rightarrow> pystr \<Rightarrow> pystr result" where
  "bearer_token casefold authorization =
     (let scheme = takeWhile (\<lambda>c. c \<noteq> 32) authorization; rest = dropWhile (\<lambda>c. c \<noteq> 32) authorization in
      if casefold scheme \<noteq> lit ''bearer'' \<or> rest = [] \<or> tl rest = []
      then Inl (http 401 ''invalid_capability'') else Inr (tl rest))"

definition authorize ::
  "('i, 'f, 's, 'a, 'p) server \<Rightarrow> capability \<Rightarrow> uuid \<Rightarrow> pystr \<Rightarrow> datetime \<Rightarrow> unit result" where
  "authorize sv required subject authorization now =
     bindR (bearer_token (sv_casefold sv) authorization) (\<lambda>token.
     case verify (sv_decode sv) (sv_tokens sv) token required now of
       Inl e \<Rightarrow> Inl (if e = CapabilityTokenError then http 401 ''invalid_capability'' else e)
     | Inr claims \<Rightarrow>
         if cm_subject claims \<noteq> JStr (uuid_str subject)
         then Inl (http 403 ''capability_subject_mismatch'') else Inr ())"

subsection \<open>Assets\<close>

text \<open>The chunks of the body, refused as soon as they exceed the limit.\<close>

fun receive :: "bytes \<Rightarrow> bytes list \<Rightarrow> bytes result" where
  "receive content [] = Inr content"
| "receive content (chunk # rest) =
     (if MAX_ASSET_BYTES < length (content @ chunk) then Inl (http 413 ''asset_too_large'')
      else receive (content @ chunk) rest)"

definition upload_failure :: "exn \<Rightarrow> exn" where
  "upload_failure e = (case e of
     AssetEmptyError \<Rightarrow> http 400 ''asset_empty''
   | UnsupportedAssetTypeError \<Rightarrow> http 415 ''unsupported_asset_type''
   | AssetTypeMismatchError \<Rightarrow> http 415 ''asset_type_mismatch''
   | AssetTooLargeError \<Rightarrow> http 413 ''asset_too_large''
   | AssetMetadataError \<Rightarrow> http 422 ''invalid_asset_metadata''
   | AssetLifecycleClosedError \<Rightarrow> http 409 ''asset_lifecycle_closed''
   | _ \<Rightarrow> http 500 ''asset_storage_failed'')"

record upload_request =
  uq_client_host :: "pystr option"
  uq_chunks :: "bytes list"
  uq_content_type :: pystr
  uq_provenance_ref :: pystr
  uq_rights_ref :: pystr

definition store_upload ::
  "('i, 'f, 's, 'a, 'p) server \<Rightarrow> (nat \<Rightarrow> datetime) \<Rightarrow> uuid \<Rightarrow> upload_request \<Rightarrow> bytes
    \<Rightarrow> ('s, 'a, 'p, asset_uploaded) handler" where
  "store_upload sv clock asset_id q content =
     bind (on_assets (so_store (sv_assets sv) asset_id content (uq_content_type q) (uq_provenance_ref q)
       (uq_rights_ref q) (clock 1))) (\<lambda>stored.
     bind (catch (liftR (issue (sv_tokens sv) (uuid_str (as_asset_id (sd_asset stored))) [DELETE_ASSET]
         (hours 24) (clock 2)))
       (\<lambda>e. bind (on_assets (so_delete (sv_assets sv) (as_asset_id (sd_asset stored))
         (lit ''token_issue_failed'') (clock 3))) (\<lambda>_. raise e))) (\<lambda>delete_token.
     liftR (make_asset_uploaded \<lparr>up_asset = sd_asset stored, up_size_bytes = sd_size_bytes stored,
       up_created_at = sd_created_at stored, up_delete_capability_token = delete_token\<rparr>)))"

definition upload_asset ::
  "('i, 'f, 's, 'a, 'p) server \<Rightarrow> (nat \<Rightarrow> datetime) \<Rightarrow> uuid \<Rightarrow> upload_request
    \<Rightarrow> ('s, 'a, 'p, asset_uploaded) handler" where
  "upload_asset sv clock asset_id q =
     bind (on_limiter (allow (case uq_client_host q of None \<Rightarrow> lit ''unknown-client'' | Some h \<Rightarrow> h) (clock 0)))
     (\<lambda>allowed.
     if \<not> allowed then raise (http 429 ''upload_rate_limited'')
     else bind (liftR (receive [] (uq_chunks q))) (\<lambda>content.
     catch (store_upload sv clock asset_id q content) (\<lambda>e. raise (upload_failure e))))"

definition delete_asset_request ::
  "('i, 'f, 's, 'a, 'p) server \<Rightarrow> (nat \<Rightarrow> datetime) \<Rightarrow> uuid \<Rightarrow> pystr \<Rightarrow> ('s, 'a, 'p, unit) handler" where
  "delete_asset_request sv clock asset_id authorization =
     bind (liftR (authorize sv DELETE_ASSET asset_id authorization (clock 0))) (\<lambda>_.
     bind (catch (on_assets (so_delete (sv_assets sv) asset_id (lit ''deleted'') (clock 1)))
       (\<lambda>e. raise (if e = AssetStorageError then http 500 ''asset_deletion_failed'' else e))) (\<lambda>_.
     return ()))"

subsection \<open>Creating and reading a run\<close>

definition create_run_request ::
  "('i, 'f, 's, 'a, 'p) server \<Rightarrow> (nat \<Rightarrow> datetime) \<Rightarrow> uuid \<Rightarrow> run_create \<Rightarrow> ('s, 'a, 'p, run_created) handler" where
  "create_run_request sv clock rid request =
     catch
       (bind (liftR (new_project_run rid (clock 0) (rc_direction request))) (\<lambda>run.
        bind (liftR (issue (sv_tokens sv) (uuid_str (pr_id run))
          [READ_PROJECT_RUN, ANALYZE_PROJECT_RUN, UPDATE_PROJECT_RUN] (seconds (15 * 60)) (clock 1))) (\<lambda>token.
        bind (liftR (make_run_created \<lparr>rd_run_id = pr_id run, rd_status = run_status_of (pr_status run),
          rd_capability_token = token, rd_created_at = pr_created_at run\<rparr>)) (\<lambda>response.
        bind (on_runs (create_run run (Some request))) (\<lambda>_.
        return response)))))
       (\<lambda>_. raise (http 500 ''run_creation_failed''))"

definition get_run_request ::
  "('i, 'f, 's, 'a, 'p) server \<Rightarrow> (nat \<Rightarrow> datetime) \<Rightarrow> uuid \<Rightarrow> pystr \<Rightarrow> ('s, 'a, 'p, run_snapshot) handler" where
  "get_run_request sv clock rid authorization =
     bind (liftR (authorize sv READ_PROJECT_RUN rid authorization (clock 0))) (\<lambda>_.
     bind (find_run (get_run rid)) (\<lambda>run.
     liftR (make_run_snapshot \<lparr>rn_run_id = pr_id run, rn_direction = pr_direction run,
       rn_status = run_status_of (pr_status run), rn_warning_codes = pr_warning_codes run,
       rn_created_at = pr_created_at run, rn_updated_at = pr_updated_at run\<rparr>)))"

subsection \<open>Analysis\<close>

fun product_category_value :: "product_category \<Rightarrow> pystr" where
  "product_category_value AI_SOFTWARE = lit ''ai_software''"
| "product_category_value AI_APPLICATION = lit ''ai_application''"

fun creative_format_value :: "creative_format \<Rightarrow> pystr" where
  "creative_format_value STATIC_AD = lit ''static_ad''"

definition vision_request_of :: "run_create \<Rightarrow> bytes \<Rightarrow> vision_request" where
  "vision_request_of request content = \<lparr>vq_content = content, vq_source_asset = rc_source_asset request,
     vq_direction = rc_direction request, vq_brand_lock = rc_brand_lock request,
     vq_product_category = product_category_value (rc_product_category request),
     vq_creative_format = creative_format_value (rc_creative_format request)\<rparr>"

text \<open>The analysis of a run that has one.\<close>

definition repeat_analysis ::
  "(nat \<Rightarrow> db \<Rightarrow> db) \<Rightarrow> uuid \<Rightarrow> project_run \<Rightarrow> ('s, 'a, 'p, analysis_completed) handler" where
  "repeat_analysis other rid run =
     bind (meanwhile (other 0)) (\<lambda>_.
     bind (catch (on_runs (reads (get_analysis rid))) (\<lambda>_. return None)) (\<lambda>existing.
     case existing of
       None \<Rightarrow> raise (http 500 ''analysis_state_invalid'')
     | Some analysis \<Rightarrow>
         bind (meanwhile (other 1)) (\<lambda>_.
         bind (on_runs (reads (get_repair_attempted rid))) (\<lambda>repair_attempted.
         liftR (make_analysis_completed \<lparr>ac_run_id = pr_id run, ac_status = RUN_AWAITING_BRAND_LOCK,
           ac_analysis = analysis, ac_repair_attempted = repair_attempted,
           ac_completed_at = pr_updated_at run\<rparr>)))))"

text \<open>Claiming the analysis and loading the asset, with what the two \<open>except\<close> clauses record.\<close>

definition claim_and_load ::
  "('i, 'f, 's, 'a, 'p) server \<Rightarrow> (nat \<Rightarrow> db \<Rightarrow> db) \<Rightarrow> (nat \<Rightarrow> datetime) \<Rightarrow> uuid
    \<Rightarrow> ('s, 'a, 'p, run_create \<times> loaded_asset) handler" where
  "claim_and_load sv other clock rid =
     bind (meanwhile (other 0)) (\<lambda>_.
     bind (on_runs (reads (get_request rid))) (\<lambda>request.
     bind (meanwhile (other 1)) (\<lambda>_.
     bind (on_runs (claim_analysis rid (clock 1))) (\<lambda>claimed.
     if claimed = None then raise invalid_run_state
     else bind (on_assets (so_load (sv_assets sv) (as_asset_id (rc_source_asset request)) (clock 2))) (\<lambda>loaded.
     if ld_asset loaded \<noteq> rc_source_asset request then raise AssetStorageError
     else return (request, loaded))))))"

definition refuse_asset ::
  "(nat \<Rightarrow> db \<Rightarrow> db) \<Rightarrow> (nat \<Rightarrow> datetime) \<Rightarrow> uuid \<Rightarrow> exn \<Rightarrow> ('s, 'a, 'p, 'r) handler" where
  "refuse_asset other clock rid e =
     (if e = AssetLifecycleClosedError
      then bind (meanwhile (other 2)) (\<lambda>_.
        bind (on_runs (record_failure rid BLOCKED (analysis_error_value ASSET_CLOSED) (clock 3))) (\<lambda>_.
        raise (HTTPException 409 (analysis_error_value ASSET_CLOSED))))
      else if e = AssetStorageError \<or> e = ProjectRunNotFoundError
      then bind (meanwhile (other 2)) (\<lambda>_.
        bind (on_runs (record_failure rid BLOCKED (lit ''asset_validation_failed'') (clock 3))) (\<lambda>_.
        raise (http 409 ''asset_validation_failed'')))
      else raise e)"

definition blocked_codes :: "analysis_error_code set" where
  "blocked_codes = {INVALID_INPUT, UNSUPPORTED_SCOPE, ASSET_CLOSED, INSTRUCTION_LIKE_CONTENT,
     PROHIBITED_CONTENT, UNSAFE_HYPOTHESIS}"

definition refuse_analysis ::
  "(nat \<Rightarrow> db \<Rightarrow> db) \<Rightarrow> (nat \<Rightarrow> datetime) \<Rightarrow> uuid \<Rightarrow> exn \<Rightarrow> ('s, 'a, 'p, 'r) handler" where
  "refuse_analysis other clock rid e = (case e of
     AnalysisPipelineError code \<Rightarrow>
       bind (meanwhile (other 2)) (\<lambda>_.
       bind (on_runs (record_failure rid (if code \<in> blocked_codes then BLOCKED else FAILED)
         (analysis_error_value code) (clock 4))) (\<lambda>_.
       raise (HTTPException (if code \<in> blocked_codes then 422 else 502) (analysis_error_value code))))
   | _ \<Rightarrow> raise e)"

definition analyze_claimed ::
  "('i, 'f, 's, 'a, 'p) server \<Rightarrow> (nat \<Rightarrow> db \<Rightarrow> db) \<Rightarrow> (nat \<Rightarrow> datetime) \<Rightarrow> uuid
    \<Rightarrow> run_create \<Rightarrow> loaded_asset \<Rightarrow> ('s, 'a, 'p, analysis_completed) handler" where
  "analyze_claimed sv other clock rid request loaded =
     bind (catch (on_provider (run_pipeline (sv_provider sv) (vision_request_of request (ld_content loaded)) (clock 3)))
       (refuse_analysis other clock rid)) (\<lambda>outcome.
     bind (meanwhile (other 2)) (\<lambda>_.
     bind (catch (on_runs (complete_analysis rid (ao_analysis outcome) (ao_repair_attempted outcome) (clock 4)))
       (\<lambda>_. raise (http 500 ''analysis_persistence_failed''))) (\<lambda>completed.
     liftR (make_analysis_completed \<lparr>ac_run_id = pr_id completed, ac_status = RUN_AWAITING_BRAND_LOCK,
       ac_analysis = ao_analysis outcome, ac_repair_attempted = ao_repair_attempted outcome,
       ac_completed_at = pr_updated_at completed\<rparr>))))"

definition analyze_run ::
  "('i, 'f, 's, 'a, 'p) server \<Rightarrow> (nat \<Rightarrow> db \<Rightarrow> db) \<Rightarrow> (nat \<Rightarrow> datetime) \<Rightarrow> uuid \<Rightarrow> pystr
    \<Rightarrow> ('s, 'a, 'p, analysis_completed) handler" where
  "analyze_run sv other clock rid authorization =
     bind (liftR (authorize sv ANALYZE_PROJECT_RUN rid authorization (clock 0))) (\<lambda>_.
     bind (find_run (get_run rid)) (\<lambda>run.
     if pr_status run = AWAITING_BRAND_LOCK then repeat_analysis other rid run
     else if pr_status run \<noteq> PENDING then raise invalid_run_state
     else bind (catch (claim_and_load sv other clock rid) (refuse_asset other clock rid)) (\<lambda>(request, loaded).
       analyze_claimed sv other clock rid request loaded)))"

subsection \<open>Confirming, drafting, composing, reviewing\<close>

definition confirmation_failure :: "exn \<Rightarrow> exn" where
  "confirmation_failure e = (case e of
     ProjectRunNotFoundError \<Rightarrow> run_not_found
   | InvalidRunStateError \<Rightarrow> invalid_run_state
   | BrandLockImmutableError \<Rightarrow> http 409 ''brand_lock_immutable''
   | BrandLockConfirmationError code \<Rightarrow> HTTPException 422 (confirmation_error_value code)
   | _ \<Rightarrow> http 500 ''brand_lock_persistence_failed'')"

definition confirm_brand_lock_request ::
  "('i, 'f, 's, 'a, 'p) server \<Rightarrow> (nat \<Rightarrow> datetime) \<Rightarrow> uuid \<Rightarrow> brand_lock \<Rightarrow> pystr
    \<Rightarrow> ('s, 'a, 'p, brand_lock_confirmed) handler" where
  "confirm_brand_lock_request sv clock rid lock authorization =
     bind (liftR (authorize sv UPDATE_PROJECT_RUN rid authorization (clock 0))) (\<lambda>_.
     bind (catch (on_runs (confirm_brand_lock rid lock None (clock 1)))
       (\<lambda>e. raise (confirmation_failure e))) (\<lambda>record.
     liftR (make_brand_lock_confirmed \<lparr>bc_run_id = rid, bc_status = RUN_IN_PROGRESS,
       bc_brand_lock = bk_brand_lock record, bc_confirmed_at = bk_confirmed_at record\<rparr>)))"

definition draft_response :: "project_run \<Rightarrow> draft_record \<Rightarrow> draft_generated result" where
  "draft_response run draft = make_draft_generated \<lparr>dg_run_id = pr_id run, dg_status = RUN_IN_PROGRESS,
     dg_brief = dr_brief draft, dg_ad_copy = dr_ad_copy draft, dg_rule_ids = dr_rule_ids draft,
     dg_generated_at = dr_generated_at draft\<rparr>"

definition draft_failure :: "exn \<Rightarrow> exn" where
  "draft_failure e = (case e of
     DraftGenerationError code \<Rightarrow>
       HTTPException (if code = BRAND_LOCK_UNCONFIRMED then 409 else 422) (draft_error_value code)
   | _ \<Rightarrow> e)"

definition new_draft ::
  "('i, 'f, 's, 'a, 'p) server \<Rightarrow> (nat \<Rightarrow> db \<Rightarrow> db) \<Rightarrow> (nat \<Rightarrow> datetime) \<Rightarrow> uuid \<Rightarrow> project_run
    \<Rightarrow> ('s, 'a, 'p, draft_generated) handler" where
  "new_draft sv other clock rid run =
     bind (meanwhile (other 1)) (\<lambda>_.
     bind (find_run (get_analysis rid)) (\<lambda>analysis.
     bind (meanwhile (other 2)) (\<lambda>_.
     bind (find_run (get_confirmed_brand_lock rid)) (\<lambda>confirmation.
     case analysis of None \<Rightarrow> raise invalid_run_state | Some a \<Rightarrow>
     (case confirmation of None \<Rightarrow> raise (http 409 ''brand_lock_unconfirmed'') | Some k \<Rightarrow>
     if pr_status run \<noteq> IN_PROGRESS then raise invalid_run_state
     else bind (catch (liftR (generate (sv_writer sv) a (bk_brand_lock k) (pr_direction run)))
       (\<lambda>e. raise (draft_failure e))) (\<lambda>generated.
     bind (meanwhile (other 3)) (\<lambda>_.
     bind (catch (on_runs (save_draft rid (da_brief generated) (da_ad_copy generated)
         (da_fact_references generated) (da_rule_ids generated) None (clock 1)))
       (\<lambda>e. raise (if e = InvalidRunStateError \<or> e = DraftImmutableError then invalid_run_state
         else http 500 ''draft_persistence_failed''))) (\<lambda>draft.
     liftR (draft_response run draft)))))))))"

definition generate_draft ::
  "('i, 'f, 's, 'a, 'p) server \<Rightarrow> (nat \<Rightarrow> db \<Rightarrow> db) \<Rightarrow> (nat \<Rightarrow> datetime) \<Rightarrow> uuid \<Rightarrow> pystr
    \<Rightarrow> ('s, 'a, 'p, draft_generated) handler" where
  "generate_draft sv other clock rid authorization =
     bind (liftR (authorize sv UPDATE_PROJECT_RUN rid authorization (clock 0))) (\<lambda>_.
     bind (find_run (get_draft rid)) (\<lambda>existing.
     bind (meanwhile (other 0)) (\<lambda>_.
     bind (find_run (get_run rid)) (\<lambda>run.
     case existing of
       Some draft \<Rightarrow> liftR (draft_response run draft)
     | None \<Rightarrow> new_draft sv other clock rid run))))"

definition composition_failure :: "exn \<Rightarrow> exn" where
  "composition_failure e = (case e of
     CompositionServiceError code \<Rightarrow>
       HTTPException (if code = CS_RUN_NOT_FOUND then 404 else if code = CS_OUTPUT_INVALID then 422
         else if code = CS_PERSISTENCE_FAILED then 500 else 409) (composition_service_error_value code)
   | _ \<Rightarrow> e)"

definition generate_composition_request ::
  "('i, 'f, 's, 'a, 'p) server \<Rightarrow> (db \<Rightarrow> db) \<Rightarrow> (nat \<Rightarrow> datetime) \<Rightarrow> uuid \<Rightarrow> uuid \<Rightarrow> bytes \<Rightarrow> pystr
    \<Rightarrow> ('s, 'a, 'p, composition_generated) handler" where
  "generate_composition_request sv other clock artifact_id rid body authorization =
     bind (liftR (authorize sv UPDATE_PROJECT_RUN rid authorization (clock 0))) (\<lambda>_.
     if body \<noteq> [] then raise (http 422 ''composition_body_not_allowed'')
     else catch (on_world (generate_composition (sv_studio sv) (sv_artifacts sv) other rid artifact_id (clock 1)))
       (\<lambda>e. raise (composition_failure e)))"

text \<open>A new critique, in the \<open>else\<close> branch of \<open>run_critic\<close>.\<close>

definition new_critique ::
  "('i, 'f, 's, 'a, 'p) server \<Rightarrow> (nat \<Rightarrow> db \<Rightarrow> db) \<Rightarrow> (nat \<Rightarrow> datetime) \<Rightarrow> uuid \<Rightarrow> project_run
    \<Rightarrow> ('s, 'a, 'p, project_run \<times> critique_report) handler" where
  "new_critique sv other clock rid run =
     bind (meanwhile (other 1)) (\<lambda>_. bind (on_runs (reads (get_analysis rid))) (\<lambda>analysis.
     bind (meanwhile (other 2)) (\<lambda>_. bind (on_runs (reads (get_confirmed_brand_lock rid))) (\<lambda>confirmation.
     bind (meanwhile (other 3)) (\<lambda>_. bind (on_runs (reads (get_draft rid))) (\<lambda>draft.
     bind (meanwhile (other 4)) (\<lambda>_. bind (on_runs (reads (get_composition rid))) (\<lambda>composition.
     case (analysis, confirmation, draft, composition) of
       (Some a, Some k, Some dr, Some c) \<Rightarrow>
         bind (liftR (review (sv_casefold sv) \<lparr>cq_analysis = a, cq_confirmed_brand_lock = bk_brand_lock k,
           cq_draft = dr, cq_composition = c, cq_warning_codes = pr_warning_codes run\<rparr> (clock 1))) (\<lambda>report.
         bind (meanwhile (other 5)) (\<lambda>_. bind (on_runs (save_critique rid report)) (\<lambda>_.
         bind (meanwhile (other 6)) (\<lambda>_. bind (on_runs (reads (get_run rid))) (\<lambda>run'.
         return (run', report))))))
     | _ \<Rightarrow> raise InvalidRunStateError))))))))"

definition critic_failure :: "exn \<Rightarrow> exn" where
  "critic_failure e = (case e of
     ProjectRunNotFoundError \<Rightarrow> run_not_found
   | InvalidRunStateError \<Rightarrow> invalid_run_state
   | CritiqueImmutableError \<Rightarrow> invalid_run_state
   | _ \<Rightarrow> http 500 ''critic_failed'')"

definition run_critic ::
  "('i, 'f, 's, 'a, 'p) server \<Rightarrow> (nat \<Rightarrow> db \<Rightarrow> db) \<Rightarrow> (nat \<Rightarrow> datetime) \<Rightarrow> uuid \<Rightarrow> bytes \<Rightarrow> pystr
    \<Rightarrow> ('s, 'a, 'p, critique_completed) handler" where
  "run_critic sv other clock rid body authorization =
     bind (liftR (authorize sv UPDATE_PROJECT_RUN rid authorization (clock 0))) (\<lambda>_.
     if body \<noteq> [] then raise (http 422 ''critic_body_not_allowed'')
     else bind (catch
       (bind (on_runs (reads (get_run rid))) (\<lambda>run.
        bind (meanwhile (other 0)) (\<lambda>_. bind (on_runs (reads (get_critique rid))) (\<lambda>existing.
        case existing of
          Some k \<Rightarrow> return (run, ck_report k)
        | None \<Rightarrow> new_critique sv other clock rid run))))
       (\<lambda>e. raise (critic_failure e))) (\<lambda>(run, report).
     liftR (make_critique_completed \<lparr>cc_run_id = pr_id run, cc_status = run_status_of (pr_status run),
       cc_critique = report, cc_initial_generation_count = pr_initial_generation_count run,
       cc_human_revision_count = pr_human_revision_count run,
       cc_technical_attempt_count = pr_technical_attempt_count run,
       cc_reviewed_at = cr_reviewed_at report\<rparr>)))"

subsection \<open>Revisions\<close>

definition revision_failure :: "exn \<Rightarrow> exn" where
  "revision_failure e = (case e of
     RevisionServiceError code \<Rightarrow>
       HTTPException (if code = RS_RUN_NOT_FOUND then 404 else if code = RS_INVALID_REVISION_REQUEST then 422
         else if code \<in> {RS_REVISION_FAILED, RS_RETRY_FAILED} then 500 else 409) (revision_service_error_value code)
   | _ \<Rightarrow> e)"

definition submit_feedback_request ::
  "('i, 'f, 's, 'a, 'p) server \<Rightarrow> (db \<Rightarrow> db) \<Rightarrow> revision_clock \<Rightarrow> datetime \<Rightarrow> uuid \<Rightarrow> uuid \<Rightarrow> feedback_request
    \<Rightarrow> pystr \<Rightarrow> pystr \<Rightarrow> ('s, 'a, 'p, revision_completed) handler" where
  "submit_feedback_request sv other clock now artifact_id rid feedback idempotency_key authorization =
     bind (liftR (authorize sv UPDATE_PROJECT_RUN rid authorization now)) (\<lambda>_.
     if idempotency_key = [] then raise (http 422 ''invalid_revision_request'')
     else if fb_run_id feedback \<noteq> rid then raise invalid_run_state
     else catch (on_world (submit_feedback (sv_studio sv) (sv_casefold sv) (sv_time_text sv) (sv_artifacts sv)
         other artifact_id clock feedback idempotency_key))
       (\<lambda>e. raise (revision_failure e)))"

definition retry_revision_request ::
  "('i, 'f, 's, 'a, 'p) server \<Rightarrow> (db \<Rightarrow> db) \<Rightarrow> revision_clock \<Rightarrow> datetime \<Rightarrow> uuid \<Rightarrow> uuid \<Rightarrow> retry_request
    \<Rightarrow> pystr \<Rightarrow> pystr \<Rightarrow> ('s, 'a, 'p, revision_completed) handler" where
  "retry_revision_request sv other clock now artifact_id rid retry idempotency_key authorization =
     bind (liftR (authorize sv UPDATE_PROJECT_RUN rid authorization now)) (\<lambda>_.
     if idempotency_key = [] then raise (http 422 ''invalid_revision_request'')
     else if rq_run_id retry \<noteq> rid then raise invalid_run_state
     else catch (on_world (retry_revision (sv_studio sv) (sv_casefold sv) (sv_artifacts sv) other artifact_id
         clock retry idempotency_key))
       (\<lambda>e. raise (revision_failure e)))"

subsection \<open>Exports\<close>

datatype result_version_choice = Version_1 | Version_2

fun version_number :: "result_version_choice \<Rightarrow> int" where
  "version_number Version_1 = 1"
| "version_number Version_2 = 2"

record http_response =
  hr_content :: bytes
  hr_media_type :: pystr
  hr_headers :: "(pystr \<times> pystr) list"

definition export_response :: "uuid \<Rightarrow> bytes \<Rightarrow> pystr \<Rightarrow> pystr \<Rightarrow> http_response" where
  "export_response rid content media_type extension = \<lparr>hr_content = content, hr_media_type = media_type,
     hr_headers = [(lit ''Content-Disposition'',
         lit ''attachment; filename='' @ [34] @ lit ''cultureshift-'' @ uuid_str rid @ [46] @ extension @ [34]),
       (lit ''X-Content-Type-Options'', lit ''nosniff'')]\<rparr>"

definition export_failure :: "exn \<Rightarrow> exn" where
  "export_failure e = (case e of
     CompositionExportError code \<Rightarrow>
       HTTPException (if code = CE_RUN_NOT_FOUND then 404 else if code = CE_COMPOSITION_UNAVAILABLE then 409
         else 410) (composition_export_error_value code)
   | _ \<Rightarrow> e)"

definition export_composition_png ::
  "('i, 'f, 's, 'a, 'p) server \<Rightarrow> (nat \<Rightarrow> datetime) \<Rightarrow> uuid \<Rightarrow> result_version_choice \<Rightarrow> pystr
    \<Rightarrow> ('s, 'a, 'p, http_response) handler" where
  "export_composition_png sv clock rid version authorization =
     bind (liftR (authorize sv READ_PROJECT_RUN rid authorization (clock 0))) (\<lambda>_.
     bind (catch (on_world (export_png (sv_artifacts sv) (sv_reader sv) rid (version_number version) (clock 1)))
       (\<lambda>e. raise (export_failure e))) (\<lambda>exported.
     return (export_response rid (ec_png_bytes exported) (lit ''image/png'') (lit ''png''))))"

definition export_composition_json ::
  "('i, 'f, 's, 'a, 'p) server \<Rightarrow> (nat \<Rightarrow> datetime) \<Rightarrow> uuid \<Rightarrow> result_version_choice \<Rightarrow> pystr
    \<Rightarrow> ('s, 'a, 'p, http_response) handler" where
  "export_composition_json sv clock rid version authorization =
     bind (liftR (authorize sv READ_PROJECT_RUN rid authorization (clock 0))) (\<lambda>_.
     bind (catch (on_runs (reads (export_json (sv_time_text sv) rid (version_number version))))
       (\<lambda>e. raise (export_failure e))) (\<lambda>encoded.
     return (export_response rid encoded (lit ''application/json'') (lit ''json''))))"

end
