(* ===== verification/Api_Lifecycle.thy ===== *)
theory Api_Lifecycle
  imports Api
begin

section \<open>The API refines the lifecycle\<close>

text \<open>
  Every handler of \<open>Api\<close> changes the database by lifecycle steps only, whatever the other requests do
  between its transactions as long as they do the same. \<open>lawful\<close> is that property of a program, and
  each construct of the handlers keeps it. The analysis is the one handler whose steps are allowed
  only after another: \<open>spares_claim\<close> says that other requests leave a claimed analysis to the claimant.
\<close>

subsection \<open>Lawful programs\<close>

definition spares_claim :: "uuid \<Rightarrow> (db \<Rightarrow> db) \<Rightarrow> bool" where
  "spares_claim rid other \<longleftrightarrow> (\<forall>d A. reachable \<lparr>sys_db = d, sys_analyzing = A\<rparr> \<longrightarrow>
     (\<exists>A'. later \<lparr>sys_db = d, sys_analyzing = A\<rparr> \<lparr>sys_db = other d, sys_analyzing = A'\<rparr> \<and> (rid \<in> A \<longrightarrow> rid \<in> A')))"

lemma spares_claim_law_abiding: "spares_claim rid other \<Longrightarrow> law_abiding other"
  unfolding spares_claim_def law_abiding_def by blast

lemma spares_claim_id [simp]: "spares_claim rid (\<lambda>d. d)"
  unfolding spares_claim_def by (metis later_refl)

definition lawful_at :: "('s, 'a, 'p) api \<Rightarrow> ('s, 'a, 'p, 'r) handler \<Rightarrow> bool" where
  "lawful_at a m \<longleftrightarrow> (\<forall>A. reachable \<lparr>sys_db = ap_db a, sys_analyzing = A\<rparr> \<longrightarrow> leads_to (ap_db a) A (ap_db (snd (m a))))"

definition lawful :: "('s, 'a, 'p, 'r) handler \<Rightarrow> bool" where
  "lawful m \<longleftrightarrow> (\<forall>a. lawful_at a m)"

named_theorems lawful_intros "programs that take lifecycle steps only"

lemma leads_toE:
  assumes "leads_to d A d'" "reachable \<lparr>sys_db = d, sys_analyzing = A\<rparr>"
  obtains A' where "later \<lparr>sys_db = d, sys_analyzing = A\<rparr> \<lparr>sys_db = d', sys_analyzing = A'\<rparr>"
    "reachable \<lparr>sys_db = d', sys_analyzing = A'\<rparr>"
  using assms later_reachable unfolding leads_to_def by blast

lemma leads_to_chain:
  "leads_to d A d1 \<Longrightarrow> reachable \<lparr>sys_db = d, sys_analyzing = A\<rparr> \<Longrightarrow>
     (\<And>A1. reachable \<lparr>sys_db = d1, sys_analyzing = A1\<rparr> \<Longrightarrow> leads_to d1 A1 d2) \<Longrightarrow> leads_to d A d2"
  by (erule (1) leads_toE) (meson leads_to_def later_trans)

lemma lawful_basic [lawful_intros]:
  "lawful (return x)" "lawful (raise e)" "lawful (liftR r)" "lawful (on_runs (reads f))"
  "lawful (on_assets m)" "lawful (on_provider n)" "lawful (on_limiter l)"
  by (simp_all add: lawful_def lawful_at_def on_runs_def on_assets_def on_provider_def on_limiter_def
      split: prod.split)

lemma lawful_at_bind:
  "lawful_at a m \<Longrightarrow> (\<And>x a1. m a = (Inr x, a1) \<Longrightarrow> lawful_at a1 (f x)) \<Longrightarrow> lawful_at a (bind m f)"
  unfolding lawful_at_def
  by (auto simp: bind_def split: prod.splits sum.splits intro: leads_to_chain)

lemma lawful_bind [lawful_intros]: "lawful m \<Longrightarrow> (\<And>x. lawful (f x)) \<Longrightarrow> lawful (bind m f)"
  by (simp add: lawful_def lawful_at_bind)

lemma lawful_bind_liftR: "(\<And>x. r = Inr x \<Longrightarrow> lawful (f x)) \<Longrightarrow> lawful (bind (liftR r) f)"
  by (auto simp: lawful_def lawful_at_def bind_eq split: sum.split)

lemma lawful_at_catch:
  "lawful_at a m \<Longrightarrow> (\<And>e a1. m a = (Inl e, a1) \<Longrightarrow> lawful_at a1 (h e)) \<Longrightarrow> lawful_at a (catch m h)"
  unfolding lawful_at_def
  by (auto simp: catch_def split: prod.splits sum.splits intro: leads_to_chain)

lemma lawful_catch [lawful_intros]: "lawful m \<Longrightarrow> (\<And>e. lawful (h e)) \<Longrightarrow> lawful (catch m h)"
  by (simp add: lawful_def lawful_at_catch)

lemma lawful_if [lawful_intros]: "lawful m \<Longrightarrow> lawful m' \<Longrightarrow> lawful (if c then m else m')"
  by simp

lemma lawful_option [lawful_intros]:
  "lawful m \<Longrightarrow> (\<And>x. lawful (f x)) \<Longrightarrow> lawful (case v of None \<Rightarrow> m | Some x \<Rightarrow> f x)"
  by (cases v) simp_all

lemma lawful_prod [lawful_intros]: "(\<And>x y. lawful (f x y)) \<Longrightarrow> lawful (case v of (x, y) \<Rightarrow> f x y)"
  by (cases v) simp

lemma lawful_meanwhile [lawful_intros]: "law_abiding other \<Longrightarrow> lawful (meanwhile other)"
  unfolding lawful_def lawful_at_def meanwhile_def leads_to_def by (simp add: law_abidingD)

lemma lawful_find_run [lawful_intros]: "lawful (find_run f)"
  unfolding find_run_def by (intro lawful_intros)

lemma lawful_step:
  assumes "\<And>d A res d'. m d = (res, d') \<Longrightarrow> \<exists>A'. step \<lparr>sys_db = d, sys_analyzing = A\<rparr> rid \<lparr>sys_db = d', sys_analyzing = A'\<rparr>"
  shows "lawful (on_runs m)"
  unfolding lawful_def lawful_at_def on_runs_def leads_to_def
  using assms later_step by (fastforce split: prod.split)

lemma lawful_transactions [lawful_intros]:
  "lawful (on_runs (confirm_brand_lock rid lock tm now))"
  "lawful (on_runs (save_draft rid brief c facts rules tm now))"
  "lawful (on_runs (save_critique rid report))"
  by (rule lawful_step[where rid = rid], blast intro: Confirm Save_Draft Save_Critique)+

subsection \<open>The handlers\<close>

lemma lawful_assets: "lawful (upload_asset sv clock asset_id q)" "lawful (delete_asset_request sv clock asset_id authorization)"
  unfolding upload_asset_def store_upload_def delete_asset_request_def by (intro lawful_intros)+

lemma lawful_create: "lawful (create_run_request sv clock rid request)"
  unfolding create_run_request_def
proof (rule lawful_catch[OF lawful_bind_liftR], intro lawful_intros)
  fix run
  assume "new_project_run rid (clock 0) (rc_direction request) = Inr run"
  then show "lawful (on_runs (create_run run (Some request)))"
    by (intro lawful_step[where rid = rid]) (blast intro: Create)
qed (intro lawful_intros)

lemma lawful_get: "lawful (get_run_request sv clock rid authorization)"
  unfolding get_run_request_def by (intro lawful_intros)

lemma lawful_confirm: "lawful (confirm_brand_lock_request sv clock rid lock authorization)"
  unfolding confirm_brand_lock_request_def by (intro lawful_intros)

lemma lawful_draft:
  assumes "\<forall>i. law_abiding (other i)"
  shows "lawful (generate_draft sv other clock rid authorization)"
  unfolding generate_draft_def new_draft_def using assms by (intro lawful_intros) auto

lemma lawful_critic:
  assumes "\<forall>i. law_abiding (other i)"
  shows "lawful (run_critic sv other clock rid body authorization)"
  unfolding run_critic_def new_critique_def using assms
  by (intro lawful_intros) (auto intro!: lawful_intros split: option.split)

lemma lawful_export_json: "lawful (export_composition_json sv clock rid version authorization)"
  unfolding export_composition_json_def by (intro lawful_intros)


lemma export_png_db: "fst (snd (export_png st rd rid v now (d, s))) = d"
  by (auto simp: export_png_def bind_def catch_def on_db_def on_store_def split: prod.splits sum.splits)

lemma lawful_world: "(\<And>d s. fst (snd (m (d, s))) = d) \<Longrightarrow> lawful (on_world m)"
  unfolding lawful_def lawful_at_def on_world_def
  by (auto split: prod.split) (metis fst_conv leads_to_refl snd_conv)

lemma lawful_export_png: "lawful (export_composition_png sv clock rid version authorization)"
  unfolding export_composition_png_def by (intro lawful_intros lawful_world export_png_db)

text \<open>The services, on a studio and a disk whose identifier is fresh.\<close>

lemma lawful_at_pure: "lawful_at a (liftR r)" "lawful_at a (raise e)"
  by (simp_all add: lawful_at_def)

lemma lawful_at_handler:
  assumes "lawful_at a m"
  shows "lawful_at a (bind (liftR r) (\<lambda>_. if c then raise e else catch m (\<lambda>e. raise (h e))))"
  by (rule lawful_at_bind[OF lawful_at_pure(1)])
    (auto intro!: lawful_at_catch lawful_at_pure assms)

lemma lawful_at_world:
  assumes "\<And>A r d' s'. reachable \<lparr>sys_db = ap_db a, sys_analyzing = A\<rparr> \<Longrightarrow> m (ap_db a, ap_artifacts a) = (r, (d', s'))
    \<Longrightarrow> leads_to (ap_db a) A d'"
  shows "lawful_at a (on_world m)"
  unfolding lawful_at_def on_world_def using assms by (auto split: prod.split)

lemma lawful_composition:
  assumes "working_studio (sv_studio sv)" "sv_artifacts sv = disk_operations m" "law_abiding other"
    "is_utc (clock 1)" "in_range (dt_add (clock 1) (hours 24))" "stored_at m (ap_artifacts a) artifact_id = None"
  shows "lawful_at a (generate_composition_request sv other clock artifact_id rid body authorization)"
  unfolding generate_composition_request_def
proof (rule lawful_at_handler)
  let ?m = "generate_composition (sv_studio sv) (sv_artifacts sv) other rid artifact_id (clock 1)"
  show "lawful_at a (on_world ?m)"
  proof (rule lawful_at_world)
    fix A r d' s'
    assume reach: "reachable \<lparr>sys_db = ap_db a, sys_analyzing = A\<rparr>" and run: "?m (ap_db a, ap_artifacts a) = (r, (d', s'))"
    note outcome = disk_store.generate_outcome[OF assms(1,4-6) run[unfolded assms(2) disk_operations_def]]
    have other: "leads_to (ap_db a) A (other (ap_db a))"
      using law_abidingD[OF assms(3) reach] by (simp add: leads_to_def)
    show "leads_to (ap_db a) A d'"
    proof (cases r)
      case (Inl e)
      then show ?thesis
        using outcome other by auto
    next
      case (Inr c)
      have "leads_to (ap_db a) A d'" if "save_composition rid c (other (ap_db a)) = (Inr c, d')"
      proof (rule leads_to_chain[OF other reach])
        fix A1
        show "leads_to (other (ap_db a)) A1 d'"
          using later_step[OF Save_Composition[OF that]] by (auto simp: leads_to_def)
      qed
      then show ?thesis
        using outcome Inr other by auto
    qed
  qed
qed

lemma lawful_at_request:
  assumes "lawful_at a m"
  shows "lawful_at a (bind (liftR r) (\<lambda>_. if c then raise e else if c' then raise e' else catch m (\<lambda>e. raise (h e))))"
  by (rule lawful_at_bind[OF lawful_at_pure(1)])
    (auto intro!: lawful_at_catch lawful_at_pure assms)

lemma lawful_revision:
  assumes "working_studio (sv_studio sv)" "sv_artifacts sv = disk_operations m" "law_abiding other"
    "is_utc (rt_now clock)" "in_range (dt_add (rt_now clock) (hours 24))" "stored_at m (ap_artifacts a) artifact_id = None"
  shows "lawful_at a (submit_feedback_request sv other clock now artifact_id rid feedback key authorization)"
    "lawful_at a (retry_revision_request sv other clock now artifact_id rid retry key authorization)"
proof -
  show "lawful_at a (submit_feedback_request sv other clock now artifact_id rid feedback key authorization)"
    unfolding submit_feedback_request_def
    by (rule lawful_at_request[OF lawful_at_world])
      (use disk_store.submit_outcome[OF assms(1,4-6,3)] in \<open>auto simp: assms(2) disk_operations_def\<close>)
  show "lawful_at a (retry_revision_request sv other clock now artifact_id rid retry key authorization)"
    unfolding retry_revision_request_def
    by (rule lawful_at_request[OF lawful_at_world])
      (use disk_store.retry_outcome[OF assms(1,4-6,3)] in \<open>auto simp: assms(2) disk_operations_def\<close>)
qed

subsection \<open>Analysis\<close>

text \<open>What a request does after it has claimed the analysis of \<open>rid\<close>.\<close>

definition lawful_claimed :: "uuid \<Rightarrow> ('s, 'a, 'p, 'r) handler \<Rightarrow> bool" where
  "lawful_claimed rid m \<longleftrightarrow> (\<forall>a A. reachable \<lparr>sys_db = ap_db a, sys_analyzing = A\<rparr> \<longrightarrow> rid \<in> A \<longrightarrow>
     leads_to (ap_db a) A (ap_db (snd (m a))))"

lemma lawful_claimed_weaken: "lawful m \<Longrightarrow> lawful_claimed rid m"
  by (simp add: lawful_def lawful_at_def lawful_claimed_def)

lemma lawful_claimed_finish:
  assumes "\<And>d A res d'. rid \<in> A \<Longrightarrow> m d = (res, d') \<Longrightarrow>
      \<exists>A'. step \<lparr>sys_db = d, sys_analyzing = A\<rparr> rid \<lparr>sys_db = d', sys_analyzing = A'\<rparr>"
    "\<And>x. lawful (f x)"
  shows "lawful_claimed rid (bind (on_runs m) f)"
  unfolding lawful_claimed_def
proof (intro allI impI)
  fix a :: "('b, 'c, 'd) api" and A
  assume reach: "reachable \<lparr>sys_db = ap_db a, sys_analyzing = A\<rparr>" and "rid \<in> A"
  obtain res d' where run: "m (ap_db a) = (res, d')"
    by (cases "m (ap_db a)")
  have first: "leads_to (ap_db a) A d'"
    using assms(1)[OF \<open>rid \<in> A\<close> run] later_step by (fastforce simp: leads_to_def)
  show "leads_to (ap_db a) A (ap_db (snd (bind (on_runs m) f a)))"
  proof (cases res)
    case (Inl e)
    then show ?thesis
      using run first by (simp add: bind_def on_runs_def)
  next
    case (Inr x)
    then show ?thesis
      using run assms(2)[of x, unfolded lawful_def lawful_at_def, rule_format, of "a\<lparr>ap_db := d'\<rparr>"]
      by (auto simp: bind_def on_runs_def intro!: leads_to_chain[OF first reach])
  qed
qed

lemma lawful_claimed_meanwhile:
  assumes "spares_claim rid other" "lawful_claimed rid m"
  shows "lawful_claimed rid (bind (meanwhile other) (\<lambda>_. m))"
  unfolding lawful_claimed_def
proof (intro allI impI)
  fix a :: "('a, 'b, 'c) api" and A
  assume reach: "reachable \<lparr>sys_db = ap_db a, sys_analyzing = A\<rparr>" and "rid \<in> A"
  then obtain A' where A': "later \<lparr>sys_db = ap_db a, sys_analyzing = A\<rparr> \<lparr>sys_db = other (ap_db a), sys_analyzing = A'\<rparr>"
    "rid \<in> A'"
    using assms(1) by (auto simp: spares_claim_def)
  then have "leads_to (other (ap_db a)) A' (ap_db (snd (m (a\<lparr>ap_db := other (ap_db a)\<rparr>))))"
    using assms(2)[unfolded lawful_claimed_def, rule_format, of "a\<lparr>ap_db := other (ap_db a)\<rparr>" A'] later_reachable reach
    by simp
  then show "leads_to (ap_db a) A (ap_db (snd (bind (meanwhile other) (\<lambda>_. m) a)))"
    using A'(1) by (auto simp: bind_def meanwhile_def leads_to_def intro: later_trans)
qed

lemma lawful_claimed_bind:
  assumes "\<And>a. ap_db (snd (m a)) = ap_db a" "\<And>x. lawful_claimed rid (f x)"
  shows "lawful_claimed rid (bind m f)"
  unfolding lawful_claimed_def
proof (intro allI impI)
  fix a :: "('a, 'b, 'c) api" and A
  assume "reachable \<lparr>sys_db = ap_db a, sys_analyzing = A\<rparr>" "rid \<in> A"
  then show "leads_to (ap_db a) A (ap_db (snd (bind m f a)))"
    using assms(1)[of a] assms(2)[unfolded lawful_claimed_def, rule_format, of "snd (m a)" A]
    by (cases "m a") (auto simp: bind_def split: sum.split)
qed

lemma lawful_claimed_raise: "lawful_claimed rid (raise e)"
  by (rule lawful_claimed_weaken) (rule lawful_intros)

text \<open>A handler that never returns keeps what follows from running.\<close>

lemma lawful_claimed_try:
  assumes "\<And>a. ap_db (snd (m a)) = ap_db a" "\<And>e a x a'. h e a \<noteq> (Inr x, a')"
    "\<And>e. lawful_claimed rid (h e)" "\<And>x. lawful_claimed rid (f x)"
  shows "lawful_claimed rid (bind (catch m h) f)"
  unfolding lawful_claimed_def
proof (intro allI impI)
  fix a :: "('a, 'b, 'c) api" and A
  assume reach: "reachable \<lparr>sys_db = ap_db a, sys_analyzing = A\<rparr>" "rid \<in> A"
  obtain q a1 where run: "m a = (q, a1)"
    by (cases "m a")
  with assms(1)[of a] have same: "ap_db a1 = ap_db a"
    by simp
  show "leads_to (ap_db a) A (ap_db (snd (bind (catch m h) f a)))"
  proof (cases q)
    case (Inl e)
    obtain q2 a2 where handled: "h e a1 = (q2, a2)"
      by (cases "h e a1")
    then obtain e2 where "q2 = Inl e2"
      using assms(2)[of e a1 _ a2] by (cases q2) auto
    then show ?thesis
      using run Inl handled assms(3)[unfolded lawful_claimed_def, rule_format, of a1 A e] reach same
      by (simp add: bind_def catch_def)
  next
    case (Inr x)
    then show ?thesis
      using run assms(4)[unfolded lawful_claimed_def, rule_format, of a1 A x] reach same
      by (simp add: bind_def catch_def)
  qed
qed

lemma on_runs_catch: "catch (on_runs m) (\<lambda>e. raise (g e)) = on_runs (catch m (\<lambda>e. raise (g e)))"
  by (rule ext) (auto simp: catch_def on_runs_def split: prod.split sum.split)

lemma refuse_never_returns:
  "refuse_asset other clock rid e a \<noteq> (Inr x, a')" "refuse_analysis other clock rid e a \<noteq> (Inr x, a')"
  by (auto simp: refuse_asset_def refuse_analysis_def bind_Inr_iff split: exn.split)

lemma lawful_refuse_asset:
  assumes "\<forall>i. spares_claim rid (other i)"
  shows "lawful_claimed rid (refuse_asset other clock rid e)"
proof -
  have finish: "lawful_claimed rid (bind (on_runs (record_failure rid BLOCKED code t)) (\<lambda>_. raise e'))" for code t e'
    by (rule lawful_claimed_finish) (auto intro: Record_Failure intro!: lawful_intros)
  show ?thesis
    unfolding refuse_asset_def
    using assms by (auto intro!: lawful_claimed_meanwhile finish lawful_claimed_raise)
qed

lemma lawful_refuse_analysis:
  assumes "\<forall>i. spares_claim rid (other i)"
  shows "lawful_claimed rid (refuse_analysis other clock rid e)"
proof -
  have finish: "lawful_claimed rid (bind (on_runs (record_failure rid st code t)) (\<lambda>_. raise e'))" for st code t e'
    by (rule lawful_claimed_finish) (auto intro: Record_Failure intro!: lawful_intros)
  show ?thesis
    unfolding refuse_analysis_def
    using assms by (auto intro!: lawful_claimed_meanwhile finish lawful_claimed_raise split: exn.split)
qed

lemma lawful_analyze_claimed:
  assumes "\<forall>i. spares_claim rid (other i)"
  shows "lawful_claimed rid (analyze_claimed sv other clock rid request loaded)"
  unfolding analyze_claimed_def
proof (rule lawful_claimed_try)
  show "ap_db (snd (on_provider m a)) = ap_db a" for m and a :: "('a, 'b, 'c) api"
    by (simp add: on_provider_def split: prod.split)
  fix outcome
  show "lawful_claimed rid (bind (meanwhile (other 2)) (\<lambda>_.
     bind (catch (on_runs (complete_analysis rid (ao_analysis outcome) (ao_repair_attempted outcome) (clock 4)))
       (\<lambda>_. raise (http 500 ''analysis_persistence_failed''))) (\<lambda>completed.
     liftR (make_analysis_completed \<lparr>ac_run_id = pr_id completed, ac_status = RUN_AWAITING_BRAND_LOCK,
       ac_analysis = ao_analysis outcome, ac_repair_attempted = ao_repair_attempted outcome,
       ac_completed_at = pr_updated_at completed\<rparr>))))"
    unfolding on_runs_catch
  proof (rule lawful_claimed_meanwhile[OF assms[rule_format] lawful_claimed_finish])
    fix d A res d'
    assume "rid \<in> A" "catch (complete_analysis rid (ao_analysis outcome) (ao_repair_attempted outcome) (clock 4))
      (\<lambda>_. raise (http 500 ''analysis_persistence_failed'')) d = (res, d')"
    then obtain res0 where "complete_analysis rid (ao_analysis outcome) (ao_repair_attempted outcome) (clock 4) d = (res0, d')"
      by (auto simp: catch_def split: prod.splits sum.splits)
    then show "\<exists>A'. step \<lparr>sys_db = d, sys_analyzing = A\<rparr> rid \<lparr>sys_db = d', sys_analyzing = A'\<rparr>"
      using \<open>rid \<in> A\<close> Complete_Analysis by blast
  qed (rule lawful_intros)
next
  show "refuse_analysis other clock rid e a \<noteq> (Inr x, a')" for e x and a a' :: "('a, 'b, 'c) api"
    by (rule refuse_never_returns)
qed (rule lawful_refuse_analysis[OF assms])

text \<open>Claiming: either nothing was claimed, and the error is not one that records a failure, or the
  analysis is the request's.\<close>

lemma get_run_missing: "get_run rid d = Inl e \<Longrightarrow> db_runs d rid = Some r \<Longrightarrow> e = ValidationError"
  by (auto simp: get_run_def select_run_def validate_project_run_def Let_def split: if_splits sum.splits)

lemma run_has_context:
  assumes "reachable \<lparr>sys_db = d, sys_analyzing = A\<rparr>"
  shows "db_runs d rid = None \<longleftrightarrow> db_contexts d rid = None"
proof -
  obtain p where "in_phase p (view_run rid d)"
    using inv_run_phase[OF reachable_inv[OF assms]] by auto
  then show ?thesis
    using phase_status_cases(1)[of p]
    by (cases "db_runs d rid"; cases "db_contexts d rid") (auto simp: in_phase_def view_run_def)
qed

lemma run_stays:
  assumes "leads_to d A d'" "reachable \<lparr>sys_db = d, sys_analyzing = A\<rparr>" "db_runs d rid \<noteq> None"
  shows "db_runs d' rid \<noteq> None" "db_contexts d' rid \<noteq> None"
proof -
  obtain A' where A': "later \<lparr>sys_db = d, sys_analyzing = A\<rparr> \<lparr>sys_db = d', sys_analyzing = A'\<rparr>"
    "reachable \<lparr>sys_db = d', sys_analyzing = A'\<rparr>"
    using leads_toE[OF assms(1,2)] .
  have "db_contexts d rid \<noteq> None"
    using run_has_context[OF assms(2)] assms(3) by simp
  then show "db_contexts d' rid \<noteq> None"
    using later_extends[OF A'(1) assms(2), of rid] by (auto simp: view_extends_def view_run_def)
  then show "db_runs d' rid \<noteq> None"
    using run_has_context[OF A'(2)] by simp
qed

lemma claim_analysis_Inl:
  "claim_analysis rid now d = (Inl e, d') \<Longrightarrow> db_runs d rid \<noteq> None \<Longrightarrow> e = ValidationError"
  by (auto simp: claim_analysis_def bind_Inl_iff update_runs_def connect_def
      split: if_splits option.splits sum.splits dest!: get_run_missing)

lemma claim_and_load_outcome:
  assumes "\<forall>i. spares_claim rid (other i)" "reachable \<lparr>sys_db = ap_db a, sys_analyzing = A\<rparr>"
    "db_runs (ap_db a) rid \<noteq> None" "claim_and_load sv other clock rid a = (q, a')"
  shows "(\<exists>e. q = Inl e \<and> e \<notin> {AssetLifecycleClosedError, AssetStorageError, ProjectRunNotFoundError}
      \<and> leads_to (ap_db a) A (ap_db a'))
    \<or> (\<exists>A'. later \<lparr>sys_db = ap_db a, sys_analyzing = A\<rparr> \<lparr>sys_db = ap_db a', sys_analyzing = A'\<rparr> \<and> rid \<in> A')"
proof -
  define d1 where "d1 = other 0 (ap_db a)"
  define d2 where "d2 = other 1 d1"
  obtain A1 where A1: "later \<lparr>sys_db = ap_db a, sys_analyzing = A\<rparr> \<lparr>sys_db = d1, sys_analyzing = A1\<rparr>"
    using assms(1,2) unfolding d1_def spares_claim_def by blast
  note reach1 = later_reachable[OF A1 assms(2)]
  obtain A2 where "later \<lparr>sys_db = d1, sys_analyzing = A1\<rparr> \<lparr>sys_db = d2, sys_analyzing = A2\<rparr>"
    using assms(1) reach1 unfolding d2_def spares_claim_def by blast
  with A1 have A2: "later \<lparr>sys_db = ap_db a, sys_analyzing = A\<rparr> \<lparr>sys_db = d2, sys_analyzing = A2\<rparr>"
    by (rule later_trans)
  have "db_contexts d1 rid \<noteq> None" "db_runs d2 rid \<noteq> None"
    using run_stays[OF _ assms(2,3)] A1 A2 by (auto simp: leads_to_def)
  then obtain request where request: "get_request rid d1 = Inr request"
    by (auto simp: get_request_def get_context_def)
  obtain res d3 where claim: "claim_analysis rid (clock 1) d2 = (res, d3)"
    by (cases "claim_analysis rid (clock 1) d2")
  define A3 where "A3 = (if \<exists>run. res = Inr (Some run) then insert rid A2 else A2)"
  have A3: "later \<lparr>sys_db = ap_db a, sys_analyzing = A\<rparr> \<lparr>sys_db = d3, sys_analyzing = A3\<rparr>"
    using later_trans[OF A2 later_step[OF Claim_Analysis[OF claim A3_def]]] .
  let ?rest = "\<lambda>claimed. if claimed = None then raise invalid_run_state
     else bind (on_assets (so_load (sv_assets sv) (as_asset_id (rc_source_asset request)) (clock 2))) (\<lambda>loaded.
     if ld_asset loaded \<noteq> rc_source_asset request then raise AssetStorageError else return (request, loaded))"
  have run: "(q, a') = (case res of Inl e \<Rightarrow> (Inl e, a\<lparr>ap_db := d3\<rparr>) | Inr claimed \<Rightarrow> ?rest claimed (a\<lparr>ap_db := d3\<rparr>))"
    using assms(4) request claim
    by (simp add: claim_and_load_def bind_def meanwhile_def on_runs_def d1_def d2_def split: sum.split)
  show ?thesis
  proof (cases res)
    case (Inl e)
    then have "e = ValidationError"
      using claim_analysis_Inl claim \<open>db_runs d2 rid \<noteq> None\<close> by blast
    then show ?thesis
      using run Inl A3 by (auto simp: leads_to_def)
  next
    case (Inr claimed)
    show ?thesis
    proof (cases claimed)
      case None
      then show ?thesis
        using run Inr A3 by (auto simp: leads_to_def http_def)
    next
      case (Some r)
      have "ap_db a' = d3"
        using run Inr Some by (auto simp: bind_def on_assets_def split: prod.splits sum.splits if_splits)
      then show ?thesis
        using A3 Inr Some by (auto simp: A3_def)
    qed
  qed
qed

lemma lawful_analyze:
  fixes sv :: "('i, 'f, 's, 'a, 'p) server"
  assumes "\<forall>i. spares_claim rid (other i)"
  shows "lawful (analyze_run sv other clock rid authorization)"
proof -
  have others: "\<forall>i. law_abiding (other i)"
    using assms spares_claim_law_abiding by blast
  have claiming: "lawful_at a (bind (catch (claim_and_load sv other clock rid) (refuse_asset other clock rid))
      (\<lambda>(request, loaded). analyze_claimed sv other clock rid request loaded))"
    if run: "db_runs (ap_db a) rid \<noteq> None" for a :: "('s, 'a, 'p) api"
    unfolding lawful_at_def
  proof (intro allI impI)
    fix A assume reach: "reachable \<lparr>sys_db = ap_db a, sys_analyzing = A\<rparr>"
    obtain q a1 where claim: "claim_and_load sv other clock rid a = (q, a1)"
      by (cases "claim_and_load sv other clock rid a")
    let ?left = "snd (bind (catch (claim_and_load sv other clock rid) (refuse_asset other clock rid))
        (\<lambda>(request, loaded). analyze_claimed sv other clock rid request loaded) a)"
    consider (unclaimed) e where "q = Inl e"
        "e \<notin> {AssetLifecycleClosedError, AssetStorageError, ProjectRunNotFoundError}" "leads_to (ap_db a) A (ap_db a1)"
      | (claimed) A1 where "later \<lparr>sys_db = ap_db a, sys_analyzing = A\<rparr> \<lparr>sys_db = ap_db a1, sys_analyzing = A1\<rparr>" "rid \<in> A1"
      using claim_and_load_outcome[OF assms reach run claim] by blast
    then show "leads_to (ap_db a) A (ap_db ?left)"
    proof cases
      case unclaimed
      then show ?thesis
        using claim by (simp add: bind_def catch_def refuse_asset_def)
    next
      case claimed
      note reach1 = later_reachable[OF claimed(1) reach]
      have "leads_to (ap_db a1) A1 (ap_db ?left)"
      proof (cases q)
        case (Inl e)
        obtain q2 :: "exn + run_create \<times> loaded_asset" and a2 where refused: "refuse_asset other clock rid e a1 = (q2, a2)"
          by (metis surj_pair)
        then obtain e2 where "q2 = Inl e2"
          by (cases q2) (simp_all add: refuse_never_returns)
        moreover have "leads_to (ap_db a1) A1 (ap_db (snd (q2, a2)))"
          unfolding refused[symmetric]
          by (rule lawful_refuse_asset[OF assms, unfolded lawful_claimed_def, rule_format, OF reach1 claimed(2)])
        ultimately show ?thesis
          using claim Inl refused by (simp add: bind_def catch_def)
      next
        case (Inr rl)
        then show ?thesis
          using claim lawful_analyze_claimed[OF assms, unfolded lawful_claimed_def, rule_format, OF reach1 claimed(2)]
          by (cases rl) (simp add: bind_def catch_def)
      qed
      then show ?thesis
        using claimed(1) by (auto simp: leads_to_def intro: later_trans)
    qed
  qed
  show ?thesis
    unfolding lawful_def
  proof
    fix a :: "('s, 'a, 'p) api"
    show "lawful_at a (analyze_run sv other clock rid authorization)"
      unfolding analyze_run_def
    proof (rule lawful_at_bind[OF lawful_at_pure(1)], rule lawful_at_bind)
      fix u and a1 :: "('s, 'a, 'p) api" show "lawful_at a1 (find_run (get_run rid))"
        by (simp add: lawful_find_run[unfolded lawful_def])
      fix run and a2 :: "('s, 'a, 'p) api" assume "find_run (get_run rid) a1 = (Inr run, a2)"
      then have "get_run rid (ap_db a2) = Inr run"
        by (auto simp: find_run_def catch_Inr_iff on_runs_def)
      then have present: "db_runs (ap_db a2) rid \<noteq> None"
        using get_run_status by fastforce
      have "lawful (repeat_analysis other rid run)"
        unfolding repeat_analysis_def using others by (intro lawful_intros) auto
      then show "lawful_at a2 (if pr_status run = AWAITING_BRAND_LOCK then repeat_analysis other rid run
        else if pr_status run \<noteq> PENDING then raise invalid_run_state
        else bind (catch (claim_and_load sv other clock rid) (refuse_asset other clock rid))
          (\<lambda>(request, loaded). analyze_claimed sv other clock rid request loaded))"
        using claiming[OF present] by (auto simp: lawful_def lawful_at_pure)
    qed
  qed
qed


subsection \<open>The API as a whole\<close>

text \<open>A request with what is its own: its path, its headers, its body and the identifiers drawn for it.\<close>

datatype (plugins only: code size) api_request =
    Upload_Asset uuid upload_request
  | Delete_Upload uuid pystr
  | Create_Run uuid run_create
  | Get_Run uuid pystr
  | Analyze_Run uuid pystr
  | Confirm_Brand_Lock uuid brand_lock pystr
  | Generate_Draft uuid pystr
  | Generate_Composition uuid uuid bytes pystr
  | Run_Critic uuid bytes pystr
  | Submit_Feedback uuid uuid feedback_request pystr pystr
  | Retry_Revision uuid uuid retry_request pystr pystr
  | Export_Png uuid result_version_choice pystr
  | Export_Json uuid result_version_choice pystr

definition revision_times :: "(nat \<Rightarrow> datetime) \<Rightarrow> revision_clock" where
  "revision_times clock = \<lparr>rt_claimed = clock 1, rt_now = clock 2, rt_reviewed = clock 3, rt_failed = clock 4\<rparr>"

definition answered :: "('s, 'a, 'p, 'r) handler \<Rightarrow> ('s, 'a, 'p, unit) handler" where
  "answered m = bind m (\<lambda>_. return ())"

fun handle ::
  "('i, 'f, 's, 'a, 'p) server \<Rightarrow> (nat \<Rightarrow> db \<Rightarrow> db) \<Rightarrow> (nat \<Rightarrow> datetime) \<Rightarrow> api_request \<Rightarrow> ('s, 'a, 'p, unit) handler" where
  "handle sv other clock (Upload_Asset asset_id q) = answered (upload_asset sv clock asset_id q)"
| "handle sv other clock (Delete_Upload asset_id auth) = answered (delete_asset_request sv clock asset_id auth)"
| "handle sv other clock (Create_Run rid q) = answered (create_run_request sv clock rid q)"
| "handle sv other clock (Get_Run rid auth) = answered (get_run_request sv clock rid auth)"
| "handle sv other clock (Analyze_Run rid auth) = answered (analyze_run sv other clock rid auth)"
| "handle sv other clock (Confirm_Brand_Lock rid lock auth) = answered (confirm_brand_lock_request sv clock rid lock auth)"
| "handle sv other clock (Generate_Draft rid auth) = answered (generate_draft sv other clock rid auth)"
| "handle sv other clock (Generate_Composition artifact_id rid body auth) =
     answered (generate_composition_request sv (other 0) clock artifact_id rid body auth)"
| "handle sv other clock (Run_Critic rid body auth) = answered (run_critic sv other clock rid body auth)"
| "handle sv other clock (Submit_Feedback artifact_id rid feedback key auth) =
     answered (submit_feedback_request sv (other 0) (revision_times clock) (clock 0) artifact_id rid feedback key auth)"
| "handle sv other clock (Retry_Revision artifact_id rid retry key auth) =
     answered (retry_revision_request sv (other 0) (revision_times clock) (clock 0) artifact_id rid retry key auth)"
| "handle sv other clock (Export_Png rid version auth) = answered (export_composition_png sv clock rid version auth)"
| "handle sv other clock (Export_Json rid version auth) = answered (export_composition_json sv clock rid version auth)"

text \<open>The run a request analyses, whose claim the others leave alone, and the artifact it may save, whose
  identifier is new.\<close>

fun analyzed_run :: "api_request \<Rightarrow> uuid option" where
  "analyzed_run (Analyze_Run rid auth) = Some rid"
| "analyzed_run _ = None"

fun drawn_artifact :: "api_request \<Rightarrow> uuid option" where
  "drawn_artifact (Generate_Composition artifact_id rid body auth) = Some artifact_id"
| "drawn_artifact (Submit_Feedback artifact_id rid feedback key auth) = Some artifact_id"
| "drawn_artifact (Retry_Revision artifact_id rid retry key auth) = Some artifact_id"
| "drawn_artifact _ = None"

definition ordinary ::
  "nat \<Rightarrow> (nat \<Rightarrow> db \<Rightarrow> db) \<Rightarrow> (nat \<Rightarrow> datetime) \<Rightarrow> api_request \<Rightarrow> (disk, 'a, 'p) api \<Rightarrow> bool" where
  "ordinary m other clock q a \<longleftrightarrow> (\<forall>i. law_abiding (other i))
     \<and> (\<forall>rid. analyzed_run q = Some rid \<longrightarrow> (\<forall>i. spares_claim rid (other i)))
     \<and> (\<forall>i. is_utc (clock i) \<and> in_range (dt_add (clock i) (hours 24)))
     \<and> (\<forall>artifact_id. drawn_artifact q = Some artifact_id \<longrightarrow> stored_at m (ap_artifacts a) artifact_id = None)"

lemma lawful_answered: "lawful_at a m \<Longrightarrow> lawful_at a (answered m)"
  unfolding answered_def by (rule lawful_at_bind) (simp_all add: lawful_at_def)

lemma lawful_handle:
  assumes "working_studio (sv_studio sv)" "sv_artifacts sv = disk_operations m" "ordinary m other clock q a"
  shows "lawful_at a (handle sv other clock q)"
proof -
  have others: "\<forall>i. law_abiding (other i)" "\<And>i. is_utc (clock i)" "\<And>i. in_range (dt_add (clock i) (hours 24))"
    using assms(3) by (simp_all add: ordinary_def)
  note everywhere = lawful_assets lawful_create lawful_get lawful_confirm lawful_draft[OF others(1)]
    lawful_critic[OF others(1)] lawful_export_png lawful_export_json
  show ?thesis
  proof (cases q)
    case (Analyze_Run rid auth)
    then have "\<forall>i. spares_claim rid (other i)"
      using assms(3) by (simp add: ordinary_def)
    then show ?thesis
      using Analyze_Run by (simp add: lawful_answered lawful_analyze[unfolded lawful_def])
  next
    case (Generate_Composition artifact_id rid body auth)
    then show ?thesis
      using assms(3) lawful_composition[OF assms(1,2) others(1)[rule_format] others(2,3), of a artifact_id]
      by (simp add: lawful_answered ordinary_def)
  next
    case (Submit_Feedback artifact_id rid feedback key auth)
    then show ?thesis
      using assms(3) lawful_revision(1)[OF assms(1,2) others(1)[rule_format], of "revision_times clock" a artifact_id] others(2,3)
      by (simp add: lawful_answered ordinary_def revision_times_def)
  next
    case (Retry_Revision artifact_id rid retry key auth)
    then show ?thesis
      using assms(3) lawful_revision(2)[OF assms(1,2) others(1)[rule_format], of "revision_times clock" a artifact_id] others(2,3)
      by (simp add: lawful_answered ordinary_def revision_times_def)
  qed (simp_all add: lawful_answered everywhere[unfolded lawful_def])
qed

text \<open>The states the API reaches, from an empty database, by requests with whatever outcome and whatever
  other requests between their transactions.\<close>

inductive served ::
  "('i, 'f, disk, 'a, 'p) server \<Rightarrow> nat \<Rightarrow> (disk, 'a, 'p) api \<Rightarrow> bool" for sv m where
  start: "ap_db a = empty_db \<Longrightarrow> served sv m a"
| request: "served sv m a \<Longrightarrow> ordinary m other clock q a \<Longrightarrow> served sv m (snd (handle sv other clock q a))"

end
