(* ===== verification/Api_Properties.thy ===== *)
theory Api_Properties
  imports Api_Lifecycle Revision_Properties
begin

section \<open>The properties of the API\<close>

text \<open>
  What a client of \<open>src/cultureshift/app.py\<close> can rely on, whatever happens between the requests:
  the lifecycle, the capabilities, the answers and what is stored when they are given.
\<close>

subsection \<open>The lifecycle\<close>

text \<open>
  C1. The API refines the lifecycle: whatever requests are made, in whatever order and with whatever
  headers and bodies, however they are interleaved with others and whatever fails on the disks, in the
  provider or in the tokens, the database is one that the abstract state machine reaches, so every
  property of the lifecycle holds of it, and every run is in exactly one phase.
\<close>

theorem api_refines_lifecycle:
  assumes "working_studio (sv_studio sv)" "sv_artifacts sv = disk_operations m" "served sv m a"
  shows "\<exists>A. reachable \<lparr>sys_db = ap_db a, sys_analyzing = A\<rparr>
    \<and> (\<forall>rid. \<exists>!p. in_phase p (view_run rid (ap_db a)))"
proof -
  from assms(3) have "\<exists>A. reachable \<lparr>sys_db = ap_db a, sys_analyzing = A\<rparr>"
  proof induction
    case (start a)
    then show ?case
      using reachable.init by (auto simp: init_sys_def)
  next
    case (request a other clock q)
    then obtain A where reach: "reachable \<lparr>sys_db = ap_db a, sys_analyzing = A\<rparr>"
      by blast
    have "leads_to (ap_db a) A (ap_db (snd (handle sv other clock q a)))"
      using lawful_handle[OF assms(1,2) request.hyps(2)] reach by (simp add: lawful_at_def)
    then show ?case
      using leads_toE reach by blast
  qed
  then obtain A where "reachable \<lparr>sys_db = ap_db a, sys_analyzing = A\<rparr>" ..
  moreover have "\<exists>!p. in_phase p (view_run rid (ap_db a))" for rid
    using inv_run_phase[OF reachable_inv[OF calculation], of rid] in_phase_unique by auto
  ultimately show ?thesis
    by blast
qed


subsection \<open>Capabilities\<close>

text \<open>\<open>str.casefold\<close> maps ASCII letters to lower case.\<close>

definition folds_ascii :: "(pystr \<Rightarrow> pystr) \<Rightarrow> bool" where
  "folds_ascii cf \<longleftrightarrow> (\<forall>s. list_all (\<lambda>c. c < 128) s \<longrightarrow> cf s = map ascii_lower s)"

definition bearer :: "pystr \<Rightarrow> pystr" where
  "bearer token = lit ''Bearer '' @ token"

lemma uuid_str_inj [simp]: "uuid_str u = uuid_str v \<longleftrightarrow> u = v"
  by (metis parse_uuid_str sum.inject(2))

lemma bearer_token_bearer:
  assumes "folds_ascii cf" "token \<noteq> []"
  shows "bearer_token cf (bearer token) = Inr token"
proof -
  have "cf (lit ''Bearer'') = map ascii_lower (lit ''Bearer'')"
    using assms(1) by (simp add: folds_ascii_def lit_def)
  also have "\<dots> = lit ''bearer''"
    by (simp add: lit_def ascii_lower_def is_upper_def)
  finally show ?thesis
    using assms(2) by (simp add: bearer_token_def bearer_def lit_def)
qed

lemma b64_char_visible: "v < 64 \<Longrightarrow> 45 \<le> b64_char v \<and> b64_char v \<le> 122"
  by (auto simp: b64_char_def)

lemma b64_encode_visible: "c \<in> set (b64_encode bs) \<Longrightarrow> 45 \<le> c \<and> c \<le> 122"
  by (induction bs rule: b64_encode.induct) (auto simp: b64_char_visible)

lemma issued_token:
  assumes "issue ts subject caps ttl now = Inr token"
  shows "token \<noteq> []" "strip_text token = token"
proof -
  obtain bs cs where token: "token = b64_encode bs @ [46] @ b64_encode cs"
    using assms by (auto simp: issue_def Let_def signature_def split: if_splits sum.splits)
  then show "token \<noteq> []"
    by simp
  have "\<not> is_white c" if "c \<in> set token" for c
  proof -
    have "45 \<le> c \<and> c \<le> 122"
      using that b64_encode_visible unfolding token by auto
    then show ?thesis
      by (auto simp: is_white_def)
  qed
  then show "strip_text token = token"
    using \<open>token \<noteq> []\<close> by (simp add: strip_text_def strip_by_id)
qed

lemma authorize_issued:
  assumes "issue (sv_tokens sv) (uuid_str sid) caps ttl issued = Inr token"
    "list_all plain_char (ts_audience (sv_tokens sv))" "folds_ascii (sv_casefold sv)"
  shows "authorize sv required subject (bearer token) now =
    (if is_aware now \<and> required \<in> set caps \<and> int_timestamp now < int_timestamp (dt_add issued ttl)
     then if subject = sid then Inr () else Inl (http 403 ''capability_subject_mismatch'')
     else Inl (http 401 ''invalid_capability''))"
  using verify_issued[OF assms(2) plain_uuid_str assms(1), of "sv_decode sv" required now]
    bearer_token_bearer[OF assms(3) issued_token(1)[OF assms(1)]]
  by (auto simp: authorize_def token_claims_def)

lemma authorize_cases:
  assumes "authorize sv required subject authorization now = r"
  obtains (refused) status code where "r = Inl (http status code)" "status = 401 \<or> status = 403"
  | (granted) token claims where "r = Inr ()" "bearer_token (sv_casefold sv) authorization = Inr token"
    "verify (sv_decode sv) (sv_tokens sv) token required now = Inr claims"
    "cm_subject claims = JStr (uuid_str subject)"
proof (cases "bearer_token (sv_casefold sv) authorization")
  case (Inl e)
  then have "r = Inl (http 401 ''invalid_capability'')"
    using assms by (auto simp: authorize_def bearer_token_def Let_def split: if_splits)
  then show thesis
    using refused by blast
next
  case (Inr token)
  show thesis
  proof (cases "verify (sv_decode sv) (sv_tokens sv) token required now")
    case (Inl e)
    then have "e = CapabilityTokenError"
      by (auto simp: verify_def split: sum.splits)
    then have "r = Inl (http 401 ''invalid_capability'')"
      using assms Inl Inr by (simp add: authorize_def)
    then show thesis
      using refused by blast
  next
    case (Inr claims)
    then show thesis
      using assms granted refused[of 403] \<open>bearer_token (sv_casefold sv) authorization = Inr token\<close>
      by (auto simp: authorize_def split: if_splits)
  qed
qed

text \<open>The capability a request needs and the Authorization header it comes with.\<close>

fun credentials :: "api_request \<Rightarrow> (capability \<times> uuid \<times> pystr) option" where
  "credentials (Upload_Asset asset_id q) = None"
| "credentials (Create_Run rid q) = None"
| "credentials (Delete_Upload asset_id auth) = Some (DELETE_ASSET, asset_id, auth)"
| "credentials (Get_Run rid auth) = Some (READ_PROJECT_RUN, rid, auth)"
| "credentials (Analyze_Run rid auth) = Some (ANALYZE_PROJECT_RUN, rid, auth)"
| "credentials (Confirm_Brand_Lock rid lock auth) = Some (UPDATE_PROJECT_RUN, rid, auth)"
| "credentials (Generate_Draft rid auth) = Some (UPDATE_PROJECT_RUN, rid, auth)"
| "credentials (Generate_Composition artifact_id rid body auth) = Some (UPDATE_PROJECT_RUN, rid, auth)"
| "credentials (Run_Critic rid body auth) = Some (UPDATE_PROJECT_RUN, rid, auth)"
| "credentials (Submit_Feedback artifact_id rid feedback key auth) = Some (UPDATE_PROJECT_RUN, rid, auth)"
| "credentials (Retry_Revision artifact_id rid retry key auth) = Some (UPDATE_PROJECT_RUN, rid, auth)"
| "credentials (Export_Png rid version auth) = Some (READ_PROJECT_RUN, rid, auth)"
| "credentials (Export_Json rid version auth) = Some (READ_PROJECT_RUN, rid, auth)"

lemma handle_authorizes:
  "credentials q = Some (required, subject, auth) \<Longrightarrow>
     \<exists>m. handle sv other clock q = bind (liftR (authorize sv required subject auth (clock 0))) m"
  by (cases q) (auto simp: answered_def delete_asset_request_def get_run_request_def analyze_run_def
      confirm_brand_lock_request_def generate_draft_def generate_composition_request_def run_critic_def
      submit_feedback_request_def retry_revision_request_def export_composition_png_def
      export_composition_json_def prog_bind_assoc)

text \<open>
  C7. Nothing is done without an authentic token: a request that needs a capability and does not come
  with a text that carries the HMAC of its payload under the server's secret, unexpired, for that
  capability and that very run or asset, is answered 401 or 403 and changes nothing at all.
\<close>

theorem requests_need_authentic_tokens:
  assumes "credentials q = Some (required, subject, auth)" "handle sv other clock q a = (r, a')"
  shows "(\<exists>status code. r = Inl (http status code) \<and> status \<in> {401, 403} \<and> a' = a)
    \<or> (\<exists>encoded claims. bearer_token (sv_casefold sv) auth =
          Inr (encoded @ [46] @ signature (sv_tokens sv) (map word_of_nat encoded))
        \<and> verify (sv_decode sv) (sv_tokens sv)
            (encoded @ [46] @ signature (sv_tokens sv) (map word_of_nat encoded)) required (clock 0) = Inr claims
        \<and> cm_subject claims = JStr (uuid_str subject) \<and> required \<in> set (cm_capabilities claims)
        \<and> instant (from_timestamp (int_timestamp (clock 0))) < instant (cm_expires_at claims))"
proof -
  obtain m where m: "handle sv other clock q = bind (liftR (authorize sv required subject auth (clock 0))) m"
    using handle_authorizes[OF assms(1)] by blast
  show ?thesis
  proof (rule authorize_cases[OF refl, of sv required subject auth "clock 0"])
    fix status :: nat and code
    assume "authorize sv required subject auth (clock 0) = Inl (http status code)" "status = 401 \<or> status = 403"
    then have "r = Inl (http status code)" "a' = a" "status \<in> {401, 403}"
      using m assms(2) by (simp_all add: bind_def liftR_def)
    then show ?thesis
      by blast
  next
    fix token claims
    assume "bearer_token (sv_casefold sv) auth = Inr token"
      "verify (sv_decode sv) (sv_tokens sv) token required (clock 0) = Inr claims"
      "cm_subject claims = JStr (uuid_str subject)"
    then show ?thesis
      using verify_authentic by blast
  qed
qed

subsection \<open>The length of a token\<close>

text \<open>A clock between 1970 and 9998, and a service whose audience is a name.\<close>

definition sensible_clock :: "(nat \<Rightarrow> datetime) \<Rightarrow> bool" where
  "sensible_clock clock \<longleftrightarrow> (\<forall>i. is_utc (clock i) \<and> 0 \<le> instant (clock i) \<and> in_range (clock i)
     \<and> in_range (dt_add (clock i) (hours 24)))"

definition named_service :: "token_service \<Rightarrow> bool" where
  "named_service ts \<longleftrightarrow> list_all plain_char (ts_audience ts) \<and> length (ts_audience ts) \<le> 64"

lemma sensible_clockD:
  assumes "sensible_clock clock"
  shows "is_utc (clock i)" "is_aware (clock i)" "in_range (clock i)" "in_range (dt_add (clock i) (hours 24))"
proof -
  show "is_utc (clock i)" "in_range (clock i)" "in_range (dt_add (clock i) (hours 24))"
    using assms by (simp_all add: sensible_clock_def)
  then show "is_aware (clock i)"
    by (cases "clock i") simp_all
qed

lemma length_b64_encode: "length (b64_encode bs) = (4 * length bs + 2) div 3"
  by (induction bs rule: b64_encode.induct) simp_all

lemma length_dumps_strings: "length (dumps_elements True (map JStr ss)) \<le> 1 + sum_list (map (\<lambda>s. 12 * length s + 3) ss)"
proof (induction ss)
  case (Cons s ss)
  then show ?case
    using length_json_string[of s] by simp
qed simp

lemma length_capability: "length (capability_value c) \<le> 20"
  by (cases c) simp_all

lemma timestamp_length:
  assumes "is_utc t" "in_range t" "0 \<le> instant t"
  shows "length (int_text (int_timestamp t)) \<le> 13"
proof -
  obtain w where t: "t = Aware w 0"
    using assms(1) by (cases t) auto
  have "w div day_us < 10 ^ 8"
    using assms(2) by (simp add: t in_range_def wall_clock_def epoch_day_def year_start_def day_number_def)
  then have "w < 10 ^ 8 * day_us"
    by (simp add: day_us_def)
  then have "int_timestamp t < 10 ^ Suc 12" "0 \<le> int_timestamp t"
    using assms(3) by (simp_all add: t int_timestamp_def day_us_def)
  then show ?thesis
    using int_text_length[of "int_timestamp t" 12] by simp
qed

lemma token_length:
  assumes "issue ts (uuid_str u) caps ttl now = Inr token" "named_service ts" "length caps \<le> 3"
    "is_utc now" "in_range now" "0 \<le> instant now" "in_range (dt_add now ttl)"
  shows "16 \<le> length token \<and> length token \<le> 4096"
proof -
  let ?s = "dumps True (token_payload ts (uuid_str u) caps ttl now)"
  have plain: "list_all plain_char (ts_audience ts)"
    using assms(2) by (simp add: named_service_def)
  obtain body :: bytes where body: "body = map word_of_nat ?s" "0 < ttl"
    "token = b64_encode body @ [46] @ signature ts (map word_of_nat (b64_encode body))"
    using assms(1) unfolding issue_Inr_iff[OF plain plain_uuid_str] by blast
  have key: "length (json_string True (lit k)) \<le> 12 * length k + 2" for k
    using length_json_string[of "lit k"] by (simp add: lit_def)
  have "length (dumps_elements True (map JStr (sort (map capability_value (remdups caps))))) \<le> 730"
  proof -
    let ?ss = "sort (map capability_value (remdups caps))"
    have "sum_list (map (\<lambda>s. 12 * length s + 3) ?ss) \<le> sum_list (map (\<lambda>s. 243) ?ss)"
      by (rule sum_list_mono) (use length_capability in fastforce)
    also have "\<dots> = 243 * length (remdups caps)"
      by (simp add: sum_list_triv)
    finally show ?thesis
      using length_dumps_strings[of ?ss] length_remdups_leq[of caps] assms(3) by linarith
  qed
  moreover have "length (json_string True (ts_audience ts)) \<le> 770" "length (json_string True (uuid_str u)) \<le> 434"
    using length_json_string[of "ts_audience ts"] length_json_string[of "uuid_str u"] assms(2)
    by (simp_all add: length_uuid_str named_service_def)
  moreover have "length (int_text (int_timestamp now)) \<le> 13" "length (int_text (int_timestamp (dt_add now ttl))) \<le> 13"
    using timestamp_length assms(4-7) body(2) by simp_all
  moreover have "length (int_text 1) \<le> 1"
    using int_text_length[of 1 0] by simp
  ultimately have "length ?s \<le> 2400"
    using key[of "''aud''"] key[of "''cap''"] key[of "''exp''"] key[of "''iat''"] key[of "''sub''"] key[of "''v''"]
    by (simp add: token_payload_def)
  then have "length (b64_encode body) \<le> 3202"
    using length_b64_encode[of body] body(1) by simp
  moreover have "length (signature ts bs) = 43" for bs
  proof -
    have "length (hmac_sha256 (ts_secret ts) bs) = 32"
      by (simp add: hmac_sha256_def Let_def)
    then show ?thesis
      by (simp add: signature_def length_b64_encode)
  qed
  ultimately show ?thesis
    using body(3) by simp
qed

lemma issue_total:
  assumes "named_service ts" "caps \<noteq> []" "0 < ttl" "is_aware now"
  shows "\<exists>token. issue ts (uuid_str u) caps ttl now = Inr token"
proof -
  have plain: "list_all plain_char (ts_audience ts)"
    using assms(1) by (simp add: named_service_def)
  define body :: bytes where "body = map word_of_nat (dumps True (token_payload ts (uuid_str u) caps ttl now))"
  have range: "\<forall>c \<in> set (dumps True (token_payload ts (uuid_str u) caps ttl now)). 32 \<le> c \<and> c < 127"
    using dumps_range(1)[OF readable_payload[OF plain plain_uuid_str]] by auto
  have "ascii_text body = dumps True (token_payload ts (uuid_str u) caps ttl now)"
    unfolding body_def using range by (intro ascii_text_encode) (auto simp: list_all_iff)
  moreover have "list_all (\<lambda>b. 0 < unat b \<and> unat b < 128) body"
    unfolding body_def using range by (auto simp: list_all_iff unat_of_nat)
  moreover have "uuid_str u \<noteq> []"
    using length_uuid_str[of u] by auto
  ultimately show ?thesis
    using assms(2-4) body_def by (auto simp: issue_Inr_iff[OF plain plain_uuid_str])
qed

subsection \<open>Creating a run\<close>

lemma on_runs_Inr: "on_runs m a = (Inr x, a') \<longleftrightarrow> (\<exists>d. m (ap_db a) = (Inr x, d) \<and> a' = a\<lparr>ap_db := d\<rparr>)"
  by (auto simp: on_runs_def split: prod.splits)

lemma on_runs_Inl: "on_runs m a = (Inl e, a') \<longleftrightarrow> (\<exists>d. m (ap_db a) = (Inl e, d) \<and> a' = a\<lparr>ap_db := d\<rparr>)"
  by (auto simp: on_runs_def split: prod.splits)

lemma liftR_Inr: "liftR r a = (Inr x, a') \<longleftrightarrow> r = Inr x \<and> a' = a"
  by (auto simp: liftR_def)

lemma create_request_Inr:
  assumes "create_run_request sv clock rid request a = (Inr c, a1)"
  obtains run token where "new_project_run rid (clock 0) (rc_direction request) = Inr run"
    "issue (sv_tokens sv) (uuid_str rid) [READ_PROJECT_RUN, ANALYZE_PROJECT_RUN, UPDATE_PROJECT_RUN]
       (seconds (15 * 60)) (clock 1) = Inr token"
    "c = \<lparr>rd_run_id = rid, rd_status = RUN_PENDING, rd_capability_token = token, rd_created_at = clock 0\<rparr>"
    "create_run run (Some request) (ap_db a) = (Inr run, ap_db a1)" "a1 = a\<lparr>ap_db := ap_db a1\<rparr>" "is_utc (clock 0)"
proof -
  from assms obtain run token r d where steps: "new_project_run rid (clock 0) (rc_direction request) = Inr run"
    "issue (sv_tokens sv) (uuid_str (pr_id run)) [READ_PROJECT_RUN, ANALYZE_PROJECT_RUN, UPDATE_PROJECT_RUN]
       (seconds (15 * 60)) (clock 1) = Inr token"
    "make_run_created \<lparr>rd_run_id = pr_id run, rd_status = run_status_of (pr_status run),
       rd_capability_token = token, rd_created_at = pr_created_at run\<rparr> = Inr c"
    "create_run run (Some request) (ap_db a) = (Inr r, d)" "a1 = a\<lparr>ap_db := d\<rparr>"
    by (auto simp: create_run_request_def catch_Inr_iff bind_Inr_iff liftR_Inr on_runs_Inr split: sum.splits)
  have run: "pr_id run = rid" "pr_status run = PENDING" "pr_created_at run = clock 0"
    using steps(1) by (auto simp: new_project_run_def validate_project_run_Inr_iff)
  have "r = run"
    using steps(4) by (auto simp: create_run_def catch_def method_simps insert_run_def insert_context_def split: if_splits)
  with steps run issued_token(2)[OF steps(2)] that show thesis
    by (auto simp: make_run_created_def Let_def split: if_splits)
qed

text \<open>
  C15. A created run can be used at once with the token of its answer: the request is stored, reading
  the run answers its pending snapshot, and for fifteen minutes the token opens reading, analysing and
  updating this run. It opens nothing else: for another run it is answered 403, and for deleting an
  asset or at a later time 401. 
\<close>

theorem created_run_is_usable:
  assumes "create_run_request sv clock rid request a = (Inr c, a1)"
    "list_all plain_char (ts_audience (sv_tokens sv))" "folds_ascii (sv_casefold sv)"
  shows "rd_run_id c = rid \<and> get_request rid (ap_db a1) = Inr request
    \<and> (\<forall>required subject now. authorize sv required subject (bearer (rd_capability_token c)) now =
        (if is_aware now \<and> int_timestamp now < int_timestamp (dt_add (clock 1) (seconds (15 * 60)))
           \<and> required \<in> {READ_PROJECT_RUN, ANALYZE_PROJECT_RUN, UPDATE_PROJECT_RUN}
         then if subject = rid then Inr () else Inl (http 403 ''capability_subject_mismatch'')
         else Inl (http 401 ''invalid_capability'')))
    \<and> (\<forall>now. is_aware now \<and> int_timestamp now < int_timestamp (dt_add (clock 1) (seconds (15 * 60))) \<longrightarrow>
        get_run_request sv (\<lambda>_. now) rid (bearer (rd_capability_token c)) a1 =
          (Inr \<lparr>rn_run_id = rid, rn_direction = rc_direction request, rn_status = RUN_PENDING,
             rn_warning_codes = [], rn_created_at = clock 0, rn_updated_at = clock 0\<rparr>, a1))"
proof -
  obtain run token where steps: "new_project_run rid (clock 0) (rc_direction request) = Inr run"
    "issue (sv_tokens sv) (uuid_str rid) [READ_PROJECT_RUN, ANALYZE_PROJECT_RUN, UPDATE_PROJECT_RUN]
       (seconds (15 * 60)) (clock 1) = Inr token"
    "c = \<lparr>rd_run_id = rid, rd_status = RUN_PENDING, rd_capability_token = token, rd_created_at = clock 0\<rparr>"
    "create_run run (Some request) (ap_db a) = (Inr run, ap_db a1)" "is_utc (clock 0)"
    using create_request_Inr[OF assms(1)] by metis
  have run: "pr_id run = rid" "pr_status run = PENDING" "pr_created_at run = clock 0" "pr_updated_at run = clock 0"
    "pr_warning_codes run = []" "pr_direction run = rc_direction request" "is_aware (clock 0)"
    using steps(1) by (auto simp: new_project_run_def validate_project_run_Inr_iff valid_run_def)
  have stored: "db_contexts (ap_db a1) rid = Some (new_context request)" "get_run rid (ap_db a1) = Inr run"
  proof -
    have "ap_db a1 = (ap_db a)\<lparr>db_runs := (db_runs (ap_db a))(rid \<mapsto> \<lparr>rr_direction = pr_direction run,
          rr_status = pr_status run, rr_warning_codes = pr_warning_codes run,
          rr_created_at = pr_created_at run, rr_updated_at = pr_updated_at run\<rparr>),
        db_contexts := (db_contexts (ap_db a))(rid \<mapsto> new_context request)\<rparr>"
      using steps(4) run(1)
      by (auto simp: create_run_def catch_def method_simps insert_run_def insert_context_def split: if_splits)
    then show "db_contexts (ap_db a1) rid = Some (new_context request)" "get_run rid (ap_db a1) = Inr run"
      using steps(1) run by (simp_all add: get_run_def select_run_def new_context_def new_project_run_def
          validate_project_run_Inr_iff valid_run_def)
  qed
  have opens: "authorize sv required subject (bearer (rd_capability_token c)) now =
        (if is_aware now \<and> int_timestamp now < int_timestamp (dt_add (clock 1) (seconds (15 * 60)))
           \<and> required \<in> {READ_PROJECT_RUN, ANALYZE_PROJECT_RUN, UPDATE_PROJECT_RUN}
         then if subject = rid then Inr () else Inl (http 403 ''capability_subject_mismatch'')
         else Inl (http 401 ''invalid_capability''))" for required subject now
    using authorize_issued[OF steps(2) assms(2,3), of required subject now] steps(3) by auto
  have "find_run (get_run rid) a1 = (Inr run, a1)"
    using stored(2) by (simp add: find_run_def catch_def on_runs_def reads_def)
  then have "get_run_request sv (\<lambda>_. now) rid (bearer (rd_capability_token c)) a1 =
      (Inr \<lparr>rn_run_id = rid, rn_direction = rc_direction request, rn_status = RUN_PENDING,
         rn_warning_codes = [], rn_created_at = clock 0, rn_updated_at = clock 0\<rparr>, a1)"
    if "is_aware now \<and> int_timestamp now < int_timestamp (dt_add (clock 1) (seconds (15 * 60)))" for now
    using that opens[of READ_PROJECT_RUN rid now] run steps(5)
    by (simp add: get_run_request_def bind_def liftR_def make_run_snapshot_def valid_warnings_def Let_def)
  then show ?thesis
    using opens stored(1) steps(3) by (simp add: get_request_def get_context_def new_context_def)
qed

text \<open>A refused creation is the one answer 500 \<open>run_creation_failed\<close> and leaves everything as it was.\<close>

lemma refused_creation:
  assumes "create_run_request sv clock rid request a = (Inl e, a1)"
  shows "e = http 500 ''run_creation_failed'' \<and> a1 = a"
proof -
  have "d' = d" if "create_run run (Some request) d = (Inl e', d')" for run d e' d'
    using create_run_effect[OF that] by auto
  then show ?thesis
    using assms by (auto simp: create_run_request_def catch_Inl_iff bind_Inl_iff on_runs_Inl on_runs_Inr
        split: sum.splits)
qed

subsection \<open>Uploads\<close>

lemma on_assets_Inr: "on_assets m a = (Inr x, a') \<longleftrightarrow> (\<exists>d. m (ap_assets a) = (Inr x, d) \<and> a' = a\<lparr>ap_assets := d\<rparr>)"
  by (auto simp: on_assets_def split: prod.splits)

lemma on_assets_Inl: "on_assets m a = (Inl e, a') \<longleftrightarrow> (\<exists>d. m (ap_assets a) = (Inl e, d) \<and> a' = a\<lparr>ap_assets := d\<rparr>)"
  by (auto simp: on_assets_def split: prod.splits)

lemma receive_Inr: "receive content parts = Inr data \<Longrightarrow> data = content @ concat parts"
  by (induction content parts rule: receive.induct) (auto split: if_splits)

lemma receive_Inl: "receive content parts = Inl e \<Longrightarrow> e = http 413 ''asset_too_large''"
  by (induction content parts rule: receive.induct) (auto split: if_splits)

text \<open>An exception that the framework answers with its status and code.\<close>

definition http_error :: "exn \<Rightarrow> bool" where
  "http_error e \<longleftrightarrow> (\<exists>status code. e = http status code)"

lemma http_errorI [simp]: "http_error (http status code)"
  by (auto simp: http_error_def)

lemma upload_failure_http [simp]: "http_error (upload_failure e)"
  by (cases e) (simp_all add: upload_failure_def)

text \<open>Once the asset is stored nothing can go wrong: the token can be issued and the answer is valid.\<close>

lemma store_upload_stored:
  assumes "store_asset py aid content (uq_content_type q) (uq_provenance_ref q) (uq_rights_ref q) (clock 1)
      (ap_assets a) = (Inr s, d1)" "sv_assets sv = temporary_assets py" "pydantic_laws py"
    "named_service (sv_tokens sv)" "sensible_clock clock"
  shows "\<exists>token. issue (sv_tokens sv) (uuid_str aid) [DELETE_ASSET] (hours 24) (clock 2) = Inr token
    \<and> as_asset_id (sd_asset s) = aid \<and> as_sha256 (sd_asset s) = sha256_hex content
    \<and> store_upload sv clock aid q content a = (Inr \<lparr>up_asset = sd_asset s, up_size_bytes = int (length content),
        up_created_at = clock 1, up_delete_capability_token = token\<rparr>, a\<lparr>ap_assets := d1\<rparr>)"
proof -
  note time = sensible_clockD[OF assms(5)]
  have ttl: "in_range (dt_add (clock 1) ASSET_TTL)"
    using time(4) by (simp add: ASSET_TTL_def)
  obtain x where prepared: "prepare_asset aid content (uq_content_type q) (uq_provenance_ref q) (uq_rights_ref q)
      (clock 1) = Inr (s, x)"
    using store_asset_Inr(1)[OF assms(1,3) time(3) ttl] by blast
  note made = prepare_asset_Inr[OF prepared]
  have sizes: "sd_size_bytes s = int (length content)" "sd_created_at s = clock 1"
    using made(4) by (metis stored_asset.select_convs(2,3))+
  obtain token where token: "issue (sv_tokens sv) (uuid_str aid) [DELETE_ASSET] (hours 24) (clock 2) = Inr token"
    using issue_total[OF assms(4), of "[DELETE_ASSET]" "hours 24" "clock 2" aid] time(2)
    by (auto simp: hours_def seconds_def)
  have "0 \<le> instant (clock 2)"
    using assms(5) by (simp add: sensible_clock_def)
  then have "16 \<le> length token \<and> length token \<le> 4096"
    using token_length[OF token assms(4)] time by simp
  then have uploaded: "make_asset_uploaded \<lparr>up_asset = sd_asset s, up_size_bytes = sd_size_bytes s,
      up_created_at = sd_created_at s, up_delete_capability_token = token\<rparr> =
    Inr \<lparr>up_asset = sd_asset s, up_size_bytes = int (length content),
      up_created_at = clock 1, up_delete_capability_token = token\<rparr>"
    using sizes made(10,11) time(1) issued_token(2)[OF token]
    by (cases content) (simp_all add: make_asset_uploaded_def is_token_text_def MAX_ASSET_BYTES_def)
  have "on_assets (so_store (sv_assets sv) aid content (uq_content_type q) (uq_provenance_ref q) (uq_rights_ref q)
      (clock 1)) a = (Inr s, a\<lparr>ap_assets := d1\<rparr>)"
    using assms(1) by (simp add: on_assets_def assms(2) temporary_assets_def)
  then have "store_upload sv clock aid q content a = (Inr \<lparr>up_asset = sd_asset s, up_size_bytes = int (length content),
      up_created_at = clock 1, up_delete_capability_token = token\<rparr>, a\<lparr>ap_assets := d1\<rparr>)"
    using token uploaded made(6) by (simp add: store_upload_def bind_def catch_def liftR_def)
  then show ?thesis
    using token made(6,8) by blast
qed

lemma store_upload_outcome:
  assumes "store_upload sv clock aid q content a = (r, a1)" "sv_assets sv = temporary_assets py" "pydantic_laws py"
    "named_service (sv_tokens sv)" "sensible_clock clock" "file_at (ap_assets a) (meta_path aid) = None"
  shows "(\<exists>u token. r = Inr u \<and> ap_db a1 = ap_db a
      \<and> issue (sv_tokens sv) (uuid_str aid) [DELETE_ASSET] (hours 24) (clock 2) = Inr token
      \<and> up_delete_capability_token u = token \<and> as_asset_id (up_asset u) = aid
      \<and> as_sha256 (up_asset u) = sha256_hex content \<and> up_size_bytes u = int (length content)
      \<and> asset_at py (ap_assets a1) aid = Some (\<lparr>ld_asset = up_asset u, ld_content = content\<rparr>, clock 1))
    \<or> (\<exists>e. r = Inl e \<and> ap_db a1 = ap_db a \<and> file_at (ap_assets a1) (meta_path aid) = None)"
proof -
  obtain q1 d1 where stored: "store_asset py aid content (uq_content_type q) (uq_provenance_ref q) (uq_rights_ref q)
      (clock 1) (ap_assets a) = (q1, d1)"
    by (cases "store_asset py aid content (uq_content_type q) (uq_provenance_ref q) (uq_rights_ref q)
      (clock 1) (ap_assets a)")
  show ?thesis
  proof (cases q1)
    case (Inl e)
    have "file_at d1 (meta_path aid) = None"
      using store_asset_Inl[OF stored[unfolded Inl] assms(6)] .
    then show ?thesis
      using assms(1) stored Inl by (auto simp: store_upload_def bind_def on_assets_def assms(2) temporary_assets_def)
  next
    case (Inr s)
    have "in_range (dt_add (clock 1) ASSET_TTL)"
      using sensible_clockD(4)[OF assms(5)] by (simp add: ASSET_TTL_def)
    from store_asset_Inr(3)[OF stored[unfolded Inr] assms(3) sensible_clockD(3)[OF assms(5)] this]
      store_upload_stored[OF stored[unfolded Inr] assms(2-5)] show ?thesis
      using assms(1) by auto
  qed
qed

text \<open>
  C10. An upload is all or nothing: with the temporary store on a disk where everything may fail, an
  answered upload has stored exactly the bytes of the body under the identifier of the answer, with
  their digest and size, and a refused one is a documented HTTP error and leaves nothing that could be
  read; runs are not touched.
\<close>

theorem upload_is_all_or_nothing:
  assumes "upload_asset sv clock aid q a = (r, a1)" "sv_assets sv = temporary_assets py" "pydantic_laws py"
    "named_service (sv_tokens sv)" "sensible_clock clock" "uq_client_host q \<noteq> Some []"
    "file_at (ap_assets a) (meta_path aid) = None"
  shows "ap_db a1 = ap_db a \<and> (case r of
      Inr u \<Rightarrow> as_asset_id (up_asset u) = aid \<and> as_sha256 (up_asset u) = sha256_hex (concat (uq_chunks q))
        \<and> up_size_bytes u = int (length (concat (uq_chunks q)))
        \<and> asset_at py (ap_assets a1) aid = Some (\<lparr>ld_asset = up_asset u, ld_content = concat (uq_chunks q)\<rparr>, clock 1)
    | Inl e \<Rightarrow> http_error e \<and> asset_at py (ap_assets a1) aid = None)"
proof -
  let ?key = "case uq_client_host q of None \<Rightarrow> lit ''unknown-client'' | Some h \<Rightarrow> h"
  have missing: "asset_at py d aid = None" if "file_at d (meta_path aid) = None" for d
    using that by (simp add: asset_at_def)
  have "?key \<noteq> []"
    using assms(6) by (cases "uq_client_host q") auto
  then have "\<exists>allowed. fst (allow ?key (clock 0) (ap_limiter a)) = Inr allowed"
    using sensible_clockD(2)[OF assms(5)] by (auto simp: allow_def Let_def split: prod.split)
  then obtain allowed l where "allow ?key (clock 0) (ap_limiter a) = (Inr allowed, l)"
    by (metis prod.collapse)
  then have limited: "on_limiter (allow ?key (clock 0)) a = (Inr allowed, a\<lparr>ap_limiter := l\<rparr>)"
    by (simp add: on_limiter_def)
  show ?thesis
  proof (cases "allowed \<and> (\<exists>content. receive [] (uq_chunks q) = Inr content)")
    case False
    then show ?thesis
      using assms(1,7) limited missing[of "ap_assets a"] receive_Inl[of "[]" "uq_chunks q"]
      by (cases allowed; cases "receive [] (uq_chunks q)") (auto simp: upload_asset_def bind_def liftR_def)
  next
    case True
    then obtain content where received: "receive [] (uq_chunks q) = Inr content"
      by blast
    obtain r2 a2 where stored: "store_upload sv clock aid q content (a\<lparr>ap_limiter := l\<rparr>) = (r2, a2)"
      by (cases "store_upload sv clock aid q content (a\<lparr>ap_limiter := l\<rparr>)")
    have run: "(r, a1) = (case r2 of Inl e \<Rightarrow> (Inl (upload_failure e), a2) | Inr u \<Rightarrow> (Inr u, a2))"
      using assms(1) limited received stored True
      by (cases r2) (auto simp: upload_asset_def bind_def liftR_def catch_def raise_def)
    from store_upload_outcome[OF stored assms(2-5)] assms(7) show ?thesis
      using run missing[of "ap_assets a2"] receive_Inr[OF received] by (cases r2) auto
  qed
qed

lemma unlink_all_quiet:
  "dk_verdicts d = [] \<Longrightarrow> \<exists>d'. for_each unlink_missing_ok ns d = (Inr (), d') \<and> dk_verdicts d' = []"
proof (induction ns arbitrary: d)
  case (Cons n ns)
  then have "unlink_missing_ok n d = (Inr (), drop_file n d)" "dk_verdicts (drop_file n d) = []"
    by (simp_all add: unlink_missing_ok_def attempt_def drop_file_def)
  then show ?case
    using Cons.IH by (simp add: bind_eq)
qed (simp add: return_def)

text \<open>On a disk that works, deleting answers; only a part file left behind by an earlier attempt at the
  tombstone stands in the way, once, as it is then removed.\<close>

lemma delete_asset_quiet:
  assumes "dk_verdicts d = []" "is_utc now" "file_at d (tombstone_part aid) = None \<or> is_closed aid d"
  shows "\<exists>existed d'. delete_asset aid reason now d = (Inr existed, d')"
proof -
  have "\<exists>d1. (if is_closed aid d then return () else bind make_directory (\<lambda>_.
      write_tombstone aid (json_bytes (tombstone_json now reason (active_files aid d \<noteq> [])) @ [10]))) d
      = (Inr (), d1) \<and> dk_verdicts d1 = []"
    using assms(1,3)
    by (auto simp: return_def bind_eq make_directory_def attempt_def write_tombstone_def catch_eq write_exclusive_def
        replace_file_def file_exists_def quiet_files)
  then obtain d1 where closing: "(if is_closed aid d then return () else bind make_directory (\<lambda>_.
      write_tombstone aid (json_bytes (tombstone_json now reason (active_files aid d \<noteq> [])) @ [10]))) d
      = (Inr (), d1)" "dk_verdicts d1 = []"
    by blast
  obtain d2 where "for_each unlink_missing_ok (active_files aid d) d1 = (Inr (), d2)"
    using unlink_all_quiet[OF closing(2)] by blast
  then show ?thesis
    using assms(2) closing(1) by (simp add: delete_asset_def require_utc_time_def Let_def bind_eq catch_eq)
qed

lemma delete_asset_leftover:
  assumes "dk_verdicts d = []" "is_utc now" "file_at d (tombstone_part aid) \<noteq> None" "\<not> is_closed aid d"
  shows "\<exists>d'. delete_asset aid reason now d = (Inl AssetStorageError, d') \<and> dk_verdicts d' = []
    \<and> file_at d' (tombstone_part aid) = None"
proof -
  have "write_tombstone aid payload d = (Inl AssetStorageError, drop_file (tombstone_part aid) d)" for payload
    using assms(1,3)
    by (simp add: write_tombstone_def catch_eq bind_eq write_exclusive_def file_exists_def unlink_missing_ok_def
        attempt_def is_OSError_def)
  moreover have "make_directory d = (Inr (), d)"
    using assms(1) by (simp add: make_directory_def attempt_def)
  ultimately have "delete_asset aid reason now d = (Inl AssetStorageError, drop_file (tombstone_part aid) d)"
    using assms(2,4) by (simp add: delete_asset_def require_utc_time_def Let_def bind_eq)
  then show ?thesis
    using assms(1) by (simp add: quiet_files)
qed

text \<open>
  C16. An upload can be withdrawn with the token of its answer: for 24 hours it opens the deletion of
  this asset and of no other, and later nothing. A deletion that answers has removed every file of the
  asset, and loading it raises \<open>AssetLifecycleClosedError\<close>. On a disk that has stopped failing the
  deletion does answer, unless an earlier attempt has left the part file of its tombstone behind and no
  tombstone: then this attempt is answered 500 and removes the part file, so that the next one answers.
\<close>

theorem upload_can_be_withdrawn:
  assumes "upload_asset sv clock aid q a = (Inr u, a1)" "sv_assets sv = temporary_assets py" "pydantic_laws py"
    "named_service (sv_tokens sv)" "sensible_clock clock" "file_at (ap_assets a) (meta_path aid) = None"
    "folds_ascii (sv_casefold sv)" "is_utc (clock' 1)"
    "delete_asset_request sv clock' bid (bearer (up_delete_capability_token u)) a2 = (r, a3)"
  shows "(if is_aware (clock' 0) \<and> int_timestamp (clock' 0) < int_timestamp (dt_add (clock 2) (hours 24))
      then if bid = aid
        then (r = Inr () \<longrightarrow> (\<forall>n \<in> asset_names aid. file_at (ap_assets a3) n = None)
            \<and> (\<forall>now. is_utc now \<longrightarrow> load_asset py aid now (ap_assets a3) = (Inl AssetLifecycleClosedError, ap_assets a3)))
          \<and> (dk_verdicts (ap_assets a2) = [] \<longrightarrow>
              (if file_at (ap_assets a2) (tombstone_part aid) = None \<or> is_closed aid (ap_assets a2) then r = Inr ()
               else r = Inl (http 500 ''asset_deletion_failed'') \<and> dk_verdicts (ap_assets a3) = []
                 \<and> file_at (ap_assets a3) (tombstone_part aid) = None))
        else (r, a3) = (Inl (http 403 ''capability_subject_mismatch''), a2)
      else (r, a3) = (Inl (http 401 ''invalid_capability''), a2))"
proof -
  obtain content l b where stored: "store_upload sv clock aid q content (a\<lparr>ap_limiter := l\<rparr>) = (Inr u, b)"
    using assms(1)
    by (auto simp: upload_asset_def bind_Inr_iff catch_Inr_iff liftR_Inr on_limiter_def split: if_splits prod.splits sum.splits)
  obtain token where token: "issue (sv_tokens sv) (uuid_str aid) [DELETE_ASSET] (hours 24) (clock 2) = Inr token"
    "up_delete_capability_token u = token"
    using store_upload_outcome[OF stored assms(2-5)] assms(6) by auto
  have plain: "list_all plain_char (ts_audience (sv_tokens sv))"
    using assms(4) by (simp add: named_service_def)
  note opens = authorize_issued[OF token(1) plain assms(7), of DELETE_ASSET bid "clock' 0"]
  obtain q1 d1 where deleted: "delete_asset bid (lit ''deleted'') (clock' 1) (ap_assets a2) = (q1, d1)"
    by (cases "delete_asset bid (lit ''deleted'') (clock' 1) (ap_assets a2)")
  have acted: "r = (case q1 of Inl e \<Rightarrow> Inl (if e = AssetStorageError then http 500 ''asset_deletion_failed'' else e)
      | Inr existed \<Rightarrow> Inr ()) \<and> a3 = a2\<lparr>ap_assets := d1\<rparr>"
    if "is_aware (clock' 0) \<and> int_timestamp (clock' 0) < int_timestamp (dt_add (clock 2) (hours 24))" "bid = aid"
    using assms(9) that opens deleted token(2)
    by (auto simp: delete_asset_request_def bind_def liftR_def catch_def on_assets_def assms(2) temporary_assets_def
        return_def raise_def split: sum.splits)
  show ?thesis
  proof (cases "is_aware (clock' 0) \<and> int_timestamp (clock' 0) < int_timestamp (dt_add (clock 2) (hours 24)) \<and> bid = aid")
    case True
    have "\<exists>existed. q1 = Inr existed" if "r = Inr ()"
      using acted that True by (cases q1) auto
    moreover have "load_asset py aid now d1 = (Inl AssetLifecycleClosedError, d1)" if "q1 = Inr existed" "is_utc now" for existed now
      using delete_asset_effect(5)[OF deleted that(1)] load_asset_closed that(2) True by simp
    moreover have "\<forall>n \<in> asset_names aid. file_at d1 n = None" if "q1 = Inr existed" for existed
      using delete_asset_effect(5)[OF deleted that] True by simp
    moreover have "r = Inr ()" if "dk_verdicts (ap_assets a2) = []"
      "file_at (ap_assets a2) (tombstone_part aid) = None \<or> is_closed aid (ap_assets a2)"
      using delete_asset_quiet[OF that(1) assms(8) that(2), of "lit ''deleted''"] deleted acted True by auto
    moreover have "r = Inl (http 500 ''asset_deletion_failed'') \<and> dk_verdicts d1 = []
        \<and> file_at d1 (tombstone_part aid) = None"
      if "dk_verdicts (ap_assets a2) = []"
        "\<not> (file_at (ap_assets a2) (tombstone_part aid) = None \<or> is_closed aid (ap_assets a2))"
      using delete_asset_leftover[OF that(1) assms(8), of aid "lit ''deleted''"] that(2) deleted acted True by auto
    ultimately show ?thesis
      using acted True by auto
  next
    case False
    then show ?thesis
      using assms(9) opens token(2) by (auto simp: delete_asset_request_def bind_def liftR_def split: if_splits)
  qed
qed

subsection \<open>Analysis\<close>

lemma find_run_Inr: "find_run f a = (Inr x, a') \<longleftrightarrow> f (ap_db a) = Inr x \<and> a' = a"
  by (auto simp: find_run_def catch_def on_runs_def reads_def or_not_found_def raise_def split: sum.splits)

lemma refuse_never_answers: "refuse_asset other clock rid e a \<noteq> (Inr x, a')"
  "refuse_analysis other clock rid e a \<noteq> (Inr x, a')"
  by (auto simp: refuse_asset_def refuse_analysis_def bind_Inr_iff raise_def split: exn.splits if_splits)

lemma claim_and_load_Inr:
  assumes "claim_and_load sv other clock rid a = (Inr (request, loaded), a1)"
  shows "get_request rid (other 0 (ap_db a)) = Inr request \<and> ld_asset loaded = rc_source_asset request
    \<and> (\<exists>s. so_load (sv_assets sv) (as_asset_id (rc_source_asset request)) (clock 2) (ap_assets a) = (Inr loaded, s))"
  using assms
  by (auto simp: claim_and_load_def bind_Inr_iff meanwhile_def on_runs_Inr on_assets_Inr return_def raise_def
      split: if_splits sum.splits)

lemma pipeline_source:
  assumes "run_pipeline provider q now s = (Inr out, s')"
  shows "an_source_asset (ao_analysis out) = vq_source_asset q"
  using run_pipeline_InrE[OF assms] make_ad_analysis_fields by fastforce

lemma complete_analysis_Inr:
  assumes "complete_analysis rid x repair now d = (Inr run, d')"
  shows "pr_id run = rid \<and> get_analysis rid d' = Inr (Some x) \<and> (\<exists>request. get_request rid d' = Inr request
    \<and> an_source_asset x = rc_source_asset request \<and> an_brand_lock x = rc_brand_lock request)"
proof -
  have "pr_id run = rid"
    using assms
    by (auto simp: complete_analysis_def method_simps with_status_Inr_iff split: sum.splits prod.splits if_splits
        dest!: get_run_status)
  then show ?thesis
    using complete_analysis_effect[OF assms] by (auto simp: get_analysis_def get_request_def get_context_def)
qed

text \<open>What a new analysis is made of.\<close>

definition analysed_from :: "'p provider \<Rightarrow> vision_request \<Rightarrow> datetime \<Rightarrow> ad_analysis \<Rightarrow> bool" where
  "analysed_from provider q now x \<longleftrightarrow>
     (\<exists>s s' outcome. run_pipeline provider q now s = (Inr outcome, s') \<and> ao_analysis outcome = x)"

lemma analyze_claimed_Inr:
  assumes "analyze_claimed sv other clock rid request loaded a = (Inr c, a1)"
  shows "analysed_from (sv_provider sv) (vision_request_of request (ld_content loaded)) (clock 3) (ac_analysis c)
    \<and> ac_run_id c = rid
    \<and> get_analysis rid (ap_db a1) = Inr (Some (ac_analysis c))
    \<and> (\<exists>stored. get_request rid (ap_db a1) = Inr stored \<and> an_source_asset (ac_analysis c) = rc_source_asset stored
        \<and> an_brand_lock (ac_analysis c) = rc_brand_lock stored)"
proof -
  from assms obtain outcome p' run d d' where steps: "run_pipeline (sv_provider sv)
      (vision_request_of request (ld_content loaded)) (clock 3) (ap_provider a) = (Inr outcome, p')"
    "complete_analysis rid (ao_analysis outcome) (ao_repair_attempted outcome) (clock 4) d = (Inr run, d')"
    "ap_db a1 = d'" "make_analysis_completed \<lparr>ac_run_id = pr_id run, ac_status = RUN_AWAITING_BRAND_LOCK,
       ac_analysis = ao_analysis outcome, ac_repair_attempted = ao_repair_attempted outcome,
       ac_completed_at = pr_updated_at run\<rparr> = Inr c"
    unfolding analyze_claimed_def bind_Inr_iff catch_Inr_iff on_runs_Inr liftR_Inr meanwhile_def on_provider_def
    by (auto simp: refuse_never_answers raise_def split: prod.splits)
  have "analysed_from (sv_provider sv) (vision_request_of request (ld_content loaded)) (clock 3) (ao_analysis outcome)"
    using steps(1) by (auto simp: analysed_from_def)
  then show ?thesis
    using steps(3,4) complete_analysis_Inr[OF steps(2)] by (auto simp: make_analysis_completed_def split: if_splits)
qed

text \<open>
  C11. The analysis in an answer is the stored one: it is in the database when the answer is given and is
  about the asset and the Brand Lock of the stored request, whatever the other requests do in between.
  For a run that was pending it has just been made by the provider from bytes whose SHA-256 is the
  digest of that asset; for a run that was already analysed the answer repeats what is stored.
\<close>

theorem analysis_answer_is_stored:
  assumes "analyze_run sv other clock rid auth a = (Inr c, a1)" "sv_assets sv = temporary_assets py"
    "reachable \<lparr>sys_db = ap_db a, sys_analyzing = A\<rparr>" "\<forall>i. law_abiding (other i)"
  shows "ac_run_id c = rid \<and> get_analysis rid (ap_db a1) = Inr (Some (ac_analysis c))
    \<and> (\<exists>stored. get_request rid (ap_db a1) = Inr stored \<and> an_source_asset (ac_analysis c) = rc_source_asset stored
        \<and> an_brand_lock (ac_analysis c) = rc_brand_lock stored)
    \<and> (\<forall>run. get_run rid (ap_db a) = Inr run \<and> pr_status run = PENDING \<longrightarrow> (\<exists>request content.
        sha256_hex content = as_sha256 (an_source_asset (ac_analysis c))
        \<and> analysed_from (sv_provider sv) (vision_request_of request content) (clock 3) (ac_analysis c)))"
proof -
  from assms(1) obtain run where run: "get_run rid (ap_db a) = Inr run"
    and rest: "(if pr_status run = AWAITING_BRAND_LOCK then repeat_analysis other rid run
     else if pr_status run \<noteq> PENDING then raise invalid_run_state
     else bind (catch (claim_and_load sv other clock rid) (refuse_asset other clock rid)) (\<lambda>(request, loaded).
       analyze_claimed sv other clock rid request loaded)) a = (Inr c, a1)"
    by (auto simp: analyze_run_def bind_Inr_iff liftR_Inr find_run_Inr split: sum.splits)
  show ?thesis
  proof (cases "pr_status run = AWAITING_BRAND_LOCK")
    case True
    define d1 where "d1 = other 0 (ap_db a)"
    from True rest obtain analysis where found: "get_analysis rid d1 = Inr (Some analysis)" "ac_analysis c = analysis"
      "ap_db a1 = other 1 d1" "ac_run_id c = rid"
      using get_run_id[OF run]
      by (auto simp: repeat_analysis_def bind_Inr_iff catch_Inr_iff on_runs_Inr meanwhile_def reads_def return_def
          raise_def liftR_Inr make_analysis_completed_def d1_def split: option.splits sum.splits if_splits)
    obtain A1 where A1: "reachable \<lparr>sys_db = d1, sys_analyzing = A1\<rparr>"
      using law_abidingD[OF assms(4)[rule_format, of 0] assms(3)] later_reachable assms(3) unfolding d1_def by blast
    obtain A2 where A2: "later \<lparr>sys_db = d1, sys_analyzing = A1\<rparr> \<lparr>sys_db = ap_db a1, sys_analyzing = A2\<rparr>"
      using law_abidingD[OF assms(4)[rule_format, of 1] A1] found(3) by auto
    obtain x where x: "db_contexts d1 rid = Some x" "cx_analysis x = Some analysis"
      using found(1) by (auto simp: get_analysis_def get_context_def split: option.splits)
    obtain y where y: "db_contexts (ap_db a1) rid = Some y" "cx_analysis y = Some analysis"
      using later_extends[OF A2 A1, of rid] x by (auto simp: view_extends_def view_run_def context_extends_def)
    have "linked rid y"
      using reachable_linked[OF later_reachable[OF A2 A1]] y(1) by (simp add: contexts_linkedD)
    then show ?thesis
      using found y run True
      by (auto simp: get_analysis_def get_request_def get_context_def linked_def)
  next
    case False
    then obtain request loaded b where claimed: "claim_and_load sv other clock rid a = (Inr (request, loaded), b)"
      "analyze_claimed sv other clock rid request loaded b = (Inr c, a1)"
      using rest by (auto simp: bind_Inr_iff catch_Inr_iff refuse_never_answers raise_def split: if_splits)
    obtain s where "load_asset py (as_asset_id (rc_source_asset request)) (clock 2) (ap_assets a) = (Inr loaded, s)"
      "ld_asset loaded = rc_source_asset request"
      using claim_and_load_Inr[OF claimed(1)] assms(2) by (auto simp: temporary_assets_def)
    then have "sha256_hex (ld_content loaded) = as_sha256 (rc_source_asset request)"
      by (auto dest!: load_asset_Inr simp: asset_at_def split: option.splits sum.splits if_splits)
    moreover have "an_source_asset (ac_analysis c) = rc_source_asset request"
      using analyze_claimed_Inr[OF claimed(2)] pipeline_source by (fastforce simp: analysed_from_def vision_request_of_def)
    ultimately show ?thesis
      using analyze_claimed_Inr[OF claimed(2)] by auto
  qed
qed

subsection \<open>The Critic\<close>


end
