(* ===== verification/Api_Demo.thy ===== *)
theory Api_Demo
  imports Api_Properties
begin

section \<open>Requests to a small server\<close>

text \<open>
  A server with the small studio of \<open>Services_Demo\<close>, the temporary store, the fixture provider and the
  fixture copywriter, and a few requests to it: the inputs of the witnesses of \<open>Api_Properties\<close>.
\<close>

definition demo_server :: "(nat \<times> nat, int, disk, disk, unit) server" where
  "demo_server = \<lparr>sv_tokens = demo_service, sv_decode = (\<lambda>_. Inl ValueError), sv_casefold = map ascii_lower,
     sv_assets = temporary_assets plain_pydantic, sv_artifacts = disk_operations 10000,
     sv_provider = fixture_analyze, sv_writer = fixture_copywriter, sv_studio = tiny_studio,
     sv_reader = demo_reader, sv_time_text = isoformat\<rparr>"

definition demo_api :: "db \<Rightarrow> (disk, disk, unit) api" where
  "demo_api d = \<lparr>ap_db = d, ap_artifacts = empty_disk, ap_assets = clean_disk, ap_provider = (),
     ap_limiter = \<lparr>rl_limit = 10, rl_window = seconds 60, rl_entries = Map.empty\<rparr>\<rparr>"

abbreviation alone :: "nat \<Rightarrow> db \<Rightarrow> db" where
  "alone \<equiv> \<lambda>i d. d"

lemma folds_ascii_lower: "folds_ascii (map ascii_lower)"
  by (simp add: folds_ascii_def)

lemma demo_named: "named_service demo_service"
  using demo_token(2) by (simp add: named_service_def) (simp add: demo_service_def)

lemma demo_sensible: "sensible_clock (\<lambda>_. utc 0)"
  using utc_in_range[of 0] utc_in_range[of "hours 24"] by (simp add: sensible_clock_def hours_def seconds_def)

lemma demo_server_parts [simp]:
  "sv_tokens demo_server = demo_service" "sv_casefold demo_server = map ascii_lower"
  "sv_assets demo_server = temporary_assets plain_pydantic" "sv_artifacts demo_server = disk_operations 10000"
  "sv_studio demo_server = tiny_studio" "sv_provider demo_server = fixture_analyze"
  by (simp_all add: demo_server_def)

lemma demo_api_parts [simp]: "ap_db (demo_api d) = d" "ap_assets (demo_api d) = clean_disk"
  "(demo_api d)\<lparr>ap_db := d'\<rparr> = demo_api d'"
  by (simp_all add: demo_api_def)

lemma demo_creates:
  obtains c where "create_run_request demo_server (\<lambda>_. utc 0) 1 demo_request (demo_api empty_db)
      = (Inr c, demo_api (demo_db PENDING 0 (demo_context 0) None []))"
proof -
  obtain run where created: "new_project_run 1 (utc 0) CHINA_TO_UK = Inr run"
    "create_run run (Some demo_request) empty_db = (Inr run, demo_db PENDING 0 (demo_context 0) None [])"
    using demo_created by blast
  have run: "pr_id run = 1" "pr_status run = PENDING" "pr_created_at run = utc 0"
    using created(1) by (auto simp: new_project_run_def validate_project_run_Inr_iff)
  let ?caps = "[READ_PROJECT_RUN, ANALYZE_PROJECT_RUN, UPDATE_PROJECT_RUN]"
  obtain token where token: "issue demo_service (uuid_str 1) ?caps (seconds (15 * 60)) (utc 0) = Inr token"
    using issue_total[OF demo_named, of ?caps "seconds (15 * 60)" "utc 0" 1] by (auto simp: seconds_def)
  have "16 \<le> length token \<and> length token \<le> 4096"
    using token_length[OF token demo_named] utc_in_range by (simp add: hours_def seconds_def)
  then have "make_run_created \<lparr>rd_run_id = 1, rd_status = RUN_PENDING, rd_capability_token = token, rd_created_at = utc 0\<rparr>
      = Inr \<lparr>rd_run_id = 1, rd_status = RUN_PENDING, rd_capability_token = token, rd_created_at = utc 0\<rparr>"
    using issued_token(2)[OF token] by (simp add: make_run_created_def is_token_text_def)
  then have "create_run_request demo_server (\<lambda>_. utc 0) 1 demo_request (demo_api empty_db)
      = (Inr \<lparr>rd_run_id = 1, rd_status = RUN_PENDING, rd_capability_token = token, rd_created_at = utc 0\<rparr>,
         demo_api (demo_db PENDING 0 (demo_context 0) None []))"
    using created run token
    by (simp add: create_run_request_def demo_server_def demo_api_def demo_request_def bind_def liftR_def catch_def
        on_runs_def return_def)
  then show thesis
    by (rule that)
qed

text \<open>Creating a run and reading it without a token.\<close>

theorem api_refines_lifecycle_witness:
  "\<exists>a A. served demo_server 10000 a \<and> reachable \<lparr>sys_db = ap_db a, sys_analyzing = A\<rparr>
    \<and> db_runs (ap_db a) 1 \<noteq> None \<and> (\<forall>rid. \<exists>!p. in_phase p (view_run rid (ap_db a)))"
proof -
  obtain c where created: "create_run_request demo_server (\<lambda>_. utc 0) 1 demo_request (demo_api empty_db)
      = (Inr c, demo_api (demo_db PENDING 0 (demo_context 0) None []))"
    using demo_creates by blast
  let ?a = "demo_api (demo_db PENDING 0 (demo_context 0) None [])"
  have "ordinary 10000 alone (\<lambda>_. utc 0) (Create_Run 1 demo_request) (demo_api empty_db)"
    using utc_in_range[of "hours 24"] by (simp add: ordinary_def hours_def seconds_def)
  from served.request[OF served.start this, of demo_server] have "served demo_server 10000 ?a"
    using created by (simp add: demo_api_def answered_def bind_def return_def)
  from api_refines_lifecycle[OF _ _ this] this show ?thesis
    using working_tiny_studio by (intro exI[of _ ?a]) (auto simp: demo_server_def demo_api_def demo_db_def)
qed

theorem requests_need_authentic_tokens_witness:
  "\<exists>status code. handle demo_server alone (\<lambda>_. utc 0) (Get_Run 1 (lit ''Bearer x'')) (demo_api empty_db)
     = (Inl (http status code), demo_api empty_db) \<and> status \<in> {401, 403}"
proof -
  obtain r a' where run: "handle demo_server alone (\<lambda>_. utc 0) (Get_Run 1 (lit ''Bearer x'')) (demo_api empty_db) = (r, a')"
    by (metis surj_pair)
  have "bearer_token (sv_casefold demo_server) (lit ''Bearer x'') = Inr (lit ''x'')"
    using bearer_token_bearer[OF folds_ascii_lower, of "lit ''x''"] by (simp add: demo_server_def bearer_def lit_def)
  then have "bearer_token (sv_casefold demo_server) (lit ''Bearer x'') \<noteq> Inr (encoded @ [46] @ sig)" for encoded sig
    by (cases encoded) (simp_all add: lit_def)
  with requests_need_authentic_tokens[OF _ run] run show ?thesis
    by auto
qed

theorem created_run_is_usable_witness:
  "\<exists>c :: run_created. authorize demo_server UPDATE_PROJECT_RUN 1 (bearer (rd_capability_token c)) (utc (seconds 899)) = Inr ()
    \<and> authorize demo_server UPDATE_PROJECT_RUN 2 (bearer (rd_capability_token c)) (utc (seconds 899))
        = Inl (http 403 ''capability_subject_mismatch'')
    \<and> authorize demo_server UPDATE_PROJECT_RUN 1 (bearer (rd_capability_token c)) (utc (seconds 900))
        = Inl (http 401 ''invalid_capability'')"
proof -
  obtain c where created: "create_run_request demo_server (\<lambda>_. utc 0) 1 demo_request (demo_api empty_db)
      = (Inr c, demo_api (demo_db PENDING 0 (demo_context 0) None []))"
    using demo_creates by blast
  have "list_all plain_char (ts_audience (sv_tokens demo_server))" "folds_ascii (sv_casefold demo_server)"
    using demo_token(2) folds_ascii_lower by simp_all
  from created_run_is_usable[OF created this]
  have "authorize demo_server UPDATE_PROJECT_RUN subject (bearer (rd_capability_token c)) now =
      (if is_aware now \<and> int_timestamp now < int_timestamp (dt_add (utc 0) (seconds (15 * 60)))
       then if subject = 1 then Inr () else Inl (http 403 ''capability_subject_mismatch'')
       else Inl (http 401 ''invalid_capability''))" for subject now
    by simp
  then show ?thesis
    by (intro exI[of _ c]) (simp add: int_timestamp_def seconds_def)
qed

subsection \<open>An upload\<close>

definition demo_upload :: upload_request where
  "demo_upload = \<lparr>uq_client_host = None, uq_chunks = [PNG_SIGNATURE, [0]], uq_content_type = image_png,
     uq_provenance_ref = demo_reference, uq_rights_ref = demo_reference\<rparr>"

lemma demo_uploads:
  obtains u a1 where "upload_asset demo_server (\<lambda>_. utc 0) 7 demo_upload (demo_api d) = (Inr u, a1)"
    "dk_verdicts (ap_assets a1) = []" "ap_db a1 = d" "file_at (ap_assets a1) (tombstone_part 7) = None"
    "\<not> is_closed 7 (ap_assets a1)"
    "asset_at plain_pydantic (ap_assets a1) 7 = Some (\<lparr>ld_asset = up_asset u, ld_content = demo_image\<rparr>, utc 0)"
    "as_asset_id (up_asset u) = 7" "as_expires_at (up_asset u) = Some (utc (hours 24))"
    "as_media_type (up_asset u) = image_png" "as_sha256 (up_asset u) = sha256_hex demo_image"
proof -
  let ?limiter = "snd (allow (lit ''unknown-client'') (utc 0) (ap_limiter (demo_api d)))"
  let ?a = "(demo_api d)\<lparr>ap_limiter := ?limiter\<rparr>"
  obtain s d1 where stored: "store_asset plain_pydantic 7 demo_image image_png demo_reference demo_reference (utc 0) clean_disk
      = (Inr s, d1)" "dk_verdicts d1 = []"
    using demo_stored by blast
  have range: "in_range (utc 0)" "in_range (dt_add (utc 0) ASSET_TTL)"
    using utc_in_range[of 0] utc_in_range[of "hours 24"] by (simp_all add: ASSET_TTL_def hours_def seconds_def)
  note kept = store_asset_Inr(2,3)[OF stored(1) plain_pydantic_laws range]
  obtain x where "prepare_asset 7 demo_image image_png demo_reference demo_reference (utc 0) = Inr (s, x)"
    using store_asset_Inr(1)[OF stored(1) plain_pydantic_laws range] by blast
  from prepare_asset_Inr(7-9)[OF this] have fields: "as_expires_at (sd_asset s) = Some (utc (hours 24))"
    "as_media_type (sd_asset s) = image_png" "as_sha256 (sd_asset s) = sha256_hex demo_image"
    by (simp_all add: ASSET_TTL_def)
  have "tombstone_part 7 \<notin> asset_names 7" "file_at clean_disk (tombstone_part 7) = None"
    using tombstone_not_asset by (auto simp: clean_disk_def file_at_def)
  then have tomb: "file_at d1 (tombstone_part 7) = None"
    using touchesD[OF touches_store_asset stored(1)] by simp
  obtain u where u: "store_upload demo_server (\<lambda>_. utc 0) 7 demo_upload demo_image ?a = (Inr u, ?a\<lparr>ap_assets := d1\<rparr>)"
    "up_asset u = sd_asset s" "as_asset_id (up_asset u) = 7"
    using store_upload_stored[of plain_pydantic 7 demo_image demo_upload "\<lambda>_. utc 0" ?a s d1 demo_server]
      stored(1) plain_pydantic_laws demo_named demo_sensible by (auto simp: demo_upload_def)
  note kept = kept[folded u(2)] and fields = fields[folded u(2)]
  have "on_limiter (allow (lit ''unknown-client'') (utc 0)) (demo_api d) = (Inr True, ?a)"
    by (simp add: on_limiter_def demo_api_def allow_def current_window_def lit_def)
  moreover have "receive [] (uq_chunks demo_upload) = Inr demo_image"
    by (simp add: demo_upload_def demo_image_def PNG_SIGNATURE_def MAX_ASSET_BYTES_def)
  ultimately have "upload_asset demo_server (\<lambda>_. utc 0) 7 demo_upload (demo_api d) = (Inr u, ?a\<lparr>ap_assets := d1\<rparr>)"
    using u(1) by (simp add: upload_asset_def bind_eq catch_eq demo_upload_def liftR_def)
  then show thesis
    using stored(2) tomb conjunct2[OF kept(1)] kept(2) fields u(2,3)
    by (intro that[of u "?a\<lparr>ap_assets := d1\<rparr>"])
      (simp_all only: api.simps api.update_convs demo_api_def not_False_eq_True)
qed

theorem upload_is_all_or_nothing_witness:
  "\<exists>u a1. upload_asset demo_server (\<lambda>_. utc 0) 7 demo_upload (demo_api empty_db) = (Inr u, a1)
    \<and> up_size_bytes u = 9
    \<and> asset_at plain_pydantic (ap_assets a1) 7 = Some (\<lparr>ld_asset = up_asset u, ld_content = demo_image\<rparr>, utc 0)"
proof -
  obtain u a1 where uploaded: "upload_asset demo_server (\<lambda>_. utc 0) 7 demo_upload (demo_api empty_db) = (Inr u, a1)"
    using demo_uploads by blast
  have "file_at clean_disk (meta_path 7) = None" "uq_client_host demo_upload \<noteq> Some []"
    by (simp_all add: clean_disk_def file_at_def demo_upload_def)
  from upload_is_all_or_nothing[OF uploaded _ plain_pydantic_laws _ demo_sensible this(2)] this(1) show ?thesis
    using uploaded demo_named
    by (intro exI[of _ u] exI[of _ a1]) (simp add: demo_upload_def demo_image_def PNG_SIGNATURE_def)
qed

theorem upload_can_be_withdrawn_witness:
  "\<exists>u a1 a3. upload_asset demo_server (\<lambda>_. utc 0) 7 demo_upload (demo_api empty_db) = (Inr u, a1)
    \<and> delete_asset_request demo_server (\<lambda>_. utc 5) 7 (bearer (up_delete_capability_token u)) a1 = (Inr (), a3)
    \<and> load_asset plain_pydantic 7 (utc 9) (ap_assets a3) = (Inl AssetLifecycleClosedError, ap_assets a3)"
proof -
  obtain u a1 where uploaded: "upload_asset demo_server (\<lambda>_. utc 0) 7 demo_upload (demo_api empty_db) = (Inr u, a1)"
    "dk_verdicts (ap_assets a1) = []" "file_at (ap_assets a1) (tombstone_part 7) = None"
    using demo_uploads by blast
  obtain r a3 where deleted: "delete_asset_request demo_server (\<lambda>_. utc 5) 7 (bearer (up_delete_capability_token u)) a1 = (r, a3)"
    by (metis surj_pair)
  have "file_at clean_disk (meta_path 7) = None"
    by (simp add: clean_disk_def file_at_def)
  moreover have "named_service (sv_tokens demo_server)" "folds_ascii (sv_casefold demo_server)"
    using demo_named folds_ascii_lower by simp_all
  ultimately have "r = Inr () \<and> load_asset plain_pydantic 7 (utc 9) (ap_assets a3) = (Inl AssetLifecycleClosedError, ap_assets a3)"
    using upload_can_be_withdrawn[OF uploaded(1) demo_server_parts(3) plain_pydantic_laws _ demo_sensible _ _ _ deleted]
      uploaded(2,3) by (simp add: int_timestamp_def hours_def seconds_def)
  then show ?thesis
    using uploaded(1) deleted by blast
qed

subsection \<open>An analysis and a critique\<close>

lemma demo_authorized:
  assumes "required \<in> set caps" "caps \<noteq> []"
  obtains auth where "authorize demo_server required rid auth (utc 0) = Inr ()"
proof -
  obtain token where token: "issue demo_service (uuid_str rid) caps (seconds 900) (utc 0) = Inr token"
    using issue_total[OF demo_named assms(2), of "seconds 900" "utc 0" rid] by (auto simp: seconds_def)
  show thesis
    using authorize_issued[of demo_server rid caps "seconds 900" "utc 0" token required rid "utc 0"] token assms(1)
      demo_token(2) folds_ascii_lower
    by (intro that[of "bearer token"]) (simp add: int_timestamp_def seconds_def)
qed


theorem analysis_answer_is_stored_witness:
  "\<exists>a a1 auth c. analyze_run demo_server alone (\<lambda>_. utc 0) 1 auth a = (Inr c, a1)
    \<and> get_analysis 1 (ap_db a1) = Inr (Some (ac_analysis c))
    \<and> sha256_hex demo_image = as_sha256 (an_source_asset (ac_analysis c))"
proof -
  obtain u a0 where uploaded: "upload_asset demo_server (\<lambda>_. utc 0) 7 demo_upload (demo_api empty_db) = (Inr u, a0)"
    "dk_verdicts (ap_assets a0) = []" "ap_db a0 = empty_db" "\<not> is_closed 7 (ap_assets a0)"
    "asset_at plain_pydantic (ap_assets a0) 7 = Some (\<lparr>ld_asset = up_asset u, ld_content = demo_image\<rparr>, utc 0)"
    "as_asset_id (up_asset u) = 7" and expiry: "as_expires_at (up_asset u) = Some (utc (hours 24))"
    "as_media_type (up_asset u) = image_png" "as_sha256 (up_asset u) = sha256_hex demo_image"
    using demo_uploads by metis
  define q where "q = demo_request\<lparr>rc_source_asset := up_asset u\<rparr>"
  have q: "rc_source_asset q = up_asset u" "rc_brand_lock q = orbit_lock" "rc_direction q = CHINA_TO_UK"
    by (simp_all add: q_def demo_request_def)
  define d where "d = demo_db PENDING 0 (new_context q) None []"
  define d1 where "d1 = demo_db IN_PROGRESS 0 (new_context q) None []"
  have "create_run \<lparr>pr_id = 1, pr_direction = CHINA_TO_UK, pr_status = PENDING, pr_warning_codes = [],
      pr_initial_generation_count = 0, pr_human_revision_count = 0, pr_technical_attempt_count = 0,
      pr_created_at = utc 0, pr_updated_at = utc 0\<rparr> (Some q) empty_db = (Inr \<lparr>pr_id = 1,
      pr_direction = CHINA_TO_UK, pr_status = PENDING, pr_warning_codes = [],
      pr_initial_generation_count = 0, pr_human_revision_count = 0, pr_technical_attempt_count = 0,
      pr_created_at = utc 0, pr_updated_at = utc 0\<rparr>, d)"
    using q(3) by (simp add: create_run_def catch_def method_simps insert_run_def insert_context_def empty_db_def d_def demo_db_def)
  then have "step init_sys 1 \<lparr>sys_db = d, sys_analyzing = {}\<rparr>"
    using step.Create[OF new_project_run_Inr[of "utc 0" 1 CHINA_TO_UK, folded q(3)]] q(3) by (simp add: init_sys_def)
  then have reach: "reachable \<lparr>sys_db = d, sys_analyzing = {}\<rparr>"
    using reachable.intros by blast
  have run: "get_run 1 (demo_db st 0 (new_context q) None []) = Inr \<lparr>pr_id = 1, pr_direction = CHINA_TO_UK,
      pr_status = st, pr_warning_codes = [], pr_initial_generation_count = 0, pr_human_revision_count = 0,
      pr_technical_attempt_count = 0, pr_created_at = utc 0, pr_updated_at = utc 0\<rparr>" for st
    by (simp add: get_run_def select_run_def demo_db_def new_context_def validate_project_run_Inr_iff valid_run_def)
  have "update_runs 1 (\<lambda>r. rr_status r = PENDING) (set_status IN_PROGRESS (utc 0)) d = (Inr 1, d1)"
    by (simp add: update_runs_def demo_db_def set_status_def d_def d1_def)
  then have claimed: "\<exists>r. claim_analysis 1 (utc 0) d = (Inr (Some r), d1)"
    using run[of IN_PROGRESS] by (simp add: claim_analysis_def bind_def connect_def d1_def)
  have loaded: "load_asset plain_pydantic 7 (utc 0) (ap_assets a0) =
      (Inr \<lparr>ld_asset = up_asset u, ld_content = demo_image\<rparr>, ap_assets a0)"
    using load_asset_quiet[OF uploaded(2,4,5), of "utc 0"] expiry(1) by (simp add: has_expired_def hours_def seconds_def)
  let ?v = "vision_request_of q demo_image"
  have "gate_request ?v (utc 0) = Inr ()"
    using expiry(1,2) q by (simp add: gate_request_def vision_request_of_def q_def demo_request_def detect_media_type_def
      demo_image_def PNG_SIGNATURE_def startswith_def supported_media_types_def supported_categories_def
      hours_def seconds_def)
  then have analysed: "run_pipeline fixture_analyze ?v (utc 0) (ap_provider a0)
      = (Inr \<lparr>ao_analysis = fixture_analysis ?v, ao_repair_attempted = False\<rparr>, ap_provider a0)"
    by (simp add: fixture_analysis_outcome)
  have "an_source_asset (fixture_analysis ?v) = up_asset u" "an_brand_lock (fixture_analysis ?v) = orbit_lock"
    by (simp_all add: fixture_analysis_def vision_request_of_def q)
  then obtain r d2 where completed: "complete_analysis 1 (fixture_analysis ?v) False (utc 0) d1 = (Inr r, d2)" "pr_updated_at r = utc 0"
    using run[of IN_PROGRESS] q
    by (simp add: complete_analysis_def get_request_def get_context_def with_status_def revalidate_cases
      valid_run_def method_simps d1_def demo_db_def new_context_def set_status_def)
  obtain auth where "authorize demo_server ANALYZE_PROJECT_RUN 1 auth (utc 0) = Inr ()"
    by (rule demo_authorized[of ANALYZE_PROJECT_RUN "[ANALYZE_PROJECT_RUN]" 1]) simp_all
  then obtain c a1 where answered: "analyze_run demo_server alone (\<lambda>_. utc 0) 1 auth (a0\<lparr>ap_db := d\<rparr>) = (Inr c, a1)"
    "ac_analysis c = fixture_analysis ?v"
    using run[of PENDING, folded d_def] claimed loaded analysed completed q(1) uploaded(6)
    by (auto simp: analyze_run_def find_run_def claim_and_load_def analyze_claimed_def bind_def liftR_def catch_def on_runs_def
      reads_def meanwhile_def return_def on_assets_def on_provider_def temporary_assets_def make_analysis_completed_def
      get_request_def get_context_def d_def demo_db_def new_context_def)
  have stored: "get_analysis 1 (ap_db a1) = Inr (Some (ac_analysis c))"
    using analysis_answer_is_stored[OF answered(1), of plain_pydantic "{}"] reach by simp
  show ?thesis
    using answered stored expiry(3) by (intro exI[of _ "a0\<lparr>ap_db := d\<rparr>"] exI[of _ a1] exI[of _ auth] exI[of _ c])
      (simp add: fixture_analysis_def vision_request_of_def q)
qed

end
