(* ===== verification/Connections.thy ===== *)
theory Connections
  imports Api_Lifecycle
begin

section \<open>Methods that use several connections\<close>

text \<open>
  \<open>complete_analysis\<close> and \<open>record_failure\<close> of \<open>src/cultureshift/repository.py\<close> read the run in one
  connection and write it in the next, so that other requests can get in between. \<open>Repository\<close> takes
  each as one step. Here they are with the other requests where they can come, and for a claimed run
  the result is that of the one step at one of the moments: nobody else touches the rows of a run
  while its analysis is claimed.
\<close>

subsection \<open>A claimed run is left alone\<close>

lemma step_other_rows:
  assumes "step s r s'" "x \<noteq> r"
  shows "db_runs (sys_db s') x = db_runs (sys_db s) x \<and> db_contexts (sys_db s') x = db_contexts (sys_db s) x"
  using assms(1)
proof cases
  case (Create now req run d res d' A)
  then have "pr_id run = r"
    by (auto simp: new_project_run_def validate_project_run_Inr_iff)
  with create_run_effect[OF Create(4)] Create(1,2) assms(2) show ?thesis by auto
next
  case (Claim_Analysis now d res d' A' A)
  from claim_analysis_effect[OF Claim_Analysis(3)] Claim_Analysis(1,2) assms(2) show ?thesis by auto
next
  case (Complete_Analysis A a repair now d res d')
  from complete_analysis_effect[OF Complete_Analysis(4)] Complete_Analysis(1,2) assms(2) show ?thesis
    by (auto simp del: if_split)
next
  case (Record_Failure A st code now d res d')
  from record_failure_effect[OF Record_Failure(4)] Record_Failure(1,2) assms(2) show ?thesis by auto
next
  case (Abandon_Analysis A d)
  then show ?thesis by simp
next
  case (Confirm lock at now d res d' A)
  from confirm_brand_lock_effect[OF Confirm(3)] Confirm(1,2) assms(2) show ?thesis by auto
next
  case (Save_Draft brief copy facts rules at now d res d' A)
  from save_draft_effect[OF Save_Draft(3)] Save_Draft(1,2) assms(2) show ?thesis by auto
next
  case (Save_Composition composition d res d' A)
  from save_composition_effect[OF Save_Composition(3)] Save_Composition(1,2) assms(2) show ?thesis by auto
next
  case (Save_Critique report d res d' A)
  from save_critique_effect[OF Save_Critique(3)] Save_Critique(1,2) assms(2) show ?thesis by auto
next
  case (Claim_Feedback key fp changes digest t d res d' A)
  from claim_feedback_effect[OF Claim_Feedback(3)] Claim_Feedback(1,2) assms(2) show ?thesis by auto
next
  case (Fail_Revision oid kind d t res d' A)
  from fail_revision_effect[OF Fail_Revision(4)] Fail_Revision(1,2) assms(2) show ?thesis
    by (auto split: option.split)
next
  case (Claim_Retry key fp t d res d' A)
  from claim_retry_effect[OF Claim_Retry(3)] Claim_Retry(1,2) assms(2) show ?thesis
    by (auto split: option.split)
next
  case (Complete_Revision oid revision response d res d' A)
  from complete_revision_effect[OF Complete_Revision(3)] Complete_Revision(1,2) assms(2) show ?thesis
    by (auto split: option.split)
qed

text \<open>What an analysing run's rows are like.\<close>

lemma analyzing_rows:
  assumes "in_phase Analyzing (view_run rid d)"
  shows "db_runs d rid = Some r \<Longrightarrow> rr_status r = IN_PROGRESS" "db_runs d rid \<noteq> None"
    "db_contexts d rid = Some c \<Longrightarrow> cx_confirmed_brand_lock c = None"
    "w \<in> set (db_operations d) \<Longrightarrow> ow_run_id w \<noteq> rid"
proof -
  have status: "map_option rr_status (db_runs d rid) = Some IN_PROGRESS"
    using in_phase_status[OF assms] by (simp add: view_simps)
  then show "db_runs d rid = Some r \<Longrightarrow> rr_status r = IN_PROGRESS" "db_runs d rid \<noteq> None"
    by auto
  show "cx_confirmed_brand_lock c = None" if "db_contexts d rid = Some c"
    using in_phase_stage[OF assms that] by (simp add: context_stage_def)
  show "w \<in> set (db_operations d) \<Longrightarrow> ow_run_id w \<noteq> rid"
    using in_phase_operations[OF assms] set_operations_of[of w rid d] by auto
qed

lemma step_claimed_rows:
  assumes "step s rid s'" "lifecycle_inv s" "rid \<in> sys_analyzing s" "rid \<in> sys_analyzing s'"
  shows "db_runs (sys_db s') rid = db_runs (sys_db s) rid \<and> db_contexts (sys_db s') rid = db_contexts (sys_db s) rid"
proof -
  have phase: "in_phase Analyzing (view_run rid (sys_db s))"
    using assms(2,3) by (simp add: lifecycle_inv_def)
  note rows = analyzing_rows[OF phase]
  from assms(1) show ?thesis
  proof cases
    case (Create now req run d res d' A)
    then have "pr_id run = rid"
      by (auto simp: new_project_run_def validate_project_run_Inr_iff)
    with create_run_effect[OF Create(4)] Create(1,2) rows(2) show ?thesis by auto
  next
    case (Claim_Analysis now d res d' A' A)
    from claim_analysis_effect[OF Claim_Analysis(3)] Claim_Analysis(1,2) rows(1) show ?thesis by auto
  next
    case (Confirm lock at now d res d' A)
    from confirm_brand_lock_effect[OF Confirm(3)] Confirm(1,2) rows(1) show ?thesis by auto
  next
    case (Save_Draft brief copy facts rules at now d res d' A)
    from save_draft_effect[OF Save_Draft(3)] Save_Draft(1,2) rows(3) show ?thesis by auto
  next
    case (Save_Composition composition d res d' A)
    from save_composition_effect[OF Save_Composition(3)] Save_Composition(1,2) rows(3) show ?thesis by auto
  next
    case (Save_Critique report d res d' A)
    from save_critique_effect[OF Save_Critique(3)] Save_Critique(1,2) rows(3) show ?thesis by auto
  next
    case (Claim_Feedback key fp changes digest t d res d' A)
    from claim_feedback_effect[OF Claim_Feedback(3)] Claim_Feedback(1,2) rows(1) show ?thesis by auto
  next
    case (Fail_Revision oid kind d t res d' A)
    with rows(4) show ?thesis
      by (auto simp: in_progress_operation_def)
  next
    case (Claim_Retry key fp t d res d' A)
    from claim_retry_effect[OF Claim_Retry(3)] Claim_Retry(1,2) rows(1) show ?thesis by auto
  next
    case (Complete_Revision oid revision response d res d' A)
    from complete_revision_effect[OF Complete_Revision(3)] Complete_Revision(1,2) rows(4) show ?thesis
      by (auto dest!: select_operation_Some)
  qed (use assms(4) in auto)
qed

text \<open>A claim that has ended is not made again.\<close>

lemma claim_ends_once:
  assumes "step s r s'" "lifecycle_inv s" "rid \<notin> sys_analyzing s" "2 \<le> phase_rank (run_phase rid s)"
  shows "rid \<notin> sys_analyzing s' \<and> 2 \<le> phase_rank (run_phase rid s')"
proof
  have "run_phase r s \<noteq> Pending" if "r = rid"
    using assms(4) that by auto
  then show "rid \<notin> sys_analyzing s'"
    using step_advances[OF assms(1,2) inv_run_phase[OF assms(2)]] assms(3) by auto
  show "2 \<le> phase_rank (run_phase rid s')"
    using lifecycle.rank_step[OF assms(2,1), of rid] assms(4) by linarith
qed

lemma later_claimed_rows:
  assumes "later s s'" "reachable s" "rid \<in> sys_analyzing s" "rid \<in> sys_analyzing s'"
  shows "db_runs (sys_db s') rid = db_runs (sys_db s) rid \<and> db_contexts (sys_db s') rid = db_contexts (sys_db s) rid"
proof -
  have "any_step\<^sup>*\<^sup>* s s'"
    using assms(1) by (simp add: later_def)
  then have "lifecycle_inv s' \<and> (if rid \<in> sys_analyzing s'
      then db_runs (sys_db s') rid = db_runs (sys_db s) rid \<and> db_contexts (sys_db s') rid = db_contexts (sys_db s) rid
      else 2 \<le> phase_rank (run_phase rid s'))"
  proof (induction rule: rtranclp_induct)
    case base
    show ?case
      using assms(2,3) reachable_inv by simp
  next
    case (step t u)
    then obtain r where r: "step t r u" and inv: "lifecycle_inv t"
      by (auto simp: any_step_def)
    have "lifecycle_inv u"
      by (rule lifecycle_inv_step[OF inv r])
    moreover have "db_runs (sys_db u) rid = db_runs (sys_db s) rid \<and> db_contexts (sys_db u) rid = db_contexts (sys_db s) rid"
      if "rid \<in> sys_analyzing u"
    proof -
      have "rid \<in> sys_analyzing t"
        using claim_ends_once[OF r inv] step.IH that by (auto split: if_splits)
      then show ?thesis
        using step.IH step_other_rows[OF r, of rid] step_claimed_rows[of t rid u] r inv that
        by (cases "r = rid") auto
    qed
    moreover have "2 \<le> phase_rank (run_phase rid u)" if "rid \<notin> sys_analyzing u"
    proof -
      have "2 \<le> phase_rank (run_phase rid t)"
      proof (cases "rid \<in> sys_analyzing t")
        case True
        then have "run_phase rid t = Analyzing"
          using inv phase_of_in_phase by (auto simp: lifecycle_inv_def run_phase_def)
        then show ?thesis by simp
      qed (use step.IH in auto)
      then show ?thesis
        using lifecycle.rank_step[OF inv r, of rid] by linarith
    qed
    ultimately show ?case
      by simp
  qed
  then show ?thesis
    using assms(4) by simp
qed

lemma spared_rows:
  assumes "spares_claim rid other" "reachable \<lparr>sys_db = d, sys_analyzing = A\<rparr>" "rid \<in> A"
  obtains A' where "reachable \<lparr>sys_db = other d, sys_analyzing = A'\<rparr>" "rid \<in> A'"
    "db_runs (other d) rid = db_runs d rid" "db_contexts (other d) rid = db_contexts d rid"
proof -
  obtain A' where A': "later \<lparr>sys_db = d, sys_analyzing = A\<rparr> \<lparr>sys_db = other d, sys_analyzing = A'\<rparr>" "rid \<in> A'"
    using assms unfolding spares_claim_def by blast
  with later_claimed_rows[OF A'(1) assms(2), of rid] assms(3) later_reachable[OF A'(1) assms(2)] that
  show thesis by simp
qed

subsection \<open>The methods connection by connection\<close>

definition others :: "(db \<Rightarrow> db) \<Rightarrow> (exn, db, unit) prog" where
  "others other d = (Inr (), other d)"

lemma others_eq [simp]: "others other d = (Inr (), other d)"
  by (simp add: others_def)

definition complete_analysis_connections ::
  "(nat \<Rightarrow> db \<Rightarrow> db) \<Rightarrow> uuid \<Rightarrow> ad_analysis \<Rightarrow> bool \<Rightarrow> datetime \<Rightarrow> (exn, db, project_run) prog" where
  "complete_analysis_connections other rid analysis repair_attempted now =
     bind (reads (get_run rid)) (\<lambda>current.
     bind (others (other 0)) (\<lambda>_.
     bind (reads (get_request rid)) (\<lambda>request.
     if an_source_asset analysis \<noteq> rc_source_asset request
       \<or> an_brand_lock analysis \<noteq> rc_brand_lock request
     then raise ValueError
     else bind (liftR (with_status current AWAITING_BRAND_LOCK None now)) (\<lambda>updated.
     bind (others (other 1)) (\<lambda>_.
     bind (connect
       (bind (update_contexts rid (\<lambda>_. True)
          (\<lambda>c. c\<lparr>cx_analysis := Some analysis,
                cx_repair_attempted := (if repair_attempted then 1 else 0)\<rparr>)) (\<lambda>n.
        if n \<noteq> 1 then raise ProjectRunNotFoundError
        else bind (update_runs rid (\<lambda>r. rr_status r = IN_PROGRESS)
          (set_status (pr_status updated) (pr_updated_at updated))) (\<lambda>m.
        if m \<noteq> 1 then raise ProjectRunNotFoundError else return ()))))
     (\<lambda>_. return updated))))))"

definition record_failure_connections ::
  "(nat \<Rightarrow> db \<Rightarrow> db) \<Rightarrow> uuid \<Rightarrow> project_run_status \<Rightarrow> pystr \<Rightarrow> datetime \<Rightarrow> (exn, db, project_run) prog" where
  "record_failure_connections other rid status code now =
     (if status \<notin> {BLOCKED, FAILED} then raise ValueError
      else bind (reads (get_run rid)) (\<lambda>current.
      bind (liftR (with_status current status None now)) (\<lambda>transitioned.
      bind (liftR (revalidate
        (transitioned\<lparr>pr_warning_codes := pr_warning_codes current @ [code]\<rparr>))) (\<lambda>updated.
      bind (others (other 0)) (\<lambda>_.
      bind (connect (update_runs rid (\<lambda>_. True)
         (\<lambda>r. r\<lparr>rr_status := pr_status updated, rr_warning_codes := pr_warning_codes updated,
               rr_updated_at := pr_updated_at updated\<rparr>))) (\<lambda>rowcount.
      if rowcount \<noteq> 1 then raise ProjectRunNotFoundError else return updated))))))"

lemma get_run_rows:
  "db_runs d' rid = db_runs d rid \<Longrightarrow> db_contexts d' rid = db_contexts d rid \<Longrightarrow> get_run rid d' = get_run rid d"
  by (simp add: get_run_def select_run_def)

lemma get_request_rows: "db_contexts d' rid = db_contexts d rid \<Longrightarrow> get_request rid d' = get_request rid d"
  by (simp add: get_request_def get_context_def)

text \<open>
  With a claim on the run, what the other requests do between the connections makes no difference: the
  methods do what the single step does, at the beginning, or after the requests in between.
\<close>

theorem connections_make_no_difference:
  assumes "reachable \<lparr>sys_db = d, sys_analyzing = A\<rparr>" "rid \<in> A" "\<forall>i. spares_claim rid (other i)"
  shows "\<exists>d0 \<in> {d, other 0 d, other 1 (other 0 d)}.
      complete_analysis_connections other rid a repair now d = complete_analysis rid a repair now d0"
    and "\<exists>d0 \<in> {d, other 0 d}. record_failure_connections other rid st code now d = record_failure rid st code now d0"
proof -
  obtain A1 where A1: "reachable \<lparr>sys_db = other 0 d, sys_analyzing = A1\<rparr>" "rid \<in> A1"
    "db_runs (other 0 d) rid = db_runs d rid" "db_contexts (other 0 d) rid = db_contexts d rid"
    using spared_rows[OF assms(3)[rule_format] assms(1,2)] .
  obtain A2 where A2: "db_runs (other 1 (other 0 d)) rid = db_runs d rid"
    "db_contexts (other 1 (other 0 d)) rid = db_contexts d rid"
    using spared_rows[OF assms(3)[rule_format] A1(1,2)] A1(3,4) by metis
  note runs = get_run_rows[OF A1(3,4)] get_run_rows[OF A2]
  note requests = get_request_rows[OF A1(4)] get_request_rows[OF A2(2)]
  show "\<exists>d0 \<in> {d, other 0 d}. record_failure_connections other rid st code now d = record_failure rid st code now d0"
  proof (cases "st \<in> {BLOCKED, FAILED} \<and> (\<exists>u. bindR (get_run rid d) (\<lambda>current. bindR (with_status current st None now)
      (\<lambda>x. revalidate (x\<lparr>pr_warning_codes := pr_warning_codes current @ [code]\<rparr>))) = Inr u)")
    case True
    then have "record_failure_connections other rid st code now d = record_failure rid st code now (other 0 d)"
      using runs(1) by (auto simp: record_failure_connections_def record_failure_def bind_def reads_def liftR_def)
    then show ?thesis by blast
  next
    case False
    then have "record_failure_connections other rid st code now d = record_failure rid st code now d"
      by (cases "get_run rid d") (auto simp: record_failure_connections_def record_failure_def bind_def reads_def liftR_def
          bindR_def split: sum.splits)
    then show ?thesis by blast
  qed
  show "\<exists>d0 \<in> {d, other 0 d, other 1 (other 0 d)}.
      complete_analysis_connections other rid a repair now d = complete_analysis rid a repair now d0"
  proof (cases "get_run rid d")
    case (Inl e)
    then have "complete_analysis_connections other rid a repair now d = complete_analysis rid a repair now d"
      by (simp add: complete_analysis_connections_def complete_analysis_def bind_def reads_def)
    then show ?thesis by blast
  next
    case (Inr current)
    show ?thesis
    proof (cases "\<exists>request u. get_request rid d = Inr request \<and> an_source_asset a = rc_source_asset request
        \<and> an_brand_lock a = rc_brand_lock request \<and> with_status current AWAITING_BRAND_LOCK None now = Inr u")
      case True
      then have "complete_analysis_connections other rid a repair now d
          = complete_analysis rid a repair now (other 1 (other 0 d))"
        using Inr runs requests
        by (auto simp: complete_analysis_connections_def complete_analysis_def bind_def reads_def liftR_def)
      then show ?thesis by blast
    next
      case False
      then have "complete_analysis_connections other rid a repair now d = complete_analysis rid a repair now (other 0 d)"
        using Inr runs requests
        by (cases "get_request rid d"; cases "with_status current AWAITING_BRAND_LOCK None now")
          (auto simp: complete_analysis_connections_def complete_analysis_def bind_def reads_def liftR_def)
      then show ?thesis by blast
    qed
  qed
qed

end
