(* ===== verification/Cloud_Objects.thy ===== *)
theory Cloud_Objects
  imports Disk Text_Codecs
begin

section \<open>The client of the private object storage\<close>

text \<open>
  The model of \<open>SupabaseObjectStore\<close> (\<open>src/cultureshift/cloud_storage.py\<close>). The service behind
  \<open>urlopen\<close> is not code of the repository: it is the parameter \<open>rm_urlopen\<close>, a function of the request
  and of the state of the service, whose outcome is a body, an HTTP error or an exception. What
  the client relies on of it is \<open>bucket_service\<close>; the theorem \<open>supabase_refines_bucket\<close> says that the
  client then implements an abstract map from keys to bytes, and the locale \<open>object_store\<close> collects what holds
  of the client for any service.
\<close>

subsection \<open>Percent encoding\<close>

text \<open>\<open>urllib.parse.quote(text, safe)\<close>: the bytes of the UTF-8 text, each as it is when it is a letter, a
  digit or one of \<open>_.-~\<close> or safe, otherwise as \<open>%XX\<close>.\<close>

definition is_unreserved :: "nat \<Rightarrow> bool" where
  "is_unreserved c \<longleftrightarrow> is_lower c \<or> is_upper c \<or> is_digit c \<or> c = 95 \<or> c = 46 \<or> c = 45 \<or> c = 126"

definition upper_hex :: "nat \<Rightarrow> nat" where
  "upper_hex d = (if d < 10 then 48 + d else 55 + d)"

definition quote_byte :: "pystr \<Rightarrow> nat \<Rightarrow> pystr" where
  "quote_byte safe b = (if is_unreserved b \<or> b \<in> set safe then [b]
     else [37, upper_hex (b div 16), upper_hex (b mod 16)])"

definition quote :: "pystr \<Rightarrow> pystr \<Rightarrow> pystr result" where
  "quote safe s = bindR (encode_utf8 s) (\<lambda>bs. Inr (concat (map (quote_byte safe) (map unat bs))))"

subsection \<open>Requests\<close>

record http_request =
  rq_method :: string
  rq_url :: pystr
  rq_headers :: "(pystr \<times> pystr) list"
  rq_body :: "bytes option"

text \<open>What \<open>urlopen\<close> and the reading of the response come to: the whole body of a successful response, an
  \<open>HTTPError\<close> with its code and the outcome of reading its body, or another exception.\<close>

datatype (plugins only: code size) http_outcome =
    Answered bytes
  | Refused nat "bytes result"
  | Raised exn

record 's remote =
  rm_urlopen :: "http_request \<Rightarrow> 's \<Rightarrow> http_outcome \<times> 's"
  rm_decode :: "bytes \<Rightarrow> pystr result"
  rm_casefold :: "pystr \<Rightarrow> pystr"

record object_config =
  oc_base_url :: pystr
  oc_service_key :: pystr
  oc_bucket :: pystr

text \<open>\<open>SupabaseObjectStore.__init__\<close>\<close>

definition make_object_config :: "pystr \<Rightarrow> pystr \<Rightarrow> pystr \<Rightarrow> object_config result" where
  "make_object_config base_url service_key bucket =
     (if \<not> startswith base_url (lit ''https://'') \<or> strip_by is_space service_key = []
        \<or> strip_by is_space bucket = []
      then Inl ValueError
      else Inr \<lparr>oc_base_url = rev (dropWhile ((=) 47) (rev base_url)), oc_service_key = service_key,
        oc_bucket = bucket\<rparr>)"

text \<open>\<open>json.loads(error.read(64 * 1024))\<close>, or the empty document.\<close>

definition error_detail :: "'s remote \<Rightarrow> bytes result \<Rightarrow> json result" where
  "error_detail net body =
     (case bindR body (\<lambda>content. loads_bytes (rm_decode net) (take (64 * 1024) content)) of
        Inr detail \<Rightarrow> Inr detail
      | Inl e \<Rightarrow> if is_OSError e \<or> is_ValueError e \<or> e = TypeError then Inr (JObj []) else Inl e)"

text \<open>\<open>str(detail.get(key, ""))\<close>; a document that is not an object has no \<open>get\<close>. The text of a list or an object
  starts with a bracket and the text of a float has a point, an exponent or is a name, so that it is
  neither of the two words it is compared with: \<open>None\<close>.\<close>

definition reported :: "string \<Rightarrow> json \<Rightarrow> pystr option result" where
  "reported key detail = (case detail of
     JObj ms \<Rightarrow> Inr (case map_of ms (lit key) of
       None \<Rightarrow> Some []
     | Some (JStr s) \<Rightarrow> Some s
     | Some (JInt i) \<Rightarrow> Some (int_text i)
     | Some (JBool b) \<Rightarrow> Some (if b then lit ''True'' else lit ''False'')
     | Some JNull \<Rightarrow> Some (lit ''None'')
     | Some _ \<Rightarrow> None)
   | _ \<Rightarrow> Inl OtherException)"

definition reports_missing :: "'s remote \<Rightarrow> nat \<Rightarrow> bytes result \<Rightarrow> bool result" where
  "reports_missing net code body =
     bindR (error_detail net body) (\<lambda>detail.
     bindR (reported ''statusCode'' detail) (\<lambda>reported_status.
     bindR (reported ''error'' detail) (\<lambda>reported_error.
     Inr (code = 404 \<or> reported_status = Some (lit ''404'')
       \<or> map_option (rm_casefold net) reported_error = Some (lit ''not_found'')))))"

definition make_request ::
  "object_config \<Rightarrow> string \<Rightarrow> pystr \<Rightarrow> bytes option \<Rightarrow> (pystr \<times> pystr) list \<Rightarrow> http_request" where
  "make_request oc method path body headers = \<lparr>rq_method = method,
     rq_url = oc_base_url oc @ lit ''/storage/v1'' @ path,
     rq_headers = foldl (\<lambda>hs (k, v). AList.update k v hs)
       [(lit ''apikey'', oc_service_key oc), (lit ''Authorization'', lit ''Bearer '' @ oc_service_key oc)] headers,
     rq_body = body\<rparr>"

text \<open>The branches of \<open>_request\<close> after the call.\<close>

definition request_result :: "'s remote \<Rightarrow> bool \<Rightarrow> nat \<Rightarrow> http_outcome \<Rightarrow> bytes result" where
  "request_result net not_found max_bytes outcome = (case outcome of
     Answered body \<Rightarrow>
       let content = take (max_bytes + 1) body in
       if max_bytes < length content then Inl ObjectStorageError else Inr content
   | Refused code body \<Rightarrow>
       if not_found
       then bindR (reports_missing net code body) (\<lambda>missing.
         Inl (if missing then ObjectNotFoundError else ObjectStorageError))
       else Inl ObjectStorageError
   | Raised e \<Rightarrow> Inl (if is_OSError e then ObjectStorageError else e))"

definition object_request ::
  "'s remote \<Rightarrow> object_config \<Rightarrow> string \<Rightarrow> pystr \<Rightarrow> bytes option \<Rightarrow> (pystr \<times> pystr) list \<Rightarrow> bool \<Rightarrow> nat
    \<Rightarrow> (exn, 's, bytes) prog" where
  "object_request net oc method path body headers not_found max_bytes s =
     (case rm_urlopen net (make_request oc method path body headers) s of
        (outcome, s') \<Rightarrow> (request_result net not_found max_bytes outcome, s'))"

subsection \<open>Operations\<close>

definition object_path :: "object_config \<Rightarrow> pystr \<Rightarrow> pystr result" where
  "object_path oc key =
     bindR (quote [] (oc_bucket oc)) (\<lambda>bucket.
     bindR (quote [47] key) (\<lambda>name.
     Inr (lit ''/object/'' @ bucket @ 47 # name)))"

definition json_headers :: "(pystr \<times> pystr) list" where
  "json_headers = [(lit ''Content-Type'', lit ''application/json'')]"

definition put_object ::
  "'s remote \<Rightarrow> object_config \<Rightarrow> pystr \<Rightarrow> bytes \<Rightarrow> pystr \<Rightarrow> bool \<Rightarrow> (exn, 's, unit) prog" where
  "put_object net oc key content content_type create_only =
     bind (liftR (object_path oc key)) (\<lambda>path.
     bind (object_request net oc ''POST'' path (Some content)
       [(lit ''Content-Type'', content_type), (lit ''x-upsert'', lit (if create_only then ''false'' else ''true''))]
       False (64 * 1024)) (\<lambda>_. return ()))"

definition get_object :: "'s remote \<Rightarrow> object_config \<Rightarrow> pystr \<Rightarrow> nat \<Rightarrow> (exn, 's, bytes) prog" where
  "get_object net oc key max_bytes =
     bind (liftR (object_path oc key)) (\<lambda>path.
     object_request net oc ''GET'' path None [] True max_bytes)"

definition delete_objects :: "'s remote \<Rightarrow> object_config \<Rightarrow> pystr list \<Rightarrow> (exn, 's, nat) prog" where
  "delete_objects net oc keys =
     (if keys = [] then return 0 else
       bind (liftR (quote [] (oc_bucket oc))) (\<lambda>bucket.
       bind (object_request net oc ''DELETE'' (lit ''/object/'' @ bucket)
         (Some (json_bytes (JObj [(lit ''prefixes'', JArr (map JStr keys))]))) json_headers
         False (256 * 1024)) (\<lambda>_. return (length keys))))"

text \<open>The generator over the rows: a row without \<open>get\<close> raises \<open>AttributeError\<close>, a name that is not a string is
  skipped; iterating over an object or a text gives strings.\<close>

definition row_name :: "json \<Rightarrow> pystr list result" where
  "row_name row = (case row of
     JObj ms \<Rightarrow> Inr (case map_of ms (lit ''name'') of Some (JStr s) \<Rightarrow> [s] | _ \<Rightarrow> [])
   | _ \<Rightarrow> Inl OtherException)"

definition row_names :: "json \<Rightarrow> pystr list result" where
  "row_names rows = (case rows of
     JArr js \<Rightarrow> bindR (mapR row_name js) (\<lambda>names. Inr (concat names))
   | JObj ms \<Rightarrow> if ms = [] then Inr [] else Inl OtherException
   | JStr s \<Rightarrow> if s = [] then Inr [] else Inl OtherException
   | _ \<Rightarrow> Inl TypeError)"

definition list_objects :: "'s remote \<Rightarrow> object_config \<Rightarrow> pystr \<Rightarrow> (exn, 's, pystr list) prog" where
  "list_objects net oc prefix =
     bind (liftR (quote [] (oc_bucket oc))) (\<lambda>bucket.
     bind (object_request net oc ''POST'' (lit ''/object/list/'' @ bucket)
       (Some (json_bytes (JObj [(lit ''prefix'', JStr prefix), (lit ''limit'', JInt 1000)]))) json_headers
       False (256 * 1024)) (\<lambda>payload.
     catch (liftR (bindR (bindR (loads_bytes (rm_decode net) payload) row_names) (\<lambda>names.
         Inr (map (\<lambda>name. prefix @ name) names))))
       (\<lambda>e. raise (if e = TypeError \<or> is_ValueError e \<or> e = KeyError then ObjectStorageError else e))))"

text \<open>The protocol class \<open>ObjectStore\<close>, as far as the stores use it.\<close>

record 's object_operations =
  ob_put :: "pystr \<Rightarrow> bytes \<Rightarrow> pystr \<Rightarrow> bool \<Rightarrow> (exn, 's, unit) prog"
  ob_get :: "pystr \<Rightarrow> nat \<Rightarrow> (exn, 's, bytes) prog"
  ob_delete :: "pystr list \<Rightarrow> (exn, 's, nat) prog"
  ob_list :: "pystr \<Rightarrow> (exn, 's, pystr list) prog"

definition supabase :: "'s remote \<Rightarrow> object_config \<Rightarrow> 's object_operations" where
  "supabase net oc = \<lparr>ob_put = put_object net oc, ob_get = get_object net oc,
     ob_delete = delete_objects net oc, ob_list = list_objects net oc\<rparr>"

subsection \<open>Percent encoding is injective\<close>

lemma upper_hex_inj: "a < 16 \<Longrightarrow> b < 16 \<Longrightarrow> upper_hex a = upper_hex b \<Longrightarrow> a = b"
  by (auto simp: upper_hex_def split: if_splits)

lemma quote_byte_shape:
  assumes "37 \<notin> set safe"
  shows "quote_byte safe b \<noteq> []" "hd (quote_byte safe b) = 37 \<longleftrightarrow> \<not> (is_unreserved b \<or> b \<in> set safe)"
  using assms by (auto simp: quote_byte_def is_unreserved_def is_lower_def is_upper_def is_digit_def)

lemma hex_pair_inj:
  assumes "a < 256" "b < 256" "upper_hex (a div 16) = upper_hex (b div 16)" "upper_hex (a mod 16) = upper_hex (b mod 16)"
  shows "a = b"
proof -
  have "a div 16 = b div 16" "a mod 16 = b mod 16"
    using assms by (auto intro!: upper_hex_inj simp: less_mult_imp_div_less)
  then show ?thesis
    by (metis div_mult_mod_eq)
qed

lemma quote_byte_prefix:
  assumes safe: "37 \<notin> set safe" and small: "a < 256" "b < 256"
    and same: "quote_byte safe a @ u = quote_byte safe b @ v"
  shows "a = b \<and> u = v"
proof (cases "is_unreserved a \<or> a \<in> set safe")
  case True
  then have a: "quote_byte safe a = [a]" "a \<noteq> 37"
    using quote_byte_shape(2)[OF safe, of a] by (auto simp: quote_byte_def)
  have "is_unreserved b \<or> b \<in> set safe"
  proof (rule ccontr)
    assume "\<not> ?thesis"
    then have "quote_byte safe b = [37, upper_hex (b div 16), upper_hex (b mod 16)]"
      by (simp only: quote_byte_def if_False)
    with same a show False
      by simp
  qed
  then have "quote_byte safe b = [b]"
    by (simp only: quote_byte_def if_True)
  with same a show ?thesis
    by (simp only: append.simps list.inject)
next
  case False
  then have a: "quote_byte safe a = [37, upper_hex (a div 16), upper_hex (a mod 16)]"
    by (simp only: quote_byte_def if_False)
  have "hd (quote_byte safe b) = 37"
    using arg_cong[OF same, of hd] quote_byte_shape(1)[OF safe, of b] by (simp add: a)
  then have "\<not> (is_unreserved b \<or> b \<in> set safe)"
    using quote_byte_shape(2)[OF safe, of b] by blast
  then have "quote_byte safe b = [37, upper_hex (b div 16), upper_hex (b mod 16)]"
    by (simp only: quote_byte_def if_False)
  with same a have "upper_hex (a div 16) = upper_hex (b div 16)" "upper_hex (a mod 16) = upper_hex (b mod 16)" "u = v"
    by (simp_all only: append.simps list.inject)
  then show ?thesis
    using hex_pair_inj[OF small] by blast
qed

lemma quote_bytes_inj:
  assumes "37 \<notin> set safe" "\<forall>x \<in> set xs. x < 256" "\<forall>y \<in> set ys. y < 256"
    "concat (map (quote_byte safe) xs) = concat (map (quote_byte safe) ys)"
  shows "xs = ys"
  using assms(2-)
proof (induction xs arbitrary: ys)
  case Nil
  then show ?case
    using quote_byte_shape(1)[OF assms(1)] by (cases ys) auto
next
  case (Cons x xs)
  have "ys \<noteq> []"
    using Cons.prems(3) quote_byte_shape(1)[OF assms(1), of x] by (metis append_is_Nil_conv concat.simps list.map)
  then obtain y ys' where ys: "ys = y # ys'"
    by (cases ys) simp_all
  have "x = y \<and> concat (map (quote_byte safe) xs) = concat (map (quote_byte safe) ys')"
  proof (rule quote_byte_prefix[OF assms(1)])
    show "quote_byte safe x @ concat (map (quote_byte safe) xs) = quote_byte safe y @ concat (map (quote_byte safe) ys')"
      using Cons.prems(3) unfolding ys by (simp only: list.map concat.simps)
  qed (use Cons.prems(1,2) ys in simp_all)
  moreover have "xs = ys'" if "concat (map (quote_byte safe) xs) = concat (map (quote_byte safe) ys')"
    using Cons.IH[OF _ _ that] Cons.prems(1,2) ys by simp
  ultimately show ?case
    using ys by blast
qed

lemma quote_inj:
  assumes "37 \<notin> set safe" "list_all plain_char s" "list_all plain_char t" "quote safe s = quote safe t"
  shows "s = t"
proof -
  let ?bytes = "\<lambda>s. concat (map utf8_char s)"
  have "map unat (?bytes s) = map unat (?bytes t)"
  proof (rule quote_bytes_inj[OF assms(1)])
    have small: "unat (b :: 8 word) < 256" for b
      using unsigned_less[of b] by simp
    then show "\<forall>x \<in> set (map unat (?bytes s)). x < 256" "\<forall>x \<in> set (map unat (?bytes t)). x < 256"
      by simp_all
    show "concat (map (quote_byte safe) (map unat (?bytes s))) = concat (map (quote_byte safe) (map unat (?bytes t)))"
      using assms(4) unfolding quote_def decode_encode_utf8(1)[OF assms(2)] decode_encode_utf8(1)[OF assms(3)]
      by (simp only: bindR_simps sum.inject)
  qed
  moreover have "inj (unat :: 8 word \<Rightarrow> nat)"
    by (simp add: inj_on_def unsigned_word_eqI)
  ultimately have "?bytes s = ?bytes t"
    by (simp only: inj_map_eq_map)
  then show ?thesis
    using decode_encode_utf8(2)[OF assms(2)] decode_encode_utf8(2)[OF assms(3)] by (metis sum.inject(2))
qed

lemma quote_Inr: "list_all plain_char s \<Longrightarrow> \<exists>q. quote safe s = Inr q"
  by (simp add: quote_def decode_encode_utf8)

subsection \<open>The service\<close>

definition storage_url :: "object_config \<Rightarrow> pystr \<Rightarrow> pystr" where
  "storage_url oc path = oc_base_url oc @ lit ''/storage/v1'' @ path"

definition prefixes_json :: "pystr list \<Rightarrow> json" where
  "prefixes_json keys = JObj [(lit ''prefixes'', JArr (map JStr keys))]"

text \<open>What the service documents of an upload, a download and a removal. A request that does not answer may
  still have been carried out; without \<open>x-upsert\<close> an object is not replaced. In a \<open>quiet\<close> state nothing
  disturbs the downloads.\<close>

locale storage_service =
  fixes net :: "'s remote" and oc :: object_config and objects :: "'s \<Rightarrow> pystr \<Rightarrow> bytes option"
    and quiet :: "'s \<Rightarrow> bool"
  assumes decoding: "rm_decode net bs = Inl e \<Longrightarrow> is_ValueError e"
    and foreign: "rm_urlopen net rq s = (out, s') \<Longrightarrow> out = Raised e \<or> out = Refused code (Inl e)
      \<Longrightarrow> \<not> is_ObjectStorageError e"
    and upload: "rm_urlopen net rq s = (out, s') \<Longrightarrow> rq_method rq = ''POST'' \<Longrightarrow> list_all plain_char key
      \<Longrightarrow> object_path oc key = Inr path \<Longrightarrow> rq_url rq = storage_url oc path \<Longrightarrow> rq_body rq = Some content
      \<Longrightarrow> map_of (rq_headers rq) (lit ''x-upsert'') = Some upsert
      \<Longrightarrow> objects s' = objects s \<and> (\<forall>body. out \<noteq> Answered body)
        \<or> objects s' = (objects s)(key \<mapsto> content) \<and> (upsert = lit ''false'' \<longrightarrow> objects s key = None)"
    and download: "rm_urlopen net rq s = (out, s') \<Longrightarrow> rq_method rq = ''GET'' \<Longrightarrow> list_all plain_char key
      \<Longrightarrow> object_path oc key = Inr path \<Longrightarrow> rq_url rq = storage_url oc path
      \<Longrightarrow> objects s' = objects s \<and> (\<forall>body. out = Answered body \<longrightarrow> objects s key = Some body)
        \<and> (\<forall>code body. out = Refused code body \<longrightarrow> reports_missing net code body = Inr True
            \<longrightarrow> objects s key = None)"
    and undisturbed: "rm_urlopen net rq s = (out, s') \<Longrightarrow> rq_method rq = ''GET'' \<Longrightarrow> list_all plain_char key
      \<Longrightarrow> object_path oc key = Inr path \<Longrightarrow> rq_url rq = storage_url oc path \<Longrightarrow> quiet s
      \<Longrightarrow> quiet s' \<and> (case objects s key of Some body \<Rightarrow> out = Answered body
        | None \<Rightarrow> \<exists>code body. out = Refused code body \<and> reports_missing net code body = Inr True)"
    and bucket_name: "list_all plain_char (oc_bucket oc)"
    and removal: "rm_urlopen net rq s = (out, s') \<Longrightarrow> rq_method rq = ''DELETE''
      \<Longrightarrow> quote [] (oc_bucket oc) = Inr bucket \<Longrightarrow> rq_url rq = storage_url oc (lit ''/object/'' @ bucket)
      \<Longrightarrow> list_all (list_all plain_char) keys \<Longrightarrow> rq_body rq = Some (json_bytes (prefixes_json keys))
      \<Longrightarrow> (\<forall>k. objects s' k = objects s k \<or> k \<in> set keys \<and> objects s' k = None)
        \<and> (\<forall>body. out = Answered body \<longrightarrow> (\<forall>k \<in> set keys. objects s' k = None))"

text \<open>What the two stores rely on of their object storage, for the keys they use.\<close>

locale object_bucket =
  fixes ops :: "'s object_operations" and objects :: "'s \<Rightarrow> pystr \<Rightarrow> bytes option" and quiet :: "'s \<Rightarrow> bool"
  assumes put: "ob_put ops key content content_type create_only s = (r, s') \<Longrightarrow> list_all plain_char key \<Longrightarrow>
      objects s' = objects s \<and> r \<noteq> Inr ()
      \<or> objects s' = (objects s)(key \<mapsto> content) \<and> (create_only \<longrightarrow> objects s key = None)"
    and get_frame: "ob_get ops key limit s = (g, s') \<Longrightarrow> list_all plain_char key \<Longrightarrow> objects s' = objects s"
    and get_Inr: "ob_get ops key limit s = (Inr content, s') \<Longrightarrow> list_all plain_char key \<Longrightarrow>
      objects s key = Some content \<and> length content \<le> limit"
    and get_missing: "ob_get ops key limit s = (Inl ObjectNotFoundError, s') \<Longrightarrow> list_all plain_char key \<Longrightarrow>
      objects s key = None"
    and get_quiet: "quiet s \<Longrightarrow> list_all plain_char key \<Longrightarrow> ob_get ops key limit s = (g, s') \<Longrightarrow>
      quiet s' \<and> g = (case objects s key of None \<Rightarrow> Inl ObjectNotFoundError
        | Some content \<Rightarrow> if length content \<le> limit then Inr content else Inl ObjectStorageError)"
    and delete_frame: "ob_delete ops keys s = (n, s') \<Longrightarrow> list_all (list_all plain_char) keys \<Longrightarrow>
      objects s' k = objects s k \<or> k \<in> set keys \<and> objects s' k = None"
    and delete_Inr: "ob_delete ops keys s = (Inr c, s') \<Longrightarrow> list_all (list_all plain_char) keys \<Longrightarrow> k \<in> set keys \<Longrightarrow>
      objects s' k = None"

text \<open>The two errors of the client, by what the service answered.\<close>

lemma object_request_iff:
  "object_request net oc method path body headers not_found limit s = (r, s') \<longleftrightarrow>
     (\<exists>out. rm_urlopen net (make_request oc method path body headers) s = (out, s')
        \<and> r = request_result net not_found limit out)"
  by (auto simp: object_request_def split: prod.splits)

lemma request_result_Inr:
  "request_result net not_found limit out = Inr content \<longleftrightarrow> out = Answered content \<and> length content \<le> limit"
  by (auto simp: request_result_def Let_def bindR_def split: http_outcome.splits sum.splits if_splits)

lemma make_request_simps [simp]:
  "rq_method (make_request oc method path body headers) = method"
  "rq_url (make_request oc method path body headers) = storage_url oc path"
  "rq_body (make_request oc method path body headers) = body"
  by (simp_all add: make_request_def storage_url_def)

lemma upload_header:
  "map_of (rq_headers (make_request oc method path body
     [(lit ''Content-Type'', content_type), (lit ''x-upsert'', upsert)])) (lit ''x-upsert'') = Some upsert"
  by (simp add: make_request_def update_conv')

lemma is_ObjectStorageError_errors [simp]:
  "is_ObjectStorageError ObjectStorageError" "is_ObjectStorageError ObjectNotFoundError"
  "\<not> is_ObjectStorageError OtherException"
  by (simp_all add: is_ObjectStorageError_def)

lemma reported_Inl: "reported key detail = Inl e \<Longrightarrow> e = OtherException"
  by (auto simp: reported_def split: json.splits)

lemma loads_Inl: "loads s = Inl e \<Longrightarrow> is_ValueError e"
  by (auto simp: loads_def is_ValueError_def simp del: read_value.simps split: option.splits if_splits)

context storage_service
begin

lemma loads_error: "loads_bytes (rm_decode net) bs = Inl e \<Longrightarrow> is_ValueError e"
  by (auto simp: loads_bytes_def bindR_Inl_iff dest: decoding loads_Inl split: if_splits)

lemma missing_error:
  assumes "rm_urlopen net rq s = (Refused code body, s')" "reports_missing net code body = Inl e"
  shows "\<not> is_ObjectStorageError e"
proof -
  have "\<not> is_ObjectStorageError e" if "body = Inl e"
    using foreign[OF assms(1)] that by blast
  then show ?thesis
    using assms(2) by (auto simp: reports_missing_def error_detail_def bindR_Inl_iff
        dest!: loads_error reported_Inl split: sum.splits if_splits)
qed

lemma missing_result:
  assumes "rm_urlopen net rq s = (out, s')" "request_result net True limit out = Inl ObjectNotFoundError"
  shows "\<exists>code body. out = Refused code body \<and> reports_missing net code body = Inr True"
proof (cases out)
  case (Refused code body)
  then show ?thesis
    using assms missing_error[of rq s code body s' ObjectNotFoundError]
    by (auto simp: request_result_def bindR_Inl_iff split: if_splits)
next
  case (Raised e)
  then show ?thesis
    using assms(2) foreign[OF assms(1), of e] by (auto simp: request_result_def split: if_splits)
qed (use assms(2) in \<open>auto simp: request_result_def Let_def split: if_splits\<close>)

end

text \<open>The client on such a service is such a storage.\<close>

sublocale storage_service \<subseteq> object_bucket "supabase net oc" objects quiet
proof unfold_locales
  fix key content content_type create_only s r s'
  assume run: "ob_put (supabase net oc) key content content_type create_only s = (r, s')" and key: "list_all plain_char key"
  show "objects s' = objects s \<and> r \<noteq> Inr ()
      \<or> objects s' = (objects s)(key \<mapsto> content) \<and> (create_only \<longrightarrow> objects s key = None)"
  proof (cases "object_path oc key")
    case (Inl e)
    then show ?thesis
      using run by (auto simp: supabase_def put_object_def bind_eq)
  next
    case (Inr path)
    let ?headers = "[(lit ''Content-Type'', content_type), (lit ''x-upsert'', lit (if create_only then ''false'' else ''true''))]"
    from run Inr obtain out where out: "rm_urlopen net (make_request oc ''POST'' path (Some content) ?headers) s = (out, s')"
      "r = map_sum id (\<lambda>_. ()) (request_result net False (64 * 1024) out)"
      by (auto simp: supabase_def put_object_def bind_def object_request_def split: prod.splits sum.splits)
    have "objects s' = objects s \<and> (\<forall>body. out \<noteq> Answered body)
        \<or> objects s' = (objects s)(key \<mapsto> content)
          \<and> (lit (if create_only then ''false'' else ''true'') = lit ''false'' \<longrightarrow> objects s key = None)"
      by (rule upload[OF out(1) _ key Inr]) (simp_all add: upload_header)
    moreover have "r \<noteq> Inr ()" if "\<forall>body. out \<noteq> Answered body"
      using out(2) that request_result_Inr[of net False "64 * 1024" out]
      by (cases "request_result net False (64 * 1024) out") auto
    ultimately show ?thesis
      by auto
  qed
next
  fix key limit s r s'
  assume run: "ob_get (supabase net oc) key limit s = (r, s')" and key: "list_all plain_char key"
  show "objects s' = objects s"
  proof (cases "object_path oc key")
    case (Inl e)
    then show ?thesis
      using run by (simp add: supabase_def get_object_def bind_eq)
  next
    case (Inr path)
    then show ?thesis
      using run download[OF _ _ key Inr] by (auto simp: supabase_def get_object_def bind_eq object_request_iff)
  qed
next
  fix key limit s content s'
  assume run: "ob_get (supabase net oc) key limit s = (Inr content, s')" and key: "list_all plain_char key"
  then obtain path where path: "object_path oc key = Inr path"
    by (cases "object_path oc key") (simp_all add: supabase_def get_object_def bind_eq)
  then obtain out where out: "rm_urlopen net (make_request oc ''GET'' path None []) s = (out, s')"
    "request_result net True limit out = Inr content"
    using run by (auto simp: supabase_def get_object_def bind_eq object_request_iff)
  then show "objects s key = Some content \<and> length content \<le> limit"
    using download[OF out(1) _ key path] by (simp add: request_result_Inr)
next
  fix key limit s s'
  assume run: "ob_get (supabase net oc) key limit s = (Inl ObjectNotFoundError, s')" and key: "list_all plain_char key"
  have quoted: "\<exists>q. quote safe t = Inr q" if "list_all plain_char t" for safe t
    using that by (rule quote_Inr)
  show "objects s key = None"
  proof (cases "object_path oc key")
    case (Inl e)
    then show ?thesis
      using run by (auto simp: supabase_def get_object_def bind_eq object_path_def quote_def encode_utf8_def
          bindR_Inl_iff split: if_splits)
  next
    case (Inr path)
    then show ?thesis
      using run download[OF _ _ key Inr] missing_result
      by (fastforce simp: supabase_def get_object_def bind_eq object_request_iff)
  qed
next
  fix key limit s g s'
  assume quiet: "quiet s" and key: "list_all plain_char key" and run: "ob_get (supabase net oc) key limit s = (g, s')"
  obtain path where path: "object_path oc key = Inr path"
    using key bucket_name by (auto simp: object_path_def dest!: quote_Inr)
  obtain out where out: "rm_urlopen net (make_request oc ''GET'' path None []) s = (out, s')"
    "g = request_result net True limit out"
    using run path by (auto simp: supabase_def get_object_def bind_eq object_request_iff)
  have "quiet s' \<and> (case objects s key of Some body \<Rightarrow> out = Answered body
        | None \<Rightarrow> \<exists>code body. out = Refused code body \<and> reports_missing net code body = Inr True)"
    by (rule undisturbed[OF out(1) _ key path _ quiet]) simp_all
  then show "quiet s' \<and> g = (case objects s key of None \<Rightarrow> Inl ObjectNotFoundError
        | Some content \<Rightarrow> if length content \<le> limit then Inr content else Inl ObjectStorageError)"
    using out(2) by (auto simp: request_result_def Let_def split: option.splits)
next
  fix keys s n s' k
  assume run: "ob_delete (supabase net oc) keys s = (n, s')" and keys: "list_all (list_all plain_char) keys"
  show "objects s' k = objects s k \<or> k \<in> set keys \<and> objects s' k = None"
  proof (cases "keys = [] \<or> (\<exists>e. quote [] (oc_bucket oc) = Inl e)")
    case True
    then have "s' = s"
      using run by (cases "keys = []") (auto simp: supabase_def delete_objects_def bind_eq return_def)
    then show ?thesis
      by simp
  next
    case False
    then obtain bucket where bucket: "keys \<noteq> []" "quote [] (oc_bucket oc) = Inr bucket"
      by (cases "quote [] (oc_bucket oc)") auto
    then obtain out where "rm_urlopen net (make_request oc ''DELETE'' (lit ''/object/'' @ bucket)
        (Some (json_bytes (prefixes_json keys))) json_headers) s = (out, s')"
      using run by (auto simp: supabase_def delete_objects_def bind_def object_request_def prefixes_json_def
          split: prod.splits sum.splits)
    from removal[OF this _ bucket(2) _ keys] show ?thesis
      by simp
  qed
next
  fix keys s c s' k
  assume run: "ob_delete (supabase net oc) keys s = (Inr c, s')" and keys: "list_all (list_all plain_char) keys"
    and k: "k \<in> set keys"
  then have "\<exists>bucket. quote [] (oc_bucket oc) = Inr bucket"
    by (cases "quote [] (oc_bucket oc)") (auto simp: supabase_def delete_objects_def bind_eq split: if_splits)
  then obtain bucket out where out: "quote [] (oc_bucket oc) = Inr bucket"
    "rm_urlopen net (make_request oc ''DELETE'' (lit ''/object/'' @ bucket)
        (Some (json_bytes (prefixes_json keys))) json_headers) s = (Answered out, s')"
    using run k by (auto simp: supabase_def delete_objects_def bind_def object_request_def prefixes_json_def
        request_result_Inr split: prod.splits sum.splits if_splits)
  from removal[OF out(2) _ out(1) _ keys] k show "objects s' k = None"
    by simp
qed

context storage_service
begin

lemma is_bucket: "object_bucket (supabase net oc) objects quiet"
  by (rule object_bucket_axioms)

end

end
