(* ===== verification/Cloud_Assets.thy ===== *)
theory Cloud_Assets
  imports Cloud_Objects Asset_Storage Composition_Storage
begin

section \<open>The stores in the private object storage\<close>

text \<open>
  The model of \<open>CloudAssetStore\<close> (\<open>src/cultureshift/asset_storage.py\<close>) and of
  \<open>CloudCompositionArtifactStore\<close> (\<open>src/cultureshift/composition_storage.py\<close>) over the operations of an
  object storage. Both keep two objects under keys of one prefix; a deleted asset leaves a third one, its
  tombstone. The lemmas are proved in the locale \<open>cloud\<close>, which extends the storage's interface by a prefix of
  plain text, and hold of the Supabase client by the sublocale of \<open>Cloud_Objects\<close>.
\<close>

record 's cloud_store =
  cl_objects :: "'s object_operations"
  cl_prefix :: pystr
  cl_decode :: "bytes \<Rightarrow> pystr result"

definition make_cloud_store :: "'s object_operations \<Rightarrow> pystr \<Rightarrow> (bytes \<Rightarrow> pystr result) \<Rightarrow> 's cloud_store" where
  "make_cloud_store ops prefix decode =
     \<lparr>cl_objects = ops, cl_prefix = strip_by ((=) 47) prefix @ [47], cl_decode = decode\<rparr>"

definition cloud_key :: "'s cloud_store \<Rightarrow> uuid \<Rightarrow> pystr \<Rightarrow> pystr" where
  "cloud_key c aid suffix = cl_prefix c @ uuid_str aid @ 46 # suffix"

abbreviation meta_key :: "'s cloud_store \<Rightarrow> uuid \<Rightarrow> pystr" where
  "meta_key c aid \<equiv> cloud_key c aid (lit ''meta.json'')"

abbreviation closed_key :: "'s cloud_store \<Rightarrow> uuid \<Rightarrow> pystr" where
  "closed_key c aid \<equiv> cloud_key c aid (lit ''deleted.json'')"

subsection \<open>Source assets\<close>

definition cloud_check_open :: "'s cloud_store \<Rightarrow> uuid \<Rightarrow> (exn, 's, unit) prog" where
  "cloud_check_open c aid =
     catch
       (bind (ob_get (cl_objects c) (closed_key c aid) MAX_METADATA_BYTES) (\<lambda>_. raise AssetLifecycleClosedError))
       (\<lambda>e. if e = ObjectNotFoundError then return () else raise e)"

definition cloud_put_asset :: "'s cloud_store \<Rightarrow> uuid \<Rightarrow> pystr \<Rightarrow> pystr \<Rightarrow> bytes \<Rightarrow> bytes \<Rightarrow> (exn, 's, unit) prog" where
  "cloud_put_asset c aid extension detected data metadata =
     bind (ob_put (cl_objects c) (cloud_key c aid extension) data detected True) (\<lambda>_.
     ob_put (cl_objects c) (meta_key c aid) metadata (lit ''application/json'') True)"

definition cloud_store_asset ::
  "'s cloud_store \<Rightarrow> pydantic \<Rightarrow> uuid \<Rightarrow> bytes \<Rightarrow> pystr \<Rightarrow> pystr \<Rightarrow> pystr \<Rightarrow> datetime
    \<Rightarrow> (exn, 's, stored_asset) prog" where
  "cloud_store_asset c py aid data declared provenance_ref rights_ref now =
     bind (liftR (prepare_asset aid data declared provenance_ref rights_ref now)) (\<lambda>(stored, extension).
     bind (cloud_check_open c aid) (\<lambda>_.
     bind (catch (cloud_put_asset c aid extension declared data (json_bytes (metadata_json py stored)))
       (\<lambda>e. if is_ObjectStorageError e \<or> e = FileExistsError
         then bind (ob_delete (cl_objects c) [cloud_key c aid extension, meta_key c aid]) (\<lambda>_.
           raise AssetStorageError)
         else raise e)) (\<lambda>_.
     return stored)))"

definition parse_cloud_metadata ::
  "(bytes \<Rightarrow> pystr result) \<Rightarrow> pydantic \<Rightarrow> bytes \<Rightarrow> (asset_ref \<times> datetime \<times> json) result" where
  "parse_cloud_metadata decode py raw =
     bindR (loads_bytes decode raw) (\<lambda>metadata.
     bindR (bindR (member (lit ''asset'') metadata) (validate_asset py)) (\<lambda>asset.
     bindR (bindR (member (lit ''created_at'') metadata) time_value) (\<lambda>created_at.
     bindR (member (lit ''size_bytes'') metadata) (\<lambda>size_bytes.
     Inr (asset, created_at, size_bytes)))))"

definition cloud_read_asset ::
  "'s cloud_store \<Rightarrow> pydantic \<Rightarrow> uuid \<Rightarrow> datetime \<Rightarrow> (exn, 's, asset_ref \<times> json \<times> bytes) prog" where
  "cloud_read_asset c py aid loaded_at =
     bind (ob_get (cl_objects c) (meta_key c aid) MAX_METADATA_BYTES) (\<lambda>raw.
     bind (liftR (parse_cloud_metadata (cl_decode c) py raw)) (\<lambda>(asset, created_at, size_bytes).
     if as_asset_id asset \<noteq> aid \<or> instant loaded_at < instant created_at then raise AssetLifecycleClosedError
     else case as_expires_at asset of
       None \<Rightarrow> raise TypeError
     | Some expires_at \<Rightarrow>
         if instant expires_at \<le> instant loaded_at then raise AssetLifecycleClosedError
         else case extension_of (as_media_type asset) of
           None \<Rightarrow> raise KeyError
         | Some extension \<Rightarrow>
             bind (ob_get (cl_objects c) (cloud_key c aid extension) MAX_ASSET_BYTES) (\<lambda>content.
             return (asset, size_bytes, content))))"

text \<open>\<open>except (ObjectStorageError, KeyError, TypeError, ValueError, ValidationError)\<close>, which both stores have.\<close>

definition is_cloud_error :: "exn \<Rightarrow> bool" where
  "is_cloud_error e \<longleftrightarrow> is_ObjectStorageError e \<or> is_ValueError e \<or> e = KeyError \<or> e = TypeError"

definition cloud_load_asset ::
  "'s cloud_store \<Rightarrow> pydantic \<Rightarrow> uuid \<Rightarrow> datetime \<Rightarrow> (exn, 's, loaded_asset) prog" where
  "cloud_load_asset c py aid now =
     bind (liftR (require_utc_time now)) (\<lambda>loaded_at.
     bind (cloud_check_open c aid) (\<lambda>_.
     bind (catch (cloud_read_asset c py aid loaded_at)
       (\<lambda>e. raise (if e \<noteq> AssetLifecycleClosedError \<and> is_cloud_error e then AssetStorageError else e)))
     (\<lambda>(asset, size_bytes, content).
     if int (length content) \<noteq> integer_of size_bytes \<or> sha256_hex content \<noteq> as_sha256 asset
     then raise AssetStorageError
     else return \<lparr>ld_asset = asset, ld_content = content\<rparr>)))"

text \<open>\<open>_EXTENSIONS[metadata["asset"]["media_type"]]\<close>: a list or an object is no key at all.\<close>

definition recorded_extension :: "(bytes \<Rightarrow> pystr result) \<Rightarrow> bytes \<Rightarrow> pystr result" where
  "recorded_extension decode raw =
     bindR (loads_bytes decode raw) (\<lambda>metadata.
     bindR (member (lit ''asset'') metadata) (\<lambda>asset.
     bindR (member (lit ''media_type'') asset) (\<lambda>media_type.
     case media_type of
       JStr s \<Rightarrow> (case extension_of s of None \<Rightarrow> Inl KeyError | Some extension \<Rightarrow> Inr extension)
     | JArr _ \<Rightarrow> Inl TypeError
     | JObj _ \<Rightarrow> Inl TypeError
     | _ \<Rightarrow> Inl KeyError)))"

text \<open>The tombstone, which \<open>json.dumps\<close> writes with its default separators.\<close>

definition cloud_tombstone :: "datetime \<Rightarrow> pystr \<Rightarrow> bytes" where
  "cloud_tombstone deleted_at reason = map word_of_nat
     (lit ''{\"deleted_at\": '' @ json_string True (isoformat deleted_at) @ lit '', \"reason\": ''
       @ json_string True reason @ [125])"

definition cloud_delete_asset :: "'s cloud_store \<Rightarrow> uuid \<Rightarrow> pystr \<Rightarrow> datetime \<Rightarrow> (exn, 's, bool) prog" where
  "cloud_delete_asset c aid reason now =
     bind (liftR (require_utc_time now)) (\<lambda>deleted_at.
     bind (catch
       (bind (ob_get (cl_objects c) (meta_key c aid) MAX_METADATA_BYTES) (\<lambda>raw.
        bind (liftR (recorded_extension (cl_decode c) raw)) (\<lambda>extension. return (True, extension))))
       (\<lambda>e. if is_cloud_error e then return (False, lit ''png'') else raise e)) (\<lambda>(existed, extension).
     bind (catch
       (bind (ob_put (cl_objects c) (closed_key c aid) (cloud_tombstone deleted_at reason)
         (lit ''application/json'') False) (\<lambda>_.
        ob_delete (cl_objects c) [meta_key c aid, cloud_key c aid extension, cloud_key c aid (lit ''jpg'')]))
       (\<lambda>e. raise (if is_ObjectStorageError e then AssetStorageError else e))) (\<lambda>_.
     return existed)))"

definition cloud_purge_expired :: "'s cloud_store \<Rightarrow> datetime \<Rightarrow> (exn, 's, nat) prog" where
  "cloud_purge_expired c now = bind (liftR (require_utc_time now)) (\<lambda>_. return 0)"

subsection \<open>Composition artifacts\<close>

definition ARTIFACT_METADATA_BYTES :: nat where "ARTIFACT_METADATA_BYTES = 64 * 1024"

definition read_artifact :: "'s cloud_store \<Rightarrow> nat \<Rightarrow> uuid \<Rightarrow> (exn, 's, stored_artifact \<times> bytes) prog" where
  "read_artifact c max_bytes aid =
     bind (ob_get (cl_objects c) (cloud_key c aid (lit ''json'')) ARTIFACT_METADATA_BYTES) (\<lambda>raw.
     bind (liftR (loads_bytes (cl_decode c) raw)) (\<lambda>metadata.
     bind (ob_get (cl_objects c) (cloud_key c aid (lit ''png'')) max_bytes) (\<lambda>content.
     bind (liftR (parse_artifact metadata)) (\<lambda>r. return (r, content)))))"

definition fetch_artifact ::
  "'s cloud_store \<Rightarrow> nat \<Rightarrow> uuid \<Rightarrow> datetime \<Rightarrow> bool \<Rightarrow> (exn, 's, loaded_artifact) prog" where
  "fetch_artifact c max_bytes aid checked_at check_expiry =
     bind (catch (read_artifact c max_bytes aid)
       (\<lambda>e. raise (if is_cloud_error e then CompositionArtifactError else e))) (\<lambda>(r, content).
     if sa_artifact_id r \<noteq> aid \<or> sa_size_bytes r \<noteq> int (length content) \<or> sha256_hex content \<noteq> sa_sha256 r
       \<or> (check_expiry \<and> instant (sa_expires_at r) \<le> instant checked_at)
     then raise CompositionArtifactError
     else return \<lparr>la_record = r, la_png_bytes = content\<rparr>)"

definition cloud_load_artifact :: "'s cloud_store \<Rightarrow> nat \<Rightarrow> uuid \<Rightarrow> datetime \<Rightarrow> (exn, 's, loaded_artifact) prog" where
  "cloud_load_artifact c max_bytes aid now =
     bind (liftR (require_utc now)) (\<lambda>checked_at. fetch_artifact c max_bytes aid checked_at True)"

text \<open>The \<open>try\<close> of \<open>save\<close>: also its own \<open>raise\<close> for another artifact under the identifier ends in the handler,
  which tries to create the two objects. The time of the call to \<open>load\<close> is not used there.\<close>

definition cloud_save_artifact ::
  "'s cloud_store \<Rightarrow> nat \<Rightarrow> uuid \<Rightarrow> bytes \<Rightarrow> datetime \<Rightarrow> (exn, 's, stored_artifact) prog" where
  "cloud_save_artifact c max_bytes aid png expires_at =
     bind (liftR (require_utc expires_at)) (\<lambda>expiration.
     if \<not> startswith png PNG_SIGNATURE \<or> max_bytes < length png then raise CompositionArtifactError
     else let r = artifact_record aid png expiration in
       catch
         (bind (fetch_artifact c max_bytes aid expiration False) (\<lambda>existing.
          if la_record existing = r \<and> la_png_bytes existing = png then return r
          else raise CompositionArtifactError))
         (\<lambda>e. if e = CompositionArtifactError
           then catch
             (bind (ob_put (cl_objects c) (cloud_key c aid (lit ''png'')) png (lit ''image/png'') True) (\<lambda>_.
              bind (ob_put (cl_objects c) (cloud_key c aid (lit ''json'')) (json_bytes (artifact_document r))
                (lit ''application/json'') True) (\<lambda>_. return r)))
             (\<lambda>e. raise (if is_ObjectStorageError e \<or> e = FileExistsError then CompositionArtifactError else e))
           else raise e))"

definition cloud_delete_artifact :: "'s cloud_store \<Rightarrow> uuid \<Rightarrow> (exn, 's, bool) prog" where
  "cloud_delete_artifact c aid =
     bind (ob_delete (cl_objects c) [cloud_key c aid (lit ''png''), cloud_key c aid (lit ''json'')]) (\<lambda>n.
     return (n \<noteq> 0))"

subsection \<open>What a bucket holds\<close>

text \<open>The abstract state, as a function of the objects: the assets and the artifacts that can be read,
  whatever the time and the tombstones.\<close>

definition cloud_asset_at ::
  "'s cloud_store \<Rightarrow> pydantic \<Rightarrow> (pystr \<Rightarrow> bytes option) \<Rightarrow> uuid \<Rightarrow> (loaded_asset \<times> datetime) option" where
  "cloud_asset_at c py m aid = (case m (meta_key c aid) of None \<Rightarrow> None | Some raw \<Rightarrow>
     if MAX_METADATA_BYTES < length raw then None
     else (case parse_cloud_metadata (cl_decode c) py raw of Inl e \<Rightarrow> None
     | Inr (asset, created_at, size_bytes) \<Rightarrow>
         if as_asset_id asset \<noteq> aid \<or> as_expires_at asset = None then None
         else (case extension_of (as_media_type asset) of None \<Rightarrow> None | Some extension \<Rightarrow>
           (case m (cloud_key c aid extension) of None \<Rightarrow> None | Some content \<Rightarrow>
             if length content \<le> MAX_ASSET_BYTES \<and> int (length content) = integer_of size_bytes
               \<and> sha256_hex content = as_sha256 asset
             then Some (\<lparr>ld_asset = asset, ld_content = content\<rparr>, created_at) else None))))"

definition cloud_artifact_at ::
  "'s cloud_store \<Rightarrow> nat \<Rightarrow> (pystr \<Rightarrow> bytes option) \<Rightarrow> uuid \<Rightarrow> loaded_artifact option" where
  "cloud_artifact_at c max_bytes m aid =
     (case (m (cloud_key c aid (lit ''json'')), m (cloud_key c aid (lit ''png''))) of
        (Some raw, Some content) \<Rightarrow>
          if ARTIFACT_METADATA_BYTES < length raw \<or> max_bytes < length content then None
          else (case bindR (loads_bytes (cl_decode c) raw) parse_artifact of Inl e \<Rightarrow> None
          | Inr r \<Rightarrow>
              if sa_artifact_id r = aid \<and> sa_size_bytes r = int (length content) \<and> sha256_hex content = sa_sha256 r
              then Some \<lparr>la_record = r, la_png_bytes = content\<rparr> else None)
      | _ \<Rightarrow> None)"

lemma cloud_key_eq_iff [simp]: "cloud_key c a s = cloud_key c b t \<longleftrightarrow> a = b \<and> s = t"
  by (simp add: cloud_key_def append_eq_append_conv length_uuid_str)

lemma plain_cloud_suffixes [simp]:
  "list_all plain_char (lit ''meta.json'')" "list_all plain_char (lit ''deleted.json'')"
  "list_all plain_char (lit ''json'')" "list_all plain_char (lit ''png'')" "list_all plain_char (lit ''jpg'')"
  "extension_of m = Some x \<Longrightarrow> list_all plain_char x"
  by (auto simp: extension_of_def lit_def plain_char_def is_surrogate_def split: if_splits)

lemma extension_suffix:
  "extension_of m = Some x \<Longrightarrow> x \<noteq> lit ''meta.json'' \<and> x \<noteq> lit ''deleted.json''"
  by (auto simp: extension_of_def lit_def split: if_splits)

lemma recorded_extension_Inr: "recorded_extension decode raw = Inr x \<Longrightarrow> \<exists>m. extension_of m = Some x"
proof -
  assume "recorded_extension decode raw = Inr x"
  then obtain v where "(case v of
       JStr s \<Rightarrow> (case extension_of s of None \<Rightarrow> Inl KeyError | Some extension \<Rightarrow> Inr extension)
     | JArr _ \<Rightarrow> Inl TypeError
     | JObj _ \<Rightarrow> Inl TypeError
     | _ \<Rightarrow> Inl KeyError) = Inr x"
    unfolding recorded_extension_def bindR_Inr_iff by blast
  then show ?thesis
    by (cases v) (auto split: option.splits)
qed

lemma bind_return_Inr: "bind m (\<lambda>a. bind (liftR (f a)) (\<lambda>b. return (g b))) s = (Inr x, s') \<Longrightarrow>
    \<exists>a b. f a = Inr b \<and> x = g b"
  by (auto simp: bind_Inr_iff split: sum.splits) (metis sum.exhaust)

text \<open>An invariant need only hold of the continuations the first program leads to.\<close>

lemma keeps_bind_Inr:
  assumes "keeps I m" "\<And>a s s'. m s = (Inr a, s') \<Longrightarrow> keeps I (f a)"
  shows "keeps I (bind m f)"
proof
  fix s assume "I s"
  then show "I (snd (bind m f s))"
    using keepsD[OF assms(1)] assms(2)[of s] by (auto simp: bind_def keeps_def split: prod.split sum.split)
qed

subsection \<open>The operations on a bucket\<close>

locale cloud = object_bucket "cl_objects c" objects quiet
  for c :: "'s cloud_store" and objects :: "'s \<Rightarrow> pystr \<Rightarrow> bytes option" and quiet :: "'s \<Rightarrow> bool" +
  assumes prefix: "list_all plain_char (cl_prefix c)"
begin

lemma key_plain: "list_all plain_char suffix \<Longrightarrow> list_all plain_char (cloud_key c aid suffix)"
  using prefix plain_uuid_str[of aid] by (simp add: cloud_key_def plain_char_def is_surrogate_def)

lemma keeps_get: "list_all plain_char suffix \<Longrightarrow> keeps (\<lambda>s. P (objects s)) (ob_get (cl_objects c) (cloud_key c aid suffix) limit)"
  unfolding keeps_def using get_frame[OF _ key_plain] by (metis prod.collapse)

lemma keeps_put:
  assumes "list_all plain_char suffix" "k \<noteq> cloud_key c aid suffix \<or> (\<forall>v. P (Some v))"
  shows "keeps (\<lambda>s. P (objects s k)) (ob_put (cl_objects c) (cloud_key c aid suffix) content content_type create_only)"
proof
  fix s assume P: "P (objects s k)"
  obtain r s' where run: "ob_put (cl_objects c) (cloud_key c aid suffix) content content_type create_only s = (r, s')"
    by fastforce
  from put[OF run key_plain[OF assms(1)]] assms(2) P
  show "P (objects (snd (ob_put (cl_objects c) (cloud_key c aid suffix) content content_type create_only s)) k)"
    by (auto simp: run)
qed

lemma keeps_delete:
  assumes "list_all (list_all plain_char) keys" "k \<notin> set keys"
  shows "keeps (\<lambda>s. P (objects s k)) (ob_delete (cl_objects c) keys)"
proof
  fix s assume P: "P (objects s k)"
  obtain r s' where run: "ob_delete (cl_objects c) keys s = (r, s')"
    by fastforce
  from delete_frame[OF run assms(1), of k] assms(2) P
  show "P (objects (snd (ob_delete (cl_objects c) keys s)) k)"
    by (auto simp: run)
qed

text \<open>Neither a read nor a refused write changes anything; a tombstone stays.\<close>

lemma keeps_check_open: "keeps (\<lambda>s. P (objects s)) (cloud_check_open c aid)"
  unfolding cloud_check_open_def by (intro keeps_intros keeps_get) simp

lemma keeps_read: "keeps (\<lambda>s. P (objects s)) (cloud_read_asset c py aid now)"
  unfolding cloud_read_asset_def
  by (intro keeps_intros keeps_get) (auto split: prod.split option.split intro!: keeps_intros keeps_get)

lemma keeps_load: "keeps (\<lambda>s. P (objects s)) (cloud_load_asset c py aid now)"
  unfolding cloud_load_asset_def
  by (intro keeps_intros keeps_check_open keeps_read) (auto split: prod.split intro!: keeps_intros)

lemma keeps_store:
  assumes "(\<forall>suffix. k \<noteq> cloud_key c aid suffix) \<or> k = closed_key c b \<and> (\<forall>v. P (Some v))"
  shows "keeps (\<lambda>s. P (objects s k)) (cloud_store_asset c py aid data declared p r now)"
proof (cases "prepare_asset aid data declared p r now")
  case (Inl e)
  then show ?thesis
    by (simp add: cloud_store_asset_def keeps_def bind_eq)
next
  case (Inr st)
  obtain stored extension where st: "st = (stored, extension)"
    by (cases st)
  then have extension: "extension_of declared = Some extension"
    using prepare_asset_Inr(2) Inr by blast
  have "keeps (\<lambda>s. P (objects s k)) (bind (cloud_check_open c aid) (\<lambda>_.
      bind (catch (cloud_put_asset c aid extension declared data (json_bytes (metadata_json py stored)))
       (\<lambda>e. if is_ObjectStorageError e \<or> e = FileExistsError
         then bind (ob_delete (cl_objects c) [cloud_key c aid extension, meta_key c aid]) (\<lambda>_. raise AssetStorageError)
         else raise e)) (\<lambda>_. return stored)))"
    unfolding cloud_put_asset_def using assms extension extension_suffix[OF extension]
    by (intro keeps_intros keeps_put keeps_delete keeps_check_open[of "\<lambda>m. P (m k)"])
      (auto simp: key_plain)
  then show ?thesis
    using Inr st by (simp add: cloud_store_asset_def keeps_def bind_eq(2) bind_def[of "liftR _"])
qed

text \<open>What the metadata says of the extension, or \<open>png\<close>.\<close>

lemma delete_extension:
  assumes "catch (bind (ob_get (cl_objects c) (meta_key c aid) MAX_METADATA_BYTES) (\<lambda>raw.
      bind (liftR (recorded_extension (cl_decode c) raw)) (\<lambda>extension. return (True, extension))))
    (\<lambda>e. if is_cloud_error e then return (False, lit ''png'') else raise e) s = (Inr x, s')"
  shows "\<exists>m. extension_of m = Some (snd x)"
proof -
  have "(\<exists>raw extension. recorded_extension (cl_decode c) raw = Inr extension \<and> x = (True, extension))
      \<or> x = (False, lit ''png'')"
    using assms unfolding catch_Inr_iff by (auto dest!: bind_return_Inr split: if_splits)
  then show ?thesis
    using recorded_extension_Inr by (auto simp: extension_of_def[of image_png] intro: exI[of _ image_png])
qed

lemma keeps_delete_asset:
  assumes "(\<forall>suffix. k \<noteq> cloud_key c aid suffix) \<or> k = closed_key c b \<and> (\<forall>v. P (Some v))"
  shows "keeps (\<lambda>s. P (objects s k)) (cloud_delete_asset c aid reason now)"
  unfolding cloud_delete_asset_def
proof (intro keeps_bind_Inr[of _ "catch _ _"] keeps_intros)
  show "keeps (\<lambda>s. P (objects s k)) (ob_get (cl_objects c) (meta_key c aid) MAX_METADATA_BYTES)"
    by (intro keeps_get[of _ "\<lambda>m. P (m k)"]) simp
next
  fix deleted_at x s s'
  assume "catch (bind (ob_get (cl_objects c) (meta_key c aid) MAX_METADATA_BYTES) (\<lambda>raw.
      bind (liftR (recorded_extension (cl_decode c) raw)) (\<lambda>extension. return (True, extension))))
    (\<lambda>e. if is_cloud_error e then return (False, lit ''png'') else raise e) s = (Inr x, s')"
  then obtain m where extension: "extension_of m = Some (snd x)"
    using delete_extension by blast
  with assms extension_suffix[OF this] show "keeps (\<lambda>s. P (objects s k)) (case x of (existed, extension) \<Rightarrow>
      bind (catch
        (bind (ob_put (cl_objects c) (closed_key c aid) (cloud_tombstone deleted_at reason) (lit ''application/json'') False)
          (\<lambda>_. ob_delete (cl_objects c) [meta_key c aid, cloud_key c aid extension, cloud_key c aid (lit ''jpg'')]))
        (\<lambda>e. raise (if is_ObjectStorageError e then AssetStorageError else e)))
      (\<lambda>_. return existed))"
    by (auto intro!: keeps_intros keeps_put keeps_delete simp: key_plain split: prod.split)
qed

text \<open>The tombstone decides whether an asset is open.\<close>

lemma check_open_frame: "cloud_check_open c aid s = (u, s') \<Longrightarrow> objects s' = objects s"
  by (rule keepsD[OF keeps_check_open[of "\<lambda>m. m = objects s"] refl])

lemma check_open_Inr: "cloud_check_open c aid s = (Inr u, s') \<Longrightarrow> objects s (closed_key c aid) = None"
  using get_missing[OF _ key_plain] by (auto simp: cloud_check_open_def catch_Inr_iff bind_Inr_iff bind_Inl_iff split: if_splits)

lemma check_open_quiet:
  assumes "quiet s"
  shows "\<exists>s'. cloud_check_open c aid s = (case objects s (closed_key c aid) of None \<Rightarrow> Inr ()
      | Some tomb \<Rightarrow> Inl (if length tomb \<le> MAX_METADATA_BYTES then AssetLifecycleClosedError else ObjectStorageError), s')
    \<and> objects s' = objects s \<and> quiet s'"
proof -
  obtain g s' where run: "ob_get (cl_objects c) (closed_key c aid) MAX_METADATA_BYTES s = (g, s')"
    by fastforce
  show ?thesis
    using get_quiet[OF assms key_plain run] get_frame[OF run key_plain]
    by (auto simp: cloud_check_open_def catch_eq bind_eq run split: option.splits intro!: exI[of _ s'])
qed

lemma get_answer:
  assumes "quiet s" "list_all plain_char suffix" "objects s (cloud_key c aid suffix) = Some content" "length content \<le> limit"
  obtains s' where "ob_get (cl_objects c) (cloud_key c aid suffix) limit s = (Inr content, s')" "objects s' = objects s" "quiet s'"
proof -
  obtain g s' where run: "ob_get (cl_objects c) (cloud_key c aid suffix) limit s = (g, s')"
    by fastforce
  then show thesis
    using get_quiet[OF assms(1) key_plain[OF assms(2)] run] get_frame[OF run key_plain[OF assms(2)]] assms(3,4) that
    by simp
qed

text \<open>What a load answers is in the bucket, intact and unexpired; and in a quiet bucket it is answered.\<close>

lemma load_Inr:
  assumes "cloud_load_asset c py aid now s = (Inr l, s')"
  shows "objects s (closed_key c aid) = None \<and> \<not> has_expired (ld_asset l) now \<and> objects s' = objects s
    \<and> (\<exists>t. cloud_asset_at c py (objects s) aid = Some (l, t) \<and> instant t \<le> instant now)"
proof -
  from assms obtain s1 asset size_bytes content where steps: "cloud_check_open c aid s = (Inr (), s1)"
    "cloud_read_asset c py aid now s1 = (Inr (asset, size_bytes, content), s')"
    "int (length content) = integer_of size_bytes" "sha256_hex content = as_sha256 asset"
    "l = \<lparr>ld_asset = asset, ld_content = content\<rparr>"
    by (auto simp: cloud_load_asset_def bind_Inr_iff require_utc_time_def catch_Inr_iff split: if_splits)
  obtain raw s2 created_at t extension where read: "ob_get (cl_objects c) (meta_key c aid) MAX_METADATA_BYTES s1 = (Inr raw, s2)"
    "parse_cloud_metadata (cl_decode c) py raw = Inr (asset, created_at, size_bytes)" "as_asset_id asset = aid"
    "instant created_at \<le> instant now" "as_expires_at asset = Some t" "instant now < instant t"
    "extension_of (as_media_type asset) = Some extension"
    "ob_get (cl_objects c) (cloud_key c aid extension) MAX_ASSET_BYTES s2 = (Inr content, s')"
    using steps(2) unfolding cloud_read_asset_def bind_Inr_iff
    by (auto simp: bind_Inr_iff split: sum.splits prod.splits if_splits option.splits)
  note same = check_open_frame[OF steps(1)] get_frame[OF read(1) key_plain] get_frame[OF read(8) key_plain]
  show ?thesis
    using check_open_Inr[OF steps(1)] same read(2-7) steps(3-5) get_Inr[OF read(1) key_plain] get_Inr[OF read(8) key_plain]
    by (auto simp: cloud_asset_at_def has_expired_def)
qed

lemma load_quiet:
  assumes "quiet s" "objects s (closed_key c aid) = None" "cloud_asset_at c py (objects s) aid = Some (l, t)" "is_utc now"
    "instant t \<le> instant now"
  shows "fst (cloud_load_asset c py aid now s) = (if has_expired (ld_asset l) now then Inl AssetLifecycleClosedError else Inr l)"
proof -
  obtain raw asset size_bytes u extension content where parts: "objects s (meta_key c aid) = Some raw"
    "length raw \<le> MAX_METADATA_BYTES" "parse_cloud_metadata (cl_decode c) py raw = Inr (asset, t, size_bytes)"
    "as_asset_id asset = aid" "as_expires_at asset = Some u" "extension_of (as_media_type asset) = Some extension"
    "objects s (cloud_key c aid extension) = Some content" "length content \<le> MAX_ASSET_BYTES"
    "int (length content) = integer_of size_bytes" "sha256_hex content = as_sha256 asset"
    "l = \<lparr>ld_asset = asset, ld_content = content\<rparr>"
    using assms(3) by (auto simp: cloud_asset_at_def not_less split: option.splits sum.splits if_splits)
  obtain s1 where s1: "cloud_check_open c aid s = (Inr (), s1)" "objects s1 = objects s" "quiet s1"
    using check_open_quiet[OF assms(1), of aid] assms(2) by auto
  obtain s2 where s2: "ob_get (cl_objects c) (meta_key c aid) MAX_METADATA_BYTES s1 = (Inr raw, s2)"
    "objects s2 = objects s" "quiet s2"
    using get_answer[OF s1(3) _ _ parts(2), of "lit ''meta.json''" aid] parts(1) s1(2) by auto
  obtain s3 where s3: "ob_get (cl_objects c) (cloud_key c aid extension) MAX_ASSET_BYTES s2 = (Inr content, s3)"
    using get_answer[OF s2(3) _ _ parts(8), of extension aid] parts(6,7) s2(2) by auto
  show ?thesis
    using parts(3-6,9-11) assms(4,5)
    by (simp add: cloud_load_asset_def require_utc_time_def bind_eq s1(1) cloud_read_asset_def catch_eq s2(1) s3
        has_expired_def)
qed

text \<open>A store that answers found the identifier open and both names free.\<close>

lemma store_Inr:
  assumes "cloud_store_asset c py aid data declared p r now s = (Inr st, s')"
  obtains extension where "prepare_asset aid data declared p r now = Inr (st, extension)"
    "objects s (closed_key c aid) = None"
    "objects s' = (objects s)(cloud_key c aid extension \<mapsto> data, meta_key c aid \<mapsto> json_bytes (metadata_json py st))"
proof -
  from assms obtain extension s1 where steps: "prepare_asset aid data declared p r now = Inr (st, extension)"
    "cloud_check_open c aid s = (Inr (), s1)"
    "cloud_put_asset c aid extension declared data (json_bytes (metadata_json py st)) s1 = (Inr (), s')"
    by (auto simp: cloud_store_asset_def bind_Inr_iff catch_Inr_iff split: sum.splits prod.splits if_splits)
  from steps(3) obtain s2 where puts:
    "ob_put (cl_objects c) (cloud_key c aid extension) data declared True s1 = (Inr (), s2)"
    "ob_put (cl_objects c) (meta_key c aid) (json_bytes (metadata_json py st)) (lit ''application/json'') True s2 = (Inr (), s')"
    by (auto simp: cloud_put_asset_def bind_Inr_iff)
  have "list_all plain_char extension"
    using prepare_asset_Inr(2)[OF steps(1)] by simp
  then have "objects s2 = (objects s1)(cloud_key c aid extension \<mapsto> data)"
    "objects s' = (objects s2)(meta_key c aid \<mapsto> json_bytes (metadata_json py st))"
    using put[OF puts(1) key_plain] put[OF puts(2) key_plain] by simp_all
  then show thesis
    using that[OF steps(1) check_open_Inr[OF steps(2)]] check_open_frame[OF steps(2)] by simp
qed

lemma delete_asset_Inr:
  assumes "cloud_delete_asset c aid reason now s = (Inr existed, s')"
  shows "objects s' (closed_key c aid) = Some (cloud_tombstone now reason)" "objects s' (meta_key c aid) = None" "is_utc now"
proof -
  obtain y s1 where first: "catch (bind (ob_get (cl_objects c) (meta_key c aid) MAX_METADATA_BYTES) (\<lambda>raw.
        bind (liftR (recorded_extension (cl_decode c) raw)) (\<lambda>extension. return (True, extension))))
      (\<lambda>e. if is_cloud_error e then return (False, lit ''png'') else raise e) s = (Inr y, s1)"
    and rest: "is_utc now" "(case y of (existed, extension) \<Rightarrow>
      bind (catch
        (bind (ob_put (cl_objects c) (closed_key c aid) (cloud_tombstone now reason) (lit ''application/json'') False)
          (\<lambda>_. ob_delete (cl_objects c) [meta_key c aid, cloud_key c aid extension, cloud_key c aid (lit ''jpg'')]))
        (\<lambda>e. raise (if is_ObjectStorageError e then AssetStorageError else e)))
      (\<lambda>_. return existed)) s1 = (Inr existed, s')"
    using assms by (auto simp: cloud_delete_asset_def require_utc_time_def bind_Inr_iff[of "catch _ _"] split: if_splits)
  obtain m where extension: "extension_of m = Some (snd y)"
    using delete_extension[OF first] by blast
  from rest(2) obtain s2 n where steps:
    "ob_put (cl_objects c) (closed_key c aid) (cloud_tombstone now reason) (lit ''application/json'') False s1 = (Inr (), s2)"
    "ob_delete (cl_objects c) [meta_key c aid, cloud_key c aid (snd y), cloud_key c aid (lit ''jpg'')] s2 = (Inr n, s')"
    by (auto simp: catch_Inr_iff bind_Inr_iff split: prod.splits)
  have keys: "list_all (list_all plain_char) [meta_key c aid, cloud_key c aid (snd y), cloud_key c aid (lit ''jpg'')]"
    using extension by (simp add: key_plain)
  have "objects s2 (closed_key c aid) = Some (cloud_tombstone now reason)"
    using put[OF steps(1) key_plain] by simp
  then show "objects s' (closed_key c aid) = Some (cloud_tombstone now reason)"
    using delete_frame[OF steps(2) keys, of "closed_key c aid"] extension_suffix[OF extension] by auto
  show "objects s' (meta_key c aid) = None"
    using delete_Inr[OF steps(2) keys] by simp
  show "is_utc now"
    by (rule rest(1))
qed

text \<open>The artifacts.\<close>

lemma keeps_read_artifact: "keeps (\<lambda>s. P (objects s)) (read_artifact c m aid)"
  unfolding read_artifact_def by (intro keeps_intros keeps_get) simp_all

lemma keeps_fetch: "keeps (\<lambda>s. P (objects s)) (fetch_artifact c m aid now check_expiry)"
  unfolding fetch_artifact_def
  by (intro keeps_intros keeps_read_artifact) (auto split: prod.split intro!: keeps_intros)

lemma fetch_frame: "fetch_artifact c m aid now e s = (r, s') \<Longrightarrow> objects s' = objects s"
  by (rule keepsD[OF keeps_fetch[of "\<lambda>m. m = objects s"] refl])

lemma read_artifact_Inr:
  assumes "read_artifact c m aid s = (Inr (r, content), s')"
  obtains raw where "objects s (cloud_key c aid (lit ''json'')) = Some raw" "length raw \<le> ARTIFACT_METADATA_BYTES"
    "objects s (cloud_key c aid (lit ''png'')) = Some content" "length content \<le> m"
    "bindR (loads_bytes (cl_decode c) raw) parse_artifact = Inr r"
proof -
  obtain raw s1 where raw: "ob_get (cl_objects c) (cloud_key c aid (lit ''json'')) ARTIFACT_METADATA_BYTES s = (Inr raw, s1)"
    using assms by (auto simp: read_artifact_def bind_Inr_iff)
  obtain metadata where metadata: "loads_bytes (cl_decode c) raw = Inr metadata"
    using assms raw by (cases "loads_bytes (cl_decode c) raw") (simp_all add: read_artifact_def bind_eq)
  obtain content' s2 where picture: "ob_get (cl_objects c) (cloud_key c aid (lit ''png'')) m s1 = (Inr content', s2)"
    using assms raw metadata by (auto simp: read_artifact_def bind_eq bind_Inr_iff)
  have "parse_artifact metadata = Inr r \<and> content' = content"
    using assms raw metadata picture by (cases "parse_artifact metadata") (simp_all add: read_artifact_def bind_eq)
  then show thesis
    using that[of raw] metadata get_Inr[OF raw key_plain] get_Inr[OF picture key_plain] get_frame[OF raw key_plain] by simp
qed

lemma read_artifact_quiet:
  assumes "quiet s" "objects s (cloud_key c aid (lit ''json'')) = Some raw" "length raw \<le> ARTIFACT_METADATA_BYTES"
    "objects s (cloud_key c aid (lit ''png'')) = Some content" "length content \<le> m"
    "bindR (loads_bytes (cl_decode c) raw) parse_artifact = Inr r"
  shows "\<exists>s'. read_artifact c m aid s = (Inr (r, content), s')"
proof -
  obtain metadata where metadata: "loads_bytes (cl_decode c) raw = Inr metadata" "parse_artifact metadata = Inr r"
    using assms(6) by auto
  obtain s1 where s1: "ob_get (cl_objects c) (cloud_key c aid (lit ''json'')) ARTIFACT_METADATA_BYTES s = (Inr raw, s1)"
    "objects s1 = objects s" "quiet s1"
    using get_answer[OF assms(1) _ assms(2,3)] by auto
  obtain s2 where "ob_get (cl_objects c) (cloud_key c aid (lit ''png'')) m s1 = (Inr content, s2)"
    using get_answer[OF s1(3) _ _ assms(5), of "lit ''png''" aid] assms(4) s1(2) by auto
  then show ?thesis
    using s1 metadata by (simp add: read_artifact_def bind_eq)
qed

lemma fetch_Inr:
  assumes "fetch_artifact c m aid now check_expiry s = (Inr l, s')"
  shows "cloud_artifact_at c m (objects s) aid = Some l"
    "check_expiry \<longrightarrow> instant now < instant (sa_expires_at (la_record l))"
proof -
  from assms obtain s1 content r where steps: "read_artifact c m aid s = (Inr (r, content), s1)"
    "sa_artifact_id r = aid \<and> sa_size_bytes r = int (length content) \<and> sha256_hex content = sa_sha256 r"
    "l = \<lparr>la_record = r, la_png_bytes = content\<rparr>" "check_expiry \<longrightarrow> instant now < instant (sa_expires_at r)"
    unfolding fetch_artifact_def bind_Inr_iff catch_Inr_iff by (auto split: if_splits)
  obtain raw where "objects s (cloud_key c aid (lit ''json'')) = Some raw" "length raw \<le> ARTIFACT_METADATA_BYTES"
    "objects s (cloud_key c aid (lit ''png'')) = Some content" "length content \<le> m"
    "bindR (loads_bytes (cl_decode c) raw) parse_artifact = Inr r"
    by (rule read_artifact_Inr[OF steps(1)])
  then show "cloud_artifact_at c m (objects s) aid = Some l"
    using steps(2,3) by (simp add: cloud_artifact_at_def del: bindR_Inr_iff)
  show "check_expiry \<longrightarrow> instant now < instant (sa_expires_at (la_record l))"
    using steps(3,4) by simp
qed

lemma fetch_quiet:
  assumes "quiet s" "cloud_artifact_at c m (objects s) aid = Some l"
  shows "fst (fetch_artifact c m aid now check_expiry s) =
    (if check_expiry \<and> instant (sa_expires_at (la_record l)) \<le> instant now then Inl CompositionArtifactError else Inr l)"
proof -
  obtain raw content r where parts: "objects s (cloud_key c aid (lit ''json'')) = Some raw"
    "objects s (cloud_key c aid (lit ''png'')) = Some content" "length raw \<le> ARTIFACT_METADATA_BYTES" "length content \<le> m"
    "bindR (loads_bytes (cl_decode c) raw) parse_artifact = Inr r"
    "sa_artifact_id r = aid \<and> sa_size_bytes r = int (length content) \<and> sha256_hex content = sa_sha256 r"
    "l = \<lparr>la_record = r, la_png_bytes = content\<rparr>"
    using assms(2) unfolding cloud_artifact_at_def not_less[symmetric]
    by (auto simp del: bindR_Inr_iff split: option.splits sum.splits if_splits)
  then obtain s' where "read_artifact c m aid s = (Inr (r, content), s')"
    using read_artifact_quiet[OF assms(1)] by blast
  then show ?thesis
    using parts(6,7) by (simp add: fetch_artifact_def catch_eq bind_eq)
qed

lemma keeps_save:
  assumes "\<forall>suffix. k \<noteq> cloud_key c aid suffix"
  shows "keeps (\<lambda>s. P (objects s k)) (cloud_save_artifact c m aid png t)"
  unfolding cloud_save_artifact_def Let_def using assms
  by (intro keeps_intros keeps_put keeps_fetch[of "\<lambda>m. P (m k)"]) auto

lemma keeps_delete_artifact:
  assumes "\<forall>suffix. k \<noteq> cloud_key c aid suffix"
  shows "keeps (\<lambda>s. P (objects s k)) (cloud_delete_artifact c aid)"
  unfolding cloud_delete_artifact_def using assms by (intro keeps_intros keeps_delete) (auto simp: key_plain)

lemma artifact_document_length:
  assumes "is_utc t" "length png < 10 ^ 8"
  shows "length (json_bytes (artifact_document (artifact_record aid png t))) \<le> ARTIFACT_METADATA_BYTES"
proof -
  let ?n = "\<lambda>s. length (json_string True s)"
  have "?n (sha256_hex png) \<le> 770"
    using length_json_string[of "sha256_hex png"] is_sha256_hex[of png] by (simp add: is_sha256_def)
  moreover have "?n (uuid_str aid) \<le> 434"
    using length_json_string[of "uuid_str aid"] by (simp add: length_uuid_str)
  moreover have "?n (isoformat t) \<le> 386"
    using iso_length[OF assms(1)] length_json_string[of "isoformat t"] by simp
  moreover have "length (int_text (int (length png))) \<le> 8"
    using int_text_length[of _ 7] assms(2) by simp
  moreover have "?n (lit ''artifact_id'') \<le> 134" "?n (lit ''expires_at'') \<le> 122" "?n (lit ''sha256'') \<le> 74" "?n (lit ''size_bytes'') \<le> 122"
    using length_json_string[of "lit ''artifact_id''"] length_json_string[of "lit ''expires_at''"]
      length_json_string[of "lit ''sha256''"] length_json_string[of "lit ''size_bytes''"] by simp_all
  ultimately show ?thesis
    by (simp add: json_bytes_def artifact_document_def artifact_record_def ARTIFACT_METADATA_BYTES_def)
qed

lemma artifact_in_bucket:
  assumes "is_utc t" "in_range t" "length png \<le> m" "m < 10 ^ 8"
    "objs (cloud_key c aid (lit ''json'')) = Some (json_bytes (artifact_document (artifact_record aid png t)))"
    "objs (cloud_key c aid (lit ''png'')) = Some png"
  shows "cloud_artifact_at c m objs aid = Some \<lparr>la_record = artifact_record aid png t, la_png_bytes = png\<rparr>"
proof -
  let ?j = "artifact_document (artifact_record aid png t)"
  have "loads_bytes (cl_decode c) (json_bytes ?j) = Inr ?j"
    by (rule loads_json_bytes[OF readable_document])
  moreover have "parse_artifact ?j = Inr (artifact_record aid png t)"
    using assms(1,2) by (intro parse_artifact_document) (simp_all add: artifact_record_def)
  moreover have "length (json_bytes ?j) \<le> ARTIFACT_METADATA_BYTES"
    using artifact_document_length assms(1,3,4) by simp
  ultimately show ?thesis
    using assms(3,5,6) by (simp add: cloud_artifact_at_def artifact_record_def)
qed

text \<open>What was saved is in the bucket; a picture left without its document makes every later save fail.\<close>

lemma save_cases:
  assumes "cloud_save_artifact c m aid png t s = (Inr r, s')"
  obtains (same) "fetch_artifact c m aid t False s = (Inr \<lparr>la_record = artifact_record aid png t, la_png_bytes = png\<rparr>, s')"
      "r = artifact_record aid png t"
    | (new) s1 s2 where "objects s1 = objects s"
        "ob_put (cl_objects c) (cloud_key c aid (lit ''png'')) png (lit ''image/png'') True s1 = (Inr (), s2)"
        "ob_put (cl_objects c) (cloud_key c aid (lit ''json'')) (json_bytes (artifact_document (artifact_record aid png t)))
          (lit ''application/json'') True s2 = (Inr (), s')" "r = artifact_record aid png t"
proof -
  obtain g s1 where fetched: "fetch_artifact c m aid t False s = (g, s1)"
    by fastforce
  let ?r = "artifact_record aid png t"
  let ?puts = "catch
     (bind (ob_put (cl_objects c) (cloud_key c aid (lit ''png'')) png (lit ''image/png'') True) (\<lambda>_.
      bind (ob_put (cl_objects c) (cloud_key c aid (lit ''json'')) (json_bytes (artifact_document ?r))
        (lit ''application/json'') True) (\<lambda>_. return ?r)))
     (\<lambda>e. raise (if is_ObjectStorageError e \<or> e = FileExistsError then CompositionArtifactError else e)) s1 = (Inr r, s')"
  have save: "catch (bind (fetch_artifact c m aid t False) (\<lambda>existing.
        if la_record existing = ?r \<and> la_png_bytes existing = png then return ?r else raise CompositionArtifactError))
      (\<lambda>e. if e = CompositionArtifactError
         then catch
           (bind (ob_put (cl_objects c) (cloud_key c aid (lit ''png'')) png (lit ''image/png'') True) (\<lambda>_.
            bind (ob_put (cl_objects c) (cloud_key c aid (lit ''json'')) (json_bytes (artifact_document ?r))
              (lit ''application/json'') True) (\<lambda>_. return ?r)))
           (\<lambda>e. raise (if is_ObjectStorageError e \<or> e = FileExistsError then CompositionArtifactError else e))
         else raise e) s = (Inr r, s')"
    using assms by (simp add: cloud_save_artifact_def require_utc_def Let_def split: if_splits)
  have "g = Inr \<lparr>la_record = ?r, la_png_bytes = png\<rparr> \<and> s1 = s' \<and> r = ?r \<or> ?puts"
  proof (cases g)
    case (Inl e)
    then show ?thesis
      using save fetched by (simp add: catch_def bind_def split: if_splits)
  next
    case (Inr existing)
    have same: "existing = \<lparr>la_record = ?r, la_png_bytes = png\<rparr> \<longleftrightarrow> la_record existing = ?r \<and> la_png_bytes existing = png"
      by (cases existing) simp
    show ?thesis
      using save fetched Inr same
      by (cases "la_record existing = ?r \<and> la_png_bytes existing = png") (simp_all add: catch_def[of "bind (fetch_artifact _ _ _ _ _) _"] bind_def[of "fetch_artifact _ _ _ _ _"])
  qed
  then show thesis
  proof
    assume "g = Inr \<lparr>la_record = ?r, la_png_bytes = png\<rparr> \<and> s1 = s' \<and> r = ?r"
    then show thesis
      using same fetched by blast
  next
    assume ?puts
    then show thesis
      using new[OF fetch_frame[OF fetched]] by (auto simp: catch_Inr_iff bind_Inr_iff)
  qed
qed

lemma save_Inr:
  assumes "cloud_save_artifact c m aid png t s = (Inr r, s')" "in_range t" "m < 10 ^ 8"
  shows "r = artifact_record aid png t"
    "cloud_artifact_at c m (objects s') aid = Some \<lparr>la_record = artifact_record aid png t, la_png_bytes = png\<rparr>"
proof -
  have checked: "is_utc t" "length png \<le> m"
    using assms(1) by (auto simp: cloud_save_artifact_def require_utc_def split: if_splits)
  show "r = artifact_record aid png t"
    using assms(1) by (rule save_cases)
  show "cloud_artifact_at c m (objects s') aid = Some \<lparr>la_record = artifact_record aid png t, la_png_bytes = png\<rparr>"
    using assms(1)
  proof (rule save_cases)
    assume same: "fetch_artifact c m aid t False s = (Inr \<lparr>la_record = artifact_record aid png t, la_png_bytes = png\<rparr>, s')"
    then show ?thesis
      using fetch_Inr(1)[OF same] fetch_frame[OF same] by simp
  next
    fix s1 s2
    assume puts: "ob_put (cl_objects c) (cloud_key c aid (lit ''png'')) png (lit ''image/png'') True s1 = (Inr (), s2)"
        "ob_put (cl_objects c) (cloud_key c aid (lit ''json'')) (json_bytes (artifact_document (artifact_record aid png t)))
          (lit ''application/json'') True s2 = (Inr (), s')"
    show ?thesis
      using put[OF puts(1) key_plain] put[OF puts(2) key_plain] checked assms(2,3) by (intro artifact_in_bucket) auto
  qed
qed

lemma orphan_blocks_save:
  assumes "objects s (cloud_key c aid (lit ''png'')) = Some other" "objects s (cloud_key c aid (lit ''json'')) = None"
  shows "cloud_save_artifact c m aid png t s \<noteq> (Inr r, s')"
proof
  assume "cloud_save_artifact c m aid png t s = (Inr r, s')"
  then show False
  proof (rule save_cases)
    assume "fetch_artifact c m aid t False s = (Inr \<lparr>la_record = artifact_record aid png t, la_png_bytes = png\<rparr>, s')"
    from fetch_Inr(1)[OF this] show False
      using assms by (simp add: cloud_artifact_at_def)
  next
    fix s1 s2
    assume start: "objects s1 = objects s"
      and picture: "ob_put (cl_objects c) (cloud_key c aid (lit ''png'')) png (lit ''image/png'') True s1 = (Inr (), s2)"
    show False
      using put[OF picture key_plain] start assms(1) by auto
  qed
qed

lemma delete_removes_artifact:
  "cloud_delete_artifact c aid s = (Inr b, s') \<Longrightarrow> cloud_artifact_at c m (objects s') aid = None"
  using delete_Inr[of _ s _ s' "cloud_key c aid (lit ''json'')"]
  by (fastforce simp: cloud_delete_artifact_def bind_Inr_iff cloud_artifact_at_def key_plain split: option.splits)

end

end
