(* ===== verification/Cloud_Server.thy ===== *)
theory Cloud_Server
  imports Cloud_Objects Patterns
begin

section \<open>A server for the object storage\<close>

text \<open>
  A server that keeps the objects in a list under their percent-encoded names and answers the three requests
  as the service documents them. A request may be lost before it is carried out or stay unanswered after it,
  as a list in the state says; when the list is empty every request is answered. The client of
  \<open>Cloud_Objects\<close> on this server is the interpretation of the two locales, and the concrete runs of the
  stores take place on it.
\<close>

datatype (plugins only: code size) fault = Served | Lost | Unanswered

record cloud =
  cd_objects :: "(pystr \<times> bytes) list"
  cd_faults :: "fault list"

definition demo_bucket :: object_config where
  "demo_bucket = \<lparr>oc_base_url = lit ''https://storage.example'', oc_service_key = lit ''service-key'',
     oc_bucket = lit ''private''\<rparr>"

definition objects_url :: pystr where
  "objects_url = lit ''https://storage.example/storage/v1/object/private/''"

definition named_prefixes :: "bytes \<Rightarrow> pystr list" where
  "named_prefixes body = (case loads_bytes (\<lambda>_. Inl ValueError) body of
     Inr (JObj [(k, JArr js)]) \<Rightarrow> concat (map (\<lambda>j. case j of
       JStr s \<Rightarrow> (case quote [47] s of Inr name \<Rightarrow> [name] | Inl e \<Rightarrow> []) | _ \<Rightarrow> []) js)
   | _ \<Rightarrow> [])"

definition serve :: "http_request \<Rightarrow> (pystr \<times> bytes) list \<Rightarrow> http_outcome \<times> (pystr \<times> bytes) list" where
  "serve rq objs =
     (let name = drop (length objects_url) (rq_url rq) in
      if rq_method rq = ''POST'' then
        (if map_of (rq_headers rq) (lit ''x-upsert'') = Some (lit ''false'') \<and> map_of objs name \<noteq> None
         then (Refused 409 (Inr []), objs)
         else (Answered [], AList.update name (case rq_body rq of Some content \<Rightarrow> content | None \<Rightarrow> []) objs))
      else if rq_method rq = ''GET'' then
        (case map_of objs name of None \<Rightarrow> Refused 404 (Inr []) | Some content \<Rightarrow> Answered content, objs)
      else (case rq_body rq of
          None \<Rightarrow> (Refused 400 (Inr []), objs)
        | Some body \<Rightarrow> (Answered [], filter (\<lambda>(n, c). n \<notin> set (named_prefixes body)) objs)))"

definition serve_or_fail :: "http_request \<Rightarrow> cloud \<Rightarrow> http_outcome \<times> cloud" where
  "serve_or_fail rq d =
     (case serve rq (cd_objects d) of (out, objs) \<Rightarrow>
      case cd_faults d of
        [] \<Rightarrow> (out, d\<lparr>cd_objects := objs\<rparr>)
      | Served # fs \<Rightarrow> (out, d\<lparr>cd_objects := objs, cd_faults := fs\<rparr>)
      | Lost # fs \<Rightarrow> (Raised OSError, d\<lparr>cd_faults := fs\<rparr>)
      | Unanswered # fs \<Rightarrow> (Raised OSError, d\<lparr>cd_objects := objs, cd_faults := fs\<rparr>))"

definition storage_server :: "cloud remote" where
  "storage_server = \<lparr>rm_urlopen = serve_or_fail, rm_decode = (\<lambda>_. Inl ValueError),
     rm_casefold = uc_casefold basic_tables\<rparr>"

definition object_in :: "cloud \<Rightarrow> pystr \<Rightarrow> bytes option" where
  "object_in d key = (if list_all plain_char key
     then (case quote [47] key of Inr name \<Rightarrow> map_of (cd_objects d) name | Inl e \<Rightarrow> None) else None)"

lemma object_path_demo: "list_all plain_char key \<Longrightarrow> object_path demo_bucket key = Inr path \<longleftrightarrow>
    (\<exists>name. quote [47] key = Inr name \<and> path = lit ''/object/private/'' @ name)"
proof -
  have "quote [] (oc_bucket demo_bucket) = Inr (lit ''private'')"
    by (simp add: demo_bucket_def quote_def encode_utf8_def lit_def is_surrogate_def utf8_char_def quote_byte_def
        is_unreserved_def is_lower_def)
  then show ?thesis
    by (auto simp: object_path_def lit_def)
qed

lemma object_url_demo: "storage_url demo_bucket (lit ''/object/private/'' @ name) = objects_url @ name"
  by (simp add: storage_url_def demo_bucket_def objects_url_def lit_def)

lemma quoted_key: "list_all plain_char k \<Longrightarrow> list_all plain_char key \<Longrightarrow> quote [47] k = Inr n \<Longrightarrow>
    quote [47] key = Inr n \<Longrightarrow> k = key"
  by (rule quote_inj[of "[47]"]) simp_all

lemma object_in_update:
  assumes "list_all plain_char key" "quote [47] key = Inr name" "cd_objects d' = AList.update name content (cd_objects d)"
  shows "object_in d' = (object_in d)(key \<mapsto> content)"
proof
  fix k
  show "object_in d' k = ((object_in d)(key \<mapsto> content)) k"
  proof (cases "k = key")
    case True
    then show ?thesis
      using assms by (simp add: object_in_def update_conv')
  next
    case False
    then have "n \<noteq> name" if "list_all plain_char k" "quote [47] k = Inr n" for n
      using quoted_key[OF that(1) assms(1)] that(2) assms(2) by blast
    with False show ?thesis
      using assms(3) by (simp add: object_in_def update_conv' split: sum.split)
  qed
qed

lemma object_in_cong: "cd_objects d' = cd_objects d \<Longrightarrow> object_in d' = object_in d"
  by (auto simp: object_in_def fun_eq_iff split: sum.splits)

lemma named_prefixes_json:
  assumes "list_all (list_all plain_char) keys"
  shows "set (named_prefixes (json_bytes (prefixes_json keys))) = {n. \<exists>k \<in> set keys. quote [47] k = Inr n}"
proof -
  have "readable (prefixes_json keys)"
    using assms by (auto simp: prefixes_json_def list_all_iff lit_def plain_char_def is_surrogate_def)
  then have "loads_bytes (\<lambda>_. Inl ValueError) (json_bytes (prefixes_json keys)) = Inr (prefixes_json keys)"
    by (rule loads_json_bytes)
  then show ?thesis
    by (auto simp: named_prefixes_def prefixes_json_def split: sum.splits)
qed

lemma map_of_filtered: "map_of (filter (\<lambda>(n, c). n \<notin> A) objs) name = (if name \<in> A then None else map_of objs name)"
  by (induction objs) auto

lemma object_in_filter:
  assumes "list_all (list_all plain_char) keys"
    "cd_objects d' = filter (\<lambda>(n, c). n \<notin> set (named_prefixes (json_bytes (prefixes_json keys)))) (cd_objects d)"
  shows "object_in d' k = (if k \<in> set keys then None else object_in d k)"
proof (cases "list_all plain_char k")
  case True
  then obtain name where name: "quote [47] k = Inr name"
    using quote_Inr by blast
  have "k \<in> set keys \<longleftrightarrow> name \<in> {n. \<exists>k \<in> set keys. quote [47] k = Inr n}"
    using quoted_key[OF True _ name] name assms(1) unfolding list_all_iff by blast
  moreover have "map_of (cd_objects d') name = (if name \<in> {n. \<exists>k \<in> set keys. quote [47] k = Inr n}
      then None else map_of (cd_objects d) name)"
    unfolding assms(2) map_of_filtered named_prefixes_json[OF assms(1)] by (rule refl)
  ultimately show ?thesis
    using True name by (simp add: object_in_def)
next
  case False
  then show ?thesis
    by (simp add: object_in_def)
qed

lemma missing_answer: "reports_missing storage_server 404 (Inr []) = Inr True"
  by (simp add: reports_missing_def error_detail_def loads_bytes_def loads_def skip_space_def ascii_text_def
      reported_def is_ValueError_def storage_server_def)

lemma served_cases:
  assumes "rm_urlopen storage_server rq s = (out, s')" "serve rq (cd_objects s) = (answer, objs)"
  shows "out = answer \<and> cd_objects s' = objs \<or> out = Raised OSError \<and> cd_objects s' \<in> {cd_objects s, objs}"
    "cd_faults s = [] \<Longrightarrow> out = answer \<and> cd_objects s' = objs \<and> cd_faults s' = []"
  using assms by (auto simp: storage_server_def serve_or_fail_def split: list.splits fault.splits)

interpretation demo_service: storage_service storage_server demo_bucket object_in "\<lambda>d. cd_faults d = []"
proof unfold_locales
  fix bs e
  show "is_ValueError e" if "rm_decode storage_server bs = Inl e"
    using that by (simp add: storage_server_def is_ValueError_def)
next
  fix rq s out s' e code
  assume "rm_urlopen storage_server rq s = (out, s')" "out = Raised e \<or> out = Refused code (Inl e)"
  then show "\<not> is_ObjectStorageError e"
    by (auto simp: storage_server_def serve_or_fail_def serve_def Let_def is_ObjectStorageError_def
        split: list.splits fault.splits prod.splits if_splits option.splits)
next
  fix rq s out s' key path content upsert
  assume run: "rm_urlopen storage_server rq s = (out, s')" and rq: "rq_method rq = ''POST''" "list_all plain_char key"
    "object_path demo_bucket key = Inr path" "rq_url rq = storage_url demo_bucket path" "rq_body rq = Some content"
    "map_of (rq_headers rq) (lit ''x-upsert'') = Some upsert"
  obtain name where name: "quote [47] key = Inr name" "rq_url rq = objects_url @ name"
    using rq(2-4) object_path_demo object_url_demo by auto
  let ?refused = "upsert = lit ''false'' \<and> map_of (cd_objects s) name \<noteq> None"
  have served: "serve rq (cd_objects s) = (if ?refused then Refused 409 (Inr []) else Answered [],
      if ?refused then cd_objects s else AList.update name content (cd_objects s))"
    by (cases "map_of (cd_objects s) name") (simp_all add: serve_def name(2) rq(1,5,6))
  have held: "object_in s key = map_of (cd_objects s) name"
    using rq(2) name(1) by (simp add: object_in_def)
  have "cd_objects s' = cd_objects s \<and> (\<forall>body. out \<noteq> Answered body)
      \<or> cd_objects s' = AList.update name content (cd_objects s) \<and> \<not> ?refused"
    using served_cases(1)[OF run served] by (cases ?refused) auto
  then show "object_in s' = object_in s \<and> (\<forall>body. out \<noteq> Answered body)
      \<or> object_in s' = (object_in s)(key \<mapsto> content) \<and> (upsert = lit ''false'' \<longrightarrow> object_in s key = None)"
  proof (elim disjE conjE)
    assume "cd_objects s' = cd_objects s" "\<forall>body. out \<noteq> Answered body"
    then show ?thesis
      using object_in_cong by blast
  next
    assume "cd_objects s' = AList.update name content (cd_objects s)" "\<not> ?refused"
    then have "object_in s' = (object_in s)(key \<mapsto> content)" "upsert = lit ''false'' \<longrightarrow> object_in s key = None"
      using object_in_update[OF rq(2) name(1)] held by auto
    then show ?thesis
      by blast
  qed
next
  fix rq s out s' key path
  assume run: "rm_urlopen storage_server rq s = (out, s')" and rq: "rq_method rq = ''GET''" "list_all plain_char key"
    "object_path demo_bucket key = Inr path" "rq_url rq = storage_url demo_bucket path"
  obtain name where name: "quote [47] key = Inr name" "rq_url rq = objects_url @ name"
    using rq(2-4) object_path_demo object_url_demo by auto
  have served: "serve rq (cd_objects s) = (case object_in s key of
      None \<Rightarrow> Refused 404 (Inr []) | Some content \<Rightarrow> Answered content, cd_objects s)"
    using rq(1,2) by (simp add: serve_def name object_in_def)
  have "cd_objects s' = cd_objects s" "out = Raised OSError \<or>
      out = (case object_in s key of None \<Rightarrow> Refused 404 (Inr []) | Some content \<Rightarrow> Answered content)"
    using served_cases(1)[OF run served] by auto
  then show "object_in s' = object_in s \<and> (\<forall>body. out = Answered body \<longrightarrow> object_in s key = Some body)
      \<and> (\<forall>code body. out = Refused code body \<longrightarrow> reports_missing storage_server code body = Inr True \<longrightarrow> object_in s key = None)"
    using object_in_cong[of s' s] by (cases "object_in s key") auto
  assume "cd_faults s = []"
  then show "cd_faults s' = [] \<and> (case object_in s key of Some body \<Rightarrow> out = Answered body
      | None \<Rightarrow> \<exists>code body. out = Refused code body \<and> reports_missing storage_server code body = Inr True)"
    using served_cases(2)[OF run served] missing_answer by (cases "object_in s key") auto
next
  show "list_all plain_char (oc_bucket demo_bucket)"
    by (simp add: demo_bucket_def lit_def plain_char_def is_surrogate_def)
next
  fix rq s out s' bucket keys
  assume run: "rm_urlopen storage_server rq s = (out, s')" and rq: "rq_method rq = ''DELETE''"
    "list_all (list_all plain_char) keys" "rq_body rq = Some (json_bytes (prefixes_json keys))"
  let ?rest = "filter (\<lambda>(n, c). n \<notin> set (named_prefixes (json_bytes (prefixes_json keys)))) (cd_objects s)"
  have served: "serve rq (cd_objects s) = (Answered [], ?rest)"
    using rq by (simp add: serve_def)
  have "cd_objects s' = cd_objects s \<and> (\<forall>body. out \<noteq> Answered body) \<or> cd_objects s' = ?rest"
    using served_cases(1)[OF run served] by auto
  then have "(\<forall>k. object_in s' k = object_in s k) \<and> (\<forall>body. out \<noteq> Answered body)
      \<or> (\<forall>k. object_in s' k = (if k \<in> set keys then None else object_in s k))"
    using object_in_cong[of s' s] object_in_filter[OF rq(2), of s' s] by metis
  then show "(\<forall>k. object_in s' k = object_in s k \<or> k \<in> set keys \<and> object_in s' k = None)
      \<and> (\<forall>body. out = Answered body \<longrightarrow> (\<forall>k \<in> set keys. object_in s' k = None))"
    by (metis (full_types))
qed

subsection \<open>Answered requests\<close>

text \<open>On a server without faults an upload under a free name and a removal are carried out.\<close>

lemma demo_put:
  assumes "cd_faults d = []" "list_all plain_char key" "object_in d key = None"
  obtains d' where "put_object storage_server demo_bucket key content content_type create_only d = (Inr (), d')"
    "object_in d' = (object_in d)(key \<mapsto> content)" "cd_faults d' = []"
proof -
  obtain name where name: "quote [47] key = Inr name"
    using quote_Inr[OF assms(2)] by blast
  then have path: "object_path demo_bucket key = Inr (lit ''/object/private/'' @ name)"
    using object_path_demo[OF assms(2)] by simp
  let ?rq = "make_request demo_bucket ''POST'' (lit ''/object/private/'' @ name) (Some content)
    [(lit ''Content-Type'', content_type), (lit ''x-upsert'', lit (if create_only then ''false'' else ''true''))]"
  have free: "map_of (cd_objects d) name = None"
    using assms(2,3) name by (simp add: object_in_def)
  have "serve ?rq (cd_objects d) = (Answered [], AList.update name content (cd_objects d))"
    using free by (simp add: serve_def object_url_demo)
  then have run: "rm_urlopen storage_server ?rq d = (Answered [], d\<lparr>cd_objects := AList.update name content (cd_objects d)\<rparr>)"
    using assms(1) by (simp add: storage_server_def serve_or_fail_def)
  show thesis
  proof (rule that)
    show "put_object storage_server demo_bucket key content content_type create_only d
        = (Inr (), d\<lparr>cd_objects := AList.update name content (cd_objects d)\<rparr>)"
      using run by (simp add: put_object_def path bind_def object_request_def request_result_def)
    show "object_in (d\<lparr>cd_objects := AList.update name content (cd_objects d)\<rparr>) = (object_in d)(key \<mapsto> content)"
      using assms(2) name by (intro object_in_update) simp_all
  qed (simp add: assms(1))
qed

lemma demo_delete:
  assumes "cd_faults d = []" "keys \<noteq> []"
  shows "\<exists>d'. delete_objects storage_server demo_bucket keys d = (Inr (length keys), d')"
proof -
  let ?rq = "make_request demo_bucket ''DELETE'' (lit ''/object/private'')
    (Some (json_bytes (JObj [(lit ''prefixes'', JArr (map JStr keys))]))) json_headers"
  have "quote [] (oc_bucket demo_bucket) = Inr (lit ''private'')"
    by (simp add: demo_bucket_def quote_def encode_utf8_def lit_def is_surrogate_def utf8_char_def quote_byte_def
        is_unreserved_def is_lower_def)
  moreover have "\<exists>d'. rm_urlopen storage_server ?rq d = (Answered [], d')"
    using assms(1) by (simp add: storage_server_def serve_or_fail_def serve_def)
  moreover have "lit ''/object/'' @ lit ''private'' = lit ''/object/private''"
    by (simp add: lit_def)
  ultimately show ?thesis
    using assms(2) by (auto simp: delete_objects_def bind_def object_request_def request_result_def)
qed

end
