(* ===== verification/Cloud_Properties.thy ===== *)
theory Cloud_Properties
  imports Cloud_Assets Cloud_Server
begin

section \<open>What holds of the stores in the object storage\<close>

text \<open>
  The properties of the object storage's client and of the two stores on it, for every service that keeps the
  laws of \<open>storage_service\<close>, every sequence of other calls and every pattern of failed requests, with runs
  on the server of \<open>Cloud_Server\<close>.
\<close>

subsection \<open>The stores on the client\<close>

lemma cloud_on_service:
  assumes "storage_service net oc objects quiet" "list_all plain_char prefix"
  shows "cloud (make_cloud_store (supabase net oc) prefix decode) objects quiet"
proof (rule cloud.intro)
  show "object_bucket (cl_objects (make_cloud_store (supabase net oc) prefix decode)) objects quiet"
    using storage_service.is_bucket[OF assms(1)] by (simp add: make_cloud_store_def)
  have "set (strip_by ((=) 47) prefix) \<subseteq> set prefix"
    by (rule strip_by_subset)
  then have "list_all plain_char (strip_by ((=) 47) prefix)"
    using assms(2) by (auto simp: list_all_iff)
  then show "cloud_axioms (make_cloud_store (supabase net oc) prefix decode)"
    by (intro cloud_axioms.intro) (simp add: make_cloud_store_def plain_char_def is_surrogate_def)
qed

lemma plain_prefixes: "list_all plain_char (lit ''source-assets/'')" "list_all plain_char (lit ''compositions/'')"
  by (simp_all add: lit_def plain_char_def is_surrogate_def)

definition demo_assets :: "cloud cloud_store" where
  "demo_assets = make_cloud_store (supabase storage_server demo_bucket) (lit ''source-assets/'') (\<lambda>_. Inl ValueError)"

definition demo_compositions :: "cloud cloud_store" where
  "demo_compositions = make_cloud_store (supabase storage_server demo_bucket) (lit ''compositions/'') (\<lambda>_. Inl ValueError)"

interpretation demo_assets: cloud demo_assets object_in "\<lambda>d. cd_faults d = []"
  unfolding demo_assets_def by (intro cloud_on_service demo_service.storage_service_axioms plain_prefixes)

interpretation demo_compositions: cloud demo_compositions object_in "\<lambda>d. cd_faults d = []"
  unfolding demo_compositions_def by (intro cloud_on_service demo_service.storage_service_axioms plain_prefixes)

subsection \<open>Sequences of calls\<close>

datatype (plugins only: code size) cloud_call =
    Cloud_Store uuid bytes pystr pystr pystr datetime
  | Cloud_Load uuid datetime
  | Cloud_Delete uuid pystr datetime
  | Cloud_Purge datetime

fun after_cloud_call :: "'s cloud_store \<Rightarrow> pydantic \<Rightarrow> cloud_call \<Rightarrow> 's \<Rightarrow> 's" where
  "after_cloud_call c py (Cloud_Store aid data declared p r now) s = snd (cloud_store_asset c py aid data declared p r now s)"
| "after_cloud_call c py (Cloud_Load aid now) s = snd (cloud_load_asset c py aid now s)"
| "after_cloud_call c py (Cloud_Delete aid reason now) s = snd (cloud_delete_asset c aid reason now s)"
| "after_cloud_call c py (Cloud_Purge now) s = snd (cloud_purge_expired c now s)"

fun changes_asset :: "uuid \<Rightarrow> cloud_call \<Rightarrow> bool" where
  "changes_asset aid (Cloud_Store b data declared p r now) \<longleftrightarrow> b = aid"
| "changes_asset aid (Cloud_Load b now) \<longleftrightarrow> False"
| "changes_asset aid (Cloud_Delete b reason now) \<longleftrightarrow> b = aid"
| "changes_asset aid (Cloud_Purge now) \<longleftrightarrow> False"

datatype (plugins only: code size) cloud_artifact_call =
    Cloud_Save uuid bytes datetime
  | Cloud_Fetch uuid datetime
  | Cloud_Remove uuid

fun after_artifact_call :: "'s cloud_store \<Rightarrow> nat \<Rightarrow> cloud_artifact_call \<Rightarrow> 's \<Rightarrow> 's" where
  "after_artifact_call c m (Cloud_Save aid png t) s = snd (cloud_save_artifact c m aid png t s)"
| "after_artifact_call c m (Cloud_Fetch aid now) s = snd (cloud_load_artifact c m aid now s)"
| "after_artifact_call c m (Cloud_Remove aid) s = snd (cloud_delete_artifact c aid s)"

fun changes_artifact :: "uuid \<Rightarrow> cloud_artifact_call \<Rightarrow> bool" where
  "changes_artifact aid (Cloud_Save b png t) \<longleftrightarrow> b = aid"
| "changes_artifact aid (Cloud_Fetch b now) \<longleftrightarrow> False"
| "changes_artifact aid (Cloud_Remove b) \<longleftrightarrow> b = aid"

context cloud
begin

lemma call_keeps:
  assumes "P (objects s k)" "\<not> changes_asset aid call \<and> (\<exists>x. k = cloud_key c aid x) \<or> k = closed_key c aid \<and> (\<forall>v. P (Some v))"
  shows "P (objects (after_cloud_call c py call s) k)"
proof (cases call)
  case (Cloud_Store b data declared p r now)
  then have "(\<forall>suffix. k \<noteq> cloud_key c b suffix) \<or> k = closed_key c aid \<and> (\<forall>v. P (Some v))"
    using assms(2) by auto
  from keeps_store[OF this] show ?thesis
    using Cloud_Store assms(1) by (simp add: keeps_def)
next
  case (Cloud_Load b now)
  then show ?thesis
    using keeps_load[of "\<lambda>m. P (m k)"] assms(1) by (simp add: keeps_def)
next
  case (Cloud_Delete b reason now)
  then have "(\<forall>suffix. k \<noteq> cloud_key c b suffix) \<or> k = closed_key c aid \<and> (\<forall>v. P (Some v))"
    using assms(2) by auto
  from keeps_delete_asset[OF this] show ?thesis
    using Cloud_Delete assms(1) by (simp add: keeps_def)
next
  case (Cloud_Purge now)
  then show ?thesis
    using assms(1) by (simp add: cloud_purge_expired_def split: sum.split)
qed

lemma calls_keep:
  assumes "P (objects s k)"
    "(\<forall>call \<in> set calls. \<not> changes_asset aid call) \<and> (\<exists>x. k = cloud_key c aid x) \<or> k = closed_key c aid \<and> (\<forall>v. P (Some v))"
  shows "P (objects (fold (after_cloud_call c py) calls s) k)"
  using assms
proof (induction calls arbitrary: s)
  case (Cons call calls)
  have "P (objects (after_cloud_call c py call s) k)"
    by (rule call_keeps[where aid = aid]) (use Cons.prems in auto)
  from Cons.IH[OF this] Cons.prems(2) show ?case
    by auto
qed simp

lemma artifact_call_keeps:
  assumes "\<not> changes_artifact aid call"
  shows "objects (after_artifact_call c m call s) (cloud_key c aid x) = objects s (cloud_key c aid x)"
proof (cases call)
  case (Cloud_Save b png t)
  then have "\<forall>suffix. cloud_key c aid x \<noteq> cloud_key c b suffix"
    using assms by auto
  from keeps_save[OF this, of "\<lambda>v. v = objects s (cloud_key c aid x)"] show ?thesis
    using Cloud_Save by (simp add: keeps_def)
next
  case (Cloud_Fetch b now)
  have "objects (snd (fetch_artifact c m b u True s)) = objects s" for u
    using fetch_frame by (metis prod.collapse)
  then show ?thesis
    using Cloud_Fetch by (simp add: cloud_load_artifact_def split: sum.split)
next
  case (Cloud_Remove b)
  then have "\<forall>suffix. cloud_key c aid x \<noteq> cloud_key c b suffix"
    using assms by auto
  from keeps_delete_artifact[OF this, of "\<lambda>v. v = objects s (cloud_key c aid x)"] show ?thesis
    using Cloud_Remove by (simp add: keeps_def)
qed

lemma artifact_calls_keep:
  "\<forall>call \<in> set calls. \<not> changes_artifact aid call \<Longrightarrow>
     objects (fold (after_artifact_call c m) calls s) (cloud_key c aid x) = objects s (cloud_key c aid x)"
  by (induction calls arbitrary: s) (simp_all add: artifact_call_keeps)

lemma get_absent:
  assumes "quiet s" "list_all plain_char suffix" "objects s (cloud_key c aid suffix) = None"
  obtains s' where "ob_get (cl_objects c) (cloud_key c aid suffix) limit s = (Inl ObjectNotFoundError, s')"
    "objects s' = objects s" "quiet s'"
proof -
  obtain g s' where run: "ob_get (cl_objects c) (cloud_key c aid suffix) limit s = (g, s')"
    by fastforce
  then show thesis
    using get_quiet[OF assms(1) key_plain[OF assms(2)] run] get_frame[OF run key_plain[OF assms(2)]] assms(3) that
    by simp
qed

text \<open>A tombstone closes the asset to loads and to uploads.\<close>

lemma closed_for_ever:
  assumes "objects s (closed_key c aid) \<noteq> None"
  shows "(\<forall>l. fst (cloud_load_asset c py aid now s) \<noteq> Inr l)
    \<and> (\<forall>st. fst (cloud_store_asset c py aid data declared p r now s) \<noteq> Inr st)"
proof (intro conjI allI notI)
  fix l assume "fst (cloud_load_asset c py aid now s) = Inr l"
  then have "cloud_load_asset c py aid now s = (Inr l, snd (cloud_load_asset c py aid now s))"
    by (metis prod.collapse)
  from load_Inr[OF this] assms show False
    by blast
next
  fix st assume "fst (cloud_store_asset c py aid data declared p r now s) = Inr st"
  then have "cloud_store_asset c py aid data declared p r now s = (Inr st, snd (cloud_store_asset c py aid data declared p r now s))"
    by (metis prod.collapse)
  then show False
    by (rule store_Inr) (use assms in blast)
qed

text \<open>An upload is in the bucket.\<close>

lemma stored_in_bucket:
  assumes "cloud_store_asset c py aid data declared p r created s = (Inr st, s')" "pydantic_laws py"
    "in_range created" "in_range (dt_add created ASSET_TTL)"
    "objs (cloud_key c aid (lit ''png'')) = objects s' (cloud_key c aid (lit ''png''))"
    "objs (cloud_key c aid (lit ''jpg'')) = objects s' (cloud_key c aid (lit ''jpg''))"
    "objs (meta_key c aid) = objects s' (meta_key c aid)"
  shows "cloud_asset_at c py objs aid = Some (\<lparr>ld_asset = sd_asset st, ld_content = data\<rparr>, created)"
proof -
  obtain extension where store: "prepare_asset aid data declared p r created = Inr (st, extension)"
    "objects s' = (objects s)(cloud_key c aid extension \<mapsto> data, meta_key c aid \<mapsto> json_bytes (metadata_json py st))"
    using store_Inr[OF assms(1)] by metis
  note prepared = prepare_asset_Inr[OF store(1)]
  have valid: "valid_source_ad_asset_ref (sd_asset st)"
    using prepared(5) by (auto simp: make_source_ad_asset_ref_def Let_def split: if_splits)
  have kind: "as_media_type (sd_asset st) \<in> {image_png, image_jpeg}"
    using detected_types[OF prepared(1)] prepared(7) by simp
  have expires: "\<forall>t. as_expires_at (sd_asset st) = Some t \<longrightarrow> in_range t"
    using prepared(9) assms(4) by simp
  have size: "sd_size_bytes st = int (length data)" "sd_created_at st = created"
    by (subst prepared(4), simp)+
  have "length (metadata_bytes py st) \<le> MAX_METADATA_BYTES"
    using metadata_length[OF assms(2) valid kind expires] prepared(3,11) size by (simp add: MAX_ASSET_BYTES_def)
  then have short: "length (json_bytes (metadata_json py st)) \<le> MAX_METADATA_BYTES"
    by (simp add: metadata_bytes_def)
  have parsed: "parse_cloud_metadata (cl_decode c) py (json_bytes (metadata_json py st))
      = Inr (sd_asset st, created, JInt (int (length data)))"
    using validate_asset_json[OF assms(2) prepared(5) expires] fromisoformat_isoformat[OF prepared(3) assms(3)] prepared(3)
    unfolding parse_cloud_metadata_def loads_json_bytes[OF readable_metadata[OF assms(2) valid kind expires]]
    by (simp add: metadata_json_def member_def time_value_def require_utc_time_def size del: bindR_Inr_iff)
  have "extension = lit ''png'' \<or> extension = lit ''jpg''"
    using prepared(2) by (auto simp: extension_of_def split: if_splits)
  then have "objs (cloud_key c aid extension) = Some data" "objs (meta_key c aid) = Some (json_bytes (metadata_json py st))"
    using assms(5-7) store(2) by auto
  then show ?thesis
    using short parsed prepared(2,6-9,11) by (simp add: cloud_asset_at_def integer_of_def)
qed

end

subsection \<open>Properties\<close>

text \<open>
  C20. \<open>SupabaseObjectStore\<close> implements a map from keys to bytes on any service that keeps its documented
  laws: an upload that answers has bound exactly the key to exactly the bytes, without \<open>x-upsert\<close> only when
  the key was free, and one that fails has done so or nothing; a download never changes the map, answers the
  whole object within its limit or an error, and says \<open>ObjectNotFoundError\<close> only when the key is free; a
  removal that answers has removed every key, and none ever touches another key. Percent encoding therefore
  never confuses two keys.
\<close>

theorem supabase_refines_bucket:
  assumes "storage_service net oc objects quiet" "list_all plain_char key" "list_all (list_all plain_char) keys"
  shows "(case put_object net oc key content content_type create_only s of (r, s') \<Rightarrow>
      objects s' = objects s \<and> r \<noteq> Inr ()
      \<or> objects s' = (objects s)(key \<mapsto> content) \<and> (create_only \<longrightarrow> objects s key = None))
    \<and> (case get_object net oc key limit s of (g, s') \<Rightarrow>
      objects s' = objects s
      \<and> (\<forall>body. g = Inr body \<longrightarrow> objects s key = Some body \<and> length body \<le> limit)
      \<and> (g = Inl ObjectNotFoundError \<longrightarrow> objects s key = None)
      \<and> (quiet s \<longrightarrow> g = (case objects s key of None \<Rightarrow> Inl ObjectNotFoundError
          | Some body \<Rightarrow> if length body \<le> limit then Inr body else Inl ObjectStorageError)))
    \<and> (case delete_objects net oc keys s of (n, s') \<Rightarrow>
      (\<forall>k. objects s' k = objects s k \<or> k \<in> set keys \<and> objects s' k = None)
      \<and> (\<forall>c. n = Inr c \<longrightarrow> (\<forall>k \<in> set keys. objects s' k = None)))"
proof (intro conjI)
  note bucket = storage_service.is_bucket[OF assms(1)]
  have ops: "ob_put (supabase net oc) = put_object net oc" "ob_get (supabase net oc) = get_object net oc"
    "ob_delete (supabase net oc) = delete_objects net oc"
    by (simp_all add: supabase_def)
  note put = object_bucket.put[OF bucket, unfolded ops, OF _ assms(2)]
  note get = object_bucket.get_frame[OF bucket, unfolded ops, OF _ assms(2)]
    object_bucket.get_Inr[OF bucket, unfolded ops, OF _ assms(2)] object_bucket.get_missing[OF bucket, unfolded ops, OF _ assms(2)]
    object_bucket.get_quiet[OF bucket, unfolded ops, OF _ assms(2)]
  note delete = object_bucket.delete_frame[OF bucket, unfolded ops, OF _ assms(3)]
    object_bucket.delete_Inr[OF bucket, unfolded ops, OF _ assms(3)]
  show "case put_object net oc key content content_type create_only s of (r, s') \<Rightarrow>
      objects s' = objects s \<and> r \<noteq> Inr ()
      \<or> objects s' = (objects s)(key \<mapsto> content) \<and> (create_only \<longrightarrow> objects s key = None)"
    using put by (auto split: prod.split)
  show "case get_object net oc key limit s of (g, s') \<Rightarrow>
      objects s' = objects s
      \<and> (\<forall>body. g = Inr body \<longrightarrow> objects s key = Some body \<and> length body \<le> limit)
      \<and> (g = Inl ObjectNotFoundError \<longrightarrow> objects s key = None)
      \<and> (quiet s \<longrightarrow> g = (case objects s key of None \<Rightarrow> Inl ObjectNotFoundError
          | Some body \<Rightarrow> if length body \<le> limit then Inr body else Inl ObjectStorageError))"
    using get by (auto split: prod.split)
  show "case delete_objects net oc keys s of (n, s') \<Rightarrow>
      (\<forall>k. objects s' k = objects s k \<or> k \<in> set keys \<and> objects s' k = None)
      \<and> (\<forall>c. n = Inr c \<longrightarrow> (\<forall>k \<in> set keys. objects s' k = None))"
    using delete by (auto split: prod.split)
qed

text \<open>
  C21. What was uploaded to the object storage is what is loaded: after a \<open>store\<close> that answered, and after any
  calls that do not write the asset, with any of their requests failing, a load on a service that is not
  disturbed answers the recorded reference and the same bytes for 24 hours and
  \<open>AssetLifecycleClosedError\<close> from then on.
\<close>

theorem cloud_asset_loads:
  assumes "storage_service net oc objects quiet" "list_all plain_char prefix"
    "c = make_cloud_store (supabase net oc) prefix decode"
    "cloud_store_asset c py aid data declared provenance rights created s = (Inr st, s1)"
    "pydantic_laws py" "in_range created" "in_range (dt_add created ASSET_TTL)"
    "\<forall>call \<in> set calls. \<not> changes_asset aid call" "s2 = fold (after_cloud_call c py) calls s1" "quiet s2"
    "is_utc now" "instant created \<le> instant now"
  shows "fst (cloud_load_asset c py aid now s2) =
    (if instant now < instant created + hours 24 then Inr \<lparr>ld_asset = sd_asset st, ld_content = data\<rparr>
     else Inl AssetLifecycleClosedError)"
proof -
  have cloud: "cloud c objects quiet"
    using cloud_on_service[OF assms(1,2)] assms(3) by simp
  obtain extension where store: "prepare_asset aid data declared provenance rights created = Inr (st, extension)"
    "objects s (closed_key c aid) = None"
    "objects s1 = (objects s)(cloud_key c aid extension \<mapsto> data, meta_key c aid \<mapsto> json_bytes (metadata_json py st))"
    by (rule cloud.store_Inr[OF cloud assms(4)])
  have same: "objects s2 (cloud_key c aid x) = objects s1 (cloud_key c aid x)" for x
    using cloud.calls_keep[OF cloud, of "\<lambda>v. v = objects s1 (cloud_key c aid x)" s1 _ calls aid py] assms(8,9) by auto
  have "extension \<noteq> lit ''deleted.json''"
    using extension_suffix[OF prepare_asset_Inr(2)[OF store(1)]] by simp
  then have open_still: "objects s2 (closed_key c aid) = None"
    using store(2,3) by (simp add: same)
  have "has_expired (sd_asset st) now \<longleftrightarrow> \<not> instant now < instant created + hours 24"
    using prepare_asset_Inr(9)[OF store(1)] by (auto simp: has_expired_def ASSET_TTL_def)
  then show ?thesis
    using cloud.load_quiet[OF cloud assms(10) open_still cloud.stored_in_bucket[OF cloud assms(4-7) same same same] assms(11,12)]
    by simp
qed

text \<open>
  C22. A deletion from the object storage is final: once it has answered, no sequence of calls, uploads and
  deletions of the same identifier and purges included, and no failed request makes the asset readable or
  lets it be uploaded again.
\<close>

theorem cloud_deletion_is_final:
  assumes "storage_service net oc objects quiet" "list_all plain_char prefix"
    "c = make_cloud_store (supabase net oc) prefix decode"
    "cloud_delete_asset c aid reason deleted s = (Inr existed, s1)"
    "s2 = fold (after_cloud_call c py) calls s1"
  shows "(\<forall>l. fst (cloud_load_asset c py aid now s2) \<noteq> Inr l)
    \<and> (\<forall>st. fst (cloud_store_asset c py aid data declared provenance rights now s2) \<noteq> Inr st)"
proof -
  have cloud: "cloud c objects quiet"
    using cloud_on_service[OF assms(1,2)] assms(3) by simp
  have "objects s2 (closed_key c aid) \<noteq> None"
    unfolding assms(5) using cloud.delete_asset_Inr(1)[OF cloud assms(4)]
    by (intro cloud.calls_keep[OF cloud, where P = "\<lambda>v. v \<noteq> None" and aid = aid]) auto
  then show ?thesis
    by (rule cloud.closed_for_ever[OF cloud])
qed

text \<open>
  A composition saved to the object storage is what is loaded: after a \<open>save\<close> that answered, and after any
  calls on other artifacts with any of their requests failing, a load on an undisturbed service answers the
  record with the digest and size of exactly the saved bytes until it expires, and
  \<open>CompositionArtifactError\<close> from then on.
\<close>

theorem cloud_artifact_loads:
  assumes "storage_service net oc objects quiet" "list_all plain_char prefix"
    "c = make_cloud_store (supabase net oc) prefix decode" "m < 10 ^ 8"
    "cloud_save_artifact c m aid png expires s = (Inr r, s1)" "in_range expires"
    "\<forall>call \<in> set calls. \<not> changes_artifact aid call" "s2 = fold (after_artifact_call c m) calls s1" "quiet s2" "is_utc now"
  shows "r = artifact_record aid png expires
    \<and> fst (cloud_load_artifact c m aid now s2) =
      (if instant now < instant expires then Inr \<lparr>la_record = r, la_png_bytes = png\<rparr> else Inl CompositionArtifactError)"
proof -
  have cloud: "cloud c objects quiet"
    using cloud_on_service[OF assms(1,2)] assms(3) by simp
  note saved = cloud.save_Inr[OF cloud assms(5,6,4)]
  have "objects s2 (cloud_key c aid x) = objects s1 (cloud_key c aid x)" for x
    using cloud.artifact_calls_keep[OF cloud assms(7)] assms(8) by simp
  then have "cloud_artifact_at c m (objects s2) aid = cloud_artifact_at c m (objects s1) aid"
    by (simp add: cloud_artifact_at_def)
  then have held: "cloud_artifact_at c m (objects s2) aid = Some \<lparr>la_record = artifact_record aid png expires, la_png_bytes = png\<rparr>"
    using saved(2) by simp
  show ?thesis
    using cloud.fetch_quiet[OF cloud assms(9) held, of now True] saved(1) assms(10)
    by (simp add: cloud_load_artifact_def require_utc_def artifact_record_def not_less)
qed

subsection \<open>Runs on the server\<close>

definition clean_cloud :: cloud where
  "clean_cloud = \<lparr>cd_objects = [], cd_faults = []\<rparr>"

lemma clean_cloud_empty: "object_in clean_cloud key = None" "cd_faults clean_cloud = []"
  by (simp_all add: clean_cloud_def object_in_def split: sum.split)

lemma demo_operations:
  "cl_objects demo_assets = supabase storage_server demo_bucket" "cl_objects demo_compositions = supabase storage_server demo_bucket"
  "ob_put (supabase storage_server demo_bucket) = put_object storage_server demo_bucket"
  "ob_get (supabase storage_server demo_bucket) = get_object storage_server demo_bucket"
  "ob_delete (supabase storage_server demo_bucket) = delete_objects storage_server demo_bucket"
  by (simp_all add: demo_assets_def demo_compositions_def make_cloud_store_def supabase_def)

lemma demo_cloud_stored:
  obtains st d where "cloud_store_asset demo_assets plain_pydantic 7 demo_image image_png demo_reference demo_reference
      (utc 0) clean_cloud = (Inr st, d)" "cd_faults d = []"
proof -
  obtain st where prepared: "prepare_asset 7 demo_image image_png demo_reference demo_reference (utc 0) = Inr (st, lit ''png'')"
    using demo_prepared by blast
  obtain d0 where opened: "cloud_check_open demo_assets 7 clean_cloud = (Inr (), d0)" "object_in d0 = object_in clean_cloud"
    "cd_faults d0 = []"
    using demo_assets.check_open_quiet[OF clean_cloud_empty(2), of 7] clean_cloud_empty(1) by auto
  obtain d1 where picture: "put_object storage_server demo_bucket (cloud_key demo_assets 7 (lit ''png'')) demo_image image_png True d0 = (Inr (), d1)"
    "object_in d1 = (object_in d0)(cloud_key demo_assets 7 (lit ''png'') \<mapsto> demo_image)" "cd_faults d1 = []"
    by (rule demo_put[OF opened(3) demo_assets.key_plain[of "lit ''png''" 7]]) (simp_all add: opened(2) clean_cloud_empty(1))
  have free: "object_in d1 (meta_key demo_assets 7) = None"
    using picture(2) opened(2) clean_cloud_empty(1) by simp
  obtain d2 where "put_object storage_server demo_bucket (meta_key demo_assets 7) (json_bytes (metadata_json plain_pydantic st))
      (lit ''application/json'') True d1 = (Inr (), d2)" "cd_faults d2 = []"
    by (rule demo_put[OF picture(3) demo_assets.key_plain free]) simp
  then show thesis
    using that prepared opened(1) picture(1)
    by (simp add: cloud_store_asset_def bind_eq catch_eq cloud_put_asset_def demo_operations)
qed

theorem supabase_refines_bucket_witness:
  "fst (get_object storage_server demo_bucket (lit ''a'') 5 clean_cloud) = Inl ObjectNotFoundError
   \<and> object_in (snd (get_object storage_server demo_bucket (lit ''a'') 5 clean_cloud)) = object_in clean_cloud"
  using supabase_refines_bucket[OF demo_service.storage_service_axioms, 
      where key = "lit ''a''" and keys = "[]" and s = clean_cloud and limit = 5 and content = "[]" and content_type = "[]"
      and create_only = True]
  by (auto simp: clean_cloud_empty lit_def plain_char_def is_surrogate_def split: prod.splits)

theorem cloud_asset_loads_witness:
  "\<exists>(st :: stored_asset) d. fst (cloud_load_asset demo_assets plain_pydantic 7 (utc (hours 24 - 1)) d)
      = Inr \<lparr>ld_asset = sd_asset st, ld_content = demo_image\<rparr>
    \<and> fst (cloud_load_asset demo_assets plain_pydantic 7 (utc (hours 24)) d) = Inl AssetLifecycleClosedError"
proof -
  obtain st d where stored: "cloud_store_asset demo_assets plain_pydantic 7 demo_image image_png demo_reference demo_reference
      (utc 0) clean_cloud = (Inr st, d)" "cd_faults d = []"
    by (rule demo_cloud_stored)
  define d' where d': "d' = fold (after_cloud_call demo_assets plain_pydantic) [Cloud_Purge (utc 2), Cloud_Load 8 (Naive 0)] d"
  have calm: "cd_faults d' = []"
    using stored(2) by (simp add: d' cloud_purge_expired_def cloud_load_asset_def require_utc_time_def)
  note run = cloud_asset_loads[OF demo_service.storage_service_axioms plain_prefixes(1) demo_assets_def stored(1)
      plain_pydantic_laws _ _ _ d' calm]
  show ?thesis
    using run[of "utc (hours 24 - 1)"] run[of "utc (hours 24)"] utc_in_range[of 0] utc_in_range[of "hours 24"]
    by (intro exI[of _ st] exI[of _ d']) (simp add: ASSET_TTL_def hours_def seconds_def)
qed

theorem cloud_deletion_is_final_witness:
  "\<exists>d. (\<forall>l. fst (cloud_load_asset demo_assets plain_pydantic 7 (utc 9) d) \<noteq> Inr l)
    \<and> (\<forall>st. fst (cloud_store_asset demo_assets plain_pydantic 7 demo_image image_png demo_reference demo_reference (utc 9) d)
        \<noteq> Inr st)"
proof -
  obtain d0 where missing: "get_object storage_server demo_bucket (meta_key demo_assets 7) MAX_METADATA_BYTES clean_cloud
      = (Inl ObjectNotFoundError, d0)" "object_in d0 = object_in clean_cloud" "cd_faults d0 = []"
    using demo_assets.get_absent[OF clean_cloud_empty(2) _ clean_cloud_empty(1), of "lit ''meta.json''" 7 MAX_METADATA_BYTES]
    by (auto simp: demo_operations)
  obtain d1 where tomb: "put_object storage_server demo_bucket (closed_key demo_assets 7) (cloud_tombstone (utc 0) (lit ''deleted''))
      (lit ''application/json'') False d0 = (Inr (), d1)" "cd_faults d1 = []"
    by (rule demo_put[OF missing(3) demo_assets.key_plain[of "lit ''deleted.json''" 7]]) (simp_all add: missing(2) clean_cloud_empty(1))
  obtain d2 where "delete_objects storage_server demo_bucket
      [meta_key demo_assets 7, cloud_key demo_assets 7 (lit ''png''), cloud_key demo_assets 7 (lit ''jpg'')] d1 = (Inr 3, d2)"
    using demo_delete[OF tomb(2), of "[meta_key demo_assets 7, cloud_key demo_assets 7 (lit ''png''), cloud_key demo_assets 7 (lit ''jpg'')]"]
    by auto
  then have "cloud_delete_asset demo_assets 7 (lit ''deleted'') (utc 0) clean_cloud = (Inr False, d2)"
    using missing(1) tomb(1)
    by (simp add: cloud_delete_asset_def require_utc_time_def catch_eq bind_eq demo_operations is_cloud_error_def)
  from cloud_deletion_is_final[OF demo_service.storage_service_axioms plain_prefixes(1) demo_assets_def this refl]
  show ?thesis
    by blast
qed

theorem cloud_artifact_loads_witness:
  "\<exists>r d. fst (cloud_load_artifact demo_compositions 100 7 (utc (hours 23)) d) = Inr \<lparr>la_record = r, la_png_bytes = demo_image\<rparr>
    \<and> fst (cloud_load_artifact demo_compositions 100 7 (utc (hours 24)) d) = Inl CompositionArtifactError"
proof -
  let ?r = "artifact_record 7 demo_image (utc (hours 24))"
  obtain d0 where missing: "get_object storage_server demo_bucket (cloud_key demo_compositions 7 (lit ''json'')) ARTIFACT_METADATA_BYTES clean_cloud
      = (Inl ObjectNotFoundError, d0)" "object_in d0 = object_in clean_cloud" "cd_faults d0 = []"
    using demo_compositions.get_absent[OF clean_cloud_empty(2) _ clean_cloud_empty(1), of "lit ''json''" 7 ARTIFACT_METADATA_BYTES]
    by (auto simp: demo_operations)
  have fetched: "fetch_artifact demo_compositions 100 7 u False clean_cloud = (Inl CompositionArtifactError, d0)" for u
    using missing(1) by (simp add: fetch_artifact_def read_artifact_def catch_eq bind_eq demo_operations is_cloud_error_def)
  obtain d1 where picture: "put_object storage_server demo_bucket (cloud_key demo_compositions 7 (lit ''png'')) demo_image image_png True d0
      = (Inr (), d1)" "object_in d1 = (object_in d0)(cloud_key demo_compositions 7 (lit ''png'') \<mapsto> demo_image)" "cd_faults d1 = []"
    by (rule demo_put[OF missing(3) demo_compositions.key_plain[of "lit ''png''" 7]]) (simp_all add: missing(2) clean_cloud_empty(1))
  have free: "object_in d1 (cloud_key demo_compositions 7 (lit ''json'')) = None"
    using picture(2) missing(2) clean_cloud_empty(1) by simp
  obtain d2 where document: "put_object storage_server demo_bucket (cloud_key demo_compositions 7 (lit ''json'')) (json_bytes (artifact_document ?r))
      (lit ''application/json'') True d1 = (Inr (), d2)" "cd_faults d2 = []"
    by (rule demo_put[OF picture(3) demo_compositions.key_plain free]) simp
  have image: "startswith demo_image PNG_SIGNATURE" "length demo_image \<le> 100"
    by (simp_all add: demo_image_def startswith_def PNG_SIGNATURE_def)
  have "cloud_save_artifact demo_compositions 100 7 demo_image (utc (hours 24)) clean_cloud = (Inr ?r, d2)"
    using picture(1) document(1) image
    by (simp add: cloud_save_artifact_def require_utc_def Let_def catch_eq bind_eq fetched demo_operations)
  from cloud_artifact_loads[OF demo_service.storage_service_axioms plain_prefixes(2) demo_compositions_def _ this,
      where calls = "[]" and now = "utc (hours 23)"]
    cloud_artifact_loads[OF demo_service.storage_service_axioms plain_prefixes(2) demo_compositions_def _ this,
      where calls = "[]" and now = "utc (hours 24)"]
  show ?thesis
    using document(2) utc_in_range[of "hours 24"] by (intro exI[of _ ?r] exI[of _ d2]) (simp add: hours_def seconds_def)
qed

end
