(* ===== verification/Demo_Manifest.thy ===== *)
theory Demo_Manifest
  imports Text_Codecs Contracts
begin

section \<open>The check of the demo asset manifest\<close>

text \<open>
  The model of \<open>scripts/validate_demo_manifest.py\<close>: the structural check of the manifest, which collects every
  error it finds, the comparison of the files with their digests, and the exit code. The file system behind
  \<open>Path.resolve\<close>, \<open>is_file\<close> and \<open>read_bytes\<close> is the argument \<open>files\<close>; which texts of a number with a fraction
  are equal to 1 is the argument \<open>is_one\<close>. The theorems say which manifests pass.
\<close>

subsection \<open>Paths\<close>

definition FIXTURE_ASSET_PREFIX :: pystr where
  "FIXTURE_ASSET_PREFIX = lit ''apps/web/public/fixtures/''"

fun split_on :: "nat \<Rightarrow> pystr \<Rightarrow> pystr list" where
  "split_on c [] = [[]]"
| "split_on c (d # s) = (if d = c then [] # split_on c s
     else (case split_on c s of [] \<Rightarrow> [[d]] | p # ps \<Rightarrow> (d # p) # ps))"

text \<open>\<open>PurePosixPath(value).parts\<close> of a path that does not start with a slash.\<close>

definition path_parts :: "pystr \<Rightarrow> pystr list" where
  "path_parts s = filter (\<lambda>p. p \<noteq> [] \<and> p \<noteq> [46]) (split_on 47 s)"

definition is_safe_fixture_asset_path :: "json \<Rightarrow> bool" where
  "is_safe_fixture_asset_path v = (case v of
     JStr s \<Rightarrow> startswith s FIXTURE_ASSET_PREFIX \<and> 92 \<notin> set s \<and> 58 \<notin> set s
       \<and> \<not> startswith s [47] \<and> [46, 46] \<notin> set (path_parts s)
   | _ \<Rightarrow> False)"

subsection \<open>The structure of the manifest\<close>

definition get_or_none :: "string \<Rightarrow> (pystr \<times> json) list \<Rightarrow> json" where
  "get_or_none key ms = (case map_of ms (lit key) of None \<Rightarrow> JNull | Some v \<Rightarrow> v)"

text \<open>\<open>value == 1\<close> in Python, where \<open>True\<close> and a float can be equal to 1.\<close>

definition equals_one :: "(pystr \<Rightarrow> bool) \<Rightarrow> json \<Rightarrow> bool" where
  "equals_one is_one v = (case v of JInt i \<Rightarrow> i = 1 | JBool b \<Rightarrow> b | JReal s \<Rightarrow> is_one s | _ \<Rightarrow> False)"

text \<open>\<open>value in {...}\<close> for a set of texts: a list or an object cannot be hashed.\<close>

definition in_texts :: "string list \<Rightarrow> json \<Rightarrow> bool result" where
  "in_texts ts v = (case v of
     JStr s \<Rightarrow> Inr (s \<in> lit ` set ts)
   | JArr _ \<Rightarrow> Inl TypeError
   | JObj _ \<Rightarrow> Inl TypeError
   | _ \<Rightarrow> Inr False)"

definition SUPPORTED_RIGHTS_STATUSES :: "string list" where
  "SUPPORTED_RIGHTS_STATUSES = [''cleared'', ''restricted'', ''prohibited'']"

definition EXPLICIT_PERMISSIONS :: "string list" where
  "EXPLICIT_PERMISSIONS = [''permitted'', ''prohibited'']"

definition asset_label :: "nat \<Rightarrow> pystr" where
  "asset_label index = lit ''asset['' @ nat_digits index @ [93]"

definition complaint :: "nat \<Rightarrow> string \<Rightarrow> pystr" where
  "complaint index message = asset_label index @ lit '': '' @ lit message"

definition check_id :: "nat \<Rightarrow> (pystr \<times> json) list \<Rightarrow> pystr list \<Rightarrow> pystr list \<times> pystr list" where
  "check_id index ms seen = (case get_or_none ''id'' ms of
     JStr s \<Rightarrow> if strip_by is_space s = [] then ([complaint index ''missing asset id''], seen)
       else if s \<in> set seen then ([asset_label index @ lit '': duplicate asset id: '' @ s], seen)
       else ([], s # seen)
   | _ \<Rightarrow> ([complaint index ''missing asset id''], seen))"

definition check_path :: "nat \<Rightarrow> (pystr \<times> json) list \<Rightarrow> pystr list" where
  "check_path index ms = (case map_of ms (lit ''asset_path'') of
     None \<Rightarrow> [complaint index ''missing asset path'']
   | Some v \<Rightarrow> if is_safe_fixture_asset_path v then [] else [complaint index ''asset path must be safe''])"

definition check_sha256 :: "nat \<Rightarrow> (pystr \<times> json) list \<Rightarrow> pystr list" where
  "check_sha256 index ms = (case get_or_none ''sha256'' ms of
     JStr s \<Rightarrow> if is_sha256 s then []
       else [complaint index ''sha256 must be lowercase 64-character hexadecimal'']
   | _ \<Rightarrow> [complaint index ''sha256 must be lowercase 64-character hexadecimal''])"

definition check_provenance :: "nat \<Rightarrow> (pystr \<times> json) list \<Rightarrow> pystr list" where
  "check_provenance index ms = (case get_or_none ''provenance'' ms of
     JObj entries \<Rightarrow> if entries = [] then [complaint index ''missing provenance''] else []
   | _ \<Rightarrow> [complaint index ''missing provenance''])"

definition check_rights :: "nat \<Rightarrow> (pystr \<times> json) list \<Rightarrow> pystr list result" where
  "check_rights index ms = (case map_of ms (lit ''rights_status'') of
     None \<Rightarrow> Inr [complaint index ''missing rights status'']
   | Some v \<Rightarrow> bindR (in_texts SUPPORTED_RIGHTS_STATUSES v) (\<lambda>supported.
       Inr (if supported then [] else [complaint index ''unsupported rights status''])))"

definition check_permission :: "nat \<Rightarrow> string \<Rightarrow> string \<Rightarrow> (pystr \<times> json) list \<Rightarrow> pystr list result" where
  "check_permission index key message ms =
     bindR (in_texts EXPLICIT_PERMISSIONS (get_or_none key ms)) (\<lambda>explicit.
     Inr (if explicit then [] else [complaint index message]))"

text \<open>One round of the loop over the assets: the errors and the identifiers seen so far.\<close>

definition check_asset :: "nat \<Rightarrow> json \<Rightarrow> pystr list \<Rightarrow> (pystr list \<times> pystr list) result" where
  "check_asset index asset seen = (case asset of
     JObj ms \<Rightarrow>
       (case check_id index ms seen of (id_errors, seen') \<Rightarrow>
        bindR (check_rights index ms) (\<lambda>rights_errors.
        bindR (check_permission index ''derivative_work_permission''
          ''derivative-work permission must be explicit'' ms) (\<lambda>work_errors.
        bindR (check_permission index ''public_display_permission''
          ''public-display permission must be explicit'' ms) (\<lambda>display_errors.
        Inr (id_errors @ check_path index ms @ check_sha256 index ms @ check_provenance index ms
          @ rights_errors @ work_errors @ display_errors, seen')))))
   | _ \<Rightarrow> Inr ([complaint index ''asset must be a JSON object''], seen))"

fun check_assets :: "nat \<Rightarrow> json list \<Rightarrow> pystr list \<Rightarrow> pystr list result" where
  "check_assets index [] seen = Inr []"
| "check_assets index (asset # assets) seen =
     bindR (check_asset index asset seen) (\<lambda>(errors, seen').
     bindR (check_assets (Suc index) assets seen') (\<lambda>rest. Inr (errors @ rest)))"

definition validate_manifest :: "(pystr \<Rightarrow> bool) \<Rightarrow> json \<Rightarrow> pystr list result" where
  "validate_manifest is_one manifest = (case manifest of
     JObj ms \<Rightarrow>
       (let errors = (if equals_one is_one (get_or_none ''manifest_version'' ms) then []
          else [lit ''manifest_version must be 1'']) in
        case get_or_none ''assets'' ms of
          JArr assets \<Rightarrow> bindR (check_assets 0 assets []) (\<lambda>rest. Inr (errors @ rest))
        | _ \<Rightarrow> Inr (errors @ [lit ''assets must be a JSON array'']))
   | _ \<Rightarrow> Inr [lit ''manifest must be a JSON object''])"

subsection \<open>The files\<close>

record repository_files =
  rf_root :: "pystr list"
  rf_resolve :: "pystr list \<Rightarrow> pystr list result"
  rf_file :: "pystr list \<Rightarrow> bytes result option"

text \<open>One round of the loop of \<open>validate_asset_integrity\<close>; only entries that passed the structural check come here,
  so that the path and the digest are texts.\<close>

definition text_field :: "string \<Rightarrow> json \<Rightarrow> pystr result" where
  "text_field key asset = bindR (member (lit key) asset) (\<lambda>v. case v of JStr s \<Rightarrow> Inr s | _ \<Rightarrow> Inl TypeError)"

definition check_file :: "repository_files \<Rightarrow> nat \<Rightarrow> json \<Rightarrow> pystr list result" where
  "check_file files index asset =
     bindR (text_field ''asset_path'' asset) (\<lambda>path.
     bindR (rf_resolve files (rf_root files @ path_parts path)) (\<lambda>resolved.
     if \<not> startswith resolved (rf_root files) then Inr [complaint index ''asset file is outside repository'']
     else case rf_file files resolved of
       None \<Rightarrow> Inr [complaint index ''asset file is missing or not a regular file'']
     | Some content \<Rightarrow>
         bindR content (\<lambda>data.
         bindR (text_field ''sha256'' asset) (\<lambda>expected.
         Inr (if sha256_hex data = expected then []
           else [complaint index ''asset sha256 does not match file bytes''])))))"

fun check_files :: "repository_files \<Rightarrow> nat \<Rightarrow> json list \<Rightarrow> pystr list result" where
  "check_files files index [] = Inr []"
| "check_files files index (asset # assets) =
     bindR (check_file files index asset) (\<lambda>errors.
     bindR (check_files files (Suc index) assets) (\<lambda>rest. Inr (errors @ rest)))"

definition validate_asset_integrity :: "repository_files \<Rightarrow> json \<Rightarrow> pystr list result" where
  "validate_asset_integrity files manifest =
     bindR (member (lit ''assets'') manifest) (\<lambda>v. case v of
       JArr assets \<Rightarrow> check_files files 0 assets
     | _ \<Rightarrow> Inl TypeError)"

text \<open>\<open>main\<close>: the exit code and the lines written to the error stream; \<open>argument\<close> is what reading the file
  that is named in the single argument gives, \<open>None\<close> another number of arguments. The error of the
  reading itself is not spelled out.\<close>

definition main :: "(pystr \<Rightarrow> bool) \<Rightarrow> repository_files \<Rightarrow> bytes result option \<Rightarrow> (nat \<times> pystr list) result" where
  "main is_one files argument = (case argument of
     None \<Rightarrow> Inr (2, [lit ''usage: validate_demo_manifest.py MANIFEST''])
   | Some text \<Rightarrow>
       (case bindR (bindR text decode_utf8) loads of
          Inl e \<Rightarrow> if is_OSError e \<or> is_ValueError e then Inr (1, [lit ''manifest could not be read as JSON: ''])
            else Inl e
        | Inr manifest \<Rightarrow>
            bindR (validate_manifest is_one manifest) (\<lambda>errors.
            bindR (if errors = [] then validate_asset_integrity files manifest else Inr errors) (\<lambda>errors'.
            Inr (if errors' = [] then (0, []) else (1, errors'))))))"

subsection \<open>Which manifests pass\<close>

text \<open>The same in one place, without the order of the checks and the messages.\<close>

definition manifest_assets :: "json \<Rightarrow> json list" where
  "manifest_assets manifest = (case manifest of
     JObj ms \<Rightarrow> (case get_or_none ''assets'' ms of JArr assets \<Rightarrow> assets | _ \<Rightarrow> []) | _ \<Rightarrow> [])"

definition text_at :: "string \<Rightarrow> json \<Rightarrow> pystr option" where
  "text_at key j = (case j of JObj ms \<Rightarrow> (case map_of ms (lit key) of Some (JStr s) \<Rightarrow> Some s | _ \<Rightarrow> None) | _ \<Rightarrow> None)"

definition valid_asset_entry :: "json \<Rightarrow> bool" where
  "valid_asset_entry asset \<longleftrightarrow> (\<exists>ms. asset = JObj ms
     \<and> (\<exists>s. text_at ''id'' asset = Some s \<and> strip_by is_space s \<noteq> [])
     \<and> (\<exists>s. text_at ''asset_path'' asset = Some s \<and> is_safe_fixture_asset_path (JStr s))
     \<and> (\<exists>s. text_at ''sha256'' asset = Some s \<and> is_sha256 s)
     \<and> (\<exists>entries. map_of ms (lit ''provenance'') = Some (JObj entries) \<and> entries \<noteq> [])
     \<and> (\<exists>s \<in> set SUPPORTED_RIGHTS_STATUSES. text_at ''rights_status'' asset = Some (lit s))
     \<and> (\<exists>s \<in> set EXPLICIT_PERMISSIONS. text_at ''derivative_work_permission'' asset = Some (lit s))
     \<and> (\<exists>s \<in> set EXPLICIT_PERMISSIONS. text_at ''public_display_permission'' asset = Some (lit s)))"

definition valid_manifest :: "(pystr \<Rightarrow> bool) \<Rightarrow> json \<Rightarrow> bool" where
  "valid_manifest is_one manifest \<longleftrightarrow> (\<exists>ms assets. manifest = JObj ms \<and> equals_one is_one (get_or_none ''manifest_version'' ms)
     \<and> get_or_none ''assets'' ms = JArr assets \<and> list_all valid_asset_entry assets
     \<and> distinct (map (text_at ''id'') assets))"

text \<open>The file of an entry: it resolves to a place inside the repository, and its bytes have the digest.\<close>

definition genuine_file :: "repository_files \<Rightarrow> json \<Rightarrow> bool" where
  "genuine_file files asset \<longleftrightarrow> (\<exists>path resolved data. text_at ''asset_path'' asset = Some path
     \<and> rf_resolve files (rf_root files @ path_parts path) = Inr resolved \<and> startswith resolved (rf_root files)
     \<and> rf_file files resolved = Some (Inr data) \<and> text_at ''sha256'' asset = Some (sha256_hex data))"

lemma get_text: "get_or_none key ms = JStr s \<longleftrightarrow> text_at key (JObj ms) = Some s"
  by (auto simp: get_or_none_def text_at_def split: option.splits json.splits)

lemma in_texts_iff: "in_texts ts (get_or_none key ms) = Inr True \<longleftrightarrow> (\<exists>s \<in> set ts. text_at key (JObj ms) = Some (lit s))"
  by (auto simp: in_texts_def get_or_none_def text_at_def split: option.splits json.splits)

lemma check_id_iff: "check_id index ms seen = ([], seen') \<longleftrightarrow>
    (\<exists>s. text_at ''id'' (JObj ms) = Some s \<and> strip_by is_space s \<noteq> [] \<and> s \<notin> set seen \<and> seen' = s # seen)"
  unfolding get_text[symmetric] check_id_def by (auto simp: asset_label_def split: json.splits)

lemma check_path_iff: "check_path index ms = [] \<longleftrightarrow>
    (\<exists>s. text_at ''asset_path'' (JObj ms) = Some s \<and> is_safe_fixture_asset_path (JStr s))"
  by (auto simp: check_path_def text_at_def is_safe_fixture_asset_path_def split: option.splits json.splits)

lemma check_sha256_iff: "check_sha256 index ms = [] \<longleftrightarrow> (\<exists>s. text_at ''sha256'' (JObj ms) = Some s \<and> is_sha256 s)"
  unfolding get_text[symmetric] check_sha256_def by (auto split: json.splits)

lemma check_provenance_iff: "check_provenance index ms = [] \<longleftrightarrow>
    (\<exists>entries. map_of ms (lit ''provenance'') = Some (JObj entries) \<and> entries \<noteq> [])"
  by (auto simp: check_provenance_def get_or_none_def split: option.splits json.splits)

lemma check_rights_iff: "check_rights index ms = Inr [] \<longleftrightarrow>
    (\<exists>s \<in> set SUPPORTED_RIGHTS_STATUSES. text_at ''rights_status'' (JObj ms) = Some (lit s))"
  unfolding in_texts_iff[symmetric]
  by (auto simp: check_rights_def get_or_none_def in_texts_def split: option.splits if_splits)

lemma check_permission_iff: "check_permission index key message ms = Inr [] \<longleftrightarrow>
    (\<exists>s \<in> set EXPLICIT_PERMISSIONS. text_at key (JObj ms) = Some (lit s))"
  unfolding in_texts_iff[symmetric] check_permission_def by (auto split: if_splits)

lemma check_asset_iff: "check_asset index asset seen = Inr ([], seen') \<longleftrightarrow>
    valid_asset_entry asset \<and> (\<exists>s. text_at ''id'' asset = Some s \<and> s \<notin> set seen \<and> seen' = s # seen)"
proof (cases asset)
  case (JObj ms)
  obtain id_errors seen1 where id_check: "check_id index ms seen = (id_errors, seen1)"
    by fastforce
  have "check_asset index asset seen = Inr ([], seen') \<longleftrightarrow> check_id index ms seen = ([], seen')
      \<and> check_path index ms = [] \<and> check_sha256 index ms = [] \<and> check_provenance index ms = []
      \<and> check_rights index ms = Inr []
      \<and> check_permission index ''derivative_work_permission'' ''derivative-work permission must be explicit'' ms = Inr []
      \<and> check_permission index ''public_display_permission'' ''public-display permission must be explicit'' ms = Inr []"
    unfolding JObj by (auto simp: check_asset_def id_check)
  then show ?thesis
    unfolding check_id_iff check_path_iff check_sha256_iff check_provenance_iff check_rights_iff check_permission_iff
      valid_asset_entry_def JObj by auto
qed (simp_all add: check_asset_def valid_asset_entry_def)

lemma check_assets_iff: "check_assets index assets seen = Inr [] \<longleftrightarrow> list_all valid_asset_entry assets
    \<and> distinct (map (text_at ''id'') assets) \<and> (\<forall>asset \<in> set assets. \<forall>s \<in> set seen. text_at ''id'' asset \<noteq> Some s)"
proof (induction assets arbitrary: index seen)
  case (Cons asset assets)
  have "check_assets index (asset # assets) seen = Inr [] \<longleftrightarrow>
      (\<exists>seen'. check_asset index asset seen = Inr ([], seen') \<and> check_assets (Suc index) assets seen' = Inr [])"
    by auto
  also have "\<dots> \<longleftrightarrow> valid_asset_entry asset \<and> (\<exists>s. text_at ''id'' asset = Some s \<and> s \<notin> set seen
      \<and> check_assets (Suc index) assets (s # seen) = Inr [])"
    unfolding check_asset_iff by blast
  also have "\<dots> \<longleftrightarrow> list_all valid_asset_entry (asset # assets) \<and> distinct (map (text_at ''id'') (asset # assets))
      \<and> (\<forall>a \<in> set (asset # assets). \<forall>s \<in> set seen. text_at ''id'' a \<noteq> Some s)"
  proof (cases "valid_asset_entry asset")
    case True
    then obtain s where "text_at ''id'' asset = Some s"
      by (auto simp: valid_asset_entry_def)
    then show ?thesis
      unfolding Cons.IH using True by (auto simp: image_iff)
  qed simp
  finally show ?case .
qed simp

lemma validate_manifest_iff: "validate_manifest is_one manifest = Inr [] \<longleftrightarrow> valid_manifest is_one manifest"
proof (cases manifest)
  case (JObj ms)
  then show ?thesis
    by (cases "get_or_none ''assets'' ms") (auto simp: validate_manifest_def valid_manifest_def check_assets_iff)
qed (simp_all add: validate_manifest_def valid_manifest_def)

lemma text_value_iff: "(case v of JStr s \<Rightarrow> Inr s | _ \<Rightarrow> Inl TypeError) = Inr s \<longleftrightarrow> v = JStr s"
  by (cases v) auto

lemma text_field_iff: "text_field key asset = Inr s \<longleftrightarrow> text_at key asset = Some s"
proof (cases asset)
  case (JObj ms)
  then show ?thesis
    by (cases "map_of ms (lit key)") (auto simp: text_field_def member_def text_at_def text_value_iff split: json.split)
qed (simp_all add: text_field_def member_def text_at_def)

lemma check_file_iff: "check_file files index asset = Inr [] \<longleftrightarrow> genuine_file files asset"
proof -
  have present: "(case rf_file files r of None \<Rightarrow> Inr [c] | Some content \<Rightarrow> f content) = Inr [] \<longleftrightarrow>
      (\<exists>content. rf_file files r = Some content \<and> f content = Inr [])" for r c f
    by (cases "rf_file files r") simp_all
  show ?thesis
    unfolding genuine_file_def text_field_iff[symmetric]
    by (auto simp: check_file_def present split: if_splits)
qed

lemma check_files_iff: "check_files files index assets = Inr [] \<longleftrightarrow> list_all (genuine_file files) assets"
  by (induction assets arbitrary: index) (auto simp: check_file_iff)

text \<open>A safe path stays below the directory of the fixtures.\<close>

lemma split_on_append: "split_on c (a @ c # b) = split_on c a @ split_on c b"
proof (induction a)
  case (Cons d a)
  have "split_on c a \<noteq> []"
    by (cases a) (auto split: list.split)
  with Cons show ?case
    by (auto split: list.splits)
qed simp

lemma safe_path_parts:
  assumes "is_safe_fixture_asset_path (JStr s)"
  shows "\<exists>rest. path_parts s = [lit ''apps'', lit ''web'', lit ''public'', lit ''fixtures''] @ rest \<and> [46, 46] \<notin> set rest"
proof -
  have "FIXTURE_ASSET_PREFIX = lit ''apps/web/public/fixtures'' @ [47]"
    by (simp add: FIXTURE_ASSET_PREFIX_def lit_def)
  moreover obtain u where "s = FIXTURE_ASSET_PREFIX @ u"
    using assms by (auto simp: is_safe_fixture_asset_path_def startswith_iff)
  ultimately have u: "s = lit ''apps/web/public/fixtures'' @ 47 # u"
    by simp
  have "split_on 47 (lit ''apps/web/public/fixtures'') = [lit ''apps'', lit ''web'', lit ''public'', lit ''fixtures'']"
    by (simp add: lit_def)
  then have "path_parts s = [lit ''apps'', lit ''web'', lit ''public'', lit ''fixtures''] @ path_parts u"
    unfolding u path_parts_def split_on_append by (simp add: lit_def)
  moreover have "[46, 46] \<notin> set (path_parts s)"
    using assms by (simp add: is_safe_fixture_asset_path_def)
  ultimately show ?thesis
    by auto
qed

subsection \<open>Properties\<close>

text \<open>
  C26. The manifest check accepts exactly the good manifests: it exits with 0 if and only if the file is JSON in
  UTF-8, the structure is valid (version 1, every asset with an identifier of its own, a path below the
  fixture directory, a digest, a provenance, a supported rights status and both permissions explicit), and
  every asset's file lies inside the repository and has the digest the manifest states.
\<close>

theorem manifest_check_is_exact:
  "main is_one files (Some (Inr raw)) = Inr (0, []) \<longleftrightarrow>
    (\<exists>manifest. bindR (decode_utf8 raw) loads = Inr manifest \<and> valid_manifest is_one manifest
      \<and> list_all (genuine_file files) (manifest_assets manifest))"
proof (cases "bindR (decode_utf8 raw) loads")
  case (Inl e)
  then show ?thesis
    by (simp add: main_def del: bindR_Inr_iff)
next
  case (Inr manifest)
  have integrity: "validate_asset_integrity files manifest = Inr [] \<longleftrightarrow> list_all (genuine_file files) (manifest_assets manifest)"
    if "valid_manifest is_one manifest"
  proof -
    obtain ms assets where j: "manifest = JObj ms" "get_or_none ''assets'' ms = JArr assets"
      using \<open>valid_manifest is_one manifest\<close> by (auto simp: valid_manifest_def)
    then have "member (lit ''assets'') manifest = Inr (JArr assets)"
      by (auto simp: member_def get_or_none_def split: option.splits)
    then show ?thesis
      using j by (simp add: validate_asset_integrity_def manifest_assets_def check_files_iff del: bindR_Inr_iff)
  qed
  have "main is_one files (Some (Inr raw)) = Inr (0, []) \<longleftrightarrow>
      validate_manifest is_one manifest = Inr [] \<and> validate_asset_integrity files manifest = Inr []"
  proof (cases "validate_manifest is_one manifest")
    case (Inl e)
    then show ?thesis
      using Inr by (simp add: main_def del: bindR_Inr_iff)
  next
    case errors: (Inr errors)
    show ?thesis
      using Inr errors by (cases "validate_asset_integrity files manifest") (auto simp: main_def simp del: bindR_Inr_iff)
  qed
  also have "\<dots> \<longleftrightarrow> valid_manifest is_one manifest \<and> list_all (genuine_file files) (manifest_assets manifest)"
    using integrity validate_manifest_iff by metis
  finally show ?thesis
    using Inr by (simp del: bindR_Inr_iff)
qed

text \<open>A permission that is a list is not reported: the membership test raises.\<close>

lemma list_permission_raises:
  assumes "map_of ms (lit ''derivative_work_permission'') = Some (JArr js)"
    "\<exists>errors. check_rights index ms = Inr errors"
  shows "check_asset index (JObj ms) seen = Inl TypeError"
  using assms by (auto simp: check_asset_def check_permission_def get_or_none_def in_texts_def split: prod.split)

end
