(* ===== verification/Configuration.thy ===== *)
theory Configuration
  imports Api Cloud_Properties Demo_Manifest
begin

section \<open>Configuration from the environment\<close>

text \<open>
  The functions of \<open>src/cultureshift/app.py\<close> that read the environment when the application is created, with
  every exception they raise, and the answer to a request that does not validate. The environment is a
  function from names to texts; the rewriting of the database URL (\<open>_postgres_database_url\<close>, which takes
  it apart with \<open>urllib.parse\<close>) is the argument \<open>clean_url\<close>, the presence of the database driver the
  argument \<open>driver\<close>.
\<close>

type_synonym environment = "pystr \<Rightarrow> pystr option"

abbreviation strip_blanks :: "pystr \<Rightarrow> pystr" where
  "strip_blanks \<equiv> strip_by is_space"

text \<open>\<open>os.environ.get(name, default)\<close>\<close>

definition environ_get :: "environment \<Rightarrow> string \<Rightarrow> pystr \<Rightarrow> pystr" where
  "environ_get env name fallback = (case env (lit name) of None \<Rightarrow> fallback | Some v \<Rightarrow> v)"

subsection \<open>Origins\<close>

definition DEFAULT_STUDIO_ORIGINS :: "pystr list" where
  "DEFAULT_STUDIO_ORIGINS = [lit ''http://localhost:3000'', lit ''http://127.0.0.1:3000'']"

definition is_exact_origin :: "pystr \<Rightarrow> bool" where
  "is_exact_origin s \<longleftrightarrow> s \<noteq> lit ''*'' \<and> (startswith s (lit ''http://'') \<or> startswith s (lit ''https://''))"

definition cors_origins_from_environment :: "environment \<Rightarrow> pystr list result" where
  "cors_origins_from_environment env =
     (let origins = filter (\<lambda>v. v \<noteq> []) (map strip_blanks
          (split_on 44 (environ_get env ''CULTURESHIFT_STUDIO_ORIGINS'' [])));
          selected = dict_fromkeys (if origins \<noteq> [] then origins else DEFAULT_STUDIO_ORIGINS)
      in if list_all is_exact_origin selected then Inr selected else Inl RuntimeError)"

subsection \<open>The secret of the capability tokens\<close>

definition capability_service_from_environment :: "environment \<Rightarrow> token_service result" where
  "capability_service_from_environment env = (case env (lit ''CULTURESHIFT_CAPABILITY_SECRET'') of
     None \<Rightarrow> Inl RuntimeError
   | Some configured \<Rightarrow>
       bindR (encode_utf8 configured) (\<lambda>secret.
       if length secret < 32 then Inl RuntimeError
       else make_token_service secret (lit ''cultureshift-api'')))"

subsection \<open>Values that may be quoted\<close>

definition unquoted :: "pystr \<Rightarrow> pystr" where
  "unquoted v = (if 2 \<le> length v \<and> hd v = last v \<and> (hd v = 34 \<or> hd v = 39)
     then strip_blanks (butlast (tl v)) else v)"

fun environment_value :: "environment \<Rightarrow> string list \<Rightarrow> pystr" where
  "environment_value env [] = []"
| "environment_value env (name # names) =
     (let value = unquoted (strip_blanks (environ_get env name [])) in
      if value \<noteq> [] then value else environment_value env names)"

subsection \<open>The repository\<close>

datatype repository_choice = Postgres_Repository pystr | Sqlite_Repository pystr

text \<open>\<open>PostgresProjectRunRepository(database_url)\<close>\<close>

definition make_postgres_repository :: "bool \<Rightarrow> pystr \<Rightarrow> repository_choice result" where
  "make_postgres_repository driver database_url =
     (if \<not> (startswith database_url (lit ''postgresql://'') \<or> startswith database_url (lit ''postgres://''))
      then Inl ValueError
      else if \<not> driver then Inl RuntimeError
      else Inr (Postgres_Repository database_url))"

definition postgres_database_url :: "(pystr \<Rightarrow> pystr result) \<Rightarrow> environment \<Rightarrow> pystr result" where
  "postgres_database_url clean_url env =
     (let value = environment_value env [''CULTURESHIFT_DATABASE_URL'', ''POSTGRES_URL''] in
      if value = [] then Inr [] else clean_url value)"

definition repository_from_environment ::
  "(pystr \<Rightarrow> pystr result) \<Rightarrow> bool \<Rightarrow> environment \<Rightarrow> repository_choice result" where
  "repository_from_environment clean_url driver env =
     bindR (postgres_database_url clean_url env) (\<lambda>database_url.
     if database_url \<noteq> [] then make_postgres_repository driver database_url
     else if environ_get env ''VERCEL'' [] \<noteq> [] then Inl RuntimeError
     else Inr (Sqlite_Repository (environ_get env ''CULTURESHIFT_SQLITE_PATH'' (lit ''.cultureshift/runs.sqlite3''))))"

subsection \<open>The stores\<close>

datatype store_choice = Cloud_Stores object_config | Local_Stores pystr

definition configured_storage_url :: "environment \<Rightarrow> pystr" where
  "configured_storage_url env = environment_value env
     [''CULTURESHIFT_OBJECT_STORAGE_URL'', ''SUPABASE_URL'', ''NEXT_PUBLIC_SUPABASE_URL'']"

definition configured_storage_key :: "environment \<Rightarrow> pystr" where
  "configured_storage_key env = environment_value env
     [''CULTURESHIFT_OBJECT_STORAGE_KEY'', ''SUPABASE_SERVICE_ROLE_KEY'', ''SUPABASE_SECRET_KEY'']"

definition stores_from_environment :: "environment \<Rightarrow> store_choice result" where
  "stores_from_environment env =
     (if configured_storage_url env \<noteq> [] \<or> configured_storage_key env \<noteq> [] then
           (if configured_storage_url env = [] \<or> configured_storage_key env = [] then Inl RuntimeError
            else let bucket = environment_value env [''CULTURESHIFT_OBJECT_STORAGE_BUCKET''] in
              bindR (make_object_config (configured_storage_url env) (configured_storage_key env) (if bucket \<noteq> [] then bucket else lit ''cultureshift-private''))
                (\<lambda>oc. Inr (Cloud_Stores oc)))
         else
           let configured = environ_get env ''CULTURESHIFT_TEMP_ASSET_DIR'' [] in
           if strip_blanks configured = [] then Inl RuntimeError else Inr (Local_Stores configured))"

text \<open>The two stores on the object storage, with the prefixes their constructors default to.\<close>

definition cloud_stores :: "'s remote \<Rightarrow> object_config \<Rightarrow> 's cloud_store \<times> 's cloud_store" where
  "cloud_stores net oc =
     (make_cloud_store (supabase net oc) (lit ''source-assets/'') (rm_decode net),
      make_cloud_store (supabase net oc) (lit ''compositions/'') (rm_decode net))"

text \<open>What \<open>create_app\<close> reads when nothing is passed to it, in its order.\<close>

record settings =
  se_repository :: repository_choice
  se_tokens :: token_service
  se_stores :: store_choice
  se_origins :: "pystr list"

definition settings_from_environment ::
  "(pystr \<Rightarrow> pystr result) \<Rightarrow> bool \<Rightarrow> environment \<Rightarrow> settings result" where
  "settings_from_environment clean_url driver env =
     bindR (repository_from_environment clean_url driver env) (\<lambda>runs.
     bindR (capability_service_from_environment env) (\<lambda>tokens.
     bindR (stores_from_environment env) (\<lambda>stores.
     bindR (cors_origins_from_environment env) (\<lambda>origins.
     Inr \<lparr>se_repository = runs, se_tokens = tokens, se_stores = stores, se_origins = origins\<rparr>))))"

subsection \<open>Requests that do not validate\<close>

datatype location = Field pystr | Index int

record error_item =
  ei_type :: pystr
  ei_loc :: "location list"
  ei_msg :: pystr
  ei_input :: json

record public_error =
  pe_type :: pystr
  pe_loc :: "location list"
  pe_msg :: pystr

definition safe_detail :: "error_item \<Rightarrow> public_error" where
  "safe_detail item =
     \<lparr>pe_type = ei_type item,
      pe_loc = (if ei_type item = lit ''extra_forbidden'' \<and> ei_loc item \<noteq> []
        then butlast (ei_loc item) @ [Field (lit ''unknown_field'')] else ei_loc item),
      pe_msg = ei_msg item\<rparr>"

definition safe_validation_error :: "error_item list \<Rightarrow> nat \<times> public_error list" where
  "safe_validation_error errors = (422, map safe_detail errors)"

lemma safe_detail_eq_iff:
  "safe_detail a = safe_detail b \<longleftrightarrow> ei_type a = ei_type b \<and> ei_msg a = ei_msg b
     \<and> (if ei_type a = lit ''extra_forbidden''
        then (ei_loc a = [] \<longleftrightarrow> ei_loc b = []) \<and> butlast (ei_loc a) = butlast (ei_loc b)
        else ei_loc a = ei_loc b)"
  by (auto simp: safe_detail_def)

text \<open>
  Two lists of errors that differ only in the offending inputs and in the names of the unknown fields get the
  same answer: neither is disclosed.
\<close>

definition same_but_secret :: "error_item \<Rightarrow> error_item \<Rightarrow> bool" where
  "same_but_secret a b \<longleftrightarrow> ei_type a = ei_type b \<and> ei_msg a = ei_msg b
     \<and> (ei_loc a = ei_loc b \<or> ei_type a = lit ''extra_forbidden''
          \<and> (\<exists>path x y. ei_loc a = path @ [x] \<and> ei_loc b = path @ [y]))"

lemma safe_validation_error_blind:
  "safe_validation_error as = safe_validation_error bs \<longleftrightarrow> list_all2 same_but_secret as bs"
proof -
  have "safe_detail a = safe_detail b \<longleftrightarrow> same_but_secret a b" for a b
    unfolding safe_detail_eq_iff same_but_secret_def
    by (cases "ei_loc a" rule: rev_cases; cases "ei_loc b" rule: rev_cases) auto
  then have "map safe_detail as = map safe_detail bs \<longleftrightarrow> list_all2 same_but_secret as bs"
    by (induction as arbitrary: bs) (simp, case_tac bs, simp_all)
  then show ?thesis
    by (simp add: safe_validation_error_def)
qed

subsection \<open>Lemmas on the configuration\<close>

declare environment_value.simps [simp del]

lemma environment_value_clean: "strip_blanks (environment_value env names) = environment_value env names"
  by (induction env names rule: environment_value.induct) (auto simp: environment_value.simps Let_def unquoted_def strip_by_def[of _ "[]"])

lemma cors_origins_Inr:
  assumes "cors_origins_from_environment env = Inr origins"
  shows "origins \<noteq> []" "distinct origins" "list_all is_exact_origin origins"
  using assms by (auto simp: cors_origins_from_environment_def Let_def DEFAULT_STUDIO_ORIGINS_def split: if_splits)

lemma cors_origins_Inl: "cors_origins_from_environment env = Inl e \<Longrightarrow> e = RuntimeError"
  by (auto simp: cors_origins_from_environment_def Let_def split: if_splits)

lemma capability_service_Inr:
  assumes "capability_service_from_environment env = Inr ts"
  shows "32 \<le> length (ts_secret ts)" "ts_audience ts = lit ''cultureshift-api''"
    "\<exists>text. env (lit ''CULTURESHIFT_CAPABILITY_SECRET'') = Some text \<and> encode_utf8 text = Inr (ts_secret ts)"
  using assms
  by (auto simp: capability_service_from_environment_def make_token_service_def split: option.splits if_splits)

lemma make_object_config_Inr:
  assumes "make_object_config url key bucket = Inr oc"
  shows "startswith url (lit ''https://'')" "strip_blanks (oc_service_key oc) \<noteq> []" "strip_blanks (oc_bucket oc) \<noteq> []"
    "oc_service_key oc = key" "oc_bucket oc = bucket" "oc_base_url oc = rev (dropWhile ((=) 47) (rev url))"
  using assms by (auto simp: make_object_config_def split: if_splits)

lemma stores_from_environment_Inr:
  assumes "stores_from_environment env = Inr stores"
  shows "case stores of
      Cloud_Stores oc \<Rightarrow> startswith (configured_storage_url env) (lit ''https://'')
        \<and> oc_base_url oc = rev (dropWhile ((=) 47) (rev (configured_storage_url env)))
        \<and> oc_service_key oc = configured_storage_key env \<and> configured_storage_key env \<noteq> [] \<and> strip_blanks (oc_bucket oc) \<noteq> []
    | Local_Stores folder \<Rightarrow> configured_storage_url env = [] \<and> configured_storage_key env = []
        \<and> env (lit ''CULTURESHIFT_TEMP_ASSET_DIR'') = Some folder \<and> strip_blanks folder \<noteq> []"
proof (cases "configured_storage_url env = [] \<and> configured_storage_key env = []")
  case True
  then show ?thesis
    using assms
    by (cases "env (lit ''CULTURESHIFT_TEMP_ASSET_DIR'')")
       (auto simp: stores_from_environment_def environ_get_def Let_def strip_by_def split: if_splits)
next
  case False
  then obtain oc bucket where oc: "make_object_config (configured_storage_url env) (configured_storage_key env) bucket = Inr oc"
    "stores = Cloud_Stores oc" "configured_storage_key env \<noteq> []"
    using assms by (auto simp: stores_from_environment_def Let_def split: if_splits)
  then show ?thesis
    using make_object_config_Inr[OF oc(1)] by simp
qed

lemma stores_from_environment_Inl: "stores_from_environment env = Inl e \<Longrightarrow> e \<in> {RuntimeError, ValueError}"
  by (auto simp: stores_from_environment_def make_object_config_def bindR_Inl_iff Let_def split: if_splits)

lemma repository_from_environment_Inr:
  assumes "repository_from_environment clean_url driver env = Inr choice"
  shows "case choice of
      Postgres_Repository url \<Rightarrow> driver \<and> postgres_database_url clean_url env = Inr url
        \<and> (startswith url (lit ''postgresql://'') \<or> startswith url (lit ''postgres://''))
    | Sqlite_Repository path \<Rightarrow> postgres_database_url clean_url env = Inr [] \<and> env (lit ''VERCEL'') \<in> {None, Some []}"
  using assms
  by (auto simp: repository_from_environment_def make_postgres_repository_def environ_get_def
      split: if_splits option.splits)

subsection \<open>Properties\<close>

text \<open>
  C25. An application that starts with what it reads from its environment is safely configured: every allowed
  origin is an exact HTTP origin (never the wildcard), the capability tokens are signed with the configured
  secret of at least 32 bytes for the audience of the API, object storage is used only over HTTPS with both
  its address and its key, the temporary directory is used only when neither of them is set, and an instance
  on Vercel has a Postgres database. Otherwise \<open>create_app\<close> raises: RuntimeError, ValueError, what the
  encoding of the secret raises, or what the database URL makes \<open>urllib.parse\<close> raise.
\<close>

theorem settings_are_safe:
  assumes "settings_from_environment clean_url driver env = outcome"
  shows "case outcome of
      Inr st \<Rightarrow>
        (se_origins st \<noteq> [] \<and> distinct (se_origins st) \<and> list_all is_exact_origin (se_origins st))
        \<and> (32 \<le> length (ts_secret (se_tokens st)) \<and> ts_audience (se_tokens st) = lit ''cultureshift-api''
           \<and> (\<exists>text. env (lit ''CULTURESHIFT_CAPABILITY_SECRET'') = Some text
                \<and> encode_utf8 text = Inr (ts_secret (se_tokens st))))
        \<and> (case se_stores st of
             Cloud_Stores oc \<Rightarrow> startswith (configured_storage_url env) (lit ''https://'')
               \<and> oc_base_url oc = rev (dropWhile ((=) 47) (rev (configured_storage_url env)))
               \<and> oc_service_key oc = configured_storage_key env \<and> configured_storage_key env \<noteq> [] \<and> strip_blanks (oc_bucket oc) \<noteq> []
           | Local_Stores folder \<Rightarrow> configured_storage_url env = [] \<and> configured_storage_key env = []
               \<and> env (lit ''CULTURESHIFT_TEMP_ASSET_DIR'') = Some folder \<and> strip_blanks folder \<noteq> [])
        \<and> (env (lit ''VERCEL'') \<notin> {None, Some []} \<longrightarrow>
             (\<exists>url. se_repository st = Postgres_Repository url \<and> postgres_database_url clean_url env = Inr url
                \<and> (startswith url (lit ''postgresql://'') \<or> startswith url (lit ''postgres://''))))
    | Inl e \<Rightarrow> e \<in> {RuntimeError, ValueError} \<or> postgres_database_url clean_url env = Inl e
        \<or> (\<exists>text. env (lit ''CULTURESHIFT_CAPABILITY_SECRET'') = Some text \<and> encode_utf8 text = Inl e)"
proof (cases outcome)
  case (Inr st)
  then obtain runs where runs: "repository_from_environment clean_url driver env = Inr runs" "se_repository st = runs"
    and "capability_service_from_environment env = Inr (se_tokens st)"
    and "stores_from_environment env = Inr (se_stores st)"
    and "cors_origins_from_environment env = Inr (se_origins st)"
    using assms by (auto simp: settings_from_environment_def)
  note parts = this
  have "env (lit ''VERCEL'') \<notin> {None, Some []} \<longrightarrow>
      (\<exists>url. se_repository st = Postgres_Repository url \<and> postgres_database_url clean_url env = Inr url
        \<and> (startswith url (lit ''postgresql://'') \<or> startswith url (lit ''postgres://'')))"
    using repository_from_environment_Inr[OF runs(1)] runs(2) by (cases runs) auto
  then show ?thesis
    using Inr cors_origins_Inr[OF parts(5)] capability_service_Inr[OF parts(3)] stores_from_environment_Inr[OF parts(4)]
    by simp
next
  case (Inl e)
  then have "repository_from_environment clean_url driver env = Inl e \<or> capability_service_from_environment env = Inl e
      \<or> stores_from_environment env = Inl e \<or> cors_origins_from_environment env = Inl e"
    using assms by (auto simp: settings_from_environment_def bindR_Inl_iff)
  then have "e \<in> {RuntimeError, ValueError} \<or> postgres_database_url clean_url env = Inl e
      \<or> (\<exists>text. env (lit ''CULTURESHIFT_CAPABILITY_SECRET'') = Some text \<and> encode_utf8 text = Inl e)"
    using stores_from_environment_Inl[of env e] cors_origins_Inl[of env e]
    by (auto simp: repository_from_environment_def make_postgres_repository_def capability_service_from_environment_def
        make_token_service_def bindR_Inl_iff split: if_splits option.splits)
  then show ?thesis
    using Inl by simp
qed

definition demo_secret :: pystr where
  "demo_secret = replicate 32 115"

definition demo_environment :: environment where
  "demo_environment = map_of [(lit ''VERCEL'', lit ''1''), (lit ''POSTGRES_URL'', lit ''postgres://db''),
     (lit ''CULTURESHIFT_CAPABILITY_SECRET'', demo_secret), (lit ''SUPABASE_URL'', lit ''https://store/''),
     (lit ''SUPABASE_SECRET_KEY'', 34 # lit ''key'' @ [34]),
     (lit ''CULTURESHIFT_STUDIO_ORIGINS'', lit '' https://studio ,,https://studio'')]"


lemma demo_secret_bytes: "encode_utf8 demo_secret = Inr (replicate 32 115)"
proof -
  have "list_all plain_char demo_secret"
    by (simp add: demo_secret_def list_all_iff plain_char_def is_surrogate_def)
  moreover have "concat (map utf8_char demo_secret) = replicate 32 115"
    by (simp add: demo_secret_def utf8_char_def numeral_eq_Suc)
  ultimately show ?thesis
    by (simp add: decode_encode_utf8(1))
qed

lemmas demo_eval = environment_value.simps environ_get_def demo_environment_def lit_def unquoted_def strip_by_def
  is_space_def is_white_def startswith_def Let_def configured_storage_url_def configured_storage_key_def cors_origins_from_environment_def
  is_exact_origin_def dict_fromkeys_def

lemma demo_database_url:
  "environment_value demo_environment [''CULTURESHIFT_DATABASE_URL'', ''POSTGRES_URL''] = lit ''postgres://db''"
  by (simp add: demo_eval)

lemma demo_bucket_name: "environment_value demo_environment [''CULTURESHIFT_OBJECT_STORAGE_BUCKET''] = []"
  by (simp add: demo_eval)

lemma demo_storage_url: "configured_storage_url demo_environment = lit ''https://store/''"
  by (simp add: demo_eval)

lemma demo_storage_key: "configured_storage_key demo_environment = lit ''key''"
  by (simp add: demo_eval)

lemma demo_origins: "cors_origins_from_environment demo_environment = Inr [lit ''https://studio'']"
  by (simp add: demo_eval)

lemmas demo_values = demo_database_url demo_bucket_name demo_storage_url demo_storage_key demo_origins

lemma demo_object_config:
  "make_object_config (lit ''https://store/'') (lit ''key'') (lit ''cultureshift-private'') = Inr
     \<lparr>oc_base_url = lit ''https://store'', oc_service_key = lit ''key'', oc_bucket = lit ''cultureshift-private''\<rparr>"
proof -
  have "startswith (lit ''https://store/'') (lit ''https://'')" "strip_blanks (lit ''key'') \<noteq> []"
    "strip_blanks (lit ''cultureshift-private'') \<noteq> []" "rev (dropWhile ((=) 47) (rev (lit ''https://store/''))) = lit ''https://store''"
    by (simp_all add: demo_eval)
  then show ?thesis
    by (simp add: make_object_config_def)
qed

lemma demo_repository:
  "make_postgres_repository True (lit ''postgres://db'') = Inr (Postgres_Repository (lit ''postgres://db''))"
  by (simp add: demo_eval make_postgres_repository_def)

lemma demo_secret_value: "demo_environment (lit ''CULTURESHIFT_CAPABILITY_SECRET'') = Some demo_secret"
  by (simp add: demo_environment_def)

theorem settings_are_safe_witness:
  "(\<exists>st. settings_from_environment Inr True demo_environment = Inr st
      \<and> se_origins st = [lit ''https://studio''] \<and> 32 \<le> length (ts_secret (se_tokens st)))
   \<and> repository_from_environment Inr True (demo_environment(lit ''POSTGRES_URL'' := None)) = Inl RuntimeError
   \<and> cors_origins_from_environment (demo_environment(lit ''CULTURESHIFT_STUDIO_ORIGINS'' \<mapsto> lit ''*'')) = Inl RuntimeError"
proof -
  have tokens: "capability_service_from_environment demo_environment =
      Inr \<lparr>ts_secret = replicate 32 115, ts_audience = lit ''cultureshift-api''\<rparr>"
    by (simp add: capability_service_from_environment_def demo_secret_value demo_secret_bytes make_token_service_def)
  have stores: "stores_from_environment demo_environment = Inr (Cloud_Stores
      \<lparr>oc_base_url = lit ''https://store'', oc_service_key = lit ''key'', oc_bucket = lit ''cultureshift-private''\<rparr>)"
    by (simp add: stores_from_environment_def demo_values demo_object_config)
  have repository: "repository_from_environment Inr True demo_environment = Inr (Postgres_Repository (lit ''postgres://db''))"
    by (simp add: repository_from_environment_def postgres_database_url_def demo_values demo_repository)
  obtain st where run: "settings_from_environment Inr True demo_environment = Inr st"
    and origins: "se_origins st = [lit ''https://studio'']"
    by (simp add: settings_from_environment_def tokens stores repository demo_values)
  moreover have "repository_from_environment Inr True (demo_environment(lit ''POSTGRES_URL'' := None)) = Inl RuntimeError"
    by (simp add: repository_from_environment_def postgres_database_url_def demo_eval)
  moreover have "cors_origins_from_environment (demo_environment(lit ''CULTURESHIFT_STUDIO_ORIGINS'' \<mapsto> lit ''*''))
      = Inl RuntimeError"
    by (simp add: demo_eval)
  ultimately show ?thesis
    using settings_are_safe[OF run] by simp
qed

end
