(* ===== verification/Migrations.thy ===== *)
theory Migrations
  imports Lifecycle_Properties
begin

section \<open>Creating and upgrading the database\<close>

text \<open>
  \<open>SQLiteProjectRunRepository.initialize\<close> of \<open>src/cultureshift/repository.py\<close>, which runs when the application
  starts: it creates the missing tables, adds the columns that databases of earlier versions lack, and repairs
  the rows of earlier versions. Python's \<open>sqlite3\<close> opens a transaction at the first statement that modifies rows
  and not at a \<open>CREATE\<close> or \<open>ALTER\<close>, so the tables and columns made before the first \<open>UPDATE\<close> are there to stay
  while everything from that \<open>UPDATE\<close> on is rolled back when the repair raises.
\<close>

subsection \<open>The database file\<close>

text \<open>
  The names of the tables, the columns of \<open>project_run_contexts\<close>, the keys of its rows in the order a query
  returns them, and the rows. A column that is not there has no meaning in \<open>df_rows\<close>; adding it gives every
  row the default.
\<close>

record database_file =
  df_tables :: "string list"
  df_context_columns :: "string list"
  df_run_ids :: "uuid list"
  df_rows :: db

definition CONTEXT_COLUMNS :: "string list" where
  "CONTEXT_COLUMNS = [''run_id'', ''request_json'', ''analysis_json'', ''repair_attempted'',
     ''confirmed_brand_lock_json'', ''brand_lock_confirmed_at'', ''creative_brief_json'', ''ad_copy_json'',
     ''draft_fact_references_json'', ''draft_rule_ids_json'', ''draft_generated_at'', ''composition_json'',
     ''critique_json'', ''critic_reviewed_at'', ''initial_generation_count'', ''human_revision_count'',
     ''technical_attempt_count'']"

text \<open>The columns that \<open>initialize\<close> adds where they are missing, in its order.\<close>

definition ADDED_COLUMNS :: "string list" where
  "ADDED_COLUMNS = [''repair_attempted'', ''confirmed_brand_lock_json'', ''brand_lock_confirmed_at'',
     ''creative_brief_json'', ''ad_copy_json'', ''draft_fact_references_json'', ''draft_rule_ids_json'',
     ''draft_generated_at'', ''composition_json'', ''critique_json'', ''critic_reviewed_at'',
     ''initial_generation_count'', ''human_revision_count'', ''technical_attempt_count'']"

text \<open>The default of a new column: 0 for \<open>INTEGER NOT NULL DEFAULT 0\<close>, \<open>NULL\<close> for \<open>TEXT\<close>.\<close>

definition with_default :: "string \<Rightarrow> context_row \<Rightarrow> context_row" where
  "with_default name c =
     (if name = ''repair_attempted'' then c\<lparr>cx_repair_attempted := 0\<rparr>
      else if name = ''confirmed_brand_lock_json'' then c\<lparr>cx_confirmed_brand_lock := None\<rparr>
      else if name = ''brand_lock_confirmed_at'' then c\<lparr>cx_brand_lock_confirmed_at := None\<rparr>
      else if name = ''creative_brief_json'' then c\<lparr>cx_creative_brief := None\<rparr>
      else if name = ''ad_copy_json'' then c\<lparr>cx_ad_copy := None\<rparr>
      else if name = ''draft_fact_references_json'' then c\<lparr>cx_draft_fact_references := None\<rparr>
      else if name = ''draft_rule_ids_json'' then c\<lparr>cx_draft_rule_ids := None\<rparr>
      else if name = ''draft_generated_at'' then c\<lparr>cx_draft_generated_at := None\<rparr>
      else if name = ''composition_json'' then c\<lparr>cx_composition := None\<rparr>
      else if name = ''critique_json'' then c\<lparr>cx_critique := None\<rparr>
      else if name = ''critic_reviewed_at'' then c\<lparr>cx_critic_reviewed_at := None\<rparr>
      else if name = ''initial_generation_count'' then c\<lparr>cx_initial_generation_count := 0\<rparr>
      else if name = ''human_revision_count'' then c\<lparr>cx_human_revision_count := 0\<rparr>
      else if name = ''technical_attempt_count'' then c\<lparr>cx_technical_attempt_count := 0\<rparr>
      else c)"

definition on_contexts :: "(context_row \<Rightarrow> context_row) \<Rightarrow> db \<Rightarrow> db" where
  "on_contexts g d = d\<lparr>db_contexts := (\<lambda>rid. map_option g (db_contexts d rid))\<rparr>"

subsection \<open>The statements\<close>

type_synonym 'a file_prog = "(exn, database_file, 'a) prog"

text \<open>\<open>CREATE TABLE IF NOT EXISTS\<close>\<close>

definition create_table :: "string \<Rightarrow> unit file_prog" where
  "create_table name f = (Inr (), if name \<in> set (df_tables f) then f
     else f\<lparr>df_tables := df_tables f @ [name]\<rparr>)"

definition create_contexts :: "unit file_prog" where
  "create_contexts f = (Inr (), if ''project_run_contexts'' \<in> set (df_tables f) then f
     else f\<lparr>df_tables := df_tables f @ [''project_run_contexts''], df_context_columns := CONTEXT_COLUMNS\<rparr>)"

text \<open>\<open>ALTER TABLE project_run_contexts ADD COLUMN\<close>, which fails on a column that is there.\<close>

definition add_column :: "string \<Rightarrow> unit file_prog" where
  "add_column name f = (if name \<in> set (df_context_columns f) then (Inl OtherException, f)
     else (Inr (), f\<lparr>df_context_columns := df_context_columns f @ [name],
       df_rows := on_contexts (with_default name) (df_rows f)\<rparr>))"

fun add_columns :: "string list \<Rightarrow> unit file_prog" where
  "add_columns [] = return ()"
| "add_columns (name # names) = bind (add_column name) (\<lambda>_. add_columns names)"

text \<open>The columns that \<open>PRAGMA table_info\<close> names are read once, before the first is added.\<close>

definition add_missing_columns :: "unit file_prog" where
  "add_missing_columns = bind (reads (\<lambda>f. Inr (df_context_columns f))) (\<lambda>columns.
     add_columns (filter (\<lambda>name. name \<notin> set columns) ADDED_COLUMNS))"

definition with_count :: "context_row \<Rightarrow> context_row" where
  "with_count c = (if cx_composition c \<noteq> None \<and> cx_initial_generation_count c = 0
     then c\<lparr>cx_initial_generation_count := 1\<rparr> else c)"

definition set_generation_counts :: "unit file_prog" where
  "set_generation_counts f = (Inr (), f\<lparr>df_rows := on_contexts with_count (df_rows f)\<rparr>)"

definition is_legacy_draft :: "context_row \<Rightarrow> bool" where
  "is_legacy_draft c \<longleftrightarrow> cx_draft_generated_at c \<noteq> None \<and> cx_draft_fact_references c = None"

definition legacy_drafts :: "database_file \<Rightarrow> (uuid \<times> brand_lock option) list" where
  "legacy_drafts f = concat (map (\<lambda>rid. case db_contexts (df_rows f) rid of
     None \<Rightarrow> []
   | Some c \<Rightarrow> if is_legacy_draft c then [(rid, cx_confirmed_brand_lock c)] else []) (df_run_ids f))"

definition on_rows :: "(exn, db, 'a) prog \<Rightarrow> 'a file_prog" where
  "on_rows m f = (case m (df_rows f) of (res, d) \<Rightarrow> (res, f\<lparr>df_rows := d\<rparr>))"

definition with_facts :: "brand_lock \<Rightarrow> context_row \<Rightarrow> context_row" where
  "with_facts lock c = c\<lparr>cx_draft_fact_references := Some (bl_verified_product_facts lock)\<rparr>"

fun fill_facts :: "(uuid \<times> brand_lock option) list \<Rightarrow> unit file_prog" where
  "fill_facts [] = return ()"
| "fill_facts ((rid, None) # rows) = raise ValueError"
| "fill_facts ((rid, Some lock) # rows) =
     bind (on_rows (update_contexts rid (\<lambda>_. True) (with_facts lock))) (\<lambda>_. fill_facts rows)"

text \<open>The transaction that the first \<open>UPDATE\<close> opens and \<open>_connect\<close> commits or rolls back.\<close>

definition transact :: "'a file_prog \<Rightarrow> 'a file_prog" where
  "transact body f = (case body f of (Inl e, _) \<Rightarrow> (Inl e, f) | (Inr a, f') \<Rightarrow> (Inr a, f'))"

definition repair_rows :: "unit file_prog" where
  "repair_rows = bind set_generation_counts (\<lambda>_. bind (create_table ''project_run_revisions'') (\<lambda>_.
     bind (create_table ''project_run_operations'') (\<lambda>_.
     bind (reads (\<lambda>f. Inr (legacy_drafts f))) fill_facts)))"

text \<open>The argument is the outcome of \<open>self._database.parent.mkdir\<close>.\<close>

definition initialize :: "unit result \<Rightarrow> unit file_prog" where
  "initialize mkdir = bind (liftR mkdir) (\<lambda>_. bind (create_table ''project_runs'') (\<lambda>_.
     bind create_contexts (\<lambda>_. bind add_missing_columns (\<lambda>_. transact repair_rows))))"

subsection \<open>What the statements do\<close>

lemma on_contexts_simps [simp]:
  "db_runs (on_contexts g d) = db_runs d" "db_revisions (on_contexts g d) = db_revisions d"
  "db_operations (on_contexts g d) = db_operations d" "db_operation_seq (on_contexts g d) = db_operation_seq d"
  "db_contexts (on_contexts g d) rid = map_option g (db_contexts d rid)"
  "dom (db_contexts (on_contexts g d)) = dom (db_contexts d)"
  by (auto simp: on_contexts_def dom_def)

lemma on_contexts_comp: "on_contexts g (on_contexts h d) = on_contexts (g \<circ> h) d"
  by (simp add: on_contexts_def option.map_comp o_def)

lemma on_contexts_id:
  assumes "\<And>rid c. db_contexts d rid = Some c \<Longrightarrow> g c = c"
  shows "on_contexts g d = d"
proof -
  have "(\<lambda>rid. map_option g (db_contexts d rid)) = db_contexts d"
    using assms by (auto simp: fun_eq_iff map_option_case split: option.split)
  then show ?thesis
    by (simp add: on_contexts_def)
qed

lemma on_contexts_cong:
  assumes "\<And>rid c. db_contexts d rid = Some c \<Longrightarrow> g c = h c"
  shows "on_contexts g d = on_contexts h d"
  using assms by (auto simp: on_contexts_def fun_eq_iff map_option_case split: option.split
      intro!: arg_cong[where f = "\<lambda>m. d\<lparr>db_contexts := m\<rparr>"])

lemma add_columns_run:
  assumes "distinct names" "set names \<inter> set (df_context_columns f) = {}"
  shows "add_columns names f = (Inr (), f\<lparr>df_context_columns := df_context_columns f @ names,
    df_rows := on_contexts (fold with_default names) (df_rows f)\<rparr>)"
  using assms
proof (induction names arbitrary: f)
  case Nil
  then show ?case
    using on_contexts_id[of "df_rows f" id] by (simp add: id_def)
next
  case (Cons name names)
  define f' where "f' = f\<lparr>df_context_columns := df_context_columns f @ [name],
    df_rows := on_contexts (with_default name) (df_rows f)\<rparr>"
  have "add_column name f = (Inr (), f')"
    using Cons.prems by (simp add: add_column_def f'_def)
  moreover have "add_columns names f' = (Inr (), f'\<lparr>df_context_columns := df_context_columns f' @ names,
      df_rows := on_contexts (fold with_default names) (df_rows f')\<rparr>)"
    using Cons.prems by (intro Cons.IH) (auto simp: f'_def)
  ultimately show ?case
    by (simp add: bind_def f'_def on_contexts_comp o_def)
qed

text \<open>What the repair makes of the rows of the table.\<close>

definition completed :: "context_row \<Rightarrow> context_row" where
  "completed c = (if is_legacy_draft c
     then (case cx_confirmed_brand_lock c of None \<Rightarrow> c | Some lock \<Rightarrow> with_facts lock c) else c)"

lemma legacy_drafts_iff:
  "(rid, lock) \<in> set (legacy_drafts f) \<longleftrightarrow> rid \<in> set (df_run_ids f)
     \<and> (\<exists>c. db_contexts (df_rows f) rid = Some c \<and> is_legacy_draft c \<and> lock = cx_confirmed_brand_lock c)"
proof -
  have "(rid, lock) \<in> set (legacy_drafts f) \<longleftrightarrow> (\<exists>r \<in> set (df_run_ids f). \<exists>c. db_contexts (df_rows f) r = Some c
      \<and> is_legacy_draft c \<and> r = rid \<and> cx_confirmed_brand_lock c = lock)"
    unfolding legacy_drafts_def set_concat set_map UN_iff bex_simps image_iff
    by (rule bex_cong[OF refl], rename_tac r, case_tac "db_contexts (df_rows f) r") auto
  then show ?thesis
    by auto
qed

lemma fill_facts_raises: "(rid, None) \<in> set rows \<Longrightarrow> fst (fill_facts rows f) = Inl ValueError"
proof (induction rows arbitrary: f rule: fill_facts.induct)
  case (3 rid lock rows)
  then show ?case
    by (auto simp: bind_def on_rows_def update_contexts_def split: option.split)
qed auto

definition facts_for :: "(uuid \<times> brand_lock option) list \<Rightarrow> db \<Rightarrow> db" where
  "facts_for rows d = d\<lparr>db_contexts := (\<lambda>rid. case map_of rows rid of
     Some (Some lock) \<Rightarrow> map_option (with_facts lock) (db_contexts d rid)
   | _ \<Rightarrow> db_contexts d rid)\<rparr>"

lemma facts_for_Nil [simp]: "facts_for [] d = d"
  by (simp add: facts_for_def)

lemma facts_for_Cons:
  assumes "rid \<notin> fst ` set rows" "db_contexts d rid = Some c"
  shows "facts_for rows (d\<lparr>db_contexts := (db_contexts d)(rid \<mapsto> with_facts lock c)\<rparr>) = facts_for ((rid, Some lock) # rows) d"
proof -
  have "map_of rows rid = None"
    using assms(1) by (simp add: map_of_eq_None_iff)
  then have "db_contexts (facts_for rows (d\<lparr>db_contexts := (db_contexts d)(rid \<mapsto> with_facts lock c)\<rparr>)) r
      = db_contexts (facts_for ((rid, Some lock) # rows) d) r" for r
    using assms(2) by (simp add: facts_for_def split: option.split)
  then show ?thesis
    by (simp add: facts_for_def fun_eq_iff)
qed

lemma fill_facts_run:
  assumes "\<And>rid lock. (rid, lock) \<in> set rows \<Longrightarrow> lock \<noteq> None \<and> rid \<in> dom (db_contexts (df_rows f))"
    and "distinct (map fst rows)"
  shows "fill_facts rows f = (Inr (), f\<lparr>df_rows := facts_for rows (df_rows f)\<rparr>)"
  using assms
proof (induction rows arbitrary: f rule: fill_facts.induct)
  case 1
  then show ?case by simp
next
  case (2 rid rows)
  then show ?case by force
next
  case (3 rid lock rows)
  obtain c where c: "db_contexts (df_rows f) rid = Some c"
    using "3.prems"(1)[of rid "Some lock"] by auto
  let ?d = "(df_rows f)\<lparr>db_contexts := (db_contexts (df_rows f))(rid \<mapsto> with_facts lock c)\<rparr>"
  have "on_rows (update_contexts rid (\<lambda>_. True) (with_facts lock)) f = (Inr 1, f\<lparr>df_rows := ?d\<rparr>)"
    using c by (simp add: on_rows_def update_contexts_def)
  moreover have "fill_facts rows (f\<lparr>df_rows := ?d\<rparr>) = (Inr (), (f\<lparr>df_rows := ?d\<rparr>)\<lparr>df_rows := facts_for rows (df_rows (f\<lparr>df_rows := ?d\<rparr>))\<rparr>)"
  proof (rule "3.IH")
    show "distinct (map fst rows)"
      using "3.prems"(2) by simp
    show "l \<noteq> None \<and> r \<in> dom (db_contexts (df_rows (f\<lparr>df_rows := ?d\<rparr>)))" if "(r, l) \<in> set rows" for r l
      using that "3.prems"(1)[of r l] by auto
  qed
  moreover have "facts_for rows ?d = facts_for ((rid, Some lock) # rows) (df_rows f)"
    using c "3.prems"(2) by (intro facts_for_Cons) simp_all
  ultimately show ?case
    by (simp add: bind_def)
qed

lemma legacy_draft_ids: "map fst (legacy_drafts f) = filter (\<lambda>rid. case db_contexts (df_rows f) rid of
    None \<Rightarrow> False | Some c \<Rightarrow> is_legacy_draft c) (df_run_ids f)"
proof -
  have "map fst (concat (map (\<lambda>rid. case m rid of None \<Rightarrow> []
        | Some c \<Rightarrow> if is_legacy_draft c then [(rid, cx_confirmed_brand_lock c)] else []) ids))
      = filter (\<lambda>rid. case m rid of None \<Rightarrow> False | Some c \<Rightarrow> is_legacy_draft c) ids" for m :: "uuid \<rightharpoonup> context_row" and ids
    by (induction ids) (simp_all split: option.split)
  then show ?thesis
    by (simp add: legacy_drafts_def)
qed

text \<open>The query sees every row once.\<close>

definition file_ok :: "database_file \<Rightarrow> bool" where
  "file_ok f \<longleftrightarrow> distinct (df_run_ids f) \<and> set (df_run_ids f) = dom (db_contexts (df_rows f))
     \<and> distinct (df_context_columns f)
     \<and> (''project_run_contexts'' \<in> set (df_tables f) \<or> df_run_ids f = [])"

lemma legacy_repair:
  assumes "file_ok f" "\<And>rid c. db_contexts (df_rows f) rid = Some c \<Longrightarrow> is_legacy_draft c \<Longrightarrow> cx_confirmed_brand_lock c \<noteq> None"
  shows "fill_facts (legacy_drafts f) f = (Inr (), f\<lparr>df_rows := on_contexts completed (df_rows f)\<rparr>)"
proof -
  have ids: "distinct (map fst (legacy_drafts f))"
    using assms(1) by (simp add: legacy_draft_ids file_ok_def)
  have "map_of (legacy_drafts f) rid = (case db_contexts (df_rows f) rid of None \<Rightarrow> None
      | Some c \<Rightarrow> if is_legacy_draft c then Some (cx_confirmed_brand_lock c) else None)" for rid
  proof (cases "map_of (legacy_drafts f) rid")
    case None
    then have "rid \<notin> set (map fst (legacy_drafts f))"
      by (simp add: map_of_eq_None_iff)
    moreover have "rid \<in> set (df_run_ids f)" if "db_contexts (df_rows f) rid = Some c" for c
      using that assms(1) by (auto simp: file_ok_def)
    ultimately show ?thesis
      using None by (auto simp: legacy_draft_ids split: option.splits)
  next
    case (Some lock)
    then show ?thesis
      using map_of_SomeD[OF Some] by (auto simp: legacy_drafts_iff)
  qed
  then have "db_contexts (facts_for (legacy_drafts f) (df_rows f)) rid = map_option completed (db_contexts (df_rows f) rid)" for rid
    using assms(2)[of rid] by (auto simp: facts_for_def completed_def split: option.split)
  then have "facts_for (legacy_drafts f) (df_rows f) = on_contexts completed (df_rows f)"
    by (simp add: facts_for_def on_contexts_def fun_eq_iff)
  moreover have "fill_facts (legacy_drafts f) f = (Inr (), f\<lparr>df_rows := facts_for (legacy_drafts f) (df_rows f)\<rparr>)"
    using assms(2) ids by (intro fill_facts_run) (auto simp: legacy_drafts_iff)
  ultimately show ?thesis
    by simp
qed

subsection \<open>The upgrade as a whole\<close>

definition missing_columns :: "database_file \<Rightarrow> string list" where
  "missing_columns f = (if ''project_run_contexts'' \<in> set (df_tables f)
     then filter (\<lambda>name. name \<notin> set (df_context_columns f)) ADDED_COLUMNS else [])"

definition add_table :: "string \<Rightarrow> string list \<Rightarrow> string list" where
  "add_table name tables = (if name \<in> set tables then tables else tables @ [name])"

definition with_schema :: "database_file \<Rightarrow> database_file" where
  "with_schema f = f\<lparr>df_tables := add_table ''project_run_contexts'' (add_table ''project_runs'' (df_tables f)),
     df_context_columns := (if ''project_run_contexts'' \<in> set (df_tables f) then df_context_columns f else CONTEXT_COLUMNS)
       @ missing_columns f,
     df_rows := on_contexts (fold with_default (missing_columns f)) (df_rows f)\<rparr>"

lemma ADDED_in_CONTEXT: "set ADDED_COLUMNS \<subseteq> set CONTEXT_COLUMNS" and distinct_columns: "distinct ADDED_COLUMNS" "distinct CONTEXT_COLUMNS"
  by (simp_all add: ADDED_COLUMNS_def CONTEXT_COLUMNS_def)

lemma initialize_schema:
  "initialize mkdir f = (case mkdir of Inl e \<Rightarrow> (Inl e, f) | Inr _ \<Rightarrow> transact repair_rows (with_schema f))"
proof (cases mkdir)
  case (Inr u)
  define g where "g = snd (create_contexts (snd (create_table ''project_runs'' f)))"
  have start: "initialize mkdir f = bind add_missing_columns (\<lambda>_. transact repair_rows) g"
    using Inr by (simp add: initialize_def bind_def create_table_def create_contexts_def g_def)
  have g: "df_tables g = df_tables (with_schema f)" "df_run_ids g = df_run_ids f" "df_rows g = df_rows f"
    "df_context_columns g = (if ''project_run_contexts'' \<in> set (df_tables f) then df_context_columns f else CONTEXT_COLUMNS)"
    by (simp_all add: g_def create_contexts_def create_table_def with_schema_def add_table_def)
  have missing: "filter (\<lambda>name. name \<notin> set (df_context_columns g)) ADDED_COLUMNS = missing_columns f"
    using ADDED_in_CONTEXT by (auto simp: g missing_columns_def filter_empty_conv)
  have "add_columns (missing_columns f) g = (Inr (), g\<lparr>df_context_columns := df_context_columns g @ missing_columns f,
      df_rows := on_contexts (fold with_default (missing_columns f)) (df_rows g)\<rparr>)"
    using distinct_columns by (intro add_columns_run) (auto simp: missing[symmetric])
  moreover have "g\<lparr>df_context_columns := df_context_columns g @ missing_columns f,
      df_rows := on_contexts (fold with_default (missing_columns f)) (df_rows g)\<rparr> = with_schema f"
    using g by (cases g; cases f) (simp add: with_schema_def)
  ultimately have "add_missing_columns g = (Inr (), with_schema f)"
    by (simp add: add_missing_columns_def missing)
  then show ?thesis
    unfolding start using Inr by (simp add: bind_def)
qed (simp add: initialize_def bind_def)

lemma with_schema_ok: "file_ok f \<Longrightarrow> file_ok (with_schema f)"
  using distinct_columns
  by (auto simp: file_ok_def with_schema_def missing_columns_def add_table_def)

definition final_tables :: "database_file \<Rightarrow> string list" where
  "final_tables f = add_table ''project_run_operations'' (add_table ''project_run_revisions'' (df_tables f))"

lemma repair_rows_run:
  assumes "file_ok f"
  shows "transact repair_rows f =
    (if \<exists>c \<in> ran (db_contexts (df_rows f)). is_legacy_draft c \<and> cx_confirmed_brand_lock c = None then (Inl ValueError, f)
     else (Inr (), f\<lparr>df_tables := final_tables f, df_rows := on_contexts (completed \<circ> with_count) (df_rows f)\<rparr>))"
proof -
  define g where "g = f\<lparr>df_tables := final_tables f, df_rows := on_contexts with_count (df_rows f)\<rparr>"
  have run: "repair_rows f = fill_facts (legacy_drafts g) g"
  proof -
    have "snd (create_table ''project_run_operations'' (snd (create_table ''project_run_revisions'' (snd (set_generation_counts f))))) = g"
      by (cases f) (simp add: set_generation_counts_def create_table_def g_def final_tables_def add_table_def)
    then show ?thesis
      by (simp add: repair_rows_def bind_def split_def set_generation_counts_def create_table_def)
  qed
  have with_count: "is_legacy_draft (with_count c) = is_legacy_draft c" "cx_confirmed_brand_lock (with_count c) = cx_confirmed_brand_lock c" for c
    by (simp_all add: with_count_def is_legacy_draft_def)
  have g: "file_ok g"
    using assms by (auto simp: file_ok_def g_def final_tables_def add_table_def)
  show ?thesis
  proof (cases "\<exists>c \<in> ran (db_contexts (df_rows f)). is_legacy_draft c \<and> cx_confirmed_brand_lock c = None")
    case True
    then obtain rid c where c: "db_contexts (df_rows f) rid = Some c" "is_legacy_draft c" "cx_confirmed_brand_lock c = None"
      by (auto simp: ran_def)
    then have "rid \<in> set (df_run_ids g)"
      using assms by (auto simp: file_ok_def g_def)
    then have "(rid, None) \<in> set (legacy_drafts g)"
      using c with_count[of c] by (auto simp: legacy_drafts_iff g_def)
    then have "fst (repair_rows f) = Inl ValueError"
      by (simp add: run fill_facts_raises)
    then show ?thesis
      using True by (cases "repair_rows f") (simp add: transact_def)
  next
    case False
    have "fill_facts (legacy_drafts g) g = (Inr (), g\<lparr>df_rows := on_contexts completed (df_rows g)\<rparr>)"
      using False with_count by (intro legacy_repair[OF g]) (auto simp: g_def ran_def)
    then show ?thesis
      using False by (simp add: transact_def run g_def on_contexts_comp)
  qed
qed

text \<open>The rows after the upgrade, and the rows the upgrade does not touch again.\<close>

definition upgraded :: "database_file \<Rightarrow> context_row \<Rightarrow> context_row" where
  "upgraded f = completed \<circ> with_count \<circ> fold with_default (missing_columns f)"

definition is_current :: "context_row \<Rightarrow> bool" where
  "is_current c \<longleftrightarrow> \<not> is_legacy_draft c \<and> (cx_composition c \<noteq> None \<longrightarrow> cx_initial_generation_count c \<noteq> 0)"

lemma current_rows_stay: "is_current c \<Longrightarrow> completed (with_count c) = c"
  by (auto simp: is_current_def completed_def with_count_def)

lemma repaired_rows_current:
  "\<not> (is_legacy_draft c \<and> cx_confirmed_brand_lock c = None) \<Longrightarrow> is_current (completed (with_count c))"
  by (auto simp: is_current_def completed_def with_count_def is_legacy_draft_def with_facts_def split: option.split)

definition has_unlocked_draft :: "database_file \<Rightarrow> bool" where
  "has_unlocked_draft f \<longleftrightarrow> (\<exists>c \<in> ran (db_contexts (df_rows f)).
     is_legacy_draft (fold with_default (missing_columns f) c)
     \<and> cx_confirmed_brand_lock (fold with_default (missing_columns f) c) = None)"

lemma ran_on_contexts: "ran (db_contexts (on_contexts g d)) = g ` ran (db_contexts d)"
  by (auto simp: ran_def image_iff)

lemma initialize_run:
  assumes "file_ok f"
  shows "has_unlocked_draft f \<Longrightarrow> initialize (Inr ()) f = (Inl ValueError, with_schema f)"
    and "\<not> has_unlocked_draft f \<Longrightarrow> initialize (Inr ()) f = (Inr (), (with_schema f)\<lparr>df_tables := final_tables (with_schema f),
      df_rows := on_contexts (upgraded f) (df_rows f)\<rparr>)"
proof -
  have rows: "df_rows (with_schema f) = on_contexts (fold with_default (missing_columns f)) (df_rows f)"
    by (simp add: with_schema_def)
  have "(\<exists>c \<in> ran (db_contexts (df_rows (with_schema f))). is_legacy_draft c \<and> cx_confirmed_brand_lock c = None)
      \<longleftrightarrow> has_unlocked_draft f"
    by (simp add: rows ran_on_contexts has_unlocked_draft_def)
  then have run: "initialize (Inr ()) f = (if has_unlocked_draft f then (Inl ValueError, with_schema f)
      else (Inr (), (with_schema f)\<lparr>df_tables := final_tables (with_schema f),
        df_rows := on_contexts (completed \<circ> with_count) (df_rows (with_schema f))\<rparr>))"
    by (simp only: initialize_schema sum.case repair_rows_run[OF with_schema_ok[OF assms]])
  have "on_contexts (completed \<circ> with_count) (df_rows (with_schema f)) = on_contexts (upgraded f) (df_rows f)"
    by (simp add: rows on_contexts_comp upgraded_def comp_assoc)
  with run show "has_unlocked_draft f \<Longrightarrow> initialize (Inr ()) f = (Inl ValueError, with_schema f)"
    and "\<not> has_unlocked_draft f \<Longrightarrow> initialize (Inr ()) f = (Inr (), (with_schema f)\<lparr>df_tables := final_tables (with_schema f),
      df_rows := on_contexts (upgraded f) (df_rows f)\<rparr>)"
    by simp_all
qed

lemma current_file_stays:
  assumes "file_ok f" "set (df_tables f) \<supseteq> {''project_runs'', ''project_run_contexts'', ''project_run_revisions'', ''project_run_operations''}"
    "set ADDED_COLUMNS \<subseteq> set (df_context_columns f)" "\<And>c. c \<in> ran (db_contexts (df_rows f)) \<Longrightarrow> is_current c"
  shows "initialize (Inr ()) f = (Inr (), f)"
proof -
  have missing: "missing_columns f = []"
    using assms(3) by (auto simp: missing_columns_def filter_empty_conv)
  have "on_contexts (upgraded f) (df_rows f) = df_rows f"
    using assms(4) by (intro on_contexts_id) (simp add: upgraded_def missing current_rows_stay ranI)
  moreover have "\<not> has_unlocked_draft f"
    using assms(4) by (auto simp: has_unlocked_draft_def missing is_current_def)
  moreover have "df_tables (with_schema f) = df_tables f" "final_tables (with_schema f) = df_tables f"
    "df_context_columns (with_schema f) = df_context_columns f" "df_run_ids (with_schema f) = df_run_ids f"
    using assms(2) by (simp_all add: with_schema_def final_tables_def add_table_def missing)
  moreover from calculation have "(with_schema f)\<lparr>df_tables := final_tables (with_schema f),
      df_rows := on_contexts (upgraded f) (df_rows f)\<rparr> = f"
    by (intro database_file.equality) simp_all
  ultimately show ?thesis
    using initialize_run(2)[OF assms(1)] by simp
qed

subsection \<open>Properties\<close>

text \<open>
  C24. Starting on a database of any earlier version either upgrades it completely or refuses it. After a start
  that succeeds all tables and columns are there, only rows of \<open>project_run_contexts\<close> have changed and each is
  the old row with the defaults of the new columns, a generation with_count for its composition and the facts of
  its confirmed lock for its draft; no row of an earlier version is left, and a second start changes nothing. A
  start that fails on the database does so with ValueError for a draft without a confirmed lock, and has
  added tables and columns but repaired no row.
\<close>

theorem initialize_upgrades:
  assumes "file_ok f" "initialize mkdir f = (res, f')"
  shows "case res of
      Inr _ \<Rightarrow>
        {''project_runs'', ''project_run_contexts'', ''project_run_revisions'', ''project_run_operations''} \<subseteq> set (df_tables f')
        \<and> set ADDED_COLUMNS \<subseteq> set (df_context_columns f') \<and> file_ok f'
        \<and> (\<forall>rid. db_contexts (df_rows f') rid = map_option (upgraded f) (db_contexts (df_rows f) rid))
        \<and> (\<exists>contexts. df_rows f' = (df_rows f)\<lparr>db_contexts := contexts\<rparr>)
        \<and> (\<forall>c \<in> ran (db_contexts (df_rows f')). is_current c)
        \<and> initialize mkdir f' = (Inr (), f')
    | Inl e \<Rightarrow> mkdir = Inl e \<and> f' = f
        \<or> e = ValueError
          \<and> df_rows f' = on_contexts (fold with_default (missing_columns f)) (df_rows f)
          \<and> (\<exists>c \<in> ran (db_contexts (df_rows f')). cx_draft_generated_at c \<noteq> None \<and> cx_draft_fact_references c = None
               \<and> cx_confirmed_brand_lock c = None)"
proof (cases mkdir)
  case (Inl e)
  then have "res = Inl e" "f' = f"
    using assms(2) by (simp_all add: initialize_schema)
  then show ?thesis
    using Inl by simp
next
  case (Inr u)
  let ?reset = "fold with_default (missing_columns f)"
  show ?thesis
  proof (cases "has_unlocked_draft f")
    case True
    then have "res = Inl ValueError" "f' = with_schema f"
      using assms(2) Inr initialize_run(1)[OF assms(1)] by simp_all
    moreover from this have rows: "df_rows f' = on_contexts ?reset (df_rows f)"
      by (simp add: with_schema_def)
    moreover have "\<exists>c \<in> ran (db_contexts (df_rows f')). cx_draft_generated_at c \<noteq> None \<and> cx_draft_fact_references c = None
        \<and> cx_confirmed_brand_lock c = None"
      using True by (auto simp: rows ran_on_contexts has_unlocked_draft_def is_legacy_draft_def)
    ultimately show ?thesis
      by simp
  next
    case False
    then have run: "res = Inr ()" "f' = (with_schema f)\<lparr>df_tables := final_tables (with_schema f), df_rows := on_contexts (upgraded f) (df_rows f)\<rparr>"
      using assms(2) Inr initialize_run(2)[OF assms(1)] by simp_all
    have rows: "df_rows f' = on_contexts (upgraded f) (df_rows f)"
      by (simp add: run)
    have tables: "{''project_runs'', ''project_run_contexts'', ''project_run_revisions'', ''project_run_operations''} \<subseteq> set (df_tables f')"
      by (auto simp: run final_tables_def with_schema_def add_table_def)
    have columns: "set ADDED_COLUMNS \<subseteq> set (df_context_columns f')"
      using ADDED_in_CONTEXT by (auto simp: run with_schema_def missing_columns_def)
    have ok: "file_ok f'"
      using with_schema_ok[OF assms(1)] by (auto simp: file_ok_def run with_schema_def final_tables_def add_table_def)
    have current: "\<forall>c \<in> ran (db_contexts (df_rows f')). is_current c"
      using False by (auto simp: rows ran_on_contexts has_unlocked_draft_def upgraded_def intro!: repaired_rows_current)
    have "initialize mkdir f' = (Inr (), f')"
      using current_file_stays[OF ok tables columns] current Inr by simp
    moreover have "\<exists>contexts. df_rows f' = (df_rows f)\<lparr>db_contexts := contexts\<rparr>"
      by (auto simp: rows on_contexts_def)
    ultimately show ?thesis
      using run(1) tables columns ok current rows by simp
  qed
qed

text \<open>A database of an early version: no cited facts, no generation count, no revisions and no operations.\<close>

definition early_file :: database_file where
  "early_file = \<lparr>df_tables = [''project_runs'', ''project_run_contexts''],
     df_context_columns = filter (\<lambda>name. name \<notin> {''draft_fact_references_json'', ''initial_generation_count''}) CONTEXT_COLUMNS,
     df_run_ids = [1], df_rows = demo_db IN_PROGRESS 3 (demo_context 4) None []\<rparr>"

lemma early_file_ok: "file_ok early_file"
  using distinct_columns by (simp add: file_ok_def early_file_def demo_db_def)

lemma early_missing: "missing_columns early_file = [''draft_fact_references_json'', ''initial_generation_count'']"
  by (simp add: missing_columns_def early_file_def ADDED_COLUMNS_def CONTEXT_COLUMNS_def)

lemma early_row: "fold with_default (missing_columns early_file) (demo_context 4)
    = (demo_context 4)\<lparr>cx_draft_fact_references := None, cx_initial_generation_count := 0\<rparr>"
  by (simp add: early_missing with_default_def)

lemma early_start: "\<exists>f'. initialize (Inr ()) early_file = (Inr (), f')"
proof -
  have "ran (db_contexts (df_rows early_file)) = {demo_context 4}"
    by (simp add: early_file_def demo_db_def)
  moreover have "cx_confirmed_brand_lock (fold with_default (missing_columns early_file) (demo_context 4)) \<noteq> None"
    unfolding early_row by (simp add: demo_context_def)
  ultimately have "\<not> has_unlocked_draft early_file"
    by (simp add: has_unlocked_draft_def)
  then show ?thesis
    using initialize_run(2)[OF early_file_ok] by blast
qed

theorem initialize_upgrades_witness:
  "\<exists>f'. initialize (Inr ()) early_file = (Inr (), f')
     \<and> cx_draft_fact_references (the (db_contexts (df_rows f') 1)) = Some demo_facts
     \<and> cx_initial_generation_count (the (db_contexts (df_rows f') 1)) = 1
     \<and> initialize (Inr ()) f' = (Inr (), f')"
proof -
  obtain f' where run: "initialize (Inr ()) early_file = (Inr (), f')"
    using early_start by auto
  note upgrade = initialize_upgrades[OF early_file_ok run]
  have "db_contexts (df_rows early_file) 1 = Some (demo_context 4)"
    by (simp add: early_file_def demo_db_def)
  then have row: "db_contexts (df_rows f') 1 = Some (completed (with_count (fold with_default (missing_columns early_file) (demo_context 4))))"
    using upgrade by (simp add: upgraded_def)
  have "initialize (Inr ()) f' = (Inr (), f')"
    using upgrade by simp
  moreover have "cx_draft_fact_references (the (db_contexts (df_rows f') 1)) = Some demo_facts"
    "cx_initial_generation_count (the (db_contexts (df_rows f') 1)) = 1"
    unfolding row early_row
    by (simp_all add: completed_def with_count_def is_legacy_draft_def with_facts_def demo_context_def demo_facts_def)
  ultimately show ?thesis
    using run by blast
qed

text \<open>The database that \<open>initialize\<close> makes where there is none.\<close>

definition no_file :: database_file where
  "no_file = \<lparr>df_tables = [], df_context_columns = [], df_run_ids = [], df_rows = empty_db\<rparr>"

definition complete_file :: "database_file \<Rightarrow> bool" where
  "complete_file f \<longleftrightarrow> file_ok f
     \<and> {''project_runs'', ''project_run_contexts'', ''project_run_revisions'', ''project_run_operations''} \<subseteq> set (df_tables f)
     \<and> set ADDED_COLUMNS \<subseteq> set (df_context_columns f)"

lemma reachable_rows_current:
  assumes "reachable s" "db_contexts (sys_db s) rid = Some c"
  shows "is_current c"
proof -
  obtain p where "in_phase p (view_run rid (sys_db s))"
    using reachable_inv[OF assms(1)] by (auto simp: lifecycle_inv_def)
  then have "context_stage (phase_stage p) c"
    using assms(2) by (simp add: in_phase_def view_run_select)
  then show ?thesis
    by (auto simp: context_stage_def is_current_def is_legacy_draft_def)
qed

text \<open>
  C23. The first start, where there is no file, makes the empty database that the lifecycle starts from; and
  whenever the application is started again, in whatever state its requests have left the runs, it starts and
  changes nothing.
\<close>

theorem restart_keeps_the_database:
  assumes "reachable s" "complete_file f" "df_rows f = sys_db s"
  shows "(\<exists>f0. initialize (Inr ()) no_file = (Inr (), f0) \<and> complete_file f0 \<and> df_rows f0 = sys_db init_sys)
    \<and> initialize (Inr ()) f = (Inr (), f)"
proof
  have ok: "file_ok no_file" and missing: "missing_columns no_file = []"
    by (simp_all add: file_ok_def no_file_def empty_db_def missing_columns_def)
  have rows: "df_rows no_file = empty_db"
    by (simp add: no_file_def)
  have none: "ran (db_contexts empty_db) = {}" "on_contexts g empty_db = empty_db" for g
    by (simp_all add: empty_db_def on_contexts_def)
  have "initialize (Inr ()) no_file = (Inr (), (with_schema no_file)\<lparr>df_tables := final_tables (with_schema no_file), df_rows := empty_db\<rparr>)"
    using initialize_run(2)[OF ok] by (simp add: has_unlocked_draft_def rows none)
  then show "\<exists>f0. initialize (Inr ()) no_file = (Inr (), f0) \<and> complete_file f0 \<and> df_rows f0 = sys_db init_sys"
    using ADDED_in_CONTEXT distinct_columns
    by (auto simp: complete_file_def file_ok_def with_schema_def final_tables_def add_table_def no_file_def missing_columns_def
        init_sys_def empty_db_def)
  show "initialize (Inr ()) f = (Inr (), f)"
    using assms reachable_rows_current[OF assms(1)]
    by (intro current_file_stays) (auto simp: complete_file_def ran_def)
qed

theorem restart_keeps_the_database_witness:
  "\<exists>f. reachable (demo_sys READY 6 5 []) \<and> df_rows f = sys_db (demo_sys READY 6 5 []) \<and> initialize (Inr ()) f = (Inr (), f)"
proof -
  let ?f = "\<lparr>df_tables = [''project_runs'', ''project_run_contexts'', ''project_run_revisions'', ''project_run_operations''],
    df_context_columns = CONTEXT_COLUMNS, df_run_ids = [1], df_rows = sys_db (demo_sys READY 6 5 [])\<rparr>"
  have "complete_file ?f"
    using ADDED_in_CONTEXT distinct_columns by (simp add: complete_file_def file_ok_def demo_sys_def demo_db_def)
  then show ?thesis
    using restart_keeps_the_database[OF demo_reachable(2), of ?f] demo_reachable(2) by (intro exI[of _ ?f]) simp
qed

end
