(* ===== verification/Postgres.thy ===== *)
theory Postgres
  imports Migrations
begin

section \<open>The Postgres adapter\<close>

text \<open>
  \<open>src/cultureshift/postgres_repository.py\<close>: the Postgres repository runs the methods of the SQLite one over an
  adapter that rewrites their SQL and their transactions. The driver (\<open>psycopg\<close>) is an argument: the functions
  its connection offers, on a state of its own. \<open>str.upper\<close> is the argument \<open>upper\<close>.
\<close>

subsection \<open>The SQL text\<close>

definition rstrip :: "pystr \<Rightarrow> pystr" where
  "rstrip s = rev (dropWhile is_space (rev s))"

definition RETURNING_ID :: pystr where
  "RETURNING_ID = lit '' RETURNING id''"

definition with_percents :: "pystr \<Rightarrow> pystr" where
  "with_percents query = concat (map (\<lambda>c. if c = 63 then [37, 115] else [c]) query)"

definition needs_id :: "pystr \<Rightarrow> bool" where
  "needs_id adapted \<longleftrightarrow> contains (lit ''INSERT INTO project_run_operations'') adapted
     \<and> \<not> contains (lit ''RETURNING id'') adapted"

definition postgres_sql :: "pystr \<Rightarrow> pystr" where
  "postgres_sql query = (let adapted = with_percents query in
     if needs_id adapted then rstrip adapted @ RETURNING_ID else adapted)"

text \<open>
  The two parameter styles of the database API: what the text means once each parameter stands for its
  placeholder. A question mark is a placeholder for \<open>sqlite3\<close>; for \<open>psycopg\<close> \<open>%s\<close> is, \<open>%%\<close> is a percent sign,
  and any other use of it is an error.
\<close>

fun bind_qmark :: "pystr \<Rightarrow> pystr list \<Rightarrow> pystr option" where
  "bind_qmark [] ps = (if ps = [] then Some [] else None)"
| "bind_qmark (c # s) ps = (if c = 63
     then (case ps of [] \<Rightarrow> None | p # ps \<Rightarrow> map_option ((@) p) (bind_qmark s ps))
     else map_option ((#) c) (bind_qmark s ps))"

fun bind_format :: "pystr \<Rightarrow> pystr list \<Rightarrow> pystr option" where
  "bind_format [] ps = (if ps = [] then Some [] else None)"
| "bind_format [c] ps = (if c = 37 then None else map_option ((#) c) (bind_format [] ps))"
| "bind_format (c # d # s) ps = (if c = 37
     then (if d = 115 then (case ps of [] \<Rightarrow> None | p # ps \<Rightarrow> map_option ((@) p) (bind_format s ps))
           else if d = 37 then map_option ((#) 37) (bind_format s ps) else None)
     else map_option ((#) c) (bind_format (d # s) ps))"

lemma bind_format_other: "c \<noteq> 37 \<Longrightarrow> bind_format (c # s) ps = map_option ((#) c) (bind_format s ps)"
  by (cases s) simp_all

lemma bind_format_percents: "37 \<notin> set query \<Longrightarrow> bind_format (with_percents query) ps = bind_qmark query ps"
proof (induction query arbitrary: ps)
  case (Cons c query)
  then show ?case
    by (cases ps) (auto simp: with_percents_def bind_format_other simp del: bind_format.simps(2))
qed (simp add: with_percents_def)

lemma rstrip_percents: "rstrip (with_percents s) = with_percents (rstrip s)"
  unfolding rstrip_def
  by (induction s rule: rev_induct) (simp_all add: with_percents_def is_space_def is_white_def)

text \<open>
  With the same parameters the rewritten text means to \<open>psycopg\<close> what the query means to \<open>sqlite3\<close>, with the
  clause that returns the id of a new operation.
\<close>

lemma postgres_sql_binds:
  assumes "37 \<notin> set query"
  shows "bind_format (postgres_sql query) ps =
    bind_qmark (if needs_id (with_percents query) then rstrip query @ RETURNING_ID else query) ps"
proof -
  have returning: "with_percents RETURNING_ID = RETURNING_ID" "37 \<notin> set RETURNING_ID"
    by (simp_all add: RETURNING_ID_def lit_def with_percents_def)
  have "set (rstrip query) \<subseteq> set query"
    unfolding rstrip_def by (metis set_dropWhileD set_rev subsetI)
  then have clean: "37 \<notin> set (rstrip query @ RETURNING_ID)"
    using assms returning(2) by auto
  have "with_percents (rstrip query @ RETURNING_ID) = with_percents (rstrip query) @ with_percents RETURNING_ID"
    by (simp add: with_percents_def)
  then show ?thesis
    using bind_format_percents[OF clean] bind_format_percents[OF assms]
    by (simp add: postgres_sql_def Let_def rstrip_percents returning(1))
qed

subsection \<open>The connection\<close>

text \<open>\<open>dv_fetch_id\<close> is \<open>cursor.fetchone()["id"]\<close>.\<close>

record ('s, 'c) driver =
  dv_connect :: "(exn, 's, unit) prog"
  dv_execute :: "pystr \<Rightarrow> pystr list \<Rightarrow> (exn, 's, 'c) prog"
  dv_fetch_id :: "'c \<Rightarrow> (exn, 's, int) prog"
  dv_commit :: "(exn, 's, unit) prog"
  dv_rollback :: "(exn, 's, unit) prog"
  dv_close :: "(exn, 's, unit) prog"

text \<open>\<open>_PostgresConnection.execute\<close>; a cursor comes with its \<open>lastrowid\<close>.\<close>

definition postgres_execute ::
  "(pystr \<Rightarrow> pystr) \<Rightarrow> ('s, 'c) driver \<Rightarrow> pystr \<Rightarrow> pystr list \<Rightarrow> (exn, 's, 'c \<times> int option) prog" where
  "postgres_execute upper dv query parameters =
     (if upper (strip_by is_space query) = lit ''BEGIN IMMEDIATE''
      then bind (dv_execute dv (lit ''SELECT pg_advisory_xact_lock(2147483001)'') []) (\<lambda>c. return (c, None))
      else let adapted = postgres_sql query in
        bind (dv_execute dv adapted parameters) (\<lambda>c.
        if endswith (rstrip adapted) (lit ''RETURNING id'')
        then bind (dv_fetch_id dv c) (\<lambda>row_id. return (c, Some row_id))
        else return (c, None)))"

text \<open>\<open>finally\<close>: the clean-up runs in either case, and what it raises replaces the outcome.\<close>

definition finally_do :: "('e, 's, 'a) prog \<Rightarrow> ('e, 's, unit) prog \<Rightarrow> ('e, 's, 'a) prog" where
  "finally_do body clean s = (case body s of (outcome, s') \<Rightarrow>
     (case clean s' of (Inl e, s'') \<Rightarrow> (Inl e, s'') | (Inr _, s'') \<Rightarrow> (outcome, s'')))"

text \<open>\<open>PostgresProjectRunRepository._connect\<close>\<close>

definition postgres_connect :: "('s, 'c) driver \<Rightarrow> (exn, 's, 'a) prog \<Rightarrow> (exn, 's, 'a) prog" where
  "postgres_connect dv body = bind (dv_connect dv) (\<lambda>_.
     finally_do
       (catch (bind body (\<lambda>a. bind (dv_commit dv) (\<lambda>_. return a)))
          (\<lambda>e. bind (dv_rollback dv) (\<lambda>_. raise e)))
       (dv_close dv))"

lemma postgres_execute_inserts:
  assumes "upper (strip_by is_space query) \<noteq> lit ''BEGIN IMMEDIATE''" "needs_id (with_percents query)"
    and "dv_execute dv (rstrip (with_percents query) @ RETURNING_ID) parameters s = (Inr c, s')"
    and "dv_fetch_id dv c s' = (Inr row_id, s'')"
  shows "postgres_execute upper dv query parameters s = (Inr (c, Some row_id), s'')"
proof -
  have "rstrip (x @ RETURNING_ID) = x @ RETURNING_ID" "endswith (x @ RETURNING_ID) (lit ''RETURNING id'')" for x
    by (simp_all add: rstrip_def RETURNING_ID_def lit_def is_space_def is_white_def endswith_def)
  then show ?thesis
    using assms by (simp add: postgres_execute_def postgres_sql_def Let_def bind_def)
qed

text \<open>
  The transaction of the adapter is \<open>connect\<close>, the transaction of the SQLite repository: on a database whose
  driver starts from what is stored, stores what was done at a commit and forgets it otherwise, a method that
  works on the open transaction as the model's method works on the tables returns with exactly the database
  the model returns with; and when anything is raised, the stored database is the old one, or the one the
  method made where committing or closing raised after the commit.
\<close>

lemma postgres_transaction_refines:
  fixes stored working :: "'s \<Rightarrow> db" and meth :: "(exn, db, 'a) prog"
  assumes opened: "\<And>s r s'. dv_connect dv s = (r, s') \<Longrightarrow> stored s' = stored s \<and> (r = Inr () \<longrightarrow> working s' = stored s)"
    and committed: "\<And>s r s'. dv_commit dv s = (r, s') \<Longrightarrow>
      stored s' = working s \<or> (\<exists>e. r = Inl e) \<and> stored s' = stored s"
    and kept: "\<And>s r s'. dv_rollback dv s = (r, s') \<Longrightarrow> stored s' = stored s"
      "\<And>s r s'. dv_close dv s = (r, s') \<Longrightarrow> stored s' = stored s"
    and body: "\<And>s r s'. body s = (r, s') \<Longrightarrow> stored s' = stored s \<and> meth (working s) = (r, working s')"
    and run: "postgres_connect dv body s = (res, s')"
  shows "case res of
      Inr a \<Rightarrow> connect meth (stored s) = (Inr a, stored s')
    | Inl e \<Rightarrow> stored s' = stored s \<or> (\<exists>a. connect meth (stored s) = (Inr a, stored s'))"
proof (cases "dv_connect dv s")
  case (Pair r s1)
  show ?thesis
  proof (cases r)
    case (Inl e)
    then show ?thesis
      using Pair run opened[OF Pair] by (auto simp: postgres_connect_def bind_def)
  next
    case (Inr u)
    obtain r2 s2 where b: "body s1 = (r2, s2)"
      by force
    have start: "stored s1 = stored s" "working s1 = stored s" "stored s2 = stored s" "meth (stored s) = (r2, working s2)"
      using opened[OF Pair] Inr body[OF b] by auto
    show ?thesis
    proof (cases r2)
      case Inl
      then show ?thesis
        using run Pair Inr b start kept
        by (auto simp: postgres_connect_def bind_def catch_def finally_do_def split: prod.splits sum.splits)
    next
      case r2: (Inr a)
      obtain r3 s3 where c: "dv_commit dv s2 = (r3, s3)"
        by force
      show ?thesis
      proof (cases r3)
        case Inl
        then show ?thesis
          using run Pair Inr b c r2 start kept committed[OF c]
          by (auto simp: postgres_connect_def bind_def catch_def finally_do_def split: prod.splits sum.splits)
      next
        case r3: (Inr v)
        then have "connect meth (stored s) = (Inr a, stored s3)"
          using start r2 committed[OF c] by auto
        then show ?thesis
          using run Pair Inr b c r2 r3 kept(2)
          by (auto simp: postgres_connect_def bind_def catch_def finally_do_def split: prod.splits sum.splits)
      qed
    qed
  qed
qed

subsection \<open>The schema\<close>

text \<open>
  The partial unique index that only Postgres has, and the foreign keys: at most one feedback operation of a run
  is in progress, and every row belongs to a run.
\<close>

definition one_active_feedback :: "db \<Rightarrow> bool" where
  "one_active_feedback d \<longleftrightarrow> distinct (map ow_run_id
     (filter (\<lambda>w. ow_kind w = FEEDBACK \<and> ow_state w = OP_IN_PROGRESS) (db_operations d)))"

definition references_runs :: "db \<Rightarrow> bool" where
  "references_runs d \<longleftrightarrow> dom (db_contexts d) \<subseteq> dom (db_runs d) \<and> dom (db_revisions d) \<subseteq> dom (db_runs d)
     \<and> ow_run_id ` set (db_operations d) \<subseteq> dom (db_runs d)"

text \<open>\<open>CREATE UNIQUE INDEX IF NOT EXISTS\<close>, which fails on rows that violate it.\<close>

definition create_feedback_index :: "unit file_prog" where
  "create_feedback_index f =
     (if ''one_active_feedback_per_run'' \<notin> set (df_tables f) \<and> \<not> one_active_feedback (df_rows f)
      then (Inl IntegrityError, f) else create_table ''one_active_feedback_per_run'' f)"

text \<open>
  \<open>PostgresProjectRunRepository.initialize\<close>: the five statements are one transaction, as Postgres rolls back the
  creation of tables too, and no column is added to a table that is there.
\<close>

definition postgres_initialize :: "unit file_prog" where
  "postgres_initialize = transact (bind (create_table ''project_runs'') (\<lambda>_. bind create_contexts (\<lambda>_.
     bind (create_table ''project_run_revisions'') (\<lambda>_. bind (create_table ''project_run_operations'') (\<lambda>_.
     create_feedback_index)))))"

lemma distinct_by_group:
  assumes "\<And>k. length (filter (\<lambda>x. g x = k) xs) \<le> 1"
  shows "distinct (map g xs)"
  using assms
proof (induction xs)
  case (Cons x xs)
  have "filter (\<lambda>y. g y = g x) xs = []"
    using Cons.prems[of "g x"] by simp
  then have "g x \<notin> g ` set xs"
    by (auto simp: filter_empty_conv image_iff)
  moreover have "length (filter (\<lambda>y. g y = k) xs) \<le> 1" for k
    using Cons.prems[of k] by (auto split: if_splits)
  ultimately show ?case
    using Cons.IH by simp
qed simp

lemma phase_feedbacks:
  "ks \<in> phase_operations p \<Longrightarrow> length (filter (\<lambda>k. fst k = FEEDBACK \<and> fst (snd k) = OP_IN_PROGRESS) ks) \<le> 1"
  by (cases p; auto simp: first_failure_def)

text \<open>No constraint that Postgres adds to the tables ever refuses what the repository's methods store.\<close>

lemma reachable_meets_constraints:
  assumes "reachable s"
  shows "one_active_feedback (sys_db s)" "references_runs (sys_db s)"
proof -
  have phase: "\<exists>p. in_phase p (view_run rid (sys_db s))" for rid
    using reachable_inv[OF assms] by (simp add: lifecycle_inv_def)
  let ?active = "filter (\<lambda>w. ow_kind w = FEEDBACK \<and> ow_state w = OP_IN_PROGRESS) (db_operations (sys_db s))"
  have "length (filter (\<lambda>w. ow_run_id w = rid) ?active) \<le> 1" for rid
  proof -
    obtain p where p: "in_phase p (view_run rid (sys_db s))"
      using phase by blast
    have "map operation_key (operations_of rid (sys_db s)) \<in> phase_operations p"
      by (rule in_phase_operations[OF p])
    from phase_feedbacks[OF this] show ?thesis
      by (simp add: operations_of_def filter_map o_def operation_key_def conj_commute conj_left_commute)
  qed
  then show "one_active_feedback (sys_db s)"
    unfolding one_active_feedback_def by (rule distinct_by_group)
  have run: "rid \<in> dom (db_runs (sys_db s))"
    if "rid \<in> dom (db_contexts (sys_db s)) \<or> rid \<in> dom (db_revisions (sys_db s)) \<or> operations_of rid (sys_db s) \<noteq> []" for rid
  proof -
    obtain p where p: "in_phase p (view_run rid (sys_db s))"
      using phase by blast
    then have "p \<noteq> Absent"
      using that by (auto simp: in_phase_def view_run_def has_revision_def split: option.splits)
    then have "phase_status p \<noteq> None"
      by (cases p) simp_all
    then show ?thesis
      using p by (auto simp: in_phase_def view_run_def)
  qed
  moreover have "operations_of (ow_run_id w) (sys_db s) \<noteq> []" if "w \<in> set (db_operations (sys_db s))" for w
    using that set_operations_of[of w "ow_run_id w" "sys_db s"] by auto
  ultimately show "references_runs (sys_db s)"
    unfolding references_runs_def image_subset_iff by blast
qed

lemma postgres_restart:
  assumes "reachable s" "complete_file f" "df_rows f = sys_db s"
  shows "\<exists>f'. postgres_initialize f = (Inr (), f') \<and> df_rows f' = df_rows f \<and> postgres_initialize f' = (Inr (), f')"
proof -
  have kept: "create_table name g = (Inr (), g)" if "name \<in> set (df_tables g)" for name g
    using that by (simp add: create_table_def)
  have run: "postgres_initialize g = (Inr (), g\<lparr>df_tables := add_table ''one_active_feedback_per_run'' (df_tables g)\<rparr>)"
    if "{''project_runs'', ''project_run_contexts'', ''project_run_revisions'', ''project_run_operations''} \<subseteq> set (df_tables g)"
      "df_rows g = sys_db s" for g
    using that reachable_meets_constraints(1)[OF assms(1)]
    by (simp add: postgres_initialize_def transact_def bind_def kept create_contexts_def create_feedback_index_def
        create_table_def add_table_def)
  let ?f = "f\<lparr>df_tables := add_table ''one_active_feedback_per_run'' (df_tables f)\<rparr>"
  have "postgres_initialize ?f = (Inr (), ?f\<lparr>df_tables := add_table ''one_active_feedback_per_run'' (df_tables ?f)\<rparr>)"
    using assms(2,3) by (intro run) (auto simp: complete_file_def add_table_def)
  then have "postgres_initialize ?f = (Inr (), ?f)"
    by (simp add: add_table_def)
  then show ?thesis
    using run[of f] assms(2,3) by (auto simp: complete_file_def)
qed

end
