(* ===== verification/Spec2Isabelle.thy ===== *)
theory Spec2Isabelle
  imports Lifecycle_Properties Stored_Runs Rate_Limits Analysis
    Revision_Properties Api_Demo Connections
    Cloud_Properties Demo_Manifest Configuration Migrations Postgres
begin

text \<open>
  CultureShift localises an advertisement between China and the United Kingdom. A client uploads a source
  advertisement, creates a run for it, has it analysed, confirms the Brand Lock (the facts and marks that must
  not change), and lets the server draft the copy, compose the image, review the result, revise it at most
  once and export it. This library models the Python package \<open>src/cultureshift\<close> and proves it correct; paths
  below are relative to its directory under \<open>src/\<close>.

  \<^bold>\<open>How the parts interact.\<close> A request handler of \<open>app.py\<close> checks a capability token, then calls a service. The
  services read and write runs through the repository (\<open>repository.py\<close>, SQLite, or Postgres by an adapter) and
  keep bytes in two stores, for source assets (\<open>asset_storage.py\<close>) and for rendered compositions
  (\<open>composition_storage.py\<close>), each on a disk or in a bucket of object storage (\<open>cloud_storage.py\<close>). Every call
  of the repository is a transaction of its own, so other requests can run between any two of them; the only
  shared state beside the stores is the rate limiter. What is passed between the parts are the validated
  contracts of \<open>contracts.py\<close>.

  \<^bold>\<open>Conventions.\<close> A Python string is the list of its code points (\<open>pystr\<close>, literals \<open>lit ''abc''\<close>), bytes are
  lists of 8-bit words, a UUID is a 128-bit word, a time is a number of microseconds with an offset. A function
  that may raise returns \<open>exn + 'a\<close> (\<open>Inl\<close> the exception, one constructor per class), one that also changes
  state is a \<open>prog\<close>, from a state to the outcome and the state it leaves, composed by \<open>bind\<close>, \<open>catch\<close> and
  their companions (\<open>Prelude\<close>, \<open>Errors\<close>, \<open>Python_Values\<close>). A class whose constructor validates is a record
  with a \<open>make_\<close> function.

  \<^bold>\<open>The library below the program.\<close>
  \<^item> \<open>Prelude\<close>, \<open>Python_Values\<close>, \<open>Errors\<close>: strings, lists, the two monads, \<open>keeps\<close> and its rules for
    invariants of programs, exceptions and their hierarchy.
  \<^item> \<open>Hashing\<close>: SHA-256, HMAC and base64 on words; \<open>Json\<close> and \<open>Text_Codecs\<close>: \<open>json.dumps\<close> and \<open>json.loads\<close>
    as the code calls them, UTF-8, with the round trips; \<open>Patterns\<close> and \<open>Text_Layout\<close>: the backtracking matcher
    for the regular expressions the code uses, with their declarative meaning, and the wrapping of text; \<open>Disk\<close>: a directory on which each
    operation may fail or tear a file, as a list of verdicts in its state says.

  \<^bold>\<open>Theories and sources.\<close>
  \<^item> \<open>Domain\<close> (\<open>domain.py\<close>), \<open>Workflow\<close> (\<open>workflow.py\<close>), \<open>Contracts\<close>, \<open>Requests\<close> and \<open>Result_Contracts\<close>
    (\<open>contracts.py\<close>), \<open>Brand_Lock\<close> (\<open>brand_lock_confirmation.py\<close>): the data with its validators.
  \<^item> \<open>Capability_Tokens\<close> (\<open>capability_tokens.py\<close>), \<open>Rate_Limits\<close> (\<open>rate_limits.py\<close>).
  \<^item> \<open>Database\<close> and \<open>Repository\<close> (\<open>repository.py\<close>): the four tables as a record of maps, the SQL statements as
    functions on it, \<open>connect\<close> as the transaction, one \<open>prog\<close> per method. \<open>Repository_Effects\<close> states what each
    method can do to the tables; every later proof rests on it. \<open>Migrations\<close> is \<open>initialize\<close>, with the databases
    of earlier versions it upgrades; \<open>Postgres\<close> is \<open>postgres_repository.py\<close>.
  \<^item> \<open>Lifecycle\<close>: the abstract specification, seventeen phases of a run and the edges between them, and the step
    relation of the repository's methods. \<open>Lifecycle_Properties\<close> and \<open>Stored_Runs\<close> prove the simulation, the
    invariants and termination (by the locale \<open>ranked_machine\<close>); \<open>Lifecycle_Demo\<close> runs one history through it.
  \<^item> \<open>Analysis\<close> (\<open>analysis_provider.py\<close>, \<open>analysis_pipeline.py\<close>), \<open>Draft_Generation\<close> (\<open>draft_generation.py\<close>),
    \<open>Critic\<close> (\<open>critic.py\<close>), \<open>Revision_Engine\<close> (\<open>revision.py\<close>): the generators, with the provider and the copywriter
    as locales (\<open>vision_provider\<close>, \<open>copywriter_protocol\<close>) interpreted on the fixtures of the code.
  \<^item> \<open>Image_Provider\<close> (\<open>image_provider.py\<close>), \<open>Fixture_Assets\<close> (\<open>fixture_assets.py\<close>), \<open>Composition\<close>
    (\<open>composition.py\<close>), \<open>Media_Types\<close>: the rendering.
  \<^item> \<open>Asset_Storage\<close> (\<open>TemporaryAssetStore\<close>) and \<open>Composition_Storage\<close> (\<open>CompositionArtifactStore\<close>) on \<open>Disk\<close>;
    the locale \<open>artifact_store\<close> is the contract the services and the export are proved against.
  \<^item> \<open>Cloud_Objects\<close> (\<open>SupabaseObjectStore\<close>) over an arbitrary \<open>urlopen\<close>: the locale \<open>storage_service\<close> is the
    documented behaviour of the service, the locale \<open>object_bucket\<close> a map from keys to objects, and the sublocale
    between them the correctness of the client. \<open>Cloud_Assets\<close> has \<open>CloudAssetStore\<close> and
    \<open>CloudCompositionArtifactStore\<close> over a bucket (locale \<open>cloud\<close>), \<open>Cloud_Server\<close> a server that loses requests
    and answers, on which the locales are interpreted, and \<open>Cloud_Properties\<close> the theorems.
  \<^item> \<open>Services\<close>, \<open>Composition_Service\<close> (\<open>composition_service.py\<close>), \<open>Composition_Export\<close>
    (\<open>composition_export.py\<close>), \<open>Revision_Service\<close> (\<open>revision_service.py\<close>): the services on the pair of both stores;
    \<open>Revision_Properties\<close> and \<open>Services_Demo\<close> have their theorems and runs.
  \<^item> \<open>Api\<close> (\<open>app.py\<close>): every handler; \<open>Api_Lifecycle\<close> and \<open>Api_Properties\<close> what holds of any sequence of
    requests; \<open>Api_Demo\<close> a concrete server; \<open>Connections\<close> two methods of the repository connection by connection. \<open>Configuration\<close>: what \<open>create_app\<close> reads from the environment and
    the answer to a request that does not validate.
  \<^item> \<open>Demo_Manifest\<close>: \<open>scripts/validate_demo_manifest.py\<close>.

  \<^bold>\<open>What is shown.\<close> The handlers refine the lifecycle whatever requests are made, however they interleave and
  whatever fails (\<open>api_refines_lifecycle\<close>), so that its invariants hold of the server: the Brand Lock is preserved
  from the analysis to the revision, stored artifacts never change, the counters are bounded and every run comes
  to rest. Tokens grant exactly what they were issued for and nothing happens without one. Uploads, saves and
  deletions are atomic on a failing disk; what was stored is what is loaded, and a deleted asset stays closed.
  The generators meet their contracts for every provider and copywriter, and on each input the error or the
  result is the one stated. The guard of the backgrounds refuses exactly the texts with a forbidden part, and
  wrapping a text answers exactly its greedy layout. The client of the object storage is
  a map from keys to objects whatever requests are lost, and the two stores on it load what they stored. A start
  of the application is safely configured, upgrades a database of an earlier version or refuses it, and changes
  nothing when it is repeated. The rewritten SQL of the Postgres adapter means what the original means, and its
  transaction is that of the SQLite repository, and no constraint of its tables refuses what the methods store.
  The manifest check accepts exactly what its declarative specification says.

  \<^bold>\<open>Interleaving and failures.\<close> The database function \<open>other\<close> of a service run stands for everything that other
  requests do between its transactions; theorems quantify over all of them that are sequences of lifecycle
  steps. Failures of the disk are verdicts in its state, failures of a request to the storage service are
  whatever \<open>urlopen\<close> answers, and theorems quantify over both. If the removal of an artifact fails on the disk
  while a request is being undone, the artifact may stay; the theorems on the services say so, and that nothing
  else does.

  \<^bold>\<open>How fine the steps are.\<close> A method of the repository is one step of the lifecycle, also where it reads the
  run in one connection and writes in the next (\<open>complete_analysis\<close>, \<open>record_failure\<close>, \<open>update_status\<close>, and
  the reads after the write of \<open>claim_analysis\<close> and \<open>complete_revision\<close>). \<open>Connections\<close> has the first two with
  other requests between their connections and proves that, with a claim of the run, this makes no
  difference. A run of \<open>generate\<close> or \<open>_execute\<close> has one gap for other requests, after the artifact is saved
  and before the result is recorded; what they read before that is one state.

  \<^bold>\<open>Bounds and fuel.\<close> The matcher of \<open>Patterns\<close> lists the ends of the matches of a pattern by recursion on it and
  needs no fuel; \<open>json.loads\<close> runs on fuel, one more than the length of the text, and is proved to answer on
  everything \<open>json.dumps\<close> writes (\<open>loads_dumps\<close>). Times are bounded by \<open>in_range\<close>, the years 1
  to 9999 of \<open>datetime\<close>. All other recursion is structural or has a measure.

  \<^bold>\<open>Parameters.\<close> Code outside the repository is an argument: the Unicode tables behind \<open>casefold\<close>, \<open>upper\<close> and
  the regular expressions' classes, Pillow (images as an abstract type with the calls of the code), the rasters
  and digest of the font, the files of the fixtures, how pydantic reads and writes a time in JSON, the decoder
  for JSON bytes that are no UTF-8, the clocks and fresh identifiers, \<open>urlopen\<close>, the database driver of
  Postgres, the file system of the manifest check, and the rewriting of the database URL's query.

  \<^bold>\<open>Not modelled.\<close> Errors of SQLite itself (a locked or damaged file raises \<open>OperationalError\<close> on connecting or
  committing); stored JSON that pydantic cannot read when \<open>initialize\<close> fills the facts of a legacy draft; Python's
  limits on the digits of an integer and the depth of a document in \<open>json.loads\<close>; Pillow's refusal of an image
  that is too large, \<open>DecompressionBombError\<close>, which \<open>composition.py\<close> does not catch and the registered fixtures
  do not cause; and in the manifest check, the \<open>ValueError\<close> of a digit limit, which the script would not catch.
  The texts of the SQL statements (each is a function on the tables; columns that hold JSON or ISO
  text are modelled by the value they encode, and pydantic's parsing of the stored document is not repeated), the
  CORS middleware, the health routes and the construction of the services in \<open>create_app\<close>, the schema export (\<open>schema_export.py\<close>, \<open>ContractRegistry\<close>,
  \<open>scripts/export_contracts.py\<close>), which prints what pydantic generates, the argument parsing of
  \<open>scripts/purge_expired_assets.py\<close> and the script that draws the fixture images. The web client under \<open>apps/\<close>
  is TypeScript and outside this library.
\<close>

end
